(* ===== verification/Prelude.thy ===== *)
theory Prelude
  imports Complex_Main "HOL-Library.Word"
begin

text \<open>
  Shared vocabulary of the development: Rust's fixed-width integers with the
  saturating, checked and converting operations the code uses, Rust strings as UTF-8 byte
  lists, the transaction monad in which every repository operation is written, and the
  theorem collections the component theories extend.
\<close>

section \<open>Theorem collections\<close>

named_theorems arith_defs \<open>definitions of the machine arithmetic\<close>
named_theorems tx_simps \<open>evaluation and inversion of transactions\<close>
named_theorems tx_pres \<open>preservation of a predicate by a transaction\<close>

section \<open>Machine integers\<close>

text \<open>
  An \<open>i64\<close> is an \<open>int\<close> and a \<open>u64\<close>, \<open>u32\<close> or \<open>usize\<close> (64-bit targets) is a \<open>nat\<close>; the
  width is written out in every operation that depends on it. A \<open>uuid\<close> is its 128-bit value; the
  code only compares identifiers.
\<close>

type_synonym i64 = int
type_synonym u64 = nat
type_synonym u32 = nat
type_synonym u16 = nat
type_synonym u8 = nat
type_synonym usize = nat
type_synonym uuid = nat

definition i64_max :: int where
  "i64_max = 9223372036854775807"

definition i64_min :: int where
  "i64_min = - 9223372036854775808"

definition u64_max :: nat where
  "u64_max = 18446744073709551615"

definition u32_max :: nat where
  "u32_max = 4294967295"

definition u16_max :: nat where
  "u16_max = 65535"

definition in_i64 :: "int \<Rightarrow> bool" where
  "in_i64 x \<longleftrightarrow> i64_min \<le> x \<and> x \<le> i64_max"

definition sat_i64 :: "int \<Rightarrow> int" where
  "sat_i64 x = max i64_min (min i64_max x)"

definition i64_saturating_add :: "i64 \<Rightarrow> i64 \<Rightarrow> i64" where
  "i64_saturating_add a b = sat_i64 (a + b)"

definition i64_saturating_sub :: "i64 \<Rightarrow> i64 \<Rightarrow> i64" where
  "i64_saturating_sub a b = sat_i64 (a - b)"

definition u64_saturating_add :: "u64 \<Rightarrow> u64 \<Rightarrow> u64" where
  "u64_saturating_add a b = min u64_max (a + b)"

definition u64_saturating_mul :: "u64 \<Rightarrow> u64 \<Rightarrow> u64" where
  "u64_saturating_mul a b = min u64_max (a * b)"

text \<open>\<open>u64::try_from(n).unwrap_or(u64::MAX)\<close> of a wider or equally wide unsigned integer.\<close>

definition u64_or_max :: "nat \<Rightarrow> u64" where
  "u64_or_max n = (if n \<le> u64_max then n else u64_max)"

text \<open>\<open>i64::try_from(u64)\<close>, and the same with \<open>unwrap_or(i64::MAX)\<close>.\<close>

definition i64_try_from_u64 :: "u64 \<Rightarrow> i64 option" where
  "i64_try_from_u64 n = (if int n \<le> i64_max then Some (int n) else None)"

definition i64_from_u64_or_max :: "u64 \<Rightarrow> i64" where
  "i64_from_u64_or_max n = (case i64_try_from_u64 n of Some v \<Rightarrow> v | None \<Rightarrow> i64_max)"

definition i64_try_from_int :: "int \<Rightarrow> i64 option" where
  "i64_try_from_int x = (if in_i64 x then Some x else None)"

text \<open>Rust's integer division truncates towards zero.\<close>

definition trunc_div :: "int \<Rightarrow> int \<Rightarrow> int" where
  "trunc_div a b = sgn a * sgn b * (\<bar>a\<bar> div \<bar>b\<bar>)"

lemmas i64_defs [arith_defs] =
  i64_max_def i64_min_def in_i64_def sat_i64_def i64_saturating_add_def i64_saturating_sub_def

lemmas u64_defs [arith_defs] =
  u64_max_def u32_max_def u16_max_def u64_saturating_add_def u64_saturating_mul_def
  i64_try_from_u64_def i64_from_u64_or_max_def i64_try_from_int_def

lemma sat_i64_in_i64 [simp, intro]: "in_i64 (sat_i64 x)"
  by (simp add: i64_defs)

lemma sat_i64_id: "in_i64 x \<Longrightarrow> sat_i64 x = x"
  by (simp add: i64_defs)

lemma sat_i64_mono: "x \<le> y \<Longrightarrow> sat_i64 x \<le> sat_i64 y"
  by (simp add: i64_defs)

lemma i64_saturating_add_in_i64 [simp]: "in_i64 (i64_saturating_add a b)"
  by (simp add: i64_saturating_add_def)

lemma i64_saturating_sub_in_i64 [simp]: "in_i64 (i64_saturating_sub a b)"
  by (simp add: i64_saturating_sub_def)

lemma i64_saturating_add_exact:
  "in_i64 (a + b) \<Longrightarrow> i64_saturating_add a b = a + b"
  by (simp add: i64_saturating_add_def sat_i64_id)

lemma i64_saturating_add_nonneg: "0 \<le> a \<Longrightarrow> 0 \<le> b \<Longrightarrow> 0 \<le> i64_saturating_add a b"
  by (simp add: i64_defs)

lemma i64_saturating_add_ge: "0 \<le> b \<Longrightarrow> in_i64 a \<Longrightarrow> a \<le> i64_saturating_add a b"
  by (simp add: i64_defs)

lemma le_i64_saturating_sub:
  "x \<le> i64_saturating_sub a b \<Longrightarrow> i64_min < x \<Longrightarrow> x + b \<le> a"
  by (simp add: i64_defs split: if_splits)

lemma u64_saturating_add_le_max [simp]: "u64_saturating_add a b \<le> u64_max"
  by (simp add: u64_saturating_add_def)

lemma u64_saturating_add_exact: "a + b \<le> u64_max \<Longrightarrow> u64_saturating_add a b = a + b"
  by (simp add: u64_saturating_add_def)

text \<open>A saturating sum of non-negative terms saturates once, at the end.\<close>

lemma i64_saturating_add_min:
  "0 \<le> a \<Longrightarrow> 0 \<le> b \<Longrightarrow> i64_saturating_add (min i64_max a) b = min i64_max (a + b)"
  by (simp add: i64_defs)

lemma u64_saturating_add_min: "u64_saturating_add (min u64_max a) b = min u64_max (a + b)"
  by (simp add: u64_saturating_add_def)

lemma i64_from_u64_or_max_inj:
  assumes "int a < i64_max" and "int b \<le> i64_max"
    and "i64_from_u64_or_max a = i64_from_u64_or_max b"
  shows "a = b"
  using assms by (simp add: u64_defs)

section \<open>Strings\<close>

text \<open>
  A Rust \<open>String\<close> or \<open>&str\<close> is its list of UTF-8 bytes, one \<open>char\<close> of HOL per byte;
  \<open>len()\<close> is \<open>length\<close>. \<open>ws_len\<close> is the byte length of a Unicode White\_Space character
  at the head of the list (0 if there is none): the code points 0009-000D, 0020, 0085, 00A0,
  1680, 2000-200A, 2028, 2029, 202F, 205F and 3000.
\<close>

type_synonym str = string

definition is_ascii_ws :: "char \<Rightarrow> bool" where
  "is_ascii_ws c \<longleftrightarrow> (9 \<le> (of_char c :: nat) \<and> (of_char c :: nat) \<le> 13) \<or> c = CHR '' ''"

definition is_ws_tail_2 :: "char \<Rightarrow> char \<Rightarrow> bool" where
  "is_ws_tail_2 a b \<longleftrightarrow> a = CHR 0xC2 \<and> (b = CHR 0x85 \<or> b = CHR 0xA0)"

definition is_ws_tail_3 :: "char \<Rightarrow> char \<Rightarrow> char \<Rightarrow> bool" where
  "is_ws_tail_3 a b c \<longleftrightarrow>
     (a = CHR 0xE1 \<and> b = CHR 0x9A \<and> c = CHR 0x80)
   \<or> (a = CHR 0xE2 \<and> b = CHR 0x80 \<and>
        (128 \<le> (of_char c :: nat) \<and> (of_char c :: nat) \<le> 138
         \<or> c = CHR 0xA8 \<or> c = CHR 0xA9 \<or> c = CHR 0xAF))
   \<or> (a = CHR 0xE2 \<and> b = CHR 0x81 \<and> c = CHR 0x9F)
   \<or> (a = CHR 0xE3 \<and> b = CHR 0x80 \<and> c = CHR 0x80)"

fun ws_len :: "str \<Rightarrow> nat" where
  "ws_len [] = 0"
| "ws_len [a] = (if is_ascii_ws a then 1 else 0)"
| "ws_len [a, b] = (if is_ascii_ws a then 1 else if is_ws_tail_2 a b then 2 else 0)"
| "ws_len (a # b # c # _) =
     (if is_ascii_ws a then 1 else if is_ws_tail_2 a b then 2
      else if is_ws_tail_3 a b c then 3 else 0)"

text \<open>\<open>value.trim().is_empty()\<close>: every character is white space.\<close>

function str_is_blank :: "str \<Rightarrow> bool" where
  "str_is_blank s =
     (if s = [] then True else if ws_len s = 0 then False else str_is_blank (drop (ws_len s) s))"
  by pat_completeness auto
termination
  by (relation "measure length") auto

declare str_is_blank.simps [simp del]

lemma str_is_blank_Nil [simp]: "str_is_blank []"
  by (subst str_is_blank.simps) simp

lemma ws_len_ascii:
  assumes "\<not> is_ascii_ws a" and "(of_char a :: nat) < 128"
  shows "ws_len (a # s) = 0"
proof -
  have "a \<noteq> CHR 0xC2" "a \<noteq> CHR 0xE1" "a \<noteq> CHR 0xE2" "a \<noteq> CHR 0xE3"
    using assms(2) by auto
  with assms(1) show ?thesis
    by (cases "a # s" rule: ws_len.cases) (auto simp: is_ws_tail_2_def is_ws_tail_3_def)
qed

lemma str_is_blank_ascii:
  "\<not> is_ascii_ws a \<Longrightarrow> (of_char a :: nat) < 128 \<Longrightarrow> \<not> str_is_blank (a # s)"
  by (subst str_is_blank.simps) (simp add: ws_len_ascii)

text \<open>ASCII case mapping, used by \<open>to_ascii_lowercase\<close>, \<open>eq_ignore_ascii_case\<close> and SQLite's
  \<open>lower\<close>.\<close>

definition is_ascii_upper :: "char \<Rightarrow> bool" where
  "is_ascii_upper c \<longleftrightarrow> 65 \<le> (of_char c :: nat) \<and> (of_char c :: nat) \<le> 90"

definition is_ascii_lower :: "char \<Rightarrow> bool" where
  "is_ascii_lower c \<longleftrightarrow> 97 \<le> (of_char c :: nat) \<and> (of_char c :: nat) \<le> 122"

definition is_ascii_digit :: "char \<Rightarrow> bool" where
  "is_ascii_digit c \<longleftrightarrow> 48 \<le> (of_char c :: nat) \<and> (of_char c :: nat) \<le> 57"

definition ascii_lower :: "char \<Rightarrow> char" where
  "ascii_lower c = (if is_ascii_upper c then char_of ((of_char c :: nat) + 32) else c)"

definition eq_ignore_ascii_case :: "str \<Rightarrow> str \<Rightarrow> bool" where
  "eq_ignore_ascii_case a b \<longleftrightarrow> map ascii_lower a = map ascii_lower b"

text \<open>Decimal rendering of an unsigned integer.\<close>

fun nat_text :: "nat \<Rightarrow> str" where
  "nat_text n = (if n < 10 then [char_of (48 + n)] else nat_text (n div 10) @ [char_of (48 + n mod 10)])"

declare nat_text.simps [simp del]

fun strip_prefix :: "str \<Rightarrow> str \<Rightarrow> str option" where
  "strip_prefix [] s = Some s"
| "strip_prefix (p # ps) [] = None"
| "strip_prefix (p # ps) (c # cs) = (if p = c then strip_prefix ps cs else None)"

lemma strip_prefix_Some_iff: "strip_prefix p s = Some r \<longleftrightarrow> s = p @ r"
  by (induction p s rule: strip_prefix.induct) auto

lemma strip_prefix_append [simp]: "strip_prefix p (p @ r) = Some r"
  by (simp add: strip_prefix_Some_iff)

section \<open>Options\<close>

text \<open>\<open>Option::is_none_or\<close> and \<open>Option::is_some_and\<close>.\<close>

definition is_none_or :: "'a option \<Rightarrow> ('a \<Rightarrow> bool) \<Rightarrow> bool" where
  "is_none_or x P = (case x of None \<Rightarrow> True | Some v \<Rightarrow> P v)"

definition is_some_and :: "'a option \<Rightarrow> ('a \<Rightarrow> bool) \<Rightarrow> bool" where
  "is_some_and x P = (case x of None \<Rightarrow> False | Some v \<Rightarrow> P v)"

section \<open>Ordered maps\<close>

text \<open>A \<open>BTreeMap\<close> is its list of entries in increasing order of the keys.\<close>

fun btree_insert :: "'k::linorder \<Rightarrow> 'v \<Rightarrow> ('k \<times> 'v) list \<Rightarrow> ('k \<times> 'v) list" where
  "btree_insert k v [] = [(k, v)]"
| "btree_insert k v ((k', v') # m) =
     (if k < k' then (k, v) # (k', v') # m
      else if k = k' then (k, v) # m
      else (k', v') # btree_insert k v m)"

lemma btree_insert_map_of: "map_of (btree_insert k v m) = (map_of m)(k \<mapsto> v)"
  by (induction k v m rule: btree_insert.induct) (auto simp: fun_eq_iff)

end
