(* ===== verification/Transactions.thy ===== *)
theory Transactions
  imports Prelude
begin

text \<open>
  Repository operations of crates/storage run inside SQLite transactions: an operation either
  commits all of its writes or, when it returns an error before \<open>tx.commit()\<close>, none. A
  transaction is a function from the database state to an error or a result with the new
  state; on an error no state is returned, and \<open>commit\<close> keeps the old one. The lemmas give
  the inversion of every combinator and a calculus of preserved predicates
  (\<open>tx_keeps\<close>), collected in \<open>tx_simps\<close> and \<open>tx_pres\<close>.
\<close>

section \<open>Combinators\<close>

type_synonym ('s, 'e, 'a) tx = "'s \<Rightarrow> 'e + 'a \<times> 's"

definition tx_return :: "'a \<Rightarrow> ('s, 'e, 'a) tx" where
  "tx_return x = (\<lambda>s. Inr (x, s))"

definition tx_fail :: "'e \<Rightarrow> ('s, 'e, 'a) tx" where
  "tx_fail e = (\<lambda>s. Inl e)"

definition tx_bind :: "('s, 'e, 'a) tx \<Rightarrow> ('a \<Rightarrow> ('s, 'e, 'b) tx) \<Rightarrow> ('s, 'e, 'b) tx" where
  "tx_bind m f = (\<lambda>s. case m s of Inl e \<Rightarrow> Inl e | Inr (a, s') \<Rightarrow> f a s')"

definition tx_then :: "('s, 'e, 'a) tx \<Rightarrow> ('s, 'e, 'b) tx \<Rightarrow> ('s, 'e, 'b) tx" where
  "tx_then m m' = tx_bind m (\<lambda>_. m')"

definition tx_gets :: "('s \<Rightarrow> 'a) \<Rightarrow> ('s, 'e, 'a) tx" where
  "tx_gets f = (\<lambda>s. Inr (f s, s))"

definition tx_modify :: "('s \<Rightarrow> 's) \<Rightarrow> ('s, 'e, unit) tx" where
  "tx_modify f = (\<lambda>s. Inr ((), f s))"

text \<open>An early return with an error when the condition fails, \<open>ok_or_else\<close> on an option, and
  \<open>?\<close> on a pure result.\<close>

definition tx_ensure :: "bool \<Rightarrow> 'e \<Rightarrow> ('s, 'e, unit) tx" where
  "tx_ensure b e = (if b then tx_return () else tx_fail e)"

definition tx_some :: "'a option \<Rightarrow> 'e \<Rightarrow> ('s, 'e, 'a) tx" where
  "tx_some x e = (case x of Some a \<Rightarrow> tx_return a | None \<Rightarrow> tx_fail e)"

definition tx_lift :: "'e + 'a \<Rightarrow> ('s, 'e, 'a) tx" where
  "tx_lift r = (case r of Inl e \<Rightarrow> tx_fail e | Inr a \<Rightarrow> tx_return a)"

primrec tx_foreach :: "'a list \<Rightarrow> ('a \<Rightarrow> ('s, 'e, unit) tx) \<Rightarrow> ('s, 'e, unit) tx" where
  "tx_foreach [] f = tx_return ()"
| "tx_foreach (x # xs) f = tx_then (f x) (tx_foreach xs f)"

primrec tx_mapM :: "'a list \<Rightarrow> ('a \<Rightarrow> ('s, 'e, 'b) tx) \<Rightarrow> ('s, 'e, 'b list) tx" where
  "tx_mapM [] f = tx_return []"
| "tx_mapM (x # xs) f =
     tx_bind (f x) (\<lambda>y. tx_bind (tx_mapM xs f) (\<lambda>ys. tx_return (y # ys)))"

definition commit :: "('s, 'e, 'a) tx \<Rightarrow> 's \<Rightarrow> ('e + 'a) \<times> 's" where
  "commit m s = (case m s of Inl e \<Rightarrow> (Inl e, s) | Inr (a, s') \<Rightarrow> (Inr a, s'))"

lemmas tx_defs =
  tx_return_def tx_fail_def tx_bind_def tx_then_def tx_gets_def tx_modify_def tx_ensure_def
  tx_some_def tx_lift_def

section \<open>Inversion\<close>

lemma tx_return_Inr_iff [simp, tx_simps]: "tx_return x s = Inr (a, s') \<longleftrightarrow> a = x \<and> s' = s"
  by (auto simp: tx_return_def)

lemma tx_return_not_Inl [simp, tx_simps]: "tx_return x s \<noteq> Inl e"
  by (simp add: tx_return_def)

lemma tx_fail_not_Inr [simp, tx_simps]: "tx_fail e s \<noteq> Inr r"
  by (simp add: tx_fail_def)

lemma tx_fail_Inl_iff [simp, tx_simps]: "tx_fail e s = Inl e' \<longleftrightarrow> e' = e"
  by (auto simp: tx_fail_def)

lemma tx_bind_Inr_iff [simp, tx_simps]:
  "tx_bind m f s = Inr (b, t) \<longleftrightarrow> (\<exists>a s'. m s = Inr (a, s') \<and> f a s' = Inr (b, t))"
  by (auto simp: tx_bind_def split: sum.splits prod.splits)

lemma tx_bind_Inl_iff [tx_simps]:
  "tx_bind m f s = Inl e \<longleftrightarrow> m s = Inl e \<or> (\<exists>a s'. m s = Inr (a, s') \<and> f a s' = Inl e)"
  by (auto simp: tx_bind_def split: sum.splits prod.splits)

lemma tx_then_Inr_iff [simp, tx_simps]:
  "tx_then m m' s = Inr (b, t) \<longleftrightarrow> (\<exists>a s'. m s = Inr (a, s') \<and> m' s' = Inr (b, t))"
  by (simp add: tx_then_def)

lemma tx_then_Inl_iff [tx_simps]:
  "tx_then m m' s = Inl e \<longleftrightarrow> m s = Inl e \<or> (\<exists>a s'. m s = Inr (a, s') \<and> m' s' = Inl e)"
  by (simp add: tx_then_def tx_bind_Inl_iff)

lemma tx_gets_Inr_iff [simp, tx_simps]: "tx_gets f s = Inr (a, s') \<longleftrightarrow> a = f s \<and> s' = s"
  by (auto simp: tx_gets_def)

lemma tx_gets_not_Inl [simp, tx_simps]: "tx_gets f s \<noteq> Inl e"
  by (simp add: tx_gets_def)

lemma tx_modify_Inr_iff [simp, tx_simps]: "tx_modify f s = Inr (u, s') \<longleftrightarrow> s' = f s"
  by (auto simp: tx_modify_def)

lemma tx_modify_not_Inl [simp, tx_simps]: "tx_modify f s \<noteq> Inl e"
  by (simp add: tx_modify_def)

lemma tx_ensure_Inr_iff [simp, tx_simps]: "tx_ensure b e s = Inr (u, s') \<longleftrightarrow> b \<and> s' = s"
  by (auto simp: tx_ensure_def)

lemma tx_ensure_Inl_iff [simp, tx_simps]: "tx_ensure b e s = Inl e' \<longleftrightarrow> \<not> b \<and> e' = e"
  by (auto simp: tx_ensure_def)

lemma tx_some_Inr_iff [simp, tx_simps]: "tx_some x e s = Inr (a, s') \<longleftrightarrow> x = Some a \<and> s' = s"
  by (auto simp: tx_some_def split: option.splits)

lemma tx_some_Inl_iff [simp, tx_simps]: "tx_some x e s = Inl e' \<longleftrightarrow> x = None \<and> e' = e"
  by (auto simp: tx_some_def split: option.splits)

lemma tx_lift_Inr_iff [simp, tx_simps]: "tx_lift r s = Inr (a, s') \<longleftrightarrow> r = Inr a \<and> s' = s"
  by (auto simp: tx_lift_def split: sum.splits)

lemma tx_lift_Inl_iff [simp, tx_simps]: "tx_lift r s = Inl e \<longleftrightarrow> r = Inl e"
  by (auto simp: tx_lift_def split: sum.splits)

lemma commit_Inr: "m s = Inr (a, s') \<Longrightarrow> commit m s = (Inr a, s')"
  by (simp add: commit_def)

lemma commit_Inl: "m s = Inl e \<Longrightarrow> commit m s = (Inl e, s)"
  by (simp add: commit_def)

lemma committed_result: "\<not> isl (m s) \<Longrightarrow> m s = Inr (fst (projr (m s)), snd (commit m s))"
  by (cases "m s") (auto simp: commit_def split: prod.split)

lemma committed_unit: "\<not> isl (m s) \<Longrightarrow> m s = Inr ((), snd (commit m s))"
  using committed_result [of m s] by simp

lemma commit_cases:
  obtains (committed) a s' where "m s = Inr (a, s')" and "commit m s = (Inr a, s')"
  | (rolled_back) e where "m s = Inl e" and "commit m s = (Inl e, s)"
proof (cases "m s")
  case (Inl e)
  show ?thesis by (rule rolled_back [OF Inl]) (simp add: commit_def Inl)
next
  case (Inr r)
  then have eq: "m s = Inr (fst r, snd r)" by simp
  show ?thesis by (rule committed [OF eq]) (simp add: commit_def eq split: prod.split)
qed

section \<open>Preserved predicates\<close>

definition tx_keeps :: "('s \<Rightarrow> bool) \<Rightarrow> ('s, 'e, 'a) tx \<Rightarrow> bool" where
  "tx_keeps P m \<longleftrightarrow> (\<forall>s a s'. P s \<longrightarrow> m s = Inr (a, s') \<longrightarrow> P s')"

lemma tx_keepsI [intro?]: "(\<And>s a s'. P s \<Longrightarrow> m s = Inr (a, s') \<Longrightarrow> P s') \<Longrightarrow> tx_keeps P m"
  by (auto simp: tx_keeps_def)

lemma tx_keepsD: "tx_keeps P m \<Longrightarrow> m s = Inr (a, s') \<Longrightarrow> P s \<Longrightarrow> P s'"
  by (auto simp: tx_keeps_def)

lemma tx_keeps_commit: "tx_keeps P m \<Longrightarrow> P s \<Longrightarrow> P (snd (commit m s))"
  by (auto simp: commit_def tx_keeps_def split: sum.split)

lemma tx_keeps_return [tx_pres, simp]: "tx_keeps P (tx_return x)"
  by (simp add: tx_keeps_def)

lemma tx_keeps_fail [tx_pres, simp]: "tx_keeps P (tx_fail e)"
  by (simp add: tx_keeps_def)

lemma tx_keeps_gets [tx_pres, simp]: "tx_keeps P (tx_gets f)"
  by (simp add: tx_keeps_def)

lemma tx_keeps_ensure [tx_pres, simp]: "tx_keeps P (tx_ensure b e)"
  by (simp add: tx_keeps_def)

lemma tx_keeps_some [tx_pres, simp]: "tx_keeps P (tx_some x e)"
  by (simp add: tx_keeps_def)

lemma tx_keeps_lift [tx_pres, simp]: "tx_keeps P (tx_lift r)"
  by (simp add: tx_keeps_def)

lemma tx_keeps_modify [tx_pres]: "(\<And>s. P s \<Longrightarrow> P (f s)) \<Longrightarrow> tx_keeps P (tx_modify f)"
  by (simp add: tx_keeps_def)

lemma tx_keeps_bind [tx_pres]:
  "tx_keeps P m \<Longrightarrow> (\<And>a. tx_keeps P (f a)) \<Longrightarrow> tx_keeps P (tx_bind m f)"
  by (rule tx_keepsI) (auto dest: tx_keepsD)

lemma tx_keeps_then [tx_pres]:
  "tx_keeps P m \<Longrightarrow> tx_keeps P m' \<Longrightarrow> tx_keeps P (tx_then m m')"
  unfolding tx_then_def by (rule tx_keeps_bind)

lemma tx_keeps_foreach [tx_pres]:
  "(\<And>x. x \<in> set xs \<Longrightarrow> tx_keeps P (f x)) \<Longrightarrow> tx_keeps P (tx_foreach xs f)"
  by (induction xs) (auto intro!: tx_keeps_then)

lemma tx_keeps_mapM [tx_pres]:
  "(\<And>x. x \<in> set xs \<Longrightarrow> tx_keeps P (f x)) \<Longrightarrow> tx_keeps P (tx_mapM xs f)"
  by (induction xs) (auto intro!: tx_keeps_bind)

lemma tx_keeps_if [tx_pres]:
  "(b \<Longrightarrow> tx_keeps P m) \<Longrightarrow> (\<not> b \<Longrightarrow> tx_keeps P m') \<Longrightarrow> tx_keeps P (if b then m else m')"
  by simp

lemma tx_keeps_case_option [tx_pres]:
  "(x = None \<Longrightarrow> tx_keeps P m) \<Longrightarrow> (\<And>a. x = Some a \<Longrightarrow> tx_keeps P (f a)) \<Longrightarrow>
   tx_keeps P (case x of None \<Rightarrow> m | Some a \<Rightarrow> f a)"
  by (cases x) auto

end
