(* ===== verification/Domain_Base.thy ===== *)
theory Domain_Base
  imports Prelude
begin

text \<open>
  The base of the domain model (crates/core/src/error.rs, common.rs, ids.rs): identifiers and
  time stamps, validation issues and domain errors, money and fingerprints.

  Identifiers are UUIDs, compared only. A \<open>DateTime<Utc>\<close> is its number of nanoseconds since the
  Unix epoch. A \<open>serde_json::Value\<close> is a \<open>json\<close>, an \<open>f32\<close> or \<open>f64\<close> an \<open>fval\<close>: every finite float
  is a rational number, and the code only compares them.
\<close>

section \<open>Identifiers, time, floats, JSON\<close>

type_synonym time = int
type_synonym project_id = uuid
type_synonym job_id = uuid
type_synonym job_unit_id = uuid
type_synonym attempt_id = uuid
type_synonym budget_id = uuid
type_synonym reservation_id = uuid
type_synonym provider_id = uuid
type_synonym export_profile_id = uuid
type_synonym chapter_id = uuid
type_synonym segment_id = uuid
type_synonym artifact_id = uuid
type_synonym rate_card_id = uuid
type_synonym usage_event_id = uuid
type_synonym voice_profile_id = uuid

datatype fval = Finite rat | Pos_Inf | Neg_Inf | Not_A_Number

fun fval_is_finite :: "fval \<Rightarrow> bool" where
  "fval_is_finite (Finite _) = True"
| "fval_is_finite _ = False"

text \<open>\<open>(lo..=hi).contains(&v)\<close> for finite bounds; a NaN is contained in no range.\<close>

fun fval_in_range :: "rat \<Rightarrow> rat \<Rightarrow> fval \<Rightarrow> bool" where
  "fval_in_range lo hi (Finite v) = (lo \<le> v \<and> v \<le> hi)"
| "fval_in_range lo hi _ = False"

text \<open>\<open>a <= b\<close> on floats is false when one of them is a NaN.\<close>

fun fval_le :: "fval \<Rightarrow> fval \<Rightarrow> bool" where
  "fval_le (Finite a) (Finite b) = (a \<le> b)"
| "fval_le Neg_Inf (Finite _) = True"
| "fval_le (Finite _) Pos_Inf = True"
| "fval_le Neg_Inf Neg_Inf = True"
| "fval_le Neg_Inf Pos_Inf = True"
| "fval_le Pos_Inf Pos_Inf = True"
| "fval_le _ _ = False"

fun fval_gt :: "fval \<Rightarrow> fval \<Rightarrow> bool" where
  "fval_gt (Finite a) (Finite b) = (a > b)"
| "fval_gt (Finite _) Neg_Inf = True"
| "fval_gt Pos_Inf (Finite _) = True"
| "fval_gt Pos_Inf Neg_Inf = True"
| "fval_gt _ _ = False"

datatype json =
  JNull | JBool bool | JNum fval | JStr str | JArr "json list" | JObj "(str \<times> json) list"

section \<open>Validation and errors\<close>

record validation_issue =
  vi_path :: str
  vi_code :: str
  vi_message :: str

definition mk_issue :: "str \<Rightarrow> str \<Rightarrow> str \<Rightarrow> validation_issue" where
  "mk_issue path code message =
     \<lparr>vi_path = path, vi_code = code, vi_message = message\<rparr>"

text \<open>The simplifier leaves the texts of an issue alone.\<close>

lemma mk_issue_cong [cong]: "mk_issue p c m = mk_issue p c m"
  by (rule refl)

datatype domain_error =
    Validation "validation_issue list"
  | InvalidTransition str str str \<comment> \<open>entity, from, to\<close>
  | DomainNotFound str str
  | DomainConflict str str
  | Unsupported str

text \<open>\<open>Validate::validate\<close>: every issue is reported, not only the first.\<close>

definition validate :: "validation_issue list \<Rightarrow> domain_error + unit" where
  "validate issues = (if issues = [] then Inr () else Inl (Validation issues))"

definition issue_if :: "bool \<Rightarrow> validation_issue \<Rightarrow> validation_issue list" where
  "issue_if b i = (if b then [i] else [])"

definition require_non_empty :: "str \<Rightarrow> str \<Rightarrow> validation_issue list" where
  "require_non_empty path v =
     issue_if (str_is_blank v) (mk_issue path ''required'' ''value must not be empty'')"

definition is_currency :: "str \<Rightarrow> bool" where
  "is_currency v \<longleftrightarrow> length v = 3 \<and> list_all is_ascii_upper v"

definition require_currency :: "str \<Rightarrow> str \<Rightarrow> validation_issue list" where
  "require_currency path v =
     issue_if (\<not> is_currency v)
       (mk_issue path ''invalid_currency''
          ''currency must be a three-letter uppercase ISO 4217 code'')"

text \<open>A nested validator's issues are reported below the field's path.\<close>

definition prefix_issues :: "str \<Rightarrow> validation_issue list \<Rightarrow> validation_issue list" where
  "prefix_issues p = map (\<lambda>i. mk_issue (p @ vi_path i) (vi_code i) (vi_message i))"

lemma issue_if_eq_Nil_iff [simp]: "issue_if b i = [] \<longleftrightarrow> \<not> b"
  by (simp add: issue_if_def)

lemma require_non_empty_eq_Nil_iff [simp]: "require_non_empty p v = [] \<longleftrightarrow> \<not> str_is_blank v"
  by (simp add: require_non_empty_def)

lemma require_currency_eq_Nil_iff [simp]: "require_currency p v = [] \<longleftrightarrow> is_currency v"
  by (simp add: require_currency_def)

lemma prefix_issues_eq_Nil_iff [simp]: "prefix_issues p is = [] \<longleftrightarrow> is = []"
  by (simp add: prefix_issues_def)

lemma validate_Inr_iff [simp]: "validate is = Inr u \<longleftrightarrow> is = []"
  by (simp add: validate_def)

lemma validate_Inl_iff [simp]: "validate is = Inl e \<longleftrightarrow> is \<noteq> [] \<and> e = Validation is"
  by (auto simp: validate_def)

section \<open>Common records\<close>

record money =
  mo_micros :: i64
  mo_currency :: str

definition money_zero :: "str \<Rightarrow> money" where
  "money_zero currency = \<lparr>mo_micros = 0, mo_currency = currency\<rparr>"

definition money_issues :: "money \<Rightarrow> validation_issue list" where
  "money_issues m = require_currency ''currency'' (mo_currency m)"

record file_fingerprint =
  ff_algorithm :: str
  ff_digest :: str
  ff_size_bytes :: u64

datatype provenance_quality = Reported | Estimated | Derived | UnknownQuality

record source_provenance =
  sp_source :: str
  sp_source_version :: "str option"
  sp_request_id :: "str option"
  sp_observed_at :: "time option"
  sp_attributes :: "(str \<times> str) list"

text \<open>The role of a character (crates/core/src/library.rs), and where a provider runs
  (crates/service/src/models.rs).\<close>

datatype character_role = NarratorRole | CharacterRole

datatype provider_mode = CloudRemote | ExternalEndpoint | ManagedChild | NativeMode

end
