(* ===== verification/Job_Lifecycle.thy ===== *)
theory Job_Lifecycle
  imports Domain_Base
begin

text \<open>
  The job domain model (crates/core/src/jobs.rs): preflight reports, jobs and their lifecycle
  state machine, job units, attempts, artifacts; and the changes the service makes to a job
  record (crates/service/src/conversion/job\_state.rs): guarded transitions, progress, the
  retry admission of a failed job and the fail-closed repair after a crash. The service's
  changes form a step relation; its invariant covers every job the service can reach.
\<close>

section \<open>Preflight\<close>

datatype preflight_operation = PreflightPreview | PreflightEstimate | PreflightDryRun

datatype preflight_severity = Information | WarningSeverity | ErrorSeverity

record preflight_finding =
  pf_code :: str
  pf_severity :: preflight_severity
  pf_subject :: "str option"
  pf_message :: str
  pf_remediation :: "str option"

record conversion_estimate =
  ce_selected_chapters :: u32
  ce_characters :: u64
  ce_estimated_input_tokens :: "u64 option"
  ce_estimated_output_tokens :: "u64 option"
  ce_estimated_audio_seconds :: "fval option"
  ce_estimated_provider_credits :: "i64 option"
  ce_estimated_costs :: "money list"
  ce_estimated_disk_bytes :: "u64 option"
  ce_earliest_completion_seconds :: "u64 option"
  ce_latest_completion_seconds :: "u64 option"
  ce_rate_card_provenance :: "(str \<times> str) list"

record preflight_report =
  pr_operation :: preflight_operation
  pr_project_id :: project_id
  pr_generated_at :: time
  pr_estimate :: "conversion_estimate option"
  pr_findings :: "preflight_finding list"
  pr_preview_artifact_id :: "artifact_id option"
  pr_potentially_billable :: bool

definition can_start :: "preflight_report \<Rightarrow> bool" where
  "can_start r = (\<not> list_ex (\<lambda>f. pf_severity f = ErrorSeverity) (pr_findings r))"

section \<open>Jobs\<close>

datatype job_kind =
  CharacterDetection | Preview | Conversion | SegmentRegeneration | Export | QualityControl
  | CacheCleanup

datatype job_state =
  Queued | Running | Pausing | Paused | Cancelling | Cancelled | Failed | Completed

fun is_terminal :: "job_state \<Rightarrow> bool" where
  "is_terminal Cancelled = True"
| "is_terminal Failed = True"
| "is_terminal Completed = True"
| "is_terminal _ = False"

definition can_transition_to :: "job_state \<Rightarrow> job_state \<Rightarrow> bool" where
  "can_transition_to self next = (case self of
      Queued \<Rightarrow> next \<in> {Running, Cancelling, Cancelled, Failed}
    | Running \<Rightarrow> next \<in> {Pausing, Cancelling, Failed, Completed}
    | Pausing \<Rightarrow> next \<in> {Paused, Cancelling, Failed}
    | Paused \<Rightarrow> next \<in> {Queued, Running, Cancelling, Cancelled}
    | Cancelling \<Rightarrow> next \<in> {Cancelled, Failed}
    | Failed \<Rightarrow> next = Queued
    | _ \<Rightarrow> False)"

text \<open>\<open>format!("{:?}", state).to\_lowercase()\<close>.\<close>

fun job_state_name :: "job_state \<Rightarrow> str" where
  "job_state_name Queued = ''queued''"
| "job_state_name Running = ''running''"
| "job_state_name Pausing = ''pausing''"
| "job_state_name Paused = ''paused''"
| "job_state_name Cancelling = ''cancelling''"
| "job_state_name Cancelled = ''cancelled''"
| "job_state_name Failed = ''failed''"
| "job_state_name Completed = ''completed''"

record job =
  j_id :: job_id
  j_project_id :: project_id
  j_kind :: job_kind
  j_state :: job_state
  j_export_profile_id :: "export_profile_id option"
  j_reservation_id :: "reservation_id option"
  j_progress_completed :: u64
  j_progress_total :: u64
  j_status_message :: "str option"
  j_allow_budget_override :: bool
  j_created_at :: time
  j_started_at :: "time option"
  j_finished_at :: "time option"
  j_updated_at :: time
  j_revision :: u64

definition job_transition :: "job \<Rightarrow> job_state \<Rightarrow> time \<Rightarrow> domain_error + job" where
  "job_transition j next now =
     (if \<not> can_transition_to (j_state j) next
      then Inl (InvalidTransition ''job'' (job_state_name (j_state j)) (job_state_name next))
      else
        let j1 = (if next = Running \<and> j_started_at j = None
                  then j\<lparr>j_started_at := Some now\<rparr> else j);
            j2 = (if is_terminal next then j1\<lparr>j_finished_at := Some now\<rparr> else j1)
        in Inr (j2\<lparr>j_state := next, j_updated_at := now\<rparr>))"

definition job_issues :: "job \<Rightarrow> validation_issue list" where
  "job_issues j =
     issue_if (j_progress_completed j > j_progress_total j)
       (mk_issue ''progress_completed'' ''out_of_range''
          ''completed progress cannot exceed total progress'')
   @ issue_if (is_terminal (j_state j) \<and> j_finished_at j = None)
       (mk_issue ''finished_at'' ''required'' ''terminal jobs require a finish time'')"

section \<open>Units, attempts, artifacts\<close>

datatype job_unit_kind =
  DetectionBatchUnit | SynthesisSegment | ChapterAssembly | MusicMix | Normalization | FinalExport
  | QualityControlUnit

datatype job_unit_state =
  UnitBlocked | UnitReady | UnitRunning | UnitRetrying | UnitPaused | UnitCancelled | UnitFailed
  | UnitCompleted

record job_unit =
  ju_id :: job_unit_id
  ju_job_id :: job_id
  ju_kind :: job_unit_kind
  ju_state :: job_unit_state
  ju_chapter_id :: "chapter_id option"
  ju_segment_id :: "segment_id option"
  ju_provider_profile_id :: "provider_id option"
  ju_dependencies :: "job_unit_id list"
  ju_attempt_count :: u16
  ju_next_attempt_at :: "time option"
  ju_output_artifact_id :: "artifact_id option"
  ju_payload :: "str \<rightharpoonup> json"
  ju_created_at :: time
  ju_updated_at :: time

datatype failure_class =
  Transport | RateLimit | ProviderServer | Authentication | ValidationFailure | CapabilityDrift
  | CancelledFailure | TimeoutBeforeDispatch | TimeoutAfterDispatch | MediaProcessing | Internal

fun is_transient :: "failure_class \<Rightarrow> bool" where
  "is_transient Transport = True"
| "is_transient RateLimit = True"
| "is_transient ProviderServer = True"
| "is_transient TimeoutBeforeDispatch = True"
| "is_transient _ = False"

fun may_have_charged :: "failure_class \<Rightarrow> bool" where
  "may_have_charged TimeoutAfterDispatch = True"
| "may_have_charged _ = False"

record job_attempt =
  ja_id :: attempt_id
  ja_job_unit_id :: job_unit_id
  ja_ordinal :: u16
  ja_started_at :: time
  ja_finished_at :: "time option"
  ja_failure_class :: "failure_class option"
  ja_error_code :: "str option"
  ja_redacted_error :: "str option"
  ja_provider_request_id :: "str option"
  ja_uncertain_charge :: bool

datatype artifact_kind =
  ImportedEpub | Cover | ReferenceAudio | PreviewArtifact | SegmentAudio | ChapterMaster
  | MixedMaster | ExportArtifact | ExportManifest

record artifact =
  ar_id :: artifact_id
  ar_kind :: artifact_kind
  ar_path :: str
  ar_fingerprint :: file_fingerprint
  ar_media_type :: "str option"
  ar_duration_ms :: "u64 option"
  ar_cache_key :: "str option"
  ar_pinned_by_job_id :: "job_id option"
  ar_created_at :: time
  ar_last_accessed_at :: time

section \<open>What the service does to a job\<close>

text \<open>
  Each definition is the change of the job record inside the named service function; the
  repository write around it is in \<open>Job\_Repository\<close>. \<open>transition\_job\<close> returns early when
  the job is already in the requested state.
\<close>

definition service_transition :: "job \<Rightarrow> job_state \<Rightarrow> str \<Rightarrow> time \<Rightarrow> domain_error + job" where
  "service_transition j next message now =
     (if j_state j = next then Inr j
      else case job_transition j next now of
             Inl e \<Rightarrow> Inl e
           | Inr j' \<Rightarrow> Inr (j'\<lparr>j_status_message := Some message\<rparr>))"

definition retry_requeue :: "job \<Rightarrow> reservation_id option \<Rightarrow> time \<Rightarrow> domain_error + job" where
  "retry_requeue j reservation now =
     (case job_transition (j\<lparr>j_reservation_id := reservation\<rparr>) Queued now of
        Inl e \<Rightarrow> Inl e
      | Inr j' \<Rightarrow> Inr (j'\<lparr>j_finished_at := None, j_status_message := Some ''Queued for retry''\<rparr>))"

definition advance_progress :: "job \<Rightarrow> time \<Rightarrow> job" where
  "advance_progress j now =
     j\<lparr>j_progress_completed :=
          min (u64_saturating_add (j_progress_completed j) 1) (j_progress_total j),
       j_updated_at := now\<rparr>"

definition set_message :: "job \<Rightarrow> str \<Rightarrow> time \<Rightarrow> job" where
  "set_message j message now = j\<lparr>j_status_message := Some message, j_updated_at := now\<rparr>"

text \<open>\<open>fail\_interrupted\_paid\_job\<close> writes the terminal state directly: Paused to Failed is
  deliberately no public transition.\<close>

definition force_fail :: "job \<Rightarrow> str \<Rightarrow> time \<Rightarrow> job" where
  "force_fail j message now =
     (if is_terminal (j_state j) then j
      else j\<lparr>j_state := Failed, j_status_message := Some message, j_finished_at := Some now,
             j_updated_at := now\<rparr>)"

text \<open>Detection rewrites both progress counters (workflows/persistence.rs); the repository
  validates the job before it writes it.\<close>

definition set_detection_progress :: "job \<Rightarrow> u64 \<Rightarrow> u64 \<Rightarrow> str \<Rightarrow> time \<Rightarrow> job" where
  "set_detection_progress j done_units all_units stage now =
     (if is_terminal (j_state j) then j
      else j\<lparr>j_progress_completed := done_units, j_progress_total := all_units,
             j_status_message := Some stage, j_updated_at := now\<rparr>)"

text \<open>
  The lifecycle actions of the API (conversion/actions.rs): the guards and the state changes each
  action makes, in order. The kinds that run synchronously support none. \<open>blocked\<close> is the answer of
  \<open>blocking\_project\_job\<close> (another job of the project is active) and \<open>detection\_retry\_ok\<close> that of
  \<open>validate\_detection\_retry\<close>.
\<close>

datatype job_action = Pause | Resume | Cancel | Retry

datatype action_error = ActionUnsupported | ActionBlocked | ActionRefused
  | ActionConflict job_action job_state | ActionDomain domain_error

definition then_transition ::
  "action_error + job \<Rightarrow> job_state \<Rightarrow> str \<Rightarrow> time \<Rightarrow> action_error + job" where
  "then_transition r next message now = (case r of
      Inl e \<Rightarrow> Inl e
    | Inr j \<Rightarrow> (case service_transition j next message now of
                 Inl e \<Rightarrow> Inl (ActionDomain e) | Inr j' \<Rightarrow> Inr j'))"

definition job_action_effect ::
  "job_action \<Rightarrow> job \<Rightarrow> bool \<Rightarrow> bool \<Rightarrow> reservation_id option \<Rightarrow> time \<Rightarrow> action_error + job" where
  "job_action_effect action j blocked detection_retry_ok reservation now =
     (if j_kind j \<in> {Preview, QualityControl, CacheCleanup} then Inl ActionUnsupported
      else if action \<in> {Resume, Retry} \<and> blocked then Inl ActionBlocked
      else case (action, j_state j) of
        (Pause, Queued) \<Rightarrow>
          then_transition (then_transition (Inr j) Running ''Preparing to pause'' now)
            Pausing ''Pausing after the active request'' now
      | (Pause, Running) \<Rightarrow>
          then_transition (Inr j) Pausing ''Pausing after the active request'' now
      | (Resume, Paused) \<Rightarrow> then_transition (Inr j) Running ''Resuming job'' now
      | (Cancel, Queued) \<Rightarrow>
          then_transition (Inr j) Cancelling ''Cancelling after the active request'' now
      | (Cancel, Running) \<Rightarrow>
          then_transition (Inr j) Cancelling ''Cancelling after the active request'' now
      | (Cancel, Paused) \<Rightarrow>
          then_transition (Inr j) Cancelling ''Cancelling after the active request'' now
      | (Retry, Failed) \<Rightarrow>
          (if j_kind j = CharacterDetection \<and> \<not> detection_retry_ok then Inl ActionRefused
           else case retry_requeue j reservation now of
             Inl e \<Rightarrow> Inl (ActionDomain e) | Inr j' \<Rightarrow> Inr j')
      | (a, s) \<Rightarrow> Inl (ActionConflict a s))"

text \<open>\<open>wait\_until\_runnable\<close> (conversion/job\_state.rs): what the worker does with the state it reads in
  one turn of its polling loop.\<close>

datatype runnable_turn = Proceed | Poll_Again | Stop str

definition runnable_turn_of :: "job \<Rightarrow> time \<Rightarrow> domain_error + job \<times> runnable_turn" where
  "runnable_turn_of j now =
     (let transit = (\<lambda>target message turn. case service_transition j target message now of
            Inl e \<Rightarrow> Inl e | Inr j' \<Rightarrow> Inr (j', turn))
      in case j_state j of
        Queued \<Rightarrow> transit Running ''Resuming conversion'' Proceed
      | Running \<Rightarrow> Inr (j, Proceed)
      | Pausing \<Rightarrow> transit Paused ''Paused'' Poll_Again
      | Paused \<Rightarrow> Inr (j, Poll_Again)
      | Cancelling \<Rightarrow> transit Cancelled ''Cancelled'' (Stop ''job cancelled'')
      | Cancelled \<Rightarrow> Inr (j, Stop ''job cancelled'')
      | Failed \<Rightarrow> Inr (j, Stop ''job has failed'')
      | Completed \<Rightarrow> Inr (j, Stop ''job is already complete''))"

section \<open>The lifecycle as a step relation\<close>

inductive job_step :: "job \<Rightarrow> job \<Rightarrow> bool" where
  transition: "service_transition j target message now = Inr j' \<Longrightarrow>
     j_state j \<noteq> Failed \<Longrightarrow> job_step j j'"
| retry: "j_state j = Failed \<Longrightarrow> retry_requeue j r now = Inr j' \<Longrightarrow> job_step j j'"
| progress: "job_step j (advance_progress j now)"
| message: "job_step j (set_message j m now)"
| detection: "job_issues (set_detection_progress j c t m now) = [] \<Longrightarrow>
     job_step j (set_detection_progress j c t m now)"
| crash: "job_step j (force_fail j m now)"

inductive job_reachable :: "job \<Rightarrow> job \<Rightarrow> bool" for j0 where
  start: "job_reachable j0 j0"
| step: "job_reachable j0 j \<Longrightarrow> job_step j j' \<Longrightarrow> job_reachable j0 j'"

inductive_cases job_stepE: "job_step j j'"
inductive_simps job_step_simps: "job_step j j'"

text \<open>A job as every admission path creates it.\<close>

definition fresh_job :: "job \<Rightarrow> bool" where
  "fresh_job j \<longleftrightarrow> j_state j = Queued \<and> j_started_at j = None \<and> j_finished_at j = None
     \<and> j_progress_completed j \<le> j_progress_total j"

definition job_inv :: "job \<Rightarrow> bool" where
  "job_inv j \<longleftrightarrow> job_issues j = []
     \<and> (is_terminal (j_state j) \<longleftrightarrow> j_finished_at j \<noteq> None)
     \<and> (j_state j \<in> {Running, Pausing, Completed} \<longrightarrow> j_started_at j \<noteq> None)"


section \<open>Lemmas\<close>

lemma job_transition_Inr:
  assumes "job_transition j next now = Inr j'"
  shows "can_transition_to (j_state j) next" "j_state j' = next" "j_updated_at j' = now"
    "j_started_at j' =
       (if next = Running \<and> j_started_at j = None then Some now else j_started_at j)"
    "j_finished_at j' = (if is_terminal next then Some now else j_finished_at j)"
    "j_progress_completed j' = j_progress_completed j" "j_progress_total j' = j_progress_total j"
    "j_id j' = j_id j" "j_project_id j' = j_project_id j" "j_kind j' = j_kind j"
    "j_created_at j' = j_created_at j" "j_revision j' = j_revision j"
  using assms by (auto simp: job_transition_def Let_def split: if_splits)

lemma job_transition_Inl:
  "job_transition j next now = Inl e \<longleftrightarrow> \<not> can_transition_to (j_state j) next \<and>
     e = InvalidTransition ''job'' (job_state_name (j_state j)) (job_state_name next)"
  by (auto simp: job_transition_def Let_def)

lemma job_issues_Nil_iff:
  "job_issues j = [] \<longleftrightarrow> j_progress_completed j \<le> j_progress_total j
     \<and> (is_terminal (j_state j) \<longrightarrow> j_finished_at j \<noteq> None)"
  by (auto simp: job_issues_def)

lemma job_inv_iff:
  "job_inv j \<longleftrightarrow> j_progress_completed j \<le> j_progress_total j
     \<and> (is_terminal (j_state j) \<longleftrightarrow> j_finished_at j \<noteq> None)
     \<and> (j_state j \<in> {Running, Pausing, Completed} \<longrightarrow> j_started_at j \<noteq> None)"
  by (auto simp: job_inv_def job_issues_Nil_iff)

lemma service_transition_inv:
  assumes "service_transition j next m now = Inr j'" and "j_state j \<noteq> Failed" and "job_inv j"
  shows "job_inv j'"
proof (cases "j_state j = next")
  case True
  with assms show ?thesis by (simp add: service_transition_def)
next
  case False
  with assms(1) obtain j1 where t: "job_transition j next now = Inr j1"
    and j': "j' = j1\<lparr>j_status_message := Some m\<rparr>"
    by (auto simp: service_transition_def split: sum.splits)
  from t have "can_transition_to (j_state j) next" by (rule job_transition_Inr)
  with assms(2,3) show ?thesis
    unfolding job_inv_iff j'
    by (cases "j_state j"; cases "next")
       (auto simp: job_transition_Inr(2-7) [OF t] can_transition_to_def split: if_splits)
qed

lemma retry_requeue_inv:
  assumes "retry_requeue j r now = Inr j'" and "job_inv j"
  shows "job_inv j'"
proof -
  from assms(1) obtain j1 where t: "job_transition (j\<lparr>j_reservation_id := r\<rparr>) Queued now = Inr j1"
    and j': "j' = j1\<lparr>j_finished_at := None, j_status_message := Some ''Queued for retry''\<rparr>"
    by (auto simp: retry_requeue_def split: sum.splits)
  from assms(2) show ?thesis
    unfolding job_inv_iff j' by (auto simp: job_transition_Inr(2-7) [OF t])
qed

lemma job_step_inv: "job_step j j' \<Longrightarrow> job_inv j \<Longrightarrow> job_inv j'"
proof (induction rule: job_step.induct)
  case (transition j target m now j')
  then show ?case by (blast intro: service_transition_inv)
next
  case (retry j r now j')
  then show ?case by (blast intro: retry_requeue_inv)
qed (auto simp: job_inv_iff job_issues_Nil_iff advance_progress_def set_message_def
    set_detection_progress_def force_fail_def split: if_splits)

lemma fresh_job_inv: "fresh_job j \<Longrightarrow> job_inv j"
  by (auto simp: fresh_job_def job_inv_iff)

lemma job_reachable_inv: "job_reachable j0 j \<Longrightarrow> fresh_job j0 \<Longrightarrow> job_inv j"
  by (induction rule: job_reachable.induct) (auto intro: fresh_job_inv job_step_inv)

lemma job_step_closed_state:
  assumes "job_step j j'" and "j_state j \<in> {Cancelled, Completed}"
  shows "j_state j' = j_state j"
  using assms
proof (induction rule: job_step.induct)
  case (transition j target m now j')
  then show ?case
    by (auto simp: service_transition_def job_transition_def can_transition_to_def
        split: if_splits)
qed (auto simp: advance_progress_def set_message_def set_detection_progress_def force_fail_def)

lemma job_reachable_closed_state:
  "job_reachable j j' \<Longrightarrow> j_state j \<in> {Cancelled, Completed} \<Longrightarrow> j_state j' = j_state j"
  by (induction rule: job_reachable.induct) (auto dest: job_step_closed_state)

end
