(* ===== verification/Accounting_Domain.thy ===== *)
theory Accounting_Domain
  imports Domain_Base
begin

text \<open>
  The accounting domain model (crates/core/src/accounting.rs): usage quantities and events,
  budgets with their scopes, periods and metrics, budget reservations, rate cards and totals.
\<close>

section \<open>Usage\<close>

datatype usage_workload = Tts | DetectionWorkload

datatype budget_metric =
  MoneyMicros | Characters | AudioMilliseconds | InputTokens | OutputTokens | TotalTokens
  | ProviderCredits

record usage_quantities =
  uq_characters :: "u64 option"
  uq_audio_milliseconds :: "u64 option"
  uq_input_tokens :: "u64 option"
  uq_output_tokens :: "u64 option"
  uq_cache_read_tokens :: "u64 option"
  uq_cache_write_tokens :: "u64 option"
  uq_reasoning_tokens :: "u64 option"
  uq_provider_credits :: "i64 option"

definition no_quantities :: usage_quantities where
  "no_quantities = \<lparr>uq_characters = None, uq_audio_milliseconds = None, uq_input_tokens = None,
     uq_output_tokens = None, uq_cache_read_tokens = None, uq_cache_write_tokens = None,
     uq_reasoning_tokens = None, uq_provider_credits = None\<rparr>"

definition unwrap_or_zero :: "nat option \<Rightarrow> nat" where
  "unwrap_or_zero x = (case x of Some n \<Rightarrow> n | None \<Rightarrow> 0)"

definition amount_for :: "usage_quantities \<Rightarrow> budget_metric \<Rightarrow> money option \<Rightarrow> i64 option" where
  "amount_for q metric cost = (case metric of
      ProviderCredits \<Rightarrow> uq_provider_credits q
    | MoneyMicros \<Rightarrow> map_option mo_micros cost
    | Characters \<Rightarrow> Option.bind (uq_characters q) i64_try_from_u64
    | AudioMilliseconds \<Rightarrow> Option.bind (uq_audio_milliseconds q) i64_try_from_u64
    | InputTokens \<Rightarrow> Option.bind (uq_input_tokens q) i64_try_from_u64
    | OutputTokens \<Rightarrow> Option.bind (uq_output_tokens q) i64_try_from_u64
    | TotalTokens \<Rightarrow> Option.bind (uq_input_tokens q) (\<lambda>input.
        i64_try_from_u64
          (u64_saturating_add (u64_saturating_add input (unwrap_or_zero (uq_output_tokens q)))
             (unwrap_or_zero (uq_reasoning_tokens q)))))"

record usage_event =
  ue_id :: usage_event_id
  ue_occurred_at :: time
  ue_workload :: usage_workload
  ue_project_id :: project_id
  ue_job_id :: "job_id option"
  ue_attempt_id :: "attempt_id option"
  ue_chapter_id :: "chapter_id option"
  ue_segment_id :: "segment_id option"
  ue_provider_profile_id :: provider_id
  ue_provider_family :: str
  ue_endpoint_family :: str
  ue_model :: "str option"
  ue_voice_profile_id :: "voice_profile_id option"
  ue_provider_request_id :: "str option"
  ue_quantities :: usage_quantities
  ue_quantity_source :: provenance_quality
  ue_cost :: "money option"
  ue_cost_source :: provenance_quality
  ue_rate_card_id :: "rate_card_id option"
  ue_uncertain_charge :: bool
  ue_redacted_raw_usage :: "(str \<times> json) list"

definition usage_event_issues :: "usage_event \<Rightarrow> validation_issue list" where
  "usage_event_issues e = (case ue_cost e of
      None \<Rightarrow> []
    | Some cost \<Rightarrow> prefix_issues ''cost.'' (money_issues cost))"

section \<open>Budgets\<close>

datatype budget_scope_kind = GlobalScope | ProviderScope

record budget_scope =
  bs_kind :: budget_scope_kind
  bs_provider_profile_id :: "provider_id option"

definition budget_scope_issues :: "budget_scope \<Rightarrow> validation_issue list" where
  "budget_scope_issues s = (case (bs_kind s, bs_provider_profile_id s) of
      (GlobalScope, Some _) \<Rightarrow>
        [mk_issue ''provider_profile_id'' ''must_be_omitted'' ''global budgets cannot name a provider'']
    | (ProviderScope, None) \<Rightarrow>
        [mk_issue ''provider_profile_id'' ''required''
           ''provider budgets require a provider profile id'']
    | _ \<Rightarrow> [])"

datatype budget_period = JobPeriod | Daily | Monthly | Lifetime

record budget =
  b_id :: budget_id
  b_name :: str
  b_scope :: budget_scope
  b_period :: budget_period
  b_metric :: budget_metric
  b_currency :: "str option"
  b_limit :: i64
  b_used :: i64
  b_warning_threshold_percent :: u8
  b_hard :: bool
  b_enabled :: bool
  b_period_started_at :: time
  b_period_ends_at :: "time option"
  b_created_at :: time
  b_updated_at :: time

definition budget_remaining :: "budget \<Rightarrow> i64 \<Rightarrow> i64" where
  "budget_remaining b actively_reserved =
     i64_saturating_sub (i64_saturating_sub (b_limit b) (b_used b)) actively_reserved"

definition budget_issues :: "budget \<Rightarrow> validation_issue list" where
  "budget_issues b =
     budget_scope_issues (b_scope b)
   @ issue_if (str_is_blank (b_name b))
       (mk_issue ''name'' ''required'' ''budget name must not be empty'')
   @ issue_if (b_limit b < 0 \<or> b_used b < 0)
       (mk_issue ''limit'' ''out_of_range'' ''budget limit and usage must not be negative'')
   @ issue_if (b_warning_threshold_percent b > 100)
       (mk_issue ''warning_threshold_percent'' ''out_of_range''
          ''warning threshold must be between 0 and 100'')
   @ (case (b_metric b, b_currency b) of
        (MoneyMicros, Some currency) \<Rightarrow>
          (if is_currency currency then []
           else [mk_issue ''currency'' ''required'' ''monetary budgets require an ISO currency''])
      | (MoneyMicros, None) \<Rightarrow>
          [mk_issue ''currency'' ''required'' ''monetary budgets require an ISO currency'']
      | (_, Some _) \<Rightarrow>
          [mk_issue ''currency'' ''must_be_omitted'' ''currency is only valid for monetary budgets'']
      | _ \<Rightarrow> [])"

section \<open>Reservations\<close>

datatype reservation_status = Active | Reconciled | Released | Expired

record budget_allocation =
  ba_budget_id :: budget_id
  ba_reserved_amount :: i64
  ba_actual_amount :: "i64 option"

record budget_reservation =
  br_id :: reservation_id
  br_job_id :: job_id
  br_status :: reservation_status
  br_allocations :: "budget_allocation list"
  br_created_at :: time
  br_expires_at :: "time option"
  br_reconciled_at :: "time option"

definition allocation_out_of_range :: "budget_allocation \<Rightarrow> bool" where
  "allocation_out_of_range a \<longleftrightarrow> ba_reserved_amount a < 0
     \<or> (case ba_actual_amount a of Some v \<Rightarrow> v < 0 | None \<Rightarrow> False)"

definition reservation_issues :: "budget_reservation \<Rightarrow> validation_issue list" where
  "reservation_issues r =
     issue_if (br_allocations r = [])
       (mk_issue ''allocations'' ''required'' ''a reservation requires at least one budget allocation'')
   @ concat (map (\<lambda>(i, a). issue_if (allocation_out_of_range a)
         (mk_issue (''allocations['' @ nat_text i @ '']'') ''out_of_range''
            ''reserved and actual amounts must not be negative''))
       (enumerate 0 (br_allocations r)))"

section \<open>Rate cards and totals\<close>

record rate_card =
  rc_id :: rate_card_id
  rc_provider_profile_id :: provider_id
  rc_model :: "str option"
  rc_workload :: usage_workload
  rc_currency :: str
  rc_effective_at :: time
  rc_expires_at :: "time option"
  rc_source :: str
  rc_source_url :: "str option"
  rc_pricing :: "(str \<times> i64) list" \<comment> \<open>a \<open>BTreeMap\<close>, its entries in key order\<close>
  rc_user_overridden :: bool

record usage_totals =
  ut_event_count :: u64
  ut_quantities :: usage_quantities
  ut_cost_by_currency_micros :: "str \<rightharpoonup> i64"
  ut_uncertain_charge_count :: u64

section \<open>Lemmas\<close>

lemma amount_for_in_i64:
  assumes "amount_for q m cost = Some a"
    and "\<And>c. cost = Some c \<Longrightarrow> in_i64 (mo_micros c)"
    and "\<And>c. uq_provider_credits q = Some c \<Longrightarrow> in_i64 c"
  shows "in_i64 a"
  using assms
  by (cases m) (auto simp: amount_for_def i64_try_from_u64_def in_i64_def i64_min_def
      bind_eq_Some_conv split: if_splits)

lemma amount_for_nonneg:
  assumes "amount_for q m cost = Some a" and "m \<noteq> MoneyMicros" and "m \<noteq> ProviderCredits"
  shows "0 \<le> a"
  using assms
  by (cases m) (auto simp: amount_for_def i64_try_from_u64_def bind_eq_Some_conv split: if_splits)

lemma budget_issues_Nil:
  assumes "budget_issues b = []"
  shows "0 \<le> b_limit b" and "0 \<le> b_used b" and "b_warning_threshold_percent b \<le> 100"
    and "budget_scope_issues (b_scope b) = []" and "\<not> str_is_blank (b_name b)"
  using assms by (auto simp: budget_issues_def)

lemma budget_issues_Nil_currency:
  assumes "budget_issues b = []"
  shows "b_metric b = MoneyMicros \<longleftrightarrow> b_currency b \<noteq> None"
    and "b_currency b = Some c \<Longrightarrow> is_currency c"
  using assms
  by (cases "b_metric b"; cases "b_currency b"; auto simp: budget_issues_def split: if_splits)+

lemma indexed_issues_Nil_iff:
  "concat (map (\<lambda>(i, a). issue_if (P a) (m i)) (enumerate n xs)) = [] \<longleftrightarrow> (\<forall>a \<in> set xs. \<not> P a)"
  by (induction xs arbitrary: n) (auto simp: issue_if_def)

lemma reservation_issues_Nil_iff:
  "reservation_issues r = [] \<longleftrightarrow>
     br_allocations r \<noteq> [] \<and> (\<forall>a \<in> set (br_allocations r). \<not> allocation_out_of_range a)"
  unfolding reservation_issues_def append_is_Nil_conv indexed_issues_Nil_iff by simp

lemma allocation_in_range:
  "\<not> allocation_out_of_range a \<Longrightarrow> 0 \<le> ba_reserved_amount a"
  "\<not> allocation_out_of_range a \<Longrightarrow> ba_actual_amount a = Some v \<Longrightarrow> 0 \<le> v"
  by (auto simp: allocation_out_of_range_def)

end
