(* ===== verification/Calendar.thy ===== *)
theory Calendar
  imports Accounting_Domain
begin

text \<open>
  Calendar periods of budgets (crates/storage/src/repositories/budgets.rs, \<open>PeriodWindow\<close>,
  \<open>period\_window\<close>, \<open>normalize\_budget\_for\_upsert\<close>).

  The calendar itself is the crate chrono: \<open>year()\<close>, \<open>month()\<close>, \<open>day()\<close> and the midnight given by
  \<open>with\_ymd\_and\_hms(y, m, d, 0, 0, 0)\<close> are the fields of a \<open>calendar\<close>, a parameter of every
  definition that uses them. The locale \<open>calendar\_laws\<close> states what the code relies on; its
  interpretation discharges the laws for the proleptic Gregorian calendar in UTC, so none
  of them is an assumption that cannot hold.
\<close>

section \<open>The calendar interface\<close>

record calendar =
  cal_year :: "time \<Rightarrow> int"
  cal_month :: "time \<Rightarrow> nat"
  cal_day :: "time \<Rightarrow> nat"
  cal_midnight :: "int \<Rightarrow> nat \<Rightarrow> nat \<Rightarrow> time"

definition day_nanos :: int where
  "day_nanos = 86400000000000"

definition next_month :: "int \<Rightarrow> nat \<Rightarrow> int \<times> nat" where
  "next_month y m = (if m = 12 then (y + 1, 1) else (y, m + 1))"

record period_window =
  pw_starts_at :: time
  pw_ends_at :: time

definition window_contains :: "period_window \<Rightarrow> time \<Rightarrow> bool" where
  "window_contains w t \<longleftrightarrow> pw_starts_at w \<le> t \<and> t < pw_ends_at w"

definition period_window_of :: "calendar \<Rightarrow> budget_period \<Rightarrow> time \<Rightarrow> period_window option" where
  "period_window_of cal period t = (case period of
      JobPeriod \<Rightarrow> None
    | Lifetime \<Rightarrow> None
    | Daily \<Rightarrow>
        let starts = cal_midnight cal (cal_year cal t) (cal_month cal t) (cal_day cal t)
        in Some \<lparr>pw_starts_at = starts, pw_ends_at = starts + day_nanos\<rparr>
    | Monthly \<Rightarrow>
        let starts = cal_midnight cal (cal_year cal t) (cal_month cal t) 1;
            (ny, nm) = next_month (cal_year cal t) (cal_month cal t)
        in Some \<lparr>pw_starts_at = starts, pw_ends_at = cal_midnight cal ny nm 1\<rparr>)"

text \<open>The \<open>expect\<close> on the window of a daily or monthly budget cannot fail: the two other periods
  are handled before it.\<close>

definition normalize_budget_for_upsert :: "calendar \<Rightarrow> budget \<Rightarrow> budget" where
  "normalize_budget_for_upsert cal b = (case b_period b of
      JobPeriod \<Rightarrow> b\<lparr>b_used := 0, b_period_started_at := b_created_at b, b_period_ends_at := None\<rparr>
    | Lifetime \<Rightarrow> b\<lparr>b_period_ends_at := None\<rparr>
    | _ \<Rightarrow> (case period_window_of cal (b_period b) (b_updated_at b) of
             None \<Rightarrow> b
           | Some w \<Rightarrow>
               let b1 = (if window_contains w (b_period_started_at b) then b else b\<lparr>b_used := 0\<rparr>)
               in b1\<lparr>b_period_started_at := pw_starts_at w,
                     b_period_ends_at := Some (pw_ends_at w)\<rparr>))"

locale calendar_laws =
  fixes cal :: calendar
  assumes day_contains: "cal_midnight cal (cal_year cal t) (cal_month cal t) (cal_day cal t) \<le> t"
      "t < cal_midnight cal (cal_year cal t) (cal_month cal t) (cal_day cal t) + day_nanos"
    and day_stable:
      "cal_midnight cal (cal_year cal t) (cal_month cal t) (cal_day cal t) \<le> u \<Longrightarrow>
       u < cal_midnight cal (cal_year cal t) (cal_month cal t) (cal_day cal t) + day_nanos \<Longrightarrow>
       cal_year cal u = cal_year cal t \<and> cal_month cal u = cal_month cal t
         \<and> cal_day cal u = cal_day cal t"
    and month_contains: "cal_midnight cal (cal_year cal t) (cal_month cal t) 1 \<le> t"
      "next_month (cal_year cal t) (cal_month cal t) = (ny, nm) \<Longrightarrow> t < cal_midnight cal ny nm 1"
    and month_stable:
      "next_month (cal_year cal t) (cal_month cal t) = (ny, nm) \<Longrightarrow>
       cal_midnight cal (cal_year cal t) (cal_month cal t) 1 \<le> u \<Longrightarrow>
       u < cal_midnight cal ny nm 1 \<Longrightarrow>
       cal_year cal u = cal_year cal t \<and> cal_month cal u = cal_month cal t"
begin

lemma window_contains_self:
  "period_window_of cal p t = Some w \<Longrightarrow> window_contains w t"
  using day_contains [of t] month_contains [of t]
  by (cases p)
     (auto simp: period_window_of_def window_contains_def Let_def split: prod.splits)

lemma window_stable:
  assumes "period_window_of cal p t = Some w" and "window_contains w u"
  shows "period_window_of cal p u = Some w"
proof (cases p)
  case Daily
  with assms day_stable [of t u] show ?thesis
    by (auto simp: period_window_of_def window_contains_def Let_def)
next
  case Monthly
  obtain ny nm where nxt: "next_month (cal_year cal t) (cal_month cal t) = (ny, nm)"
    by (cases "next_month (cal_year cal t) (cal_month cal t)")
  from Monthly assms month_stable [OF nxt, of u] nxt show ?thesis
    by (auto simp: period_window_of_def window_contains_def Let_def)
qed (use assms in \<open>simp_all add: period_window_of_def\<close>)

lemma window_eq_iff:
  assumes "period_window_of cal p t = Some w" and "period_window_of cal p u = Some v"
  shows "window_contains w u \<longleftrightarrow> v = w"
proof
  assume "window_contains w u"
  from window_stable [OF assms(1) this] assms(2) show "v = w" by simp
next
  assume "v = w"
  with window_contains_self [OF assms(2)] show "window_contains w u" by simp
qed

lemma windows_disjoint:
  assumes "period_window_of cal p t = Some w" and "period_window_of cal p u = Some v" and "w \<noteq> v"
  shows "\<not> (window_contains w x \<and> window_contains v x)"
proof
  assume x: "window_contains w x \<and> window_contains v x"
  with window_stable [OF assms(1)] window_stable [OF assms(2)]
  have "period_window_of cal p x = Some w" "period_window_of cal p x = Some v" by blast+
  with assms(3) show False by simp
qed

end

section \<open>The proleptic Gregorian calendar\<close>

text \<open>Days since 1970-01-01 to the first day of a year, of a month within its year, and back.\<close>

definition greg_leap :: "int \<Rightarrow> bool" where
  "greg_leap y \<longleftrightarrow> 4 dvd y \<and> (\<not> 100 dvd y \<or> 400 dvd y)"

definition greg_year_start :: "int \<Rightarrow> int" where
  "greg_year_start y =
     365 * (y - 1970) + (y - 1969) div 4 - (y - 1901) div 100 + (y - 1601) div 400"

definition greg_month_start :: "bool \<Rightarrow> nat \<Rightarrow> int" where
  "greg_month_start leap m =
     (let d = (if leap then 1 else 0)
      in if m \<le> 1 then 0 else if m = 2 then 31 else if m = 3 then 59 + d
         else if m = 4 then 90 + d else if m = 5 then 120 + d else if m = 6 then 151 + d
         else if m = 7 then 181 + d else if m = 8 then 212 + d else if m = 9 then 243 + d
         else if m = 10 then 273 + d else if m = 11 then 304 + d else 334 + d)"

definition greg_year :: "int \<Rightarrow> int" where
  "greg_year n =
     (let g = 400 * n div 146097 + 1970
      in if n < greg_year_start g then g - 1
         else if greg_year_start (g + 1) \<le> n then g + 1 else g)"

definition greg_month :: "bool \<Rightarrow> int \<Rightarrow> nat" where
  "greg_month leap d =
     (if d < greg_month_start leap 2 then 1 else if d < greg_month_start leap 3 then 2
      else if d < greg_month_start leap 4 then 3 else if d < greg_month_start leap 5 then 4
      else if d < greg_month_start leap 6 then 5 else if d < greg_month_start leap 7 then 6
      else if d < greg_month_start leap 8 then 7 else if d < greg_month_start leap 9 then 8
      else if d < greg_month_start leap 10 then 9 else if d < greg_month_start leap 11 then 10
      else if d < greg_month_start leap 12 then 11 else 12)"

definition greg_day_of_year :: "int \<Rightarrow> int" where
  "greg_day_of_year n = n - greg_year_start (greg_year n)"

definition greg_month_of :: "int \<Rightarrow> nat" where
  "greg_month_of n = greg_month (greg_leap (greg_year n)) (greg_day_of_year n)"

definition greg_first :: "int \<Rightarrow> nat \<Rightarrow> int" where
  "greg_first y m = greg_year_start y + greg_month_start (greg_leap y) m"

definition gregorian :: calendar where
  "gregorian = \<lparr>
     cal_year = (\<lambda>t. greg_year (t div day_nanos)),
     cal_month = (\<lambda>t. greg_month_of (t div day_nanos)),
     cal_day = (\<lambda>t. nat (t div day_nanos
        - greg_first (greg_year (t div day_nanos)) (greg_month_of (t div day_nanos))) + 1),
     cal_midnight = (\<lambda>y m d. (greg_first y m + (int d - 1)) * day_nanos)\<rparr>"

lemma leap_sum:
  fixes x a b c :: int
  assumes "q \<Longrightarrow> p" and "r \<Longrightarrow> q"
  shows "365 * (x + 1) + (a + (if p then 1 else 0)) - (b + (if q then 1 else 0))
      + (c + (if r then 1 else 0))
    = 365 * x + a - b + c + (if p \<and> (\<not> q \<or> r) then 366 else 365)"
  using assms by (cases p; cases q; cases r; simp)

lemma int_div_step:
  assumes "0 < (k::int)"
  shows "(x + 1) div k = x div k + (if k dvd x + 1 then 1 else 0)"
proof -
  have e: "x = k * (x div k) + x mod k" "0 \<le> x mod k" "x mod k < k" using assms by simp_all
  show ?thesis
  proof (cases "x mod k + 1 = k")
    case True
    with e have "x + 1 = k * (x div k) + k" by linarith
    then have f: "x + 1 = k * (x div k + 1)" by (simp only: distrib_left mult_1_right)
    then have "k dvd x + 1" by (metis dvd_triv_left)
    moreover from f assms have "(x + 1) div k = x div k + 1"
      by (metis less_irrefl nonzero_mult_div_cancel_left)
    ultimately show ?thesis by simp
  next
    case False
    with e have "x + 1 = k * (x div k) + (x mod k + 1)" "0 \<le> x mod k + 1" "x mod k + 1 < k"
      by linarith+
    note d = int_div_pos_eq [OF this] int_mod_pos_eq [OF this]
    with e(2) have "\<not> k dvd x + 1" by (simp add: dvd_eq_mod_eq_0)
    with d show ?thesis by simp
  qed
qed

lemma dvd_minus_multiple: "(k::int) dvd c \<Longrightarrow> k dvd y - c \<longleftrightarrow> k dvd y"
  using dvd_add_left_iff [of k c "y - c"] by simp

lemma greg_year_start_Suc:
  "greg_year_start (y + 1) = greg_year_start y + (if greg_leap y then 366 else 365)"
proof -
  have a: "(y + 1 - 1969) div 4 = (y - 1969) div 4 + (if 4 dvd y then 1 else 0)"
    using int_div_step [of 4 "y - 1969"] dvd_minus_multiple [of 4 1968 y] by simp
  have b: "(y + 1 - 1901) div 100 = (y - 1901) div 100 + (if 100 dvd y then 1 else 0)"
    using int_div_step [of 100 "y - 1901"] dvd_minus_multiple [of 100 1900 y] by simp
  have c: "(y + 1 - 1601) div 400 = (y - 1601) div 400 + (if 400 dvd y then 1 else 0)"
    using int_div_step [of 400 "y - 1601"] dvd_minus_multiple [of 400 1600 y] by simp
  have d: "100 dvd y \<Longrightarrow> 4 dvd y" "400 dvd y \<Longrightarrow> 100 dvd y"
    by (erule dvd_trans [rotated], simp)+
  have e: "y + 1 - 1970 = y - 1970 + 1" by simp
  show ?thesis
    unfolding greg_year_start_def greg_leap_def e a b c by (rule leap_sum [OF d])
qed

lemma greg_year_start_strict: "y < z \<Longrightarrow> greg_year_start y < greg_year_start z"
proof (induction "nat (z - y)" arbitrary: z)
  case 0
  then show ?case by simp
next
  case (Suc k)
  show ?case
  proof (cases "y = z - 1")
    case True
    then show ?thesis using greg_year_start_Suc [of "z - 1"] by (simp split: if_splits)
  next
    case False
    with Suc have "greg_year_start y < greg_year_start (z - 1)" by simp
    then show ?thesis using greg_year_start_Suc [of "z - 1"] by (simp split: if_splits)
  qed
qed

lemma greg_year_start_quotients:
  obtains a b c where "greg_year_start y = 365 * (y - 1970) + a - b + c"
    and "4 * a \<le> y - 1969" "y - 1969 < 4 * a + 4" "100 * b \<le> y - 1901" "y - 1901 < 100 * b + 100"
      "400 * c \<le> y - 1601" "y - 1601 < 400 * c + 400"
proof (rule that)
  show "greg_year_start y
    = 365 * (y - 1970) + (y - 1969) div 4 - (y - 1901) div 100 + (y - 1601) div 400"
    by (rule greg_year_start_def)
qed presburger+

lemma greg_year_start_lower: "146097 * (y - 1970) - 800 \<le> 400 * greg_year_start y"
  by (rule greg_year_start_quotients [of y]) simp

lemma greg_year_start_upper: "400 * greg_year_start y \<le> 146097 * (y - 1970) + 800"
  by (rule greg_year_start_quotients [of y]) simp

lemma greg_year_bracket:
  "greg_year_start (400 * n div 146097 + 1969) \<le> n"
  "n < greg_year_start (400 * n div 146097 + 1972)"
proof -
  define q where "q = 400 * n div 146097"
  have "400 * n = 146097 * q + (400 * n) mod 146097" unfolding q_def by simp
  moreover have "0 \<le> (400 * n) mod 146097" "(400 * n) mod 146097 < 146097" by simp_all
  ultimately have g: "146097 * q \<le> 400 * n" "400 * n < 146097 * q + 146097" by linarith+
  from g greg_year_start_upper [of "q + 1969"] show "greg_year_start (400 * n div 146097 + 1969) \<le> n"
    unfolding q_def [symmetric] by (simp add: algebra_simps)
  from g greg_year_start_lower [of "q + 1972"] show "n < greg_year_start (400 * n div 146097 + 1972)"
    unfolding q_def [symmetric] by (simp add: algebra_simps)
qed

lemma greg_year_correct:
  "greg_year_start (greg_year n) \<le> n" "n < greg_year_start (greg_year n + 1)"
  using greg_year_bracket [of n] unfolding greg_year_def Let_def
  by (auto simp: algebra_simps split: if_splits)

lemma greg_year_unique:
  assumes "greg_year_start y \<le> n" and "n < greg_year_start (y + 1)"
  shows "greg_year n = y"
proof (rule ccontr)
  assume "greg_year n \<noteq> y"
  then consider "greg_year n + 1 \<le> y" | "y + 1 \<le> greg_year n" by linarith
  then show False
  proof cases
    case 1
    then have "greg_year_start (greg_year n + 1) \<le> greg_year_start y"
      using greg_year_start_strict by (cases "greg_year n + 1 = y") (auto simp: less_imp_le)
    with assms greg_year_correct [of n] show False by linarith
  next
    case 2
    then have "greg_year_start (y + 1) \<le> greg_year_start (greg_year n)"
      using greg_year_start_strict by (cases "y + 1 = greg_year n") (auto simp: less_imp_le)
    with assms greg_year_correct [of n] show False by linarith
  qed
qed

lemma greg_day_of_year_range:
  "0 \<le> greg_day_of_year n" "greg_day_of_year n < (if greg_leap (greg_year n) then 366 else 365)"
  using greg_year_correct [of n] greg_year_start_Suc [of "greg_year n"]
  by (auto simp: greg_day_of_year_def)

lemma greg_month_range: "1 \<le> greg_month l d" "greg_month l d \<le> 12"
  by (simp_all add: greg_month_def)

lemma greg_month_lower: "0 \<le> d \<Longrightarrow> greg_month_start l (greg_month l d) \<le> d"
  by (cases l) (simp_all add: greg_month_def greg_month_start_def)

lemma greg_month_upper: "greg_month l d < 12 \<Longrightarrow> d < greg_month_start l (greg_month l d + 1)"
  by (cases l) (simp_all add: greg_month_def greg_month_start_def split: if_splits)

lemma greg_month_start_Suc:
  "1 \<le> m \<Longrightarrow> m < 12 \<Longrightarrow> greg_month_start l m \<le> greg_month_start l (Suc m)"
  by (cases l) (simp_all add: greg_month_start_def)

lemma greg_month_start_mono:
  assumes "m \<le> k" "1 \<le> m" "k \<le> 12"
  shows "greg_month_start l m \<le> greg_month_start l k"
  using assms
proof (induction k rule: dec_induct)
  case (step k)
  then show ?case using greg_month_start_Suc [of k l] by simp
qed simp

lemma greg_month_unique:
  assumes "1 \<le> m" and "m \<le> 12" and "greg_month_start l m \<le> d"
    and "m < 12 \<Longrightarrow> d < greg_month_start l (m + 1)"
  shows "greg_month l d = m"
proof -
  have "0 \<le> d" using assms(3) by (auto simp: greg_month_start_def split: if_splits)
  note c = greg_month_lower [OF this, of l] greg_month_upper [of l d]
  have "\<not> greg_month l d < m"
    using c(2) assms(1-3) greg_month_start_mono [of "greg_month l d + 1" m l] by auto
  moreover have "\<not> m < greg_month l d"
    using c(1) assms(1,4) greg_month_start_mono [of "m + 1" "greg_month l d" l]
      greg_month_range [of l d] by auto
  ultimately show ?thesis by simp
qed

lemma greg_first_split:
  "greg_first (greg_year n) (greg_month_of n) \<le> n"
  "next_month (greg_year n) (greg_month_of n) = (y, m) \<Longrightarrow> n < greg_first y m"
proof -
  have d: "0 \<le> greg_day_of_year n" by (rule greg_day_of_year_range)
  note c = greg_month_lower [OF d, of "greg_leap (greg_year n)"]
    greg_month_upper [of "greg_leap (greg_year n)" "greg_day_of_year n"]
  from c(1) show "greg_first (greg_year n) (greg_month_of n) \<le> n"
    by (simp add: greg_first_def greg_month_of_def greg_day_of_year_def)
  assume nm: "next_month (greg_year n) (greg_month_of n) = (y, m)"
  show "n < greg_first y m"
  proof (cases "greg_month_of n = 12")
    case True
    with nm greg_year_correct(2) [of n] show ?thesis
      by (auto simp: next_month_def greg_first_def greg_month_start_def)
  next
    case False
    with greg_month_range have "greg_month_of n < 12"
      unfolding greg_month_of_def by (simp add: le_neq_implies_less)
    with c(2) nm show ?thesis
      by (auto simp: next_month_def greg_first_def greg_month_of_def greg_day_of_year_def)
  qed
qed

lemma greg_month_start_bound: "greg_month_start l m \<le> (if l then 335 else 334)"
  "0 \<le> greg_month_start l m"
  by (simp_all add: greg_month_start_def)

lemma greg_month_stable:
  assumes "next_month (greg_year n) (greg_month_of n) = (y, m)"
    and "greg_first (greg_year n) (greg_month_of n) \<le> k" and "k < greg_first y m"
  shows "greg_year k = greg_year n" and "greg_month_of k = greg_month_of n"
proof -
  let ?y = "greg_year n" and ?m = "greg_month_of n"
  have r: "1 \<le> ?m" "?m \<le> 12" unfolding greg_month_of_def by (rule greg_month_range)+
  have lo: "greg_year_start ?y \<le> k"
    using assms(2) greg_month_start_bound(2) [of "greg_leap ?y" ?m] by (simp add: greg_first_def)
  have hi: "k < greg_year_start (?y + 1)"
  proof (cases "?m = 12")
    case True
    with assms(1,3) show ?thesis by (auto simp: next_month_def greg_first_def greg_month_start_def)
  next
    case False
    with assms(1,3) greg_month_start_bound(1) [of "greg_leap ?y" "?m + 1"]
      greg_year_start_Suc [of ?y]
    show ?thesis by (auto simp: next_month_def greg_first_def split: if_splits)
  qed
  from greg_year_unique [OF lo hi] show y: "greg_year k = ?y" .
  show "greg_month_of k = ?m"
    unfolding greg_month_of_def [of k] y
  proof (rule greg_month_unique [OF r])
    from assms(2) y show "greg_month_start (greg_leap ?y) ?m \<le> greg_day_of_year k"
      by (simp add: greg_first_def greg_day_of_year_def)
    assume "?m < 12"
    with assms(1,3) y show "greg_day_of_year k < greg_month_start (greg_leap ?y) (?m + 1)"
      by (auto simp: next_month_def greg_first_def greg_day_of_year_def)
  qed
qed

lemma day_nanos_pos: "0 < day_nanos"
  by (simp add: day_nanos_def)

lemma day_le_iff: "d * day_nanos \<le> t \<longleftrightarrow> d \<le> t div day_nanos"
proof
  assume "d * day_nanos \<le> t"
  from zdiv_mono1 [OF this day_nanos_pos] show "d \<le> t div day_nanos"
    using day_nanos_pos by simp
next
  assume "d \<le> t div day_nanos"
  then have "d * day_nanos \<le> (t div day_nanos) * day_nanos" using day_nanos_pos by simp
  also have "\<dots> \<le> t"
    using div_mult_mod_eq [of t day_nanos] pos_mod_sign [OF day_nanos_pos, of t] by linarith
  finally show "d * day_nanos \<le> t" .
qed

lemma day_less_iff: "t < d * day_nanos \<longleftrightarrow> t div day_nanos < d"
  using day_le_iff [of d t] by linarith

lemma day_div_iff: "d * day_nanos \<le> t \<and> t < (d + 1) * day_nanos \<longleftrightarrow> t div day_nanos = d"
  unfolding day_le_iff day_less_iff by linarith

lemma greg_midnight:
  "cal_midnight gregorian (cal_year gregorian t) (cal_month gregorian t) (cal_day gregorian t)
     = (t div day_nanos) * day_nanos"
  using greg_first_split(1) [of "t div day_nanos"] by (simp add: gregorian_def)

interpretation greg: calendar_laws gregorian
proof unfold_locales
  fix t
  show "cal_midnight gregorian (cal_year gregorian t) (cal_month gregorian t)
      (cal_day gregorian t) \<le> t"
    unfolding greg_midnight day_le_iff by simp
next
  fix t
  show "t < cal_midnight gregorian (cal_year gregorian t) (cal_month gregorian t)
      (cal_day gregorian t) + day_nanos"
    using day_less_iff [of t "t div day_nanos + 1"] unfolding greg_midnight
    by (simp add: algebra_simps)
next
  fix t u
  assume "cal_midnight gregorian (cal_year gregorian t) (cal_month gregorian t)
      (cal_day gregorian t) \<le> u"
    and "u < cal_midnight gregorian (cal_year gregorian t) (cal_month gregorian t)
      (cal_day gregorian t) + day_nanos"
  then have "u div day_nanos = t div day_nanos"
    using day_div_iff [of "t div day_nanos" u] unfolding greg_midnight by (simp add: algebra_simps)
  then show "cal_year gregorian u = cal_year gregorian t \<and> cal_month gregorian u = cal_month gregorian t
      \<and> cal_day gregorian u = cal_day gregorian t"
    by (simp add: gregorian_def)
next
  fix t
  show "cal_midnight gregorian (cal_year gregorian t) (cal_month gregorian t) 1 \<le> t"
    using greg_first_split(1) [of "t div day_nanos"] by (simp add: gregorian_def day_le_iff)
next
  fix t ny nm
  assume "next_month (cal_year gregorian t) (cal_month gregorian t) = (ny, nm)"
  then show "t < cal_midnight gregorian ny nm 1"
    using greg_first_split(2) [of "t div day_nanos" ny nm] by (simp add: gregorian_def day_less_iff)
next
  fix t ny nm u
  assume "next_month (cal_year gregorian t) (cal_month gregorian t) = (ny, nm)"
    and "cal_midnight gregorian (cal_year gregorian t) (cal_month gregorian t) 1 \<le> u"
    and "u < cal_midnight gregorian ny nm 1"
  then show "cal_year gregorian u = cal_year gregorian t \<and> cal_month gregorian u = cal_month gregorian t"
    using greg_month_stable [of "t div day_nanos" ny nm "u div day_nanos"]
    by (simp add: gregorian_def day_le_iff day_less_iff)
qed

end
