(* ===== verification/Database.thy ===== *)
theory Database
  imports Transactions Job_Lifecycle Accounting_Domain Calendar
    "HOL-Library.Char_ord" "HOL-Library.List_Lexorder"
begin

text \<open>
  The SQLite database of crates/storage: the error type (crates/storage/src/error.rs), the rows of
  the tables the modelled repositories read and write, with the constraints of
  crates/storage/migrations, and the SQL statements' effect on a table.

  A table is the list of its rows in rowid order. A column appears in a row when a statement reads
  it apart from the payload, or a constraint mentions it. A payload column holds the value that
  \<open>encode\<close> serialised, so \<open>decode\<close> of a stored payload gives the value back. Time stamps are
  stored as RFC 3339 text in UTC with as many fractional digits as needed; the text order of two of
  them is the order of the instants (the sign \<open>+\<close> that ends the seconds sorts before the point and
  the digits), so a comparison of columns is the comparison of the instants.
\<close>

section \<open>Storage errors\<close>

datatype db_failure =
  UniqueViolation | ForeignKeyViolation | CheckViolation | IntegerOverflow | SequenceExhausted

datatype entity_id = IdOf uuid | IdText str

datatype storage_error =
    DatabaseError db_failure
  | Migration
  | Io
  | Serialization
  | DomainErr domain_error
  | AlreadyRunning str
  | NotFound str entity_id
  | Conflict str entity_id
  | StaleRevision str entity_id
  | BudgetExceeded budget_id i64 i64
  | IdempotencyMismatch
  | InvalidData str "uuid list" \<comment> \<open>the message and the identifiers formatted into it\<close>

definition validated :: "validation_issue list \<Rightarrow> storage_error + unit" where
  "validated issues = (case validate issues of Inl e \<Rightarrow> Inl (DomainErr e) | Inr u \<Rightarrow> Inr u)"

lemma validated_Inr_iff [simp]: "validated issues = Inr u \<longleftrightarrow> issues = []"
  by (auto simp: validated_def split: sum.splits)

lemma validated_Inl_iff [simp]:
  "validated issues = Inl e \<longleftrightarrow> issues \<noteq> [] \<and> e = DomainErr (Validation issues)"
  by (auto simp: validated_def split: sum.splits)

section \<open>Rows\<close>

record budget_row =
  bg_id :: budget_id
  bg_provider_id :: "provider_id option"
  bg_name :: str
  bg_period :: budget_period
  bg_enabled :: bool
  bg_limit_value :: i64
  bg_used_value :: i64
  bg_payload :: budget

record period_usage_row =
  pu_budget_id :: budget_id
  pu_period_started_at :: time
  pu_period_ends_at :: time
  pu_used_value :: i64
  pu_updated_at :: time

record reservation_row =
  rv_id :: reservation_id
  rv_job_id :: job_id
  rv_status :: reservation_status
  rv_created_at :: time
  rv_expires_at :: "time option"
  rv_reconciled_at :: "time option"
  rv_usage_sequence_start :: i64
  rv_payload :: budget_reservation

record allocation_row =
  al_reservation_id :: reservation_id
  al_budget_id :: budget_id
  al_reserved_amount :: i64
  al_actual_amount :: "i64 option"

record job_row =
  jr_id :: job_id
  jr_project_id :: project_id
  jr_export_profile_id :: "export_profile_id option"
  jr_reservation_id :: "reservation_id option"
  jr_state :: job_state
  jr_revision :: i64
  jr_created_at :: time
  jr_payload :: job

datatype export_layout = SingleFile | PerChapter

datatype output_reservation_state = Reserved | Promoting | Promoted

record output_row =
  ou_job_id :: job_id
  ou_project_id :: project_id
  ou_destination_key :: str
  ou_destination_path :: str
  ou_layout :: export_layout
  ou_state :: output_reservation_state
  ou_created_at :: time
  ou_updated_at :: time
  ou_promoted_at :: "time option"

record unit_row =
  un_id :: job_unit_id
  un_job_id :: job_id
  un_chapter_id :: "chapter_id option"
  un_proof_segment_id :: "segment_id option"
  un_provider_id :: "provider_id option"
  un_state :: job_unit_state
  un_payload :: job_unit

record dependency_row =
  de_job_unit_id :: job_unit_id
  de_depends_on_id :: job_unit_id

record attempt_row =
  at_id :: attempt_id
  at_job_unit_id :: job_unit_id
  at_ordinal :: i64
  at_payload :: job_attempt

record ledger_row =
  lg_sequence :: i64
  lg_event :: usage_event

record idempotency_row =
  ik_scope :: str
  ik_key :: str
  ik_request_hash :: str
  ik_response_status :: "i64 option"
  ik_response_body :: "str option"
  ik_response_content_type :: "str option"
  ik_created_at :: time
  ik_expires_at :: time

text \<open>\<open>db\_providers\<close>, \<open>db\_projects\<close>, \<open>db\_export\_profiles\<close>, \<open>db\_chapters\<close> and \<open>db\_segments\<close>
  are the keys of the tables that foreign keys of the modelled ones refer to.\<close>

record db =
  db_providers :: "provider_id list"
  db_projects :: "project_id list"
  db_export_profiles :: "export_profile_id list"
  db_chapters :: "chapter_id list"
  db_segments :: "segment_id list"
  db_budgets :: "budget_row list"
  db_period_usage :: "period_usage_row list"
  db_reservations :: "reservation_row list"
  db_allocations :: "allocation_row list"
  db_jobs :: "job_row list"
  db_units :: "unit_row list"
  db_dependencies :: "dependency_row list"
  db_attempts :: "attempt_row list"
  db_outputs :: "output_row list"
  db_ledger :: "ledger_row list"
  db_ledger_last :: i64
  db_idempotency :: "idempotency_row list"
  db_rate_cards :: "rate_card list"

type_synonym 'a db_tx = "(db, storage_error, 'a) tx"

section \<open>Statements\<close>

definition sql_update :: "('r \<Rightarrow> bool) \<Rightarrow> ('r \<Rightarrow> 'r) \<Rightarrow> 'r list \<Rightarrow> 'r list" where
  "sql_update P f rows = map (\<lambda>r. if P r then f r else r) rows"

definition sql_delete :: "('r \<Rightarrow> bool) \<Rightarrow> 'r list \<Rightarrow> 'r list" where
  "sql_delete P rows = filter (\<lambda>r. \<not> P r) rows"

definition rows_affected :: "('r \<Rightarrow> bool) \<Rightarrow> 'r list \<Rightarrow> nat" where
  "rows_affected P rows = length (filter P rows)"

text \<open>\<open>COALESCE(SUM(f), 0)\<close> over the rows that satisfy \<open>P\<close>; SQLite reports an overflow.\<close>

definition sql_sum :: "('r \<Rightarrow> bool) \<Rightarrow> ('r \<Rightarrow> int) \<Rightarrow> 'r list \<Rightarrow> int" where
  "sql_sum P f rows = sum_list (map f (filter P rows))"

definition checked_sum :: "int \<Rightarrow> i64 db_tx" where
  "checked_sum v = tx_then (tx_ensure (in_i64 v) (DatabaseError IntegerOverflow)) (tx_return v)"

definition enforce :: "bool \<Rightarrow> db_failure \<Rightarrow> unit db_tx" where
  "enforce ok failure = tx_ensure ok (DatabaseError failure)"

text \<open>A foreign key that may be NULL.\<close>

definition optional_member :: "'a list \<Rightarrow> 'a option \<Rightarrow> bool" where
  "optional_member xs x = (case x of None \<Rightarrow> True | Some v \<Rightarrow> List.member xs v)"

section \<open>Lemmas\<close>

lemma checked_sum_Inr_iff [simp, tx_simps]:
  "checked_sum v s = Inr (a, s') \<longleftrightarrow> in_i64 v \<and> a = v \<and> s' = s"
  by (auto simp: checked_sum_def)

lemma checked_sum_keeps [simp, tx_pres]: "tx_keeps P (checked_sum v)"
  by (simp add: checked_sum_def tx_keeps_then)

lemma enforce_Inr_iff [simp, tx_simps]: "enforce b e s = Inr (u, s') \<longleftrightarrow> b \<and> s' = s"
  by (auto simp: enforce_def)

lemma enforce_keeps [simp, tx_pres]: "tx_keeps P (enforce b e)"
  by (simp add: enforce_def)

lemma sql_update_Nil [simp]: "sql_update P f [] = []"
  by (simp add: sql_update_def)

lemma sql_update_Cons [simp]:
  "sql_update P f (r # rs) = (if P r then f r else r) # sql_update P f rs"
  by (simp add: sql_update_def)

lemma length_sql_update [simp]: "length (sql_update P f rows) = length rows"
  by (simp add: sql_update_def)

lemma set_sql_update:
  "r \<in> set (sql_update P f rows) \<longleftrightarrow> (\<exists>q \<in> set rows. r = (if P q then f q else q))"
  by (auto simp: sql_update_def)

lemma map_sql_update:
  "(\<And>r. P r \<Longrightarrow> g (f r) = g r) \<Longrightarrow> map g (sql_update P f rows) = map g rows"
  by (simp add: sql_update_def)

lemma map_sql_update_set:
  "(\<And>r. r \<in> set rows \<Longrightarrow> P r \<Longrightarrow> g (f r) = g r) \<Longrightarrow> map g (sql_update P f rows) = map g rows"
  by (simp add: sql_update_def)

lemma sql_update_none: "(\<And>r. r \<in> set rows \<Longrightarrow> \<not> P r) \<Longrightarrow> sql_update P f rows = rows"
  by (induction rows) auto

lemma set_sql_delete [simp]: "set (sql_delete P rows) = {r \<in> set rows. \<not> P r}"
  by (simp add: sql_delete_def)

lemma distinct_map_sql_delete: "distinct (map f rows) \<Longrightarrow> distinct (map f (sql_delete P rows))"
  by (simp add: sql_delete_def distinct_map_filter)

lemma rows_affected_eq_0_iff: "rows_affected P rows = 0 \<longleftrightarrow> (\<forall>r \<in> set rows. \<not> P r)"
  by (simp add: rows_affected_def filter_empty_conv)

lemma sql_sum_Nil [simp]: "sql_sum P f [] = 0"
  by (simp add: sql_sum_def)

lemma sql_sum_Cons [simp]:
  "sql_sum P f (r # rs) = (if P r then f r else 0) + sql_sum P f rs"
  by (simp add: sql_sum_def)

lemma sql_sum_append [simp]: "sql_sum P f (xs @ ys) = sql_sum P f xs + sql_sum P f ys"
  by (simp add: sql_sum_def)

lemma sql_sum_nonneg: "(\<And>r. r \<in> set rows \<Longrightarrow> P r \<Longrightarrow> 0 \<le> f r) \<Longrightarrow> 0 \<le> sql_sum P f rows"
  by (auto simp: sql_sum_def intro!: sum_list_nonneg)

lemma sql_sum_cong:
  "(\<And>r. r \<in> set rows \<Longrightarrow> P r = Q r) \<Longrightarrow> (\<And>r. r \<in> set rows \<Longrightarrow> Q r \<Longrightarrow> f r = g r) \<Longrightarrow>
   sql_sum P f rows = sql_sum Q g rows"
  by (induction rows) auto

lemma sql_sum_mono:
  assumes "\<And>r. r \<in> set rows \<Longrightarrow> P r \<Longrightarrow> Q r" and "\<And>r. r \<in> set rows \<Longrightarrow> 0 \<le> f r"
  shows "sql_sum P f rows \<le> sql_sum Q f rows"
  using assms by (induction rows) (auto intro!: add_increasing)

lemma find_id_unique:
  assumes "distinct (map f rows)" and "r \<in> set rows"
  shows "find (\<lambda>q. f q = f r) rows = Some r"
  using assms by (induction rows) (auto simp: image_iff)

lemma find_Some_D: "find P rows = Some r \<Longrightarrow> r \<in> set rows \<and> P r"
  by (auto simp: find_Some_iff)

lemma find_None_D: "find P rows = None \<Longrightarrow> r \<in> set rows \<Longrightarrow> \<not> P r"
  by (auto simp: find_None_iff)

lemma find_sql_update:
  assumes "\<And>r. P r \<Longrightarrow> Q (f r) = Q r"
  shows "find Q (sql_update P f rows) = map_option (\<lambda>r. if P r then f r else r) (find Q rows)"
  using assms by (induction rows) auto

lemma find_append: "find P (xs @ ys) = (case find P xs of Some v \<Rightarrow> Some v | None \<Rightarrow> find P ys)"
  by (induction xs) auto

lemma sum_list_at_key:
  assumes "distinct (map k xs)" and "a \<in> set xs"
    and "\<And>x. x \<in> set xs \<Longrightarrow> k x \<noteq> k a \<Longrightarrow> g x = (0::int)"
  shows "sum_list (map g xs) = g a"
  using assms
proof (induction xs)
  case (Cons x xs)
  show ?case
  proof (cases "x = a")
    case True
    with Cons.prems have "g y = 0" if "y \<in> set xs" for y using that by (auto simp: image_iff)
    with True show ?thesis by (simp cong: map_cong)
  next
    case False
    with Cons.prems have a: "a \<in> set xs" and "k x \<noteq> k a" by (auto simp: image_iff)
    with Cons.prems have "g x = 0" by simp
    with Cons a show ?thesis by simp
  qed
qed simp

lemma sql_sum_alt: "sql_sum P f rows = sum_list (map (\<lambda>r. if P r then f r else 0) rows)"
  by (induction rows) auto

end
