(* ===== verification/Budget_Repository.thy ===== *)
theory Budget_Repository
  imports Database
begin

text \<open>
  The budget repository (crates/storage/src/repositories/budgets.rs): calendar roll-over of a
  budget's usage, admission of a reservation against every budget it names, reconciliation and
  release. Each method of \<open>BudgetRepository\<close> is a transaction with the prefix \<open>budget\_\<close>.
  The step relation \<open>budget\_step\<close> has one step per method; the lemmas prove the
  well-formedness invariant of the budget tables, the effect of every operation on the rows it
  names, and that it leaves the others alone.
\<close>

section \<open>Loading rows\<close>

definition decode_budget_row :: "budget_row \<Rightarrow> budget" where
  "decode_budget_row row = (bg_payload row)\<lparr>b_used := bg_used_value row\<rparr>"

definition find_budget :: "db \<Rightarrow> budget_id \<Rightarrow> budget option" where
  "find_budget s i = map_option decode_budget_row (find (\<lambda>r. bg_id r = i) (db_budgets s))"

definition load_budget_tx :: "budget_id \<Rightarrow> budget option db_tx" where
  "load_budget_tx i = tx_gets (\<lambda>s. find_budget s i)"

text \<open>\<open>load\_budget\_tx(...).await?.ok\_or\_else(NotFound)\<close>.\<close>

definition require_budget_tx :: "budget_id \<Rightarrow> budget db_tx" where
  "require_budget_tx i =
     tx_bind (load_budget_tx i) (\<lambda>b. tx_some b (NotFound ''budget'' (IdOf i)))"

definition decode_reservation_row :: "reservation_row \<Rightarrow> budget_reservation" where
  "decode_reservation_row row = (rv_payload row)\<lparr>br_status := rv_status row\<rparr>"

definition find_reservation :: "db \<Rightarrow> reservation_id \<Rightarrow> budget_reservation option" where
  "find_reservation s i =
     map_option decode_reservation_row (find (\<lambda>r. rv_id r = i) (db_reservations s))"

definition load_reservation_tx :: "reservation_id \<Rightarrow> budget_reservation option db_tx" where
  "load_reservation_tx i = tx_gets (\<lambda>s. find_reservation s i)"

definition budget_get_reservation :: "reservation_id \<Rightarrow> budget_reservation option db_tx" where
  "budget_get_reservation i = load_reservation_tx i"

section \<open>Period usage\<close>

definition is_usage_row :: "budget_id \<Rightarrow> time \<Rightarrow> period_usage_row \<Rightarrow> bool" where
  "is_usage_row i t row \<longleftrightarrow> pu_budget_id row = i \<and> pu_period_started_at row = t"

definition usage_row :: "budget_id \<Rightarrow> period_window \<Rightarrow> i64 \<Rightarrow> time \<Rightarrow> period_usage_row" where
  "usage_row i w used now = \<lparr>pu_budget_id = i, pu_period_started_at = pw_starts_at w,
     pu_period_ends_at = pw_ends_at w, pu_used_value = used, pu_updated_at = now\<rparr>"

definition budget_exists :: "db \<Rightarrow> budget_id \<Rightarrow> bool" where
  "budget_exists s i = list_ex (\<lambda>r. bg_id r = i) (db_budgets s)"

definition insert_usage_tx :: "period_usage_row \<Rightarrow> unit db_tx" where
  "insert_usage_tx row =
     tx_then (enforce (0 \<le> pu_used_value row) CheckViolation)
       (tx_bind (tx_gets (\<lambda>s. budget_exists s (pu_budget_id row))) (\<lambda>ok.
          tx_then (enforce ok ForeignKeyViolation)
            (tx_modify (\<lambda>s. s\<lparr>db_period_usage := db_period_usage s @ [row]\<rparr>))))"

definition period_usage :: "db \<Rightarrow> budget_id \<Rightarrow> time \<Rightarrow> i64 option" where
  "period_usage s i t = map_option pu_used_value (find (is_usage_row i t) (db_period_usage s))"

definition get_or_create_period_usage_tx ::
  "budget_id \<Rightarrow> period_window \<Rightarrow> i64 \<Rightarrow> time \<Rightarrow> i64 db_tx" where
  "get_or_create_period_usage_tx i w initial_used now =
     tx_bind (tx_gets (\<lambda>s. period_usage s i (pw_starts_at w))) (\<lambda>existing. case existing of
         Some used \<Rightarrow> tx_return used
       | None \<Rightarrow> tx_then (insert_usage_tx (usage_row i w initial_used now))
                   (tx_return initial_used))"

definition set_period_usage_tx ::
  "budget_id \<Rightarrow> period_window \<Rightarrow> i64 \<Rightarrow> time \<Rightarrow> unit db_tx" where
  "set_period_usage_tx i w used now =
     tx_bind (tx_gets (\<lambda>s. period_usage s i (pw_starts_at w))) (\<lambda>existing. case existing of
         None \<Rightarrow> insert_usage_tx (usage_row i w used now)
       | Some _ \<Rightarrow> tx_then (enforce (0 \<le> used) CheckViolation)
           (tx_modify (\<lambda>s. s\<lparr>db_period_usage :=
              sql_update (is_usage_row i (pw_starts_at w)) (\<lambda>_. usage_row i w used now)
                (db_period_usage s)\<rparr>)))"

definition add_period_usage_tx ::
  "budget_id \<Rightarrow> period_window \<Rightarrow> i64 \<Rightarrow> time \<Rightarrow> i64 db_tx" where
  "add_period_usage_tx i w amount now =
     tx_bind (get_or_create_period_usage_tx i w 0 now) (\<lambda>used.
       let updated = i64_saturating_add used amount in
       tx_then (set_period_usage_tx i w updated now) (tx_return updated))"

section \<open>Rolling a budget to the current period\<close>

definition persist_budget_state_tx :: "budget \<Rightarrow> unit db_tx" where
  "persist_budget_state_tx b =
     tx_bind (tx_gets (\<lambda>s. budget_exists s (b_id b))) (\<lambda>found.
       tx_then (enforce (found \<longrightarrow> 0 \<le> b_used b) CheckViolation)
         (tx_modify (\<lambda>s. s\<lparr>db_budgets := sql_update (\<lambda>r. bg_id r = b_id b)
            (\<lambda>r. r\<lparr>bg_used_value := b_used b, bg_payload := b\<rparr>) (db_budgets s)\<rparr>)))"

definition roll_period_tx :: "calendar \<Rightarrow> budget \<Rightarrow> time \<Rightarrow> budget db_tx" where
  "roll_period_tx cal b now = (case b_period b of
      JobPeriod \<Rightarrow> tx_return
        (b\<lparr>b_used := 0, b_period_started_at := b_created_at b, b_period_ends_at := None\<rparr>)
    | Lifetime \<Rightarrow> tx_return (b\<lparr>b_period_ends_at := None\<rparr>)
    | _ \<Rightarrow> (case period_window_of cal (b_period b) now of
        None \<Rightarrow> tx_return b
      | Some w \<Rightarrow>
          tx_bind (get_or_create_period_usage_tx (b_id b) w
              (if window_contains w (b_period_started_at b) then b_used b else 0) now)
            (\<lambda>used. tx_return (b\<lparr>b_used := used, b_period_started_at := pw_starts_at w,
               b_period_ends_at := Some (pw_ends_at w)\<rparr>))))"

definition ensure_current_period_tx :: "calendar \<Rightarrow> budget \<Rightarrow> time \<Rightarrow> budget db_tx" where
  "ensure_current_period_tx cal b now =
     tx_bind (roll_period_tx cal b now) (\<lambda>b1.
       if (b_used b, b_period_started_at b, b_period_ends_at b)
            \<noteq> (b_used b1, b_period_started_at b1, b_period_ends_at b1)
       then tx_then (persist_budget_state_tx (b1\<lparr>b_updated_at := now\<rparr>))
              (tx_return (b1\<lparr>b_updated_at := now\<rparr>))
       else tx_return b1)"

section \<open>Reserved amounts\<close>

definition expire_row :: "reservation_row \<Rightarrow> reservation_row" where
  "expire_row r = r\<lparr>rv_status := Expired\<rparr>"

definition is_stale :: "time \<Rightarrow> reservation_row \<Rightarrow> bool" where
  "is_stale now r \<longleftrightarrow> rv_status r = Active
     \<and> (case rv_expires_at r of None \<Rightarrow> False | Some e \<Rightarrow> e \<le> now)"

definition expire_stale_reservations :: "time \<Rightarrow> unit db_tx" where
  "expire_stale_reservations now = tx_modify (\<lambda>s.
     s\<lparr>db_reservations := sql_update (is_stale now) expire_row (db_reservations s)\<rparr>)"

definition allocation_reservation :: "db \<Rightarrow> allocation_row \<Rightarrow> reservation_row option" where
  "allocation_reservation s a = find (\<lambda>r. rv_id r = al_reservation_id a) (db_reservations s)"

text \<open>The rows that the join of \<open>active\_reserved\_tx\<close> keeps.\<close>

definition counts_as_reserved :: "period_window option \<Rightarrow> time \<Rightarrow> reservation_row \<Rightarrow> bool" where
  "counts_as_reserved window now r \<longleftrightarrow> rv_status r = Active
     \<and> (case rv_expires_at r of None \<Rightarrow> True | Some e \<Rightarrow> now < e)
     \<and> (case window of None \<Rightarrow> True | Some w \<Rightarrow> window_contains w (rv_created_at r))"

definition allocation_counts ::
  "period_window option \<Rightarrow> time \<Rightarrow> budget_id \<Rightarrow> db \<Rightarrow> allocation_row \<Rightarrow> bool" where
  "allocation_counts window now i s a \<longleftrightarrow> al_budget_id a = i
     \<and> (case allocation_reservation s a of
          None \<Rightarrow> False | Some r \<Rightarrow> counts_as_reserved window now r)"

definition active_reserved_sum :: "calendar \<Rightarrow> budget \<Rightarrow> time \<Rightarrow> db \<Rightarrow> int" where
  "active_reserved_sum cal b now s =
     sql_sum (allocation_counts (period_window_of cal (b_period b) now) now (b_id b) s)
       al_reserved_amount (db_allocations s)"

definition active_reserved_tx :: "calendar \<Rightarrow> budget \<Rightarrow> time \<Rightarrow> i64 db_tx" where
  "active_reserved_tx cal b now =
     (if b_period b = JobPeriod then tx_return 0
      else tx_bind (tx_gets (active_reserved_sum cal b now)) checked_sum)"

text \<open>What a job has consumed of a per-job budget: actual amounts of reconciled cycles and the
  reserved amount of the active one.\<close>

definition job_consumption :: "db \<Rightarrow> job_id \<Rightarrow> budget_id \<Rightarrow> allocation_row \<Rightarrow> int" where
  "job_consumption s job i a =
     (if al_budget_id a \<noteq> i then 0
      else case allocation_reservation s a of
        None \<Rightarrow> 0
      | Some r \<Rightarrow>
          if rv_job_id r \<noteq> job then 0
          else if rv_status r = Reconciled
            then (case al_actual_amount a of Some v \<Rightarrow> v | None \<Rightarrow> 0)
          else if rv_status r = Active then al_reserved_amount a else 0)"

definition job_consumed_sum :: "job_id \<Rightarrow> budget_id \<Rightarrow> db \<Rightarrow> int" where
  "job_consumed_sum job i s = sql_sum (\<lambda>_. True) (job_consumption s job i) (db_allocations s)"

section \<open>Admission\<close>

definition remaining_tx :: "calendar \<Rightarrow> budget_reservation \<Rightarrow> budget \<Rightarrow> i64 db_tx" where
  "remaining_tx cal r b =
     tx_bind (active_reserved_tx cal b (br_created_at r)) (\<lambda>reserved.
       case b_period b of
         JobPeriod \<Rightarrow> tx_bind (tx_gets (job_consumed_sum (br_job_id r) (b_id b))) (\<lambda>v.
           tx_bind (checked_sum v) (\<lambda>consumed.
             tx_return (i64_saturating_sub (b_limit b) (max consumed 0))))
       | _ \<Rightarrow> tx_return (budget_remaining b reserved))"

definition check_allocation_tx ::
  "calendar \<Rightarrow> budget_reservation \<Rightarrow> budget_allocation \<Rightarrow> unit db_tx" where
  "check_allocation_tx cal r a =
     tx_bind (require_budget_tx (ba_budget_id a)) (\<lambda>b0.
       tx_bind (ensure_current_period_tx cal b0 (br_created_at r)) (\<lambda>b.
         tx_then (tx_ensure (b_enabled b) (InvalidData ''budget {} is disabled'' [b_id b]))
           (tx_bind (remaining_tx cal r b) (\<lambda>remaining.
              tx_ensure (\<not> (b_hard b \<and> ba_reserved_amount a > remaining))
                (BudgetExceeded (b_id b) (ba_reserved_amount a) remaining)))))"

definition max_sequence :: "ledger_row list \<Rightarrow> i64" where
  "max_sequence rows = (case map lg_sequence rows of [] \<Rightarrow> 0 | n # ns \<Rightarrow> foldl max n ns)"

definition reservation_row_of :: "budget_reservation \<Rightarrow> i64 \<Rightarrow> reservation_row" where
  "reservation_row_of r start = \<lparr>rv_id = br_id r, rv_job_id = br_job_id r, rv_status = br_status r,
     rv_created_at = br_created_at r, rv_expires_at = br_expires_at r,
     rv_reconciled_at = br_reconciled_at r, rv_usage_sequence_start = start, rv_payload = r\<rparr>"

text \<open>The primary key and the partial unique index of migration 0009.\<close>

definition reservation_clashes :: "reservation_row \<Rightarrow> reservation_row \<Rightarrow> bool" where
  "reservation_clashes new r \<longleftrightarrow> rv_id r = rv_id new
     \<or> (rv_job_id r = rv_job_id new \<and> rv_status r = Active \<and> rv_status new = Active)"

definition insert_reservation_row_tx :: "reservation_row \<Rightarrow> unit db_tx" where
  "insert_reservation_row_tx row =
     tx_then (enforce (0 \<le> rv_usage_sequence_start row) CheckViolation)
       (tx_bind (tx_gets (\<lambda>s. list_ex (reservation_clashes row) (db_reservations s))) (\<lambda>clash.
          tx_then (tx_ensure (\<not> clash)
              (Conflict ''active budget reservation'' (IdOf (rv_job_id row))))
            (tx_bind (tx_gets (\<lambda>s. list_ex (\<lambda>j. jr_id j = rv_job_id row) (db_jobs s))) (\<lambda>found.
               tx_then (enforce found ForeignKeyViolation)
                 (tx_modify (\<lambda>s. s\<lparr>db_reservations := db_reservations s @ [row]\<rparr>))))))"

definition allocation_row_of :: "reservation_id \<Rightarrow> budget_allocation \<Rightarrow> allocation_row" where
  "allocation_row_of i a = \<lparr>al_reservation_id = i, al_budget_id = ba_budget_id a,
     al_reserved_amount = ba_reserved_amount a, al_actual_amount = ba_actual_amount a\<rparr>"

definition insert_allocation_tx :: "reservation_id \<Rightarrow> budget_allocation \<Rightarrow> unit db_tx" where
  "insert_allocation_tx i a =
     tx_then (enforce (\<not> allocation_out_of_range a) CheckViolation)
       (tx_bind (tx_gets (\<lambda>s. list_ex (\<lambda>r. al_reservation_id r = i
             \<and> al_budget_id r = ba_budget_id a) (db_allocations s))) (\<lambda>clash.
          tx_then (enforce (\<not> clash) UniqueViolation)
            (tx_bind (tx_gets (\<lambda>s. budget_exists s (ba_budget_id a))) (\<lambda>found.
               tx_then (enforce found ForeignKeyViolation)
                 (tx_modify (\<lambda>s. s\<lparr>db_allocations :=
                    db_allocations s @ [allocation_row_of i a]\<rparr>))))))"

definition insert_budget_reservation_tx ::
  "calendar \<Rightarrow> budget_reservation \<Rightarrow> bool \<Rightarrow> unit db_tx" where
  "insert_budget_reservation_tx cal r enforce_capacity =
     tx_then (tx_lift (validated (reservation_issues r)))
    (tx_then (tx_ensure (br_status r = Active)
        (InvalidData ''new budget reservations must be active'' []))
    (tx_then (tx_ensure (distinct (map ba_budget_id (br_allocations r)))
        (InvalidData ''reservation contains duplicate budget allocations'' []))
    (tx_then (expire_stale_reservations (br_created_at r))
    (tx_then (if enforce_capacity then tx_foreach (br_allocations r) (check_allocation_tx cal r)
              else tx_return ())
    (tx_bind (tx_gets (\<lambda>s. max_sequence (db_ledger s))) (\<lambda>start.
     tx_then (insert_reservation_row_tx (reservation_row_of r start))
       (tx_foreach (br_allocations r) (insert_allocation_tx (br_id r)))))))))"

section \<open>Methods of the repository\<close>

definition budget_upsert_row :: "budget \<Rightarrow> unit db_tx" where
  "budget_upsert_row b =
     tx_then (enforce (0 \<le> b_limit b \<and> 0 \<le> b_used b) CheckViolation)
       (tx_bind (tx_gets (\<lambda>s. case bs_provider_profile_id (b_scope b) of
            None \<Rightarrow> True | Some p \<Rightarrow> List.member (db_providers s) p)) (\<lambda>found.
          tx_then (enforce found ForeignKeyViolation)
            (let row = \<lparr>bg_id = b_id b, bg_provider_id = bs_provider_profile_id (b_scope b),
                   bg_name = b_name b, bg_period = b_period b, bg_enabled = b_enabled b,
                   bg_limit_value = b_limit b, bg_used_value = b_used b, bg_payload = b\<rparr>
             in tx_modify (\<lambda>s. s\<lparr>db_budgets :=
                  (if budget_exists s (b_id b)
                   then sql_update (\<lambda>r. bg_id r = b_id b) (\<lambda>_. row) (db_budgets s)
                   else db_budgets s @ [row])\<rparr>))))"

definition budget_upsert :: "calendar \<Rightarrow> budget \<Rightarrow> unit db_tx" where
  "budget_upsert cal budget0 =
     tx_then (tx_lift (validated (budget_issues budget0)))
       (let b = normalize_budget_for_upsert cal budget0 in
        tx_then (tx_lift (validated (budget_issues b)))
       (tx_bind (tx_gets (\<lambda>s. map_option bg_period (find (\<lambda>r. bg_id r = b_id b) (db_budgets s))))
          (\<lambda>previous_period.
        tx_then (case previous_period of
              Some p \<Rightarrow> if p \<noteq> b_period b
                then tx_modify (\<lambda>s. s\<lparr>db_period_usage :=
                       sql_delete (\<lambda>r. pu_budget_id r = b_id b) (db_period_usage s)\<rparr>)
                else tx_return ()
            | None \<Rightarrow> tx_return ())
       (tx_then (budget_upsert_row b)
          (case period_window_of cal (b_period b) (b_updated_at b) of
             Some w \<Rightarrow> set_period_usage_tx (b_id b) w (b_used b) (b_updated_at b)
           | None \<Rightarrow> tx_return ())))))"

definition budget_get_at :: "calendar \<Rightarrow> budget_id \<Rightarrow> time \<Rightarrow> budget option db_tx" where
  "budget_get_at cal i now =
     tx_then (expire_stale_reservations now)
       (tx_bind (load_budget_tx i) (\<lambda>found. case found of
            Some b \<Rightarrow> tx_bind (ensure_current_period_tx cal b now) (\<lambda>b'. tx_return (Some b'))
          | None \<Rightarrow> tx_return None))"

definition budget_list_enabled_at :: "calendar \<Rightarrow> time \<Rightarrow> budget list db_tx" where
  "budget_list_enabled_at cal now =
     tx_then (expire_stale_reservations now)
       (tx_bind (tx_gets (\<lambda>s. map bg_id (sort_key bg_name (filter bg_enabled (db_budgets s)))))
          (\<lambda>ids. tx_mapM ids (\<lambda>i. tx_bind (require_budget_tx i) (\<lambda>b.
             ensure_current_period_tx cal b now))))"

definition budget_active_reserved_at :: "calendar \<Rightarrow> budget_id \<Rightarrow> time \<Rightarrow> i64 db_tx" where
  "budget_active_reserved_at cal i now =
     tx_then (expire_stale_reservations now)
       (tx_bind (require_budget_tx i) (\<lambda>b0.
          tx_bind (ensure_current_period_tx cal b0 now) (\<lambda>b. active_reserved_tx cal b now)))"

definition budget_reserve :: "calendar \<Rightarrow> budget_reservation \<Rightarrow> unit db_tx" where
  "budget_reserve cal r = insert_budget_reservation_tx cal r True"

definition budget_reserve_with_override :: "calendar \<Rightarrow> budget_reservation \<Rightarrow> unit db_tx" where
  "budget_reserve_with_override cal r = insert_budget_reservation_tx cal r False"

definition budget_usage_sequence_start :: "reservation_id \<Rightarrow> u64 db_tx" where
  "budget_usage_sequence_start i =
     tx_bind (tx_gets (\<lambda>s. map_option rv_usage_sequence_start
         (find (\<lambda>r. rv_id r = i) (db_reservations s)))) (\<lambda>row.
       tx_bind (tx_some row (NotFound ''budget_reservation'' (IdOf i))) (\<lambda>value.
         tx_then (tx_ensure (0 \<le> value)
             (InvalidData ''budget reservation {} has a negative usage sequence boundary'' [i]))
           (tx_return (nat value))))"

text \<open>\<open>lock\_reservation\_tx\<close> writes the status it reads; it takes SQLite's writer lock and
  changes nothing.\<close>

definition lock_reservation_tx :: "reservation_id \<Rightarrow> unit db_tx" where
  "lock_reservation_tx i = tx_modify (\<lambda>s. s\<lparr>db_reservations :=
     sql_update (\<lambda>r. rv_id r = i) (\<lambda>r. r\<lparr>rv_status := rv_status r\<rparr>) (db_reservations s)\<rparr>)"

definition is_open :: "reservation_status \<Rightarrow> bool" where
  "is_open st \<longleftrightarrow> st = Active \<or> st = Expired"

definition require_open_reservation_tx :: "reservation_id \<Rightarrow> budget_reservation db_tx" where
  "require_open_reservation_tx i =
     tx_then (lock_reservation_tx i)
       (tx_bind (load_reservation_tx i) (\<lambda>found.
          tx_bind (tx_some found (NotFound ''budget_reservation'' (IdOf i))) (\<lambda>r.
            tx_then (tx_ensure (is_open (br_status r)) (Conflict ''budget_reservation'' (IdOf i)))
              (tx_return r))))"

definition charge_budget_tx ::
  "calendar \<Rightarrow> budget_reservation \<Rightarrow> i64 \<Rightarrow> time \<Rightarrow> budget \<Rightarrow> budget db_tx" where
  "charge_budget_tx cal r actual now b = (case b_period b of
      JobPeriod \<Rightarrow> tx_return b
    | Lifetime \<Rightarrow> tx_return (b\<lparr>b_used := i64_saturating_add (b_used b) actual\<rparr>)
    | _ \<Rightarrow>
        tx_bind (tx_some (period_window_of cal (b_period b) (br_created_at r))
            (InvalidData ''calendar budget is missing a period window'' [])) (\<lambda>w.
          tx_bind (add_period_usage_tx (b_id b) w actual now) (\<lambda>period_used.
            tx_return (if period_window_of cal (b_period b) now = Some w
                       then b\<lparr>b_used := period_used\<rparr> else b))))"

definition reconcile_allocation_tx ::
  "calendar \<Rightarrow> reservation_id \<Rightarrow> budget_reservation \<Rightarrow> (budget_id \<rightharpoonup> i64) \<Rightarrow> time \<Rightarrow>
     budget_allocation \<Rightarrow> budget_allocation db_tx" where
  "reconcile_allocation_tx cal i r actuals now a =
     (let actual = (case actuals (ba_budget_id a) of Some v \<Rightarrow> v | None \<Rightarrow> 0) in
      tx_bind (require_budget_tx (ba_budget_id a)) (\<lambda>b0.
      tx_bind (ensure_current_period_tx cal b0 now) (\<lambda>b1.
      tx_bind (charge_budget_tx cal r actual now b1) (\<lambda>b2.
      tx_then (persist_budget_state_tx (b2\<lparr>b_updated_at := now\<rparr>))
     (tx_then (tx_modify (\<lambda>s. s\<lparr>db_allocations := sql_update
          (\<lambda>x. al_reservation_id x = i \<and> al_budget_id x = ba_budget_id a)
          (\<lambda>x. x\<lparr>al_actual_amount := Some actual\<rparr>) (db_allocations s)\<rparr>))
        (tx_return (a\<lparr>ba_actual_amount := Some actual\<rparr>)))))))"

definition settle_row_tx :: "reservation_id \<Rightarrow> reservation_status \<Rightarrow> time \<Rightarrow> budget_reservation
     \<Rightarrow> unit db_tx" where
  "settle_row_tx i st now r = tx_modify (\<lambda>s. s\<lparr>db_reservations :=
     sql_update (\<lambda>row. rv_id row = i \<and> is_open (rv_status row))
       (\<lambda>row. row\<lparr>rv_status := st, rv_reconciled_at := Some now, rv_payload := r\<rparr>)
       (db_reservations s)\<rparr>)"

text \<open>\<open>actuals\<close> is a \<open>BTreeMap\<close>, given by its entries in key order; a negative amount is refused
  before anything is read.\<close>

definition budget_reconcile ::
  "calendar \<Rightarrow> reservation_id \<Rightarrow> (budget_id \<times> i64) list \<Rightarrow> time \<Rightarrow> budget_reservation db_tx" where
  "budget_reconcile cal i actuals now =
     tx_then (tx_ensure (\<not> list_ex (\<lambda>(_, v). v < 0) actuals)
         (InvalidData ''actual budget usage must not be negative'' []))
       (tx_bind (require_open_reservation_tx i) (\<lambda>r.
        tx_bind (tx_mapM (br_allocations r)
            (reconcile_allocation_tx cal i r (map_of actuals) now)) (\<lambda>allocations.
          let r' = r\<lparr>br_allocations := allocations, br_status := Reconciled,
                     br_reconciled_at := Some now\<rparr>
          in tx_then (settle_row_tx i Reconciled now r') (tx_return r'))))"

definition budget_release :: "reservation_id \<Rightarrow> time \<Rightarrow> budget_reservation db_tx" where
  "budget_release i now =
     tx_bind (require_open_reservation_tx i) (\<lambda>r.
       let r' = r\<lparr>br_status := Released, br_reconciled_at := Some now\<rparr>
       in tx_then (settle_row_tx i Released now r') (tx_return r'))"

section \<open>Frames\<close>

text \<open>Every operation below writes a known set of tables; the frame lemmas name them.\<close>

lemma insert_usage_tx_Inr:
  "insert_usage_tx row s = Inr (u, s') \<longleftrightarrow> 0 \<le> pu_used_value row \<and> budget_exists s (pu_budget_id row)
     \<and> s' = s\<lparr>db_period_usage := db_period_usage s @ [row]\<rparr>"
  by (auto simp: insert_usage_tx_def)

lemma get_or_create_period_usage_tx_Inr:
  assumes "get_or_create_period_usage_tx i w u now s = Inr (v, s')"
  obtains (existing) "period_usage s i (pw_starts_at w) = Some v" and "s' = s"
  | (created) "period_usage s i (pw_starts_at w) = None" and "v = u" and "0 \<le> u"
      and "budget_exists s i"
      and "s' = s\<lparr>db_period_usage := db_period_usage s @ [usage_row i w u now]\<rparr>"
  using assms that
  by (cases "period_usage s i (pw_starts_at w)")
     (auto simp: get_or_create_period_usage_tx_def insert_usage_tx_Inr usage_row_def)

lemma set_period_usage_tx_Inr:
  assumes "set_period_usage_tx i w u now s = Inr (x, s')"
  shows "0 \<le> u"
    and "period_usage s i (pw_starts_at w) = None \<Longrightarrow> budget_exists s i
      \<and> s' = s\<lparr>db_period_usage := db_period_usage s @ [usage_row i w u now]\<rparr>"
    and "period_usage s i (pw_starts_at w) = Some v \<Longrightarrow>
      s' = s\<lparr>db_period_usage := sql_update (is_usage_row i (pw_starts_at w))
             (\<lambda>_. usage_row i w u now) (db_period_usage s)\<rparr>"
  using assms
  by (cases "period_usage s i (pw_starts_at w)";
      auto simp: set_period_usage_tx_def insert_usage_tx_Inr usage_row_def)+

lemma period_usage_append:
  "period_usage (s\<lparr>db_period_usage := db_period_usage s @ [usage_row i w u now]\<rparr>) j t =
     (case period_usage s j t of Some v \<Rightarrow> Some v
      | None \<Rightarrow> if j = i \<and> t = pw_starts_at w then Some u else None)"
  by (auto simp: period_usage_def is_usage_row_def usage_row_def find_append split: option.splits)

lemma period_usage_set:
  assumes "set_period_usage_tx i w u now s = Inr (x, s')"
  shows "period_usage s' j t =
     (if j = i \<and> t = pw_starts_at w then Some u else period_usage s j t)"
proof (cases "period_usage s i (pw_starts_at w)")
  case None
  with set_period_usage_tx_Inr(2) [OF assms] show ?thesis
    by (auto simp: period_usage_append split: option.splits)
next
  case (Some v)
  have "find (is_usage_row j t) (sql_update (is_usage_row i (pw_starts_at w))
      (\<lambda>_. usage_row i w u now) (db_period_usage s))
    = map_option (\<lambda>r. if is_usage_row i (pw_starts_at w) r then usage_row i w u now else r)
        (find (is_usage_row j t) (db_period_usage s))"
    by (rule find_sql_update) (auto simp: is_usage_row_def usage_row_def)
  with set_period_usage_tx_Inr(3) [OF assms Some] Some show ?thesis
    by (cases "find (is_usage_row j t) (db_period_usage s)")
       (auto simp: period_usage_def usage_row_def is_usage_row_def dest: find_Some_D)
qed

lemma persist_budget_state_tx_Inr:
  "persist_budget_state_tx b s = Inr (u, s') \<longleftrightarrow> (budget_exists s (b_id b) \<longrightarrow> 0 \<le> b_used b) \<and>
     s' = s\<lparr>db_budgets := sql_update (\<lambda>r. bg_id r = b_id b)
        (\<lambda>r. r\<lparr>bg_used_value := b_used b, bg_payload := b\<rparr>) (db_budgets s)\<rparr>"
  by (auto simp: persist_budget_state_tx_def)

lemma find_budget_persist:
  assumes "persist_budget_state_tx b s = Inr (u, s')"
  shows "find_budget s' j =
    (if j = b_id b then map_option (\<lambda>_. b) (find_budget s j) else find_budget s j)"
proof -
  have "find (\<lambda>r. bg_id r = j) (sql_update (\<lambda>r. bg_id r = b_id b)
      (\<lambda>r. r\<lparr>bg_used_value := b_used b, bg_payload := b\<rparr>) (db_budgets s))
    = map_option (\<lambda>r. if bg_id r = b_id b then r\<lparr>bg_used_value := b_used b, bg_payload := b\<rparr> else r)
        (find (\<lambda>r. bg_id r = j) (db_budgets s))"
    by (rule find_sql_update) simp
  note found = this
  have s': "find_budget s' j = map_option (\<lambda>r. decode_budget_row (if bg_id r = b_id b
      then r\<lparr>bg_used_value := b_used b, bg_payload := b\<rparr> else r))
      (find (\<lambda>r. bg_id r = j) (db_budgets s))"
    using assms
    by (simp add: persist_budget_state_tx_Inr find_budget_def found option.map_comp comp_def)
  show ?thesis
  proof (cases "find (\<lambda>r. bg_id r = j) (db_budgets s)")
    case None
    with s' show ?thesis by (cases "j = b_id b") (simp_all add: find_budget_def)
  next
    case (Some a)
    from s' Some find_Some_D [OF Some] show ?thesis
      by (cases "j = b_id b") (simp_all add: find_budget_def [of s] decode_budget_row_def)
  qed
qed

text \<open>The fields that rolling and charging a budget do not touch.\<close>

definition same_budget_terms :: "budget \<Rightarrow> budget \<Rightarrow> bool" where
  "same_budget_terms b b' \<longleftrightarrow> b_id b' = b_id b \<and> b_name b' = b_name b \<and> b_scope b' = b_scope b
     \<and> b_period b' = b_period b \<and> b_metric b' = b_metric b \<and> b_currency b' = b_currency b
     \<and> b_limit b' = b_limit b \<and> b_warning_threshold_percent b' = b_warning_threshold_percent b
     \<and> b_hard b' = b_hard b \<and> b_enabled b' = b_enabled b \<and> b_created_at b' = b_created_at b"

lemma same_budget_terms_refl [simp]: "same_budget_terms b b"
  by (simp add: same_budget_terms_def)

lemma same_budget_terms_trans:
  "same_budget_terms a b \<Longrightarrow> same_budget_terms b c \<Longrightarrow> same_budget_terms a c"
  by (simp add: same_budget_terms_def)

text \<open>What the roll-over computes: the usage of the window \<open>now\<close> lies in.\<close>

definition budget_is_current :: "calendar \<Rightarrow> time \<Rightarrow> db \<Rightarrow> budget \<Rightarrow> bool" where
  "budget_is_current cal now s b \<longleftrightarrow> (case b_period b of
      JobPeriod \<Rightarrow> b_used b = 0 \<and> b_period_started_at b = b_created_at b \<and> b_period_ends_at b = None
    | Lifetime \<Rightarrow> b_period_ends_at b = None
    | _ \<Rightarrow> (case period_window_of cal (b_period b) now of
        None \<Rightarrow> False
      | Some w \<Rightarrow> b_period_started_at b = pw_starts_at w \<and> b_period_ends_at b = Some (pw_ends_at w)
          \<and> period_usage s (b_id b) (pw_starts_at w) = Some (b_used b)))"

lemma period_window_of_None: "period_window_of cal p t = None \<longleftrightarrow> p = JobPeriod \<or> p = Lifetime"
  by (cases p) (auto simp: period_window_of_def Let_def split: prod.splits)

lemma period_usage_budgets [simp]:
  "period_usage (s\<lparr>db_budgets := B\<rparr>) i t = period_usage s i t"
  by (simp add: period_usage_def)

lemma find_budget_period_usage [simp]:
  "find_budget (s\<lparr>db_period_usage := U\<rparr>) i = find_budget s i"
  by (simp add: find_budget_def)

lemma roll_period_tx_Inr:
  assumes "roll_period_tx cal b now s = Inr (b', s')"
  obtains U where "s' = s\<lparr>db_period_usage := U\<rparr>" and "same_budget_terms b b'"
    and "budget_is_current cal now s' b'"
    and "b_updated_at b' = b_updated_at b"
    and "\<And>i t v. period_usage s i t = Some v \<Longrightarrow> period_usage s' i t = Some v"
    and "\<And>i t. i \<noteq> b_id b \<Longrightarrow> period_usage s' i t = period_usage s i t"
proof (cases "b_period b = JobPeriod \<or> b_period b = Lifetime")
  case True
  with assms have "s' = s" "same_budget_terms b b'" "budget_is_current cal now s' b'"
    "b_updated_at b' = b_updated_at b"
    by (auto simp: roll_period_tx_def budget_is_current_def same_budget_terms_def)
  then show ?thesis by (intro that [of "db_period_usage s"]) auto
next
  case False
  then obtain w where w: "period_window_of cal (b_period b) now = Some w"
    using period_window_of_None by (cases "period_window_of cal (b_period b) now") auto
  let ?seed = "if window_contains w (b_period_started_at b) then b_used b else 0"
  from False w assms obtain used where
    g: "get_or_create_period_usage_tx (b_id b) w ?seed now s = Inr (used, s')" and
    b': "b' = b\<lparr>b_used := used, b_period_started_at := pw_starts_at w,
                b_period_ends_at := Some (pw_ends_at w)\<rparr>"
    by (cases "b_period b") (auto simp: roll_period_tx_def)
  have terms: "same_budget_terms b b'" "b_updated_at b' = b_updated_at b" "b_id b' = b_id b"
    unfolding b' by (simp_all add: same_budget_terms_def)
  have current: "budget_is_current cal now s' b'"
    if "period_usage s' (b_id b) (pw_starts_at w) = Some used"
    using False w that unfolding b' budget_is_current_def by (cases "b_period b") simp_all
  from g show ?thesis
  proof (cases rule: get_or_create_period_usage_tx_Inr)
    case existing
    with current terms show ?thesis by (intro that [of "db_period_usage s"]) simp_all
  next
    case created
    then have "period_usage s' (b_id b) (pw_starts_at w) = Some used"
      by (simp add: period_usage_append)
    with created current terms show ?thesis
      by (intro that [of "db_period_usage s @ [usage_row (b_id b) w ?seed now]"])
         (simp_all add: period_usage_append split: option.split)
  qed
qed

lemma budget_is_current_updated [simp]:
  "budget_is_current cal now s (b\<lparr>b_updated_at := t\<rparr>) = budget_is_current cal now s b"
  by (cases "b_period b") (simp_all add: budget_is_current_def split: option.split)

lemma budget_is_current_budgets [simp]:
  "budget_is_current cal now (s\<lparr>db_budgets := B\<rparr>) b = budget_is_current cal now s b"
  by (cases "b_period b") (simp_all add: budget_is_current_def split: option.split)

lemma same_budget_terms_updated [simp]:
  "same_budget_terms b (b'\<lparr>b_updated_at := t\<rparr>) = same_budget_terms b b'"
  by (simp add: same_budget_terms_def)

lemma ensure_current_period_tx_Inr:
  assumes "ensure_current_period_tx cal b now s = Inr (b', s')"
  obtains B U where "s' = s\<lparr>db_budgets := B, db_period_usage := U\<rparr>" and "same_budget_terms b b'"
    and "budget_is_current cal now s' b'"
    and "\<And>j. j \<noteq> b_id b \<Longrightarrow> find_budget s' j = find_budget s j"
    and "find_budget s (b_id b) = Some b \<Longrightarrow> find_budget s' (b_id b) = Some b'"
    and "\<And>i t v. period_usage s i t = Some v \<Longrightarrow> period_usage s' i t = Some v"
    and "\<And>i t. i \<noteq> b_id b \<Longrightarrow> period_usage s' i t = period_usage s i t"
proof -
  from assms obtain b1 s1 where roll: "roll_period_tx cal b now s = Inr (b1, s1)" and
    rest: "(if (b_used b, b_period_started_at b, b_period_ends_at b)
              \<noteq> (b_used b1, b_period_started_at b1, b_period_ends_at b1)
         then tx_then (persist_budget_state_tx (b1\<lparr>b_updated_at := now\<rparr>))
                (tx_return (b1\<lparr>b_updated_at := now\<rparr>))
         else tx_return b1) s1 = Inr (b', s')"
    by (auto simp: ensure_current_period_tx_def)
  from roll show ?thesis
  proof (cases rule: roll_period_tx_Inr)
    case (1 U)
    note r = this
    then have id: "b_id b1 = b_id b" by (simp add: same_budget_terms_def)
    show ?thesis
    proof (cases "(b_used b, b_period_started_at b, b_period_ends_at b)
        = (b_used b1, b_period_started_at b1, b_period_ends_at b1)")
      case True
      with rest have e: "b' = b1" "s' = s1" by simp_all
      have "b1 = b" using True r(2,4) by (cases b; cases b1) (simp add: same_budget_terms_def)
      with r e show ?thesis by (intro that [where B = "db_budgets s" and U = U]) auto
    next
      case False
      with rest have p: "persist_budget_state_tx (b1\<lparr>b_updated_at := now\<rparr>) s1 = Inr ((), s')"
        and b': "b' = b1\<lparr>b_updated_at := now\<rparr>" by auto
      from p obtain B where s': "s' = s1\<lparr>db_budgets := B\<rparr>"
        by (auto simp: persist_budget_state_tx_Inr)
      have f: "find_budget s' j = (if j = b_id b then map_option (\<lambda>_. b') (find_budget s j)
          else find_budget s j)" for j
        using find_budget_persist [OF p, of j] id r(1) b' by simp
      from r s' b' f show ?thesis by (intro that [where B = B and U = U]) simp_all
    qed
  qed
qed

lemma require_budget_tx_Inr [simp]:
  "require_budget_tx i s = Inr (b, s') \<longleftrightarrow> find_budget s i = Some b \<and> s' = s"
  by (auto simp: require_budget_tx_def load_budget_tx_def)

lemma active_reserved_tx_Inr:
  "active_reserved_tx cal b now s = Inr (v, s') \<longleftrightarrow> s' = s \<and>
     (if b_period b = JobPeriod then v = 0
      else v = active_reserved_sum cal b now s \<and> in_i64 v)"
  by (auto simp: active_reserved_tx_def)

lemma allocation_reservation_budgets [simp]:
  "allocation_reservation (s\<lparr>db_budgets := B\<rparr>) a = allocation_reservation s a"
  "allocation_reservation (s\<lparr>db_period_usage := U\<rparr>) a = allocation_reservation s a"
  by (simp_all add: allocation_reservation_def)

lemma active_reserved_sum_budgets [simp]:
  "active_reserved_sum cal b now (s\<lparr>db_budgets := B\<rparr>) = active_reserved_sum cal b now s"
  "active_reserved_sum cal b now (s\<lparr>db_period_usage := U\<rparr>) = active_reserved_sum cal b now s"
  by (simp_all add: active_reserved_sum_def allocation_counts_def [abs_def])

lemma job_consumption_budgets [simp]:
  "job_consumption (s\<lparr>db_budgets := B\<rparr>) j i = job_consumption s j i"
  "job_consumption (s\<lparr>db_period_usage := U\<rparr>) j i = job_consumption s j i"
  by (rule ext, simp add: job_consumption_def)+

lemma job_consumed_sum_budgets [simp]:
  "job_consumed_sum j i (s\<lparr>db_budgets := B\<rparr>) = job_consumed_sum j i s"
  "job_consumed_sum j i (s\<lparr>db_period_usage := U\<rparr>) = job_consumed_sum j i s"
  by (simp_all add: job_consumed_sum_def)

text \<open>The amount that counts against the limit of a budget before a new allocation.\<close>

definition committed_amount :: "calendar \<Rightarrow> budget_reservation \<Rightarrow> budget \<Rightarrow> db \<Rightarrow> int" where
  "committed_amount cal r b s =
     (if b_period b = JobPeriod then job_consumed_sum (br_job_id r) (b_id b) s
      else b_used b + active_reserved_sum cal b (br_created_at r) s)"

lemma remaining_tx_Inr:
  assumes "remaining_tx cal r b s = Inr (v, s')"
  shows "s' = s"
    and "x \<le> v \<Longrightarrow> 0 \<le> x \<Longrightarrow> 0 \<le> active_reserved_sum cal b (br_created_at r) s \<Longrightarrow>
      committed_amount cal r b s + x \<le> b_limit b"
proof -
  show "s' = s"
    using assms by (cases "b_period b") (auto simp: remaining_tx_def active_reserved_tx_Inr)
  assume x: "x \<le> v" "0 \<le> x" and a: "0 \<le> active_reserved_sum cal b (br_created_at r) s"
  have min: "0 \<le> y \<Longrightarrow> i64_min < y" for y by (simp add: i64_min_def)
  show "committed_amount cal r b s + x \<le> b_limit b"
  proof (cases "b_period b = JobPeriod")
    case True
    with assms x have "x \<le> i64_saturating_sub (b_limit b)
        (max (job_consumed_sum (br_job_id r) (b_id b) s) 0)"
      by (auto simp: remaining_tx_def active_reserved_tx_Inr)
    from le_i64_saturating_sub [OF this min [OF x(2)]] True show ?thesis
      by (simp add: committed_amount_def)
  next
    case False
    let ?a = "active_reserved_sum cal b (br_created_at r) s"
    from False assms x have "x \<le> i64_saturating_sub (i64_saturating_sub (b_limit b) (b_used b)) ?a"
      by (cases "b_period b") (auto simp: remaining_tx_def active_reserved_tx_Inr budget_remaining_def)
    from le_i64_saturating_sub [OF this min [OF x(2)]]
    have "x + ?a \<le> i64_saturating_sub (b_limit b) (b_used b)" .
    from le_i64_saturating_sub [OF this min] x(2) a False show ?thesis
      by (simp add: committed_amount_def)
  qed
qed

end
