(* ===== verification/Budget_Correctness.thy ===== *)
theory Budget_Correctness
  imports Budget_Repository
begin

text \<open>
  Correctness of the budget repository: the well-formedness of the budget tables and that every
  method keeps it, admission (what a reservation that was admitted guarantees), settlement
  (reconciliation and release happen once and charge exactly the actual amounts) and the
  roll-over of calendar budgets.
\<close>

section \<open>Well-formed budget tables\<close>

text \<open>The constraints of the schema, and the agreement of a payload with its columns.\<close>

definition budget_row_ok :: "budget_row \<Rightarrow> bool" where
  "budget_row_ok r \<longleftrightarrow> b_id (bg_payload r) = bg_id r \<and> b_period (bg_payload r) = bg_period r
     \<and> b_limit (bg_payload r) = bg_limit_value r \<and> b_enabled (bg_payload r) = bg_enabled r
     \<and> 0 \<le> bg_limit_value r \<and> 0 \<le> bg_used_value r"

definition usage_row_ok :: "period_usage_row \<Rightarrow> bool" where
  "usage_row_ok r \<longleftrightarrow> 0 \<le> pu_used_value r"

definition reservation_row_ok :: "reservation_row \<Rightarrow> bool" where
  "reservation_row_ok r \<longleftrightarrow> br_id (rv_payload r) = rv_id r \<and> br_job_id (rv_payload r) = rv_job_id r
     \<and> br_created_at (rv_payload r) = rv_created_at r \<and> 0 \<le> rv_usage_sequence_start r
     \<and> distinct (map ba_budget_id (br_allocations (rv_payload r)))"

definition allocation_row_ok :: "allocation_row \<Rightarrow> bool" where
  "allocation_row_ok a \<longleftrightarrow> 0 \<le> al_reserved_amount a
     \<and> (case al_actual_amount a of None \<Rightarrow> True | Some v \<Rightarrow> 0 \<le> v)"

definition allocation_key :: "allocation_row \<Rightarrow> reservation_id \<times> budget_id" where
  "allocation_key a = (al_reservation_id a, al_budget_id a)"

definition usage_key :: "period_usage_row \<Rightarrow> budget_id \<times> time" where
  "usage_key r = (pu_budget_id r, pu_period_started_at r)"

definition budget_table_ok :: "budget_row list \<Rightarrow> bool" where
  "budget_table_ok B \<longleftrightarrow> distinct (map bg_id B) \<and> list_all budget_row_ok B"

definition usage_table_ok :: "budget_id list \<Rightarrow> period_usage_row list \<Rightarrow> bool" where
  "usage_table_ok ids U \<longleftrightarrow> distinct (map usage_key U) \<and> list_all usage_row_ok U
     \<and> list_all (\<lambda>r. pu_budget_id r \<in> set ids) U"

definition active_jobs :: "reservation_row list \<Rightarrow> job_id list" where
  "active_jobs R = map rv_job_id (filter (\<lambda>r. rv_status r = Active) R)"

definition reservation_table_ok :: "reservation_row list \<Rightarrow> bool" where
  "reservation_table_ok R \<longleftrightarrow> distinct (map rv_id R) \<and> list_all reservation_row_ok R
     \<and> distinct (active_jobs R)"

definition allocation_table_ok ::
  "reservation_id list \<Rightarrow> budget_id list \<Rightarrow> allocation_row list \<Rightarrow> bool" where
  "allocation_table_ok rids bids A \<longleftrightarrow> distinct (map allocation_key A)
     \<and> list_all allocation_row_ok A
     \<and> list_all (\<lambda>a. al_reservation_id a \<in> set rids \<and> al_budget_id a \<in> set bids) A"

definition budgets_wf :: "db \<Rightarrow> bool" where
  "budgets_wf s \<longleftrightarrow> budget_table_ok (db_budgets s)
     \<and> usage_table_ok (map bg_id (db_budgets s)) (db_period_usage s)
     \<and> reservation_table_ok (db_reservations s)
     \<and> allocation_table_ok (map rv_id (db_reservations s)) (map bg_id (db_budgets s))
         (db_allocations s)"

lemma budget_exists_iff: "budget_exists s i \<longleftrightarrow> i \<in> set (map bg_id (db_budgets s))"
  by (auto simp: budget_exists_def list_ex_iff)

lemma allocation_reservation_None_iff:
  "allocation_reservation s a = None \<longleftrightarrow> al_reservation_id a \<notin> set (map rv_id (db_reservations s))"
  unfolding allocation_reservation_def find_None_iff by (auto simp: image_iff eq_commute)

lemma find_budget_id: "budgets_wf s \<Longrightarrow> find_budget s i = Some b \<Longrightarrow> b_id b = i"
  by (auto simp: budgets_wf_def budget_table_ok_def find_budget_def decode_budget_row_def
      list_all_iff budget_row_ok_def dest!: find_Some_D)

lemma find_reservation_ok:
  assumes "budgets_wf s" and "find_reservation s i = Some r"
  obtains row where "row \<in> set (db_reservations s)" and "rv_id row = i" and "reservation_row_ok row"
    and "r = decode_reservation_row row" and "br_id r = i"
proof -
  from assms(2) obtain row where f: "find (\<lambda>r. rv_id r = i) (db_reservations s) = Some row"
    and r: "r = decode_reservation_row row" by (auto simp: find_reservation_def)
  from find_Some_D [OF f] have row: "row \<in> set (db_reservations s)" "rv_id row = i" by simp_all
  with assms(1) have ok: "reservation_row_ok row" 
    by (auto simp: budgets_wf_def reservation_table_ok_def list_all_iff)
  with row r show ?thesis
    by (intro that [OF row ok r]) (simp add: decode_reservation_row_def reservation_row_ok_def)
qed

section \<open>Admission\<close>

lemma committed_amount_budgets [simp]:
  "committed_amount cal r b (s\<lparr>db_budgets := B\<rparr>) = committed_amount cal r b s"
  "committed_amount cal r b (s\<lparr>db_period_usage := U\<rparr>) = committed_amount cal r b s"
  by (simp_all add: committed_amount_def)

text \<open>What the capacity check of one allocation establishes about the budget it names.\<close>

definition has_capacity :: "calendar \<Rightarrow> budget_reservation \<Rightarrow> db \<Rightarrow> budget_allocation \<Rightarrow> bool" where
  "has_capacity cal r s a \<longleftrightarrow> (case find_budget s (ba_budget_id a) of
      None \<Rightarrow> False
    | Some b \<Rightarrow> b_id b = ba_budget_id a \<and> b_enabled b
        \<and> (b_hard b \<longrightarrow> committed_amount cal r b s + ba_reserved_amount a \<le> b_limit b))"

lemma check_allocation_tx_Inr:
  assumes "check_allocation_tx cal r a s = Inr (u, s')" and "0 \<le> ba_reserved_amount a"
    and ids: "\<And>i b. find_budget s i = Some b \<Longrightarrow> b_id b = i"
    and allocs: "list_all (\<lambda>x. 0 \<le> al_reserved_amount x) (db_allocations s)"
  obtains B U where "s' = s\<lparr>db_budgets := B, db_period_usage := U\<rparr>" and "has_capacity cal r s' a"
    and "\<forall>j. j \<noteq> ba_budget_id a \<longrightarrow> find_budget s' j = find_budget s j"
proof -
  from assms(1) obtain b0 b s1 v where b0: "find_budget s (ba_budget_id a) = Some b0"
    and e: "ensure_current_period_tx cal b0 (br_created_at r) s = Inr (b, s1)"
    and en: "b_enabled b" and rem: "remaining_tx cal r b s1 = Inr (v, s')"
    and le: "b_hard b \<longrightarrow> ba_reserved_amount a \<le> v"
    by (auto simp: check_allocation_tx_def not_less)
  from ids [OF b0] have i: "b_id b0 = ba_budget_id a" .
  from remaining_tx_Inr(1) [OF rem] have s1: "s1 = s'" by simp
  from e show ?thesis
  proof (cases rule: ensure_current_period_tx_Inr)
    case (1 B U)
    have "0 \<le> active_reserved_sum cal b (br_created_at r) s'"
      unfolding active_reserved_sum_def using 1(1) allocs s1
      by (intro sql_sum_nonneg) (auto simp: list_all_iff)
    with remaining_tx_Inr(2) [OF rem] le assms(2) s1
    have "b_hard b \<longrightarrow> committed_amount cal r b s' + ba_reserved_amount a \<le> b_limit b" by simp
    with 1 i b0 en s1 show ?thesis
      by (intro that [where B = B and U = U])
         (simp_all add: has_capacity_def same_budget_terms_def)
  qed
qed

lemma has_capacity_cong:
  assumes "find_budget s' (ba_budget_id a) = find_budget s (ba_budget_id a)"
    and "\<And>b. committed_amount cal r b s' = committed_amount cal r b s"
  shows "has_capacity cal r s' a = has_capacity cal r s a"
  using assms by (simp add: has_capacity_def split: option.splits)

lemma check_allocations_tx_Inr:
  assumes "tx_foreach xs (check_allocation_tx cal r) s = Inr (u, s')"
    and "distinct (map ba_budget_id xs)" and "\<forall>a \<in> set xs. 0 \<le> ba_reserved_amount a"
    and "\<And>i b. find_budget s i = Some b \<Longrightarrow> b_id b = i"
    and "list_all (\<lambda>x. 0 \<le> al_reserved_amount x) (db_allocations s)"
  shows "(\<exists>B U. s' = s\<lparr>db_budgets := B, db_period_usage := U\<rparr>) \<and> (\<forall>a \<in> set xs. has_capacity cal r s' a)
    \<and> (\<forall>j. j \<notin> ba_budget_id ` set xs \<longrightarrow> find_budget s' j = find_budget s j)"
  using assms
proof (induction xs arbitrary: s)
  case Nil
  then show ?case by (auto intro!: exI [of _ "db_budgets s"] exI [of _ "db_period_usage s"])
next
  case (Cons a xs)
  from Cons.prems(1) obtain s1 where c: "check_allocation_tx cal r a s = Inr ((), s1)"
    and rest: "tx_foreach xs (check_allocation_tx cal r) s1 = Inr (u, s')" by auto
  from Cons.prems(3) have nn: "0 \<le> ba_reserved_amount a" by simp
  obtain U B where s1: "s1 = s\<lparr>db_budgets := B, db_period_usage := U\<rparr>"
    and cap1: "has_capacity cal r s1 a"
    and fr1: "\<forall>j. j \<noteq> ba_budget_id a \<longrightarrow> find_budget s1 j = find_budget s j"
    by (rule check_allocation_tx_Inr [OF c nn Cons.prems(4,5)])
  have ids: "b_id b = i" if "find_budget s1 i = Some b" for i b
    using cap1 fr1 that Cons.prems(4)
    by (cases "i = ba_budget_id a") (auto simp: has_capacity_def)
  have "(\<exists>B U. s' = s1\<lparr>db_budgets := B, db_period_usage := U\<rparr>)
    \<and> (\<forall>a \<in> set xs. has_capacity cal r s' a)
    \<and> (\<forall>j. j \<notin> ba_budget_id ` set xs \<longrightarrow> find_budget s' j = find_budget s1 j)"
    using Cons.prems(2,3,5) s1 by (intro Cons.IH [OF rest] ids) auto
  then obtain B' U' where s': "s' = s1\<lparr>db_budgets := B', db_period_usage := U'\<rparr>"
    and cap: "\<forall>a \<in> set xs. has_capacity cal r s' a"
    and fr: "\<forall>j. j \<notin> ba_budget_id ` set xs \<longrightarrow> find_budget s' j = find_budget s1 j" by blast
  from fr Cons.prems(2) have "find_budget s' (ba_budget_id a) = find_budget s1 (ba_budget_id a)"
    by simp
  from has_capacity_cong [OF this] s' cap1 have "has_capacity cal r s' a" by simp
  with cap fr fr1 s1 s' show ?case by auto
qed

lemma insert_allocation_tx_Inr:
  "insert_allocation_tx i a s = Inr (u, s') \<longleftrightarrow> \<not> allocation_out_of_range a
     \<and> (i, ba_budget_id a) \<notin> allocation_key ` set (db_allocations s)
     \<and> budget_exists s (ba_budget_id a)
     \<and> s' = s\<lparr>db_allocations := db_allocations s @ [allocation_row_of i a]\<rparr>"
  by (auto simp: insert_allocation_tx_def allocation_key_def list_ex_iff)

lemma insert_allocations_tx_Inr:
  assumes "tx_foreach xs (insert_allocation_tx i) s = Inr (u, s')"
  shows "s' = s\<lparr>db_allocations := db_allocations s @ map (allocation_row_of i) xs\<rparr>
    \<and> (\<forall>a \<in> set xs. \<not> allocation_out_of_range a \<and> budget_exists s (ba_budget_id a)
         \<and> (i, ba_budget_id a) \<notin> allocation_key ` set (db_allocations s))"
  using assms
proof (induction xs arbitrary: s)
  case Nil
  then show ?case by simp
next
  case (Cons a xs)
  then obtain s1 where c: "insert_allocation_tx i a s = Inr ((), s1)"
    and rest: "tx_foreach xs (insert_allocation_tx i) s1 = Inr (u, s')" by auto
  from c Cons.IH [OF rest] show ?case
    by (auto simp: insert_allocation_tx_Inr budget_exists_def)
qed

lemma insert_reservation_row_tx_Inr:
  "insert_reservation_row_tx row s = Inr (u, s') \<longleftrightarrow> 0 \<le> rv_usage_sequence_start row
     \<and> (\<forall>r \<in> set (db_reservations s). \<not> reservation_clashes row r)
     \<and> rv_job_id row \<in> jr_id ` set (db_jobs s)
     \<and> s' = s\<lparr>db_reservations := db_reservations s @ [row]\<rparr>"
  by (auto simp: insert_reservation_row_tx_def list_ex_iff image_iff eq_commute [of "rv_job_id row"])

definition expired_reservations :: "time \<Rightarrow> db \<Rightarrow> reservation_row list" where
  "expired_reservations now s = sql_update (is_stale now) expire_row (db_reservations s)"

text \<open>The whole effect of an admission: stale reservations expire, one reservation and its
  allocations are appended, and only budgets that are rolled over change besides.\<close>

lemma insert_budget_reservation_tx_Inr:
  assumes "insert_budget_reservation_tx cal r cap s = Inr (u, s')"
    and allocs: "list_all (\<lambda>x. 0 \<le> al_reserved_amount x) (db_allocations s)"
    and ids: "\<And>i b. find_budget s i = Some b \<Longrightarrow> b_id b = i"
  obtains B U s2 where "s2 = s\<lparr>db_reservations := expired_reservations (br_created_at r) s,
      db_budgets := B, db_period_usage := U\<rparr>"
    and "s' = s2\<lparr>
      db_reservations := db_reservations s2 @ [reservation_row_of r (max_sequence (db_ledger s))],
      db_allocations := db_allocations s @ map (allocation_row_of (br_id r)) (br_allocations r)\<rparr>"
    and "br_status r = Active" and "reservation_issues r = []"
    and "distinct (map ba_budget_id (br_allocations r))"
    and "br_job_id r \<in> jr_id ` set (db_jobs s)"
    and "\<forall>x \<in> set (db_reservations s2).
      \<not> reservation_clashes (reservation_row_of r (max_sequence (db_ledger s))) x"
    and "\<forall>a \<in> set (br_allocations r). budget_exists s2 (ba_budget_id a)
      \<and> (br_id r, ba_budget_id a) \<notin> allocation_key ` set (db_allocations s)"
    and "cap \<Longrightarrow> \<forall>a \<in> set (br_allocations r). has_capacity cal r s2 a"
    and "\<not> cap \<Longrightarrow> B = db_budgets s \<and> U = db_period_usage s"
    and "0 \<le> max_sequence (db_ledger s)"
proof -
  let ?s1 = "s\<lparr>db_reservations := expired_reservations (br_created_at r) s\<rparr>"
  let ?row = "reservation_row_of r (max_sequence (db_ledger s))"
  from assms(1) obtain s2 s3 where v: "reservation_issues r = []" and act: "br_status r = Active"
    and d: "distinct (map ba_budget_id (br_allocations r))"
    and chk: "(if cap then tx_foreach (br_allocations r) (check_allocation_tx cal r)
               else tx_return ()) ?s1 = Inr ((), s2)"
    and ins: "insert_reservation_row_tx (reservation_row_of r (max_sequence (db_ledger s2))) s2
        = Inr ((), s3)"
    and alls: "tx_foreach (br_allocations r) (insert_allocation_tx (br_id r)) s3 = Inr (u, s')"
    by (auto simp: insert_budget_reservation_tx_def expire_stale_reservations_def
        expired_reservations_def)
  have nn: "\<forall>a \<in> set (br_allocations r). 0 \<le> ba_reserved_amount a"
    using v allocation_in_range(1) by (auto simp: reservation_issues_Nil_iff)
  have frame: "(\<exists>B U. s2 = ?s1\<lparr>db_budgets := B, db_period_usage := U\<rparr>
        \<and> (\<not> cap \<longrightarrow> B = db_budgets s \<and> U = db_period_usage s))
    \<and> (cap \<longrightarrow> (\<forall>a \<in> set (br_allocations r). has_capacity cal r s2 a))"
  proof (cases cap)
    case True
    with chk have c: "tx_foreach (br_allocations r) (check_allocation_tx cal r) ?s1 = Inr ((), s2)"
      by simp
    have f: "find_budget ?s1 i = find_budget s i" for i by (simp add: find_budget_def)
    have "b_id b = i" if "find_budget ?s1 i = Some b" for i b
      using that f by (intro ids) simp
    note all = check_allocations_tx_Inr [OF c d nn this]
    have "list_all (\<lambda>x. 0 \<le> al_reserved_amount x) (db_allocations ?s1)" using allocs by simp
    from all [OF _ this] True show ?thesis by blast
  next
    case False
    with chk show ?thesis
      by (auto intro!: exI [of _ "db_budgets s"] exI [of _ "db_period_usage s"])
  qed
  then obtain B U where s2: "s2 = ?s1\<lparr>db_budgets := B, db_period_usage := U\<rparr>"
    and ncap: "\<not> cap \<longrightarrow> B = db_budgets s \<and> U = db_period_usage s"
    and cap: "cap \<longrightarrow> (\<forall>a \<in> set (br_allocations r). has_capacity cal r s2 a)" by blast
  from s2 have l: "db_ledger s2 = db_ledger s" "db_jobs s2 = db_jobs s"
    "db_allocations s2 = db_allocations s" by simp_all
  note i = ins [unfolded l insert_reservation_row_tx_Inr]
  note a = insert_allocations_tx_Inr [OF alls]
  from i have s3: "s3 = s2\<lparr>db_reservations := db_reservations s2 @ [?row]\<rparr>" by simp
  show ?thesis
  proof (rule that [where B = B and U = U and ?s2.0 = s2])
    show "s2 = s\<lparr>db_reservations := expired_reservations (br_created_at r) s,
      db_budgets := B, db_period_usage := U\<rparr>" by (simp add: s2)
    show "s' = s2\<lparr>db_reservations := db_reservations s2 @ [?row],
      db_allocations := db_allocations s @ map (allocation_row_of (br_id r)) (br_allocations r)\<rparr>"
      using a s3 l by simp
    show "\<forall>a \<in> set (br_allocations r). budget_exists s2 (ba_budget_id a)
      \<and> (br_id r, ba_budget_id a) \<notin> allocation_key ` set (db_allocations s)"
      using a s3 l by (simp add: budget_exists_def)
  qed (use v act d i cap ncap in \<open>simp_all add: reservation_row_of_def\<close>)
qed

lemma allocation_reservation_append:
  assumes "allocation_reservation s a \<noteq> None"
  shows "allocation_reservation (s\<lparr>db_reservations := db_reservations s @ R, db_allocations := A\<rparr>) a
    = allocation_reservation s a"
  using assms by (auto simp: allocation_reservation_def find_append)

lemma allocation_reservation_new:
  assumes "\<forall>x \<in> set (db_reservations s). rv_id x \<noteq> rv_id row" and "al_reservation_id a = rv_id row"
  shows "allocation_reservation (s\<lparr>db_reservations := db_reservations s @ [row], db_allocations := A\<rparr>) a
    = Some row"
proof -
  from assms(1) have "find (\<lambda>x. rv_id x = rv_id row) (db_reservations s) = None"
    by (simp add: find_None_iff)
  with assms(2) show ?thesis by (simp add: allocation_reservation_def find_append)
qed

text \<open>Inserting the rows of a reservation adds at most the reserved amount of its allocation to
  what is committed of a budget.\<close>

lemma committed_after_insert:
  fixes s2 r n
  defines "row \<equiv> reservation_row_of r n"
  defines "s' \<equiv> s2\<lparr>db_reservations := db_reservations s2 @ [row],
    db_allocations := db_allocations s2 @ map (allocation_row_of (br_id r)) (br_allocations r)\<rparr>"
  assumes old: "\<forall>x \<in> set (db_allocations s2). allocation_reservation s2 x \<noteq> None"
    and fresh: "\<forall>x \<in> set (db_reservations s2). rv_id x \<noteq> br_id r"
    and dist: "distinct (map ba_budget_id (br_allocations r))" and a: "a \<in> set (br_allocations r)"
    and nonneg: "0 \<le> ba_reserved_amount a" and act: "br_status r = Active"
    and b: "b_id b = ba_budget_id a"
  shows "committed_amount cal r b s' \<le> committed_amount cal r b s2 + ba_reserved_amount a"
proof -
  let ?w = "period_window_of cal (b_period b) (br_created_at r)" and ?t = "br_created_at r"
  have row: "rv_id row = br_id r" "rv_job_id row = br_job_id r" "rv_status row = Active"
    unfolding row_def by (simp_all add: reservation_row_of_def act)
  have same: "allocation_reservation s' x = allocation_reservation s2 x"
    if "x \<in> set (db_allocations s2)" for x
    using old that allocation_reservation_append [of s2 x] unfolding s'_def by simp
  have new: "allocation_reservation s' (allocation_row_of (br_id r) x) = Some row" for x
    unfolding s'_def using fresh row(1)
    by (intro allocation_reservation_new) (simp_all add: allocation_row_of_def)
  have key: "sum_list (map g (br_allocations r)) = g a"
    if "\<And>x. ba_budget_id x \<noteq> b_id b \<Longrightarrow> g x = 0" for g :: "budget_allocation \<Rightarrow> int"
    using sum_list_at_key [OF dist a, of g] that b by simp
  show ?thesis
  proof (cases "b_period b = JobPeriod")
    case True
    have "sql_sum (\<lambda>_. True) (job_consumption s' (br_job_id r) (b_id b)) (db_allocations s2)
        = sql_sum (\<lambda>_. True) (job_consumption s2 (br_job_id r) (b_id b)) (db_allocations s2)"
      by (rule sql_sum_cong) (simp_all add: job_consumption_def same)
    moreover have "sql_sum (\<lambda>_. True) (job_consumption s' (br_job_id r) (b_id b))
        (map (allocation_row_of (br_id r)) (br_allocations r)) = ba_reserved_amount a"
      unfolding sql_sum_alt map_map comp_def
      by (subst key) (simp_all add: job_consumption_def new row b, simp_all add: allocation_row_of_def b)
    ultimately show ?thesis
      using True by (simp add: committed_amount_def job_consumed_sum_def s'_def)
  next
    case False
    have "sql_sum (allocation_counts ?w ?t (b_id b) s') al_reserved_amount (db_allocations s2)
        = sql_sum (allocation_counts ?w ?t (b_id b) s2) al_reserved_amount (db_allocations s2)"
      by (rule sql_sum_cong) (simp_all add: allocation_counts_def same)
    moreover have "sql_sum (allocation_counts ?w ?t (b_id b) s') al_reserved_amount
        (map (allocation_row_of (br_id r)) (br_allocations r)) \<le> ba_reserved_amount a"
      unfolding sql_sum_alt map_map comp_def
      by (subst key) (use nonneg in \<open>simp_all add: allocation_counts_def allocation_row_of_def\<close>)
    ultimately show ?thesis
      using False by (simp add: committed_amount_def active_reserved_sum_def s'_def)
  qed
qed

lemma budgets_wf_allocations:
  assumes "budgets_wf s"
  shows "list_all (\<lambda>x. 0 \<le> al_reserved_amount x) (db_allocations s)"
    and "x \<in> set (db_allocations s) \<Longrightarrow> al_reservation_id x \<in> set (map rv_id (db_reservations s))"
  using assms
  by (auto simp: budgets_wf_def allocation_table_ok_def list_all_iff allocation_row_ok_def)

lemma map_rv_id_expired [simp]:
  "map rv_id (expired_reservations now s) = map rv_id (db_reservations s)"
  unfolding expired_reservations_def by (rule map_sql_update) (simp add: expire_row_def)

lemma admitted_within_limit:
  assumes wf: "budgets_wf s" and adm: "budget_reserve cal r s = Inr (u, s')"
    and a: "a \<in> set (br_allocations r)" and b: "find_budget s' (ba_budget_id a) = Some b"
    and hard: "b_hard b"
  shows "committed_amount cal r b s' \<le> b_limit b"
proof -
  note adm' = adm [unfolded budget_reserve_def]
  note al = budgets_wf_allocations [OF wf]
  show ?thesis
  proof (rule insert_budget_reservation_tx_Inr [OF adm' al(1)])
    show "find_budget s i = Some b \<Longrightarrow> b_id b = i" for i b by (rule find_budget_id [OF wf])
  next
    fix B U s2
    assume s2: "s2 = s\<lparr>db_reservations := expired_reservations (br_created_at r) s,
        db_budgets := B, db_period_usage := U\<rparr>"
      and s': "s' = s2\<lparr>
        db_reservations := db_reservations s2 @ [reservation_row_of r (max_sequence (db_ledger s))],
        db_allocations := db_allocations s @ map (allocation_row_of (br_id r)) (br_allocations r)\<rparr>"
      and act: "br_status r = Active" and v: "reservation_issues r = []"
      and dist: "distinct (map ba_budget_id (br_allocations r))"
      and clash: "\<forall>x \<in> set (db_reservations s2).
        \<not> reservation_clashes (reservation_row_of r (max_sequence (db_ledger s))) x"
      and cap: "True \<Longrightarrow> \<forall>a \<in> set (br_allocations r). has_capacity cal r s2 a"
    have "find_budget s' (ba_budget_id a) = find_budget s2 (ba_budget_id a)"
      unfolding s' by (simp add: find_budget_def)
    with cap a b hard have c: "committed_amount cal r b s2 + ba_reserved_amount a \<le> b_limit b"
      and id: "b_id b = ba_budget_id a" by (auto simp: has_capacity_def split: option.splits)
    have l: "db_allocations s = db_allocations s2" unfolding s2 by simp
    have "committed_amount cal r b s' \<le> committed_amount cal r b s2 + ba_reserved_amount a"
      unfolding s' l
    proof (rule committed_after_insert [OF _ _ dist a _ act id])
      show "\<forall>x \<in> set (db_allocations s2). allocation_reservation s2 x \<noteq> None"
        using al(2) unfolding s2 allocation_reservation_None_iff by simp
      show "\<forall>x \<in> set (db_reservations s2). rv_id x \<noteq> br_id r"
        using clash by (auto simp: reservation_clashes_def reservation_row_of_def)
      show "0 \<le> ba_reserved_amount a"
        using v a allocation_in_range(1) by (auto simp: reservation_issues_Nil_iff)
    qed
    with c show "committed_amount cal r b s' \<le> b_limit b" by linarith
  qed
qed

section \<open>Preservation of well-formedness\<close>

lemma active_jobs_append [simp]: "active_jobs (R @ R') = active_jobs R @ active_jobs R'"
  by (simp add: active_jobs_def)

lemma active_jobs_Nil [simp]: "active_jobs [] = []"
  by (simp add: active_jobs_def)

lemma active_jobs_Cons [simp]:
  "active_jobs (r # R) = (if rv_status r = Active then rv_job_id r # active_jobs R else active_jobs R)"
  by (simp add: active_jobs_def)

lemma set_active_jobs_update:
  assumes "\<And>r. rv_job_id (f r) = rv_job_id r" and "\<And>r. rv_status (f r) \<noteq> Active"
  shows "set (active_jobs (sql_update P f R)) \<subseteq> set (active_jobs R)"
  by (induction R) (auto simp: assms)

lemma distinct_active_jobs_update:
  assumes "\<And>r. rv_job_id (f r) = rv_job_id r" and "\<And>r. rv_status (f r) \<noteq> Active"
    and "distinct (active_jobs R)"
  shows "distinct (active_jobs (sql_update P f R))"
  using assms(3)
proof (induction R)
  case (Cons r R)
  with set_active_jobs_update [of f P R, OF assms(1,2)] show ?case
    by (auto simp: assms(1,2) split: if_splits)
qed simp

lemma reservation_table_ok_update:
  assumes ok: "reservation_table_ok R" and id: "\<And>r. rv_id (f r) = rv_id r"
    and "\<And>r. rv_job_id (f r) = rv_job_id r" and "\<And>r. rv_status (f r) \<noteq> Active"
    and row: "\<And>r. r \<in> set R \<Longrightarrow> P r \<Longrightarrow> reservation_row_ok (f r)"
  shows "reservation_table_ok (sql_update P f R)"
proof -
  have "map rv_id (sql_update P f R) = map rv_id R" by (rule map_sql_update) (rule id)
  moreover have "list_all reservation_row_ok (sql_update P f R)"
    using ok row by (auto simp: reservation_table_ok_def list_all_iff set_sql_update)
  ultimately show ?thesis
    using ok distinct_active_jobs_update [OF assms(3,4)] by (simp add: reservation_table_ok_def)
qed

lemma expired_reservations_ok:
  "reservation_table_ok (db_reservations s) \<Longrightarrow> reservation_table_ok (expired_reservations now s)"
  unfolding expired_reservations_def
  by (rule reservation_table_ok_update)
     (auto simp: expire_row_def reservation_table_ok_def list_all_iff reservation_row_ok_def)

lemma expire_stale_reservations_wf:
  "expire_stale_reservations now s = Inr (u, s') \<Longrightarrow> budgets_wf s \<Longrightarrow> budgets_wf s'"
  using expired_reservations_ok [of s now]
  by (auto simp: expire_stale_reservations_def budgets_wf_def expired_reservations_def [symmetric]
      simp del: set_map list.set_map)

lemma distinct_map_eqD: "distinct (map f xs) \<Longrightarrow> x \<in> set xs \<Longrightarrow> y \<in> set xs \<Longrightarrow> f x = f y \<Longrightarrow> x = y"
  by (simp add: distinct_map inj_on_def)

lemma persist_budget_ok:
  assumes "budget_table_ok B" and "find_budget s (b_id b) = Some b0" and "same_budget_terms b0 b"
    and "B = db_budgets s" and "0 \<le> b_used b"
  shows "budget_table_ok (sql_update (\<lambda>r. bg_id r = b_id b)
        (\<lambda>r. r\<lparr>bg_used_value := b_used b, bg_payload := b\<rparr>) B)"
proof -
  from assms(2,4) obtain row where f: "find (\<lambda>r. bg_id r = b_id b) B = Some row"
    and b0: "b0 = decode_budget_row row" by (auto simp: find_budget_def)
  from find_Some_D [OF f] have row: "row \<in> set B" "bg_id row = b_id b" by simp_all
  with assms(1) have ok: "budget_row_ok row" by (auto simp: budget_table_ok_def list_all_iff)
  have "budget_row_ok (r\<lparr>bg_used_value := b_used b, bg_payload := b\<rparr>)"
    if "r \<in> set B" "bg_id r = b_id b" for r
  proof -
    from assms(1) that row have "r = row"
      by (intro distinct_map_eqD [of bg_id B]) (simp_all add: budget_table_ok_def)
    with ok assms(3,5) b0 row show ?thesis
      by (simp add: budget_row_ok_def same_budget_terms_def decode_budget_row_def)
  qed
  with assms(1) show ?thesis
    by (auto simp: budget_table_ok_def list_all_iff set_sql_update map_sql_update)
qed

lemma map_bg_id_persist [simp]:
  "map bg_id (sql_update P (\<lambda>r. r\<lparr>bg_used_value := v, bg_payload := b\<rparr>) B) = map bg_id B"
  by (rule map_sql_update) simp

lemma persist_budget_state_tx_wf:
  assumes "persist_budget_state_tx b s = Inr (u, s')" and "budgets_wf s"
    and "find_budget s (b_id b) = Some b0" and "same_budget_terms b0 b"
  shows "budgets_wf s'"
proof -
  from assms(3) have "budget_exists s (b_id b)"
    by (auto simp: find_budget_def budget_exists_def list_ex_iff dest!: find_Some_D)
  with assms(1) have "0 \<le> b_used b" by (simp add: persist_budget_state_tx_Inr)
  from persist_budget_ok [OF _ assms(3,4) refl this] assms(1,2) show ?thesis
    by (auto simp: persist_budget_state_tx_Inr budgets_wf_def simp del: set_map list.set_map)
qed

lemma usage_table_ok_append:
  assumes "usage_table_ok ids U" and "find (is_usage_row i (pw_starts_at w)) U = None"
    and "0 \<le> v" and "i \<in> set ids"
  shows "usage_table_ok ids (U @ [usage_row i w v now])"
  using assms
  by (auto simp: usage_table_ok_def usage_key_def usage_row_def usage_row_ok_def list_all_iff
      find_None_iff is_usage_row_def)

lemma usage_table_ok_set:
  assumes "usage_table_ok ids U" and "0 \<le> v"
  shows "usage_table_ok ids (sql_update (is_usage_row i (pw_starts_at w))
    (\<lambda>_. usage_row i w v now) U)"
proof -
  have "map usage_key (sql_update (is_usage_row i (pw_starts_at w)) (\<lambda>_. usage_row i w v now) U)
      = map usage_key U"
    by (rule map_sql_update) (simp add: usage_key_def usage_row_def is_usage_row_def)
  moreover from assms have "list_all (\<lambda>r. usage_row_ok r \<and> pu_budget_id r \<in> set ids)
      (sql_update (is_usage_row i (pw_starts_at w)) (\<lambda>_. usage_row i w v now) U)"
    by (auto simp: usage_table_ok_def list_all_iff set_sql_update is_usage_row_def usage_row_def
        usage_row_ok_def)
  ultimately show ?thesis using assms(1) by (simp add: usage_table_ok_def list_all_iff)
qed

lemma set_period_usage_tx_wf:
  assumes "set_period_usage_tx i w u now s = Inr (x, s')" and "budgets_wf s"
  shows "budgets_wf s'"
proof (cases "period_usage s i (pw_starts_at w)")
  case None
  then have "find (is_usage_row i (pw_starts_at w)) (db_period_usage s) = None"
    by (simp add: period_usage_def)
  with set_period_usage_tx_Inr(1,2) [OF assms(1)] None assms(2) show ?thesis
    by (auto simp: budgets_wf_def budget_exists_iff intro!: usage_table_ok_append)
next
  case (Some v)
  with set_period_usage_tx_Inr(1,3) [OF assms(1)] assms(2) show ?thesis
    by (auto simp: budgets_wf_def intro!: usage_table_ok_set)
qed

lemma get_or_create_period_usage_tx_wf:
  assumes "get_or_create_period_usage_tx i w u now s = Inr (v, s')" and "budgets_wf s"
  shows "budgets_wf s'"
  using assms(1)
proof (cases rule: get_or_create_period_usage_tx_Inr)
  case existing
  with assms(2) show ?thesis by simp
next
  case created
  then have "find (is_usage_row i (pw_starts_at w)) (db_period_usage s) = None"
    by (simp add: period_usage_def)
  with created assms(2) show ?thesis
    by (auto simp: budgets_wf_def budget_exists_iff intro!: usage_table_ok_append)
qed

lemma roll_period_tx_wf:
  assumes "roll_period_tx cal b now s = Inr (b', s')" and "budgets_wf s"
  shows "budgets_wf s'"
  using assms
  by (cases "b_period b")
     (auto simp: roll_period_tx_def split: option.splits dest: get_or_create_period_usage_tx_wf)

lemma ensure_current_period_tx_wf:
  assumes "ensure_current_period_tx cal b now s = Inr (b', s')" and "budgets_wf s"
    and "find_budget s (b_id b) = Some b"
  shows "budgets_wf s'"
proof -
  from assms(1) obtain b1 s1 where roll: "roll_period_tx cal b now s = Inr (b1, s1)" and
    rest: "s' = s1 \<or> persist_budget_state_tx (b1\<lparr>b_updated_at := now\<rparr>) s1 = Inr ((), s')"
    by (auto simp: ensure_current_period_tx_def split: if_splits)
  have wf: "budgets_wf s1" by (rule roll_period_tx_wf [OF roll assms(2)])
  from roll show ?thesis
  proof (cases rule: roll_period_tx_Inr)
    case (1 U)
    then have id: "b_id b1 = b_id b" by (simp add: same_budget_terms_def)
    from rest show ?thesis
    proof
      assume "s' = s1" with wf show ?thesis by simp
    next
      assume p: "persist_budget_state_tx (b1\<lparr>b_updated_at := now\<rparr>) s1 = Inr ((), s')"
      show ?thesis
        by (rule persist_budget_state_tx_wf [OF p wf, of b])
           (use assms(3) 1(1,2) id in simp_all)
    qed
  qed
qed

lemma find_budget_own_id:
  "budgets_wf s \<Longrightarrow> find_budget s i = Some b \<Longrightarrow> find_budget s (b_id b) = Some b"
  using find_budget_id by fastforce

lemma check_allocation_tx_wf:
  assumes "check_allocation_tx cal r a s = Inr (u, s')" and "budgets_wf s"
  shows "budgets_wf s'"
proof -
  from assms(1) obtain b0 b s1 v where b0: "find_budget s (ba_budget_id a) = Some b0"
    and e: "ensure_current_period_tx cal b0 (br_created_at r) s = Inr (b, s1)"
    and rem: "remaining_tx cal r b s1 = Inr (v, s')"
    by (auto simp: check_allocation_tx_def)
  from ensure_current_period_tx_wf [OF e assms(2) find_budget_own_id [OF assms(2) b0]]
    remaining_tx_Inr(1) [OF rem] show ?thesis by simp
qed

lemma insert_reservation_row_tx_wf:
  assumes "insert_reservation_row_tx row s = Inr (u, s')" and "budgets_wf s"
    and "reservation_row_ok row"
  shows "budgets_wf s'"
proof -
  from assms(1) have s': "s' = s\<lparr>db_reservations := db_reservations s @ [row]\<rparr>"
    and c: "\<forall>r \<in> set (db_reservations s). \<not> reservation_clashes row r"
    by (simp_all add: insert_reservation_row_tx_Inr)
  have "reservation_table_ok (db_reservations s @ [row])"
    using assms(2,3) c
    by (auto simp: budgets_wf_def reservation_table_ok_def reservation_clashes_def active_jobs_def)
  with assms(2) show ?thesis
    by (auto simp: s' budgets_wf_def allocation_table_ok_def list_all_iff)
qed

lemma insert_allocation_tx_wf:
  assumes "insert_allocation_tx i a s = Inr (u, s')" and "budgets_wf s"
    and "i \<in> set (map rv_id (db_reservations s))"
  shows "budgets_wf s' \<and> db_reservations s' = db_reservations s"
  using assms
  by (auto simp: insert_allocation_tx_Inr budgets_wf_def allocation_table_ok_def allocation_row_of_def
      allocation_key_def allocation_row_ok_def allocation_out_of_range_def list_all_iff
      budget_exists_iff not_less split: option.splits)

lemma insert_allocations_tx_wf:
  assumes "tx_foreach xs (insert_allocation_tx i) s = Inr (u, s')" and "budgets_wf s"
    and "i \<in> set (map rv_id (db_reservations s))"
  shows "budgets_wf s'"
proof -
  have "tx_keeps (\<lambda>s. budgets_wf s \<and> i \<in> set (map rv_id (db_reservations s)))
      (tx_foreach xs (insert_allocation_tx i))"
    by (intro tx_keeps_foreach tx_keepsI) (metis insert_allocation_tx_wf)
  from tx_keepsD [OF this assms(1)] assms(2,3) show ?thesis by simp
qed

lemma insert_budget_reservation_tx_wf:
  assumes "insert_budget_reservation_tx cal r cap s = Inr (u, s')" and wf: "budgets_wf s"
  shows "budgets_wf s'"
proof -
  from assms(1) obtain s1 s2 s3 where e: "expire_stale_reservations (br_created_at r) s = Inr ((), s1)"
    and d: "distinct (map ba_budget_id (br_allocations r))"
    and chk: "(if cap then tx_foreach (br_allocations r) (check_allocation_tx cal r)
               else tx_return ()) s1 = Inr ((), s2)"
    and ins: "insert_reservation_row_tx (reservation_row_of r (max_sequence (db_ledger s2))) s2
        = Inr ((), s3)"
    and alls: "tx_foreach (br_allocations r) (insert_allocation_tx (br_id r)) s3 = Inr (u, s')"
    by (auto simp: insert_budget_reservation_tx_def)
  have "tx_keeps budgets_wf (tx_foreach (br_allocations r) (check_allocation_tx cal r))"
    by (intro tx_keeps_foreach tx_keepsI) (rule check_allocation_tx_wf)
  with chk expire_stale_reservations_wf [OF e wf] have s2: "budgets_wf s2"
    by (auto split: if_splits dest: tx_keepsD)
  have "reservation_row_ok (reservation_row_of r (max_sequence (db_ledger s2)))"
    using ins d
    by (simp add: reservation_row_ok_def reservation_row_of_def insert_reservation_row_tx_Inr)
  from insert_reservation_row_tx_wf [OF ins s2 this] have s3: "budgets_wf s3" .
  from ins have "br_id r \<in> set (map rv_id (db_reservations s3))"
    by (simp add: insert_reservation_row_tx_Inr reservation_row_of_def)
  from insert_allocations_tx_wf [OF alls s3 this] show ?thesis .
qed

lemma usage_table_ok_mono: "usage_table_ok ids U \<Longrightarrow> set ids \<subseteq> set ids' \<Longrightarrow> usage_table_ok ids' U"
  by (auto simp: usage_table_ok_def list_all_iff)

lemma allocation_table_ok_mono:
  "allocation_table_ok rids bids A \<Longrightarrow> set bids \<subseteq> set bids' \<Longrightarrow> allocation_table_ok rids bids' A"
  by (auto simp: allocation_table_ok_def list_all_iff)

lemma usage_table_ok_delete: "usage_table_ok ids U \<Longrightarrow> usage_table_ok ids (sql_delete P U)"
  by (auto simp: usage_table_ok_def list_all_iff distinct_map_sql_delete)

lemma budget_table_upsert:
  assumes "budget_table_ok B" and "budget_row_ok row"
  defines "B' \<equiv> (if bg_id row \<in> set (map bg_id B)
    then sql_update (\<lambda>r. bg_id r = bg_id row) (\<lambda>_. row) B else B @ [row])"
  shows "budget_table_ok B' \<and> set (map bg_id B) \<subseteq> set (map bg_id B')"
proof (cases "bg_id row \<in> set (map bg_id B)")
  case True
  have "map bg_id (sql_update (\<lambda>r. bg_id r = bg_id row) (\<lambda>_. row) B) = map bg_id B"
    by (rule map_sql_update) simp
  with True assms(1,2) show ?thesis
    unfolding B'_def budget_table_ok_def by (auto simp: list_all_iff set_sql_update simp del: set_map)
next
  case False
  with assms(1,2) show ?thesis unfolding B'_def budget_table_ok_def by auto
qed

lemma budget_upsert_row_wf:
  assumes "budget_upsert_row b s = Inr (u, s')" and "budgets_wf s"
  shows "budgets_wf s'"
proof -
  let ?row = "\<lparr>bg_id = b_id b, bg_provider_id = bs_provider_profile_id (b_scope b),
     bg_name = b_name b, bg_period = b_period b, bg_enabled = b_enabled b,
     bg_limit_value = b_limit b, bg_used_value = b_used b, bg_payload = b\<rparr>"
  let ?B = "if bg_id ?row \<in> set (map bg_id (db_budgets s))
    then sql_update (\<lambda>r. bg_id r = bg_id ?row) (\<lambda>_. ?row) (db_budgets s) else db_budgets s @ [?row]"
  from assms(1) have ok: "budget_row_ok ?row" and s': "s' = s\<lparr>db_budgets := ?B\<rparr>"
    by (auto simp: budget_upsert_row_def budget_row_ok_def budget_exists_iff Let_def)
  from budget_table_upsert [OF _ ok, of "db_budgets s"] assms(2)
  have B: "budget_table_ok ?B" "set (map bg_id (db_budgets s)) \<subseteq> set (map bg_id ?B)"
    unfolding budgets_wf_def by simp_all
  from assms(2) B(1) usage_table_ok_mono [OF _ B(2)] allocation_table_ok_mono [OF _ B(2)]
  show ?thesis unfolding s' budgets_wf_def by simp
qed

lemma budget_upsert_keeps: "tx_keeps budgets_wf (budget_upsert cal b)"
proof -
  have "tx_keeps budgets_wf (budget_upsert_row b)" for b
    by (rule tx_keepsI) (rule budget_upsert_row_wf)
  moreover have "tx_keeps budgets_wf (set_period_usage_tx i w v now)" for i w v now
    by (rule tx_keepsI) (rule set_period_usage_tx_wf)
  moreover have "budgets_wf s \<Longrightarrow> budgets_wf (s\<lparr>db_period_usage := sql_delete P (db_period_usage s)\<rparr>)"
    for s P using usage_table_ok_delete by (auto simp: budgets_wf_def)
  ultimately show ?thesis unfolding budget_upsert_def Let_def by (intro tx_pres)
qed

lemma budget_get_at_wf:
  assumes "budget_get_at cal i now s = Inr (x, s')" and wf: "budgets_wf s"
  shows "budgets_wf s'"
proof -
  from assms(1) obtain s1 where e: "expire_stale_reservations now s = Inr ((), s1)"
    and rest: "s' = s1 \<or> (\<exists>b b'. find_budget s1 i = Some b
        \<and> ensure_current_period_tx cal b now s1 = Inr (b', s'))"
    by (auto simp: budget_get_at_def load_budget_tx_def split: option.splits)
  note wf1 = expire_stale_reservations_wf [OF e wf]
  from rest show ?thesis
    using wf1 ensure_current_period_tx_wf find_budget_own_id by blast
qed

lemma require_ensure_keeps:
  "tx_keeps budgets_wf (tx_bind (require_budget_tx i) (\<lambda>b. ensure_current_period_tx cal b now))"
  by (rule tx_keepsI) (auto intro: ensure_current_period_tx_wf find_budget_own_id)

lemma expire_keeps: "tx_keeps budgets_wf (expire_stale_reservations now)"
  by (rule tx_keepsI) (rule expire_stale_reservations_wf)

lemma budget_list_enabled_at_keeps: "tx_keeps budgets_wf (budget_list_enabled_at cal now)"
  unfolding budget_list_enabled_at_def
  by (intro tx_pres expire_keeps require_ensure_keeps)

lemma active_reserved_keeps: "tx_keeps P (active_reserved_tx cal b now)"
  unfolding active_reserved_tx_def by (intro tx_pres)

lemma budget_active_reserved_at_wf:
  assumes "budget_active_reserved_at cal i now s = Inr (x, s')" and "budgets_wf s"
  shows "budgets_wf s'"
proof -
  from assms(1) obtain s1 b0 b where e: "expire_stale_reservations now s = Inr ((), s1)"
    and b0: "find_budget s1 i = Some b0" and en: "ensure_current_period_tx cal b0 now s1 = Inr (b, s')"
    by (auto simp: budget_active_reserved_at_def active_reserved_tx_Inr split: if_splits)
  note wf1 = expire_stale_reservations_wf [OF e assms(2)]
  from ensure_current_period_tx_wf [OF en wf1 find_budget_own_id [OF wf1 b0]] show ?thesis .
qed

section \<open>Settlement\<close>

lemma sql_update_id [simp]: "sql_update P (\<lambda>r. r) rows = rows"
  by (induction rows) simp_all

lemma lock_reservation_tx_eq [simp]: "lock_reservation_tx i s = Inr ((), s)"
  by (simp add: lock_reservation_tx_def tx_modify_def)

lemma require_open_reservation_tx_Inr:
  "require_open_reservation_tx i s = Inr (r, s') \<longleftrightarrow>
     find_reservation s i = Some r \<and> is_open (br_status r) \<and> s' = s"
  by (auto simp: require_open_reservation_tx_def load_reservation_tx_def)

lemma require_open_reservation_tx_closed:
  "find_reservation s i = Some r \<Longrightarrow> \<not> is_open (br_status r) \<Longrightarrow>
   require_open_reservation_tx i s = Inl (Conflict ''budget_reservation'' (IdOf i))"
  by (simp add: require_open_reservation_tx_def load_reservation_tx_def tx_then_Inl_iff tx_bind_Inl_iff)

lemma find_budget_frames [simp]:
  "find_budget (s\<lparr>db_allocations := A\<rparr>) i = find_budget s i"
  "find_budget (s\<lparr>db_reservations := R\<rparr>) i = find_budget s i"
  by (simp_all add: find_budget_def)

lemma period_usage_frames [simp]:
  "period_usage (s\<lparr>db_allocations := A\<rparr>) i t = period_usage s i t"
  "period_usage (s\<lparr>db_reservations := R\<rparr>) i t = period_usage s i t"
  by (simp_all add: period_usage_def)

lemma add_period_usage_tx_Inr:
  assumes "add_period_usage_tx i w amount now s = Inr (v, s')"
  shows "v = i64_saturating_add (case period_usage s i (pw_starts_at w) of Some u \<Rightarrow> u | None \<Rightarrow> 0) amount"
    and "period_usage s' j t =
      (if j = i \<and> t = pw_starts_at w then Some v else period_usage s j t)"
    and "\<exists>U. s' = s\<lparr>db_period_usage := U\<rparr>"
    and "budgets_wf s \<Longrightarrow> budgets_wf s'"
proof -
  from assms obtain used s1 where g: "get_or_create_period_usage_tx i w 0 now s = Inr (used, s1)"
    and set: "set_period_usage_tx i w v now s1 = Inr ((), s')"
    and v: "v = i64_saturating_add used amount"
    by (auto simp: add_period_usage_tx_def Let_def)
  have s1: "\<exists>U. s1 = s\<lparr>db_period_usage := U\<rparr>"
    and used: "used = (case period_usage s i (pw_starts_at w) of Some u \<Rightarrow> u | None \<Rightarrow> 0)"
    and other: "\<not> (j = i \<and> t = pw_starts_at w) \<Longrightarrow> period_usage s1 j t = period_usage s j t"
    using g
    by (cases rule: get_or_create_period_usage_tx_Inr;
        auto simp: period_usage_append intro: exI [of _ "db_period_usage s"] split: option.splits)+
  show "v = i64_saturating_add (case period_usage s i (pw_starts_at w) of Some u \<Rightarrow> u | None \<Rightarrow> 0) amount"
    using v used by simp
  show "period_usage s' j t =
      (if j = i \<and> t = pw_starts_at w then Some v else period_usage s j t)"
    using period_usage_set [OF set] other by auto
  show "\<exists>U. s' = s\<lparr>db_period_usage := U\<rparr>"
    using s1 set_period_usage_tx_Inr(2,3) [OF set]
    by (cases "period_usage s1 i (pw_starts_at w)") auto
  show "budgets_wf s \<Longrightarrow> budgets_wf s'"
    using get_or_create_period_usage_tx_wf [OF g] set_period_usage_tx_wf [OF set] by blast
qed

text \<open>What a reconciliation charges a budget: nothing for a per-job budget, the lifetime usage, or
  the usage of the calendar window in which the reservation was made.\<close>

lemma charge_budget_tx_Inr:
  assumes "charge_budget_tx cal r actual now b s = Inr (b', s')"
  shows "same_budget_terms b b'" and "\<exists>U. s' = s\<lparr>db_period_usage := U\<rparr>"
    and "budgets_wf s \<Longrightarrow> budgets_wf s'"
proof -
  have "same_budget_terms b b' \<and> (\<exists>U. s' = s\<lparr>db_period_usage := U\<rparr>) \<and> (budgets_wf s \<longrightarrow> budgets_wf s')"
  proof (cases "b_period b = JobPeriod \<or> b_period b = Lifetime")
    case True
    with assms show ?thesis
      by (auto simp: charge_budget_tx_def same_budget_terms_def intro: exI [of _ "db_period_usage s"])
  next
    case False
    with assms obtain w v where a: "add_period_usage_tx (b_id b) w actual now s = Inr (v, s')"
      and b': "b' = b \<or> b' = b\<lparr>b_used := v\<rparr>"
      by (cases "b_period b") (auto simp: charge_budget_tx_def split: if_splits)
    from add_period_usage_tx_Inr(3,4) [OF a] b' show ?thesis by (auto simp: same_budget_terms_def)
  qed
  then show "same_budget_terms b b'" and "\<exists>U. s' = s\<lparr>db_period_usage := U\<rparr>"
    and "budgets_wf s \<Longrightarrow> budgets_wf s'" by blast+
qed

lemma allocation_table_ok_actual:
  assumes "allocation_table_ok rids bids A" and "0 \<le> v"
  shows "allocation_table_ok rids bids (sql_update P (\<lambda>x. x\<lparr>al_actual_amount := Some v\<rparr>) A)"
proof -
  have "map allocation_key (sql_update P (\<lambda>x. x\<lparr>al_actual_amount := Some v\<rparr>) A) = map allocation_key A"
    by (rule map_sql_update) (simp add: allocation_key_def)
  moreover from assms have "list_all (\<lambda>a. allocation_row_ok a \<and> al_reservation_id a \<in> set rids
      \<and> al_budget_id a \<in> set bids) (sql_update P (\<lambda>x. x\<lparr>al_actual_amount := Some v\<rparr>) A)"
    by (auto simp: allocation_table_ok_def list_all_iff set_sql_update allocation_row_ok_def)
  ultimately show ?thesis using assms(1) by (simp add: allocation_table_ok_def list_all_iff)
qed

text \<open>One allocation of a reconciliation.\<close>

lemma reconcile_allocation_tx_steps:
  assumes "reconcile_allocation_tx cal i r actuals now a s = Inr (a', s')"
  defines "v \<equiv> (case actuals (ba_budget_id a) of Some v \<Rightarrow> v | None \<Rightarrow> 0)"
  obtains b0 b1 s1 b2 s2 s3 where "find_budget s (ba_budget_id a) = Some b0"
    and "ensure_current_period_tx cal b0 now s = Inr (b1, s1)"
    and "charge_budget_tx cal r v now b1 s1 = Inr (b2, s2)"
    and "persist_budget_state_tx (b2\<lparr>b_updated_at := now\<rparr>) s2 = Inr ((), s3)"
    and "s' = s3\<lparr>db_allocations := sql_update
          (\<lambda>x. al_reservation_id x = i \<and> al_budget_id x = ba_budget_id a)
          (\<lambda>x. x\<lparr>al_actual_amount := Some v\<rparr>) (db_allocations s3)\<rparr>"
    and "a' = a\<lparr>ba_actual_amount := Some v\<rparr>"
  using assms(1) unfolding reconcile_allocation_tx_def Let_def v_def by (auto intro: that)

lemma charged_budget_found:
  assumes wf: "budgets_wf s" and b0: "find_budget s k = Some b0"
    and en: "ensure_current_period_tx cal b0 now s = Inr (b1, s1)"
    and ch: "charge_budget_tx cal r v now b1 s1 = Inr (b2, s2)"
  shows "budgets_wf s2" and "find_budget s2 (b_id b2) = Some b1" and "same_budget_terms b1 b2"
    and "b_id b2 = k" and "same_budget_terms b0 b1"
proof -
  have id: "b_id b0 = k" by (rule find_budget_id [OF wf b0])
  have wf1: "budgets_wf s1"
    by (rule ensure_current_period_tx_wf [OF en wf find_budget_own_id [OF wf b0]])
  note c = charge_budget_tx_Inr [OF ch]
  from c(3) wf1 show "budgets_wf s2" .
  from c(1) show "same_budget_terms b1 b2" .
  have t: "same_budget_terms b0 b1" and f: "find_budget s1 (b_id b0) = Some b1"
    using en b0 id by (cases rule: ensure_current_period_tx_Inr; simp)+
  from t show "same_budget_terms b0 b1" .
  from t c(1) id show i: "b_id b2 = k" by (simp add: same_budget_terms_def)
  from f c(2) id i show "find_budget s2 (b_id b2) = Some b1" by auto
qed

lemma reconcile_allocation_tx_wf:
  assumes "reconcile_allocation_tx cal i r actuals now a s = Inr (a', s')" and wf: "budgets_wf s"
    and nonneg: "\<And>k v. actuals k = Some v \<Longrightarrow> 0 \<le> v"
  shows "budgets_wf s'"
  using assms(1)
proof (cases rule: reconcile_allocation_tx_steps)
  case (1 b0 b1 s1 b2 s2 s3)
  note f = charged_budget_found [OF wf 1(1-3)]
  have "budgets_wf s3"
    by (rule persist_budget_state_tx_wf [OF 1(4) f(1), of b1]) (use f in simp_all)
  moreover have "0 \<le> (case actuals (ba_budget_id a) of Some v \<Rightarrow> v | None \<Rightarrow> 0)"
    using nonneg by (auto split: option.splits)
  ultimately show ?thesis
    using allocation_table_ok_actual unfolding 1(5) budgets_wf_def by simp
qed

lemma reconcile_allocation_tx_reservations:
  assumes "reconcile_allocation_tx cal i r actuals now a s = Inr (a', s')"
  shows "db_reservations s' = db_reservations s"
  using assms
proof (cases rule: reconcile_allocation_tx_steps)
  case (1 b0 b1 s1 b2 s2 s3)
  have "db_reservations s1 = db_reservations s"
    using 1(2) by (cases rule: ensure_current_period_tx_Inr) simp
  moreover have "db_reservations s2 = db_reservations s1" using charge_budget_tx_Inr(2) [OF 1(3)] by auto
  moreover have "db_reservations s3 = db_reservations s2"
    using 1(4) by (simp add: persist_budget_state_tx_Inr)
  ultimately show ?thesis using 1(5) by simp
qed

lemma settle_row_ok:
  assumes wf: "budgets_wf s" and r: "find_reservation s i = Some r"
    and same: "br_id r' = br_id r" "br_job_id r' = br_job_id r" "br_created_at r' = br_created_at r"
      "map ba_budget_id (br_allocations r') = map ba_budget_id (br_allocations r)"
    and st: "st \<noteq> Active" and s': "settle_row_tx i st now r' s = Inr (u, s')"
  shows "budgets_wf s'"
proof -
  obtain row where row: "row \<in> set (db_reservations s)" "rv_id row = i" "reservation_row_ok row"
    and d: "r = decode_reservation_row row" by (rule find_reservation_ok [OF wf r])
  let ?f = "\<lambda>row. row\<lparr>rv_status := st, rv_reconciled_at := Some now, rv_payload := r'\<rparr>"
  have "reservation_row_ok (?f q)" if "q \<in> set (db_reservations s)" "rv_id q = i" for q
  proof -
    have "q = row"
      by (rule distinct_map_eqD [of rv_id "db_reservations s"])
         (use wf that row in \<open>simp_all add: budgets_wf_def reservation_table_ok_def\<close>)
    with row(3) d same show ?thesis by (simp add: reservation_row_ok_def decode_reservation_row_def)
  qed
  then have "reservation_table_ok (sql_update (\<lambda>row. rv_id row = i \<and> is_open (rv_status row)) ?f
      (db_reservations s))"
    using wf st by (intro reservation_table_ok_update) (auto simp: budgets_wf_def)
  moreover have "map rv_id (sql_update (\<lambda>row. rv_id row = i \<and> is_open (rv_status row)) ?f
      (db_reservations s)) = map rv_id (db_reservations s)"
    by (rule map_sql_update) simp
  ultimately show ?thesis
    using s' wf by (simp add: settle_row_tx_def budgets_wf_def del: set_map list.set_map)
qed

text \<open>The usage of the calendar window that starts at \<open>t\<close>, before a roll-over to \<open>now\<close>: the row of
  the window, or what a budget without rows counted in its current window.\<close>

definition calendar_usage :: "calendar \<Rightarrow> db \<Rightarrow> time \<Rightarrow> budget \<Rightarrow> time \<Rightarrow> int" where
  "calendar_usage cal s now b t = (case period_usage s (b_id b) t of
      Some v \<Rightarrow> v
    | None \<Rightarrow> (case period_window_of cal (b_period b) now of
        None \<Rightarrow> 0
      | Some w \<Rightarrow> if pw_starts_at w = t \<and> window_contains w (b_period_started_at b)
                  then b_used b else 0))"

lemma ensure_calendar_usage:
  assumes "ensure_current_period_tx cal b now s = Inr (b1, s1)"
    and "b_period b \<noteq> JobPeriod" "b_period b \<noteq> Lifetime"
  shows "(case period_usage s1 (b_id b) t of Some v \<Rightarrow> v | None \<Rightarrow> 0) = calendar_usage cal s now b t"
proof -
  obtain w where w: "period_window_of cal (b_period b) now = Some w"
    using assms(2,3) period_window_of_None by (cases "period_window_of cal (b_period b) now") auto
  let ?seed = "if window_contains w (b_period_started_at b) then b_used b else 0"
  from assms w obtain b2 s2 used where
    g: "get_or_create_period_usage_tx (b_id b) w ?seed now s = Inr (used, s2)"
    and e: "s1 = s2 \<or> persist_budget_state_tx b2 s2 = Inr ((), s1)"
    by (cases "b_period b")
       (auto simp: ensure_current_period_tx_def roll_period_tx_def split: if_splits)
  from e have "period_usage s1 (b_id b) t = period_usage s2 (b_id b) t"
    by (auto simp: persist_budget_state_tx_Inr)
  with g w show ?thesis
    by (cases rule: get_or_create_period_usage_tx_Inr)
       (auto simp: calendar_usage_def period_usage_append split: option.splits)
qed

text \<open>The effect of one allocation's reconciliation on the budget it names.\<close>

definition charged :: "calendar \<Rightarrow> db \<Rightarrow> time \<Rightarrow> budget_reservation \<Rightarrow> i64 \<Rightarrow> budget \<Rightarrow> db \<Rightarrow> bool" where
  "charged cal s now r v b0 s' \<longleftrightarrow> (case find_budget s' (b_id b0) of
      None \<Rightarrow> False
    | Some b' \<Rightarrow> same_budget_terms b0 b' \<and> b_updated_at b' = now \<and> (case b_period b0 of
          JobPeriod \<Rightarrow> b_used b' = 0
        | Lifetime \<Rightarrow> b_used b' = i64_saturating_add (b_used b0) v
        | _ \<Rightarrow> (case period_window_of cal (b_period b0) (br_created_at r) of
              None \<Rightarrow> False
            | Some w \<Rightarrow> period_usage s' (b_id b0) (pw_starts_at w)
                = Some (i64_saturating_add (calendar_usage cal s now b0 (pw_starts_at w)) v))))"

lemma charge_budget_tx_effect:
  assumes wf: "budgets_wf s" and b0: "find_budget s k = Some b0"
    and en: "ensure_current_period_tx cal b0 now s = Inr (b1, s1)"
    and ch: "charge_budget_tx cal r v now b1 s1 = Inr (b2, s2)"
    and ps: "persist_budget_state_tx (b2\<lparr>b_updated_at := now\<rparr>) s2 = Inr ((), s3)"
  shows "charged cal s now r v b0 s3"
    and "\<forall>j. j \<noteq> k \<longrightarrow> find_budget s3 j = find_budget s j"
    and "\<forall>j t. j \<noteq> k \<longrightarrow> period_usage s3 j t = period_usage s j t"
proof -
  note f = charged_budget_found [OF wf b0 en ch]
  have id: "b_id b0 = k" "b_id b1 = k" using find_budget_id [OF wf b0] f(5)
    by (auto simp: same_budget_terms_def)
  have p: "find_budget s3 j = (if j = k then map_option (\<lambda>_. b2\<lparr>b_updated_at := now\<rparr>) (find_budget s2 j)
      else find_budget s2 j)" for j
    using find_budget_persist [OF ps, of j] f(4) by simp
  have pu: "period_usage s3 j t = period_usage s2 j t" for j t
    using ps by (simp add: persist_budget_state_tx_Inr)
  have e: "\<forall>j. j \<noteq> k \<longrightarrow> find_budget s1 j = find_budget s j"
    "\<forall>j t. j \<noteq> k \<longrightarrow> period_usage s1 j t = period_usage s j t"
    "budget_is_current cal now s1 b1"
    using en id by (cases rule: ensure_current_period_tx_Inr; simp)+
  from charge_budget_tx_Inr(2) [OF ch] have "find_budget s2 j = find_budget s1 j" for j by auto
  with p e(1) show "\<forall>j. j \<noteq> k \<longrightarrow> find_budget s3 j = find_budget s j" by simp
  have found: "find_budget s3 k = Some (b2\<lparr>b_updated_at := now\<rparr>)" using p [of k] f(2,4) by simp
  have terms: "same_budget_terms b0 b2" by (rule same_budget_terms_trans [OF f(5) f(3)])
  show "charged cal s now r v b0 s3"
  proof (cases "b_period b0 = JobPeriod \<or> b_period b0 = Lifetime")
    case True
    have u: "b_period b0 = Lifetime \<Longrightarrow> b_used b1 = b_used b0"
      using en by (auto simp: ensure_current_period_tx_def roll_period_tx_def split: if_splits)
    have pd: "b_period b1 = b_period b0" using f(5) by (simp add: same_budget_terms_def)
    from True ch e(3) u pd found id terms show ?thesis
      by (auto simp: charged_def charge_budget_tx_def budget_is_current_def)
  next
    case False
    have pd: "b_period b1 = b_period b0" using f(5) by (simp add: same_budget_terms_def)
    from False ch pd obtain w y where w: "period_window_of cal (b_period b0) (br_created_at r) = Some w"
      and a: "add_period_usage_tx (b_id b1) w v now s1 = Inr (y, s2)"
      by (cases "b_period b0") (auto simp: charge_budget_tx_def split: if_splits)
    from ensure_calendar_usage [OF en] False id
    have "(case period_usage s1 (b_id b1) (pw_starts_at w) of Some v \<Rightarrow> v | None \<Rightarrow> 0)
        = calendar_usage cal s now b0 (pw_starts_at w)" by simp
    with add_period_usage_tx_Inr(1) [OF a] add_period_usage_tx_Inr(2) [OF a, of k "pw_starts_at w"] id
    have "period_usage s3 k (pw_starts_at w)
        = Some (i64_saturating_add (calendar_usage cal s now b0 (pw_starts_at w)) v)"
      by (simp add: pu)
    with False w found id terms show ?thesis by (cases "b_period b0") (simp_all add: charged_def)
  qed
  have "period_usage s2 j t = period_usage s1 j t" if "j \<noteq> k" for j t
    using ch that id add_period_usage_tx_Inr(2)
    by (cases "b_period b1") (auto simp: charge_budget_tx_def split: if_splits)
  with pu e(2) show "\<forall>j t. j \<noteq> k \<longrightarrow> period_usage s3 j t = period_usage s j t" by simp
qed

definition actual_of :: "(budget_id \<rightharpoonup> i64) \<Rightarrow> budget_allocation \<Rightarrow> i64" where
  "actual_of actuals a = (case actuals (ba_budget_id a) of Some v \<Rightarrow> v | None \<Rightarrow> 0)"

lemma charged_cong:
  assumes "find_budget s1 (b_id b) = find_budget s2 (b_id b)"
    and "\<And>t. period_usage s1 (b_id b) t = period_usage s2 (b_id b) t"
    and "\<And>t. period_usage s (b_id b) t = period_usage s0 (b_id b) t"
  shows "charged cal s now r v b s1 = charged cal s0 now r v b s2"
proof -
  from assms(2) have p: "period_usage s1 (b_id b) = period_usage s2 (b_id b)" by blast
  from assms(3) have c: "calendar_usage cal s now b = calendar_usage cal s0 now b"
    by (auto simp: calendar_usage_def)
  show ?thesis unfolding charged_def assms(1) p c by (rule refl)
qed

lemma reconcile_allocation_tx_effect:
  assumes "reconcile_allocation_tx cal i r actuals now a s = Inr (a', s')" and wf: "budgets_wf s"
    and "find_budget s (ba_budget_id a) = Some b0"
  shows "charged cal s now r (actual_of actuals a) b0 s'"
    and "\<forall>j. j \<noteq> ba_budget_id a \<longrightarrow> find_budget s' j = find_budget s j"
    and "\<forall>j t. j \<noteq> ba_budget_id a \<longrightarrow> period_usage s' j t = period_usage s j t"
    and "a' = a\<lparr>ba_actual_amount := Some (actual_of actuals a)\<rparr>"
proof -
  from assms(1) have "charged cal s now r (actual_of actuals a) b0 s'
    \<and> (\<forall>j. j \<noteq> ba_budget_id a \<longrightarrow> find_budget s' j = find_budget s j)
    \<and> (\<forall>j t. j \<noteq> ba_budget_id a \<longrightarrow> period_usage s' j t = period_usage s j t)
    \<and> a' = a\<lparr>ba_actual_amount := Some (actual_of actuals a)\<rparr>"
  proof (cases rule: reconcile_allocation_tx_steps)
    case (1 b0' b1 s1 b2 s2 s3)
    note e = charge_budget_tx_effect [OF wf 1(1-4), folded actual_of_def]
    have "charged cal s now r (actual_of actuals a) b0' s'"
      using e(1) charged_cong [of s' b0' s3 s s] 1(5) by simp
    with e(2,3) 1(1,5,6) assms(3) show ?thesis by (simp add: actual_of_def)
  qed
  then show "charged cal s now r (actual_of actuals a) b0 s'"
    and "\<forall>j. j \<noteq> ba_budget_id a \<longrightarrow> find_budget s' j = find_budget s j"
    and "\<forall>j t. j \<noteq> ba_budget_id a \<longrightarrow> period_usage s' j t = period_usage s j t"
    and "a' = a\<lparr>ba_actual_amount := Some (actual_of actuals a)\<rparr>" by blast+
qed

lemma reconcile_allocations_tx_effect:
  assumes "tx_mapM xs (reconcile_allocation_tx cal i r actuals now) s = Inr (ys, s')"
    and "budgets_wf s" and "distinct (map ba_budget_id xs)"
    and "\<And>k v. actuals k = Some v \<Longrightarrow> 0 \<le> v"
  shows "budgets_wf s' \<and> db_reservations s' = db_reservations s
    \<and> ys = map (\<lambda>a. a\<lparr>ba_actual_amount := Some (actual_of actuals a)\<rparr>) xs
    \<and> (\<forall>a \<in> set xs. \<forall>b0. find_budget s (ba_budget_id a) = Some b0 \<longrightarrow>
         charged cal s now r (actual_of actuals a) b0 s')
    \<and> (\<forall>j. j \<notin> ba_budget_id ` set xs \<longrightarrow> find_budget s' j = find_budget s j
         \<and> (\<forall>t. period_usage s' j t = period_usage s j t))"
  using assms(1-3)
proof (induction xs arbitrary: s ys)
  case Nil
  then show ?case by simp
next
  case (Cons a xs)
  from Cons.prems(1) obtain a' s1 zs where
    c: "reconcile_allocation_tx cal i r actuals now a s = Inr (a', s1)" and
    rest: "tx_mapM xs (reconcile_allocation_tx cal i r actuals now) s1 = Inr (zs, s')" and
    ys: "ys = a' # zs" by auto
  have wf1: "budgets_wf s1" by (rule reconcile_allocation_tx_wf [OF c Cons.prems(2) assms(4)])
  from c obtain b0 where b0: "find_budget s (ba_budget_id a) = Some b0"
    by (cases rule: reconcile_allocation_tx_steps)
  note e = reconcile_allocation_tx_effect [OF c Cons.prems(2) b0]
  note ih = Cons.IH [OF rest wf1]
  from Cons.prems(3) have d: "distinct (map ba_budget_id xs)" "ba_budget_id a \<notin> ba_budget_id ` set xs"
    by auto
  have id: "find_budget s k = Some b \<Longrightarrow> b_id b = k" for k b by (rule find_budget_id [OF Cons.prems(2)])
  have "charged cal s now r (actual_of actuals a) b0 s'"
    using e(1) ih d id [OF b0] charged_cong [of s1 b0 s' s s] by auto
  moreover have "charged cal s now r (actual_of actuals x) b s'"
    if "x \<in> set xs" and b: "find_budget s (ba_budget_id x) = Some b" for x b
  proof -
    from that d(2) have n: "ba_budget_id x \<noteq> ba_budget_id a" by (auto simp: image_iff)
    with e(2) b have "find_budget s1 (ba_budget_id x) = Some b" by simp
    with ih d(1) that(1) have "charged cal s1 now r (actual_of actuals x) b s'" by blast
    with charged_cong [of s' b s' s1 s] e(3) n id [OF b] show ?thesis by simp
  qed
  ultimately show ?case
    using ih d e reconcile_allocation_tx_reservations [OF c] b0 ys by auto
qed

lemma budget_reconcile_Inr:
  assumes "budget_reconcile cal i actuals now s = Inr (r', s')" and wf: "budgets_wf s"
  obtains r s1 where "find_reservation s i = Some r" and "is_open (br_status r)"
    and "list_all (\<lambda>(_, v). 0 \<le> v) actuals"
    and "r' = r\<lparr>br_allocations := map (\<lambda>a. a\<lparr>ba_actual_amount := Some (actual_of (map_of actuals) a)\<rparr>)
                (br_allocations r), br_status := Reconciled, br_reconciled_at := Some now\<rparr>"
    and "tx_mapM (br_allocations r) (reconcile_allocation_tx cal i r (map_of actuals) now) s
        = Inr (br_allocations r', s1)"
    and "budgets_wf s1" and "db_reservations s1 = db_reservations s"
    and "settle_row_tx i Reconciled now r' s1 = Inr ((), s')"
    and "\<forall>a \<in> set (br_allocations r). \<forall>b0. find_budget s (ba_budget_id a) = Some b0 \<longrightarrow>
         charged cal s now r (actual_of (map_of actuals) a) b0 s1"
    and "\<forall>j. j \<notin> ba_budget_id ` set (br_allocations r) \<longrightarrow> find_budget s1 j = find_budget s j
         \<and> (\<forall>t. period_usage s1 j t = period_usage s j t)"
proof -
  from assms(1) obtain r s1 ys where nn: "\<not> list_ex (\<lambda>(_, v). v < 0) actuals"
    and r: "find_reservation s i = Some r" "is_open (br_status r)"
    and m: "tx_mapM (br_allocations r) (reconcile_allocation_tx cal i r (map_of actuals) now) s
        = Inr (ys, s1)"
    and r': "r' = r\<lparr>br_allocations := ys, br_status := Reconciled, br_reconciled_at := Some now\<rparr>"
    and st: "settle_row_tx i Reconciled now r' s1 = Inr ((), s')"
    by (auto simp: budget_reconcile_def require_open_reservation_tx_Inr Let_def)
  have nonneg: "0 \<le> v" if "map_of actuals k = Some v" for k v
    using nn map_of_SomeD [OF that] by (auto simp: list_ex_iff not_less)
  obtain row where "reservation_row_ok row" "r = decode_reservation_row row"
    by (rule find_reservation_ok [OF wf r(1)])
  then have "distinct (map ba_budget_id (br_allocations r))"
    by (simp add: reservation_row_ok_def decode_reservation_row_def)
  note e = reconcile_allocations_tx_effect [OF m wf this nonneg]
  have l: "list_all (\<lambda>(_, v). 0 \<le> v) actuals" using nn by (auto simp: list_ex_iff list_all_iff not_less)
  show ?thesis
    by (rule that [OF r l _ _ _ _ st]) (use e r' m in auto)
qed

lemma find_reservation_settle:
  assumes "settle_row_tx i st now r' s = Inr (u, s')" and "find_reservation s i = Some r"
    and "is_open (br_status r)" and "br_status r' = st"
  shows "find_reservation s' i = Some r'"
proof -
  let ?P = "\<lambda>row. rv_id row = i \<and> is_open (rv_status row)"
  let ?f = "\<lambda>row. row\<lparr>rv_status := st, rv_reconciled_at := Some now, rv_payload := r'\<rparr>"
  from assms(2) obtain row where f: "find (\<lambda>r. rv_id r = i) (db_reservations s) = Some row"
    and r: "r = decode_reservation_row row" by (auto simp: find_reservation_def)
  from find_Some_D [OF f] r assms(3) have "?P row" by (simp add: decode_reservation_row_def)
  moreover have "find (\<lambda>r. rv_id r = i) (sql_update ?P ?f (db_reservations s))
    = map_option (\<lambda>r. if ?P r then ?f r else r) (find (\<lambda>r. rv_id r = i) (db_reservations s))"
    by (rule find_sql_update) simp
  ultimately show ?thesis
    using assms(1,4) f by (simp add: settle_row_tx_def find_reservation_def decode_reservation_row_def)
qed

lemma budget_reconcile_wf:
  assumes "budget_reconcile cal i actuals now s = Inr (r', s')" and wf: "budgets_wf s"
  shows "budgets_wf s'"
  using assms
proof (rule budget_reconcile_Inr)
  fix r s1
  assume r: "find_reservation s i = Some r"
    and r': "r' = r\<lparr>br_allocations := map (\<lambda>a. a\<lparr>ba_actual_amount := Some (actual_of (map_of actuals) a)\<rparr>)
                (br_allocations r), br_status := Reconciled, br_reconciled_at := Some now\<rparr>"
    and wf1: "budgets_wf s1" and same: "db_reservations s1 = db_reservations s"
    and st: "settle_row_tx i Reconciled now r' s1 = Inr ((), s')"
  from r same have "find_reservation s1 i = Some r" by (simp add: find_reservation_def)
  from settle_row_ok [OF wf1 this _ _ _ _ _ st] r' show "budgets_wf s'" by (simp add: comp_def)
qed

lemma budget_release_wf:
  assumes "budget_release i now s = Inr (r', s')" and wf: "budgets_wf s"
  shows "budgets_wf s'"
proof -
  from assms(1) obtain r where r: "find_reservation s i = Some r"
    and r': "r' = r\<lparr>br_status := Released, br_reconciled_at := Some now\<rparr>"
    and st: "settle_row_tx i Released now r' s = Inr ((), s')"
    by (auto simp: budget_release_def require_open_reservation_tx_Inr Let_def)
  from settle_row_ok [OF wf r _ _ _ _ _ st] r' show ?thesis by simp
qed

section \<open>The repository as a state machine\<close>

text \<open>One step is a committed method, with any arguments, or a change of other tables by another
  repository; a method that fails is rolled back and is no step.\<close>

inductive budget_step :: "calendar \<Rightarrow> db \<Rightarrow> db \<Rightarrow> bool" for cal where
  upsert: "budget_upsert cal b s = Inr ((), s') \<Longrightarrow> budget_step cal s s'"
| get_at: "budget_get_at cal i now s = Inr (x, s') \<Longrightarrow> budget_step cal s s'"
| list_enabled_at: "budget_list_enabled_at cal now s = Inr (bs, s') \<Longrightarrow> budget_step cal s s'"
| active_reserved_at: "budget_active_reserved_at cal i now s = Inr (v, s') \<Longrightarrow> budget_step cal s s'"
| reserve: "budget_reserve cal r s = Inr ((), s') \<Longrightarrow> budget_step cal s s'"
| reserve_with_override: "budget_reserve_with_override cal r s = Inr ((), s') \<Longrightarrow> budget_step cal s s'"
| reconcile: "budget_reconcile cal i actuals now s = Inr (r, s') \<Longrightarrow> budget_step cal s s'"
| release: "budget_release i now s = Inr (r, s') \<Longrightarrow> budget_step cal s s'"
| elsewhere: "db_budgets s' = db_budgets s \<Longrightarrow> db_period_usage s' = db_period_usage s \<Longrightarrow>
    db_reservations s' = db_reservations s \<Longrightarrow> db_allocations s' = db_allocations s \<Longrightarrow>
    budget_step cal s s'"

inductive budget_reachable :: "calendar \<Rightarrow> db \<Rightarrow> db \<Rightarrow> bool" for cal s0 where
  start: "budget_reachable cal s0 s0"
| step: "budget_reachable cal s0 s \<Longrightarrow> budget_step cal s s' \<Longrightarrow> budget_reachable cal s0 s'"

inductive_cases budget_stepE: "budget_step cal s s'"

lemma budget_step_wf: "budget_step cal s s' \<Longrightarrow> budgets_wf s \<Longrightarrow> budgets_wf s'"
proof (induction rule: budget_step.induct)
  case (upsert b s s')
  then show ?case using tx_keepsD [OF budget_upsert_keeps] by blast
next
  case (list_enabled_at now s bs s')
  then show ?case using tx_keepsD [OF budget_list_enabled_at_keeps] by blast
next
  case (elsewhere s' s)
  then show ?case by (simp add: budgets_wf_def)
qed (auto simp: budget_reserve_def budget_reserve_with_override_def
    intro: budget_get_at_wf budget_active_reserved_at_wf insert_budget_reservation_tx_wf
      budget_reconcile_wf budget_release_wf)

text \<open>A settled row survives every step as it is.\<close>

definition keeps_settled :: "db \<Rightarrow> db \<Rightarrow> bool" where
  "keeps_settled s s' \<longleftrightarrow> (\<forall>row \<in> set (db_reservations s). \<not> is_open (rv_status row) \<longrightarrow>
     row \<in> set (db_reservations s'))"

lemma keeps_settled_refl: "db_reservations s' = db_reservations s \<Longrightarrow> keeps_settled s s'"
  by (simp add: keeps_settled_def)

lemma keeps_settled_trans: "keeps_settled s t \<Longrightarrow> keeps_settled t u \<Longrightarrow> keeps_settled s u"
  by (simp add: keeps_settled_def)

lemma keeps_settled_update:
  "(\<And>r. P r \<Longrightarrow> is_open (rv_status r)) \<Longrightarrow> db_reservations s' = sql_update P f (db_reservations s) \<Longrightarrow>
   keeps_settled s s'"
  by (auto simp: keeps_settled_def set_sql_update)

lemma expire_keeps_settled: "expire_stale_reservations now s = Inr (u, s') \<Longrightarrow> keeps_settled s s'"
  by (rule keeps_settled_update [of "is_stale now"])
     (auto simp: expire_stale_reservations_def is_stale_def is_open_def)

lemma settle_keeps_settled: "settle_row_tx i st now r s = Inr (u, s') \<Longrightarrow> keeps_settled s s'"
  by (rule keeps_settled_update [of "\<lambda>row. rv_id row = i \<and> is_open (rv_status row)"])
     (auto simp: settle_row_tx_def)

lemma ensure_reservations:
  "ensure_current_period_tx cal b now s = Inr (b', s') \<Longrightarrow> db_reservations s' = db_reservations s"
  by (erule ensure_current_period_tx_Inr) simp

lemma set_period_usage_reservations:
  "set_period_usage_tx i w u now s = Inr (x, s') \<Longrightarrow> db_reservations s' = db_reservations s"
  using set_period_usage_tx_Inr(2,3) [of i w u now s x s']
  by (cases "period_usage s i (pw_starts_at w)") auto

lemma budget_upsert_reservations:
  "budget_upsert cal b s = Inr (x, s') \<Longrightarrow> db_reservations s' = db_reservations s"
  unfolding budget_upsert_def Let_def
  by (auto simp: budget_upsert_row_def Let_def split: option.splits if_splits
      dest!: set_period_usage_reservations)

lemma budget_list_enabled_at_settled:
  assumes "budget_list_enabled_at cal now s = Inr (bs, s')"
  shows "keeps_settled s s'"
proof -
  from assms obtain s1 ids where e: "expire_stale_reservations now s = Inr ((), s1)"
    and m: "tx_mapM ids (\<lambda>i. tx_bind (require_budget_tx i) (\<lambda>b. ensure_current_period_tx cal b now)) s1
      = Inr (bs, s')" by (auto simp: budget_list_enabled_at_def)
  have "tx_keeps (\<lambda>t. db_reservations t = db_reservations s1)
      (tx_mapM ids (\<lambda>i. tx_bind (require_budget_tx i) (\<lambda>b. ensure_current_period_tx cal b now)))"
    by (intro tx_keeps_mapM tx_keepsI) (auto dest: ensure_reservations)
  from tx_keepsD [OF this m] have "keeps_settled s1 s'" by (simp add: keeps_settled_refl)
  with expire_keeps_settled [OF e] show ?thesis by (rule keeps_settled_trans)
qed

lemma insert_budget_reservation_settled:
  assumes "insert_budget_reservation_tx cal r cap s = Inr (u, s')" and wf: "budgets_wf s"
  shows "keeps_settled s s'"
proof (rule insert_budget_reservation_tx_Inr [OF assms(1) budgets_wf_allocations(1) [OF wf]])
  show "find_budget s i = Some b \<Longrightarrow> b_id b = i" for i b by (rule find_budget_id [OF wf])
next
  fix B U s2
  assume "s2 = s\<lparr>db_reservations := expired_reservations (br_created_at r) s,
        db_budgets := B, db_period_usage := U\<rparr>"
    and "s' = s2\<lparr>
        db_reservations := db_reservations s2 @ [reservation_row_of r (max_sequence (db_ledger s))],
        db_allocations := db_allocations s @ map (allocation_row_of (br_id r)) (br_allocations r)\<rparr>"
  then show "keeps_settled s s'"
    by (auto simp: keeps_settled_def expired_reservations_def set_sql_update is_stale_def is_open_def)
qed

lemma budget_step_settled: "budget_step cal s s' \<Longrightarrow> budgets_wf s \<Longrightarrow> keeps_settled s s'"
proof (induction rule: budget_step.induct)
  case (get_at i now s x s')
  then obtain s1 where e: "expire_stale_reservations now s = Inr ((), s1)"
    and r: "db_reservations s' = db_reservations s1"
    by (auto simp: budget_get_at_def load_budget_tx_def split: option.splits dest: ensure_reservations)
  from keeps_settled_trans [OF expire_keeps_settled [OF e] keeps_settled_refl [OF r]] show ?case .
next
  case (active_reserved_at i now s v s')
  then obtain s1 where e: "expire_stale_reservations now s = Inr ((), s1)"
    and r: "db_reservations s' = db_reservations s1"
    by (auto simp: budget_active_reserved_at_def active_reserved_tx_Inr split: if_splits
        dest: ensure_reservations)
  from keeps_settled_trans [OF expire_keeps_settled [OF e] keeps_settled_refl [OF r]] show ?case .
next
  case (reconcile i actuals now s r s')
  from reconcile.hyps reconcile.prems show ?case
  proof (rule budget_reconcile_Inr)
    fix s1 assume "db_reservations s1 = db_reservations s"
      and "settle_row_tx i Reconciled now r s1 = Inr ((), s')"
    then show ?thesis
      using keeps_settled_trans [OF keeps_settled_refl settle_keeps_settled] by blast
  qed
next
  case (release i now s r s')
  then show ?case
    by (auto simp: budget_release_def require_open_reservation_tx_Inr Let_def
        intro: settle_keeps_settled)
qed (auto simp: budget_reserve_def budget_reserve_with_override_def
    intro: insert_budget_reservation_settled budget_list_enabled_at_settled
      keeps_settled_refl budget_upsert_reservations)

lemma budget_reachable_wf_settled:
  "budget_reachable cal s0 s \<Longrightarrow> budgets_wf s0 \<Longrightarrow> budgets_wf s \<and> keeps_settled s0 s"
  by (induction rule: budget_reachable.induct)
     (auto intro: budget_step_wf keeps_settled_refl keeps_settled_trans budget_step_settled)

lemma find_reservation_settled:
  assumes "budgets_wf s" and "budgets_wf s'" and "keeps_settled s s'"
    and "find_reservation s i = Some r" and "\<not> is_open (br_status r)"
  shows "find_reservation s' i = Some r"
proof -
  obtain row where row: "row \<in> set (db_reservations s)" "rv_id row = i"
    and r: "r = decode_reservation_row row" by (rule find_reservation_ok [OF assms(1,4)])
  with assms(3,5) have "row \<in> set (db_reservations s')"
    by (auto simp: keeps_settled_def decode_reservation_row_def)
  with assms(2) row(2) r show ?thesis
    using find_id_unique [of rv_id "db_reservations s'" row]
    by (auto simp: find_reservation_def budgets_wf_def reservation_table_ok_def)
qed

section \<open>Reading a budget\<close>

lemma ensure_current_period_tx_unchanged:
  assumes "budget_is_current cal now s b"
  shows "ensure_current_period_tx cal b now s = Inr (b, s)"
proof (cases "b_period b = JobPeriod \<or> b_period b = Lifetime")
  case True
  with assms have "roll_period_tx cal b now s = Inr (b, s)"
    by (cases "b_period b") (auto simp: roll_period_tx_def budget_is_current_def tx_return_def)
  then show ?thesis by (simp add: ensure_current_period_tx_def tx_bind_def tx_return_def)
next
  case False
  with assms obtain w where w: "period_window_of cal (b_period b) now = Some w"
    and c: "b_period_started_at b = pw_starts_at w" "b_period_ends_at b = Some (pw_ends_at w)"
      "period_usage s (b_id b) (pw_starts_at w) = Some (b_used b)"
    by (cases "b_period b") (auto simp: budget_is_current_def split: option.splits)
  from c(3) have "get_or_create_period_usage_tx (b_id b) w v now s = Inr (b_used b, s)" for v
    by (simp add: get_or_create_period_usage_tx_def tx_bind_def tx_gets_def tx_return_def)
  with False w c have "roll_period_tx cal b now s = Inr (b, s)"
    by (cases "b_period b") (simp_all add: roll_period_tx_def tx_bind_def tx_return_def)
  then show ?thesis by (simp add: ensure_current_period_tx_def tx_bind_def tx_return_def)
qed

lemma expire_stale_reservations_eq:
  "expire_stale_reservations now s = Inr ((), s\<lparr>db_reservations := expired_reservations now s\<rparr>)"
  by (simp add: expire_stale_reservations_def expired_reservations_def tx_modify_def)

lemma budget_is_current_reservations [simp]:
  "budget_is_current cal now (s\<lparr>db_reservations := R\<rparr>) b = budget_is_current cal now s b"
  by (cases "b_period b") (simp_all add: budget_is_current_def split: option.split)

lemma budget_get_at_unchanged:
  assumes "find_budget s i = Some b" and "budget_is_current cal now s b"
  shows "budget_get_at cal i now s
    = Inr (Some b, s\<lparr>db_reservations := expired_reservations now s\<rparr>)"
  using assms ensure_current_period_tx_unchanged
    [of cal now "s\<lparr>db_reservations := expired_reservations now s\<rparr>" b]
  by (simp add: budget_get_at_def expire_stale_reservations_eq tx_then_def tx_bind_def
      load_budget_tx_def tx_gets_def tx_return_def)

lemma budget_get_at_current:
  assumes "budget_get_at cal i now s = Inr (Some b, s')" and "budgets_wf s"
  shows "find_budget s' i = Some b" and "budget_is_current cal now s' b"
proof -
  from assms(1) obtain b0 s1 where s1: "s1 = s\<lparr>db_reservations := expired_reservations now s\<rparr>"
    and b0: "find_budget s i = Some b0" and e: "ensure_current_period_tx cal b0 now s1 = Inr (b, s')"
    by (auto simp: budget_get_at_def expire_stale_reservations_eq load_budget_tx_def
        split: option.splits)
  from b0 s1 find_budget_id [OF assms(2) b0] have "find_budget s1 (b_id b0) = Some b0" "b_id b0 = i"
    by simp_all
  with e show "find_budget s' i = Some b" and "budget_is_current cal now s' b"
    by (cases rule: ensure_current_period_tx_Inr; simp)+
qed

text \<open>Within one window the state a budget was rolled to stays current.\<close>

lemma budget_is_current_within_window:
  assumes "budget_is_current cal now s b"
    and "period_window_of cal (b_period b) later = period_window_of cal (b_period b) now"
  shows "budget_is_current cal later s b"
  using assms by (cases "b_period b") (simp_all add: budget_is_current_def)

lemma normalize_budget_for_upsert_fields [simp]:
  "b_id (normalize_budget_for_upsert cal b) = b_id b"
  "b_period (normalize_budget_for_upsert cal b) = b_period b"
  "b_updated_at (normalize_budget_for_upsert cal b) = b_updated_at b"
  by (cases "b_period b"; simp add: normalize_budget_for_upsert_def Let_def split: option.split)+

lemma find_budget_upsert_row:
  assumes "budget_upsert_row b s = Inr (u, s')"
  shows "find_budget s' (b_id b) = Some b"
proof -
  let ?row = "\<lparr>bg_id = b_id b, bg_provider_id = bs_provider_profile_id (b_scope b),
     bg_name = b_name b, bg_period = b_period b, bg_enabled = b_enabled b,
     bg_limit_value = b_limit b, bg_used_value = b_used b, bg_payload = b\<rparr>"
  have d: "decode_budget_row ?row = b" by (simp add: decode_budget_row_def)
  have u: "find (\<lambda>r. bg_id r = b_id b) (sql_update (\<lambda>r. bg_id r = b_id b) (\<lambda>_. ?row) B)
      = map_option (\<lambda>r. if bg_id r = b_id b then ?row else r) (find (\<lambda>r. bg_id r = b_id b) B)" for B
    by (rule find_sql_update) simp
  show ?thesis
  proof (cases "find (\<lambda>r. bg_id r = b_id b) (db_budgets s)")
    case None
    then have "\<not> budget_exists s (b_id b)" by (auto simp: find_None_iff budget_exists_def list_ex_iff)
    with assms None d show ?thesis
      by (auto simp: budget_upsert_row_def Let_def find_budget_def find_append)
  next
    case (Some r)
    from find_Some_D [OF Some] have "budget_exists s (b_id b)" "bg_id r = b_id b"
      by (auto simp: budget_exists_def list_ex_iff)
    with assms Some d u [of "db_budgets s"] show ?thesis
      by (auto simp: budget_upsert_row_def Let_def find_budget_def)
  qed
qed

lemma budget_upsert_stored:
  assumes "budget_upsert cal b s = Inr (u, s')"
  shows "find_budget s' (b_id b) = Some (normalize_budget_for_upsert cal b)"
    and "budget_is_current cal (b_updated_at b) s' (normalize_budget_for_upsert cal b)"
proof -
  let ?n = "normalize_budget_for_upsert cal b"
  from assms obtain t s1 where row: "budget_upsert_row ?n t = Inr ((), s1)"
    and fin: "(case period_window_of cal (b_period b) (b_updated_at b) of
         Some w \<Rightarrow> set_period_usage_tx (b_id ?n) w (b_used ?n) (b_updated_at ?n)
       | None \<Rightarrow> tx_return ()) s1 = Inr (u, s')"
    unfolding budget_upsert_def Let_def
    by auto
  have f: "find_budget s1 (b_id b) = Some ?n" using find_budget_upsert_row [OF row] by simp
  show "find_budget s' (b_id b) = Some ?n"
  proof (cases "period_window_of cal (b_period b) (b_updated_at b)")
    case None
    with fin f show ?thesis by simp
  next
    case (Some w)
    with fin have "set_period_usage_tx (b_id b) w (b_used ?n) (b_updated_at b) s1 = Inr (u, s')" by simp
    from set_period_usage_tx_Inr(2,3) [OF this] f show ?thesis
      by (cases "period_usage s1 (b_id b) (pw_starts_at w)") auto
  qed
  show "budget_is_current cal (b_updated_at b) s' ?n"
  proof (cases "b_period b = JobPeriod \<or> b_period b = Lifetime")
    case True
    then show ?thesis by (auto simp: budget_is_current_def normalize_budget_for_upsert_def)
  next
    case False
    then obtain w where w: "period_window_of cal (b_period b) (b_updated_at b) = Some w"
      using period_window_of_None
      by (cases "period_window_of cal (b_period b) (b_updated_at b)") auto
    with fin have "set_period_usage_tx (b_id b) w (b_used ?n) (b_updated_at b) s1 = Inr (u, s')" by simp
    from period_usage_set [OF this, of "b_id b" "pw_starts_at w"]
    have "period_usage s' (b_id b) (pw_starts_at w) = Some (b_used ?n)" by simp
    with False w show ?thesis
      by (cases "b_period b")
         (simp_all add: budget_is_current_def, simp_all add: normalize_budget_for_upsert_def Let_def)
  qed
qed

end
