(* ===== verification/Budget_Properties.thy ===== *)
theory Budget_Properties
  imports Budget_Correctness
begin

text \<open>
  The properties of the budget repository, each with a witness on a small database: one daily
  budget with a hard limit of 100, one lifetime and one per-job budget, two jobs.
\<close>

section \<open>A small database\<close>

definition sample_budget :: "budget_id \<Rightarrow> budget_period \<Rightarrow> i64 \<Rightarrow> i64 \<Rightarrow> budget" where
  "sample_budget i period limit used = \<lparr>b_id = i, b_name = ''cap'',
     b_scope = \<lparr>bs_kind = GlobalScope, bs_provider_profile_id = None\<rparr>, b_period = period,
     b_metric = Characters, b_currency = None, b_limit = limit, b_used = used,
     b_warning_threshold_percent = 80, b_hard = True, b_enabled = True,
     b_period_started_at = 0, b_period_ends_at = None, b_created_at = 0, b_updated_at = 0\<rparr>"

definition sample_row :: "budget \<Rightarrow> budget_row" where
  "sample_row b = \<lparr>bg_id = b_id b, bg_provider_id = None, bg_name = b_name b,
     bg_period = b_period b, bg_enabled = True, bg_limit_value = b_limit b,
     bg_used_value = b_used b, bg_payload = b\<rparr>"

definition sample_job :: "job_id \<Rightarrow> job" where
  "sample_job i = \<lparr>j_id = i, j_project_id = 7, j_kind = Conversion, j_state = Queued,
     j_export_profile_id = None, j_reservation_id = None, j_progress_completed = 0,
     j_progress_total = 4, j_status_message = None, j_allow_budget_override = False,
     j_created_at = 0, j_started_at = None, j_finished_at = None, j_updated_at = 0,
     j_revision = 0\<rparr>"

definition sample_job_row :: "job \<Rightarrow> job_row" where
  "sample_job_row j = \<lparr>jr_id = j_id j, jr_project_id = j_project_id j,
     jr_export_profile_id = None, jr_reservation_id = j_reservation_id j, jr_state = j_state j,
     jr_revision = int (j_revision j), jr_created_at = j_created_at j, jr_payload = j\<rparr>"

definition sample_db :: db where
  "sample_db = \<lparr>db_providers = [], db_projects = [7], db_export_profiles = [], db_chapters = [],
     db_segments = [],
     db_budgets = map sample_row [sample_budget 1 Daily 100 40, sample_budget 2 Lifetime 1000 10,
       sample_budget 3 JobPeriod 50 0],
     db_period_usage = [], db_reservations = [], db_allocations = [],
     db_jobs = map (sample_job_row \<circ> sample_job) [11, 12], db_units = [],
     db_dependencies = [], db_attempts = [], db_outputs = [], db_ledger = [],
     db_ledger_last = 0, db_idempotency = [],
     db_rate_cards = []\<rparr>"

definition sample_allocation :: "budget_id \<Rightarrow> i64 \<Rightarrow> budget_allocation" where
  "sample_allocation i v = \<lparr>ba_budget_id = i, ba_reserved_amount = v, ba_actual_amount = None\<rparr>"

definition sample_reservation :: budget_reservation where
  "sample_reservation = \<lparr>br_id = 21, br_job_id = 11, br_status = Active,
     br_allocations = [sample_allocation 1 60, sample_allocation 2 5, sample_allocation 3 50],
     br_created_at = 3600000000000, br_expires_at = Some 9000000000000, br_reconciled_at = None\<rparr>"

text \<open>The database after the admission of the reservation.\<close>

definition sample_rolled :: budget where
  "sample_rolled = (sample_budget 1 Daily 100 40)
     \<lparr>b_period_ends_at := Some 86400000000000, b_updated_at := 3600000000000\<rparr>"

definition sample_reserved :: db where
  "sample_reserved = sample_db\<lparr>
     db_budgets := [sample_row sample_rolled, sample_row (sample_budget 2 Lifetime 1000 10),
       sample_row (sample_budget 3 JobPeriod 50 0)],
     db_period_usage := [\<lparr>pu_budget_id = 1, pu_period_started_at = 0,
       pu_period_ends_at = 86400000000000, pu_used_value = 40, pu_updated_at = 3600000000000\<rparr>],
     db_reservations := [reservation_row_of sample_reservation 0],
     db_allocations := map (allocation_row_of 21) (br_allocations sample_reservation)\<rparr>"

lemmas sample_defs =
  sample_db_def sample_reservation_def sample_budget_def sample_row_def sample_allocation_def
  sample_job_def sample_job_row_def sample_rolled_def sample_reserved_def

lemma validated_ok: "issues = [] \<Longrightarrow> validated issues = Inr ()"
  by simp

text \<open>Evaluation of the repository on a concrete database.\<close>

lemmas budget_eval =
  budget_reserve_def insert_budget_reservation_tx_def check_allocation_tx_def require_budget_tx_def
  load_budget_tx_def find_budget_def ensure_current_period_tx_def roll_period_tx_def
  remaining_tx_def active_reserved_tx_def active_reserved_sum_def checked_sum_def
  job_consumed_sum_def insert_reservation_row_tx_def insert_allocation_tx_def
  expire_stale_reservations_def get_or_create_period_usage_tx_def insert_usage_tx_def
  persist_budget_state_tx_def budget_exists_def period_usage_def is_usage_row_def usage_row_def
  expire_row_def is_stale_def allocation_reservation_def counts_as_reserved_def
  allocation_counts_def job_consumption_def max_sequence_def reservation_row_of_def
  reservation_clashes_def allocation_row_of_def decode_budget_row_def enforce_def
  budget_remaining_def i64_defs allocation_out_of_range_def window_contains_def
  validated_ok reservation_issues_Nil_iff tx_defs

lemmas settlement_eval =
  budget_eval budget_release_def budget_reconcile_def require_open_reservation_tx_def
  load_reservation_tx_def find_reservation_def decode_reservation_row_def is_open_def
  settle_row_tx_def reconcile_allocation_tx_def charge_budget_tx_def add_period_usage_tx_def
  set_period_usage_tx_def Let_def

lemma sample_windows [simp]:
  "period_window_of cal Lifetime t = None" "period_window_of cal JobPeriod t = None"
  "period_window_of gregorian Daily 3600000000000
    = Some \<lparr>pw_starts_at = 0, pw_ends_at = 86400000000000\<rparr>"
  "period_window_of gregorian Daily 5000000000000
    = Some \<lparr>pw_starts_at = 0, pw_ends_at = 86400000000000\<rparr>"
  by (simp_all add: period_window_of_def, code_simp+)

lemma sample_db_wf: "budgets_wf sample_db" by code_simp

lemma sample_reserve:
  "budget_reserve gregorian sample_reservation sample_db = Inr ((), sample_reserved)"
  by (simp add: budget_eval sample_defs)

section \<open>Admission\<close>

text \<open>
  C1. An admission never overcommits a hard budget. After \<open>BudgetRepository::reserve\<close> has returned
  \<open>Ok\<close>, every hard budget that the reservation names has, including the new allocation, usage plus
  active reserved amounts of its period within its limit; for a per-job budget it is what the job
  has consumed and reserved that is within the limit.
\<close>

theorem reserve_within_limit:
  assumes "budgets_wf s" and "budget_reserve cal r s = Inr (u, s')"
    and "a \<in> set (br_allocations r)" and "find_budget s' (ba_budget_id a) = Some b" and "b_hard b"
  shows "if b_period b = JobPeriod then job_consumed_sum (br_job_id r) (b_id b) s' \<le> b_limit b
         else b_used b + active_reserved_sum cal b (br_created_at r) s' \<le> b_limit b"
  using admitted_within_limit [OF assms] by (simp add: committed_amount_def split: if_splits)

theorem reserve_within_limit_witness:
  "\<exists>b. find_budget sample_reserved 1 = Some b \<and>
     b_used b + active_reserved_sum gregorian b 3600000000000 sample_reserved \<le> 100"
proof -
  have "map_option (\<lambda>b. (b_hard b, b_period b, b_limit b)) (find_budget sample_reserved 1)
      = Some (True, Daily, 100)" by code_simp
  then obtain b where b: "find_budget sample_reserved 1 = Some b"
    and "b_hard b" "b_period b = Daily" "b_limit b = 100" by auto
  moreover have "sample_allocation 1 60 \<in> set (br_allocations sample_reservation)" by code_simp
  moreover have "br_created_at sample_reservation = 3600000000000"
    "ba_budget_id (sample_allocation 1 60) = 1" by code_simp+
  ultimately show ?thesis
    using reserve_within_limit [OF sample_db_wf sample_reserve, of "sample_allocation 1 60" b]
    by simp
qed

text \<open>
  An admission is all or nothing. If \<open>reserve\<close> fails, nothing is written. If it succeeds, the
  reservation and each of its allocations is appended with the append-only usage-ledger boundary,
  stale reservations have expired, and no other row of the reservation, allocation, job and ledger
  tables has changed.
\<close>

theorem reserve_all_or_nothing:
  assumes "budgets_wf s" and "commit (budget_reserve cal r) s = (res, s')"
  shows "case res of
      Inl e \<Rightarrow> s' = s
    | Inr _ \<Rightarrow> db_reservations s' = expired_reservations (br_created_at r) s
          @ [reservation_row_of r (max_sequence (db_ledger s))]
        \<and> db_allocations s' = db_allocations s @ map (allocation_row_of (br_id r)) (br_allocations r)
        \<and> db_jobs s' = db_jobs s \<and> db_ledger s' = db_ledger s"
proof (cases rule: commit_cases [of "budget_reserve cal r" s])
  case (committed a t)
  note adm = committed(1) [unfolded budget_reserve_def]
  show ?thesis
  proof (rule insert_budget_reservation_tx_Inr [OF adm budgets_wf_allocations(1) [OF assms(1)]])
    show "find_budget s i = Some b \<Longrightarrow> b_id b = i" for i b by (rule find_budget_id [OF assms(1)])
  qed (use committed(2) assms(2) in auto)
qed (use assms(2) in auto)

theorem reserve_all_or_nothing_witness:
  "length (db_reservations sample_reserved) = 1 \<and> length (db_allocations sample_reserved) = 3"
  using reserve_all_or_nothing [OF sample_db_wf
      commit_Inr [of "budget_reserve gregorian sample_reservation", OF sample_reserve]]
  by (simp add: expired_reservations_def sample_db_def sample_reservation_def)

section \<open>The tables\<close>



section \<open>Settlement\<close>

text \<open>
  C3. A reservation is settled once. When \<open>reconcile\<close> or \<open>release\<close> has settled it, no sequence of
  operations changes it again, and a further \<open>reconcile\<close> or \<open>release\<close> is refused with a conflict,
  so usage is never charged twice for one reservation.
\<close>

theorem settled_once:
  assumes "budgets_wf s" and "budget_reachable cal s s'" and "find_reservation s i = Some r"
    and "br_status r \<in> {Reconciled, Released}" and "list_all (\<lambda>(_, v). 0 \<le> v) actuals"
  shows "find_reservation s' i = Some r
    \<and> commit (budget_reconcile cal i actuals now) s'
        = (Inl (Conflict ''budget_reservation'' (IdOf i)), s')
    \<and> commit (budget_release i now) s' = (Inl (Conflict ''budget_reservation'' (IdOf i)), s')"
proof -
  from assms(4) have c: "\<not> is_open (br_status r)" by (auto simp: is_open_def)
  from budget_reachable_wf_settled [OF assms(2,1)]
  have f: "find_reservation s' i = Some r"
    using find_reservation_settled [OF assms(1) _ _ assms(3) c] by blast
  note closed = require_open_reservation_tx_closed [OF f c]
  from assms(5) have "\<not> list_ex (\<lambda>(_, v). v < 0) actuals" by (auto simp: list_ex_iff list_all_iff)
  then have "budget_reconcile cal i actuals now s' = Inl (Conflict ''budget_reservation'' (IdOf i))"
    using closed by (simp add: budget_reconcile_def tx_then_Inl_iff tx_bind_Inl_iff)
  moreover have "budget_release i now s' = Inl (Conflict ''budget_reservation'' (IdOf i))"
    using closed by (simp add: budget_release_def tx_bind_Inl_iff)
  ultimately show ?thesis using f by (simp add: commit_Inl)
qed

definition sample_released :: db where
  "sample_released = sample_reserved\<lparr>db_reservations := [(reservation_row_of sample_reservation 0)
     \<lparr>rv_status := Released, rv_reconciled_at := Some 5000000000000,
      rv_payload := sample_reservation\<lparr>br_status := Released,
        br_reconciled_at := Some 5000000000000\<rparr>\<rparr>]\<rparr>"

lemma sample_release:
  "budget_release 21 5000000000000 sample_reserved = Inr (sample_reservation\<lparr>br_status := Released,
     br_reconciled_at := Some 5000000000000\<rparr>, sample_released)"
  by (simp add: settlement_eval sample_defs sample_released_def)

theorem settled_once_witness:
  "commit (budget_reconcile gregorian 21 [(1, 60)] 6000000000000) sample_released
     = (Inl (Conflict ''budget_reservation'' (IdOf 21)), sample_released)"
proof -
  have "budget_reachable gregorian sample_db sample_released"
    by (rule budget_reachable.step [OF budget_reachable.step
        [OF budget_reachable.start budget_step.reserve [OF sample_reserve]]
        budget_step.release [OF sample_release]])
  from budget_reachable_wf_settled [OF this sample_db_wf] have wf: "budgets_wf sample_released" by simp
  have "map_option br_status (find_reservation sample_released 21) = Some Released"
    by (simp add: settlement_eval sample_defs sample_released_def)
  then obtain r where "find_reservation sample_released 21 = Some r" "br_status r = Released" by auto
  then show ?thesis
    using settled_once [OF wf budget_reachable.start, of 21 r "[(1, 60)]" gregorian 6000000000000]
    by simp
qed

text \<open>
  C2. Reconciliation charges exactly the actual amounts. After \<open>reconcile\<close> has returned \<open>Ok\<close>, each
  budget of the reservation has been charged its actual amount (zero when none is reported): a
  lifetime budget in its usage, a daily or monthly budget in the calendar window in which the
  reservation was made, even when that window is over, and a per-job budget not at all; budgets the
  reservation does not name keep their usage, and the reservation is stored as reconciled.
\<close>

theorem reconcile_charges_actuals:
  assumes "budgets_wf s" and "budget_reconcile cal i actuals now s = Inr (r', s')"
    and "find_reservation s i = Some r"
  shows "find_reservation s' i = Some r' \<and> br_status r' = Reconciled
    \<and> (\<forall>a \<in> set (br_allocations r). \<forall>b. find_budget s (ba_budget_id a) = Some b \<longrightarrow>
         charged cal s now r (actual_of (map_of actuals) a) b s')
    \<and> (\<forall>j. j \<notin> ba_budget_id ` set (br_allocations r) \<longrightarrow> find_budget s' j = find_budget s j
         \<and> (\<forall>t. period_usage s' j t = period_usage s j t))"
proof (rule budget_reconcile_Inr [OF assms(2,1)])
  fix r0 s1
  assume r0: "find_reservation s i = Some r0" "is_open (br_status r0)"
    and r': "r' = r0\<lparr>br_allocations := map (\<lambda>a. a\<lparr>ba_actual_amount := Some (actual_of (map_of actuals) a)\<rparr>)
      (br_allocations r0), br_status := Reconciled, br_reconciled_at := Some now\<rparr>"
    and same: "db_reservations s1 = db_reservations s"
    and st: "settle_row_tx i Reconciled now r' s1 = Inr ((), s')"
    and ch: "\<forall>a \<in> set (br_allocations r0). \<forall>b0. find_budget s (ba_budget_id a) = Some b0 \<longrightarrow>
         charged cal s now r0 (actual_of (map_of actuals) a) b0 s1"
    and fr: "\<forall>j. j \<notin> ba_budget_id ` set (br_allocations r0) \<longrightarrow> find_budget s1 j = find_budget s j
         \<and> (\<forall>t. period_usage s1 j t = period_usage s j t)"
  from r0(1) assms(3) have rr: "r0 = r" by simp
  from st obtain R where s': "s' = s1\<lparr>db_reservations := R\<rparr>" by (auto simp: settle_row_tx_def)
  have "charged cal s now r v b s' = charged cal s now r v b s1" for v b
    by (rule charged_cong) (simp_all add: s')
  with ch rr have "\<forall>a \<in> set (br_allocations r). \<forall>b. find_budget s (ba_budget_id a) = Some b \<longrightarrow>
         charged cal s now r (actual_of (map_of actuals) a) b s'" by simp
  moreover have "find_reservation s' i = Some r'"
    using find_reservation_settle [OF st] r0 same r' by (simp add: find_reservation_def)
  ultimately show ?thesis using fr rr r' s' by simp
qed

definition sample_reconciled :: "budget_reservation \<times> db" where
  "sample_reconciled =
     projr (budget_reconcile gregorian 21 [(1, 70), (2, 5)] 5000000000000 sample_reserved)"

lemma sample_reconcile:
  "budget_reconcile gregorian 21 [(1, 70), (2, 5)] 5000000000000 sample_reserved
    = Inr (fst sample_reconciled, snd sample_reconciled)"
  by (simp add: settlement_eval sample_defs sample_reconciled_def)

lemma sample_reserved_wf: "budgets_wf sample_reserved"
  by (rule budget_step_wf [OF budget_step.reserve [OF sample_reserve] sample_db_wf])

theorem reconcile_charges_actuals_witness:
  "period_usage (snd sample_reconciled) 1 0 = Some 110"
proof -
  have f: "find_reservation sample_reserved 21 = Some sample_reservation"
    and b: "find_budget sample_reserved 1 = Some sample_rolled"
    and w: "period_window_of gregorian (b_period sample_rolled) (br_created_at sample_reservation)
      = Some \<lparr>pw_starts_at = 0, pw_ends_at = 86400000000000\<rparr>"
    and u: "calendar_usage gregorian sample_reserved 5000000000000 sample_rolled 0 = 40"
    by (simp_all add: settlement_eval sample_defs calendar_usage_def)
  from reconcile_charges_actuals [OF sample_reserved_wf sample_reconcile f] b
  have "charged gregorian sample_reserved 5000000000000 sample_reservation 70 sample_rolled
      (snd sample_reconciled)"
    by (simp add: sample_reservation_def sample_allocation_def actual_of_def)
  with w u show ?thesis
    by (auto simp: charged_def sample_rolled_def sample_budget_def i64_defs split: option.splits)
qed

section \<open>Calendar periods\<close>

text \<open>The UTC windows of daily and monthly budgets partition time: an instant lies in the window
  computed from it, and two instants have the same window exactly when one lies in the other's.
\<close>

theorem budget_windows_partition:
  assumes "period_window_of gregorian p t = Some w" and "period_window_of gregorian p u = Some v"
  shows "window_contains w t \<and> (window_contains w u \<longleftrightarrow> v = w)"
  using greg.window_contains_self [OF assms(1)] greg.window_eq_iff [OF assms] by simp

theorem budget_windows_partition_witness:
  "\<not> window_contains \<lparr>pw_starts_at = 0, pw_ends_at = 86400000000000\<rparr> 90000000000000"
proof -
  have "period_window_of gregorian Daily 90000000000000
    = Some \<lparr>pw_starts_at = 86400000000000, pw_ends_at = 172800000000000\<rparr>" by code_simp
  from budget_windows_partition [OF sample_windows(3) this] show ?thesis by simp
qed

text \<open>Reading a budget rolls it to the window of \<open>now\<close>: \<open>get\_at\<close> returns and stores the bounds of
  that window and the usage recorded for it, and until the window ends a further read returns the
  same budget and changes no budget and no usage row.
\<close>

theorem read_rolls_over:
  assumes "budgets_wf s" and "budget_get_at gregorian i now s = Inr (Some b, s')"
    and "period_window_of gregorian (b_period b) now = Some w" and "window_contains w later"
  shows "b_period_started_at b = pw_starts_at w \<and> b_period_ends_at b = Some (pw_ends_at w)
    \<and> period_usage s' i (pw_starts_at w) = Some (b_used b)
    \<and> budget_get_at gregorian i later s'
        = Inr (Some b, s'\<lparr>db_reservations := expired_reservations later s'\<rparr>)"
proof -
  note c = budget_get_at_current [OF assms(2,1)]
  have "budgets_wf s'" by (rule budget_get_at_wf [OF assms(2,1)])
  from find_budget_id [OF this c(1)] have id: "b_id b = i" .
  have "period_window_of gregorian (b_period b) later = Some w"
    by (rule greg.window_stable [OF assms(3,4)])
  with assms(3) have "budget_is_current gregorian later s' b"
    by (intro budget_is_current_within_window [OF c(2)]) simp
  note again = budget_get_at_unchanged [OF c(1) this]
  from assms(3) have "b_period b \<noteq> JobPeriod \<and> b_period b \<noteq> Lifetime"
    using period_window_of_None by fastforce
  with c(2) assms(3) id again show ?thesis by (cases "b_period b") (auto simp: budget_is_current_def)
qed

theorem read_rolls_over_witness:
  "\<exists>b s'. budget_get_at gregorian 1 3600000000000 sample_db = Inr (Some b, s')
     \<and> fst (projr (budget_get_at gregorian 1 5000000000000 s')) = Some b"
proof -
  let ?s = "sample_db\<lparr>db_budgets := db_budgets sample_reserved,
    db_period_usage := db_period_usage sample_reserved\<rparr>"
  have e: "budget_get_at gregorian 1 3600000000000 sample_db = Inr (Some sample_rolled, ?s)"
    by (simp add: settlement_eval sample_defs budget_get_at_def)
  have "b_period sample_rolled = Daily" by (simp add: sample_rolled_def sample_budget_def)
  then have "period_window_of gregorian (b_period sample_rolled) 3600000000000
      = Some \<lparr>pw_starts_at = 0, pw_ends_at = 86400000000000\<rparr>" by simp
  from read_rolls_over [OF sample_db_wf e this, of 5000000000000] e show ?thesis
    by (simp add: window_contains_def)
qed

text \<open>Storing and reading round-trip: after \<open>upsert\<close> of a budget has returned \<open>Ok\<close>, a read at the
  budget's update time returns it normalised (bounds of the current window, usage reset when it was
  counted in an earlier one), whatever was stored under its id before.
\<close>

theorem upsert_read_roundtrip:
  assumes "budget_upsert cal b s = Inr ((), s')"
  shows "commit (budget_get_at cal (b_id b) (b_updated_at b)) s'
    = (Inr (Some (normalize_budget_for_upsert cal b)),
       s'\<lparr>db_reservations := expired_reservations (b_updated_at b) s'\<rparr>)"
  by (rule commit_Inr) (rule budget_get_at_unchanged [OF budget_upsert_stored [OF assms]])

theorem upsert_read_roundtrip_witness:
  "\<exists>s'. fst (commit (budget_get_at gregorian 1 3600000000000) s') = Inr (Some
     ((sample_budget 1 Daily 90 40)\<lparr>b_updated_at := 3600000000000,
        b_period_ends_at := Some 86400000000000\<rparr>))"
proof -
  let ?b = "(sample_budget 1 Daily 90 40)\<lparr>b_updated_at := 3600000000000\<rparr>"
  let ?s = "snd (commit (budget_upsert gregorian ?b) sample_db)"
  have n: "normalize_budget_for_upsert gregorian ?b = ?b\<lparr>b_period_ends_at := Some 86400000000000\<rparr>"
    by (simp add: normalize_budget_for_upsert_def sample_budget_def window_contains_def Let_def)
  have ok: "budget_issues ?b = []" "budget_issues (?b\<lparr>b_period_ends_at := Some 86400000000000\<rparr>) = []"
    by (simp_all add: budget_issues_def sample_budget_def budget_scope_issues_def str_is_blank_ascii
        is_ascii_ws_def)
  have "\<not> isl (budget_upsert gregorian ?b sample_db)"
    unfolding budget_upsert_def n Let_def validated_ok [OF ok(1)] validated_ok [OF ok(2)]
    by (simp add: settlement_eval sample_defs budget_upsert_row_def)
  from committed_unit [where m = "budget_upsert gregorian ?b", OF this] have u: "budget_upsert gregorian ?b sample_db = Inr ((), ?s)" .
  from upsert_read_roundtrip [OF u] n show ?thesis
    by (intro exI [of _ ?s]) (simp add: sample_budget_def)
qed

end
