(* ===== verification/Job_Repository.thy ===== *)
theory Job_Repository
  imports Budget_Repository
begin

text \<open>
  The job repository (crates/storage/src/repositories/jobs.rs): optimistic updates of job rows, the
  exclusive ownership of export destinations, admission of manual retries, units and attempts.

  Case mapping and NFC of a destination key are Unicode tables (\<open>char::to\_uppercase\<close>,
  \<open>char::to\_lowercase\<close> and the crate unicode-normalization); they are the parameter \<open>ufold\<close>, the
  function \<open>normalize\_output\_destination\_key\<close> applies last.
\<close>

section \<open>Destination keys\<close>

definition trim_end_slashes :: "str \<Rightarrow> str" where
  "trim_end_slashes s = rev (dropWhile (\<lambda>c. c = CHR ''/'') (rev s))"

definition normalize_output_destination_key :: "(str \<Rightarrow> str) \<Rightarrow> str \<Rightarrow> str" where
  "normalize_output_destination_key ufold v =
     ufold (trim_end_slashes (map (\<lambda>c. if c = CHR 0x5C then CHR ''/'' else c) v))"

definition manifest_suffix :: str where
  "manifest_suffix = ''.manifest.json''"

definition protected_output_keys :: "(str \<Rightarrow> str) \<Rightarrow> str \<Rightarrow> export_layout \<Rightarrow> str list" where
  "protected_output_keys ufold key layout =
     (let normalized = normalize_output_destination_key ufold key
      in normalized # (if layout = SingleFile then [normalized @ manifest_suffix] else []))"

definition starts_with_slash :: "str \<Rightarrow> bool" where
  "starts_with_slash s = (case s of [] \<Rightarrow> False | c # _ \<Rightarrow> c = CHR ''/'')"

text \<open>\<open>child\<close> lies below the directory \<open>parent\<close>.\<close>

definition is_below :: "str \<Rightarrow> str \<Rightarrow> bool" where
  "is_below child parent =
     (case strip_prefix parent child of None \<Rightarrow> False | Some suffix \<Rightarrow> starts_with_slash suffix)"

definition output_keys_overlap :: "str \<Rightarrow> str \<Rightarrow> bool" where
  "output_keys_overlap left right \<longleftrightarrow> left = right \<or> is_below left right \<or> is_below right left"

definition reservation_keys_overlap ::
  "(str \<Rightarrow> str) \<Rightarrow> str \<Rightarrow> export_layout \<Rightarrow> str \<Rightarrow> export_layout \<Rightarrow> bool" where
  "reservation_keys_overlap ufold left_key left_layout right_key right_layout =
     list_ex (\<lambda>left. list_ex (\<lambda>right. output_keys_overlap left right)
         (protected_output_keys ufold right_key right_layout))
       (protected_output_keys ufold left_key left_layout)"

section \<open>Output reservations\<close>

text \<open>An \<open>OutputDestinationReservation\<close> has the columns of its row.\<close>

type_synonym output_reservation = output_row

definition decode_output_reservation :: "(str \<Rightarrow> str) \<Rightarrow> output_row \<Rightarrow> output_reservation" where
  "decode_output_reservation ufold row =
     row\<lparr>ou_destination_key := normalize_output_destination_key ufold (ou_destination_key row)\<rparr>"

definition validate_output_reservation ::
  "(str \<Rightarrow> str) \<Rightarrow> job \<Rightarrow> output_reservation \<Rightarrow> storage_error + unit" where
  "validate_output_reservation ufold j r =
     (if ou_job_id r \<noteq> j_id j \<or> ou_project_id r \<noteq> j_project_id j
         \<or> str_is_blank (normalize_output_destination_key ufold (ou_destination_key r))
         \<or> str_is_blank (ou_destination_path r)
         \<or> ou_state r \<noteq> Reserved \<or> ou_promoted_at r \<noteq> None
      then Inl (InvalidData ''output destination reservation does not match its admitted job'' [])
      else Inr ())"

text \<open>The keys that the guard of the \<open>INSERT\<close> compares: SQLite's \<open>lower\<close> folds ASCII only.\<close>

definition sql_protected_keys :: "str \<Rightarrow> export_layout \<Rightarrow> str list" where
  "sql_protected_keys key layout = map ascii_lower key
     # (if layout = SingleFile then [map ascii_lower key @ manifest_suffix] else [])"

definition sql_key_conflict :: "str \<Rightarrow> str \<Rightarrow> bool" where
  "sql_key_conflict existing candidate \<longleftrightarrow> existing = candidate
     \<or> strip_prefix (candidate @ ''/'') existing \<noteq> None
     \<or> strip_prefix (existing @ ''/'') candidate \<noteq> None"

definition sql_rows_conflict :: "output_row \<Rightarrow> output_row \<Rightarrow> bool" where
  "sql_rows_conflict existing candidate \<longleftrightarrow>
     list_ex (\<lambda>e. list_ex (sql_key_conflict e)
         (sql_protected_keys (ou_destination_key candidate) (ou_layout candidate)))
       (sql_protected_keys (ou_destination_key existing) (ou_layout existing))"

definition output_conflict :: "output_reservation \<Rightarrow> storage_error" where
  "output_conflict r = Conflict ''output destination'' (IdText (ou_destination_path r))"

definition insert_output_reservation :: "(str \<Rightarrow> str) \<Rightarrow> output_reservation \<Rightarrow> unit db_tx" where
  "insert_output_reservation ufold r =
     (let key = normalize_output_destination_key ufold (ou_destination_key r);
          row = r\<lparr>ou_destination_key := key\<rparr>
      in tx_bind (tx_gets (\<lambda>s. list_ex (\<lambda>existing. reservation_keys_overlap ufold key (ou_layout r)
             (ou_destination_key (decode_output_reservation ufold existing)) (ou_layout existing))
           (db_outputs s))) (\<lambda>overlaps.
         tx_then (tx_ensure (\<not> overlaps) (output_conflict r))
        (tx_bind (tx_gets (\<lambda>s. list_ex (\<lambda>existing. sql_rows_conflict existing row) (db_outputs s)))
           (\<lambda>guarded.
         tx_then (tx_ensure (\<not> guarded) (output_conflict r))
        (tx_bind (tx_gets (\<lambda>s. list_ex (\<lambda>existing. ou_job_id existing = ou_job_id r
              \<or> eq_ignore_ascii_case (ou_destination_key existing) key) (db_outputs s))) (\<lambda>clash.
         tx_then (tx_ensure (\<not> clash) (output_conflict r))
        (tx_bind (tx_gets (\<lambda>s. list_ex (\<lambda>j. jr_id j = ou_job_id r) (db_jobs s)
              \<and> List.member (db_projects s) (ou_project_id r))) (\<lambda>found.
         tx_then (enforce found ForeignKeyViolation)
           (tx_modify (\<lambda>s. s\<lparr>db_outputs := db_outputs s @ [row]\<rparr>))))))))))"

section \<open>Job rows\<close>

definition decode_job_row :: "job_row \<Rightarrow> storage_error + job" where
  "decode_job_row row =
     (if jr_revision row < 0 then Inl (InvalidData ''job revision is negative'' [])
      else Inr ((jr_payload row)\<lparr>j_revision := nat (jr_revision row)\<rparr>))"

definition job_row_of :: "job \<Rightarrow> job_row" where
  "job_row_of j = \<lparr>jr_id = j_id j, jr_project_id = j_project_id j,
     jr_export_profile_id = j_export_profile_id j, jr_reservation_id = j_reservation_id j,
     jr_state = j_state j, jr_revision = i64_from_u64_or_max (j_revision j),
     jr_created_at = j_created_at j, jr_payload = j\<rparr>"

definition export_profile_known :: "db \<Rightarrow> export_profile_id option \<Rightarrow> bool" where
  "export_profile_known s e = (case e of None \<Rightarrow> True | Some i \<Rightarrow> List.member (db_export_profiles s) i)"

definition insert_job :: "job \<Rightarrow> unit db_tx" where
  "insert_job j =
     tx_bind (tx_gets (\<lambda>s. list_ex (\<lambda>r. jr_id r = j_id j) (db_jobs s))) (\<lambda>clash.
       tx_then (tx_ensure (\<not> clash) (Conflict ''job'' (IdOf (j_id j))))
      (tx_bind (tx_gets (\<lambda>s. List.member (db_projects s) (j_project_id j)
            \<and> export_profile_known s (j_export_profile_id j))) (\<lambda>found.
       tx_then (enforce found ForeignKeyViolation)
         (tx_modify (\<lambda>s. s\<lparr>db_jobs := db_jobs s @ [job_row_of j]\<rparr>)))))"

text \<open>\<open>UPDATE jobs ... WHERE id = ? AND revision = ?\<close> and the number of rows it changed.\<close>

definition matches_revision :: "job_id \<Rightarrow> u64 \<Rightarrow> job_row \<Rightarrow> bool" where
  "matches_revision i expected r \<longleftrightarrow> jr_id r = i \<and> jr_revision r = i64_from_u64_or_max expected"

definition update_job :: "job \<Rightarrow> u64 \<Rightarrow> u64 \<Rightarrow> nat db_tx" where
  "update_job j expected next_revision =
     tx_bind (tx_gets (\<lambda>s. rows_affected (matches_revision (j_id j) expected) (db_jobs s))) (\<lambda>n.
     tx_bind (tx_gets (\<lambda>s. export_profile_known s (j_export_profile_id j))) (\<lambda>found.
       tx_then (enforce (n > 0 \<longrightarrow> found) ForeignKeyViolation)
      (tx_then (tx_modify (\<lambda>s. s\<lparr>db_jobs := sql_update (matches_revision (j_id j) expected)
          (\<lambda>r. r\<lparr>jr_export_profile_id := j_export_profile_id j,
                 jr_reservation_id := j_reservation_id j, jr_state := j_state j,
                 jr_revision := i64_from_u64_or_max next_revision, jr_payload := j\<rparr>)
          (db_jobs s)\<rparr>))
        (tx_return n))))"

definition find_job_row :: "db \<Rightarrow> job_id \<Rightarrow> job_row option" where
  "find_job_row s i = find (\<lambda>r. jr_id r = i) (db_jobs s)"

definition decode_rows :: "('r \<Rightarrow> storage_error + 'a) \<Rightarrow> 'r list \<Rightarrow> 'a list db_tx" where
  "decode_rows decode rows = tx_mapM rows (\<lambda>r. tx_lift (decode r))"

definition job_get :: "job_id \<Rightarrow> job option db_tx" where
  "job_get i = tx_bind (tx_gets (\<lambda>s. find_job_row s i)) (\<lambda>found. case found of
      None \<Rightarrow> tx_return None
    | Some row \<Rightarrow> tx_bind (tx_lift (decode_job_row row)) (\<lambda>j. tx_return (Some j)))"

definition job_list_for_project :: "project_id \<Rightarrow> job list db_tx" where
  "job_list_for_project i = tx_bind (tx_gets (\<lambda>s.
       sort_key (\<lambda>r. - jr_created_at r) (filter (\<lambda>r. jr_project_id r = i) (db_jobs s))))
     (decode_rows decode_job_row)"

definition job_list_active :: "job list db_tx" where
  "job_list_active = tx_bind (tx_gets (\<lambda>s.
       sort_key jr_created_at (filter (\<lambda>r. \<not> is_terminal (jr_state r)) (db_jobs s))))
     (decode_rows decode_job_row)"

definition stale_or_missing :: "db \<Rightarrow> job_id \<Rightarrow> storage_error" where
  "stale_or_missing s i = (if rows_affected (\<lambda>r. jr_id r = i) (db_jobs s) > 0
     then StaleRevision ''job'' (IdOf i) else NotFound ''job'' (IdOf i))"

section \<open>Methods of the repository\<close>

definition job_insert :: "job \<Rightarrow> unit db_tx" where
  "job_insert j = tx_then (tx_lift (validated (job_issues j))) (insert_job j)"

definition job_update :: "job \<Rightarrow> u64 \<Rightarrow> job db_tx" where
  "job_update j expected =
     tx_then (tx_lift (validated (job_issues j)))
       (let next_revision = u64_saturating_add expected 1;
            stored = j\<lparr>j_revision := next_revision\<rparr>
        in tx_bind (update_job stored expected next_revision) (\<lambda>n.
           tx_bind (tx_gets (\<lambda>s. stale_or_missing s (j_id stored))) (\<lambda>failure.
             tx_then (tx_ensure (n \<noteq> 0) failure) (tx_return stored))))"

definition job_transition_method :: "job_id \<Rightarrow> u64 \<Rightarrow> job_state \<Rightarrow> time \<Rightarrow> job db_tx" where
  "job_transition_method i expected target now =
     tx_bind (job_get i) (\<lambda>found.
     tx_bind (tx_some found (NotFound ''job'' (IdOf i))) (\<lambda>j.
       tx_then (tx_ensure (j_revision j = expected) (StaleRevision ''job'' (IdOf i)))
      (tx_bind (tx_lift (case job_transition j target now of
            Inl e \<Rightarrow> Inl (DomainErr e) | Inr j' \<Rightarrow> Inr j')) (\<lambda>j'.
         job_update j' expected))))"

text \<open>The guarded update inside the compound methods: no row changed means a stale revision.\<close>

definition update_or_stale :: "job \<Rightarrow> u64 \<Rightarrow> u64 \<Rightarrow> job db_tx" where
  "update_or_stale stored expected next_revision =
     tx_bind (update_job stored expected next_revision) (\<lambda>n.
       tx_then (tx_ensure (n \<noteq> 0) (StaleRevision ''job'' (IdOf (j_id stored)))) (tx_return stored))"

definition job_insert_with_output_reservation ::
  "(str \<Rightarrow> str) \<Rightarrow> job \<Rightarrow> output_reservation \<Rightarrow> unit db_tx" where
  "job_insert_with_output_reservation ufold j r =
     tx_then (tx_lift (validated (job_issues j)))
    (tx_then (tx_lift (validate_output_reservation ufold j r))
    (tx_then (insert_job j) (insert_output_reservation ufold r)))"

definition job_update_with_output_reservation ::
  "(str \<Rightarrow> str) \<Rightarrow> job \<Rightarrow> u64 \<Rightarrow> output_reservation \<Rightarrow> job db_tx" where
  "job_update_with_output_reservation ufold j expected r =
     tx_then (tx_lift (validated (job_issues j)))
    (tx_then (tx_lift (validate_output_reservation ufold j r))
    (tx_then (insert_output_reservation ufold r)
      (let next_revision = u64_saturating_add expected 1
       in update_or_stale (j\<lparr>j_revision := next_revision\<rparr>) expected next_revision)))"

definition retry_reservation_matches :: "job \<Rightarrow> budget_reservation option \<Rightarrow> bool" where
  "retry_reservation_matches j b = (case b of
      Some r \<Rightarrow> br_job_id r = j_id j \<and> j_reservation_id j = Some (br_id r)
    | None \<Rightarrow> j_reservation_id j = None)"

text \<open>The checks on the job's stored predecessor cycle. Its reservation may have been deleted;
  then there is no status to wait for.\<close>

definition check_predecessor ::
  "job_id \<Rightarrow> u64 \<Rightarrow> budget_reservation option \<Rightarrow> unit db_tx" where
  "check_predecessor i expected b =
     tx_bind (tx_gets (\<lambda>s. find_job_row s i)) (\<lambda>found.
     tx_bind (tx_some found (NotFound ''job'' (IdOf i))) (\<lambda>row.
       tx_then (tx_ensure (jr_revision row = i64_from_u64_or_max expected)
           (StaleRevision ''job'' (IdOf i)))
      (tx_then (tx_ensure (jr_state row = Failed) (Conflict ''retry job state'' (IdOf i)))
        (case jr_reservation_id row of
           None \<Rightarrow> tx_return ()
         | Some p \<Rightarrow>
             tx_then (tx_ensure (map_option br_id b \<noteq> Some p)
                 (InvalidData ''manual retry requires a fresh budget reservation id'' []))
            (tx_bind (tx_gets (\<lambda>s. map_option rv_status
                (find (\<lambda>r. rv_id r = p) (db_reservations s)))) (\<lambda>status.
               tx_ensure (case status of Some st \<Rightarrow> \<not> is_open st | None \<Rightarrow> True)
                 (Conflict ''retry budget predecessor'' (IdOf p))))))))"

definition job_update_with_retry_admission ::
  "(str \<Rightarrow> str) \<Rightarrow> calendar \<Rightarrow> job \<Rightarrow> u64 \<Rightarrow> budget_reservation option \<Rightarrow>
     output_reservation option \<Rightarrow> job db_tx" where
  "job_update_with_retry_admission ufold cal j expected b out =
     tx_then (tx_lift (validated (job_issues j)))
    (tx_then (tx_ensure (j_state j = Queued)
        (InvalidData ''retry admission requires a queued job'' []))
    (tx_then (tx_ensure (retry_reservation_matches j b)
        (InvalidData ''retry budget reservation does not match its queued job'' []))
    (tx_then (case out of Some r \<Rightarrow> tx_lift (validate_output_reservation ufold j r)
              | None \<Rightarrow> tx_return ())
    (tx_then (check_predecessor (j_id j) expected b)
    (tx_then (case b of
          Some r \<Rightarrow> insert_budget_reservation_tx cal r (\<not> j_allow_budget_override j)
        | None \<Rightarrow> tx_return ())
    (tx_then (case out of Some r \<Rightarrow> insert_output_reservation ufold r | None \<Rightarrow> tx_return ())
      (let next_revision = u64_saturating_add expected 1
       in update_or_stale (j\<lparr>j_revision := next_revision\<rparr>) expected next_revision)))))))"

definition is_reserved_claim :: "job_id \<Rightarrow> output_row \<Rightarrow> bool" where
  "is_reserved_claim i r \<longleftrightarrow> ou_job_id r = i \<and> ou_state r = Reserved"

definition job_update_terminal_with_output_release :: "job \<Rightarrow> u64 \<Rightarrow> job db_tx" where
  "job_update_terminal_with_output_release j expected =
     tx_then (tx_lift (validated (job_issues j)))
    (tx_then (tx_ensure (j_state j = Failed \<or> j_state j = Cancelled)
        (InvalidData ''output claim release requires a failed or cancelled job'' []))
      (let next_revision = u64_saturating_add expected 1
       in tx_bind (update_or_stale (j\<lparr>j_revision := next_revision\<rparr>) expected next_revision)
         (\<lambda>stored. tx_then (tx_modify (\<lambda>s. s\<lparr>db_outputs :=
              sql_delete (is_reserved_claim (j_id stored)) (db_outputs s)\<rparr>))
            (tx_return stored))))"

definition find_output :: "(str \<Rightarrow> str) \<Rightarrow> db \<Rightarrow> job_id \<Rightarrow> output_reservation option" where
  "find_output ufold s i = map_option (decode_output_reservation ufold)
     (find (\<lambda>r. ou_job_id r = i) (db_outputs s))"

definition job_get_output_reservation ::
  "(str \<Rightarrow> str) \<Rightarrow> job_id \<Rightarrow> output_reservation option db_tx" where
  "job_get_output_reservation ufold i = tx_gets (\<lambda>s. find_output ufold s i)"

text \<open>The scan for the claim that contains a path: the longest protected key wins, the last one
  among equals; the accumulator is the claim found and its key's length.\<close>

definition containing_step ::
  "str \<Rightarrow> output_reservation \<Rightarrow> str \<Rightarrow> output_reservation option \<times> nat \<Rightarrow>
     output_reservation option \<times> nat" where
  "containing_step candidate r protected acc =
     (if (candidate = protected \<or> is_below candidate protected) \<and> length protected \<ge> snd acc
      then (Some r, length protected) else acc)"

definition job_find_output_reservation_containing_path ::
  "(str \<Rightarrow> str) \<Rightarrow> str \<Rightarrow> output_reservation option db_tx" where
  "job_find_output_reservation_containing_path ufold key = tx_gets (\<lambda>s.
     let candidate = normalize_output_destination_key ufold key
     in fst (fold (\<lambda>row. let r = decode_output_reservation ufold row in
           fold (containing_step candidate r)
             (protected_output_keys ufold (ou_destination_key r) (ou_layout r)))
         (db_outputs s) (None, 0)))"

definition job_acquire_output_reservation_for_existing_job ::
  "(str \<Rightarrow> str) \<Rightarrow> job \<Rightarrow> output_reservation \<Rightarrow> unit db_tx" where
  "job_acquire_output_reservation_for_existing_job ufold j r =
     tx_then (tx_lift (validated (job_issues j)))
    (tx_then (tx_lift (validate_output_reservation ufold j r))
    (tx_bind (tx_gets (\<lambda>s. find_job_row s (j_id j))) (\<lambda>found.
     tx_bind (tx_some found (NotFound ''job'' (IdOf (j_id j)))) (\<lambda>row.
       tx_then (tx_ensure (jr_project_id row = j_project_id j
            \<and> jr_revision row = i64_from_u64_or_max (j_revision j))
           (StaleRevision ''job'' (IdOf (j_id j))))
         (insert_output_reservation ufold r)))))"

definition job_mark_output_promoting :: "job_id \<Rightarrow> time \<Rightarrow> unit db_tx" where
  "job_mark_output_promoting i now =
     tx_bind (tx_gets (\<lambda>s. rows_affected (is_reserved_claim i) (db_outputs s))) (\<lambda>n.
       tx_then (tx_modify (\<lambda>s. s\<lparr>db_outputs := sql_update (is_reserved_claim i)
           (\<lambda>r. r\<lparr>ou_state := Promoting, ou_updated_at := now\<rparr>) (db_outputs s)\<rparr>))
      (tx_bind (tx_gets (\<lambda>s. map_option ou_state (find (\<lambda>r. ou_job_id r = i) (db_outputs s))))
         (\<lambda>existing.
          tx_ensure (n \<noteq> 0 \<or> existing = Some Promoting \<or> existing = Some Promoted)
            (NotFound ''output destination reservation'' (IdOf i)))))"

definition job_mark_output_promoted :: "job_id \<Rightarrow> time \<Rightarrow> unit db_tx" where
  "job_mark_output_promoted i now =
     tx_bind (tx_gets (\<lambda>s. rows_affected (\<lambda>r. ou_job_id r = i) (db_outputs s))) (\<lambda>n.
       tx_then (tx_modify (\<lambda>s. s\<lparr>db_outputs := sql_update (\<lambda>r. ou_job_id r = i)
           (\<lambda>r. r\<lparr>ou_state := Promoted, ou_updated_at := now,
                  ou_promoted_at := (case ou_promoted_at r of Some t \<Rightarrow> Some t | None \<Rightarrow> Some now)\<rparr>)
           (db_outputs s)\<rparr>))
         (tx_ensure (n \<noteq> 0) (NotFound ''output destination reservation'' (IdOf i))))"

definition delete_outputs :: "(db \<Rightarrow> output_row \<Rightarrow> bool) \<Rightarrow> nat db_tx" where
  "delete_outputs P =
     tx_bind (tx_gets (\<lambda>s. rows_affected (P s) (db_outputs s))) (\<lambda>n.
       tx_then (tx_modify (\<lambda>s. s\<lparr>db_outputs := sql_delete (P s) (db_outputs s)\<rparr>)) (tx_return n))"

definition job_release_unpromoted_output_reservation :: "job_id \<Rightarrow> bool db_tx" where
  "job_release_unpromoted_output_reservation i =
     tx_bind (delete_outputs (\<lambda>_. is_reserved_claim i)) (\<lambda>n. tx_return (n \<noteq> 0))"

definition job_in_state :: "db \<Rightarrow> job_id \<Rightarrow> job_state list \<Rightarrow> bool" where
  "job_in_state s i states = list_ex (\<lambda>j. jr_id j = i \<and> List.member states (jr_state j)) (db_jobs s)"

definition job_release_completed_output_reservation :: "job_id \<Rightarrow> bool db_tx" where
  "job_release_completed_output_reservation i =
     tx_bind (delete_outputs (\<lambda>s r. ou_job_id r = i \<and> ou_state r = Promoted
         \<and> job_in_state s i [Completed])) (\<lambda>n. tx_return (n \<noteq> 0))"

definition job_release_terminal_output_reservations :: "nat db_tx" where
  "job_release_terminal_output_reservations = delete_outputs (\<lambda>s r.
     (ou_state r = Reserved \<and> job_in_state s (ou_job_id r) [Failed, Cancelled])
   \<or> (ou_state r = Promoted \<and> job_in_state s (ou_job_id r) [Completed]))"

section \<open>Units and attempts\<close>

definition unit_row_of :: "job_unit \<Rightarrow> unit_row" where
  "unit_row_of u = \<lparr>un_id = ju_id u, un_job_id = ju_job_id u, un_chapter_id = ju_chapter_id u,
     un_proof_segment_id = ju_segment_id u, un_provider_id = ju_provider_profile_id u,
     un_state = ju_state u, un_payload = u\<rparr>"

definition unit_keys_known :: "db \<Rightarrow> job_unit \<Rightarrow> bool" where
  "unit_keys_known s u \<longleftrightarrow> list_ex (\<lambda>j. jr_id j = ju_job_id u) (db_jobs s)
     \<and> optional_member (db_chapters s) (ju_chapter_id u)
     \<and> optional_member (db_providers s) (ju_provider_profile_id u)"

text \<open>On a conflict of the id only the state, the proof segment and the payload are replaced.\<close>

definition upsert_unit_row :: "job_unit \<Rightarrow> unit db_tx" where
  "upsert_unit_row u =
     tx_bind (tx_gets (\<lambda>s. (list_ex (\<lambda>r. un_id r = ju_id u) (db_units s),
          unit_keys_known s u, optional_member (db_segments s) (ju_segment_id u)))) (\<lambda>(exists, keys, segment).
       tx_then (enforce ((exists \<or> keys) \<and> segment) ForeignKeyViolation)
         (tx_modify (\<lambda>s. s\<lparr>db_units := (if exists
            then sql_update (\<lambda>r. un_id r = ju_id u)
                   (\<lambda>r. r\<lparr>un_state := ju_state u, un_proof_segment_id := ju_segment_id u,
                          un_payload := u\<rparr>) (db_units s)
            else db_units s @ [unit_row_of u])\<rparr>)))"

definition insert_dependency :: "job_unit_id \<Rightarrow> job_unit_id \<Rightarrow> unit db_tx" where
  "insert_dependency i d =
     tx_then (enforce (i \<noteq> d) CheckViolation)
    (tx_bind (tx_gets (\<lambda>s. list_ex (\<lambda>r. de_job_unit_id r = i \<and> de_depends_on_id r = d)
         (db_dependencies s))) (\<lambda>clash.
       tx_then (enforce (\<not> clash) UniqueViolation)
      (tx_bind (tx_gets (\<lambda>s. list_ex (\<lambda>r. un_id r = d) (db_units s))) (\<lambda>found.
         tx_then (enforce found ForeignKeyViolation)
           (tx_modify (\<lambda>s. s\<lparr>db_dependencies := db_dependencies s
              @ [\<lparr>de_job_unit_id = i, de_depends_on_id = d\<rparr>]\<rparr>))))))"

definition job_upsert_unit :: "job_unit \<Rightarrow> unit db_tx" where
  "job_upsert_unit u =
     tx_then (upsert_unit_row u)
    (tx_then (tx_modify (\<lambda>s. s\<lparr>db_dependencies :=
        sql_delete (\<lambda>r. de_job_unit_id r = ju_id u) (db_dependencies s)\<rparr>))
      (tx_foreach (ju_dependencies u) (insert_dependency (ju_id u))))"

definition job_get_unit :: "job_unit_id \<Rightarrow> job_unit option db_tx" where
  "job_get_unit i = tx_gets (\<lambda>s. map_option un_payload (find (\<lambda>r. un_id r = i) (db_units s)))"

definition job_list_units :: "job_id \<Rightarrow> job_unit list db_tx" where
  "job_list_units i = tx_gets (\<lambda>s. map un_payload (filter (\<lambda>r. un_job_id r = i) (db_units s)))"

definition job_insert_attempt :: "job_attempt \<Rightarrow> unit db_tx" where
  "job_insert_attempt a =
     tx_bind (tx_gets (\<lambda>s. list_ex (\<lambda>r. at_id r = ja_id a \<or> (at_job_unit_id r = ja_job_unit_id a
          \<and> at_ordinal r = int (ja_ordinal a))) (db_attempts s))) (\<lambda>clash.
       tx_then (enforce (\<not> clash) UniqueViolation)
      (tx_bind (tx_gets (\<lambda>s. list_ex (\<lambda>r. un_id r = ja_job_unit_id a) (db_units s))) (\<lambda>found.
         tx_then (enforce found ForeignKeyViolation)
           (tx_modify (\<lambda>s. s\<lparr>db_attempts := db_attempts s @
              [\<lparr>at_id = ja_id a, at_job_unit_id = ja_job_unit_id a,
                at_ordinal = int (ja_ordinal a), at_payload = a\<rparr>]\<rparr>)))))"

end
