(* ===== verification/Versioned_Store.thy ===== *)
theory Versioned_Store
  imports Transactions
begin

text \<open>
  The contract of optimistic concurrency that the repositories share: a record carries a revision,
  a write names the revision its author has read, and the write goes through only on that revision,
  which it increments. \<open>cas\_store\<close> states the laws; its lemmas are what the callers rely on: of two
  writers that read the same revision one succeeds, and a reader that was overtaken never writes.
\<close>

locale cas_store =
  fixes inv :: "'s \<Rightarrow> bool"
    and revision :: "'s \<Rightarrow> 'k \<Rightarrow> nat option"
    and swap :: "'v \<Rightarrow> nat \<Rightarrow> ('s, 'e, 'v) tx"
    and key :: "'v \<Rightarrow> 'k"
    and bound :: nat
  assumes swap_inv: "inv s \<Longrightarrow> swap v n s = Inr (v', s') \<Longrightarrow> inv s'"
    and swap_read: "inv s \<Longrightarrow> n < bound \<Longrightarrow> swap v n s = Inr (v', s') \<Longrightarrow> revision s (key v) = Some n"
    and swap_next: "inv s \<Longrightarrow> n < bound \<Longrightarrow> swap v n s = Inr (v', s') \<Longrightarrow>
      revision s' (key v) = Some (Suc n)"
    and swap_frame: "inv s \<Longrightarrow> swap v n s = Inr (v', s') \<Longrightarrow> k \<noteq> key v \<Longrightarrow> revision s' k = revision s k"
begin

inductive swapped :: "'s \<Rightarrow> 's \<Rightarrow> bool" for s0 where
  start: "swapped s0 s0"
| wrote: "swapped s0 s \<Longrightarrow> n < bound \<Longrightarrow> swap v n s = Inr (v', s') \<Longrightarrow> swapped s0 s'"

lemma swapped_inv: "swapped s0 s \<Longrightarrow> inv s0 \<Longrightarrow> inv s"
  by (induction rule: swapped.induct) (auto intro: swap_inv)

lemma revision_grows:
  assumes "swapped s0 s" and "inv s0" and "revision s0 k = Some n"
  shows "\<exists>m \<ge> n. revision s k = Some m"
  using assms
proof (induction rule: swapped.induct)
  case (wrote s m v v' s')
  then obtain q where q: "n \<le> q" "revision s k = Some q" by auto
  have inv: "inv s" by (rule swapped_inv [OF wrote.hyps(1) wrote.prems(1)])
  show ?case
  proof (cases "k = key v")
    case True
    with swap_read [OF inv wrote.hyps(2,3)] swap_next [OF inv wrote.hyps(2,3)] q show ?thesis by auto
  next
    case False
    with swap_frame [OF inv wrote.hyps(3)] q show ?thesis by auto
  qed
qed auto

lemma overtaken:
  assumes "inv s0" and "n < bound" and "swap v n s0 = Inr (v', s1)" and "swapped s1 s"
    and "key w = key v"
  shows "swap w n s \<noteq> Inr r"
proof
  assume "swap w n s = Inr r"
  then obtain w' t where w: "swap w n s = Inr (w', t)" by (cases r) auto
  have inv1: "inv s1" by (rule swap_inv [OF assms(1,3)])
  from revision_grows [OF assms(4) inv1 swap_next [OF assms(1-3)]]
  obtain m where "Suc n \<le> m" "revision s (key v) = Some m" by auto
  moreover have "revision s (key w) = Some n"
    by (rule swap_read [OF swapped_inv [OF assms(4) inv1] assms(2) w])
  ultimately show False using assms(5) by simp
qed

lemma one_winner:
  "inv s \<Longrightarrow> n < bound \<Longrightarrow> swap v n s = Inr (v', s') \<Longrightarrow> key w = key v \<Longrightarrow> swap w n s' \<noteq> Inr r"
  by (rule overtaken [OF _ _ _ swapped.start])

end

end
