(* ===== verification/Job_Correctness.thy ===== *)
theory Job_Correctness
  imports Job_Repository Versioned_Store Budget_Correctness
begin

text \<open>
  Correctness of the job repository: the optimistic update of a job row is a \<open>cas\_store\<close>, stored
  output claims never overlap, a claim is given up only as its lifecycle allows, and the effect of
  a retry admission.
\<close>

section \<open>Job rows\<close>

definition job_row_ok :: "job_row \<Rightarrow> bool" where
  "job_row_ok r \<longleftrightarrow> 0 \<le> jr_revision r \<and> j_id (jr_payload r) = jr_id r
     \<and> j_state (jr_payload r) = jr_state r \<and> job_issues (jr_payload r) = []"

definition jobs_wf :: "db \<Rightarrow> bool" where
  "jobs_wf s \<longleftrightarrow> distinct (map jr_id (db_jobs s)) \<and> list_all job_row_ok (db_jobs s)"

definition job_revision :: "db \<Rightarrow> job_id \<Rightarrow> nat option" where
  "job_revision s i = map_option (\<lambda>r. nat (jr_revision r)) (find_job_row s i)"

definition revision_bound :: nat where
  "revision_bound = 9223372036854775807"

lemma i64_from_u64_or_max_nonneg [simp]: "0 \<le> i64_from_u64_or_max n"
  by (simp add: u64_defs i64_max_def)

lemma i64_from_u64_or_max_small: "n < revision_bound \<Longrightarrow> i64_from_u64_or_max n = int n"
  by (simp add: u64_defs i64_max_def revision_bound_def)

lemma i64_from_u64_or_max_Suc: "n < revision_bound \<Longrightarrow> i64_from_u64_or_max (u64_saturating_add n 1) = int (Suc n)"
  by (simp add: u64_defs i64_max_def revision_bound_def)

definition written_row :: "job \<Rightarrow> i64 \<Rightarrow> job_row \<Rightarrow> job_row" where
  "written_row j n r = r\<lparr>jr_export_profile_id := j_export_profile_id j,
     jr_reservation_id := j_reservation_id j, jr_state := j_state j, jr_revision := n,
     jr_payload := j\<rparr>"

lemma update_job_Inr:
  "update_job j expected next_revision s = Inr (n, s') \<longleftrightarrow>
     n = rows_affected (matches_revision (j_id j) expected) (db_jobs s)
   \<and> (n > 0 \<longrightarrow> export_profile_known s (j_export_profile_id j))
   \<and> s' = s\<lparr>db_jobs := sql_update (matches_revision (j_id j) expected)
          (written_row j (i64_from_u64_or_max next_revision)) (db_jobs s)\<rparr>"
  by (auto simp: update_job_def written_row_def [abs_def])

lemma jobs_wf_update:
  assumes "jobs_wf s" and "job_issues j = []"
  shows "jobs_wf (s\<lparr>db_jobs := sql_update (matches_revision (j_id j) e)
    (written_row j (i64_from_u64_or_max n)) (db_jobs s)\<rparr>)"
proof -
  have "map jr_id (sql_update (matches_revision (j_id j) e) (written_row j (i64_from_u64_or_max n))
      (db_jobs s)) = map jr_id (db_jobs s)"
    by (rule map_sql_update) (simp add: written_row_def)
  moreover have "list_all job_row_ok (sql_update (matches_revision (j_id j) e)
      (written_row j (i64_from_u64_or_max n)) (db_jobs s))"
    using assms by (auto simp: jobs_wf_def list_all_iff set_sql_update job_row_ok_def written_row_def
        matches_revision_def)
  ultimately show ?thesis using assms(1) by (simp add: jobs_wf_def)
qed

lemma job_issues_revision [simp]: "job_issues (j\<lparr>j_revision := n\<rparr>) = job_issues j"
  by (simp add: job_issues_def)

lemma job_update_Inr:
  "job_update j expected s = Inr (j', s') \<longleftrightarrow> job_issues j = []
   \<and> j' = j\<lparr>j_revision := u64_saturating_add expected 1\<rparr>
   \<and> (\<exists>r \<in> set (db_jobs s). matches_revision (j_id j) expected r)
   \<and> export_profile_known s (j_export_profile_id j)
   \<and> s' = s\<lparr>db_jobs := sql_update (matches_revision (j_id j) expected)
          (written_row j' (i64_from_u64_or_max (u64_saturating_add expected 1))) (db_jobs s)\<rparr>"
  using rows_affected_eq_0_iff [of "matches_revision (j_id j) expected" "db_jobs s"]
  by (auto simp: job_update_def Let_def update_job_Inr)

lemma update_or_stale_Inr:
  "update_or_stale j expected n s = Inr (j', s') \<longleftrightarrow> j' = j
   \<and> (\<exists>r \<in> set (db_jobs s). matches_revision (j_id j) expected r)
   \<and> export_profile_known s (j_export_profile_id j)
   \<and> s' = s\<lparr>db_jobs := sql_update (matches_revision (j_id j) expected)
          (written_row j (i64_from_u64_or_max n)) (db_jobs s)\<rparr>"
  using rows_affected_eq_0_iff [of "matches_revision (j_id j) expected" "db_jobs s"]
  by (auto simp: update_or_stale_def update_job_Inr)

lemma find_job_row_matches:
  assumes "jobs_wf s" and "r \<in> set (db_jobs s)" and "matches_revision i e r"
  shows "find_job_row s i = Some r"
  using assms find_id_unique [of jr_id "db_jobs s" r]
  by (simp add: jobs_wf_def matches_revision_def find_job_row_def)

lemma find_job_row_update:
  "find_job_row (s\<lparr>db_jobs := sql_update (matches_revision i e) (written_row j n) (db_jobs s)\<rparr>) k
    = map_option (\<lambda>r. if matches_revision i e r then written_row j n r else r) (find_job_row s k)"
  unfolding find_job_row_def
  by (simp add: find_sql_update [where Q = "\<lambda>r. jr_id r = k"] written_row_def)

lemma find_job_row_id: "find_job_row s k = Some r \<Longrightarrow> jr_id r = k \<and> r \<in> set (db_jobs s)"
  by (auto simp: find_job_row_def dest: find_Some_D)

lemma job_update_rows:
  assumes "job_update v n s = Inr (v', s')"
  shows "find_job_row s' k = map_option (\<lambda>r. if matches_revision (j_id v) n r
    then written_row v' (i64_from_u64_or_max (u64_saturating_add n 1)) r else r) (find_job_row s k)"
proof -
  from assms have "s' = s\<lparr>db_jobs := sql_update (matches_revision (j_id v) n)
      (written_row v' (i64_from_u64_or_max (u64_saturating_add n 1))) (db_jobs s)\<rparr>"
    unfolding job_update_Inr by blast
  then show ?thesis using find_job_row_update by (simp only:)
qed

interpretation job_store: cas_store jobs_wf job_revision job_update j_id revision_bound
proof unfold_locales
  fix s v n v' s'
  assume wf: "jobs_wf s" and up: "job_update v n s = Inr (v', s')"
  then show "jobs_wf s'"
    using jobs_wf_update [of s "v\<lparr>j_revision := u64_saturating_add n 1\<rparr>" n]
    by (auto simp: job_update_Inr)
  show "job_revision s' k = job_revision s k" if "k \<noteq> j_id v" for k
    using job_update_rows [OF up, of k] that
    by (cases "find_job_row s k")
       (auto simp: job_revision_def matches_revision_def dest: find_job_row_id)
  assume n: "n < revision_bound"
  from up obtain r where r: "r \<in> set (db_jobs s)" "matches_revision (j_id v) n r"
    by (auto simp: job_update_Inr)
  note f = find_job_row_matches [OF wf r]
  from f r n show "job_revision s (j_id v) = Some n"
    by (simp add: job_revision_def matches_revision_def i64_from_u64_or_max_small)
  from f r job_update_rows [OF up, of "j_id v"] i64_from_u64_or_max_Suc [OF n]
  show "job_revision s' (j_id v) = Some (Suc n)"
    by (simp add: job_revision_def written_row_def)
qed

section \<open>Output claims\<close>

definition outputs_wf :: "output_row list \<Rightarrow> bool" where
  "outputs_wf rows \<longleftrightarrow> distinct (map ou_job_id rows)
     \<and> sorted_wrt (\<lambda>a b. \<not> sql_rows_conflict a b) rows"

lemma is_below_iff: "is_below child parent \<longleftrightarrow> strip_prefix (parent @ ''/'') child \<noteq> None"
proof -
  have "strip_prefix (parent @ ''/'') child = Some t \<longleftrightarrow> strip_prefix parent child = Some (CHR ''/'' # t)" for t
    by (simp add: strip_prefix_Some_iff)
  then have "strip_prefix (parent @ ''/'') child \<noteq> None
      \<longleftrightarrow> (\<exists>t. strip_prefix parent child = Some (CHR ''/'' # t))" by auto
  then show ?thesis
    by (auto simp: is_below_def starts_with_slash_def split: option.splits list.splits)
qed

lemma sql_key_conflict_iff:
  "sql_key_conflict a b \<longleftrightarrow> a = b \<or> is_below a b \<or> is_below b a"
  by (auto simp: sql_key_conflict_def is_below_iff)

lemma sql_rows_conflict_sym: "sql_rows_conflict a b \<longleftrightarrow> sql_rows_conflict b a"
  by (auto simp: sql_rows_conflict_def sql_key_conflict_iff list_ex_iff)

lemma sql_rows_conflict_cong:
  assumes "ou_destination_key a' = ou_destination_key a" and "ou_layout a' = ou_layout a"
    and "ou_destination_key b' = ou_destination_key b" and "ou_layout b' = ou_layout b"
  shows "sql_rows_conflict a' b' = sql_rows_conflict a b"
  using assms by (simp add: sql_rows_conflict_def)

lemma sorted_wrt_sql_update:
  assumes "\<And>r. ou_destination_key (f r) = ou_destination_key r" and "\<And>r. ou_layout (f r) = ou_layout r"
  shows "sorted_wrt (\<lambda>a b. \<not> sql_rows_conflict a b) (sql_update P f rows)
    = sorted_wrt (\<lambda>a b. \<not> sql_rows_conflict a b) rows"
proof -
  have "sql_rows_conflict (if P a then f a else a) (if P b then f b else b) = sql_rows_conflict a b" for a b
    by (rule sql_rows_conflict_cong) (simp_all add: assms)
  then show ?thesis by (simp add: sql_update_def sorted_wrt_map)
qed

lemma outputs_wf_update:
  assumes "outputs_wf rows" and "\<And>r. ou_destination_key (f r) = ou_destination_key r"
    and "\<And>r. ou_layout (f r) = ou_layout r" and "\<And>r. ou_job_id (f r) = ou_job_id r"
  shows "outputs_wf (sql_update P f rows)"
  using assms(1) sorted_wrt_sql_update [OF assms(2,3)] map_sql_update [of P ou_job_id f rows] assms(4)
  by (simp add: outputs_wf_def)

lemma outputs_wf_delete: "outputs_wf rows \<Longrightarrow> outputs_wf (sql_delete P rows)"
  by (simp add: outputs_wf_def distinct_map_sql_delete) (simp add: sql_delete_def sorted_wrt_filter)

lemma insert_output_reservation_Inr:
  assumes "insert_output_reservation ufold r s = Inr (u, s')"
  defines "row \<equiv> r\<lparr>ou_destination_key := normalize_output_destination_key ufold (ou_destination_key r)\<rparr>"
  shows "s' = s\<lparr>db_outputs := db_outputs s @ [row]\<rparr>"
    and "\<forall>e \<in> set (db_outputs s). \<not> sql_rows_conflict e row \<and> ou_job_id e \<noteq> ou_job_id r"
    and "\<forall>e \<in> set (db_outputs s). \<not> reservation_keys_overlap ufold (ou_destination_key row) (ou_layout r)
      (normalize_output_destination_key ufold (ou_destination_key e)) (ou_layout e)"
    and "\<exists>j \<in> set (db_jobs s). jr_id j = ou_job_id r"
  using assms(1) unfolding insert_output_reservation_def Let_def row_def
  by (auto simp: list_ex_iff decode_output_reservation_def)

lemma insert_output_reservation_wf:
  assumes "insert_output_reservation ufold r s = Inr (u, s')" and "outputs_wf (db_outputs s)"
  shows "outputs_wf (db_outputs s')"
  using assms(2) insert_output_reservation_Inr(1,2) [OF assms(1)]
  by (auto simp: outputs_wf_def sorted_wrt_append)

section \<open>The repository as a state machine\<close>

inductive job_store_step :: "(str \<Rightarrow> str) \<Rightarrow> calendar \<Rightarrow> db \<Rightarrow> db \<Rightarrow> bool" for ufold cal where
  insert: "job_insert j s = Inr ((), s') \<Longrightarrow> job_store_step ufold cal s s'"
| insert_with_output: "job_insert_with_output_reservation ufold j r s = Inr ((), s') \<Longrightarrow>
    job_store_step ufold cal s s'"
| update: "job_update j n s = Inr (j', s') \<Longrightarrow> job_store_step ufold cal s s'"
| transition: "job_transition_method i n target now s = Inr (j', s') \<Longrightarrow> job_store_step ufold cal s s'"
| update_with_output: "job_update_with_output_reservation ufold j n r s = Inr (j', s') \<Longrightarrow>
    job_store_step ufold cal s s'"
| retry: "job_update_with_retry_admission ufold cal j n b out s = Inr (j', s') \<Longrightarrow>
    job_store_step ufold cal s s'"
| terminal: "job_update_terminal_with_output_release j n s = Inr (j', s') \<Longrightarrow>
    job_store_step ufold cal s s'"
| acquire: "job_acquire_output_reservation_for_existing_job ufold j r s = Inr ((), s') \<Longrightarrow>
    job_store_step ufold cal s s'"
| promoting: "job_mark_output_promoting i now s = Inr ((), s') \<Longrightarrow> job_store_step ufold cal s s'"
| promoted: "job_mark_output_promoted i now s = Inr ((), s') \<Longrightarrow> job_store_step ufold cal s s'"
| release_unpromoted: "job_release_unpromoted_output_reservation i s = Inr (x, s') \<Longrightarrow>
    job_store_step ufold cal s s'"
| release_completed: "job_release_completed_output_reservation i s = Inr (x, s') \<Longrightarrow>
    job_store_step ufold cal s s'"
| release_terminal: "job_release_terminal_output_reservations s = Inr (k, s') \<Longrightarrow>
    job_store_step ufold cal s s'"
| elsewhere: "db_jobs s' = db_jobs s \<Longrightarrow> db_outputs s' = db_outputs s \<Longrightarrow> job_store_step ufold cal s s'"

inductive job_store_reachable :: "(str \<Rightarrow> str) \<Rightarrow> calendar \<Rightarrow> db \<Rightarrow> db \<Rightarrow> bool" for ufold cal s0 where
  start: "job_store_reachable ufold cal s0 s0"
| step: "job_store_reachable ufold cal s0 s \<Longrightarrow> job_store_step ufold cal s s' \<Longrightarrow>
    job_store_reachable ufold cal s0 s'"

lemma insert_job_Inr:
  "insert_job j s = Inr (u, s') \<longleftrightarrow> (\<forall>r \<in> set (db_jobs s). jr_id r \<noteq> j_id j)
     \<and> j_project_id j \<in> set (db_projects s) \<and> export_profile_known s (j_export_profile_id j)
     \<and> s' = s\<lparr>db_jobs := db_jobs s @ [job_row_of j]\<rparr>"
  by (auto simp: insert_job_def list_ex_iff)

lemma insert_job_wf: "insert_job j s = Inr (u, s') \<Longrightarrow> jobs_wf s \<Longrightarrow> job_issues j = [] \<Longrightarrow> jobs_wf s'"
  by (auto simp: insert_job_Inr jobs_wf_def job_row_of_def job_row_ok_def)

lemma update_or_stale_wf:
  "update_or_stale (j\<lparr>j_revision := m\<rparr>) n k s = Inr (j', s') \<Longrightarrow> jobs_wf s \<Longrightarrow> job_issues j = [] \<Longrightarrow>
   jobs_wf s' \<and> db_outputs s' = db_outputs s"
  using jobs_wf_update [of s "j\<lparr>j_revision := m\<rparr>" n k] by (auto simp: update_or_stale_Inr)

lemma insert_budget_reservation_tx_jobs:
  assumes "insert_budget_reservation_tx cal r cap s = Inr (u, s')"
  shows "db_jobs s' = db_jobs s \<and> db_outputs s' = db_outputs s"
proof -
  have "tx_keeps (\<lambda>t. db_jobs t = db_jobs s \<and> db_outputs t = db_outputs s)
    (insert_budget_reservation_tx cal r cap)"
    unfolding insert_budget_reservation_tx_def expire_stale_reservations_def
      check_allocation_tx_def insert_reservation_row_tx_def insert_allocation_tx_def
      require_budget_tx_def load_budget_tx_def remaining_tx_def
    by (intro tx_pres allI impI)
       (auto intro!: tx_pres tx_keepsI elim!: ensure_current_period_tx_Inr
         simp: active_reserved_tx_Inr split: budget_period.splits if_splits)
  from tx_keepsD [OF this assms] show ?thesis by simp
qed

definition store_wf :: "db \<Rightarrow> bool" where
  "store_wf s \<longleftrightarrow> jobs_wf s \<and> outputs_wf (db_outputs s)"

lemma store_wf_outputs [simp]:
  "jobs_wf (s\<lparr>db_outputs := R\<rparr>) = jobs_wf s" "jobs_wf (s\<lparr>db_budgets := B\<rparr>) = jobs_wf s"
  by (simp_all add: jobs_wf_def)

lemma insert_output_reservation_store:
  "insert_output_reservation ufold r s = Inr (u, s') \<Longrightarrow> store_wf s \<Longrightarrow> store_wf s'"
  using insert_output_reservation_wf insert_output_reservation_Inr(1) by (fastforce simp: store_wf_def)

lemma update_or_stale_store:
  "update_or_stale (j\<lparr>j_revision := m\<rparr>) n k s = Inr (j', s') \<Longrightarrow> store_wf s \<Longrightarrow> job_issues j = [] \<Longrightarrow>
   store_wf s'"
  unfolding store_wf_def by (metis update_or_stale_wf)

lemma job_update_store: "job_update j n s = Inr (j', s') \<Longrightarrow> store_wf s \<Longrightarrow> store_wf s'"
  using job_store.swap_inv [of s j n j' s'] by (auto simp: store_wf_def job_update_Inr)

lemma budget_reservation_store:
  "insert_budget_reservation_tx cal r cap s = Inr (u, s') \<Longrightarrow> store_wf s \<Longrightarrow> store_wf s'"
  using insert_budget_reservation_tx_jobs [of cal r cap s u s'] by (simp add: store_wf_def jobs_wf_def)

lemma check_predecessor_Inr:
  assumes "check_predecessor i expected b s = Inr (u, s')"
  shows "s' = s" and "\<exists>row. find_job_row s i = Some row
     \<and> jr_revision row = i64_from_u64_or_max expected \<and> jr_state row = Failed
     \<and> (\<forall>p. jr_reservation_id row = Some p \<longrightarrow> map_option br_id b \<noteq> Some p
          \<and> (\<forall>r. find (\<lambda>r. rv_id r = p) (db_reservations s) = Some r \<longrightarrow> \<not> is_open (rv_status r)))"
proof -
  from assms obtain row where row: "find_job_row s i = Some row"
      "jr_revision row = i64_from_u64_or_max expected" "jr_state row = Failed"
    and rest: "(case jr_reservation_id row of
           None \<Rightarrow> tx_return ()
         | Some p \<Rightarrow>
             tx_then (tx_ensure (map_option br_id b \<noteq> Some p)
                 (InvalidData ''manual retry requires a fresh budget reservation id'' []))
            (tx_bind (tx_gets (\<lambda>s. map_option rv_status
                (find (\<lambda>r. rv_id r = p) (db_reservations s)))) (\<lambda>status.
               tx_ensure (case status of Some st \<Rightarrow> \<not> is_open st | None \<Rightarrow> True)
                 (Conflict ''retry budget predecessor'' (IdOf p))))) s = Inr (u, s')"
    by (auto simp: check_predecessor_def)
  have "s' = s \<and> (\<forall>p. jr_reservation_id row = Some p \<longrightarrow> map_option br_id b \<noteq> Some p
          \<and> (\<forall>r. find (\<lambda>r. rv_id r = p) (db_reservations s) = Some r \<longrightarrow> \<not> is_open (rv_status r)))"
    using rest by (cases "jr_reservation_id row") (auto split: option.splits)
  with row show "s' = s" and "\<exists>row. find_job_row s i = Some row
     \<and> jr_revision row = i64_from_u64_or_max expected \<and> jr_state row = Failed
     \<and> (\<forall>p. jr_reservation_id row = Some p \<longrightarrow> map_option br_id b \<noteq> Some p
          \<and> (\<forall>r. find (\<lambda>r. rv_id r = p) (db_reservations s) = Some r \<longrightarrow> \<not> is_open (rv_status r)))"
    by blast+
qed

text \<open>The stages of a retry admission.\<close>

lemma retry_admission_steps:
  assumes "job_update_with_retry_admission ufold cal j n b out s = Inr (j', s')"
  obtains s1 s2 where "job_issues j = []" and "j_state j = Queued" and "retry_reservation_matches j b"
    and "check_predecessor (j_id j) n b s = Inr ((), s)"
    and "(case b of None \<Rightarrow> s1 = s
          | Some r \<Rightarrow> insert_budget_reservation_tx cal r (\<not> j_allow_budget_override j) s = Inr ((), s1))"
    and "(case out of None \<Rightarrow> s2 = s1 | Some r \<Rightarrow> insert_output_reservation ufold r s1 = Inr ((), s2))"
    and "update_or_stale (j\<lparr>j_revision := u64_saturating_add n 1\<rparr>) n (u64_saturating_add n 1) s2
      = Inr (j', s')"
proof -
  from assms obtain s0 s00 s1 s2 where v: "job_issues j = []" "j_state j = Queued" "retry_reservation_matches j b"
    and o: "(case out of Some r \<Rightarrow> tx_lift (validate_output_reservation ufold j r)
              | None \<Rightarrow> tx_return ()) s = Inr ((), s0)"
    and p: "check_predecessor (j_id j) n b s0 = Inr ((), s00)"
    and b: "(case b of Some r \<Rightarrow> insert_budget_reservation_tx cal r (\<not> j_allow_budget_override j)
        | None \<Rightarrow> tx_return ()) s00 = Inr ((), s1)"
    and w: "(case out of Some r \<Rightarrow> insert_output_reservation ufold r | None \<Rightarrow> tx_return ()) s1 = Inr ((), s2)"
    and u: "update_or_stale (j\<lparr>j_revision := u64_saturating_add n 1\<rparr>) n (u64_saturating_add n 1) s2
      = Inr (j', s')"
    unfolding job_update_with_retry_admission_def Let_def by auto
  from o have "s0 = s" by (cases out) auto
  moreover from p have "s00 = s0" by (rule check_predecessor_Inr)
  ultimately show ?thesis
    using p b w by (intro that [OF v _ _ _ u]) (auto split: option.splits)
qed

lemma delete_outputs_store:
  "delete_outputs P s = Inr (n, s') \<Longrightarrow> store_wf s \<Longrightarrow> store_wf s'"
  by (auto simp: delete_outputs_def store_wf_def outputs_wf_delete)

lemma job_store_step_wf: "job_store_step ufold cal s s' \<Longrightarrow> store_wf s \<Longrightarrow> store_wf s'"
proof (induction rule: job_store_step.induct)
  case (insert j s s')
  then show ?case by (auto simp: job_insert_def store_wf_def insert_job_Inr intro: insert_job_wf)
next
  case (insert_with_output j r s s')
  then obtain s1 where "insert_job j s = Inr ((), s1)" "job_issues j = []"
    and i: "insert_output_reservation ufold r s1 = Inr ((), s')"
    by (auto simp: job_insert_with_output_reservation_def)
  with insert_with_output.prems have "store_wf s1"
    by (auto simp: store_wf_def insert_job_Inr intro: insert_job_wf)
  with i show ?case by (rule insert_output_reservation_store)
next
  case (transition i n target now s j' s')
  then show ?case
    by (auto simp: job_transition_method_def job_get_def split: option.splits intro: job_update_store)
next
  case (update_with_output j n r s j' s')
  then obtain s1 where i: "insert_output_reservation ufold r s = Inr ((), s1)" and v: "job_issues j = []"
    and u: "update_or_stale (j\<lparr>j_revision := u64_saturating_add n 1\<rparr>) n (u64_saturating_add n 1) s1
      = Inr (j', s')"
    by (auto simp: job_update_with_output_reservation_def Let_def)
  from update_or_stale_store [OF u insert_output_reservation_store [OF i update_with_output.prems] v]
  show ?case .
next
  case (retry j n b out s j' s')
  from retry.hyps show ?case
  proof (rule retry_admission_steps)
    fix s1 s2
    assume b: "case b of None \<Rightarrow> s1 = s
          | Some r \<Rightarrow> insert_budget_reservation_tx cal r (\<not> j_allow_budget_override j) s = Inr ((), s1)"
      and o: "case out of None \<Rightarrow> s2 = s1 | Some r \<Rightarrow> insert_output_reservation ufold r s1 = Inr ((), s2)"
      and u: "update_or_stale (j\<lparr>j_revision := u64_saturating_add n 1\<rparr>) n (u64_saturating_add n 1) s2
        = Inr (j', s')" and v: "job_issues j = []"
    from b retry.prems have "store_wf s1" by (cases b) (auto intro: budget_reservation_store)
    with o have "store_wf s2" by (cases out) (auto intro: insert_output_reservation_store)
    from update_or_stale_store [OF u this v] show ?thesis .
  qed
next
  case (terminal j n s j' s')
  then obtain s1 where v: "job_issues j = []"
    and u: "update_or_stale (j\<lparr>j_revision := u64_saturating_add n 1\<rparr>) n (u64_saturating_add n 1) s
      = Inr (j', s1)" and d: "\<exists>P. s' = s1\<lparr>db_outputs := sql_delete P (db_outputs s1)\<rparr>"
    by (auto simp: job_update_terminal_with_output_release_def Let_def)
  from update_or_stale_store [OF u terminal.prems v] d show ?case
    by (auto simp: store_wf_def outputs_wf_delete)
next
  case (acquire j r s s')
  then show ?case
    by (auto simp: job_acquire_output_reservation_for_existing_job_def
        intro: insert_output_reservation_store)
next
  case (promoting i now s s')
  then show ?case
    by (auto simp: job_mark_output_promoting_def store_wf_def intro!: outputs_wf_update)
next
  case (promoted i now s s')
  then show ?case
    by (auto simp: job_mark_output_promoted_def store_wf_def intro!: outputs_wf_update)
next
  case (elsewhere s' s)
  then show ?case by (simp add: store_wf_def jobs_wf_def)
qed (auto simp: job_release_unpromoted_output_reservation_def
    job_release_completed_output_reservation_def job_release_terminal_output_reservations_def
    intro: job_update_store delete_outputs_store)

lemma job_store_reachable_wf: "job_store_reachable ufold cal s0 s \<Longrightarrow> store_wf s0 \<Longrightarrow> store_wf s"
  by (induction rule: job_store_reachable.induct) (auto intro: job_store_step_wf)

lemma outputs_wf_disjoint:
  assumes "outputs_wf rows" and "a \<in> set rows" and "b \<in> set rows" and "ou_job_id a \<noteq> ou_job_id b"
  shows "\<not> sql_rows_conflict a b"
  using assms
proof (induction rows)
  case (Cons r rows)
  then show ?case using sql_rows_conflict_sym by (auto simp: outputs_wf_def)
qed simp

section \<open>The life of a claim\<close>

fun claim_rank :: "output_reservation_state \<Rightarrow> nat" where
  "claim_rank Reserved = 0"
| "claim_rank Promoting = 1"
| "claim_rank Promoted = 2"

definition claim_advances :: "output_row \<Rightarrow> output_row \<Rightarrow> bool" where
  "claim_advances r r' \<longleftrightarrow> ou_job_id r' = ou_job_id r \<and> ou_destination_key r' = ou_destination_key r
     \<and> ou_destination_path r' = ou_destination_path r \<and> ou_layout r' = ou_layout r
     \<and> claim_rank (ou_state r) \<le> claim_rank (ou_state r')"

definition may_release :: "db \<Rightarrow> output_row \<Rightarrow> bool" where
  "may_release s r \<longleftrightarrow> ou_state r = Reserved
     \<or> (ou_state r = Promoted \<and> job_in_state s (ou_job_id r) [Completed])"

definition claims_kept :: "db \<Rightarrow> db \<Rightarrow> bool" where
  "claims_kept s s' \<longleftrightarrow> (\<forall>r \<in> set (db_outputs s). may_release s r
     \<or> (\<exists>r' \<in> set (db_outputs s'). claim_advances r r'))"

lemma claim_advances_refl [simp]: "claim_advances r r"
  by (simp add: claim_advances_def)

lemma claims_kept_superset: "set (db_outputs s) \<subseteq> set (db_outputs s') \<Longrightarrow> claims_kept s s'"
  using claim_advances_refl by (fastforce simp: claims_kept_def)

lemma claims_kept_update:
  assumes "db_outputs s' = sql_update P f (db_outputs s)" and "\<And>r. P r \<Longrightarrow> claim_advances r (f r)"
  shows "claims_kept s s'"
  unfolding claims_kept_def assms(1)
proof (intro ballI disjI2)
  fix r assume "r \<in> set (db_outputs s)"
  then have "(if P r then f r else r) \<in> set (sql_update P f (db_outputs s))"
    by (auto simp: set_sql_update)
  moreover have "claim_advances r (if P r then f r else r)" using assms(2) by simp
  ultimately show "\<exists>r' \<in> set (sql_update P f (db_outputs s)). claim_advances r r'" by blast
qed

lemma claims_kept_delete:
  assumes "db_outputs s' = sql_delete P (db_outputs s)" and "\<And>r. P r \<Longrightarrow> may_release s r"
  shows "claims_kept s s'"
  using assms claim_advances_refl by (fastforce simp: claims_kept_def)

lemma insert_output_reservation_superset:
  "insert_output_reservation ufold r s = Inr (u, s') \<Longrightarrow> set (db_outputs s) \<subseteq> set (db_outputs s')"
  using insert_output_reservation_Inr(1) [of ufold r s u s'] by auto

lemma job_store_step_claims: "job_store_step ufold cal s s' \<Longrightarrow> claims_kept s s'"
proof (induction rule: job_store_step.induct)
  case (insert_with_output j r s s')
  then show ?case
    by (auto simp: job_insert_with_output_reservation_def insert_job_Inr
        dest!: insert_output_reservation_superset intro!: claims_kept_superset)
next
  case (transition i n target now s j' s')
  then show ?case
    by (auto simp: job_transition_method_def job_get_def job_update_Inr split: option.splits
        intro!: claims_kept_superset)
next
  case (update_with_output j n r s j' s')
  then show ?case
    by (auto simp: job_update_with_output_reservation_def Let_def update_or_stale_Inr
        dest!: insert_output_reservation_superset intro!: claims_kept_superset)
next
  case (retry j n b out s j' s')
  then show ?case
  proof (rule retry_admission_steps)
    fix s1 s2
    assume b: "case b of None \<Rightarrow> s1 = s
          | Some r \<Rightarrow> insert_budget_reservation_tx cal r (\<not> j_allow_budget_override j) s = Inr ((), s1)"
      and o: "case out of None \<Rightarrow> s2 = s1 | Some r \<Rightarrow> insert_output_reservation ufold r s1 = Inr ((), s2)"
      and u: "update_or_stale (j\<lparr>j_revision := u64_saturating_add n 1\<rparr>) n (u64_saturating_add n 1) s2
        = Inr (j', s')"
    from b have "db_outputs s1 = db_outputs s"
      by (cases b) (auto dest: insert_budget_reservation_tx_jobs)
    moreover from o have "set (db_outputs s1) \<subseteq> set (db_outputs s2)"
      by (cases out) (auto dest: insert_output_reservation_superset)
    ultimately show ?thesis using u by (auto simp: update_or_stale_Inr intro!: claims_kept_superset)
  qed
next
  case (terminal j n s j' s')
  then have "db_outputs s' = sql_delete (is_reserved_claim (j_id j)) (db_outputs s)"
    by (auto simp: job_update_terminal_with_output_release_def Let_def update_or_stale_Inr)
  then show ?case by (rule claims_kept_delete) (simp add: is_reserved_claim_def may_release_def)
next
  case (acquire j r s s')
  then show ?case
    by (auto simp: job_acquire_output_reservation_for_existing_job_def
        dest!: insert_output_reservation_superset intro!: claims_kept_superset)
next
  case (promoting i now s s')
  then have "db_outputs s' = sql_update (is_reserved_claim i)
      (\<lambda>r. r\<lparr>ou_state := Promoting, ou_updated_at := now\<rparr>) (db_outputs s)"
    by (auto simp: job_mark_output_promoting_def)
  then show ?case by (rule claims_kept_update) (simp add: is_reserved_claim_def claim_advances_def)
next
  case (promoted i now s s')
  then have "db_outputs s' = sql_update (\<lambda>r. ou_job_id r = i)
      (\<lambda>r. r\<lparr>ou_state := Promoted, ou_updated_at := now,
         ou_promoted_at := (case ou_promoted_at r of Some t \<Rightarrow> Some t | None \<Rightarrow> Some now)\<rparr>)
      (db_outputs s)"
    by (auto simp: job_mark_output_promoted_def)
  moreover have "claim_rank st \<le> 2" for st by (cases st) simp_all
  ultimately show ?case by (elim claims_kept_update) (simp add: claim_advances_def)
next
  case (release_unpromoted i s x s')
  then have "db_outputs s' = sql_delete (is_reserved_claim i) (db_outputs s)"
    by (auto simp: job_release_unpromoted_output_reservation_def delete_outputs_def)
  then show ?case by (rule claims_kept_delete) (simp add: is_reserved_claim_def may_release_def)
next
  case (release_completed i s x s')
  then have "db_outputs s' = sql_delete (\<lambda>r. ou_job_id r = i \<and> ou_state r = Promoted
         \<and> job_in_state s i [Completed]) (db_outputs s)"
    by (auto simp: job_release_completed_output_reservation_def delete_outputs_def)
  then show ?case by (rule claims_kept_delete) (simp add: may_release_def)
next
  case (release_terminal s k s')
  then have "db_outputs s' = sql_delete (\<lambda>r.
     (ou_state r = Reserved \<and> job_in_state s (ou_job_id r) [Failed, Cancelled])
   \<or> (ou_state r = Promoted \<and> job_in_state s (ou_job_id r) [Completed])) (db_outputs s)"
    by (auto simp: job_release_terminal_output_reservations_def delete_outputs_def)
  then show ?case by (rule claims_kept_delete) (auto simp: may_release_def)
qed (auto simp: job_insert_def insert_job_Inr job_update_Inr intro!: claims_kept_superset)

section \<open>The claim that contains a path\<close>

definition path_within :: "str \<Rightarrow> str \<Rightarrow> bool" where
  "path_within candidate protected \<longleftrightarrow> candidate = protected \<or> is_below candidate protected"

definition claim_keys :: "(str \<Rightarrow> str) \<Rightarrow> output_row list \<Rightarrow> (output_reservation \<times> str) list" where
  "claim_keys ufold rows = concat (map (\<lambda>row. let r = decode_output_reservation ufold row in
     map (Pair r) (protected_output_keys ufold (ou_destination_key r) (ou_layout r))) rows)"

lemma containing_fold_flat:
  "fold (\<lambda>row. let r = decode_output_reservation ufold row in
       fold (containing_step candidate r)
         (protected_output_keys ufold (ou_destination_key r) (ou_layout r))) rows acc
   = fold (\<lambda>(r, p). containing_step candidate r p) (claim_keys ufold rows) acc"
  by (induction rows arbitrary: acc) (simp_all add: claim_keys_def Let_def fold_map comp_def)

text \<open>The accumulator holds a longest containing key of the pairs scanned so far.\<close>

definition longest_within ::
  "str \<Rightarrow> (output_reservation \<times> str) list \<Rightarrow> output_reservation option \<times> nat \<Rightarrow> bool" where
  "longest_within candidate xs acc \<longleftrightarrow> (case fst acc of
      None \<Rightarrow> snd acc = 0 \<and> (\<forall>(r, p) \<in> set xs. \<not> path_within candidate p)
    | Some r \<Rightarrow> (\<exists>p. (r, p) \<in> set xs \<and> path_within candidate p \<and> length p = snd acc)
        \<and> (\<forall>(q, p) \<in> set xs. path_within candidate p \<longrightarrow> length p \<le> snd acc))"

lemma longest_within_step:
  assumes "longest_within candidate xs acc"
  shows "longest_within candidate (xs @ [(r, p)]) (containing_step candidate r p acc)"
proof (cases "path_within candidate p")
  case False
  with assms show ?thesis
    by (auto simp: longest_within_def containing_step_def path_within_def split: option.splits)
next
  case True
  then have step: "containing_step candidate r p acc
      = (if snd acc \<le> length p then (Some r, length p) else acc)"
    by (simp add: containing_step_def path_within_def)
  show ?thesis
  proof (cases "fst acc")
    case None
    with assms True step show ?thesis by (auto simp: longest_within_def)
  next
    case (Some q)
    with assms True step show ?thesis
      by (cases "snd acc \<le> length p") (fastforce simp: longest_within_def)+
  qed
qed

lemma longest_within_fold:
  "longest_within candidate xs acc \<Longrightarrow>
   longest_within candidate (xs @ ys) (fold (\<lambda>(r, p). containing_step candidate r p) ys acc)"
proof (induction ys arbitrary: xs acc)
  case (Cons y ys)
  obtain r p where "y = (r, p)" by (cases y)
  with Cons.IH [OF longest_within_step [OF Cons.prems, of r p]] show ?case by simp
qed simp

lemma find_containing_longest:
  assumes "job_find_output_reservation_containing_path ufold key s = Inr (res, s')"
  shows "\<exists>n. longest_within (normalize_output_destination_key ufold key)
    (claim_keys ufold (db_outputs s)) (res, n)"
proof -
  let ?c = "normalize_output_destination_key ufold key"
  have "longest_within ?c ([] @ claim_keys ufold (db_outputs s))
    (fold (\<lambda>(r, p). containing_step ?c r p) (claim_keys ufold (db_outputs s)) (None, 0))"
    by (rule longest_within_fold) (simp add: longest_within_def)
  moreover from assms have "res = fst (fold (\<lambda>(r, p). containing_step ?c r p)
      (claim_keys ufold (db_outputs s)) (None, 0))"
    unfolding job_find_output_reservation_containing_path_def Let_def
      containing_fold_flat [unfolded Let_def] by simp
  ultimately show ?thesis by (metis append_Nil prod.collapse)
qed

section \<open>Retry admission\<close>

lemma update_or_stale_found:
  assumes "update_or_stale j n m s = Inr (j', s')" and "jobs_wf s"
  shows "\<exists>row. find_job_row s' (j_id j) = Some row \<and> jr_payload row = j
    \<and> jr_state row = j_state j \<and> jr_reservation_id row = j_reservation_id j
    \<and> jr_revision row = i64_from_u64_or_max m"
proof -
  from assms(1) obtain r where r: "r \<in> set (db_jobs s)" "matches_revision (j_id j) n r"
    and s': "s' = s\<lparr>db_jobs := sql_update (matches_revision (j_id j) n)
          (written_row j (i64_from_u64_or_max m)) (db_jobs s)\<rparr>"
    by (auto simp: update_or_stale_Inr)
  from find_job_row_matches [OF assms(2) r] r(2) show ?thesis
    unfolding s' find_job_row_update by (simp add: written_row_def)
qed

lemma reserved_row_found:
  assumes "insert_budget_reservation_tx cal r cap s = Inr (u, s')" and wf: "budgets_wf s"
  shows "find_reservation s' (br_id r) = Some r" and "br_status r = Active"
proof -
  have "find_reservation s' (br_id r) = Some r \<and> br_status r = Active"
  proof (rule insert_budget_reservation_tx_Inr [OF assms(1) budgets_wf_allocations(1) [OF wf]])
    show "find_budget s i = Some b \<Longrightarrow> b_id b = i" for i b by (rule find_budget_id [OF wf])
  next
    fix s2
    assume s': "s' = s2\<lparr>
        db_reservations := db_reservations s2 @ [reservation_row_of r (max_sequence (db_ledger s))],
        db_allocations := db_allocations s @ map (allocation_row_of (br_id r)) (br_allocations r)\<rparr>"
      and clash: "\<forall>x \<in> set (db_reservations s2).
        \<not> reservation_clashes (reservation_row_of r (max_sequence (db_ledger s))) x"
      and act: "br_status r = Active"
    from clash have "find (\<lambda>x. rv_id x = br_id r) (db_reservations s2) = None"
      by (auto simp: find_None_iff reservation_clashes_def reservation_row_of_def)
    with act s' show "find_reservation s' (br_id r) = Some r \<and> br_status r = Active"
      by (simp add: find_reservation_def find_append decode_reservation_row_def
          reservation_row_of_def)
  qed
  then show "find_reservation s' (br_id r) = Some r" and "br_status r = Active" by blast+
qed

lemma committed_amount_cong:
  assumes "db_reservations s' = db_reservations s" and "db_allocations s' = db_allocations s"
  shows "committed_amount cal r b s' = committed_amount cal r b s"
proof -
  have a: "allocation_reservation s' = allocation_reservation s"
    using assms(1) by (auto simp: allocation_reservation_def)
  show ?thesis
    unfolding committed_amount_def active_reserved_sum_def job_consumed_sum_def
      allocation_counts_def [abs_def] job_consumption_def [abs_def] a assms(2) by (rule refl)
qed

end
