(* ===== verification/Job_Properties.thy ===== *)
theory Job_Properties
  imports Job_Correctness Budget_Properties
begin

text \<open>
  The properties of the job lifecycle and of the job repository, with their witnesses.
\<close>

section \<open>The lifecycle\<close>

text \<open>
  C30. Every job the service can reach from a freshly admitted one is valid: its progress does not
  exceed its total, it has a finish time exactly when its state is terminal, and it has a start time
  whenever it runs, is pausing or has completed.
\<close>

theorem job_lifecycle_invariant:
  assumes "fresh_job j0" and "job_reachable j0 j"
  shows "validate (job_issues j) = Inr ()
    \<and> (is_terminal (j_state j) \<longleftrightarrow> j_finished_at j \<noteq> None)
    \<and> (j_state j \<in> {Running, Pausing, Completed} \<longrightarrow> j_started_at j \<noteq> None)"
  using job_reachable_inv [OF assms(2,1)] by (simp add: job_inv_def)

lemma sample_job_running:
  "job_reachable (sample_job 11) ((sample_job 11)\<lparr>j_state := Running, j_started_at := Some 5,
     j_updated_at := 5, j_status_message := Some ''go''\<rparr>)"
  by (rule job_reachable.step [OF job_reachable.start job_step.transition [where target = Running]])
     (simp_all add: service_transition_def job_transition_def can_transition_to_def sample_job_def)

theorem job_lifecycle_invariant_witness:
  "j_started_at ((sample_job 11)\<lparr>j_state := Running, j_started_at := Some 5, j_updated_at := 5,
     j_status_message := Some ''go''\<rparr>) \<noteq> None"
proof -
  have "fresh_job (sample_job 11)" by (simp add: fresh_job_def sample_job_def)
  from job_lifecycle_invariant [OF this sample_job_running] show ?thesis by simp
qed

text \<open>
  A job that was cancelled or has completed stays so, whatever the service does with it
  afterwards: only a failed job can be queued again.
\<close>

theorem job_closed_forever:
  assumes "job_reachable j j'" and "j_state j \<in> {Cancelled, Completed}"
  shows "j_state j' = j_state j"
  by (rule job_reachable_closed_state [OF assms])

theorem job_closed_forever_witness:
  "j_state (set_message ((sample_job 11)\<lparr>j_state := Completed\<rparr>) ''late'' 9) = Completed"
proof -
  let ?j = "(sample_job 11)\<lparr>j_state := Completed\<rparr>"
  have "job_reachable ?j (set_message ?j ''late'' 9)"
    by (rule job_reachable.step [OF job_reachable.start job_step.message])
  from job_closed_forever [OF this] show ?thesis by simp
qed

definition action_allowed :: "job_action \<Rightarrow> job \<Rightarrow> bool \<Rightarrow> bool \<Rightarrow> bool" where
  "action_allowed a j blocked detection_retry_ok \<longleftrightarrow>
     j_kind j \<notin> {Preview, QualityControl, CacheCleanup} \<and> (case a of
       Pause \<Rightarrow> j_state j \<in> {Queued, Running}
     | Resume \<Rightarrow> \<not> blocked \<and> j_state j = Paused
     | Cancel \<Rightarrow> j_state j \<in> {Queued, Running, Paused}
     | Retry \<Rightarrow> \<not> blocked \<and> j_state j = Failed
         \<and> (j_kind j = CharacterDetection \<longrightarrow> detection_retry_ok))"

definition action_target :: "job_action \<Rightarrow> job_state" where
  "action_target a = (case a of Pause \<Rightarrow> Pausing | Resume \<Rightarrow> Running | Cancel \<Rightarrow> Cancelling
     | Retry \<Rightarrow> Queued)"

text \<open>The outcome of a lifecycle action: pause, resume, cancel and retry succeed from exactly the
  states and under exactly the guards listed here, with the resulting state; a retry clears the
  finish time and installs the new reservation. No action fails on an illegal transition of the
  domain model, so the API's table and the state machine agree.
\<close>

theorem job_action_outcome:
  "case job_action_effect a j blocked ok res now of
     Inr j' \<Rightarrow> action_allowed a j blocked ok \<and> j_state j' = action_target a
       \<and> (a = Retry \<longrightarrow> j_finished_at j' = None \<and> j_reservation_id j' = res)
   | Inl e \<Rightarrow> \<not> action_allowed a j blocked ok \<and> (\<forall>d. e \<noteq> ActionDomain d)"
  by (cases a; cases "j_state j")
     (simp_all add: job_action_effect_def action_allowed_def action_target_def then_transition_def
        service_transition_def retry_requeue_def job_transition_def can_transition_to_def Let_def)

theorem job_action_outcome_witness:
  "action_allowed Retry ((sample_job 11)\<lparr>j_state := Failed\<rparr>) False True"
  using job_action_outcome [of Retry "(sample_job 11)\<lparr>j_state := Failed\<rparr>" False True None 9]
  by (simp add: job_action_effect_def retry_requeue_def job_transition_def can_transition_to_def
      sample_job_def Let_def)

section \<open>Optimistic updates\<close>

text \<open>
  C27. No update of a job is lost. When one writer has updated a job on the revision it read, every
  other writer that read the same revision is refused, immediately and after any number of further
  updates; it never overwrites the newer row.
\<close>

theorem no_lost_job_update:
  assumes "jobs_wf s" and "n < revision_bound" and "job_update j n s = Inr (j', s1)"
    and "job_store.swapped s1 t" and "j_id k = j_id j"
  shows "job_revision s (j_id j) = Some n \<and> job_revision s1 (j_id j) = Some (Suc n)
    \<and> isl (job_update k n t) \<and> snd (commit (job_update k n) t) = t"
proof -
  have "job_update k n t \<noteq> Inr r" for r by (rule job_store.overtaken [OF assms])
  then obtain e where "job_update k n t = Inl e" by (cases "job_update k n t") auto
  then show ?thesis
    using job_store.swap_read [OF assms(1-3)] job_store.swap_next [OF assms(1-3)]
    by (simp add: commit_Inl)
qed

lemma sample_jobs_wf: "jobs_wf sample_db"
  by (simp add: jobs_wf_def job_row_ok_def sample_db_def sample_job_row_def sample_job_def
      job_issues_Nil_iff)

theorem no_lost_job_update_witness:
  "\<exists>s1. job_update (sample_job 11) 0 sample_db = Inr ((sample_job 11)\<lparr>j_revision := 1\<rparr>, s1)
     \<and> isl (job_update (set_message (sample_job 11) ''late'' 3) 0 s1)"
proof -
  let ?m = "job_update (sample_job 11) 0"
  have "\<exists>s1. ?m sample_db = Inr ((sample_job 11)\<lparr>j_revision := 1\<rparr>, s1)"
    by (simp add: job_update_Inr sample_db_def sample_job_row_def sample_job_def job_issues_Nil_iff
        matches_revision_def export_profile_known_def u64_defs i64_max_def)
  then obtain s1 where up: "?m sample_db = Inr ((sample_job 11)\<lparr>j_revision := 1\<rparr>, s1)" by blast
  have "0 < revision_bound" by (simp add: revision_bound_def)
  from no_lost_job_update [OF sample_jobs_wf this up job_store.swapped.start,
      where k = "set_message (sample_job 11) ''late'' 3"]
  show ?thesis using up by (auto simp: set_message_def)
qed

section \<open>Output claims\<close>

text \<open>
  C28. Two jobs never own overlapping export destinations. However the repository is used, the
  protected paths of two stored claims of different jobs (the destination and, for a single file, its
  manifest) are different and neither lies below the other, up to ASCII case.
\<close>

theorem claims_disjoint:
  assumes "store_wf s0" and "job_store_reachable ufold cal s0 s"
    and "a \<in> set (db_outputs s)" and "b \<in> set (db_outputs s)" and "ou_job_id a \<noteq> ou_job_id b"
    and "p \<in> set (sql_protected_keys (ou_destination_key a) (ou_layout a))"
    and "q \<in> set (sql_protected_keys (ou_destination_key b) (ou_layout b))"
  shows "p \<noteq> q \<and> \<not> is_below p q \<and> \<not> is_below q p"
proof -
  from job_store_reachable_wf [OF assms(2,1)] have "outputs_wf (db_outputs s)"
    by (simp add: store_wf_def)
  from outputs_wf_disjoint [OF this assms(3-5)] assms(6,7) show ?thesis
    by (auto simp: sql_rows_conflict_def list_ex_iff sql_key_conflict_iff)
qed

definition sample_claim :: "job_id \<Rightarrow> str \<Rightarrow> output_row" where
  "sample_claim i path = \<lparr>ou_job_id = i, ou_project_id = 7, ou_destination_key = path,
     ou_destination_path = path, ou_layout = SingleFile, ou_state = Reserved, ou_created_at = 0,
     ou_updated_at = 0, ou_promoted_at = None\<rparr>"

definition sample_claimed :: db where
  "sample_claimed = sample_db\<lparr>db_outputs := [sample_claim 11 ''/a/x'', sample_claim 12 ''/b'']\<rparr>"

lemma sample_claimed_wf: "store_wf sample_claimed"
  using sample_jobs_wf
  by (simp add: store_wf_def sample_claimed_def outputs_wf_def sample_claim_def)
     (simp add: sql_rows_conflict_def sql_protected_keys_def sql_key_conflict_def manifest_suffix_def
       ascii_lower_def is_ascii_upper_def)

theorem claims_disjoint_witness:
  "\<not> is_below (map ascii_lower ''/a/x'') (map ascii_lower ''/b'')"
  using claims_disjoint [OF sample_claimed_wf job_store_reachable.start [where ufold = id and cal = gregorian],
      of "sample_claim 11 ''/a/x''" "sample_claim 12 ''/b''" "map ascii_lower ''/a/x''"
         "map ascii_lower ''/b''"]
  by (simp add: sample_claimed_def sample_claim_def sql_protected_keys_def)

text \<open>
  A claim is given up only as its lifecycle allows. In one step of the repository a stored claim
  stays with its job, path and layout, and its state moves only forwards from reserved over promoting
  to promoted; it may be removed only while it is still reserved, or when it is promoted and its job is
  stored as completed. A promotion that has begun is never forgotten.
\<close>

theorem claim_lifecycle:
  assumes "job_store_step ufold cal s s'" and "r \<in> set (db_outputs s)"
  shows "(\<exists>r' \<in> set (db_outputs s'). ou_job_id r' = ou_job_id r
        \<and> ou_destination_key r' = ou_destination_key r \<and> ou_layout r' = ou_layout r
        \<and> claim_rank (ou_state r) \<le> claim_rank (ou_state r'))
    \<or> ou_state r = Reserved
    \<or> (ou_state r = Promoted \<and> job_in_state s (ou_job_id r) [Completed])"
  using job_store_step_claims [OF assms(1)] assms(2)
  by (fastforce simp: claims_kept_def may_release_def claim_advances_def)

theorem claim_lifecycle_witness:
  "\<exists>s'. (\<exists>r' \<in> set (db_outputs s'). ou_job_id r' = 11 \<and> 1 \<le> claim_rank (ou_state r'))
     \<and> job_store_step id gregorian
         (sample_db\<lparr>db_outputs := [(sample_claim 11 ''/a'')\<lparr>ou_state := Promoting\<rparr>]\<rparr>) s'"
proof -
  let ?r = "(sample_claim 11 ''/a'')\<lparr>ou_state := Promoting\<rparr>"
  let ?s = "sample_db\<lparr>db_outputs := [?r]\<rparr>"
  let ?m = "job_release_unpromoted_output_reservation 11"
  have "\<not> isl (?m ?s)"
    by (simp add: job_release_unpromoted_output_reservation_def delete_outputs_def tx_defs)
  from committed_result [where m = ?m, OF this] obtain x s' where "?m ?s = Inr (x, s')" by blast
  then have st: "job_store_step id gregorian ?s s'" by (rule job_store_step.release_unpromoted)
  from claim_lifecycle [OF st, of ?r] st show ?thesis by (auto simp: sample_claim_def)
qed

text \<open>
  The claim that contains a path is found, and it is the most specific one: the answer is a stored
  claim one of whose protected paths is the candidate or an ancestor of it, no stored protected path
  that contains the candidate is longer, and the answer is empty only if none contains it.
\<close>

theorem containing_claim_most_specific:
  assumes "job_find_output_reservation_containing_path ufold key s = Inr (res, s')"
  shows "case res of
      None \<Rightarrow> \<forall>(q, p) \<in> set (claim_keys ufold (db_outputs s)).
        \<not> path_within (normalize_output_destination_key ufold key) p
    | Some r \<Rightarrow> \<exists>p. (r, p) \<in> set (claim_keys ufold (db_outputs s))
        \<and> path_within (normalize_output_destination_key ufold key) p
        \<and> (\<forall>(q, p') \<in> set (claim_keys ufold (db_outputs s)).
             path_within (normalize_output_destination_key ufold key) p' \<longrightarrow> length p' \<le> length p)"
  using find_containing_longest [OF assms] by (auto simp: longest_within_def split: option.splits)

theorem containing_claim_most_specific_witness:
  "\<exists>r. fst (projr (job_find_output_reservation_containing_path id ''/a/x/y'' sample_claimed)) = Some r
     \<and> (\<exists>p. (r, p) \<in> set (claim_keys id (db_outputs sample_claimed)) \<and> path_within ''/a/x/y'' p)"
proof -
  let ?m = "job_find_output_reservation_containing_path id ''/a/x/y''"
  have n: "normalize_output_destination_key id ''/a/x/y'' = ''/a/x/y''" by code_simp
  have "\<not> Option.is_none (fst (projr (?m sample_claimed)))" by code_simp
  then have "\<exists>r. fst (projr (?m sample_claimed)) = Some r" by (auto simp: Option.is_none_def)
  then obtain r where r: "fst (projr (?m sample_claimed)) = Some r" by blast
  have "?m sample_claimed = Inr (Some r, sample_claimed)"
    using r by (simp add: job_find_output_reservation_containing_path_def tx_gets_def)
  from containing_claim_most_specific [OF this] n r show ?thesis by auto
qed

section \<open>Retry\<close>







end
