(* ===== verification/Idempotency_Contract.thy ===== *)
theory Idempotency_Contract
  imports Database
begin

text \<open>
  What an idempotency key promises to the requests that carry it: the answers of the repository
  (\<open>IdempotentResponse\<close> and \<open>IdempotencyClaim\<close> of crates/storage/src/repositories/idempotency.rs),
  the state machine of one key, and the laws \<open>replay\_slot\<close> of a store that implements it. The
  locale's lemmas are what the HTTP middleware relies on: a key is acquired once, its response
  is stored once and replayed until the key expires.
\<close>

section \<open>Answers\<close>

record idempotent_response =
  ir_status :: u16
  ir_body :: str
  ir_content_type :: str

datatype idempotency_claim = Acquired | InProgress | Replay idempotent_response

section \<open>One key\<close>

text \<open>What one key promises, without the table: it is free, held by a running request, or done
  with a response, until its expiry.\<close>

datatype slot = Free | Running str time | Done str idempotent_response time

fun expired_slot :: "time \<Rightarrow> slot \<Rightarrow> bool" where
  "expired_slot now Free = False"
| "expired_slot now (Running _ e) = (e \<le> now)"
| "expired_slot now (Done _ _ e) = (e \<le> now)"

definition live_slot :: "time \<Rightarrow> slot \<Rightarrow> slot" where
  "live_slot now sl = (if expired_slot now sl then Free else sl)"

definition slot_claim :: "slot \<Rightarrow> str \<Rightarrow> time \<Rightarrow> time \<Rightarrow> (storage_error + idempotency_claim) \<times> slot" where
  "slot_claim sl hash now expires = (case live_slot now sl of
      Free \<Rightarrow> (Inr Acquired, Running hash expires)
    | Running h e \<Rightarrow> (if h = hash then Inr InProgress else Inl IdempotencyMismatch, Running h e)
    | Done h r e \<Rightarrow> (if h = hash then Inr (Replay r) else Inl IdempotencyMismatch, Done h r e))"

definition slot_complete :: "slot \<Rightarrow> str \<Rightarrow> idempotent_response \<Rightarrow> slot option" where
  "slot_complete sl hash response = (case sl of
      Running h e \<Rightarrow> if h = hash then Some (Done h response e) else None
    | _ \<Rightarrow> None)"

lemma slot_claim_before_expiry:
  assumes "\<not> expired_slot now sl" and "slot_claim sl hash now x = (Inr c, sl')" and "sl \<noteq> Free"
  shows "sl' = sl" and "c \<noteq> Acquired"
    and "sl = Running h e \<Longrightarrow> hash = h \<and> c = InProgress"
    and "sl = Done h r e \<Longrightarrow> hash = h \<and> c = Replay r"
  using assms by (cases sl; auto simp: slot_claim_def live_slot_def split: if_splits)+

section \<open>A store that keeps the promise\<close>

text \<open>\<open>other t\<close> is a step of the store on behalf of anything else, at a time up to \<open>t\<close>.\<close>

locale replay_slot =
  fixes wf :: "'s \<Rightarrow> bool"
    and slot :: "'s \<Rightarrow> slot"
    and claim :: "str \<Rightarrow> time \<Rightarrow> time \<Rightarrow> ('s, 'e, idempotency_claim) tx"
    and complete :: "str \<Rightarrow> idempotent_response \<Rightarrow> ('s, 'e, unit) tx"
    and other :: "time \<Rightarrow> 's \<Rightarrow> 's \<Rightarrow> bool"
  assumes claim_wf: "wf s \<Longrightarrow> claim h now x s = Inr (c, s') \<Longrightarrow> wf s'"
    and claim_slot: "wf s \<Longrightarrow> claim h now x s = Inr (c, s') \<Longrightarrow>
      slot_claim (slot s) h now x = (Inr c, slot s')"
    and complete_wf: "wf s \<Longrightarrow> complete h r s = Inr (u, s') \<Longrightarrow> ir_status r \<le> u16_max \<Longrightarrow> wf s'"
    and complete_slot: "wf s \<Longrightarrow> complete h r s = Inr (u, s') \<Longrightarrow> ir_status r \<le> u16_max \<Longrightarrow>
      slot_complete (slot s) h r = Some (slot s')"
    and other_wf: "wf s \<Longrightarrow> other t s s' \<Longrightarrow> wf s'"
    and other_slot: "wf s \<Longrightarrow> other t s s' \<Longrightarrow> \<not> expired_slot t (slot s) \<Longrightarrow> slot s' = slot s"
begin

text \<open>Any history of the store before the deadline \<open>e\<close>.\<close>

inductive before :: "time \<Rightarrow> 's \<Rightarrow> 's \<Rightarrow> bool" for e s0 where
  start: "before e s0 s0"
| claimed: "before e s0 s \<Longrightarrow> now < e \<Longrightarrow> claim h now x s = Inr (c, s') \<Longrightarrow> before e s0 s'"
| completed: "before e s0 s \<Longrightarrow> complete h r s = Inr (u, s') \<Longrightarrow> ir_status r \<le> u16_max \<Longrightarrow>
    before e s0 s'"
| others: "before e s0 s \<Longrightarrow> t < e \<Longrightarrow> other t s s' \<Longrightarrow> before e s0 s'"

lemma before_wf: "before e s0 s \<Longrightarrow> wf s0 \<Longrightarrow> wf s"
  by (induction rule: before.induct) (auto intro: claim_wf complete_wf other_wf)

lemma running_kept:
  assumes "before e s0 s" and "wf s0" and "slot s0 = Running h e"
  shows "slot s = Running h e \<or> (\<exists>r. slot s = Done h r e)"
  using assms
proof (induction rule: before.induct)
  case (claimed s now h' x c s')
  then have wf: "wf s" by (blast intro: before_wf)
  from claimed show ?case
    using slot_claim_before_expiry(1) [OF _ claim_slot [OF wf claimed.hyps(3)]] by fastforce
next
  case (completed s h' r u s')
  then have wf: "wf s" by (blast intro: before_wf)
  from completed show ?case
    using complete_slot [OF wf completed.hyps(2,3)]
    by (cases "slot s'") (auto simp: slot_complete_def split: if_splits)
next
  case (others s t s')
  then have wf: "wf s" by (blast intro: before_wf)
  from others show ?case using other_slot [OF wf others.hyps(3)] by auto
qed auto

lemma done_kept:
  assumes "before e s0 s" and "wf s0" and "slot s0 = Done h r e"
  shows "slot s = Done h r e"
  using assms
proof (induction rule: before.induct)
  case (claimed s now h' x c s')
  then have wf: "wf s" by (blast intro: before_wf)
  from claimed show ?case
    using slot_claim_before_expiry(1) [OF _ claim_slot [OF wf claimed.hyps(3)]] by fastforce
next
  case (completed s h' r' u s')
  then have wf: "wf s" by (blast intro: before_wf)
  from completed show ?case
    using complete_slot [OF wf completed.hyps(2,3)] by (auto simp: slot_complete_def)
next
  case (others s t s')
  then have wf: "wf s" by (blast intro: before_wf)
  from others show ?case using other_slot [OF wf others.hyps(3)] by auto
qed auto

lemma acquired_slot:
  "wf s \<Longrightarrow> claim h now x s = Inr (Acquired, s') \<Longrightarrow> slot s' = Running h x"
  using claim_slot [of s h now x Acquired s']
  by (auto simp: slot_claim_def split: slot.splits if_splits)

lemma acquired_once:
  assumes "wf s0" and "claim h now x s0 = Inr (Acquired, s1)" and "before x s1 s2"
    and "now' < x" and "claim h' now' x' s2 = Inr (c, s3)"
  shows "h' = h" and "c = InProgress \<or> (\<exists>r. c = Replay r)"
proof -
  have wf1: "wf s1" by (rule claim_wf [OF assms(1,2)])
  note kept = running_kept [OF assms(3) wf1 acquired_slot [OF assms(1,2)]]
  note claimed = claim_slot [OF before_wf [OF assms(3) wf1] assms(5)]
  show "h' = h" "c = InProgress \<or> (\<exists>r. c = Replay r)"
    using kept assms(4) slot_claim_before_expiry(3,4) [OF _ claimed] by fastforce+
qed

lemma completed_slot:
  assumes "wf s" and "complete h r s = Inr (u, s')" and "ir_status r \<le> u16_max"
  obtains e where "slot s = Running h e" and "slot s' = Done h r e"
  using complete_slot [OF assms] by (auto simp: slot_complete_def split: slot.splits if_splits)

lemma completed_once:
  assumes "wf s0" and "complete h r s0 = Inr (u, s1)" and "ir_status r \<le> u16_max"
    and "slot s0 = Running h e" and "before e s1 s2" and "ir_status r' \<le> u16_max"
  shows "complete h' r' s2 \<noteq> Inr (u', s3)"
proof
  assume again: "complete h' r' s2 = Inr (u', s3)"
  have wf1: "wf s1" by (rule complete_wf [OF assms(1-3)])
  have "slot s1 = Done h r e" by (rule completed_slot [OF assms(1-3)]) (simp add: assms(4))
  from done_kept [OF assms(5) wf1 this]
  show False
    by (rule_tac completed_slot [OF before_wf [OF assms(5) wf1] again assms(6)]) simp
qed

lemma replayed:
  assumes "wf s0" and "complete h r s0 = Inr (u, s1)" and "ir_status r \<le> u16_max"
    and "slot s0 = Running h e" and "before e s1 s2" and "now < e"
    and "claim h' now x s2 = Inr (c, s3)"
  shows "h' = h" and "c = Replay r" and "slot s3 = Done h r e"
proof -
  have wf1: "wf s1" by (rule complete_wf [OF assms(1-3)])
  have "slot s1 = Done h r e" by (rule completed_slot [OF assms(1-3)]) (simp add: assms(4))
  from done_kept [OF assms(5) wf1 this] have d: "slot s2 = Done h r e" .
  note claimed = claim_slot [OF before_wf [OF assms(5) wf1] assms(7)]
  show "h' = h" "c = Replay r" "slot s3 = Done h r e"
    using slot_claim_before_expiry(1,4) [OF _ claimed] d assms(6) by auto
qed

end

end
