(* ===== verification/Idempotency_Repository.thy ===== *)
theory Idempotency_Repository
  imports Idempotency_Contract
begin

text \<open>
  The idempotency repository (crates/storage/src/repositories/idempotency.rs): a claim of a key
  acquires it, replays the stored response or reports that the first request is still running;
  completing a claim stores its response. A body is its list of bytes.
\<close>

section \<open>Operations\<close>

definition validate_key :: "str \<Rightarrow> str \<Rightarrow> str \<Rightarrow> time \<Rightarrow> time \<Rightarrow> storage_error + unit" where
  "validate_key scope key hash now expires =
     (if str_is_blank scope \<or> str_is_blank key \<or> str_is_blank hash
      then Inl (InvalidData ''idempotency scope, key, and request hash must not be empty'' [])
      else if expires \<le> now
      then Inl (InvalidData ''idempotency expiry must be in the future'' [])
      else Inr ())"

definition has_key :: "str \<Rightarrow> str \<Rightarrow> idempotency_row \<Rightarrow> bool" where
  "has_key scope key r \<longleftrightarrow> ik_scope r = scope \<and> ik_key r = key"

definition find_key :: "db \<Rightarrow> str \<Rightarrow> str \<Rightarrow> idempotency_row option" where
  "find_key s scope key = find (has_key scope key) (db_idempotency s)"

definition fresh_key :: "str \<Rightarrow> str \<Rightarrow> str \<Rightarrow> time \<Rightarrow> time \<Rightarrow> idempotency_row" where
  "fresh_key scope key hash now expires = \<lparr>ik_scope = scope, ik_key = key, ik_request_hash = hash,
     ik_response_status = None, ik_response_body = None, ik_response_content_type = None,
     ik_created_at = now, ik_expires_at = expires\<rparr>"

definition delete_keys :: "(idempotency_row \<Rightarrow> bool) \<Rightarrow> nat db_tx" where
  "delete_keys P =
     tx_bind (tx_gets (\<lambda>s. rows_affected P (db_idempotency s))) (\<lambda>n.
       tx_then (tx_modify (\<lambda>s. s\<lparr>db_idempotency := sql_delete P (db_idempotency s)\<rparr>))
         (tx_return n))"

definition is_expired_key :: "time \<Rightarrow> idempotency_row \<Rightarrow> bool" where
  "is_expired_key now r \<longleftrightarrow> ik_expires_at r \<le> now"

text \<open>The answer for a key that is already stored.\<close>

definition stored_claim :: "str \<Rightarrow> idempotency_row \<Rightarrow> storage_error + idempotency_claim" where
  "stored_claim hash row =
     (if ik_request_hash row \<noteq> hash then Inl IdempotencyMismatch
      else case ik_response_status row of
        None \<Rightarrow> Inr InProgress
      | Some status \<Rightarrow>
          if 0 \<le> status \<and> status \<le> int u16_max
          then Inr (Replay \<lparr>ir_status = nat status,
                 ir_body = (case ik_response_body row of Some b \<Rightarrow> b | None \<Rightarrow> []),
                 ir_content_type = (case ik_response_content_type row of Some c \<Rightarrow> c
                   | None \<Rightarrow> ''application/octet-stream'')\<rparr>)
          else Inl (InvalidData ''invalid idempotent response status'' []))"

definition idempotency_claim_tx ::
  "str \<Rightarrow> str \<Rightarrow> str \<Rightarrow> time \<Rightarrow> time \<Rightarrow> idempotency_claim db_tx" where
  "idempotency_claim_tx scope key hash now expires =
     tx_then (tx_lift (validate_key scope key hash now expires))
    (tx_then (delete_keys (is_expired_key now))
    (tx_bind (tx_gets (\<lambda>s. find_key s scope key)) (\<lambda>found. case found of
        None \<Rightarrow>
          tx_then (tx_modify (\<lambda>s. s\<lparr>db_idempotency :=
              db_idempotency s @ [fresh_key scope key hash now expires]\<rparr>))
            (tx_return Acquired)
      | Some row \<Rightarrow> tx_lift (stored_claim hash row))))"

definition is_open_key :: "str \<Rightarrow> str \<Rightarrow> str \<Rightarrow> idempotency_row \<Rightarrow> bool" where
  "is_open_key scope key hash r \<longleftrightarrow> has_key scope key r \<and> ik_request_hash r = hash
     \<and> ik_response_status r = None"

definition with_response :: "idempotent_response \<Rightarrow> idempotency_row \<Rightarrow> idempotency_row" where
  "with_response response r = r\<lparr>ik_response_status := Some (int (ir_status response)),
     ik_response_body := Some (ir_body response),
     ik_response_content_type := Some (ir_content_type response)\<rparr>"

definition complete_failure :: "str \<Rightarrow> str \<Rightarrow> str \<Rightarrow> idempotency_row option \<Rightarrow> storage_error" where
  "complete_failure scope key hash found = (case found of
      Some row \<Rightarrow> if ik_request_hash row \<noteq> hash then IdempotencyMismatch
                  else Conflict ''idempotency_key'' (IdText (scope @ '':'' @ key))
    | None \<Rightarrow> NotFound ''idempotency_key'' (IdText (scope @ '':'' @ key)))"

definition idempotency_complete :: "str \<Rightarrow> str \<Rightarrow> str \<Rightarrow> idempotent_response \<Rightarrow> unit db_tx" where
  "idempotency_complete scope key hash response =
     tx_bind (tx_gets (\<lambda>s. rows_affected (is_open_key scope key hash) (db_idempotency s))) (\<lambda>n.
       tx_then (tx_modify (\<lambda>s. s\<lparr>db_idempotency := sql_update (is_open_key scope key hash)
           (with_response response) (db_idempotency s)\<rparr>))
      (tx_bind (tx_gets (\<lambda>s. find_key s scope key)) (\<lambda>found.
         tx_ensure (n \<noteq> 0) (complete_failure scope key hash found))))"

definition idempotency_forget :: "str \<Rightarrow> str \<Rightarrow> bool db_tx" where
  "idempotency_forget scope key =
     tx_bind (delete_keys (has_key scope key)) (\<lambda>n. tx_return (n > 0))"

definition idempotency_cleanup_expired :: "time \<Rightarrow> nat db_tx" where
  "idempotency_cleanup_expired now = delete_keys (is_expired_key now)"

section \<open>Lemmas\<close>

definition keys_wf :: "db \<Rightarrow> bool" where
  "keys_wf s \<longleftrightarrow> distinct (map (\<lambda>r. (ik_scope r, ik_key r)) (db_idempotency s))
     \<and> list_all (\<lambda>r. case ik_response_status r of None \<Rightarrow> True
          | Some status \<Rightarrow> 0 \<le> status \<and> status \<le> int u16_max
              \<and> ik_response_body r \<noteq> None \<and> ik_response_content_type r \<noteq> None) (db_idempotency s)"

lemma find_key_Some: "find_key s scope key = Some r \<Longrightarrow> has_key scope key r \<and> r \<in> set (db_idempotency s)"
  by (auto simp: find_key_def dest: find_Some_D)

lemma find_key_None: "find_key s scope key = None \<longleftrightarrow> (\<forall>r \<in> set (db_idempotency s). \<not> has_key scope key r)"
  by (auto simp: find_key_def find_None_iff)

lemma find_filter:
  assumes "\<And>x. x \<in> set xs \<Longrightarrow> P x \<Longrightarrow> Q x"
  shows "find P (filter Q xs) = find P xs"
  using assms by (induction xs) auto

lemma find_key_delete:
  "find_key (s\<lparr>db_idempotency := sql_delete P (db_idempotency s)\<rparr>) scope key
   = find (has_key scope key) (filter (\<lambda>r. \<not> P r) (db_idempotency s))"
  by (simp add: find_key_def sql_delete_def)

lemma delete_keys_Inr [simp]:
  "delete_keys P s = Inr (n, s') \<longleftrightarrow> n = rows_affected P (db_idempotency s)
     \<and> s' = s\<lparr>db_idempotency := sql_delete P (db_idempotency s)\<rparr>"
  by (auto simp: delete_keys_def)

lemma keys_wf_delete: "keys_wf s \<Longrightarrow> keys_wf (s\<lparr>db_idempotency := sql_delete P (db_idempotency s)\<rparr>)"
  by (auto simp: keys_wf_def list_all_iff distinct_map_sql_delete)

lemma keys_wf_insert:
  assumes "keys_wf s" and "find_key s scope key = None"
  shows "keys_wf (s\<lparr>db_idempotency := db_idempotency s @ [fresh_key scope key hash now expires]\<rparr>)"
  using assms by (fastforce simp: keys_wf_def fresh_key_def find_key_None has_key_def list_all_iff)

lemma keys_wf_complete:
  assumes "keys_wf s" and "ir_status response \<le> u16_max"
  shows "keys_wf (s\<lparr>db_idempotency := sql_update (is_open_key scope key hash)
           (with_response response) (db_idempotency s)\<rparr>)"
proof -
  have "map (\<lambda>r. (ik_scope r, ik_key r))
      (sql_update (is_open_key scope key hash) (with_response response) (db_idempotency s))
    = map (\<lambda>r. (ik_scope r, ik_key r)) (db_idempotency s)"
    by (rule map_sql_update) (simp add: with_response_def)
  with assms show ?thesis
    by (auto simp: keys_wf_def list_all_iff set_sql_update with_response_def)
qed

lemma find_key_complete:
  "find_key (s\<lparr>db_idempotency := sql_update (is_open_key scope key hash)
      (with_response response) (db_idempotency s)\<rparr>) scope' key'
   = map_option (\<lambda>r. if is_open_key scope key hash r then with_response response r else r)
       (find_key s scope' key')"
  unfolding find_key_def
  by (simp add: find_sql_update [where Q = "has_key scope' key'"] has_key_def with_response_def)

section \<open>Refinement of the contract\<close>

definition slot_of_row :: "idempotency_row \<Rightarrow> slot" where
  "slot_of_row r = (case ik_response_status r of
      None \<Rightarrow> Running (ik_request_hash r) (ik_expires_at r)
    | Some status \<Rightarrow> Done (ik_request_hash r)
        \<lparr>ir_status = nat status, ir_body = the (ik_response_body r),
         ir_content_type = the (ik_response_content_type r)\<rparr> (ik_expires_at r))"

definition slot_of :: "str \<Rightarrow> str \<Rightarrow> db \<Rightarrow> slot" where
  "slot_of scope key s = (case find_key s scope key of None \<Rightarrow> Free | Some r \<Rightarrow> slot_of_row r)"

lemma expired_slot_of_row [simp]: "expired_slot now (slot_of_row r) = is_expired_key now r"
  by (simp add: slot_of_row_def is_expired_key_def split: option.split)

lemma keys_wf_row:
  "keys_wf s \<Longrightarrow> r \<in> set (db_idempotency s) \<Longrightarrow> ik_response_status r = Some status \<Longrightarrow>
     0 \<le> status \<and> status \<le> int u16_max \<and> (\<exists>b. ik_response_body r = Some b)
     \<and> (\<exists>c. ik_response_content_type r = Some c)"
  by (fastforce simp: keys_wf_def list_all_iff)

lemma find_distinct_filter:
  assumes "distinct (map (\<lambda>r. (ik_scope r, ik_key r)) rows)"
  shows "find (has_key scope key) (filter (\<lambda>r. \<not> P r) rows)
    = (case find (has_key scope key) rows of None \<Rightarrow> None | Some r \<Rightarrow> if P r then None else Some r)"
  using assms
proof (induction rows)
  case (Cons a rows)
  show ?case
  proof (cases "has_key scope key a")
    case True
    with Cons.prems have none: "\<not> has_key scope key r" if "r \<in> set rows" for r
      using that by (auto simp: has_key_def image_iff)
    then have "find (has_key scope key) (filter (\<lambda>r. \<not> P r) rows) = None"
      by (auto simp: find_None_iff)
    with True show ?thesis by simp
  next
    case False
    with Cons show ?thesis by simp
  qed
qed simp

lemma slot_of_delete:
  assumes "keys_wf s"
  shows "slot_of scope key (s\<lparr>db_idempotency := sql_delete (is_expired_key now) (db_idempotency s)\<rparr>)
    = live_slot now (slot_of scope key s)"
proof -
  from assms have "distinct (map (\<lambda>r. (ik_scope r, ik_key r)) (db_idempotency s))"
    by (simp add: keys_wf_def)
  note find_distinct_filter [OF this, of scope key "is_expired_key now"]
  then show ?thesis
    unfolding slot_of_def find_key_delete
    by (simp add: find_key_def live_slot_def split: option.split)
qed

lemma stored_claim_row:
  assumes "keys_wf s" and "r \<in> set (db_idempotency s)"
  shows "stored_claim hash r = fst (case slot_of_row r of Free \<Rightarrow> (Inr Acquired, Free)
      | Running h e \<Rightarrow> (if h = hash then Inr InProgress else Inl IdempotencyMismatch, Running h e)
      | Done h q e \<Rightarrow> (if h = hash then Inr (Replay q) else Inl IdempotencyMismatch, Done h q e))"
  using keys_wf_row [OF assms] by (auto simp: stored_claim_def slot_of_row_def split: option.split)

lemma claim_refines:
  assumes wf: "keys_wf s" and claimed: "idempotency_claim_tx scope key hash now expires s = Inr (c, s')"
  shows "slot_claim (slot_of scope key s) hash now expires = (Inr c, slot_of scope key s')"
    and "keys_wf s'"
proof -
  define s1 where "s1 = s\<lparr>db_idempotency := sql_delete (is_expired_key now) (db_idempotency s)\<rparr>"
  have live: "slot_of scope key s1 = live_slot now (slot_of scope key s)" and wf1: "keys_wf s1"
    unfolding s1_def by (rule slot_of_delete [OF wf], rule keys_wf_delete [OF wf])
  have "slot_claim (slot_of scope key s) hash now expires = (Inr c, slot_of scope key s') \<and> keys_wf s'"
  proof (cases "find_key s1 scope key")
    case None
    with claimed have c: "c = Acquired"
      and s': "s' = s1\<lparr>db_idempotency := db_idempotency s1 @ [fresh_key scope key hash now expires]\<rparr>"
      by (auto simp: idempotency_claim_tx_def s1_def)
    have "find_key s' scope key = Some (fresh_key scope key hash now expires)"
      using None unfolding find_key_def s' by (simp add: find_append fresh_key_def has_key_def)
    then have "slot_of scope key s' = Running hash expires"
      by (simp add: slot_of_def slot_of_row_def fresh_key_def)
    moreover have "live_slot now (slot_of scope key s) = Free"
      unfolding live [symmetric] by (simp add: slot_of_def None)
    ultimately show ?thesis
      unfolding s' c using keys_wf_insert [OF wf1 None] by (simp add: slot_claim_def)
  next
    case (Some r)
    with claimed have st: "stored_claim hash r = Inr c" and s': "s' = s1"
      by (auto simp: idempotency_claim_tx_def s1_def)
    from Some have r: "r \<in> set (db_idempotency s1)" by (simp add: find_key_Some)
    have "live_slot now (slot_of scope key s) = slot_of_row r"
      unfolding live [symmetric] by (simp add: slot_of_def Some)
    moreover have "slot_of_row r \<noteq> Free" by (simp add: slot_of_row_def split: option.split)
    ultimately show ?thesis
      using st wf1 live unfolding s' stored_claim_row [OF wf1 r]
      by (cases "slot_of_row r") (auto simp: slot_claim_def split: if_splits)
  qed
  then show "slot_claim (slot_of scope key s) hash now expires = (Inr c, slot_of scope key s')"
    and "keys_wf s'" by auto
qed

lemma claim_total:
  assumes wf: "keys_wf s" and valid: "validate_key scope key hash now expires = Inr ()"
  shows "fst (commit (idempotency_claim_tx scope key hash now expires) s)
    = fst (slot_claim (slot_of scope key s) hash now expires)"
proof -
  define s1 where "s1 = s\<lparr>db_idempotency := sql_delete (is_expired_key now) (db_idempotency s)\<rparr>"
  have live: "live_slot now (slot_of scope key s) = slot_of scope key s1" and wf1: "keys_wf s1"
    unfolding s1_def by (rule slot_of_delete [OF wf, symmetric], rule keys_wf_delete [OF wf])
  have eq: "idempotency_claim_tx scope key hash now expires s
    = (case find_key s1 scope key of
        None \<Rightarrow> Inr (Acquired, s1\<lparr>db_idempotency :=
          db_idempotency s1 @ [fresh_key scope key hash now expires]\<rparr>)
      | Some row \<Rightarrow> tx_lift (stored_claim hash row) s1)"
    using valid by (simp add: idempotency_claim_tx_def delete_keys_def tx_defs s1_def
        split: option.split)
  show ?thesis
  proof (cases "find_key s1 scope key")
    case None
    then have "slot_of scope key s1 = Free" by (simp add: slot_of_def)
    with None show ?thesis unfolding slot_claim_def live commit_def eq by simp
  next
    case (Some r)
    then have r: "r \<in> set (db_idempotency s1)" and sl: "slot_of scope key s1 = slot_of_row r"
      by (simp_all add: find_key_Some slot_of_def)
    have "slot_of_row r \<noteq> Free" by (simp add: slot_of_row_def split: option.split)
    then show ?thesis
      unfolding slot_claim_def live commit_def eq Some sl option.case stored_claim_row [OF wf1 r]
      by (cases "slot_of_row r") (auto simp: tx_lift_def tx_return_def tx_fail_def)
  qed
qed

lemma claim_succeeds:
  assumes "keys_wf s" and "validate_key scope key hash now expires = Inr ()"
    and "fst (slot_claim (slot_of scope key s) hash now expires) = Inr c"
  obtains s' where "idempotency_claim_tx scope key hash now expires s = Inr (c, s')"
  using claim_total [OF assms(1,2)] assms(3) that
  by (cases "idempotency_claim_tx scope key hash now expires s") (auto simp: commit_def)

lemma complete_refines:
  assumes wf: "keys_wf s" and ok: "idempotency_complete scope key hash response s = Inr (u, s')"
    and "ir_status response \<le> u16_max"
  shows "slot_complete (slot_of scope key s) hash response = Some (slot_of scope key s')"
    and "keys_wf s'"
proof -
  from ok have s': "s' = s\<lparr>db_idempotency := sql_update (is_open_key scope key hash)
      (with_response response) (db_idempotency s)\<rparr>"
    and "rows_affected (is_open_key scope key hash) (db_idempotency s) \<noteq> 0"
    by (auto simp: idempotency_complete_def)
  then obtain r where r: "r \<in> set (db_idempotency s)" "is_open_key scope key hash r"
    by (auto simp: rows_affected_eq_0_iff)
  from wf have "distinct (map (\<lambda>r. (ik_scope r, ik_key r)) (db_idempotency s))"
    by (simp add: keys_wf_def)
  from find_id_unique [OF this r(1)] r(2) have f: "find_key s scope key = Some r"
    by (simp add: find_key_def has_key_def [abs_def] is_open_key_def)
  then have "find_key s' scope key = Some (with_response response r)"
    unfolding s' find_key_complete using r(2) by simp
  with f r(2) show "slot_complete (slot_of scope key s) hash response = Some (slot_of scope key s')"
    by (simp add: slot_of_def slot_of_row_def slot_complete_def is_open_key_def with_response_def)
  show "keys_wf s'" unfolding s' by (rule keys_wf_complete [OF wf assms(3)])
qed

text \<open>A step on behalf of another key, or a clean-up, at a time up to \<open>t\<close>.\<close>

inductive other_key_step :: "str \<Rightarrow> str \<Rightarrow> time \<Rightarrow> db \<Rightarrow> db \<Rightarrow> bool" for scope key t where
  claim: "(scope', key') \<noteq> (scope, key) \<Longrightarrow> now \<le> t \<Longrightarrow>
     idempotency_claim_tx scope' key' hash now expires s = Inr (c, s') \<Longrightarrow>
     other_key_step scope key t s s'"
| complete: "(scope', key') \<noteq> (scope, key) \<Longrightarrow> ir_status r \<le> u16_max \<Longrightarrow>
     idempotency_complete scope' key' hash r s = Inr (u, s') \<Longrightarrow> other_key_step scope key t s s'"
| forget: "(scope', key') \<noteq> (scope, key) \<Longrightarrow> idempotency_forget scope' key' s = Inr (b, s') \<Longrightarrow>
     other_key_step scope key t s s'"
| cleanup: "now \<le> t \<Longrightarrow> idempotency_cleanup_expired now s = Inr (n, s') \<Longrightarrow>
     other_key_step scope key t s s'"

lemma find_key_delete_other:
  assumes "keys_wf s"
  shows "find_key (s\<lparr>db_idempotency := sql_delete P (db_idempotency s)\<rparr>) scope key
    = (case find_key s scope key of None \<Rightarrow> None | Some r \<Rightarrow> if P r then None else Some r)"
  using assms find_distinct_filter [of "db_idempotency s" scope key P]
  unfolding find_key_delete by (simp add: keys_wf_def find_key_def)

lemma slot_of_append_other:
  assumes "(scope', key') \<noteq> (scope, key)"
  shows "slot_of scope key (s\<lparr>db_idempotency := db_idempotency s @ [fresh_key scope' key' h now x]\<rparr>)
    = slot_of scope key s"
  using assms
  by (auto simp: slot_of_def find_key_def find_append fresh_key_def has_key_def split: option.split)

lemma not_expired_earlier: "\<not> expired_slot t sl \<Longrightarrow> now \<le> t \<Longrightarrow> live_slot now sl = sl"
  by (cases sl) (auto simp: live_slot_def)

lemma other_key_step_keeps:
  assumes "other_key_step scope key t s s'" and "keys_wf s"
  shows "keys_wf s'" and "\<not> expired_slot t (slot_of scope key s) \<Longrightarrow>
    slot_of scope key s' = slot_of scope key s"
  using assms
proof (induction rule: other_key_step.induct)
  case (claim scope' key' now hash expires s c s')
  { case 1 then show ?case using claim_refines(2) [OF _ claim(3)] by blast
  next
    case 2
    define s1 where "s1 = s\<lparr>db_idempotency := sql_delete (is_expired_key now) (db_idempotency s)\<rparr>"
    have "s' = s1 \<or>
        s' = s1\<lparr>db_idempotency := db_idempotency s1 @ [fresh_key scope' key' hash now expires]\<rparr>"
      using claim(3) by (auto simp: idempotency_claim_tx_def s1_def split: option.splits)
    with claim(1) have "slot_of scope key s' = slot_of scope key s1"
      by (auto simp: slot_of_append_other)
    also have "\<dots> = slot_of scope key s"
      unfolding s1_def slot_of_delete [OF 2(2)] by (rule not_expired_earlier [OF 2(1) claim(2)])
    finally show ?case . }
next
  case (complete scope' key' r hash s u s')
  { case 1 then show ?case by (rule complete_refines(2) [OF _ complete(3,2)])
  next
    case 2
    from complete(3) have s': "s' = s\<lparr>db_idempotency := sql_update (is_open_key scope' key' hash)
        (with_response r) (db_idempotency s)\<rparr>"
      by (auto simp: idempotency_complete_def)
    show ?case
      unfolding s' slot_of_def find_key_complete using complete(1)
      by (auto simp: is_open_key_def has_key_def dest: find_key_Some split: option.split) }
next
  case (forget scope' key' s b s')
  then have s': "s' = s\<lparr>db_idempotency := sql_delete (has_key scope' key') (db_idempotency s)\<rparr>"
    by (auto simp: idempotency_forget_def)
  { case 1 then show ?case unfolding s' by (rule keys_wf_delete)
  next
    case 2 show ?case
      unfolding slot_of_def s' find_key_delete_other [OF 2(2)] using forget(1)
      by (auto simp: has_key_def dest: find_key_Some split: option.split) }
next
  case (cleanup now s n s')
  then have s': "s' = s\<lparr>db_idempotency := sql_delete (is_expired_key now) (db_idempotency s)\<rparr>"
    by (auto simp: idempotency_cleanup_expired_def)
  { case 1 then show ?case unfolding s' by (rule keys_wf_delete)
  next
    case 2 show ?case
      unfolding s' slot_of_delete [OF 2(2)] by (rule not_expired_earlier [OF 2(1) cleanup(1)]) }
qed

interpretation key: replay_slot keys_wf "slot_of scope key" "idempotency_claim_tx scope key"
    "idempotency_complete scope key" "other_key_step scope key"
  for scope key
  by unfold_locales (rule claim_refines complete_refines other_key_step_keeps; assumption)+

text \<open>The store of the idempotency keys, whoever uses it and whenever.\<close>

inductive key_store_step :: "db \<Rightarrow> db \<Rightarrow> bool" where
  claim: "idempotency_claim_tx scope key hash now expires s = Inr (c, s') \<Longrightarrow> key_store_step s s'"
| complete: "ir_status r \<le> u16_max \<Longrightarrow> idempotency_complete scope key hash r s = Inr (u, s') \<Longrightarrow>
     key_store_step s s'"
| forget: "idempotency_forget scope key s = Inr (b, s') \<Longrightarrow> key_store_step s s'"
| cleanup: "idempotency_cleanup_expired now s = Inr (n, s') \<Longrightarrow> key_store_step s s'"

lemma key_store_step_wf: "key_store_step s s' \<Longrightarrow> keys_wf s \<Longrightarrow> keys_wf s'"
  by (induction rule: key_store_step.induct)
     (auto intro: claim_refines(2) complete_refines(2)
        simp: idempotency_forget_def idempotency_cleanup_expired_def keys_wf_delete)

end
