(* ===== verification/Service_Base.thy ===== *)
theory Service_Base
  imports Database
begin

text \<open>
  The service's error type and its rendering as an HTTP problem (crates/service/src/error.rs). A
  message that formats another error keeps that error (\<open>to\_string\<close> is its rendering).
\<close>

datatype detail =
    Plain str
  | OfStorage storage_error
  | OfDomain domain_error
  | Formatted str "str list"

datatype service_error =
    DataDirectoryUnavailable
  | TlsRequiredForLan str
  | TlsConfiguration str
  | ServiceIo
  | Join
  | InvalidRequest str
  | ResourceNotFound
  | ResourceConflict detail
  | ConflictDetails str str json
  | Unauthorized str
  | Forbidden str
  | RateLimitedRequest str
  | StorageFailure detail
  | InternalFailure str

record problem_details =
  pd_kind :: str
  pd_title :: str
  pd_status :: u16
  pd_detail :: detail
  pd_code :: "str option"
  pd_meta :: "json option"

definition problem ::
  "u16 \<Rightarrow> str \<Rightarrow> str \<Rightarrow> detail \<Rightarrow> str option \<Rightarrow> json option \<Rightarrow> problem_details" where
  "problem status kind title detail code meta =
     \<lparr>pd_kind = ''urn:audiobookai:problem:'' @ kind, pd_title = title, pd_status = status,
      pd_detail = detail, pd_code = code, pd_meta = meta\<rparr>"

definition into_response :: "service_error \<Rightarrow> problem_details" where
  "into_response e = (case e of
      InvalidRequest d \<Rightarrow> problem 400 ''invalid-request'' ''Invalid request'' (Plain d) None None
    | ResourceNotFound \<Rightarrow>
        problem 404 ''not-found'' ''Not found'' (Plain ''resource not found'') None None
    | ResourceConflict d \<Rightarrow> problem 409 ''conflict'' ''Conflict'' d None None
    | ConflictDetails code d meta \<Rightarrow>
        problem 409 ''conflict'' ''Conflict'' (Plain d) (Some code) (Some meta)
    | Unauthorized d \<Rightarrow>
        problem 401 ''unauthorized'' ''Authentication required'' (Plain d) None None
    | Forbidden d \<Rightarrow> problem 403 ''forbidden'' ''Forbidden'' (Plain d) None None
    | RateLimitedRequest d \<Rightarrow>
        problem 429 ''rate-limited'' ''Too many requests'' (Plain d) None None
    | TlsRequiredForLan address \<Rightarrow>
        problem 412 ''tls-required'' ''TLS required''
          (Plain (''configure TLS before binding to '' @ address)) None None
    | _ \<Rightarrow> problem 500 ''internal'' ''Internal error''
        (Plain ''the operation could not be completed'') None None)"

text \<open>The detail of an internal failure never reaches the client.\<close>

lemma internal_detail_hidden:
  "pd_status (into_response e) = 500 \<Longrightarrow>
     pd_detail (into_response e) = Plain ''the operation could not be completed''
     \<and> pd_code (into_response e) = None \<and> pd_meta (into_response e) = None"
  by (cases e) (simp_all add: into_response_def problem_def)

lemma into_response_is_error: "400 \<le> pd_status (into_response e)"
  by (cases e) (simp_all add: into_response_def problem_def)

end
