(* ===== verification/Idempotency_Middleware.thy ===== *)
theory Idempotency_Middleware
  imports Idempotency_Repository Service_Base
begin

text \<open>
  The idempotency middleware of the HTTP service (crates/service/src/idempotency.rs): which requests
  bypass it, the claim before the handler runs and the completion or the release of the claim
  afterwards. The handler runs between the two halves, so requests interleave there.

  Parameters, in the record \<open>http_env\<close>: UUID parsing (crate uuid), the BLAKE3 digest as hex text
  (crate blake3), the visible text of a header and the validity of a status code and of a header
  value (crate http).
\<close>

section \<open>Requests\<close>

datatype http_method = Get | Head | Options | Post | Put | Patch | Delete | OtherMethod str

primrec method_text :: "http_method \<Rightarrow> str" where
  "method_text Get = ''GET''"
| "method_text Head = ''HEAD''"
| "method_text Options = ''OPTIONS''"
| "method_text Post = ''POST''"
| "method_text Put = ''PUT''"
| "method_text Patch = ''PATCH''"
| "method_text Delete = ''DELETE''"
| "method_text (OtherMethod m) = m"

record http_env =
  he_is_uuid :: "str \<Rightarrow> bool"
  he_digest :: "str \<Rightarrow> str"
  he_header_text :: "str \<Rightarrow> str option"
  he_status_ok :: "u16 \<Rightarrow> bool"
  he_header_ok :: "str \<Rightarrow> bool"

text \<open>A body is the bytes it yields, or \<open>None\<close> when reading it fails; \<open>hp\_replayed\<close> is the header
  \<open>idempotency-replayed\<close>.\<close>

record http_request =
  hq_method :: http_method
  hq_path :: str
  hq_uri :: str
  hq_content_type :: "str option"
  hq_key :: "str option"
  hq_body :: "str option"

record http_response =
  hp_status :: u16
  hp_content_type :: "str option"
  hp_body :: "str option"
  hp_replayed :: bool

section \<open>Routes that bypass the middleware\<close>

text \<open>\<open>str::split('/')\<close> and its inverse.\<close>

fun split_slash :: "str \<Rightarrow> str list" where
  "split_slash [] = [[]]"
| "split_slash (c # cs) =
     (if c = CHR ''/'' then [] # split_slash cs
      else case split_slash cs of [] \<Rightarrow> [[c]] | w # ws \<Rightarrow> (c # w) # ws)"

fun join_slash :: "str list \<Rightarrow> str" where
  "join_slash [] = []"
| "join_slash [w] = w"
| "join_slash (w # ws) = w @ CHR ''/'' # join_slash ws"

definition providers_prefix :: str where
  "providers_prefix = ''/api/v1/providers/''"

definition is_sensitive_provider_model_route :: "http_env \<Rightarrow> http_method \<Rightarrow> str \<Rightarrow> bool" where
  "is_sensitive_provider_model_route env meth path =
     (case strip_prefix providers_prefix path of
        None \<Rightarrow> False
      | Some remainder \<Rightarrow> (case split_slash remainder of
          provider # resource # rest \<Rightarrow>
            he_is_uuid env provider
            \<and> ((meth \<in> {Post, Delete} \<and> resource = ''models'' \<and> rest = [])
               \<or> (meth = Post \<and> resource = ''actions''
                  \<and> rest \<in> {[''load-model''], [''unload-model''], [''switch-model'']}))
        | _ \<Rightarrow> False))"

definition is_secret_bearing_route :: "http_env \<Rightarrow> http_method \<Rightarrow> str \<Rightarrow> bool" where
  "is_secret_bearing_route env meth path =
     (if (meth = Post \<and> path \<in> {''/api/v1/providers'', ''/api/v1/provider-models/discover'',
            ''/api/v1/providers/mlx-audio/models'', ''/api/v1/secrets/unlock'',
            ''/api/v1/settings/lan/tokens''})
         \<or> (meth = Put \<and> path = ''/api/v1/settings/lan/password'') then True
      else if meth = Patch
      then (case strip_prefix providers_prefix path of
          None \<Rightarrow> False
        | Some i \<Rightarrow> i \<noteq> [] \<and> CHR ''/'' \<notin> set i \<and> he_is_uuid env i)
      else is_sensitive_provider_model_route env meth path)"

lemma split_slash_not_Nil [simp]: "split_slash s \<noteq> []"
  by (induction s) (auto split: list.split)

lemma join_split_slash: "join_slash (split_slash s) = s"
proof (induction s)
  case (Cons c cs)
  then show ?case
    by (cases "split_slash cs" rule: join_slash.cases) auto
qed simp

lemma split_slash_word: "CHR ''/'' \<notin> set w \<Longrightarrow> split_slash w = [w]"
  by (induction w) auto

lemma split_slash_append: "CHR ''/'' \<notin> set w \<Longrightarrow> split_slash (w @ CHR ''/'' # s) = w # split_slash s"
  by (induction w) auto

lemma split_slash_no_slash: "w \<in> set (split_slash s) \<Longrightarrow> CHR ''/'' \<notin> set w"
  by (induction s arbitrary: w) (auto split: list.splits if_splits)

lemma split_slash_eq_iff:
  assumes "ws \<noteq> []" and "\<And>w. w \<in> set ws \<Longrightarrow> CHR ''/'' \<notin> set w"
  shows "split_slash s = ws \<longleftrightarrow> s = join_slash ws"
proof
  assume "split_slash s = ws" then show "s = join_slash ws" using join_split_slash by metis
next
  have "split_slash (join_slash ws) = ws"
    using assms by (induction ws rule: join_slash.induct) (auto simp: split_slash_word split_slash_append)
  then show "s = join_slash ws \<Longrightarrow> split_slash s = ws" by simp
qed

lemma sensitive_route_iff:
  "is_sensitive_provider_model_route env meth path \<longleftrightarrow>
     (\<exists>i. he_is_uuid env i \<and> CHR ''/'' \<notin> set i \<and>
        ((meth \<in> {Post, Delete} \<and> path = providers_prefix @ i @ ''/models'')
       \<or> (meth = Post \<and> path \<in> {providers_prefix @ i @ ''/actions/load-model'',
            providers_prefix @ i @ ''/actions/unload-model'',
            providers_prefix @ i @ ''/actions/switch-model''})))"
  (is "?matches \<longleftrightarrow> ?spec")
proof
  assume ?matches
  then obtain rem i res rest where path: "path = providers_prefix @ rem"
    and split: "split_slash rem = i # res # rest" and uuid: "he_is_uuid env i"
    and route: "(meth \<in> {Post, Delete} \<and> res = ''models'' \<and> rest = [])
      \<or> (meth = Post \<and> res = ''actions''
         \<and> rest \<in> {[''load-model''], [''unload-model''], [''switch-model'']})"
    by (auto simp: is_sensitive_provider_model_route_def strip_prefix_Some_iff
        split: option.splits list.splits)
  have i: "CHR ''/'' \<notin> set i" by (rule split_slash_no_slash [of _ rem]) (simp add: split)
  have rem: "rem = join_slash (i # res # rest)" using join_split_slash [of rem] by (simp add: split)
  from route show ?spec
    by (intro exI [of _ i]) (auto simp: uuid i path rem)
next
  assume ?spec
  then obtain i where i: "he_is_uuid env i" "CHR ''/'' \<notin> set i"
    and route: "(meth \<in> {Post, Delete} \<and> path = providers_prefix @ i @ ''/models'')
       \<or> (meth = Post \<and> path \<in> {providers_prefix @ i @ ''/actions/load-model'',
            providers_prefix @ i @ ''/actions/unload-model'',
            providers_prefix @ i @ ''/actions/switch-model''})" by auto
  have "split_slash (i @ ''/models'') = [i, ''models'']"
    and "split_slash (i @ ''/actions/'' @ x) = i # ''actions'' # split_slash x" for x
    using split_slash_append [OF i(2), of "''models''"]
      split_slash_append [OF i(2), of "''actions/'' @ x"] by simp_all
  from route this(1) this(2) [of "''load-model''"] this(2) [of "''unload-model''"]
    this(2) [of "''switch-model''"] i(1)
  show ?matches by (auto simp: is_sensitive_provider_model_route_def)
qed

lemma secret_route_iff:
  "is_secret_bearing_route env meth path \<longleftrightarrow>
      (meth = Post \<and> path \<in> {''/api/v1/providers'', ''/api/v1/provider-models/discover'',
         ''/api/v1/providers/mlx-audio/models'', ''/api/v1/secrets/unlock'',
         ''/api/v1/settings/lan/tokens''})
    \<or> (meth = Put \<and> path = ''/api/v1/settings/lan/password'')
    \<or> (\<exists>i. he_is_uuid env i \<and> CHR ''/'' \<notin> set i \<and>
        ((meth = Patch \<and> i \<noteq> [] \<and> path = providers_prefix @ i)
       \<or> (meth \<in> {Post, Delete} \<and> path = providers_prefix @ i @ ''/models'')
       \<or> (meth = Post \<and> path \<in> {providers_prefix @ i @ ''/actions/load-model'',
            providers_prefix @ i @ ''/actions/unload-model'',
            providers_prefix @ i @ ''/actions/switch-model''})))"
proof (cases "meth = Patch")
  case True
  then show ?thesis
    by (auto simp: is_secret_bearing_route_def strip_prefix_Some_iff split: option.splits)
next
  case False
  then show ?thesis
    unfolding is_secret_bearing_route_def sensitive_route_iff by auto
qed

section \<open>Before the handler\<close>

definition max_json_body_bytes :: nat where
  "max_json_body_bytes = 2 * 1024 * 1024"

definition max_replay_body_bytes :: nat where
  "max_replay_body_bytes = 16 * 1024 * 1024"

definition read_body :: "str option \<Rightarrow> nat \<Rightarrow> str option" where
  "read_body body bound = (case body of None \<Rightarrow> None | Some b \<Rightarrow> if length b \<le> bound then Some b else None)"

fun contains_ws :: "str \<Rightarrow> bool" where
  "contains_ws [] = False"
| "contains_ws (c # cs) = (ws_len (c # cs) > 0 \<or> contains_ws cs)"

definition bypasses :: "http_env \<Rightarrow> http_request \<Rightarrow> bool" where
  "bypasses env q \<longleftrightarrow> is_secret_bearing_route env (hq_method q) (hq_path q)
     \<or> hq_method q \<in> {Get, Head, Options} \<or> hq_path q = ''/api/v1/auth/bootstrap''
     \<or> (let content_type = (case Option.bind (hq_content_type q) (he_header_text env) of
            None \<Rightarrow> [] | Some t \<Rightarrow> t)
        in strip_prefix ''application/json'' content_type = None)"

record held_claim =
  hc_scope :: str
  hc_key :: str
  hc_hash :: str

definition claim_of :: "http_env \<Rightarrow> http_request \<Rightarrow> str \<Rightarrow> str \<Rightarrow> held_claim" where
  "claim_of env q key body =
     \<lparr>hc_scope = method_text (hq_method q) @ '' '' @ hq_path q, hc_key = key,
      hc_hash = he_digest env (method_text (hq_method q) @ hq_uri q @ body)\<rparr>"

text \<open>The request is checked and identified before the database is touched.\<close>

definition identify :: "http_env \<Rightarrow> http_request \<Rightarrow> service_error + held_claim" where
  "identify env q = (case Option.bind (hq_key q) (he_header_text env) of
      None \<Rightarrow> Inl (InvalidRequest
        ''Idempotency-Key is required for state-changing JSON requests'')
    | Some key \<Rightarrow>
        if length key > 200 \<or> contains_ws key
        then Inl (InvalidRequest ''Idempotency-Key must be at most 200 non-whitespace characters'')
        else (case read_body (hq_body q) max_json_body_bytes of
            None \<Rightarrow> Inl (InvalidRequest ''JSON request body exceeds 2 MiB'')
          | Some body \<Rightarrow> Inr (claim_of env q key body)))"

datatype admission =
    Bypass
  | Refuse service_error
  | Answer http_response
  | Dispatch held_claim

definition replay_response :: "http_env \<Rightarrow> idempotent_response \<Rightarrow> service_error + http_response" where
  "replay_response env stored =
     (if \<not> he_status_ok env (ir_status stored)
      then Inl (InternalFailure ''stored response status is invalid'')
      else if \<not> he_header_ok env (ir_content_type stored)
      then Inl (InternalFailure ''stored content type is invalid'')
      else Inr \<lparr>hp_status = ir_status stored, hp_content_type = Some (ir_content_type stored),
             hp_body = Some (ir_body stored), hp_replayed = True\<rparr>)"

definition claim_hours :: int where
  "claim_hours = 24 * 3600 * 1000000000"

definition enforce_admit :: "http_env \<Rightarrow> http_request \<Rightarrow> time \<Rightarrow> db \<Rightarrow> admission \<times> db" where
  "enforce_admit env q now s =
     (if bypasses env q then (Bypass, s)
      else case identify env q of
        Inl e \<Rightarrow> (Refuse e, s)
      | Inr c \<Rightarrow> (case commit (idempotency_claim_tx (hc_scope c) (hc_key c) (hc_hash c) now
                       (now + claim_hours)) s of
            (Inl e, s') \<Rightarrow> (Refuse (ResourceConflict (OfStorage e)), s')
          | (Inr (Replay stored), s') \<Rightarrow> (case replay_response env stored of
                Inl e \<Rightarrow> (Refuse e, s') | Inr r \<Rightarrow> (Answer r, s'))
          | (Inr InProgress, s') \<Rightarrow> (Refuse (ResourceConflict
                (Plain ''a request with this idempotency key is still in progress'')), s')
          | (Inr Acquired, s') \<Rightarrow> (Dispatch c, s')))"

section \<open>After the handler\<close>

definition is_server_error :: "u16 \<Rightarrow> bool" where
  "is_server_error status \<longleftrightarrow> 500 \<le> status \<and> status < 600"

definition stored_response :: "http_env \<Rightarrow> http_response \<Rightarrow> str \<Rightarrow> idempotent_response" where
  "stored_response env r body =
     \<lparr>ir_status = hp_status r, ir_body = body,
      ir_content_type = (case Option.bind (hp_content_type r) (he_header_text env) of
         Some t \<Rightarrow> t | None \<Rightarrow> ''application/octet-stream'')\<rparr>"

definition enforce_finish ::
  "http_env \<Rightarrow> held_claim \<Rightarrow> http_response \<Rightarrow> db \<Rightarrow> (service_error + http_response) \<times> db" where
  "enforce_finish env c r s = (case read_body (hp_body r) max_replay_body_bytes of
      None \<Rightarrow>
        (Inl (InternalFailure ''response exceeded the idempotency replay limit''),
         snd (commit (idempotency_forget (hc_scope c) (hc_key c)) s))
    | Some body \<Rightarrow>
        if is_server_error (hp_status r)
        then (Inr r, snd (commit (idempotency_forget (hc_scope c) (hc_key c)) s))
        else (case commit (idempotency_complete (hc_scope c) (hc_key c) (hc_hash c)
                     (stored_response env r body)) s of
            (Inl e, s') \<Rightarrow> (Inl (StorageFailure (OfStorage e)), s')
          | (Inr _, s') \<Rightarrow> (Inr r, s')))"

end
