(* ===== verification/Idempotency_Properties.thy ===== *)
theory Idempotency_Properties
  imports Idempotency_Middleware
begin

text \<open>
  The properties of the idempotency store and of the middleware that uses it: the repository
  implements the state machine of a key, a request is dispatched once per key and then answered
  with the stored response, a server error releases the key, and the routes that carry secrets
  bypass the store.
\<close>

section \<open>Lemmas on the middleware\<close>

lemma enforce_admit_dispatched:
  assumes "enforce_admit env q now s = (Dispatch c, s')"
  shows "identify env q = Inr c" and "\<not> bypasses env q"
    and "idempotency_claim_tx (hc_scope c) (hc_key c) (hc_hash c) now (now + claim_hours) s
      = Inr (Acquired, s')"
  using assms
  by (auto simp: enforce_admit_def commit_def
      split: if_splits sum.splits prod.splits idempotency_claim.splits)

lemma claim_validated:
  "idempotency_claim_tx scope key hash now expires s = Inr r \<Longrightarrow>
     validate_key scope key hash now expires = Inr ()"
  by (cases r) (auto simp: idempotency_claim_tx_def)

lemma validate_key_later:
  "validate_key scope key hash now expires = Inr () \<Longrightarrow> now' < expires' \<Longrightarrow>
     validate_key scope key hash now' expires' = Inr ()"
  by (auto simp: validate_key_def split: if_splits)

lemma claim_hours_pos: "now < now + claim_hours"
  by (simp add: claim_hours_def)

lemma enforce_finish_stored:
  assumes "enforce_finish env c r s = (Inr r, s')" and "\<not> is_server_error (hp_status r)"
  obtains body where "read_body (hp_body r) max_replay_body_bytes = Some body"
    and "idempotency_complete (hc_scope c) (hc_key c) (hc_hash c) (stored_response env r body) s
      = Inr ((), s')"
  using assms
  by (auto simp: enforce_finish_def commit_def split: option.splits sum.splits prod.splits)

section \<open>Samples\<close>

definition sample_env :: http_env where
  "sample_env = \<lparr>he_is_uuid = (\<lambda>t. length t = 36), he_digest = (\<lambda>t. CHR ''h'' # t), he_header_text = Some,
     he_status_ok = (\<lambda>n. 100 \<le> n \<and> n < 1000), he_header_ok = (\<lambda>_. True)\<rparr>"

definition sample_request :: http_request where
  "sample_request = \<lparr>hq_method = Post, hq_path = ''/api/v1/jobs'', hq_uri = ''/api/v1/jobs'',
     hq_content_type = Some ''application/json'', hq_key = Some ''k1'', hq_body = Some ''{}''\<rparr>"

definition no_keys_db :: db where
  "no_keys_db = \<lparr>db_providers = [], db_projects = [], db_export_profiles = [], db_chapters = [],
     db_segments = [], db_budgets = [], db_period_usage = [], db_reservations = [],
     db_allocations = [], db_jobs = [], db_units = [], db_dependencies = [], db_attempts = [],
     db_outputs = [], db_ledger = [], db_ledger_last = 0, db_idempotency = [],
     db_rate_cards = []\<rparr>"

definition sample_claim_held :: held_claim where
  "sample_claim_held = \<lparr>hc_scope = ''POST /api/v1/jobs'', hc_key = ''k1'',
     hc_hash = ''hPOST/api/v1/jobs{}''\<rparr>"

definition sample_held_db :: db where
  "sample_held_db = no_keys_db\<lparr>db_idempotency :=
     [fresh_key ''POST /api/v1/jobs'' ''k1'' ''hPOST/api/v1/jobs{}'' 5 (5 + claim_hours)]\<rparr>"

definition sample_response :: http_response where
  "sample_response = \<lparr>hp_status = 201, hp_content_type = Some ''application/json'',
     hp_body = Some ''ok'', hp_replayed = False\<rparr>"

lemma no_keys_wf: "keys_wf no_keys_db"
  by (simp add: keys_wf_def no_keys_db_def)

lemma sample_identified:
  "\<not> bypasses sample_env sample_request"
  "identify sample_env sample_request = Inr sample_claim_held"
  by (simp_all add: bypasses_def is_secret_bearing_route_def is_sensitive_provider_model_route_def
      providers_prefix_def identify_def read_body_def max_json_body_bytes_def claim_of_def
      is_ascii_ws_def is_ws_tail_2_def sample_claim_held_def sample_env_def sample_request_def)

lemma sample_validated:
  "validate_key (hc_scope sample_claim_held) (hc_key sample_claim_held) (hc_hash sample_claim_held)
     5 (5 + claim_hours) = Inr ()"
  by (simp add: validate_key_def sample_claim_held_def str_is_blank_ascii is_ascii_ws_def
      claim_hours_def)

lemma sample_claimed_key:
  "idempotency_claim_tx (hc_scope sample_claim_held) (hc_key sample_claim_held)
     (hc_hash sample_claim_held) 5 (5 + claim_hours) no_keys_db = Inr (Acquired, sample_held_db)"
  unfolding idempotency_claim_tx_def sample_validated
  by (simp add: tx_defs delete_keys_def find_key_def no_keys_db_def sample_held_db_def
      sample_claim_held_def sql_delete_def)

lemma sample_dispatched:
  "enforce_admit sample_env sample_request 5 no_keys_db = (Dispatch sample_claim_held, sample_held_db)"
  by (simp add: enforce_admit_def sample_identified commit_def sample_claimed_key)

lemma sample_finished:
  "enforce_finish sample_env sample_claim_held sample_response sample_held_db
    = (Inr sample_response, snd (enforce_finish sample_env sample_claim_held sample_response sample_held_db))"
  by (simp add: enforce_finish_def read_body_def sample_response_def max_replay_body_bytes_def
      is_server_error_def commit_def idempotency_complete_def tx_defs rows_affected_def
      sample_held_db_def no_keys_db_def sample_claim_held_def is_open_key_def has_key_def fresh_key_def)

section \<open>Properties\<close>

text \<open>
  C37. The repository implements the state machine of a key. For well-formed tables and a valid key,
  \<open>claim\<close> gives exactly the answer of the machine in the key's current state (acquired when it
  is free or expired, in progress or the stored response when the request is the same, a mismatch
  otherwise) and leaves the key in the machine's next state; \<open>complete\<close> goes through only on a
  running claim with the same request and leaves the response.
\<close>

theorem key_store_refines_slot:
  assumes "keys_wf s"
  shows "(validate_key scope key hash now expires = Inr () \<longrightarrow>
      fst (commit (idempotency_claim_tx scope key hash now expires) s)
        = fst (slot_claim (slot_of scope key s) hash now expires))
    \<and> (\<forall>c s'. idempotency_claim_tx scope key hash now expires s = Inr (c, s') \<longrightarrow>
      slot_claim (slot_of scope key s) hash now expires = (Inr c, slot_of scope key s'))
    \<and> (\<forall>s'. ir_status response \<le> u16_max
      \<and> idempotency_complete scope key hash response s = Inr ((), s') \<longrightarrow>
      slot_complete (slot_of scope key s) hash response = Some (slot_of scope key s'))"
  using claim_total [OF assms] claim_refines(1) [OF assms] complete_refines(1) [OF assms] by blast

theorem key_store_refines_slot_witness:
  "slot_claim (slot_of (hc_scope sample_claim_held) (hc_key sample_claim_held) no_keys_db)
     (hc_hash sample_claim_held) 5 (5 + claim_hours)
   = (Inr Acquired, slot_of (hc_scope sample_claim_held) (hc_key sample_claim_held) sample_held_db)"
  using key_store_refines_slot [OF no_keys_wf] sample_claimed_key by blast



text \<open>
  C36. A retry gets the first answer. When the handler of a dispatched request has answered with
  anything but a server error, a later request with the same method, path, key and body is answered
  with the stored status, body and content type and marked as a replay, until the key expires.
\<close>

theorem retry_replays_response:
  assumes "keys_wf s0" and "enforce_admit env q now s0 = (Dispatch c, s1)"
    and "key.before (hc_scope c) (hc_key c) (now + claim_hours) s1 s2"
    and "enforce_finish env c r s2 = (Inr r, s3)"
    and "\<not> is_server_error (hp_status r)" and "hp_status r \<le> u16_max"
    and "key.before (hc_scope c) (hc_key c) (now + claim_hours) s3 s4"
    and "now' < now + claim_hours" and "identify env q' = Inr c" and "\<not> bypasses env q'"
    and "he_status_ok env (hp_status r)" and "he_header_ok env (ir_content_type (stored_response env r []))"
  shows "\<exists>body. hp_body r = Some body
    \<and> fst (enforce_admit env q' now' s4) = Answer \<lparr>hp_status = hp_status r,
           hp_content_type = Some (ir_content_type (stored_response env r body)),
           hp_body = Some body, hp_replayed = True\<rparr>"
proof -
  note claimed = enforce_admit_dispatched(3) [OF assms(2)]
  have wf1: "keys_wf s1" by (rule key.claim_wf [OF assms(1) claimed])
  have wf2: "keys_wf s2" by (rule key.before_wf [OF assms(3) wf1])
  obtain body where body: "read_body (hp_body r) max_replay_body_bytes = Some body"
    and stored: "idempotency_complete (hc_scope c) (hc_key c) (hc_hash c)
        (stored_response env r body) s2 = Inr ((), s3)"
    by (rule enforce_finish_stored [OF assms(4,5)])
  have ok: "ir_status (stored_response env r body) \<le> u16_max"
    using assms(6) by (simp add: stored_response_def)
  have wf4: "keys_wf s4"
    by (rule key.before_wf [OF assms(7) key.complete_wf [OF wf2 stored ok]])
  obtain e where e: "slot_of (hc_scope c) (hc_key c) s2 = Running (hc_hash c) e"
    and s3: "slot_of (hc_scope c) (hc_key c) s3 = Done (hc_hash c) (stored_response env r body) e"
    by (rule key.completed_slot [OF wf2 stored ok])
  have "e = now + claim_hours"
    using key.running_kept [OF assms(3) wf1 key.acquired_slot [OF assms(1) claimed]] e by auto
  then have "slot_of (hc_scope c) (hc_key c) s4
      = Done (hc_hash c) (stored_response env r body) (now + claim_hours)"
    using key.done_kept [OF assms(7) key.complete_wf [OF wf2 stored ok]] s3 by simp
  then have "fst (slot_claim (slot_of (hc_scope c) (hc_key c) s4) (hc_hash c) now' (now' + claim_hours))
      = Inr (Replay (stored_response env r body))"
    using assms(8) by (simp add: slot_claim_def live_slot_def)
  then obtain s5 where "idempotency_claim_tx (hc_scope c) (hc_key c) (hc_hash c) now'
      (now' + claim_hours) s4 = Inr (Replay (stored_response env r body), s5)"
    by (rule claim_succeeds
        [OF wf4 validate_key_later [OF claim_validated [OF claimed] claim_hours_pos]])
  then have "fst (enforce_admit env q' now' s4) = Answer \<lparr>hp_status = hp_status r,
      hp_content_type = Some (ir_content_type (stored_response env r body)),
      hp_body = Some body, hp_replayed = True\<rparr>"
    using assms(9-12)
    by (simp add: enforce_admit_def commit_def replay_response_def)
       (simp_all add: stored_response_def)
  moreover have "hp_body r = Some body"
    using body by (auto simp: read_body_def split: option.splits if_splits)
  ultimately show ?thesis by blast
qed

theorem retry_replays_response_witness:
  "\<exists>body. hp_body sample_response = Some body
     \<and> fst (enforce_admit sample_env sample_request 7
         (snd (enforce_finish sample_env sample_claim_held sample_response sample_held_db)))
       = Answer \<lparr>hp_status = hp_status sample_response,
           hp_content_type = Some (ir_content_type (stored_response sample_env sample_response body)),
           hp_body = Some body, hp_replayed = True\<rparr>"
  by (rule retry_replays_response [OF no_keys_wf sample_dispatched key.before.start sample_finished
        _ _ key.before.start _ sample_identified(2,1)])
     (auto simp: sample_response_def is_server_error_def u16_max_def claim_hours_def sample_env_def)

text \<open>
  A server error releases the key: after the handler of a dispatched request has answered with
  a status of 500 to 599, or its body was larger than the replay limit, the key is free and a retry
  of the request is dispatched again at once.
\<close>

theorem server_error_releases_key:
  assumes "keys_wf s0" and "enforce_admit env q now s0 = (Dispatch c, s1)"
    and "key.before (hc_scope c) (hc_key c) (now + claim_hours) s1 s2"
    and "is_server_error (hp_status r) \<or> read_body (hp_body r) max_replay_body_bytes = None"
  shows "slot_of (hc_scope c) (hc_key c) (snd (enforce_finish env c r s2)) = Free
    \<and> (\<exists>s4. enforce_admit env q now' (snd (enforce_finish env c r s2)) = (Dispatch c, s4))"
proof -
  note claimed = enforce_admit_dispatched(3) [OF assms(2)]
  have wf2: "keys_wf s2" by (rule key.before_wf [OF assms(3) key.claim_wf [OF assms(1) claimed]])
  define s3 where "s3 = s2\<lparr>db_idempotency :=
      sql_delete (has_key (hc_scope c) (hc_key c)) (db_idempotency s2)\<rparr>"
  have s3: "snd (enforce_finish env c r s2) = s3"
    using assms(4)
    by (auto simp: enforce_finish_def commit_def idempotency_forget_def tx_defs delete_keys_def s3_def
        split: option.split)
  have wf3: "keys_wf s3" unfolding s3_def by (rule keys_wf_delete [OF wf2])
  have free: "slot_of (hc_scope c) (hc_key c) s3 = Free"
    unfolding slot_of_def s3_def find_key_delete_other [OF wf2]
    by (auto dest: find_key_Some split: option.split)
  have "fst (slot_claim (slot_of (hc_scope c) (hc_key c) s3) (hc_hash c) now' (now' + claim_hours))
      = Inr Acquired" by (simp add: free slot_claim_def live_slot_def)
  then obtain s4 where "idempotency_claim_tx (hc_scope c) (hc_key c) (hc_hash c) now'
      (now' + claim_hours) s3 = Inr (Acquired, s4)"
    by (rule claim_succeeds
        [OF wf3 validate_key_later [OF claim_validated [OF claimed] claim_hours_pos]])
  with free show ?thesis
    unfolding s3 using enforce_admit_dispatched(1,2) [OF assms(2)]
    by (simp add: enforce_admit_def commit_def)
qed

definition failed_response :: http_response where
  "failed_response = \<lparr>hp_status = 503, hp_content_type = None, hp_body = Some [], hp_replayed = False\<rparr>"

theorem server_error_releases_key_witness:
  "\<exists>s4. enforce_admit sample_env sample_request 6
     (snd (enforce_finish sample_env sample_claim_held failed_response sample_held_db))
   = (Dispatch sample_claim_held, s4)"
  by (rule conjunct2 [OF server_error_releases_key [OF no_keys_wf sample_dispatched key.before.start]])
     (simp add: failed_response_def is_server_error_def)

text \<open>
  Routes that carry secrets bypass the store: the matcher accepts exactly the fixed routes that
  take or return credentials, the profile update of one provider, and the model routes below one
  provider, where the provider is a single path segment that parses as a UUID; a request to such a
  route is passed on, and nothing of it is recorded.
\<close>

theorem secret_routes_bypass:
  "(is_secret_bearing_route env meth path \<longleftrightarrow>
      (meth = Post \<and> path \<in> {''/api/v1/providers'', ''/api/v1/provider-models/discover'',
         ''/api/v1/providers/mlx-audio/models'', ''/api/v1/secrets/unlock'',
         ''/api/v1/settings/lan/tokens''})
    \<or> (meth = Put \<and> path = ''/api/v1/settings/lan/password'')
    \<or> (\<exists>i. he_is_uuid env i \<and> CHR ''/'' \<notin> set i \<and>
        ((meth = Patch \<and> i \<noteq> [] \<and> path = providers_prefix @ i)
       \<or> (meth \<in> {Post, Delete} \<and> path = providers_prefix @ i @ ''/models'')
       \<or> (meth = Post \<and> path \<in> {providers_prefix @ i @ ''/actions/load-model'',
            providers_prefix @ i @ ''/actions/unload-model'',
            providers_prefix @ i @ ''/actions/switch-model''}))))
   \<and> (is_secret_bearing_route env (hq_method q) (hq_path q) \<longrightarrow>
      enforce_admit env q now s = (Bypass, s))"
  using secret_route_iff [of env meth path] by (simp add: enforce_admit_def bypasses_def)

theorem secret_routes_bypass_witness:
  "enforce_admit sample_env (sample_request\<lparr>hq_path := ''/api/v1/secrets/unlock''\<rparr>) 5 no_keys_db
   = (Bypass, no_keys_db)"
  using conjunct2 [OF secret_routes_bypass [of sample_env Post "[]"
      "sample_request\<lparr>hq_path := ''/api/v1/secrets/unlock''\<rparr>" 5 no_keys_db]]
  by (simp add: is_secret_bearing_route_def sample_request_def)

end
