(* ===== verification/Service_Transactions.thy ===== *)
theory Service_Transactions
  imports Service_Base
begin

text \<open>
  Service operations call several repositories, one transaction each: an error stops the operation,
  but what earlier calls have committed stays. \<open>svc\<close> threads the database through such a
  sequence. A \<open>clock\<close> gives the instants of its successive readings of \<open>Utc::now()\<close>.
\<close>

type_synonym ('s, 'a) svc_on = "'s \<Rightarrow> (service_error + 'a) \<times> 's"

type_synonym 'a svc = "(db, 'a) svc_on"

type_synonym clock = "nat \<Rightarrow> time"

definition later :: "nat \<Rightarrow> clock \<Rightarrow> clock" where
  "later n clk = (\<lambda>i. clk (n + i))"

definition svc_return :: "'a \<Rightarrow> ('s, 'a) svc_on" where
  "svc_return x = (\<lambda>s. (Inr x, s))"

definition svc_fail :: "service_error \<Rightarrow> ('s, 'a) svc_on" where
  "svc_fail e = (\<lambda>s. (Inl e, s))"

definition svc_bind :: "('s, 'a) svc_on \<Rightarrow> ('a \<Rightarrow> ('s, 'b) svc_on) \<Rightarrow> ('s, 'b) svc_on" where
  "svc_bind m f = (\<lambda>s. case m s of (Inl e, s') \<Rightarrow> (Inl e, s') | (Inr a, s') \<Rightarrow> f a s')"

definition svc_then :: "('s, 'a) svc_on \<Rightarrow> ('s, 'b) svc_on \<Rightarrow> ('s, 'b) svc_on" where
  "svc_then m m' = svc_bind m (\<lambda>_. m')"

definition svc_gets :: "('s \<Rightarrow> 'a) \<Rightarrow> ('s, 'a) svc_on" where
  "svc_gets f = (\<lambda>s. (Inr (f s), s))"

definition svc_ensure :: "bool \<Rightarrow> service_error \<Rightarrow> ('s, unit) svc_on" where
  "svc_ensure b e = (if b then svc_return () else svc_fail e)"

definition svc_some :: "'a option \<Rightarrow> service_error \<Rightarrow> ('s, 'a) svc_on" where
  "svc_some x e = (case x of Some a \<Rightarrow> svc_return a | None \<Rightarrow> svc_fail e)"

definition svc_lift :: "service_error + 'a \<Rightarrow> ('s, 'a) svc_on" where
  "svc_lift r = (case r of Inl e \<Rightarrow> svc_fail e | Inr a \<Rightarrow> svc_return a)"

text \<open>A repository call with \<open>map\_err\<close>.\<close>

definition svc_call :: "(storage_error \<Rightarrow> service_error) \<Rightarrow> ('s, storage_error, 'a) tx \<Rightarrow> ('s, 'a) svc_on" where
  "svc_call wrap m = (\<lambda>s. case commit m s of
      (Inl e, s') \<Rightarrow> (Inl (wrap e), s') | (Inr a, s') \<Rightarrow> (Inr a, s'))"

definition as_storage :: "storage_error \<Rightarrow> service_error" where
  "as_storage e = StorageFailure (OfStorage e)"

definition as_conflict :: "storage_error \<Rightarrow> service_error" where
  "as_conflict e = ResourceConflict (OfStorage e)"

primrec svc_foreach :: "'a list \<Rightarrow> ('a \<Rightarrow> ('s, unit) svc_on) \<Rightarrow> ('s, unit) svc_on" where
  "svc_foreach [] f = svc_return ()"
| "svc_foreach (x # xs) f = svc_then (f x) (svc_foreach xs f)"

text \<open>A loop over \<open>xs\<close> whose body sees the number of its turn.\<close>

fun svc_mapi :: "nat \<Rightarrow> 'a list \<Rightarrow> (nat \<Rightarrow> 'a \<Rightarrow> ('s, 'b) svc_on) \<Rightarrow> ('s, 'b list) svc_on" where
  "svc_mapi i [] f = svc_return []"
| "svc_mapi i (x # xs) f =
     svc_bind (f i x) (\<lambda>y. svc_bind (svc_mapi (Suc i) xs f) (\<lambda>ys. svc_return (y # ys)))"

section \<open>Inversion\<close>

lemma svc_return_Inr [simp]: "svc_return x s = (Inr a, s') \<longleftrightarrow> a = x \<and> s' = s"
  by (auto simp: svc_return_def)

lemma svc_fail_Inr [simp]: "svc_fail e s \<noteq> (Inr a, s')"
  by (simp add: svc_fail_def)

lemma svc_bind_Inr [simp]:
  "svc_bind m f s = (Inr b, t) \<longleftrightarrow> (\<exists>a s'. m s = (Inr a, s') \<and> f a s' = (Inr b, t))"
  by (auto simp: svc_bind_def split: prod.splits sum.splits)

lemma svc_then_Inr [simp]:
  "svc_then m m' s = (Inr b, t) \<longleftrightarrow> (\<exists>a s'. m s = (Inr a, s') \<and> m' s' = (Inr b, t))"
  by (simp add: svc_then_def)

lemma svc_gets_Inr [simp]: "svc_gets f s = (Inr a, s') \<longleftrightarrow> a = f s \<and> s' = s"
  by (auto simp: svc_gets_def)

lemma svc_ensure_Inr [simp]: "svc_ensure b e s = (Inr u, s') \<longleftrightarrow> b \<and> s' = s"
  by (auto simp: svc_ensure_def)

lemma svc_some_Inr [simp]: "svc_some x e s = (Inr a, s') \<longleftrightarrow> x = Some a \<and> s' = s"
  by (auto simp: svc_some_def split: option.splits)

lemma svc_lift_Inr [simp]: "svc_lift r s = (Inr a, s') \<longleftrightarrow> r = Inr a \<and> s' = s"
  by (auto simp: svc_lift_def split: sum.splits)

lemma svc_call_Inr [simp]: "svc_call wrap m s = (Inr a, s') \<longleftrightarrow> m s = Inr (a, s')"
  by (auto simp: svc_call_def commit_def split: prod.splits sum.splits)

text \<open>A predicate that every transaction keeps is kept by the whole operation, error or not.\<close>

definition svc_keeps :: "('s \<Rightarrow> bool) \<Rightarrow> ('s, 'a) svc_on \<Rightarrow> bool" where
  "svc_keeps P m \<longleftrightarrow> (\<forall>s. P s \<longrightarrow> P (snd (m s)))"

named_theorems svc_pres \<open>preservation of a predicate by a service operation\<close>

lemma svc_keepsI [intro?]: "(\<And>s. P s \<Longrightarrow> P (snd (m s))) \<Longrightarrow> svc_keeps P m"
  by (simp add: svc_keeps_def)

lemma svc_keepsD: "svc_keeps P m \<Longrightarrow> P s \<Longrightarrow> P (snd (m s))"
  by (simp add: svc_keeps_def)

lemma svc_keeps_pure [svc_pres, simp]:
  "svc_keeps P (svc_return x)" "svc_keeps P (svc_fail e)" "svc_keeps P (svc_gets f)"
  "svc_keeps P (svc_ensure b e)" "svc_keeps P (svc_some v e)" "svc_keeps P (svc_lift r)"
  by (auto simp: svc_keeps_def svc_return_def svc_fail_def svc_gets_def svc_ensure_def svc_some_def
      svc_lift_def split: option.split sum.split)

lemma svc_keeps_bind [svc_pres]:
  "svc_keeps P m \<Longrightarrow> (\<And>a. svc_keeps P (f a)) \<Longrightarrow> svc_keeps P (svc_bind m f)"
  unfolding svc_keeps_def svc_bind_def
  by (metis (mono_tags, lifting) case_prod_conv old.sum.exhaust old.sum.simps(5,6) prod.collapse snd_conv)

lemma svc_keeps_then [svc_pres]: "svc_keeps P m \<Longrightarrow> svc_keeps P m' \<Longrightarrow> svc_keeps P (svc_then m m')"
  unfolding svc_then_def by (rule svc_keeps_bind)

lemma svc_keeps_call [svc_pres]: "tx_keeps P m \<Longrightarrow> svc_keeps P (svc_call wrap m)"
  using tx_keeps_commit [of P m]
  by (fastforce simp: svc_keeps_def svc_call_def split: prod.split sum.split)

lemma svc_keeps_foreach [svc_pres]:
  "(\<And>x. x \<in> set xs \<Longrightarrow> svc_keeps P (f x)) \<Longrightarrow> svc_keeps P (svc_foreach xs f)"
  by (induction xs) (auto intro!: svc_keeps_then)

lemma svc_keeps_mapi [svc_pres]:
  "(\<And>i x. svc_keeps P (f i x)) \<Longrightarrow> svc_keeps P (svc_mapi i xs f)"
  by (induction i xs f rule: svc_mapi.induct) (auto intro!: svc_keeps_bind)

lemma svc_keeps_if [svc_pres]:
  "(b \<Longrightarrow> svc_keeps P m) \<Longrightarrow> (\<not> b \<Longrightarrow> svc_keeps P m') \<Longrightarrow> svc_keeps P (if b then m else m')"
  by simp

lemma svc_keeps_case_option [svc_pres]:
  "(x = None \<Longrightarrow> svc_keeps P m) \<Longrightarrow> (\<And>a. x = Some a \<Longrightarrow> svc_keeps P (f a)) \<Longrightarrow>
   svc_keeps P (case x of None \<Rightarrow> m | Some a \<Rightarrow> f a)"
  by (cases x) auto

lemma svc_mapi_Inr:
  assumes "svc_mapi i xs f s = (Inr ys, s')"
  shows "length ys = length xs"
  using assms by (induction i xs f arbitrary: s ys rule: svc_mapi.induct) auto

end
