(* ===== verification/Rate_Cards.thy ===== *)
theory Rate_Cards
  imports Service_Base
begin

text \<open>
  Pricing with rate cards: the pure part of crates/service/src/accounting.rs (prices of usage
  quantities, the amount of a budget's metric in an estimate or a usage event) and the validation of
  a card's prices on admission (crates/service/src/api/accounting.rs). The code computes in \<open>i128\<close>,
  in which a \<open>u64\<close> times an \<open>i64\<close> always fits; the results are converted back to \<open>i64\<close>.
\<close>

section \<open>Arithmetic\<close>

definition in_i128 :: "int \<Rightarrow> bool" where
  "in_i128 x \<longleftrightarrow> - 170141183460469231731687303715884105728 \<le> x
     \<and> x \<le> 170141183460469231731687303715884105727"

definition i128_checked :: "int \<Rightarrow> int option" where
  "i128_checked x = (if in_i128 x then Some x else None)"

definition multiply_u64 :: "u64 \<Rightarrow> i64 \<Rightarrow> i64 option" where
  "multiply_u64 quantity rate = Option.bind (i128_checked (int quantity * rate)) i64_try_from_int"

definition multiply_ratio_ceil :: "u64 \<Rightarrow> i64 \<Rightarrow> int \<Rightarrow> i64 option" where
  "multiply_ratio_ceil quantity rate divisor =
     Option.bind (i128_checked (int quantity * rate)) (\<lambda>v.
       Option.bind (i128_checked (v + (divisor - 1))) (\<lambda>w. i64_try_from_int (trunc_div w divisor)))"

section \<open>Prices\<close>

text \<open>The first of the keys that the card prices.\<close>

fun first_rate :: "rate_card \<Rightarrow> str list \<Rightarrow> i64 option" where
  "first_rate rc [] = None"
| "first_rate rc (k # ks) = (case map_of (rc_pricing rc) k of
      Some rate \<Rightarrow> Some rate | None \<Rightarrow> first_rate rc ks)"

definition estimate_provider_credits :: "rate_card \<Rightarrow> usage_quantities \<Rightarrow> i64 option" where
  "estimate_provider_credits rc q = (case rc_workload rc of
      Tts \<Rightarrow> Option.bind (uq_characters q) (\<lambda>characters.
        Option.bind (first_rate rc
            [''provider_credits_per_character_micros'', ''credits_per_character_micros''])
          (multiply_u64 characters))
    | DetectionWorkload \<Rightarrow> None)"

definition price_tts :: "rate_card \<Rightarrow> usage_quantities \<Rightarrow> i64 option" where
  "price_tts rc q = Option.bind (uq_characters q) (\<lambda>characters.
     case first_rate rc [''per_character_micros'', ''character_micros''] of
       Some rate \<Rightarrow> multiply_u64 characters rate
     | None \<Rightarrow> Option.bind (first_rate rc [''per_1000_characters_micros''])
         (\<lambda>rate. multiply_ratio_ceil characters rate 1000))"

definition price_tokens :: "rate_card \<Rightarrow> u64 \<Rightarrow> str list \<Rightarrow> str list \<Rightarrow> i64 option" where
  "price_tokens rc tokens direct_keys per_million_keys =
     (case first_rate rc direct_keys of
        Some rate \<Rightarrow> multiply_u64 tokens rate
      | None \<Rightarrow> Option.bind (first_rate rc per_million_keys)
          (\<lambda>rate. multiply_ratio_ceil tokens rate 1000000))"

definition price_input :: "rate_card \<Rightarrow> u64 \<Rightarrow> i64 option" where
  "price_input rc tokens = price_tokens rc tokens
     [''per_input_token_micros'', ''input_token_micros''] [''per_1m_input_tokens_micros'']"

definition price_output :: "rate_card \<Rightarrow> u64 \<Rightarrow> i64 option" where
  "price_output rc tokens = price_tokens rc tokens
     [''per_output_token_micros'', ''output_token_micros''] [''per_1m_output_tokens_micros'']"

definition price_cached :: "rate_card \<Rightarrow> u64 \<Rightarrow> i64 option" where
  "price_cached rc tokens = (case price_tokens rc tokens
       [''per_cached_input_token_micros'', ''cached_input_token_micros'']
       [''per_1m_cached_input_tokens_micros''] of
     Some v \<Rightarrow> Some v | None \<Rightarrow> price_input rc tokens)"

definition price_reasoning :: "rate_card \<Rightarrow> u64 \<Rightarrow> i64 option" where
  "price_reasoning rc tokens = (case price_tokens rc tokens
       [''per_reasoning_token_micros'', ''reasoning_token_micros'']
       [''per_1m_reasoning_tokens_micros''] of
     Some v \<Rightarrow> Some v | None \<Rightarrow> price_output rc tokens)"

text \<open>\<open>total.saturating\_add(part?)\<close>.\<close>

definition add_price :: "i64 option \<Rightarrow> i64 option \<Rightarrow> i64 option" where
  "add_price acc part =
     Option.bind acc (\<lambda>t. map_option (i64_saturating_add t) part)"

definition price_character_detection :: "rate_card \<Rightarrow> usage_quantities \<Rightarrow> i64 option" where
  "price_character_detection rc q =
     Option.bind (uq_input_tokens q) (\<lambda>input. Option.bind (uq_output_tokens q) (\<lambda>output.
       let cached = min (unwrap_or_zero (uq_cache_read_tokens q)) input;
           base = add_price (price_input rc (input - cached)) (price_output rc output);
           with_cache = (if cached > 0 then add_price base (price_cached rc cached) else base)
       in case uq_reasoning_tokens q of
            Some reasoning \<Rightarrow>
              if reasoning > 0 then add_price with_cache (price_reasoning rc reasoning)
              else with_cache
          | None \<Rightarrow> with_cache))"

definition price_quantities :: "rate_card \<Rightarrow> usage_quantities \<Rightarrow> money option" where
  "price_quantities rc q = map_option (\<lambda>micros. \<lparr>mo_micros = micros, mo_currency = rc_currency rc\<rparr>)
     (case rc_workload rc of
        Tts \<Rightarrow> price_tts rc q | DetectionWorkload \<Rightarrow> price_character_detection rc q)"

section \<open>Amounts of a budget's metric\<close>

record rated_usage_estimate =
  re_provider_profile_id :: provider_id
  re_workload :: usage_workload
  re_quantities :: usage_quantities
  re_cost :: "money option"
  re_rate_card_id :: "rate_card_id option"

definition budget_applies_to_provider :: "budget \<Rightarrow> provider_id \<Rightarrow> bool" where
  "budget_applies_to_provider b p = (case bs_kind (b_scope b) of
      GlobalScope \<Rightarrow> True
    | ProviderScope \<Rightarrow> bs_provider_profile_id (b_scope b) = Some p)"

definition structurally_known_zero :: "usage_workload \<Rightarrow> budget_metric \<Rightarrow> i64 option" where
  "structurally_known_zero workload metric =
     (if workload = DetectionWorkload \<and> metric = AudioMilliseconds then Some 0 else None)"

text \<open>The cost in the budget's currency.\<close>

definition cost_in_currency :: "budget \<Rightarrow> money option \<Rightarrow> i64 option" where
  "cost_in_currency b cost = Option.bind cost (\<lambda>c. Option.bind (b_currency b) (\<lambda>currency.
     if eq_ignore_ascii_case currency (mo_currency c) then Some (mo_micros c) else None))"

definition metric_amount :: "usage_workload \<Rightarrow> budget \<Rightarrow> usage_quantities \<Rightarrow> money option \<Rightarrow> i64 option" where
  "metric_amount workload b q cost = (case structurally_known_zero workload (b_metric b) of
      Some v \<Rightarrow> Some v | None \<Rightarrow> amount_for q (b_metric b) cost)"

definition estimate_amount_for_budget :: "budget \<Rightarrow> rated_usage_estimate \<Rightarrow> i64 option" where
  "estimate_amount_for_budget b e =
     (if b_metric b = MoneyMicros
      then Option.bind (re_rate_card_id e) (\<lambda>_. cost_in_currency b (re_cost e))
      else metric_amount (re_workload e) b (re_quantities e) (re_cost e))"

definition usage_amount_for_budget :: "budget \<Rightarrow> usage_event \<Rightarrow> i64 option" where
  "usage_amount_for_budget b e =
     (if b_metric b = MoneyMicros then cost_in_currency b (ue_cost e)
      else metric_amount (ue_workload e) b (ue_quantities e) (ue_cost e))"

text \<open>\<open>estimates.iter().try\_fold(0, ...)\<close>: unknown as soon as one estimate is.\<close>

fun fold_amounts :: "i64 \<Rightarrow> i64 option list \<Rightarrow> i64 option" where
  "fold_amounts acc [] = Some acc"
| "fold_amounts acc (None # _) = None"
| "fold_amounts acc (Some a # rest) = fold_amounts (i64_saturating_add acc (max a 0)) rest"

definition estimate_budget_amount :: "budget \<Rightarrow> rated_usage_estimate list \<Rightarrow> i64 option" where
  "estimate_budget_amount b es = fold_amounts 0 (map (estimate_amount_for_budget b) es)"

section \<open>Admission of a card's prices\<close>

definition tts_keys :: "str list" where
  "tts_keys = [''per_character_micros'', ''character_micros'', ''per_1000_characters_micros'',
     ''provider_credits_per_character_micros'', ''credits_per_character_micros'']"

definition ai_keys :: "str list" where
  "ai_keys = [''per_input_token_micros'', ''input_token_micros'', ''per_1m_input_tokens_micros'',
     ''per_output_token_micros'', ''output_token_micros'', ''per_1m_output_tokens_micros'',
     ''per_cached_input_token_micros'', ''cached_input_token_micros'',
     ''per_1m_cached_input_tokens_micros'', ''per_reasoning_token_micros'',
     ''reasoning_token_micros'', ''per_1m_reasoning_tokens_micros'']"

definition validate_rate_pricing :: "usage_workload \<Rightarrow> (str \<times> i64) list \<Rightarrow> service_error + unit" where
  "validate_rate_pricing workload pricing =
     (let allowed = (case workload of Tts \<Rightarrow> tts_keys | DetectionWorkload \<Rightarrow> ai_keys) in
      if pricing = [] then Inl (InvalidRequest ''a rate card requires at least one price'')
      else case find (\<lambda>(key, v). \<not> List.member allowed key \<or> v < 0) pricing of
        Some (key, _) \<Rightarrow> Inl (InvalidRequest (''unsupported or negative rate-card price: '' @ key))
      | None \<Rightarrow> Inr ())"

section \<open>Lemmas\<close>

definition ceil_div :: "int \<Rightarrow> int \<Rightarrow> int" where
  "ceil_div a d = (a + (d - 1)) div d"

lemma ceil_div_ceiling: "0 < d \<Longrightarrow> ceil_div a d = \<lceil>(of_int a :: rat) / of_int d\<rceil>"
proof (rule ceiling_unique [symmetric])
  assume d: "0 < d"
  define q where "q = ceil_div a d"
  have "a + (d - 1) = d * q + (a + (d - 1)) mod d"
    unfolding q_def ceil_div_def by simp
  moreover have "0 \<le> (a + (d - 1)) mod d" "(a + (d - 1)) mod d < d" using d by simp_all
  ultimately have "d * q - d < a" "a \<le> d * q" by linarith+
  then have "of_int (d * q - d) < (of_int a :: rat)" "(of_int a :: rat) \<le> of_int (d * q)"
    by (simp_all only: of_int_less_iff of_int_le_iff)
  with d show "of_int (ceil_div a d) - 1 < (of_int a :: rat) / of_int d"
    "(of_int a :: rat) / of_int d \<le> of_int (ceil_div a d)"
    unfolding q_def [symmetric] by (simp_all add: field_simps)
qed

lemma trunc_div_nonneg: "0 \<le> a \<Longrightarrow> 0 < d \<Longrightarrow> trunc_div a d = a div d"
  by (simp add: trunc_div_def sgn_if)

lemma product_bound:
  assumes "n \<le> u64_max" and "in_i64 r" and "0 \<le> r"
  shows "0 \<le> int n * r" and "int n * r \<le> 18446744073709551615 * 9223372036854775807"
proof -
  show "0 \<le> int n * r" using assms(3) by simp
  have "int n \<le> 18446744073709551615" using assms(1) by (simp add: u64_max_def)
  moreover have "r \<le> 9223372036854775807" using assms(2) by (simp add: i64_defs)
  ultimately show "int n * r \<le> 18446744073709551615 * 9223372036854775807"
    using assms(3) by (intro mult_mono) auto
qed

lemma multiply_u64_eq:
  assumes "n \<le> u64_max" and "in_i64 r" and "0 \<le> r"
  shows "multiply_u64 n r = i64_try_from_int (int n * r)"
  using product_bound [OF assms] by (simp add: multiply_u64_def i128_checked_def in_i128_def)

lemma multiply_ratio_ceil_eq:
  assumes "n \<le> u64_max" and "in_i64 r" and "0 \<le> r" and "0 < d" and "d \<le> 1000000"
  shows "multiply_ratio_ceil n r d = i64_try_from_int (ceil_div (int n * r) d)"
  using product_bound [OF assms(1-3)] assms(4,5)
  by (simp add: multiply_ratio_ceil_def i128_checked_def in_i128_def trunc_div_nonneg ceil_div_def)

text \<open>The price of one unit, exactly.\<close>

definition unit_price :: "rate_card \<Rightarrow> str list \<Rightarrow> str list \<Rightarrow> int \<Rightarrow> rat option" where
  "unit_price rc direct_keys scaled_keys d = (case first_rate rc direct_keys of
      Some r \<Rightarrow> Some (of_int r)
    | None \<Rightarrow> map_option (\<lambda>r. of_int r / of_int d) (first_rate rc scaled_keys))"

definition priced :: "u64 \<Rightarrow> rat option \<Rightarrow> i64 option" where
  "priced n price = Option.bind price (\<lambda>r. i64_try_from_int \<lceil>of_nat n * r\<rceil>)"

definition rates_ok :: "rate_card \<Rightarrow> bool" where
  "rates_ok rc \<longleftrightarrow> (\<forall>(k, r) \<in> set (rc_pricing rc). in_i64 r \<and> 0 \<le> r)"

lemma first_rate_in: "first_rate rc ks = Some r \<Longrightarrow> \<exists>k. (k, r) \<in> set (rc_pricing rc)"
  by (induction ks) (auto split: option.splits dest: map_of_SomeD)

lemma first_rate_ok: "rates_ok rc \<Longrightarrow> first_rate rc ks = Some r \<Longrightarrow> in_i64 r \<and> 0 \<le> r"
  by (auto simp: rates_ok_def dest!: first_rate_in)

lemma validate_rate_pricing_ok:
  assumes "validate_rate_pricing w (rc_pricing rc) = Inr ()" and "\<forall>(k, r) \<in> set (rc_pricing rc). in_i64 r"
  shows "rates_ok rc"
  using assms
  by (fastforce simp: validate_rate_pricing_def rates_ok_def Let_def find_None_iff not_less
      split: if_splits option.splits)

lemma ceiling_product: "\<lceil>(of_nat n * of_int r :: rat)\<rceil> = int n * r"
proof -
  have "(of_nat n * of_int r :: rat) = of_int (int n * r)" by simp
  then show ?thesis by (simp only: ceiling_of_int)
qed

lemma ceiling_share:
  assumes "0 < d"
  shows "\<lceil>(of_nat n * (of_int r / of_int d) :: rat)\<rceil> = ceil_div (int n * r) d"
proof -
  have "(of_nat n * (of_int r / of_int d) :: rat) = of_int (int n * r) / of_int d" by simp
  then show ?thesis by (simp only: ceil_div_ceiling [OF assms])
qed

lemma priced_direct [simp]: "priced n (Some (of_int r)) = i64_try_from_int (int n * r)"
  by (simp add: priced_def ceiling_product)

lemma priced_share:
  "0 < d \<Longrightarrow> priced n (Some (of_int r / of_int d)) = i64_try_from_int (ceil_div (int n * r) d)"
  unfolding priced_def by (simp only: ceiling_share bind.bind_lunit)

lemma priced_None [simp]: "priced n None = None"
  by (simp add: priced_def)

lemma price_tokens_exact:
  assumes "rates_ok rc" and "n \<le> u64_max"
  shows "price_tokens rc n direct scaled = priced n (unit_price rc direct scaled 1000000)"
proof (cases "first_rate rc direct")
  case (Some r)
  then show ?thesis
    using first_rate_ok [OF assms(1) Some] assms(2)
    by (simp add: price_tokens_def unit_price_def multiply_u64_eq)
next
  case None
  show ?thesis
  proof (cases "first_rate rc scaled")
    case (Some r)
    show ?thesis
      unfolding price_tokens_def unit_price_def None Some option.case option.map bind.bind_lunit
      using first_rate_ok [OF assms(1) Some] assms(2)
      by (simp only: priced_share multiply_ratio_ceil_eq)
  qed (simp add: None price_tokens_def unit_price_def)
qed

lemma price_tts_exact:
  assumes "rates_ok rc" and "uq_characters q = Some n" and "n \<le> u64_max"
  shows "price_tts rc q = priced n (unit_price rc [''per_character_micros'', ''character_micros'']
      [''per_1000_characters_micros''] 1000)"
proof (cases "first_rate rc [''per_character_micros'', ''character_micros'']")
  case (Some r)
  show ?thesis
    unfolding price_tts_def unit_price_def Some assms(2) option.case bind.bind_lunit
    using first_rate_ok [OF assms(1) Some] assms(3) by (simp add: multiply_u64_eq)
next
  case None
  show ?thesis
  proof (cases "first_rate rc [''per_1000_characters_micros'']")
    case (Some r)
    show ?thesis
      unfolding price_tts_def unit_price_def None Some assms(2) option.case option.map bind.bind_lunit
      using first_rate_ok [OF assms(1) Some] assms(3)
      by (simp only: priced_share multiply_ratio_ceil_eq)
  qed (simp add: None assms(2) price_tts_def unit_price_def del: first_rate.simps)
qed

text \<open>The parts of a detection request's price, each a number of tokens and the exact price of one
  token: a part that is not priced of its own falls back to input or output tokens.\<close>

definition or_price :: "rat option \<Rightarrow> rat option \<Rightarrow> rat option" where
  "or_price a b = (case a of Some v \<Rightarrow> Some v | None \<Rightarrow> b)"

definition input_price :: "rate_card \<Rightarrow> rat option" where
  "input_price rc = unit_price rc [''per_input_token_micros'', ''input_token_micros'']
     [''per_1m_input_tokens_micros''] 1000000"

definition output_price :: "rate_card \<Rightarrow> rat option" where
  "output_price rc = unit_price rc [''per_output_token_micros'', ''output_token_micros'']
     [''per_1m_output_tokens_micros''] 1000000"

definition cached_price :: "rate_card \<Rightarrow> rat option" where
  "cached_price rc = or_price (unit_price rc
       [''per_cached_input_token_micros'', ''cached_input_token_micros'']
       [''per_1m_cached_input_tokens_micros''] 1000000) (input_price rc)"

definition reasoning_price :: "rate_card \<Rightarrow> rat option" where
  "reasoning_price rc = or_price (unit_price rc
       [''per_reasoning_token_micros'', ''reasoning_token_micros'']
       [''per_1m_reasoning_tokens_micros''] 1000000) (output_price rc)"

definition detection_parts :: "rate_card \<Rightarrow> usage_quantities \<Rightarrow> (u64 \<times> rat option) list" where
  "detection_parts rc q =
     (let input = unwrap_or_zero (uq_input_tokens q);
          cached = min (unwrap_or_zero (uq_cache_read_tokens q)) input;
          reasoning = unwrap_or_zero (uq_reasoning_tokens q)
      in [(input - cached, input_price rc), (unwrap_or_zero (uq_output_tokens q), output_price rc)]
       @ (if cached > 0 then [(cached, cached_price rc)] else [])
       @ (if reasoning > 0 then [(reasoning, reasoning_price rc)] else []))"

definition price_of_parts :: "(u64 \<times> rat option) list \<Rightarrow> i64 option" where
  "price_of_parts ps = (if list_all (\<lambda>(_, p). p \<noteq> None) ps
     then Some (min i64_max (sum_list (map (\<lambda>(n, p). \<lceil>of_nat n * the p\<rceil>) ps))) else None)"

text \<open>No single part overflows an \<open>i64\<close>.\<close>

definition rates_fit :: "rate_card \<Rightarrow> nat \<Rightarrow> bool" where
  "rates_fit rc n \<longleftrightarrow> (\<forall>(k, r) \<in> set (rc_pricing rc). int n * r \<le> i64_max)"

lemma unit_price_nonneg: "rates_ok rc \<Longrightarrow> unit_price rc dk sk d = Some p \<Longrightarrow> 0 < d \<Longrightarrow> 0 \<le> p"
  by (auto simp: unit_price_def dest: first_rate_ok split: option.splits)

lemma priced_fits:
  assumes "rates_ok rc" and "rates_fit rc m" and "n \<le> m" and "0 < d"
    and p: "unit_price rc dk sk d = Some p"
  shows "priced n (Some p) = Some \<lceil>of_nat n * p\<rceil>" and "0 \<le> \<lceil>(of_nat n * p)\<rceil>"
proof -
  have pos: "0 \<le> p" by (rule unit_price_nonneg [OF assms(1) p assms(4)])
  have "\<exists>k r. (k, r) \<in> set (rc_pricing rc) \<and> p \<le> of_int r"
  proof (cases "first_rate rc dk")
    case (Some r)
    with p first_rate_in [OF Some] show ?thesis by (auto simp: unit_price_def)
  next
    case None
    with p obtain r where r: "first_rate rc sk = Some r" "p = of_int r / of_int d"
      by (auto simp: unit_price_def)
    have "0 \<le> r" using first_rate_ok [OF assms(1) r(1)] by simp
    then have "(of_int r :: rat) * 1 \<le> of_int r * of_int d" using assms(4) by (intro mult_left_mono) auto
    then have "p \<le> of_int r" using assms(4) by (simp add: r(2) divide_le_eq)
    with first_rate_in [OF r(1)] show ?thesis by blast
  qed
  then obtain k r where kr: "(k, r) \<in> set (rc_pricing rc)" "p \<le> of_int r" by blast
  have "of_nat n * p \<le> (of_nat m * of_int r :: rat)"
    using assms(3) kr(2) pos by (intro mult_mono) auto
  then have "\<lceil>of_nat n * p\<rceil> \<le> int m * r"
    by (metis ceiling_mono ceiling_product)
  also have "\<dots> \<le> i64_max" using assms(2) kr(1) by (auto simp: rates_fit_def)
  finally have le: "\<lceil>of_nat n * p\<rceil> \<le> i64_max" .
  show ge: "0 \<le> \<lceil>(of_nat n * p)\<rceil>" using pos by (simp add: order_less_le_trans [of _ 0])
  show "priced n (Some p) = Some \<lceil>of_nat n * p\<rceil>"
    using le ge by (simp add: priced_def i64_try_from_int_def in_i64_def i64_min_def)
qed

lemma price_part:
  assumes "rates_ok rc" and "rates_fit rc m" and "n \<le> m" and "m \<le> u64_max"
  shows "price_input rc n = map_option (\<lambda>p. \<lceil>of_nat n * p\<rceil>) (input_price rc)"
    and "price_output rc n = map_option (\<lambda>p. \<lceil>of_nat n * p\<rceil>) (output_price rc)"
    and "price_cached rc n = map_option (\<lambda>p. \<lceil>of_nat n * p\<rceil>) (cached_price rc)"
    and "price_reasoning rc n = map_option (\<lambda>p. \<lceil>of_nat n * p\<rceil>) (reasoning_price rc)"
proof -
  have tokens: "price_tokens rc n dk sk
      = map_option (\<lambda>p. \<lceil>of_nat n * p\<rceil>) (unit_price rc dk sk 1000000)" for dk sk
  proof (cases "unit_price rc dk sk 1000000")
    case (Some p)
    with priced_fits(1) [OF assms(1-3) _ Some] assms show ?thesis by (simp add: price_tokens_exact)
  qed (use assms in \<open>simp add: price_tokens_exact\<close>)
  show "price_input rc n = map_option (\<lambda>p. \<lceil>of_nat n * p\<rceil>) (input_price rc)"
    and "price_output rc n = map_option (\<lambda>p. \<lceil>of_nat n * p\<rceil>) (output_price rc)"
    by (simp_all only: price_input_def price_output_def input_price_def output_price_def tokens)
  then show "price_cached rc n = map_option (\<lambda>p. \<lceil>of_nat n * p\<rceil>) (cached_price rc)"
    and "price_reasoning rc n = map_option (\<lambda>p. \<lceil>of_nat n * p\<rceil>) (reasoning_price rc)"
    by (simp_all only: price_cached_def price_reasoning_def cached_price_def reasoning_price_def
        or_price_def tokens split: option.split) auto
qed

lemma part_price_nonneg:
  assumes "rates_ok rc"
  shows "input_price rc = Some v \<Longrightarrow> 0 \<le> v" and "output_price rc = Some v \<Longrightarrow> 0 \<le> v"
    and "cached_price rc = Some v \<Longrightarrow> 0 \<le> v" and "reasoning_price rc = Some v \<Longrightarrow> 0 \<le> v"
proof -
  have nonneg: "0 \<le> v" if "or_price (unit_price rc dk sk 1000000) (unit_price rc dk' sk' 1000000) = Some v"
    for dk sk dk' sk'
    using that unit_price_nonneg [OF assms, of dk sk 1000000 v]
      unit_price_nonneg [OF assms, of dk' sk' 1000000 v]
    by (simp add: or_price_def split: option.splits)
  show "input_price rc = Some v \<Longrightarrow> 0 \<le> v"
    unfolding input_price_def by (rule unit_price_nonneg [OF assms, where d = 1000000]) (assumption, simp)
  show "output_price rc = Some v \<Longrightarrow> 0 \<le> v"
    unfolding output_price_def by (rule unit_price_nonneg [OF assms, where d = 1000000]) (assumption, simp)
  show "cached_price rc = Some v \<Longrightarrow> 0 \<le> v" "reasoning_price rc = Some v \<Longrightarrow> 0 \<le> v"
    unfolding cached_price_def reasoning_price_def input_price_def output_price_def by (erule nonneg)+
qed

definition parts_ok :: "(u64 \<times> rat option) list \<Rightarrow> bool" where
  "parts_ok ps \<longleftrightarrow> (\<forall>(n, p) \<in> set ps. \<forall>v. p = Some v \<longrightarrow> 0 \<le> v)"

lemma parts_sum_nonneg:
  assumes "parts_ok ps" and "list_all (\<lambda>(_, p). p \<noteq> None) ps"
  shows "0 \<le> sum_list (map (\<lambda>(n, p). \<lceil>of_nat n * the p\<rceil>) ps)"
  using assms
proof (intro sum_list_nonneg)
  fix x assume "x \<in> set (map (\<lambda>(n, p). \<lceil>of_nat n * the p\<rceil>) ps)"
  then obtain n p where np: "(n, p) \<in> set ps" "x = \<lceil>of_nat n * the p\<rceil>" by auto
  with assms obtain v where "p = Some v" "0 \<le> v" by (fastforce simp: parts_ok_def list_all_iff)
  with np show "0 \<le> x" by (simp add: order_less_le_trans [of _ 0])
qed

lemma add_price_part:
  assumes "parts_ok ps" and "\<And>v. p = Some v \<Longrightarrow> 0 \<le> v"
  shows "add_price (price_of_parts ps) (map_option (\<lambda>v. \<lceil>of_nat n * v\<rceil>) p)
    = price_of_parts (ps @ [(n, p)])"
proof (cases "list_all (\<lambda>(_, p). p \<noteq> None) ps \<and> p \<noteq> None")
  case True
  then obtain v where v: "p = Some v" "0 \<le> v" using assms(2) by auto
  then have "0 \<le> \<lceil>of_nat n * v\<rceil>" by (simp add: order_less_le_trans [of _ 0])
  with parts_sum_nonneg [OF assms(1)] True v show ?thesis
    by (simp add: price_of_parts_def add_price_def i64_saturating_add_min)
qed (auto simp: price_of_parts_def add_price_def)

lemma parts_ok_append [simp]: "parts_ok (ps @ qs) \<longleftrightarrow> parts_ok ps \<and> parts_ok qs"
  by (auto simp: parts_ok_def)

lemma price_character_detection_exact:
  assumes ok: "rates_ok rc" and fit: "rates_fit rc m" and m: "m \<le> u64_max"
    and input: "uq_input_tokens q = Some i" "i \<le> m" and outp: "uq_output_tokens q = Some k" "k \<le> m"
    and reasoning: "unwrap_or_zero (uq_reasoning_tokens q) \<le> m"
  shows "price_character_detection rc q = price_of_parts (detection_parts rc q)"
proof -
  note price = price_part [OF ok fit _ m]
  note nonneg = part_price_nonneg [OF ok]
  define c where "c = min (unwrap_or_zero (uq_cache_read_tokens q)) i"
  define r where "r = unwrap_or_zero (uq_reasoning_tokens q)"
  define base where "base = [(i - c, input_price rc), (k, output_price rc)]"
  have c: "c \<le> m" "i - c \<le> m" using input(2) by (simp_all add: c_def)
  have first: "price_input rc (i - c) = price_of_parts [(i - c, input_price rc)]"
  proof (cases "input_price rc")
    case (Some p)
    from priced_fits(1) [OF ok fit c(2), of 1000000 _ _ p] Some
    have "priced (i - c) (Some p) = Some \<lceil>of_nat (i - c) * p\<rceil>" by (simp add: input_price_def)
    then have "\<lceil>of_nat (i - c) * p\<rceil> \<le> i64_max"
      by (simp add: priced_def i64_try_from_int_def in_i64_def split: if_splits)
    with Some show ?thesis by (simp add: price(1) [OF c(2)] price_of_parts_def min_absorb2)
  qed (simp add: price(1) [OF c(2)] price_of_parts_def)
  have "parts_ok [(i - c, input_price rc)]" using nonneg(1) by (simp add: parts_ok_def)
  from add_price_part [OF this nonneg(2)]
  have b: "add_price (price_input rc (i - c)) (price_output rc k) = price_of_parts base"
    by (simp add: first price(2) [OF outp(2)] base_def)
  have base_ok: "parts_ok base" using nonneg by (simp add: parts_ok_def base_def)
  define cache where "cache = (if c > 0 then [(c, cached_price rc)] else [])"
  have cache_ok: "parts_ok (base @ cache)"
    using base_ok nonneg(3) by (auto simp: parts_ok_def cache_def)
  have with_cache: "(if c > 0 then add_price (price_of_parts base) (price_cached rc c)
      else price_of_parts base) = price_of_parts (base @ cache)"
    using add_price_part [OF base_ok nonneg(3), where n = c] by (simp add: price(3) [OF c(1)] cache_def)
  have parts: "detection_parts rc q = base @ cache @ (if r > 0 then [(r, reasoning_price rc)] else [])"
    by (simp add: detection_parts_def Let_def base_def cache_def c_def r_def input(1) outp(1)
        unwrap_or_zero_def)
  have "price_character_detection rc q = (case uq_reasoning_tokens q of
        Some reasoning \<Rightarrow> if reasoning > 0
          then add_price (price_of_parts (base @ cache)) (price_reasoning rc reasoning)
          else price_of_parts (base @ cache)
      | None \<Rightarrow> price_of_parts (base @ cache))"
    unfolding price_character_detection_def input(1) outp(1) bind.bind_lunit Let_def
      c_def [symmetric] b with_cache ..
  also have "\<dots> = price_of_parts (detection_parts rc q)"
    using add_price_part [OF cache_ok nonneg(4), where n = r] price(4) [OF reasoning]
    by (auto simp: parts r_def unwrap_or_zero_def split: option.splits)
  finally show ?thesis .
qed

end
