(* ===== verification/Usage_Repository.thy ===== *)
theory Usage_Repository
  imports Database
begin

text \<open>
  The usage ledger (crates/storage/src/repositories/usage.rs): events are appended with an
  ever-growing sequence number and never changed (the triggers of migration 0001 abort every UPDATE
  and DELETE), listed by a filter, newest first, and summed. The release build has no overflow
  checks, so the sums written with \<open>+=\<close> wrap around; token and character counts saturate.
\<close>

section \<open>Operations\<close>

record usage_filter =
  uf_project_id :: "project_id option"
  uf_job_id :: "job_id option"
  uf_provider_profile_id :: "provider_id option"
  uf_sequence_after :: "u64 option"
  uf_from :: "time option"
  uf_until :: "time option"
  uf_limit :: "u32 option"

definition no_filter :: usage_filter where
  "no_filter = \<lparr>uf_project_id = None, uf_job_id = None, uf_provider_profile_id = None,
     uf_sequence_after = None, uf_from = None, uf_until = None, uf_limit = None\<rparr>"

definition unsigned_column :: "u64 option \<Rightarrow> str \<Rightarrow> i64 option db_tx" where
  "unsigned_column v field = (case v of
      None \<Rightarrow> tx_return None
    | Some n \<Rightarrow> (case i64_try_from_u64 n of
        Some i \<Rightarrow> tx_return (Some i)
      | None \<Rightarrow> tx_fail (InvalidData (field @ '' exceeds SQLite's signed integer range'') [])))"

definition usage_keys_known :: "db \<Rightarrow> usage_event \<Rightarrow> bool" where
  "usage_keys_known s e \<longleftrightarrow> List.member (db_projects s) (ue_project_id e)
     \<and> optional_member (map jr_id (db_jobs s)) (ue_job_id e)
     \<and> optional_member (map at_id (db_attempts s)) (ue_attempt_id e)
     \<and> List.member (db_providers s) (ue_provider_profile_id e)
     \<and> optional_member (db_segments s) (ue_segment_id e)"

definition insert_usage_event :: "usage_event \<Rightarrow> u64 db_tx" where
  "insert_usage_event e =
     tx_bind (tx_gets (\<lambda>s. (list_ex (\<lambda>r. ue_id (lg_event r) = ue_id e) (db_ledger s),
         usage_keys_known s e, db_ledger_last s))) (\<lambda>(clash, found, last).
       tx_then (enforce (last < i64_max) SequenceExhausted)
      (tx_then (tx_ensure (\<not> clash) (Conflict ''usage_event'' (IdOf (ue_id e))))
      (tx_then (enforce found ForeignKeyViolation)
      (tx_then (tx_modify (\<lambda>s. s\<lparr>db_ledger := db_ledger s @ [\<lparr>lg_sequence = last + 1, lg_event = e\<rparr>],
             db_ledger_last := last + 1\<rparr>))
      (tx_then (tx_ensure (0 \<le> last + 1) (InvalidData ''negative usage sequence'' []))
        (tx_return (nat (last + 1))))))))"

definition usage_append :: "usage_event \<Rightarrow> u64 db_tx" where
  "usage_append e =
     tx_then (tx_lift (validated (usage_event_issues e)))
    (tx_then (unsigned_column (uq_characters (ue_quantities e)) ''characters'')
    (tx_then (unsigned_column (uq_audio_milliseconds (ue_quantities e)) ''audio_milliseconds'')
    (tx_then (unsigned_column (uq_input_tokens (ue_quantities e)) ''input_tokens'')
    (tx_then (unsigned_column (uq_output_tokens (ue_quantities e)) ''output_tokens'')
      (insert_usage_event e)))))"

definition usage_get :: "usage_event_id \<Rightarrow> usage_event option db_tx" where
  "usage_get i = tx_gets (\<lambda>s. map_option lg_event (find (\<lambda>r. ue_id (lg_event r) = i) (db_ledger s)))"

text \<open>The conditions that the filter adds to the query.\<close>

definition matches_option :: "'a option \<Rightarrow> ('a \<Rightarrow> bool) \<Rightarrow> bool" where
  "matches_option x P = (case x of None \<Rightarrow> True | Some v \<Rightarrow> P v)"

definition matches_filter :: "usage_filter \<Rightarrow> ledger_row \<Rightarrow> bool" where
  "matches_filter f r \<longleftrightarrow>
     matches_option (uf_project_id f) (\<lambda>p. ue_project_id (lg_event r) = p)
   \<and> matches_option (uf_job_id f) (\<lambda>j. ue_job_id (lg_event r) = Some j)
   \<and> matches_option (uf_provider_profile_id f) (\<lambda>p. ue_provider_profile_id (lg_event r) = p)
   \<and> matches_option (uf_sequence_after f) (\<lambda>n. i64_from_u64_or_max n < lg_sequence r)
   \<and> matches_option (uf_from f) (\<lambda>t. t \<le> ue_occurred_at (lg_event r))
   \<and> matches_option (uf_until f) (\<lambda>t. ue_occurred_at (lg_event r) < t)"

definition filtered_events :: "usage_filter \<Rightarrow> db \<Rightarrow> usage_event list" where
  "filtered_events f s =
     (let rows = sort_key (\<lambda>r. - lg_sequence r) (filter (matches_filter f) (db_ledger s))
      in map lg_event (case uf_limit f of None \<Rightarrow> rows | Some n \<Rightarrow> take n rows))"

definition usage_list :: "usage_filter \<Rightarrow> usage_event list db_tx" where
  "usage_list f = tx_gets (filtered_events f)"

section \<open>Totals\<close>

definition i64_wrapping_add :: "i64 \<Rightarrow> i64 \<Rightarrow> i64" where
  "i64_wrapping_add a b = (a + b - i64_min) mod (2 ^ 64) + i64_min"

definition u64_wrapping_add :: "u64 \<Rightarrow> u64 \<Rightarrow> u64" where
  "u64_wrapping_add a b = (a + b) mod (2 ^ 64)"

definition add_optional :: "u64 option \<Rightarrow> u64 option \<Rightarrow> u64 option" where
  "add_optional t v = (case (t, v) of
      (Some a, Some b) \<Rightarrow> Some (u64_saturating_add a b)
    | (None, Some b) \<Rightarrow> Some b
    | _ \<Rightarrow> t)"

definition add_credits :: "i64 option \<Rightarrow> i64 option \<Rightarrow> i64 option" where
  "add_credits t v = (case (t, v) of
      (Some a, Some b) \<Rightarrow> Some (i64_saturating_add a b)
    | (None, Some b) \<Rightarrow> Some b
    | _ \<Rightarrow> t)"

definition add_quantities :: "usage_quantities \<Rightarrow> usage_quantities \<Rightarrow> usage_quantities" where
  "add_quantities t v =
     \<lparr>uq_characters = add_optional (uq_characters t) (uq_characters v),
      uq_audio_milliseconds = add_optional (uq_audio_milliseconds t) (uq_audio_milliseconds v),
      uq_input_tokens = add_optional (uq_input_tokens t) (uq_input_tokens v),
      uq_output_tokens = add_optional (uq_output_tokens t) (uq_output_tokens v),
      uq_cache_read_tokens = add_optional (uq_cache_read_tokens t) (uq_cache_read_tokens v),
      uq_cache_write_tokens = add_optional (uq_cache_write_tokens t) (uq_cache_write_tokens v),
      uq_reasoning_tokens = add_optional (uq_reasoning_tokens t) (uq_reasoning_tokens v),
      uq_provider_credits = add_credits (uq_provider_credits t) (uq_provider_credits v)\<rparr>"

definition add_cost :: "(str \<rightharpoonup> i64) \<Rightarrow> money option \<Rightarrow> (str \<rightharpoonup> i64)" where
  "add_cost costs cost = (case cost of
      None \<Rightarrow> costs
    | Some c \<Rightarrow> costs(mo_currency c \<mapsto> i64_wrapping_add
        (case costs (mo_currency c) of None \<Rightarrow> 0 | Some v \<Rightarrow> v) (mo_micros c)))"

definition add_event :: "usage_totals \<Rightarrow> usage_event \<Rightarrow> usage_totals" where
  "add_event t e = t\<lparr>ut_quantities := add_quantities (ut_quantities t) (ue_quantities e),
     ut_cost_by_currency_micros := add_cost (ut_cost_by_currency_micros t) (ue_cost e),
     ut_uncertain_charge_count :=
       (if ue_uncertain_charge e then u64_wrapping_add (ut_uncertain_charge_count t) 1
        else ut_uncertain_charge_count t)\<rparr>"

definition usage_totals_of :: "usage_filter \<Rightarrow> usage_totals db_tx" where
  "usage_totals_of f =
     tx_bind (usage_list (f\<lparr>uf_limit := None\<rparr>)) (\<lambda>events.
       tx_return (foldl add_event
         \<lparr>ut_event_count = length events, ut_quantities = no_quantities,
          ut_cost_by_currency_micros = Map.empty, ut_uncertain_charge_count = 0\<rparr> events))"

section \<open>The ledger only grows\<close>

definition ledger_wf :: "db \<Rightarrow> bool" where
  "ledger_wf s \<longleftrightarrow> sorted_wrt (<) (map lg_sequence (db_ledger s))
     \<and> distinct (map (\<lambda>r. ue_id (lg_event r)) (db_ledger s))
     \<and> (\<forall>r \<in> set (db_ledger s). 0 < lg_sequence r \<and> lg_sequence r \<le> db_ledger_last s)
     \<and> 0 \<le> db_ledger_last s \<and> db_ledger_last s \<le> i64_max"

lemma unsigned_column_Inr_iff [simp]:
  "unsigned_column v field s = Inr (r, s') \<longleftrightarrow> s' = s
     \<and> (case v of None \<Rightarrow> r = None | Some n \<Rightarrow> int n \<le> i64_max \<and> r = Some (int n))"
  by (auto simp: unsigned_column_def i64_try_from_u64_def split: option.splits if_splits)

definition event_fits :: "usage_event \<Rightarrow> bool" where
  "event_fits e \<longleftrightarrow> usage_event_issues e = []
     \<and> (\<forall>v \<in> {uq_characters (ue_quantities e), uq_audio_milliseconds (ue_quantities e),
           uq_input_tokens (ue_quantities e), uq_output_tokens (ue_quantities e)}.
         \<forall>n. v = Some n \<longrightarrow> int n \<le> i64_max)"

lemma unsigned_column_ok:
  "(\<exists>r. unsigned_column v field s = Inr (r, s)) \<longleftrightarrow> (\<forall>n. v = Some n \<longrightarrow> int n \<le> i64_max)"
  by (cases v) auto

lemma insert_usage_event_Inr:
  "insert_usage_event e s = Inr (n, s') \<longleftrightarrow>
     db_ledger_last s < i64_max \<and> (\<forall>r \<in> set (db_ledger s). ue_id (lg_event r) \<noteq> ue_id e)
   \<and> usage_keys_known s e \<and> 0 \<le> db_ledger_last s + 1 \<and> n = nat (db_ledger_last s + 1)
   \<and> s' = s\<lparr>db_ledger := db_ledger s @ [\<lparr>lg_sequence = db_ledger_last s + 1, lg_event = e\<rparr>],
            db_ledger_last := db_ledger_last s + 1\<rparr>"
  by (auto simp: insert_usage_event_def list_ex_iff)

lemma usage_append_Inr:
  assumes "usage_append e s = Inr (n, s')"
  shows "event_fits e" and "insert_usage_event e s = Inr (n, s')"
  using assms by (auto simp: usage_append_def event_fits_def split: option.splits)

lemma usage_append_grows:
  assumes "usage_append e s = Inr (n, s')"
  shows "db_ledger s' = db_ledger s @ [\<lparr>lg_sequence = db_ledger_last s + 1, lg_event = e\<rparr>]"
    and "db_ledger_last s' = db_ledger_last s + 1" and "int n = db_ledger_last s + 1"
  using usage_append_Inr(2) [OF assms] by (auto simp: insert_usage_event_Inr)

lemma usage_append_wf:
  assumes "ledger_wf s" and "usage_append e s = Inr (n, s')"
  shows "ledger_wf s'"
  using assms(1) usage_append_Inr(2) [OF assms(2)]
  by (fastforce simp: ledger_wf_def insert_usage_event_Inr sorted_wrt_append)

lemma max_of_sorted:
  assumes "sorted_wrt (<) (ns :: int list)" and "ns \<noteq> []"
  shows "foldl max (hd ns) (tl ns) = last ns"
proof -
  have "foldl max n ms = last (n # ms)" if "sorted_wrt (<) (n # ms)" for n :: int and ms
    using that by (induction ms arbitrary: n) (auto simp: max_absorb2)
  with assms show ?thesis by (cases ns) auto
qed

lemma sort_descending:
  assumes "sorted_wrt (<) (map f rows)"
  shows "sort_key (\<lambda>r. - f r :: int) rows = rev rows"
proof -
  have insort_last: "insort_key g x ys = ys @ [x]" if "\<forall>y \<in> set ys. g y < g x"
    for g :: "'a \<Rightarrow> int" and x ys
    using that by (induction ys) (simp_all add: not_le)
  from assms show ?thesis
    by (induction rows) (auto intro!: insort_last)
qed

lemma filtered_events_rev:
  assumes "ledger_wf s" and "uf_limit f = None"
  shows "filtered_events f s = rev (map lg_event (filter (matches_filter f) (db_ledger s)))"
proof -
  from assms(1) have "sorted_wrt (<) (map lg_sequence (filter (matches_filter f) (db_ledger s)))"
    by (auto simp: ledger_wf_def sorted_wrt_map intro: sorted_wrt_filter)
  from sort_descending [OF this] assms(2) show ?thesis
    by (simp add: filtered_events_def rev_map)
qed

lemma ledger_wf_append_iff:
  assumes "ledger_wf s" and "r \<in> set (db_ledger s)"
  shows "0 < lg_sequence r" and "lg_sequence r \<le> db_ledger_last s"
  using assms by (auto simp: ledger_wf_def)

text \<open>Appends, interleaved with anything that leaves the ledger alone.\<close>

inductive ledger_grows :: "db \<Rightarrow> db \<Rightarrow> bool" for s0 where
  start: "ledger_grows s0 s0"
| append: "ledger_grows s0 s \<Longrightarrow> usage_append e s = Inr (n, s') \<Longrightarrow> ledger_grows s0 s'"
| elsewhere: "ledger_grows s0 s \<Longrightarrow> db_ledger s' = db_ledger s \<Longrightarrow>
    db_ledger_last s' = db_ledger_last s \<Longrightarrow> ledger_grows s0 s'"

lemma ledger_grows_wf: "ledger_grows s0 s \<Longrightarrow> ledger_wf s0 \<Longrightarrow> ledger_wf s"
proof (induction rule: ledger_grows.induct)
  case (append s e n s')
  then show ?case by (blast intro: usage_append_wf)
qed (simp_all add: ledger_wf_def)

lemma ledger_grows_rows:
  assumes "ledger_grows s0 s" and "ledger_wf s0"
  obtains rows where "db_ledger s = db_ledger s0 @ rows"
    and "\<forall>r \<in> set rows. db_ledger_last s0 < lg_sequence r"
    and "db_ledger_last s0 \<le> db_ledger_last s"
proof -
  from assms have "\<exists>rows. db_ledger s = db_ledger s0 @ rows
      \<and> (\<forall>r \<in> set rows. db_ledger_last s0 < lg_sequence r) \<and> db_ledger_last s0 \<le> db_ledger_last s"
  proof (induction rule: ledger_grows.induct)
    case (append s e n s')
    then show ?case using usage_append_grows [OF append.hyps(2)] by force
  qed auto
  then show thesis using that by blast
qed

section \<open>Sums\<close>

text \<open>The sum of the amounts that are known; none if none is.\<close>

fun known_sum :: "nat option list \<Rightarrow> nat option" where
  "known_sum [] = None"
| "known_sum (None # vs) = known_sum vs"
| "known_sum (Some v # vs) = Some (v + (case known_sum vs of None \<Rightarrow> 0 | Some t \<Rightarrow> t))"

lemma add_optional_fold_Some:
  "foldl add_optional (Some (min u64_max a)) vs
    = Some (min u64_max (a + (case known_sum vs of None \<Rightarrow> 0 | Some t \<Rightarrow> t)))"
proof (induction vs arbitrary: a)
  case (Cons v vs)
  then show ?case
    by (cases v) (simp_all add: add_optional_def u64_saturating_add_min add.assoc)
qed simp

lemma add_optional_fold:
  assumes "\<And>v. Some v \<in> set vs \<Longrightarrow> v \<le> u64_max"
  shows "foldl add_optional None vs = map_option (min u64_max) (known_sum vs)"
  using assms
proof (induction vs)
  case (Cons v vs)
  show ?case
  proof (cases v)
    case (Some n)
    then have "foldl add_optional None (v # vs) = foldl add_optional (Some (min u64_max n)) vs"
      using Cons.prems [of n] by (simp add: add_optional_def min_absorb2)
    with Some show ?thesis by (simp add: add_optional_fold_Some)
  qed (use Cons in \<open>simp add: add_optional_def\<close>)
qed simp

lemma known_sum_alt:
  "known_sum vs = (if \<exists>v. Some v \<in> set vs then Some (sum_list (map unwrap_or_zero vs)) else None)"
proof -
  have sum: "(case known_sum vs of None \<Rightarrow> 0 | Some t \<Rightarrow> t) = sum_list (map unwrap_or_zero vs)"
    by (induction vs rule: known_sum.induct) (auto simp: unwrap_or_zero_def)
  have "known_sum vs = None \<longleftrightarrow> (\<forall>v. Some v \<notin> set vs)"
    by (induction vs rule: known_sum.induct) auto
  with sum show ?thesis by (cases "known_sum vs") auto
qed

lemma known_sum_rev [simp]: "known_sum (rev vs) = known_sum vs"
  by (simp add: known_sum_alt sum_list_rev flip: rev_map)

text \<open>Wrapping sums are sums modulo 2^64.\<close>

lemma i64_wrapping_add_mod [simp]:
  "(i64_wrapping_add a b - i64_min) mod 2 ^ 64 = (a + b - i64_min) mod 2 ^ 64"
  by (simp add: i64_wrapping_add_def)

lemma i64_wrapping_add_in_i64: "in_i64 (i64_wrapping_add a b)"
proof -
  have "0 \<le> (a + b - i64_min) mod 2 ^ 64" "(a + b - i64_min) mod 2 ^ 64 < 2 ^ 64" by simp_all
  then show ?thesis unfolding i64_wrapping_add_def in_i64_def i64_min_def i64_max_def by simp
qed

lemma i64_wrapping_add_exact: "in_i64 (a + b) \<Longrightarrow> i64_wrapping_add a b = a + b"
  by (simp add: i64_wrapping_add_def in_i64_def i64_min_def i64_max_def)

definition cost_sum :: "str \<Rightarrow> usage_event list \<Rightarrow> int" where
  "cost_sum c es = sum_list (map (\<lambda>e. case ue_cost e of None \<Rightarrow> 0
     | Some m \<Rightarrow> if mo_currency m = c then mo_micros m else 0) es)"

definition wrap_i64 :: "int \<Rightarrow> i64" where
  "wrap_i64 v = (v - i64_min) mod 2 ^ 64 + i64_min"

lemma wrap_i64_add [simp]: "i64_wrapping_add (wrap_i64 a) b = wrap_i64 (a + b)"
proof -
  have "(wrap_i64 a + b - i64_min) = (a - i64_min) mod 2 ^ 64 + b" by (simp add: wrap_i64_def)
  then have "i64_wrapping_add (wrap_i64 a) b = ((a - i64_min) mod 2 ^ 64 + b) mod 2 ^ 64 + i64_min"
    by (simp only: i64_wrapping_add_def)
  also have "\<dots> = wrap_i64 (a + b)"
    unfolding mod_add_left_eq by (simp add: wrap_i64_def algebra_simps)
  finally show ?thesis .
qed

lemma wrap_i64_id: "in_i64 v \<Longrightarrow> wrap_i64 v = v"
  by (simp add: wrap_i64_def in_i64_def i64_min_def i64_max_def)

lemma add_cost_fold:
  assumes "costs c = (if known then Some (wrap_i64 v) else None)" and "\<not> known \<Longrightarrow> v = 0"
  shows "foldl add_cost costs (map ue_cost es) c
    = (if known \<or> (\<exists>e \<in> set es. \<exists>m. ue_cost e = Some m \<and> mo_currency m = c)
       then Some (wrap_i64 (v + cost_sum c es)) else None)"
  using assms
proof (induction es arbitrary: costs known v)
  case (Cons e es)
  show ?case
  proof (cases "ue_cost e")
    case None
    with Cons.IH [where costs = costs and known = known and v = v, OF Cons.prems]
    show ?thesis by (auto simp: add_cost_def cost_sum_def)
  next
    case (Some m)
    show ?thesis
    proof (cases "mo_currency m = c")
      case True
      have zero: "wrap_i64 0 = 0" by (simp add: wrap_i64_def i64_min_def)
      have "add_cost costs (ue_cost e) c = (if True then Some (wrap_i64 (v + mo_micros m)) else None)"
        using Cons.prems True Some wrap_i64_add [of 0 "mo_micros m"]
        by (cases known) (auto simp: add_cost_def zero)
      from Cons.IH [where costs = "add_cost costs (ue_cost e)" and known = True
        and v = "v + mo_micros m", OF this] True Some
      show ?thesis by (auto simp: cost_sum_def add.assoc)
    next
      case False
      then have "add_cost costs (ue_cost e) c = (if known then Some (wrap_i64 v) else None)"
        using Cons.prems Some by (auto simp: add_cost_def)
      from Cons.IH [where costs = "add_cost costs (ue_cost e)" and known = known and v = v, OF this Cons.prems(2)] False Some
      show ?thesis by (auto simp: cost_sum_def)
    qed
  qed
qed (auto simp: cost_sum_def)

end
