(* ===== verification/Budget_Service.thy ===== *)
theory Budget_Service
  imports Service_Transactions Rate_Cards Usage_Repository Job_Repository
begin

text \<open>
  The service side of budgets (crates/service/src/accounting.rs): the applicable rate card, rating of
  estimates and usage events, the reservation of a job's estimates, the check before every provider
  dispatch and the settlement of a finished job. Each operation is a sequence of repository
  transactions. \<open>refresh\_budget\_views\<close> returns the entries it writes to the in-memory catalog
  (budget, used, reserved); the operations that end with it return them too. The mutex that
  serialises settlement and retry admission is taken around whole operations, so they are atomic
  with respect to each other.
\<close>

section \<open>Rate cards\<close>

definition card_applies :: "provider_id \<Rightarrow> usage_workload \<Rightarrow> time \<Rightarrow> time \<Rightarrow> rate_card \<Rightarrow> bool" where
  "card_applies provider workload now1 now2 rc \<longleftrightarrow> rc_provider_profile_id rc = provider
     \<and> rc_workload rc = workload \<and> rc_effective_at rc \<le> now1
     \<and> (case rc_expires_at rc of None \<Rightarrow> True | Some t \<Rightarrow> now2 < t)"

definition choose_card :: "str option \<Rightarrow> rate_card list \<Rightarrow> rate_card option" where
  "choose_card model cards =
     (case Option.bind model (\<lambda>m. find (\<lambda>rc. rc_model rc = Some m) cards) of
        Some rc \<Rightarrow> Some rc
      | None \<Rightarrow> find (\<lambda>rc. rc_model rc = None) cards)"

definition applicable_rate_card ::
  "clock \<Rightarrow> provider_id \<Rightarrow> usage_workload \<Rightarrow> str option \<Rightarrow> rate_card option svc" where
  "applicable_rate_card clk provider workload model = svc_gets (\<lambda>s. choose_card model
     (sort_key (\<lambda>rc. - rc_effective_at rc)
       (filter (card_applies provider workload (clk 0) (clk 1)) (db_rate_cards s))))"

definition rate_usage_estimate ::
  "clock \<Rightarrow> provider_id \<Rightarrow> usage_workload \<Rightarrow> str option \<Rightarrow> usage_quantities \<Rightarrow> rated_usage_estimate svc" where
  "rate_usage_estimate clk provider workload model q0 =
     svc_bind (applicable_rate_card clk provider workload model) (\<lambda>card.
       let q = (if uq_provider_credits q0 = None
                then q0\<lparr>uq_provider_credits :=
                       Option.bind card (\<lambda>rc. estimate_provider_credits rc q0)\<rparr>
                else q0)
       in svc_return \<lparr>re_provider_profile_id = provider, re_workload = workload,
            re_quantities = q, re_cost = Option.bind card (\<lambda>rc. price_quantities rc q),
            re_rate_card_id = map_option rc_id card\<rparr>)"

definition snapshot_matches :: "rate_card \<Rightarrow> usage_event \<Rightarrow> bool" where
  "snapshot_matches rc e \<longleftrightarrow> rc_provider_profile_id rc = ue_provider_profile_id e
     \<and> rc_workload rc = ue_workload e
     \<and> (case rc_model rc of None \<Rightarrow> True | Some m \<Rightarrow> ue_model e = Some m)"

definition load_snapshot :: "clock \<Rightarrow> usage_event \<Rightarrow> rate_card_id option \<Rightarrow> rate_card option svc" where
  "load_snapshot clk e preferred = (case preferred of
      Some i \<Rightarrow>
        svc_bind (svc_gets (\<lambda>s. find (\<lambda>rc. rc_id rc = i) (db_rate_cards s))) (\<lambda>row.
        svc_bind (svc_some row (ResourceConflict (Plain
            ''the rate-card snapshot reserved for this request no longer exists''))) (\<lambda>rc.
        svc_then (svc_ensure (snapshot_matches rc e) (ResourceConflict (Plain
            ''the reserved rate-card snapshot does not match this provider request'')))
          (svc_return (Some rc))))
    | None \<Rightarrow> applicable_rate_card clk (ue_provider_profile_id e) (ue_workload e) (ue_model e))"

definition apply_rate_card_snapshot ::
  "clock \<Rightarrow> usage_event \<Rightarrow> rate_card_id option \<Rightarrow> usage_event svc" where
  "apply_rate_card_snapshot clk e preferred =
     svc_bind (load_snapshot clk e preferred) (\<lambda>card. svc_return
       (case card of None \<Rightarrow> e
        | Some rc \<Rightarrow> (case price_quantities rc (ue_quantities e) of None \<Rightarrow> e
          | Some cost \<Rightarrow> e\<lparr>ue_cost := Some cost, ue_cost_source := Estimated,
                            ue_rate_card_id := Some (rc_id rc)\<rparr>)))"

section \<open>Reservations\<close>

type_synonym budget_view_update = "budget_id \<times> i64 \<times> i64"

definition refresh_budget_views :: "calendar \<Rightarrow> clock \<Rightarrow> budget_view_update list svc" where
  "refresh_budget_views cal clk =
     svc_bind (svc_call as_storage (budget_list_enabled_at cal (clk 0))) (\<lambda>budgets.
       svc_mapi 1 budgets (\<lambda>i b.
         svc_bind (svc_call as_storage (budget_active_reserved_at cal (b_id b) (clk i))) (\<lambda>reserved.
           svc_return (b_id b, b_used b, reserved))))"

definition applicable_estimates :: "budget \<Rightarrow> rated_usage_estimate list \<Rightarrow> rated_usage_estimate list" where
  "applicable_estimates b es = filter (\<lambda>e. budget_applies_to_provider b (re_provider_profile_id e)) es"

fun budget_metric_name :: "budget_metric \<Rightarrow> str" where
  "budget_metric_name MoneyMicros = ''MoneyMicros''"
| "budget_metric_name Characters = ''Characters''"
| "budget_metric_name AudioMilliseconds = ''AudioMilliseconds''"
| "budget_metric_name InputTokens = ''InputTokens''"
| "budget_metric_name OutputTokens = ''OutputTokens''"
| "budget_metric_name TotalTokens = ''TotalTokens''"
| "budget_metric_name ProviderCredits = ''ProviderCredits''"

definition unknown_estimate :: "budget \<Rightarrow> service_error" where
  "unknown_estimate b = ResourceConflict (Formatted
     ''hard budget '{}' cannot be reserved because its {} estimate is unknown; configure a compatible rate card before starting this job''
     [b_name b, budget_metric_name (b_metric b)])"

definition new_allocation :: "budget \<Rightarrow> i64 \<Rightarrow> budget_allocation" where
  "new_allocation b amount =
     \<lparr>ba_budget_id = b_id b, ba_reserved_amount = max amount 0, ba_actual_amount = None\<rparr>"

fun allocations_for ::
  "bool \<Rightarrow> rated_usage_estimate list \<Rightarrow> budget list \<Rightarrow> service_error + budget_allocation list" where
  "allocations_for override es [] = Inr []"
| "allocations_for override es (b # bs) =
     (let applicable = applicable_estimates b es in
      if applicable = [] then allocations_for override es bs
      else case estimate_budget_amount b applicable of
        Some amount \<Rightarrow> map_sum id (\<lambda>as. new_allocation b amount # as) (allocations_for override es bs)
      | None \<Rightarrow> if b_hard b \<and> \<not> override then Inl (unknown_estimate b)
                else map_sum id (\<lambda>as. new_allocation b 0 # as) (allocations_for override es bs))"

definition reservation_days :: int where
  "reservation_days = 7 * 24 * 3600 * 1000000000"

text \<open>\<open>fresh\<close> is the identifier that \<open>ReservationId::new()\<close> draws.\<close>

definition prepare_reservation_for_estimates ::
  "calendar \<Rightarrow> clock \<Rightarrow> reservation_id \<Rightarrow> job \<Rightarrow> rated_usage_estimate list \<Rightarrow>
     budget_reservation option svc" where
  "prepare_reservation_for_estimates cal clk fresh j es =
     svc_bind (svc_call as_storage (budget_list_enabled_at cal (clk 0))) (\<lambda>budgets.
     svc_bind (svc_lift (allocations_for (j_allow_budget_override j) es budgets)) (\<lambda>allocations.
       svc_return (if allocations = [] then None
         else Some \<lparr>br_id = fresh, br_job_id = j_id j, br_status = Active,
                br_allocations = allocations, br_created_at = clk 1,
                br_expires_at = Some (clk 1 + reservation_days), br_reconciled_at = None\<rparr>)))"

definition reserve_for_estimates ::
  "calendar \<Rightarrow> clock \<Rightarrow> reservation_id \<Rightarrow> job \<Rightarrow> rated_usage_estimate list \<Rightarrow>
     (reservation_id option \<times> budget_view_update list) svc" where
  "reserve_for_estimates cal clk fresh j es =
     svc_bind (prepare_reservation_for_estimates cal clk fresh j es) (\<lambda>prepared. case prepared of
       None \<Rightarrow> svc_return (None, [])
     | Some r \<Rightarrow>
         svc_then (if j_allow_budget_override j
                   then svc_call as_storage (budget_reserve_with_override cal r)
                   else svc_call as_conflict (budget_reserve cal r))
           (svc_bind (refresh_budget_views cal (later 2 clk)) (\<lambda>views.
              svc_return (Some (br_id r), views))))"

section \<open>The check before a dispatch\<close>

definition job_usage_after :: "job_id \<Rightarrow> u64 \<Rightarrow> usage_filter" where
  "job_usage_after j n = no_filter\<lparr>uf_job_id := Some j, uf_sequence_after := Some n\<rparr>"

definition budget_conflict :: "str \<Rightarrow> budget \<Rightarrow> service_error" where
  "budget_conflict message b = ResourceConflict (Formatted message [b_name b])"

definition applicable_usage :: "budget \<Rightarrow> usage_event list \<Rightarrow> usage_event list" where
  "applicable_usage b events =
     filter (\<lambda>e. budget_applies_to_provider b (ue_provider_profile_id e)) events"

definition check_dispatch ::
  "budget_reservation \<Rightarrow> usage_event list \<Rightarrow> rated_usage_estimate \<Rightarrow> budget \<Rightarrow> unit svc" where
  "check_dispatch r events e b =
     svc_bind (svc_some (find (\<lambda>a. ba_budget_id a = b_id b) (br_allocations r)) (budget_conflict
         ''hard budget '{}' is not covered by this job's reservation; restart preflight'' b)) (\<lambda>a.
     svc_bind (svc_some (estimate_amount_for_budget b e) (ResourceConflict (Formatted
         ''hard budget '{}' cannot verify this dispatch because its {} usage is unknown''
         [b_name b, budget_metric_name (b_metric b)]))) (\<lambda>projected.
     svc_bind (svc_some (fold_amounts 0 (map (usage_amount_for_budget b) (applicable_usage b events)))
         (budget_conflict
         ''hard budget '{}' cannot verify prior dispatch usage because it is unknown'' b)) (\<lambda>consumed.
       svc_ensure (\<not> i64_saturating_add consumed (max projected 0) > ba_reserved_amount a)
         (budget_conflict ''hard budget '{}' would exceed this job's active reservation'' b))))"

definition verify_reservation ::
  "reservation_id \<Rightarrow> job_id \<Rightarrow> rated_usage_estimate \<Rightarrow> budget list \<Rightarrow> unit svc" where
  "verify_reservation rid jid e budgets =
     svc_bind (svc_call as_storage (budget_get_reservation rid)) (\<lambda>found.
     svc_bind (svc_some found ResourceNotFound) (\<lambda>r.
     svc_then (svc_ensure (br_status r = Active)
         (ResourceConflict (Plain ''the job's budget reservation is no longer active'')))
    (svc_bind (svc_call as_storage (budget_usage_sequence_start rid)) (\<lambda>start.
     svc_bind (svc_call as_storage (usage_list (job_usage_after jid start))) (\<lambda>events.
       svc_foreach budgets (check_dispatch r events e))))))"

definition verify_dispatch_is_reserved ::
  "calendar \<Rightarrow> clock \<Rightarrow> job_id \<Rightarrow> rated_usage_estimate \<Rightarrow> unit svc" where
  "verify_dispatch_is_reserved cal clk jid e =
     svc_bind (svc_call as_storage (job_get jid)) (\<lambda>found.
     svc_bind (svc_some found ResourceNotFound) (\<lambda>j.
       if j_allow_budget_override j then svc_return () else
       svc_bind (svc_call as_storage (budget_list_enabled_at cal (clk 0))) (\<lambda>enabled.
         let budgets = filter (\<lambda>b. b_hard b
               \<and> budget_applies_to_provider b (re_provider_profile_id e)) enabled
         in if budgets = [] then svc_return () else
            svc_bind (svc_some (j_reservation_id j) (ResourceConflict (Plain
                ''a hard budget applies to this request, but the job has no active reservation'')))
              (\<lambda>rid. verify_reservation rid jid e budgets))))"

section \<open>Settlement of a finished job\<close>

definition proves_success :: "job_id \<Rightarrow> time \<Rightarrow> db \<Rightarrow> attempt_row \<Rightarrow> bool" where
  "proves_success jid since s a \<longleftrightarrow>
     list_ex (\<lambda>u. un_id u = at_job_unit_id a \<and> un_job_id u = jid) (db_units s)
   \<and> (case ja_finished_at (at_payload a) of None \<Rightarrow> False | Some t \<Rightarrow> since \<le> t)
   \<and> ja_failure_class (at_payload a) = None \<and> \<not> ja_uncertain_charge (at_payload a)"

definition successful_dispatch_exists :: "job_id \<Rightarrow> time \<Rightarrow> db \<Rightarrow> bool" where
  "successful_dispatch_exists jid since s = list_ex (proves_success jid since s) (db_attempts s)"

text \<open>The loop over the events of one budget: the saturating sum of the known amounts, and whether
  an amount is unknown.\<close>

fun sum_known :: "i64 \<Rightarrow> bool \<Rightarrow> i64 option list \<Rightarrow> i64 \<times> bool" where
  "sum_known acc unknown [] = (acc, unknown)"
| "sum_known acc unknown (Some a # rest) = sum_known (i64_saturating_add acc (max a 0)) unknown rest"
| "sum_known acc unknown (None # rest) = sum_known acc True rest"

definition actual_usage :: "budget \<Rightarrow> usage_event list \<Rightarrow> budget_allocation \<Rightarrow> i64" where
  "actual_usage b events a =
     (case sum_known 0 False (map (usage_amount_for_budget b) (applicable_usage b events)) of
        (actual, unknown) \<Rightarrow> if unknown then max actual (ba_reserved_amount a) else actual)"

fun collect_actuals ::
  "calendar \<Rightarrow> clock \<Rightarrow> usage_event list \<Rightarrow> budget_allocation list \<Rightarrow> (budget_id \<times> i64) list \<Rightarrow>
     (budget_id \<times> i64) list svc" where
  "collect_actuals cal clk events [] actuals = svc_return actuals"
| "collect_actuals cal clk events (a # as) actuals =
     svc_bind (svc_call as_storage (budget_get_at cal (ba_budget_id a) (clk 0))) (\<lambda>found.
       collect_actuals cal (later 1 clk) events as
         (case found of None \<Rightarrow> actuals
          | Some b \<Rightarrow> btree_insert (ba_budget_id a) (actual_usage b events a) actuals))"

definition settle_reservation ::
  "calendar \<Rightarrow> clock \<Rightarrow> job_id \<Rightarrow> reservation_id \<Rightarrow> budget_reservation \<Rightarrow> usage_event list \<Rightarrow>
     budget_view_update list svc" where
  "settle_reservation cal clk jid rid r events =
     (if events = [] then
        svc_bind (svc_gets (successful_dispatch_exists jid (br_created_at r))) (\<lambda>success.
          if success then svc_return []
          else svc_then (svc_call as_storage (budget_release rid (clk 0)))
                 (refresh_budget_views cal (later 1 clk)))
      else
        let n = length (br_allocations r) in
        svc_bind (collect_actuals cal clk events (br_allocations r) []) (\<lambda>actuals.
        svc_then (svc_call as_storage (budget_reconcile cal rid actuals (clk n)))
          (refresh_budget_views cal (later (n + 1) clk))))"

definition finalize_job_reservation_locked ::
  "calendar \<Rightarrow> clock \<Rightarrow> job_id \<Rightarrow> budget_view_update list svc" where
  "finalize_job_reservation_locked cal clk jid =
     svc_bind (svc_call as_storage (job_get jid)) (\<lambda>found.
     svc_bind (svc_some found ResourceNotFound) (\<lambda>j.
       if \<not> is_terminal (j_state j) then svc_return [] else
       case j_reservation_id j of None \<Rightarrow> svc_return [] | Some rid \<Rightarrow>
         svc_bind (svc_call as_storage (budget_get_reservation rid)) (\<lambda>found.
         svc_bind (svc_some found ResourceNotFound) (\<lambda>r.
           if br_status r \<in> {Reconciled, Released} then svc_return [] else
           svc_bind (svc_call as_storage (budget_usage_sequence_start rid)) (\<lambda>start.
           svc_bind (svc_call as_storage (usage_list (job_usage_after jid start))) (\<lambda>events.
             settle_reservation cal clk jid rid r events))))))"

end
