(* ===== verification/Budget_Service_Correctness.thy ===== *)
theory Budget_Service_Correctness
  imports Budget_Service Budget_Correctness
begin

text \<open>
  Lemmas on the service side of budgets. Reading budgets rolls them to their current period and
  expires stale reservations: \<open>rolled\<close> says that nothing else changes, so that what the service
  decided on the values it read holds of the state it leaves.
\<close>

section \<open>What a read changes\<close>

definition expiry_only :: "time set \<Rightarrow> reservation_row list \<Rightarrow> reservation_row list \<Rightarrow> bool" where
  "expiry_only T R R' \<longleftrightarrow> (\<exists>Q. (\<forall>r. Q r \<longrightarrow> (\<exists>now \<in> T. is_stale now r)) \<and> R' = sql_update Q expire_row R)"

definition rolled :: "time set \<Rightarrow> db \<Rightarrow> db \<Rightarrow> bool" where
  "rolled T s t \<longleftrightarrow>
     (\<exists>R B U. t = s\<lparr>db_reservations := R, db_budgets := B, db_period_usage := U\<rparr>)
   \<and> expiry_only T (db_reservations s) (db_reservations t)
   \<and> (\<forall>i. rel_option same_budget_terms (find_budget s i) (find_budget t i)) \<and> budgets_wf t"

lemma expiry_only_refl [simp]: "expiry_only T R R"
  by (auto simp: expiry_only_def sql_update_def intro: exI [of _ "\<lambda>_. False"])

lemma expiry_only_trans:
  assumes "expiry_only T R R'" and "expiry_only T R' R''"
  shows "expiry_only T R R''"
proof -
  from assms obtain P Q where P: "\<forall>r. P r \<longrightarrow> (\<exists>now \<in> T. is_stale now r)" "R' = sql_update P expire_row R"
    and Q: "\<forall>r. Q r \<longrightarrow> (\<exists>now \<in> T. is_stale now r)" "R'' = sql_update Q expire_row R'"
    by (auto simp: expiry_only_def)
  have "\<not> Q (expire_row r)" for r using Q(1) by (auto simp: is_stale_def expire_row_def)
  with P(2) Q(2) have "R'' = sql_update (\<lambda>r. P r \<or> Q r) expire_row R"
    by (auto simp: sql_update_def)
  with P(1) Q(1) show ?thesis
    unfolding expiry_only_def by (intro exI [of _ "\<lambda>r. P r \<or> Q r"]) blast
qed

lemma three_tables:
  "\<exists>R' B U. s\<lparr>db_reservations := R\<rparr> = s\<lparr>db_reservations := R', db_budgets := B, db_period_usage := U\<rparr>"
  by (rule exI [of _ R], rule exI [of _ "db_budgets s"], rule exI [of _ "db_period_usage s"]) simp

lemma rolled_refl: "budgets_wf s \<Longrightarrow> rolled T s s"
  unfolding rolled_def using three_tables [of "db_reservations s" s] by (simp add: option.rel_refl)

lemma rolled_mono:
  assumes "rolled T s t" and "T \<subseteq> T'"
  shows "rolled T' s t"
proof -
  have "expiry_only T' R R'" if "expiry_only T R R'" for R R'
  proof -
    from that obtain Q where Q: "\<forall>r. Q r \<longrightarrow> (\<exists>now \<in> T. is_stale now r)" "R' = sql_update Q expire_row R"
      by (auto simp: expiry_only_def)
    have "\<forall>r. Q r \<longrightarrow> (\<exists>now \<in> T'. is_stale now r)"
      using Q(1) assms(2) by (meson subsetD)
    with Q(2) show ?thesis unfolding expiry_only_def by (intro exI [of _ Q]) simp
  qed
  with assms(1) show ?thesis unfolding rolled_def by (elim conjE) (intro conjI; assumption?)
qed

lemma rolled_trans:
  assumes "rolled T s t" and "rolled T t u"
  shows "rolled T s u"
proof -
  have "rel_option same_budget_terms (find_budget s i) (find_budget u i)" for i
    using assms same_budget_terms_trans
    by (cases "find_budget s i"; cases "find_budget t i"; cases "find_budget u i")
       (auto simp: rolled_def option_rel_Some1 option_rel_Some2 dest!: spec [of _ i])
  moreover have "\<exists>R B U. u = s\<lparr>db_reservations := R, db_budgets := B, db_period_usage := U\<rparr>"
  proof -
    from assms obtain R B U R' B' U' where "t = s\<lparr>db_reservations := R, db_budgets := B, db_period_usage := U\<rparr>"
      "u = t\<lparr>db_reservations := R', db_budgets := B', db_period_usage := U'\<rparr>"
      unfolding rolled_def by blast
    then show ?thesis by (intro exI [of _ R'] exI [of _ B'] exI [of _ U']) simp
  qed
  ultimately show ?thesis using assms expiry_only_trans unfolding rolled_def by blast
qed

lemma rolled_expire:
  assumes "expire_stale_reservations now s = Inr (u, s')" and "budgets_wf s" and "now \<in> T"
  shows "rolled T s s'"
proof -
  from assms(1) have s': "s' = s\<lparr>db_reservations := sql_update (is_stale now) expire_row (db_reservations s)\<rparr>"
    by (simp add: expire_stale_reservations_def)
  have "expiry_only T (db_reservations s) (db_reservations s')"
    unfolding expiry_only_def using s' assms(3) by (intro exI [of _ "is_stale now"]) auto
  moreover have "budgets_wf s'" by (rule expire_stale_reservations_wf [OF assms(1,2)])
  ultimately show ?thesis
    unfolding rolled_def using s' three_tables by (simp add: option.rel_refl)
qed

lemma rolled_ensure:
  assumes "ensure_current_period_tx cal b now s = Inr (b', s')" and "budgets_wf s"
    and "find_budget s (b_id b) = Some b"
  shows "rolled T s s'" and "find_budget s' (b_id b) = Some b'" and "same_budget_terms b b'"
proof -
  have wf: "budgets_wf s'" by (rule ensure_current_period_tx_wf [OF assms])
  have "rolled T s s' \<and> find_budget s' (b_id b) = Some b' \<and> same_budget_terms b b'" using assms(1)
  proof (cases rule: ensure_current_period_tx_Inr)
    case (1 B U)
    have "rel_option same_budget_terms (find_budget s i) (find_budget s' i)" for i
      using 1(2,4,5) assms(3) by (cases "i = b_id b") (simp_all add: option.rel_refl)
    moreover have "\<exists>R B U. s' = s\<lparr>db_reservations := R, db_budgets := B, db_period_usage := U\<rparr>"
      using 1(1) by (intro exI [of _ "db_reservations s"] exI [of _ B] exI [of _ U]) simp
    ultimately show ?thesis using wf 1(1,2,5) assms(3) by (simp add: rolled_def)
  qed
  then show "rolled T s s'" and "find_budget s' (b_id b) = Some b'" and "same_budget_terms b b'"
    by blast+
qed

lemma rolled_frames:
  assumes "rolled T s t"
  shows "db_ledger t = db_ledger s" and "db_ledger_last t = db_ledger_last s"
    and "db_jobs t = db_jobs s" and "db_allocations t = db_allocations s"
    and "db_attempts t = db_attempts s" and "db_units t = db_units s"
  using assms by (auto simp: rolled_def)

lemma rolled_budget:
  assumes "rolled T s t" and "find_budget s i = Some b"
  obtains b' where "find_budget t i = Some b'" and "same_budget_terms b b'"
proof -
  from assms have "rel_option same_budget_terms (Some b) (find_budget t i)"
    unfolding rolled_def by metis
  then show ?thesis using that by (auto simp: option_rel_Some1)
qed

lemma rolled_budget_back:
  assumes "rolled T s t" and "find_budget t i = Some b'"
  obtains b where "find_budget s i = Some b" and "same_budget_terms b b'"
proof -
  from assms have "rel_option same_budget_terms (find_budget s i) (Some b')"
    unfolding rolled_def by metis
  then show ?thesis using that by (auto simp: option_rel_Some2)
qed

lemma rolled_reservation:
  assumes "rolled T s t" and "find_reservation s i = Some r"
  shows "find_reservation t i = Some r
    \<or> br_status r = Active \<and> find_reservation t i = Some (r\<lparr>br_status := Expired\<rparr>)"
proof -
  from assms(1) obtain Q where Q: "\<forall>r. Q r \<longrightarrow> (\<exists>now \<in> T. is_stale now r)"
    and R: "db_reservations t = sql_update Q expire_row (db_reservations s)"
    by (auto simp: rolled_def expiry_only_def)
  have "find (\<lambda>r. rv_id r = i) (db_reservations t)
      = map_option (\<lambda>r. if Q r then expire_row r else r) (find (\<lambda>r. rv_id r = i) (db_reservations s))"
    unfolding R by (rule find_sql_update) (simp add: expire_row_def)
  with assms(2) obtain row where row: "find_reservation t i
      = Some (decode_reservation_row (if Q row then expire_row row else row))"
    "r = decode_reservation_row row" by (auto simp: find_reservation_def)
  moreover have "rv_status row = Active" if "Q row" using Q that by (auto simp: is_stale_def)
  ultimately show ?thesis by (cases "Q row") (simp_all add: decode_reservation_row_def expire_row_def)
qed

section \<open>Reads as transactions\<close>

lemma require_ensure_rolled:
  assumes "tx_bind (require_budget_tx i) (\<lambda>b. ensure_current_period_tx cal b now) s = Inr (b, s')"
    and "budgets_wf s"
  shows "rolled T s s'" and "find_budget s' i = Some b" and "b_id b = i"
proof -
  from assms(1) obtain b0 where b0: "find_budget s i = Some b0"
    and e: "ensure_current_period_tx cal b0 now s = Inr (b, s')" by auto
  note r = rolled_ensure [OF e assms(2) find_budget_own_id [OF assms(2) b0]]
  from r(1) show "rolled T s s'" .
  from r(2) find_budget_id [OF assms(2) b0] show "find_budget s' i = Some b" by simp
  from r(3) find_budget_id [OF assms(2) b0] show "b_id b = i" by (simp add: same_budget_terms_def)
qed

lemma rolled_many:
  assumes "tx_mapM ids (\<lambda>i. tx_bind (require_budget_tx i) (\<lambda>b. ensure_current_period_tx cal b now)) s
      = Inr (bs, s')" and "budgets_wf s"
  shows "rolled T s s' \<and> map b_id bs = ids
    \<and> (\<forall>b \<in> set bs. \<exists>b0. find_budget s (b_id b) = Some b0 \<and> same_budget_terms b0 b)"
  using assms
proof (induction ids arbitrary: s bs)
  case Nil
  then show ?case by (auto intro: rolled_refl)
next
  case (Cons i ids)
  from Cons.prems(1) obtain b s1 cs where
    h: "tx_bind (require_budget_tx i) (\<lambda>b. ensure_current_period_tx cal b now) s = Inr (b, s1)"
    and m: "tx_mapM ids (\<lambda>i. tx_bind (require_budget_tx i) (\<lambda>b. ensure_current_period_tx cal b now)) s1
      = Inr (cs, s')" and bs: "bs = b # cs" by auto
  note r = require_ensure_rolled [OF h Cons.prems(2)]
  have wf1: "budgets_wf s1" using r(1) by (simp add: rolled_def)
  note ih = Cons.IH [OF m wf1]
  have "\<exists>b0. find_budget s (b_id c) = Some b0 \<and> same_budget_terms b0 c" if "c \<in> set cs" for c
    using ih that rolled_budget_back [OF r(1) [of T]] same_budget_terms_trans by metis
  moreover have "\<exists>b0. find_budget s (b_id b) = Some b0 \<and> same_budget_terms b0 b"
    using rolled_budget_back [OF r(1) [of T] r(2)] r(3) by metis
  moreover have "rolled T s s'" using r(1) ih by (blast intro: rolled_trans)
  ultimately show ?case using ih r(3) bs by simp
qed

lemma enabled_ids:
  assumes "budgets_wf s"
  shows "i \<in> set (map bg_id (sort_key bg_name (filter bg_enabled (db_budgets s))))
    \<longleftrightarrow> (\<exists>b. find_budget s i = Some b \<and> b_enabled b)"
proof
  assume "i \<in> set (map bg_id (sort_key bg_name (filter bg_enabled (db_budgets s))))"
  then obtain r where r: "r \<in> set (db_budgets s)" "bg_enabled r" "bg_id r = i" by auto
  with assms find_id_unique [of bg_id "db_budgets s" r] show "\<exists>b. find_budget s i = Some b \<and> b_enabled b"
    by (auto simp: budgets_wf_def budget_table_ok_def find_budget_def list_all_iff budget_row_ok_def
        decode_budget_row_def)
next
  assume "\<exists>b. find_budget s i = Some b \<and> b_enabled b"
  with assms show "i \<in> set (map bg_id (sort_key bg_name (filter bg_enabled (db_budgets s))))"
    by (auto simp: budgets_wf_def budget_table_ok_def find_budget_def list_all_iff budget_row_ok_def
        decode_budget_row_def dest!: find_Some_D)
qed

text \<open>The list of enabled budgets is complete, without repetition, and current.\<close>

lemma list_enabled_rolled:
  assumes "budget_list_enabled_at cal now s = Inr (bs, s')" and "budgets_wf s" and "now \<in> T"
  shows "rolled T s s'" and "distinct (map b_id bs)"
    and "b \<in> set bs \<Longrightarrow> \<exists>b0. find_budget s (b_id b) = Some b0 \<and> same_budget_terms b0 b \<and> b_enabled b0"
    and "find_budget s i = Some b0 \<Longrightarrow> b_enabled b0 \<Longrightarrow> \<exists>b \<in> set bs. b_id b = i \<and> same_budget_terms b0 b"
proof -
  from assms(1) obtain s1 where e: "expire_stale_reservations now s = Inr ((), s1)"
    and m: "tx_mapM (map bg_id (sort_key bg_name (filter bg_enabled (db_budgets s1))))
      (\<lambda>i. tx_bind (require_budget_tx i) (\<lambda>b. ensure_current_period_tx cal b now)) s1 = Inr (bs, s')"
    by (auto simp: budget_list_enabled_at_def)
  have r1: "rolled T s s1" by (rule rolled_expire [OF e assms(2,3)])
  then have wf1: "budgets_wf s1" by (simp add: rolled_def)
  note r = rolled_many [OF m wf1]
  from r1 r show "rolled T s s'" using rolled_trans by blast
  have same: "find_budget s1 = find_budget s" "db_budgets s1 = db_budgets s"
    using e by (auto simp: expire_stale_reservations_def)
  have "distinct (map bg_id (db_budgets s))"
    using assms(2) by (simp add: budgets_wf_def budget_table_ok_def)
  then have "distinct (map bg_id (sort_key bg_name (filter bg_enabled (db_budgets s))))"
    by (metis distinct_map distinct_map_filter distinct_sort set_sort)
  with r same show "distinct (map b_id bs)" by (simp only:)
  have ids: "b_id ` set bs = set (map bg_id (sort_key bg_name (filter bg_enabled (db_budgets s))))"
    using r same by (metis set_map)
  show "b \<in> set bs \<Longrightarrow> \<exists>b0. find_budget s (b_id b) = Some b0 \<and> same_budget_terms b0 b \<and> b_enabled b0"
    using r same enabled_ids [OF assms(2)] ids by (metis image_eqI option.inject)
  show "\<exists>b \<in> set bs. b_id b = i \<and> same_budget_terms b0 b"
    if "find_budget s i = Some b0" "b_enabled b0"
  proof -
    from that enabled_ids [OF assms(2)] have "i \<in> b_id ` set bs" unfolding ids by blast
    then obtain b where b: "b \<in> set bs" "b_id b = i" by auto
    with r same that(1) show ?thesis by (metis option.inject)
  qed
qed

lemma get_at_rolled:
  assumes "budget_get_at cal i now s = Inr (found, s')" and "budgets_wf s" and "now \<in> T"
  shows "rolled T s s'" and "found = None \<longleftrightarrow> find_budget s i = None"
    and "found = Some b \<Longrightarrow> \<exists>b0. find_budget s i = Some b0 \<and> same_budget_terms b0 b"
proof -
  from assms(1) obtain s1 where e: "expire_stale_reservations now s = Inr ((), s1)"
    and rest: "(case find_budget s1 i of
         Some b \<Rightarrow> tx_bind (ensure_current_period_tx cal b now) (\<lambda>b'. tx_return (Some b'))
       | None \<Rightarrow> tx_return None) s1 = Inr (found, s')"
    by (auto simp: budget_get_at_def load_budget_tx_def)
  have r1: "rolled T s s1" by (rule rolled_expire [OF e assms(2,3)])
  then have wf1: "budgets_wf s1" by (simp add: rolled_def)
  have same: "find_budget s1 = find_budget s" using e by (auto simp: expire_stale_reservations_def)
  have "rolled T s1 s' \<and> (found = None \<longleftrightarrow> find_budget s i = None)
    \<and> (\<forall>b. found = Some b \<longrightarrow> (\<exists>b0. find_budget s i = Some b0 \<and> same_budget_terms b0 b))"
  proof (cases "find_budget s1 i")
    case None
    with rest same wf1 show ?thesis by (auto intro: rolled_refl)
  next
    case (Some b0)
    with rest obtain b where en: "ensure_current_period_tx cal b0 now s1 = Inr (b, s')"
      and f: "found = Some b" by auto
    from rolled_ensure [OF en wf1 find_budget_own_id [OF wf1 Some]] f Some same show ?thesis by auto
  qed
  with r1 show "rolled T s s'" and "found = None \<longleftrightarrow> find_budget s i = None"
    and "found = Some b \<Longrightarrow> \<exists>b0. find_budget s i = Some b0 \<and> same_budget_terms b0 b"
    using rolled_trans by blast+
qed

lemma active_reserved_rolled:
  assumes "budget_active_reserved_at cal i now s = Inr (v, s')" and "budgets_wf s" and "now \<in> T"
  shows "rolled T s s'"
proof -
  from assms(1) obtain s1 b where e: "expire_stale_reservations now s = Inr ((), s1)"
    and h: "tx_bind (require_budget_tx i) (\<lambda>b. ensure_current_period_tx cal b now) s1 = Inr (b, s')"
    by (auto simp: budget_active_reserved_at_def active_reserved_tx_Inr)
  have r1: "rolled T s s1" by (rule rolled_expire [OF e assms(2,3)])
  then have "budgets_wf s1" by (simp add: rolled_def)
  from require_ensure_rolled(1) [OF h this] r1 show ?thesis by (blast intro: rolled_trans)
qed

section \<open>Sums of amounts\<close>

definition known_amounts :: "i64 option list \<Rightarrow> int" where
  "known_amounts xs = sum_list (map (\<lambda>x. case x of Some v \<Rightarrow> max v 0 | None \<Rightarrow> 0) xs)"

lemma known_amounts_nonneg: "0 \<le> known_amounts xs"
  unfolding known_amounts_def by (rule sum_list_nonneg) (auto split: option.splits)

lemma known_amounts_Cons [simp]:
  "known_amounts (x # xs) = (case x of Some v \<Rightarrow> max v 0 | None \<Rightarrow> 0) + known_amounts xs"
  by (simp add: known_amounts_def)

lemma fold_amounts_from:
  "0 \<le> acc \<Longrightarrow> fold_amounts (min i64_max acc) xs
    = (if None \<in> set xs then None else Some (min i64_max (acc + known_amounts xs)))"
proof (induction xs arbitrary: acc)
  case (Cons x xs)
  show ?case
  proof (cases x)
    case (Some v)
    with Cons.IH [of "acc + max v 0"] Cons.prems show ?thesis
      by (simp add: i64_saturating_add_min add.assoc)
  qed simp
qed (simp add: known_amounts_def)

text \<open>The saturating loops compute the exact sum, cut at the largest \<open>i64\<close>.\<close>

lemma fold_amounts_exact:
  "fold_amounts 0 xs = (if None \<in> set xs then None else Some (min i64_max (known_amounts xs)))"
  using fold_amounts_from [of 0 xs] by (simp add: i64_max_def)

lemma sum_known_from:
  "0 \<le> acc \<Longrightarrow> sum_known (min i64_max acc) u xs = (min i64_max (acc + known_amounts xs), u \<or> None \<in> set xs)"
proof (induction xs arbitrary: acc u)
  case (Cons x xs)
  show ?case
  proof (cases x)
    case (Some v)
    with Cons.IH [of "acc + max v 0" u] Cons.prems show ?thesis
      by (simp add: i64_saturating_add_min add.assoc)
  next
    case None
    with Cons.IH [of acc True] Cons.prems show ?thesis by simp
  qed
qed (simp add: known_amounts_def)

lemma sum_known_exact: "sum_known 0 False xs = (min i64_max (known_amounts xs), None \<in> set xs)"
  using sum_known_from [of 0 False xs] by (simp add: i64_max_def)

lemma known_amounts_member: "Some v \<in> set xs \<Longrightarrow> max v 0 \<le> known_amounts xs"
proof (induction xs)
  case (Cons x xs)
  then show ?case using known_amounts_nonneg [of xs] by (auto split: option.splits)
qed simp

text \<open>Amounts depend on the terms of a budget only.\<close>

lemma same_terms_amounts:
  assumes "same_budget_terms b b'"
  shows "estimate_amount_for_budget b' = estimate_amount_for_budget b"
    and "usage_amount_for_budget b' = usage_amount_for_budget b"
    and "budget_applies_to_provider b' = budget_applies_to_provider b"
    and "actual_usage b' = actual_usage b" and "applicable_usage b' = applicable_usage b"
    and "applicable_estimates b' = applicable_estimates b"
    and "estimate_budget_amount b' = estimate_budget_amount b"
proof -
  from assms have t: "b_metric b' = b_metric b" "b_scope b' = b_scope b" "b_currency b' = b_currency b"
    by (simp_all add: same_budget_terms_def)
  have c: "cost_in_currency b' = cost_in_currency b" by (rule ext) (simp add: cost_in_currency_def t)
  have m: "metric_amount w b' = metric_amount w b" for w by (intro ext) (auto simp: metric_amount_def t split: option.split)
  show e: "estimate_amount_for_budget b' = estimate_amount_for_budget b"
    by (rule ext) (simp add: estimate_amount_for_budget_def t c m)
  show u: "usage_amount_for_budget b' = usage_amount_for_budget b"
    by (rule ext) (simp add: usage_amount_for_budget_def t c m)
  show p: "budget_applies_to_provider b' = budget_applies_to_provider b"
    by (rule ext) (simp add: budget_applies_to_provider_def t split: budget_scope_kind.split)
  show a: "applicable_usage b' = applicable_usage b"
    by (rule ext) (simp add: applicable_usage_def p)
  show "actual_usage b' = actual_usage b" by (intro ext) (simp add: actual_usage_def a u)
  show "applicable_estimates b' = applicable_estimates b"
    by (rule ext) (simp add: applicable_estimates_def p)
  show "estimate_budget_amount b' = estimate_budget_amount b"
    by (rule ext) (simp add: estimate_budget_amount_def e)
qed

section \<open>Reservations cover the estimates\<close>

lemma allocations_for_ids:
  assumes "allocations_for override es bs = Inr as"
  shows "map ba_budget_id as = map b_id (filter (\<lambda>b. applicable_estimates b es \<noteq> []) bs)"
  using assms
proof (induction bs arbitrary: as)
  case (Cons b bs)
  then show ?case
    by (cases "allocations_for override es bs")
       (auto simp: Let_def new_allocation_def split: option.splits if_splits)
qed simp

lemma allocations_for_member:
  assumes "allocations_for override es bs = Inr as" and "b \<in> set bs" and "applicable_estimates b es \<noteq> []"
  shows "\<exists>a \<in> set as. ba_budget_id a = b_id b \<and> ba_actual_amount a = None
    \<and> (case estimate_budget_amount b (applicable_estimates b es) of
         Some v \<Rightarrow> ba_reserved_amount a = max v 0
       | None \<Rightarrow> (b_hard b \<longrightarrow> override) \<and> ba_reserved_amount a = 0)"
  using assms
proof (induction bs arbitrary: as)
  case (Cons c bs)
  then show ?case
    by (cases "allocations_for override es bs")
       (fastforce simp: Let_def new_allocation_def split: option.splits if_splits)+
qed simp

lemma allocations_for_nonneg:
  "allocations_for override es bs = Inr as \<Longrightarrow> a \<in> set as \<Longrightarrow>
     0 \<le> ba_reserved_amount a \<and> ba_actual_amount a = None"
proof (induction bs arbitrary: as)
  case (Cons c bs)
  then show ?case
    by (cases "allocations_for override es bs")
       (auto simp: Let_def new_allocation_def split: option.splits if_splits)
qed simp

section \<open>Settlement\<close>

lemma collect_actuals_rolled:
  assumes "collect_actuals cal clk events as actuals s = (Inr result, s')" and "budgets_wf s"
  shows "rolled (range clk) s s' \<and> (\<forall>i. map_of result i = (case find_budget s i of
      Some b \<Rightarrow> (case find (\<lambda>a. ba_budget_id a = i) (rev as) of
         Some a \<Rightarrow> Some (actual_usage b events a) | None \<Rightarrow> map_of actuals i)
    | None \<Rightarrow> map_of actuals i))"
  using assms
proof (induction as arbitrary: clk actuals s)
  case Nil
  then show ?case by (auto intro: rolled_refl split: option.split)
next
  case (Cons a as)
  from Cons.prems(1) obtain found s1 where g: "budget_get_at cal (ba_budget_id a) (clk 0) s = Inr (found, s1)"
    and rest: "collect_actuals cal (later 1 clk) events as (case found of None \<Rightarrow> actuals
        | Some b \<Rightarrow> btree_insert (ba_budget_id a) (actual_usage b events a) actuals) s1 = (Inr result, s')"
    by auto
  note g' = get_at_rolled [OF g Cons.prems(2), of "range clk"]
  have r1: "rolled (range clk) s s1" by (rule g') simp
  then have wf1: "budgets_wf s1" by (simp add: rolled_def)
  note ih = Cons.IH [OF rest wf1]
  have sub: "range (later 1 clk) \<subseteq> range clk" by (auto simp: later_def)
  have "rolled (range clk) s1 s'" using ih by (blast intro: rolled_mono [OF _ sub])
  with r1 have r: "rolled (range clk) s s'" by (rule rolled_trans)
  define actuals' where "actuals' = (case found of None \<Rightarrow> actuals
        | Some b \<Rightarrow> btree_insert (ba_budget_id a) (actual_usage b events a) actuals)"
  have head: "map_of (case found of None \<Rightarrow> actuals
        | Some b \<Rightarrow> btree_insert (ba_budget_id a) (actual_usage b events a) actuals) i
    = (case find_budget s i of Some b \<Rightarrow> if i = ba_budget_id a then Some (actual_usage b events a)
          else map_of actuals i | None \<Rightarrow> map_of actuals i)" for i
  proof (cases found)
    case None
    with g'(2) show ?thesis by (auto split: option.split)
  next
    case (Some b)
    with g'(3) obtain b0 where "find_budget s (ba_budget_id a) = Some b0" "same_budget_terms b0 b" by auto
    with Some same_terms_amounts(4) show ?thesis by (auto simp: btree_insert_map_of split: option.split)
  qed
  have "map_of result i = (case find_budget s i of
      Some b \<Rightarrow> (case find (\<lambda>a. ba_budget_id a = i) (rev (a # as)) of
         Some a \<Rightarrow> Some (actual_usage b events a) | None \<Rightarrow> map_of actuals i)
    | None \<Rightarrow> map_of actuals i)" for i
  proof (cases "find_budget s i")
    case None
    then have "find_budget s1 i = None"
      by (cases "find_budget s1 i") (auto elim: rolled_budget_back [OF r1])
    with None ih head show ?thesis by simp
  next
    case (Some b)
    obtain b1 where b1: "find_budget s1 i = Some b1" "same_budget_terms b b1"
      by (rule rolled_budget [OF r1 Some])
    from ih have "map_of result i = (case find_budget s1 i of
        Some b \<Rightarrow> (case find (\<lambda>a. ba_budget_id a = i) (rev as) of
           Some a \<Rightarrow> Some (actual_usage b events a) | None \<Rightarrow> map_of actuals' i)
      | None \<Rightarrow> map_of actuals' i)"
      unfolding actuals'_def by blast
    with b1 same_terms_amounts(4) [of b b1]
    have "map_of result i = (case find (\<lambda>a. ba_budget_id a = i) (rev as) of
         Some a \<Rightarrow> Some (actual_usage b events a)
       | None \<Rightarrow> if i = ba_budget_id a then Some (actual_usage b events a) else map_of actuals i)"
      using head [of i, folded actuals'_def] Some by (auto split: option.split)
    with Some show ?thesis by (simp add: find_append split: option.split)
  qed
  with r show ?case by blast
qed

lemma refresh_rolled:
  assumes "refresh_budget_views cal clk s = (Inr views, s')" and "budgets_wf s"
  shows "rolled (range clk) s s'"
proof -
  from assms(1) obtain bs s1 where l: "budget_list_enabled_at cal (clk 0) s = Inr (bs, s1)"
    and m: "svc_mapi 1 bs (\<lambda>i b.
         svc_bind (svc_call as_storage (budget_active_reserved_at cal (b_id b) (clk i))) (\<lambda>reserved.
           svc_return (b_id b, b_used b, reserved))) s1 = (Inr views, s')"
    by (auto simp: refresh_budget_views_def)
  have r1: "rolled (range clk) s s1" by (rule list_enabled_rolled(1) [OF l assms(2)]) simp
  have "rolled (range clk) s1 s'" if "svc_mapi n bs (\<lambda>i b.
         svc_bind (svc_call as_storage (budget_active_reserved_at cal (b_id b) (clk i))) (\<lambda>reserved.
           svc_return (b_id b, b_used b, reserved))) s1 = (Inr views, s')" and "budgets_wf s1"
    for n and bs :: "budget list" and s1 views
    using that
  proof (induction bs arbitrary: n s1 views)
    case Nil
    then show ?case by (auto intro: rolled_refl)
  next
    case (Cons b bs)
    then obtain v s2 vs where a: "budget_active_reserved_at cal (b_id b) (clk n) s1 = Inr (v, s2)"
      and rest: "svc_mapi (Suc n) bs (\<lambda>i b.
         svc_bind (svc_call as_storage (budget_active_reserved_at cal (b_id b) (clk i))) (\<lambda>reserved.
           svc_return (b_id b, b_used b, reserved))) s2 = (Inr vs, s')" by auto
    have r: "rolled (range clk) s1 s2" by (rule active_reserved_rolled [OF a Cons.prems(2)]) simp
    then have "budgets_wf s2" by (simp add: rolled_def)
    from Cons.IH [OF rest this] r show ?case by (blast intro: rolled_trans)
  qed
  moreover have "budgets_wf s1" using r1 by (simp add: rolled_def)
  ultimately show ?thesis using m r1 by (blast intro: rolled_trans)
qed

section \<open>The usage of a budget cycle\<close>

definition cycle_usage :: "db \<Rightarrow> reservation_id \<Rightarrow> job_id \<Rightarrow> usage_event list" where
  "cycle_usage s rid jid = (case find (\<lambda>r. rv_id r = rid) (db_reservations s) of
      None \<Rightarrow> []
    | Some row \<Rightarrow> map lg_event (filter (\<lambda>x. ue_job_id (lg_event x) = Some jid
        \<and> rv_usage_sequence_start row < lg_sequence x) (db_ledger s)))"

lemma after_boundary:
  assumes "ledger_wf s" and "x \<in> set (db_ledger s)" and "0 \<le> start"
  shows "i64_from_u64_or_max (nat start) < lg_sequence x \<longleftrightarrow> start < lg_sequence x"
proof -
  from assms(1,2) have "lg_sequence x \<le> i64_max" by (auto simp: ledger_wf_def)
  with assms(3) show ?thesis by (auto simp: i64_from_u64_or_max_def i64_try_from_u64_def)
qed

lemma listed_cycle_usage:
  assumes "ledger_wf s" and "budget_usage_sequence_start rid s = Inr (n, s')"
  shows "s' = s" and "filtered_events (job_usage_after jid n) s = rev (cycle_usage s rid jid)"
proof -
  from assms(2) obtain row where row: "find (\<lambda>r. rv_id r = rid) (db_reservations s) = Some row"
    and nn: "0 \<le> rv_usage_sequence_start row" and n: "n = nat (rv_usage_sequence_start row)"
    and s': "s' = s" by (auto simp: budget_usage_sequence_start_def)
  from s' show "s' = s" .
  have "filter (matches_filter (job_usage_after jid n)) (db_ledger s)
    = filter (\<lambda>x. ue_job_id (lg_event x) = Some jid \<and> rv_usage_sequence_start row < lg_sequence x)
        (db_ledger s)"
    by (rule filter_cong [OF refl])
       (auto simp: matches_filter_def job_usage_after_def no_filter_def matches_option_def n
          after_boundary [OF assms(1) _ nn])
  with filtered_events_rev [OF assms(1), of "job_usage_after jid n"]
  show "filtered_events (job_usage_after jid n) s = rev (cycle_usage s rid jid)"
    by (simp add: job_usage_after_def no_filter_def cycle_usage_def row)
qed

text \<open>What a settlement charges: the known amounts, at least the reserved amount if one is unknown.\<close>

definition settled_amount :: "budget \<Rightarrow> usage_event list \<Rightarrow> budget_allocation \<Rightarrow> i64" where
  "settled_amount b events a =
     (let amounts = map (usage_amount_for_budget b) (applicable_usage b events);
          known = min i64_max (known_amounts amounts)
      in if None \<in> set amounts then max known (ba_reserved_amount a) else known)"

lemma known_amounts_rev [simp]: "known_amounts (rev xs) = known_amounts xs"
  by (simp add: known_amounts_def sum_list_rev flip: rev_map)

lemma actual_usage_settled: "actual_usage b (rev events) a = settled_amount b events a"
proof -
  have "map (usage_amount_for_budget b) (applicable_usage b (rev events))
      = rev (map (usage_amount_for_budget b) (applicable_usage b events))"
    by (simp add: applicable_usage_def rev_map rev_filter)
  then show ?thesis
    by (simp add: actual_usage_def sum_known_exact settled_amount_def Let_def)
qed

definition settled_allocation :: "db \<Rightarrow> usage_event list \<Rightarrow> budget_allocation \<Rightarrow> budget_allocation" where
  "settled_allocation s events a = a\<lparr>ba_actual_amount :=
     map_option (\<lambda>b. settled_amount b events a) (find_budget s (ba_budget_id a))\<rparr>"

section \<open>Jobs are left alone\<close>

lemma job_get_frame: "db_jobs s' = db_jobs s \<Longrightarrow>
  job_get i s = Inr (found, s) \<Longrightarrow> job_get i s' = Inr (found, s')"
  unfolding job_get_def find_job_row_def by (auto split: option.splits)

lemma job_get_Inr: "job_get i s = Inr (found, s') \<Longrightarrow> s' = s"
  unfolding job_get_def by (auto split: option.splits)

lemma reconcile_allocation_tx_jobs:
  "reconcile_allocation_tx cal i r actuals now a s = Inr (a', s') \<Longrightarrow> db_jobs s' = db_jobs s"
  by (erule reconcile_allocation_tx_steps, erule ensure_current_period_tx_Inr)
     (auto simp: persist_budget_state_tx_Inr dest!: charge_budget_tx_Inr(2))

lemma budget_reconcile_jobs:
  assumes "budget_reconcile cal i actuals now s = Inr (r', s')" and "budgets_wf s"
  shows "db_jobs s' = db_jobs s"
  using assms
proof (rule budget_reconcile_Inr)
  fix r s1
  assume m: "tx_mapM (br_allocations r) (reconcile_allocation_tx cal i r (map_of actuals) now) s
      = Inr (br_allocations r', s1)"
    and st: "settle_row_tx i Reconciled now r' s1 = Inr ((), s')"
  have "tx_keeps (\<lambda>t. db_jobs t = db_jobs s)
      (tx_mapM (br_allocations r) (reconcile_allocation_tx cal i r (map_of actuals) now))"
    by (intro tx_keeps_mapM tx_keepsI) (auto dest: reconcile_allocation_tx_jobs)
  from tx_keepsD [OF this m] st show ?thesis by (simp add: settle_row_tx_def)
qed

section \<open>Settling one reservation\<close>

lemma map_of_nonneg: "list_all (\<lambda>(_, v). (0::int) \<le> v) m \<Longrightarrow> map_of m k = Some v \<Longrightarrow> 0 \<le> v"
  by (auto simp: list_all_iff dest: map_of_SomeD)

lemma reconcile_allocations_found:
  assumes "tx_mapM xs (reconcile_allocation_tx cal i r (map_of m) now) s = Inr (ys, s')"
    and "budgets_wf s" and "list_all (\<lambda>(_, v). 0 \<le> v) m" and "a \<in> set xs"
  shows "\<exists>b. find_budget s (ba_budget_id a) = Some b"
  using assms(1,2,4)
proof (induction xs arbitrary: s ys)
  case (Cons x xs)
  from Cons.prems(1) obtain x' s1 zs where c: "reconcile_allocation_tx cal i r (map_of m) now x s = Inr (x', s1)"
    and rest: "tx_mapM xs (reconcile_allocation_tx cal i r (map_of m) now) s1 = Inr (zs, s')" by auto
  from c obtain b where b: "find_budget s (ba_budget_id x) = Some b"
    by (cases rule: reconcile_allocation_tx_steps)
  show ?case
  proof (cases "ba_budget_id a = ba_budget_id x")
    case False
    with Cons.prems(3) have "a \<in> set xs" by auto
    moreover have "budgets_wf s1"
      by (rule reconcile_allocation_tx_wf [OF c Cons.prems(2)]) (rule map_of_nonneg [OF assms(3)])
    ultimately obtain b' where "find_budget s1 (ba_budget_id a) = Some b'"
      using Cons.IH [OF rest] by blast
    with reconcile_allocation_tx_effect(2) [OF c Cons.prems(2) b] False show ?thesis by simp
  qed (use b in simp)
qed simp

lemma collected_reconciliation:
  assumes c: "collect_actuals cal clk (rev events) (br_allocations r) [] s = (Inr actuals, s1)"
    and k: "budget_reconcile cal rid actuals now s1 = Inr (x, s2)"
    and wf: "budgets_wf s" and r: "find_reservation s rid = Some r" and "is_open (br_status r)"
  shows "find_reservation s2 rid = Some (r\<lparr>br_allocations := map (settled_allocation s events)
      (br_allocations r), br_status := Reconciled, br_reconciled_at := Some now\<rparr>)"
    and "db_jobs s2 = db_jobs s" and "budgets_wf s2"
proof -
  note col = collect_actuals_rolled [OF c wf]
  then have roll: "rolled (range clk) s s1" by blast
  then have wf1: "budgets_wf s1" by (simp add: rolled_def)
  show "budgets_wf s2" by (rule budget_reconcile_wf [OF k wf1])
  show "db_jobs s2 = db_jobs s"
    using budget_reconcile_jobs [OF k wf1] rolled_frames(3) [OF roll] by simp
  obtain row where row: "reservation_row_ok row" "r = decode_reservation_row row"
    by (rule find_reservation_ok [OF wf r])
  then have d: "distinct (map ba_budget_id (rev (br_allocations r)))"
    by (simp add: reservation_row_ok_def decode_reservation_row_def rev_map [symmetric])
  have looked: "map_of actuals (ba_budget_id a) = map_option (\<lambda>b. settled_amount b events a)
      (find_budget s (ba_budget_id a))" if "a \<in> set (br_allocations r)" for a
    using col find_id_unique [OF d, of a] that
    by (simp add: actual_usage_settled split: option.split)
  from k wf1 show "find_reservation s2 rid = Some (r\<lparr>br_allocations := map (settled_allocation s events)
      (br_allocations r), br_status := Reconciled, br_reconciled_at := Some now\<rparr>)"
  proof (rule budget_reconcile_Inr)
    fix r1 t
    assume f: "find_reservation s1 rid = Some r1" and o: "is_open (br_status r1)"
      and nn: "list_all (\<lambda>(_, v). 0 \<le> v) actuals"
      and x: "x = r1\<lparr>br_allocations := map (\<lambda>a. a\<lparr>ba_actual_amount := Some (actual_of (map_of actuals) a)\<rparr>)
                (br_allocations r1), br_status := Reconciled, br_reconciled_at := Some now\<rparr>"
      and m: "tx_mapM (br_allocations r1) (reconcile_allocation_tx cal rid r1 (map_of actuals) now) s1
        = Inr (br_allocations x, t)"
      and res: "db_reservations t = db_reservations s1"
      and st: "settle_row_tx rid Reconciled now x t = Inr ((), s2)"
    from rolled_reservation [OF roll r] f
    have r1: "r1 = r \<or> r1 = r\<lparr>br_status := Expired\<rparr>" by auto
    then have al: "br_allocations r1 = br_allocations r" by auto
    have known: "find_budget s (ba_budget_id a) \<noteq> None" if "a \<in> set (br_allocations r)" for a
      using reconcile_allocations_found [OF m wf1 nn] that al
      by (auto elim!: rolled_budget_back [OF roll])
    have "map (\<lambda>a. a\<lparr>ba_actual_amount := Some (actual_of (map_of actuals) a)\<rparr>) (br_allocations r)
        = map (settled_allocation s events) (br_allocations r)"
      using known looked
      by (intro map_cong [OF refl]) (force simp: settled_allocation_def actual_of_def)
    then have "x = r\<lparr>br_allocations := map (settled_allocation s events)
      (br_allocations r), br_status := Reconciled, br_reconciled_at := Some now\<rparr>"
      using x r1 al by auto
    moreover from f res have "find_reservation t rid = Some r1" by (simp add: find_reservation_def)
    from find_reservation_settle [OF st this o] x have "find_reservation s2 rid = Some x" by simp
    ultimately show ?thesis by simp
  qed
qed

end
