(* ===== verification/Budget_Service_Properties.thy ===== *)
theory Budget_Service_Properties
  imports Budget_Service_Correctness Budget_Properties
begin

text \<open>
  What the service guarantees about budgets: estimates are covered by the reservation that is made
  from them, a dispatch passes only within its reservation, and a finished job is settled once with
  the usage of its cycle.
\<close>

section \<open>Reservation\<close>

lemma prepared:
  assumes "prepare_reservation_for_estimates cal clk fresh j es s = (Inr prepared, s')"
    and "budgets_wf s"
  obtains bs allocations where "budget_list_enabled_at cal (clk 0) s = Inr (bs, s')"
    and "allocations_for (j_allow_budget_override j) es bs = Inr allocations"
    and "prepared = (if allocations = [] then None
         else Some \<lparr>br_id = fresh, br_job_id = j_id j, br_status = Active,
                br_allocations = allocations, br_created_at = clk 1,
                br_expires_at = Some (clk 1 + reservation_days), br_reconciled_at = None\<rparr>)"
    and "rolled {clk 0} s s'" and "distinct (map ba_budget_id allocations)"
proof -
  from assms(1) obtain bs allocations where l: "budget_list_enabled_at cal (clk 0) s = Inr (bs, s')"
    and a: "allocations_for (j_allow_budget_override j) es bs = Inr allocations"
    and p: "prepared = (if allocations = [] then None
         else Some \<lparr>br_id = fresh, br_job_id = j_id j, br_status = Active,
                br_allocations = allocations, br_created_at = clk 1,
                br_expires_at = Some (clk 1 + reservation_days), br_reconciled_at = None\<rparr>)"
    by (auto simp: prepare_reservation_for_estimates_def)
  note r = list_enabled_rolled [OF l assms(2) singletonI]
  from r(2) have "distinct (map ba_budget_id allocations)"
    unfolding allocations_for_ids [OF a] by (rule distinct_map_filter)
  with l a p r(1) show ?thesis by (rule that)
qed

text \<open>An enabled budget that applies to an estimate has its allocation.\<close>

lemma prepared_allocation:
  assumes "budget_list_enabled_at cal now s = Inr (bs, s')" and "budgets_wf s"
    and "allocations_for override es bs = Inr allocations"
    and "find_budget s i = Some b" and "b_enabled b" and "applicable_estimates b es \<noteq> []"
  shows "\<exists>a \<in> set allocations. ba_budget_id a = i \<and> ba_actual_amount a = None
    \<and> (case estimate_budget_amount b (applicable_estimates b es) of
         Some v \<Rightarrow> ba_reserved_amount a = max v 0
       | None \<Rightarrow> (b_hard b \<longrightarrow> override) \<and> ba_reserved_amount a = 0)"
proof -
  from list_enabled_rolled(4) [OF assms(1,2) singletonI assms(4,5)] obtain b'
    where b': "b' \<in> set bs" "b_id b' = i" and t: "same_budget_terms b b'" by blast
  note m = same_terms_amounts [OF t]
  have "b_hard b' = b_hard b" using t by (simp add: same_budget_terms_def)
  moreover have "applicable_estimates b' es \<noteq> []" using assms(6) m(6) by simp
  ultimately show ?thesis
    using allocations_for_member [OF assms(3) b'(1)] b'(2) m(6,7)
    by (cases "estimate_budget_amount b (applicable_estimates b es)") simp_all
qed

definition estimated_amounts :: "budget \<Rightarrow> rated_usage_estimate list \<Rightarrow> i64 option list" where
  "estimated_amounts b es = map (estimate_amount_for_budget b) (applicable_estimates b es)"

lemma estimate_budget_amount_exact:
  "estimate_budget_amount b (applicable_estimates b es) = (if None \<in> set (estimated_amounts b es) then None
     else Some (min i64_max (known_amounts (estimated_amounts b es))))"
  by (simp add: estimate_budget_amount_def fold_amounts_exact estimated_amounts_def)

text \<open>
  A prepared reservation covers every enabled budget that applies to one of the estimates, for
  exactly the sum of the non-negative estimated amounts (cut at the largest i64). It is refused when
  the amount of a hard budget is unknown, unless the job overrides budgets; then, and for a soft
  budget, an unknown amount reserves nothing. It is active, belongs to the job, has one allocation
  per budget and expires after seven days; preparing it writes no reservation.
\<close>

theorem prepared_reservation_covers_estimates:
  assumes "prepare_reservation_for_estimates cal clk fresh j es s = (Inr prepared, s')"
    and "budgets_wf s"
  shows "(\<forall>i b. find_budget s i = Some b \<longrightarrow> b_enabled b \<longrightarrow> applicable_estimates b es \<noteq> [] \<longrightarrow>
      (\<exists>r a. prepared = Some r \<and> a \<in> set (br_allocations r) \<and> ba_budget_id a = i
        \<and> ba_actual_amount a = None
        \<and> (if None \<in> set (estimated_amounts b es)
           then (b_hard b \<longrightarrow> j_allow_budget_override j) \<and> ba_reserved_amount a = 0
           else ba_reserved_amount a = min i64_max (known_amounts (estimated_amounts b es)))))
    \<and> (\<forall>r. prepared = Some r \<longrightarrow> br_id r = fresh \<and> br_job_id r = j_id j \<and> br_status r = Active
        \<and> br_allocations r \<noteq> [] \<and> distinct (map ba_budget_id (br_allocations r))
        \<and> br_created_at r = clk 1 \<and> br_expires_at r = Some (clk 1 + reservation_days)
        \<and> map rv_id (db_reservations s') = map rv_id (db_reservations s))"
  using assms
proof (rule prepared)
  fix bs allocations
  assume l: "budget_list_enabled_at cal (clk 0) s = Inr (bs, s')"
    and a: "allocations_for (j_allow_budget_override j) es bs = Inr allocations"
    and p: "prepared = (if allocations = [] then None
         else Some \<lparr>br_id = fresh, br_job_id = j_id j, br_status = Active,
                br_allocations = allocations, br_created_at = clk 1,
                br_expires_at = Some (clk 1 + reservation_days), br_reconciled_at = None\<rparr>)"
    and roll: "rolled {clk 0} s s'" and d: "distinct (map ba_budget_id allocations)"
  have covered: "\<exists>r a. prepared = Some r \<and> a \<in> set (br_allocations r) \<and> ba_budget_id a = i
        \<and> ba_actual_amount a = None
        \<and> (if None \<in> set (estimated_amounts b es)
           then (b_hard b \<longrightarrow> j_allow_budget_override j) \<and> ba_reserved_amount a = 0
           else ba_reserved_amount a = min i64_max (known_amounts (estimated_amounts b es)))"
    if b: "find_budget s i = Some b" "b_enabled b" "applicable_estimates b es \<noteq> []" for i b
  proof -
    from prepared_allocation [OF l assms(2) a b] obtain x where x: "x \<in> set allocations"
      "ba_budget_id x = i" "ba_actual_amount x = None"
      and v: "case estimate_budget_amount b (applicable_estimates b es) of
         Some v \<Rightarrow> ba_reserved_amount x = max v 0
       | None \<Rightarrow> (b_hard b \<longrightarrow> j_allow_budget_override j) \<and> ba_reserved_amount x = 0" by blast
    from x(1) have "allocations \<noteq> []" by auto
    moreover have "max (min i64_max (known_amounts (estimated_amounts b es))) 0
        = min i64_max (known_amounts (estimated_amounts b es))"
      using known_amounts_nonneg [of "estimated_amounts b es"] by (simp add: i64_max_def)
    ultimately show ?thesis using p x v
      by (auto simp: estimate_budget_amount_exact split: if_splits)
  qed
  have "map rv_id (db_reservations s') = map rv_id (db_reservations s)"
    using roll by (auto simp: rolled_def expiry_only_def expire_row_def intro!: map_sql_update)
  with covered p d show ?thesis by auto
qed

section \<open>Dispatch\<close>




section \<open>Settlement\<close>

text \<open>
  C33. Settling a finished job with an open reservation ends in one of three ways. Without usage in
  the cycle, a completed dispatch whose usage is missing keeps the reservation and changes nothing;
  otherwise the reservation is released. With usage it is reconciled, and each budget is charged
  the known amounts of its usage (cut at the largest i64), at least the reserved amount when one is
  unknown. After that the reservation is settled and settling again is a no-op.
\<close>

theorem settlement_outcome:
  assumes fin: "finalize_job_reservation_locked cal clk jid s = (Inr views, s')"
    and wf: "budgets_wf s" and lw: "ledger_wf s"
    and j: "job_get jid s = Inr (Some j, s)" and te: "is_terminal (j_state j)"
    and rid: "j_reservation_id j = Some rid"
    and r: "find_reservation s rid = Some r" and op: "is_open (br_status r)"
  shows "if cycle_usage s rid jid = [] \<and> successful_dispatch_exists jid (br_created_at r) s then s' = s
    else (\<exists>now. find_reservation s' rid = Some
        (if cycle_usage s rid jid = [] then r\<lparr>br_status := Released, br_reconciled_at := Some now\<rparr>
         else r\<lparr>br_allocations := map (settled_allocation s (cycle_usage s rid jid)) (br_allocations r),
                br_status := Reconciled, br_reconciled_at := Some now\<rparr>))
      \<and> (\<forall>clk'. finalize_job_reservation_locked cal clk' jid s' = (Inr [], s'))"
proof -
  have st: "br_status r \<notin> {Reconciled, Released}" using op by (auto simp: is_open_def)
  from fin j te rid r st obtain n u where n: "budget_usage_sequence_start rid s = Inr (n, u)"
    and rest: "settle_reservation cal clk jid rid r (filtered_events (job_usage_after jid n) u) u
      = (Inr views, s')"
    by (auto simp: finalize_job_reservation_locked_def budget_get_reservation_def
        load_reservation_tx_def usage_list_def)
  note ev = listed_cycle_usage [OF lw n]
  let ?es = "cycle_usage s rid jid"
  from rest ev have rest: "settle_reservation cal clk jid rid r (rev ?es) s = (Inr views, s')" by simp
  have again: "\<forall>clk'. finalize_job_reservation_locked cal clk' jid s' = (Inr [], s')"
    if "find_reservation s' rid = Some r'" "br_status r' \<in> {Reconciled, Released}"
      "db_jobs s' = db_jobs s" for r'
    using job_get_frame [OF that(3) j] that(1,2) te rid
    by (auto simp: finalize_job_reservation_locked_def budget_get_reservation_def
        load_reservation_tx_def)
  have refreshed: "find_reservation s' rid = Some r'"
    if "find_reservation t rid = Some r'" "br_status r' \<noteq> Active"
      "refresh_budget_views cal clk' t = (Inr views, s')" "budgets_wf t" for t r' clk'
    using rolled_reservation [OF refresh_rolled [OF that(3,4)] that(1)] that(2) by auto
  show ?thesis
  proof (cases "?es = []")
    case True
    show ?thesis
    proof (cases "successful_dispatch_exists jid (br_created_at r) s")
      case False
      from rest True False obtain x t where rel: "budget_release rid (clk 0) s = Inr (x, t)"
        and ref: "refresh_budget_views cal (later 1 clk) t = (Inr views, s')"
        by (auto simp: settle_reservation_def)
      let ?r = "r\<lparr>br_status := Released, br_reconciled_at := Some (clk 0)\<rparr>"
      from rel r have se: "settle_row_tx rid Released (clk 0) ?r s = Inr ((), t)"
        by (auto simp: budget_release_def require_open_reservation_tx_Inr Let_def)
      have wt: "budgets_wf t" by (rule budget_release_wf [OF rel wf])
      have f: "find_reservation s' rid = Some ?r"
        by (rule refreshed [OF find_reservation_settle [OF se r op] _ ref wt]) simp_all
      moreover have "db_jobs s' = db_jobs s"
        using rolled_frames(3) [OF refresh_rolled [OF ref wt]] se by (simp add: settle_row_tx_def)
      ultimately show ?thesis using again True False by auto
    qed (use rest True in \<open>auto simp: settle_reservation_def\<close>)
  next
    case False
    let ?n = "length (br_allocations r)"
    from rest False obtain actuals t x w where c: "collect_actuals cal clk (rev ?es) (br_allocations r) [] s
        = (Inr actuals, t)" and k: "budget_reconcile cal rid actuals (clk ?n) t = Inr (x, w)"
      and ref: "refresh_budget_views cal (later (?n + 1) clk) w = (Inr views, s')"
      by (auto simp: settle_reservation_def Let_def)
    note s = collected_reconciliation [OF c k wf r op]
    have f: "find_reservation s' rid = Some (r\<lparr>br_allocations :=
        map (settled_allocation s ?es) (br_allocations r), br_status := Reconciled,
        br_reconciled_at := Some (clk ?n)\<rparr>)"
      by (rule refreshed [OF s(1) _ ref s(3)]) simp
    moreover have "db_jobs s' = db_jobs s"
      using rolled_frames(3) [OF refresh_rolled [OF ref s(3)]] s(2) by simp
    ultimately show ?thesis using again False by auto
  qed
qed

section \<open>A planned dispatch passes\<close>










section \<open>Witnesses\<close>

text \<open>One lifetime budget of 1000 characters, 10 used; job 11 reserves 60 characters and uses 45.\<close>

definition small_budget :: budget where
  "small_budget = sample_budget 2 Lifetime 1000 10"

definition small_db :: db where
  "small_db = sample_db\<lparr>db_budgets := [sample_row small_budget]\<rparr>"

definition small_clock :: clock where
  "small_clock = (\<lambda>i. int (min i 5))"

definition small_estimate :: rated_usage_estimate where
  "small_estimate = \<lparr>re_provider_profile_id = 5, re_workload = Tts,
     re_quantities = no_quantities\<lparr>uq_characters := Some 60\<rparr>, re_cost = None, re_rate_card_id = None\<rparr>"

definition small_reservation :: budget_reservation where
  "small_reservation = \<lparr>br_id = 21, br_job_id = 11, br_status = Active,
     br_allocations = [\<lparr>ba_budget_id = 2, ba_reserved_amount = 60, ba_actual_amount = None\<rparr>],
     br_created_at = 1, br_expires_at = Some (1 + reservation_days), br_reconciled_at = None\<rparr>"

definition small_reserved :: db where
  "small_reserved = small_db\<lparr>db_reservations := [reservation_row_of small_reservation 0],
     db_allocations := map (allocation_row_of 21) (br_allocations small_reservation)\<rparr>"

definition small_job :: "job_state \<Rightarrow> job" where
  "small_job st = (sample_job 11)\<lparr>j_state := st, j_reservation_id := Some 21\<rparr>"

definition small_event :: usage_event where
  "small_event = \<lparr>ue_id = 31, ue_occurred_at = 2, ue_workload = Tts, ue_project_id = 7,
     ue_job_id = Some 11, ue_attempt_id = None, ue_chapter_id = None, ue_segment_id = None,
     ue_provider_profile_id = 5, ue_provider_family = [], ue_endpoint_family = [], ue_model = None,
     ue_voice_profile_id = None, ue_provider_request_id = None,
     ue_quantities = no_quantities\<lparr>uq_characters := Some 45\<rparr>, ue_quantity_source = Reported,
     ue_cost = None, ue_cost_source = UnknownQuality, ue_rate_card_id = None,
     ue_uncertain_charge = False, ue_redacted_raw_usage = []\<rparr>"

definition small_finished :: db where
  "small_finished = small_reserved\<lparr>db_jobs := [sample_job_row (small_job Completed)],
     db_ledger := [\<lparr>lg_sequence = 1, lg_event = small_event\<rparr>], db_ledger_last := 1\<rparr>"

lemmas small_defs =
  small_db_def small_budget_def small_estimate_def small_reservation_def small_reserved_def
  small_job_def small_event_def small_finished_def small_clock_def reservation_days_def
  no_quantities_def sample_defs

lemma small_wf: "budgets_wf small_db" "budgets_wf small_reserved" "budgets_wf small_finished"
  by (simp_all add: small_defs budgets_wf_def budget_table_ok_def budget_row_ok_def usage_table_ok_def
      reservation_table_ok_def reservation_row_ok_def reservation_row_of_def active_jobs_def
      allocation_table_ok_def allocation_row_ok_def allocation_key_def allocation_row_of_def)

lemma small_ledger_wf: "ledger_wf small_db" "ledger_wf small_finished"
  by (simp_all add: small_defs ledger_wf_def i64_max_def)

lemmas service_eval =
  settlement_eval budget_list_enabled_at_def budget_active_reserved_at_def budget_get_at_def
  prepare_reservation_for_estimates_def reserve_for_estimates_def refresh_budget_views_def
  verify_dispatch_is_reserved_def verify_reservation_def check_dispatch_def
  finalize_job_reservation_locked_def settle_reservation_def job_get_def find_job_row_def
  decode_job_row_def budget_get_reservation_def budget_usage_sequence_start_def usage_list_def
  filtered_events_def matches_filter_def job_usage_after_def no_filter_def matches_option_def
  actual_usage_def applicable_usage_def usage_amount_for_budget_def metric_amount_def
  structurally_known_zero_def amount_for_def budget_applies_to_provider_def u64_defs
  applicable_estimates_def estimate_budget_amount_def estimate_amount_for_budget_def
  new_allocation_def as_storage_def as_conflict_def later_def svc_call_def commit_def svc_bind_def
  svc_then_def svc_return_def svc_fail_def svc_gets_def svc_ensure_def svc_some_def svc_lift_def

lemma small_prepare:
  "prepare_reservation_for_estimates gregorian small_clock 21 (sample_job 11) [small_estimate] small_db
    = (Inr (Some small_reservation), small_db)"
  by (simp add: service_eval small_defs)

theorem prepared_reservation_covers_estimates_witness:
  "find_budget small_db 2 = Some small_budget \<and> ba_reserved_amount (hd (br_allocations small_reservation))
     = min i64_max (known_amounts (estimated_amounts small_budget [small_estimate]))"
proof -
  have b: "find_budget small_db 2 = Some small_budget" "b_enabled small_budget"
    "applicable_estimates small_budget [small_estimate] \<noteq> []"
    "None \<notin> set (estimated_amounts small_budget [small_estimate])"
    by (simp_all add: estimated_amounts_def service_eval small_defs)
  have "br_allocations small_reservation = [hd (br_allocations small_reservation)]"
    by (simp add: small_reservation_def)
  with b prepared_reservation_covers_estimates [OF small_prepare small_wf(1), THEN conjunct1,
    rule_format, of 2 small_budget] show ?thesis by (auto simp: small_reservation_def)
qed










lemma small_finalize:
  "\<exists>views s'. finalize_job_reservation_locked gregorian small_clock 11 small_finished = (Inr views, s')"
  by (simp add: service_eval small_defs)

theorem settlement_outcome_witness:
  "\<exists>views s' r. finalize_job_reservation_locked gregorian small_clock 11 small_finished = (Inr views, s')
     \<and> find_reservation s' 21 = Some r \<and> map ba_actual_amount (br_allocations r) = [Some 45]
     \<and> finalize_job_reservation_locked gregorian small_clock 11 s' = (Inr [], s')"
proof -
  obtain views s' where f: "finalize_job_reservation_locked gregorian small_clock 11 small_finished
    = (Inr views, s')" using small_finalize by blast
  have j: "job_get 11 small_finished = Inr (Some (small_job Completed), small_finished)"
    and t: "is_terminal (j_state (small_job Completed))"
    and rid: "j_reservation_id (small_job Completed) = Some 21"
    and r: "find_reservation small_finished 21 = Some small_reservation"
    and op: "is_open (br_status small_reservation)"
    by (simp_all add: service_eval small_defs)
  have u: "cycle_usage small_finished 21 11 = [small_event]"
    by (simp add: cycle_usage_def service_eval small_defs)
  have a: "map ba_actual_amount (map (settled_allocation small_finished [small_event])
      (br_allocations small_reservation)) = [Some 45]"
    by (simp add: settled_allocation_def settled_amount_def known_amounts_def service_eval small_defs)
  from settlement_outcome [OF f small_wf(3) small_ledger_wf(2) j t rid r op, unfolded u] obtain now where
    "find_reservation s' 21 = Some (small_reservation\<lparr>br_allocations :=
        map (settled_allocation small_finished [small_event]) (br_allocations small_reservation),
        br_status := Reconciled, br_reconciled_at := Some now\<rparr>)"
    "finalize_job_reservation_locked gregorian small_clock 11 s' = (Inr [], s')" by auto
  with f a show ?thesis by simp
qed

end
