(* ===== verification/Usage_Properties.thy ===== *)
theory Usage_Properties
  imports Budget_Service_Properties
begin

text \<open>
  Properties of prices, of the usage ledger and of its totals, with witnesses on a card with prices
  per token and per million tokens and a ledger of three events.
\<close>

section \<open>Prices\<close>

text \<open>The exact price of the parts, before rounding.\<close>

definition exact_price :: "(u64 \<times> rat option) list \<Rightarrow> rat" where
  "exact_price ps = sum_list (map (\<lambda>(n, p). of_nat n * the p) ps)"

lemma ceiling_sum_bounds:
  fixes f :: "'a \<Rightarrow> rat"
  shows "sum_list (map f ps) \<le> of_int (sum_list (map (\<lambda>x. \<lceil>f x\<rceil>) ps))
    \<and> of_int (sum_list (map (\<lambda>x. \<lceil>f x\<rceil>) ps)) \<le> sum_list (map f ps) + of_nat (length ps)"
proof (induction ps)
  case (Cons x ps)
  have "f x \<le> of_int \<lceil>f x\<rceil>" "of_int \<lceil>f x\<rceil> \<le> f x + 1"
    using le_of_int_ceiling [of "f x"] of_int_ceiling_le_add_one [of "f x"] by simp_all
  with Cons show ?case by (intro conjI; simp; linarith)
qed simp

text \<open>
  Pricing a character-detection request with a card of admitted prices agrees with exact
  rational arithmetic: the input tokens that were not read from the cache, the output tokens, the
  cached and the reasoning tokens are each priced per token (the latter two at the input and output
  price if the card has none of their own), rounded up, and added; the price is unknown exactly if
  one of these parts has no price. As long as no part overflows an i64, only the sum is cut, at
  the largest i64.
\<close>

theorem detection_price_exact:
  assumes "validate_rate_pricing DetectionWorkload (rc_pricing rc) = Inr ()"
    and "\<forall>(k, r) \<in> set (rc_pricing rc). in_i64 r" and "rc_workload rc = DetectionWorkload"
    and "rates_fit rc m" and "m \<le> u64_max" and "uq_input_tokens q = Some i" and "i \<le> m"
    and "uq_output_tokens q = Some k" and "k \<le> m" and "unwrap_or_zero (uq_reasoning_tokens q) \<le> m"
  shows "map_option mo_micros (price_quantities rc q) = price_of_parts (detection_parts rc q)
    \<and> (\<forall>v. price_of_parts (detection_parts rc q) = Some v \<longrightarrow> v < i64_max \<longrightarrow>
         exact_price (detection_parts rc q) \<le> of_int v
         \<and> of_int v \<le> exact_price (detection_parts rc q) + 4)"
proof -
  have "price_character_detection rc q = price_of_parts (detection_parts rc q)"
    by (rule price_character_detection_exact
        [OF validate_rate_pricing_ok [OF assms(1,2)] assms(4-10)])
  moreover have "exact_price (detection_parts rc q) \<le> of_int v
      \<and> of_int v \<le> exact_price (detection_parts rc q) + 4"
    if v: "price_of_parts (detection_parts rc q) = Some v" "v < i64_max" for v
  proof -
    let ?ps = "detection_parts rc q"
    from v have sum: "v = sum_list (map (\<lambda>x. \<lceil>(\<lambda>(n, p). of_nat n * the p) x\<rceil>) ?ps)"
      by (auto simp: price_of_parts_def min_def case_prod_unfold split: if_splits)
    have four: "(of_nat (length ?ps) :: rat) \<le> 4"
      by (simp add: detection_parts_def Let_def)
    from ceiling_sum_bounds [of "\<lambda>(n, p). of_nat n * the p" ?ps] four
    show ?thesis unfolding sum exact_price_def by linarith
  qed
  ultimately show ?thesis
    using assms(3) by (simp add: price_quantities_def option.map_comp comp_def option.map_ident)
qed

definition sample_card :: rate_card where
  "sample_card = \<lparr>rc_id = 51, rc_provider_profile_id = 5, rc_model = None,
     rc_workload = DetectionWorkload, rc_currency = ''EUR'', rc_effective_at = 0,
     rc_expires_at = None, rc_source = ''list'', rc_source_url = None,
     rc_pricing = [(''per_1m_input_tokens_micros'', 2500000), (''per_output_token_micros'', 10)],
     rc_user_overridden = False\<rparr>"

definition sample_quantities :: usage_quantities where
  "sample_quantities = no_quantities\<lparr>uq_input_tokens := Some 1001, uq_output_tokens := Some 20,
     uq_cache_read_tokens := Some 400, uq_reasoning_tokens := Some 7\<rparr>"

theorem detection_price_exact_witness:
  "\<exists>v. map_option mo_micros (price_quantities sample_card sample_quantities) = Some v
     \<and> exact_price (detection_parts sample_card sample_quantities) \<le> of_int v"
proof -
  have v: "map_option mo_micros (price_quantities sample_card sample_quantities) = Some 2773"
    by code_simp
  have c: "validate_rate_pricing DetectionWorkload (rc_pricing sample_card) = Inr ()"
    "\<forall>(k, r) \<in> set (rc_pricing sample_card). in_i64 r" "rc_workload sample_card = DetectionWorkload"
    "rates_fit sample_card 2000" "(2000::nat) \<le> u64_max"
    by (simp_all add: sample_card_def validate_rate_pricing_def ai_keys_def rates_fit_def i64_defs u64_defs
        Let_def)
  have q: "uq_input_tokens sample_quantities = Some 1001" "uq_output_tokens sample_quantities = Some 20"
    "unwrap_or_zero (uq_reasoning_tokens sample_quantities) \<le> 2000"
    by (simp_all add: sample_quantities_def unwrap_or_zero_def no_quantities_def)
  have "map_option mo_micros (price_quantities sample_card sample_quantities)
      = price_of_parts (detection_parts sample_card sample_quantities)
    \<and> (\<forall>v. price_of_parts (detection_parts sample_card sample_quantities) = Some v \<longrightarrow> v < i64_max \<longrightarrow>
         exact_price (detection_parts sample_card sample_quantities) \<le> of_int v
         \<and> of_int v \<le> exact_price (detection_parts sample_card sample_quantities) + 4)"
    by (rule detection_price_exact [OF c q(1) _ q(2) _ q(3)]) simp_all
  with v show ?thesis by (intro exI [of _ 2773]) (simp add: i64_max_def)
qed

section \<open>The ledger\<close>

text \<open>
  The usage ledger is append-only: whatever is appended, and whatever happens to other tables,
  the events recorded before stay, in order and with their sequence numbers, new ones come after
  them with larger numbers, and the ledger stays well-formed (strictly increasing positive sequence
  numbers that fit an i64, distinct event identifiers).
\<close>

theorem ledger_append_only:
  assumes "ledger_wf s0" and "ledger_grows s0 s"
  shows "ledger_wf s \<and> (\<exists>rows. db_ledger s = db_ledger s0 @ rows
    \<and> (\<forall>r \<in> set rows. \<forall>q \<in> set (db_ledger s0). lg_sequence q < lg_sequence r))"
proof -
  obtain rows where "db_ledger s = db_ledger s0 @ rows"
    and "\<forall>r \<in> set rows. db_ledger_last s0 < lg_sequence r"
    by (rule ledger_grows_rows [OF assms(2,1)])
  moreover have "\<forall>q \<in> set (db_ledger s0). lg_sequence q \<le> db_ledger_last s0"
    using assms(1) by (auto simp: ledger_wf_def)
  ultimately show ?thesis using ledger_grows_wf [OF assms(2,1)] by fastforce
qed

text \<open>
  The usage of a budget cycle is exact. After a reservation has been made, and however many
  events are appended to the ledger since, the events that settlement and dispatch checks read for
  the reservation's job are exactly those of this job that were appended after the reservation;
  usage of earlier cycles never counts.
\<close>

theorem cycle_usage_since_reservation:
  assumes wf: "budgets_wf s" and lw: "ledger_wf s"
    and res: "budget_reserve cal r s = Inr (u, s1)"
    and grow: "ledger_grows s1 s2" and kept: "db_reservations s2 = db_reservations s1"
  shows "\<exists>rows. db_ledger s2 = db_ledger s @ rows \<and> cycle_usage s2 (br_id r) jid
      = map lg_event (filter (\<lambda>x. ue_job_id (lg_event x) = Some jid) rows)"
  using res [unfolded budget_reserve_def] budgets_wf_allocations(1) [OF wf]
proof (rule insert_budget_reservation_tx_Inr)
  show "find_budget s i = Some b \<Longrightarrow> b_id b = i" for i b by (rule find_budget_id [OF wf])
  let ?start = "max_sequence (db_ledger s)"
  fix B U t
  assume t: "t = s\<lparr>db_reservations := expired_reservations (br_created_at r) s,
        db_budgets := B, db_period_usage := U\<rparr>"
    and s1: "s1 = t\<lparr>db_reservations := db_reservations t @ [reservation_row_of r ?start],
        db_allocations := db_allocations s @ map (allocation_row_of (br_id r)) (br_allocations r)\<rparr>"
    and c: "\<forall>x \<in> set (db_reservations t). \<not> reservation_clashes (reservation_row_of r ?start) x"
  have lw1: "ledger_wf s1" using lw s1 t by (simp add: ledger_wf_def)
  obtain rows where rows: "db_ledger s2 = db_ledger s1 @ rows"
    and new: "\<forall>x \<in> set rows. db_ledger_last s1 < lg_sequence x"
    by (rule ledger_grows_rows [OF grow lw1])
  have led: "db_ledger s1 = db_ledger s" "db_ledger_last s1 = db_ledger_last s" using s1 t by simp_all
  have start: "?start \<le> db_ledger_last s \<and> (\<forall>x \<in> set (db_ledger s). lg_sequence x \<le> ?start)"
  proof (cases "db_ledger s")
    case (Cons a as)
    have so: "sorted_wrt (<) (map lg_sequence (db_ledger s))" using lw by (simp add: ledger_wf_def)
    with max_of_sorted [OF this] Cons have m: "?start = last (map lg_sequence (db_ledger s))"
      by (simp add: max_sequence_def)
    have "sorted_wrt (<) ns \<Longrightarrow> x \<in> set ns \<Longrightarrow> x \<le> last ns" for ns and x :: int
      by (induction ns) (auto simp: less_imp_le)
    from this [OF so] m have "\<forall>x \<in> set (db_ledger s). lg_sequence x \<le> ?start" by simp
    moreover have "last (db_ledger s) \<in> set (db_ledger s)" using Cons by simp
    ultimately show ?thesis using lw m Cons
      by (auto simp: ledger_wf_def last_map)
  qed (use lw in \<open>simp add: max_sequence_def ledger_wf_def\<close>)
  from c have "find (\<lambda>x. rv_id x = br_id r) (db_reservations t) = None"
    by (auto simp: find_None_iff reservation_clashes_def reservation_row_of_def)
  then have f: "find (\<lambda>x. rv_id x = br_id r) (db_reservations s2) = Some (reservation_row_of r ?start)"
    using kept s1 by (simp add: find_append reservation_row_of_def)
  have old: "filter (\<lambda>x. ue_job_id (lg_event x) = Some jid \<and> ?start < lg_sequence x) (db_ledger s) = []"
    using start by (auto simp: filter_empty_conv not_less)
  have fresh: "filter (\<lambda>x. ue_job_id (lg_event x) = Some jid \<and> ?start < lg_sequence x) rows
      = filter (\<lambda>x. ue_job_id (lg_event x) = Some jid) rows"
    using start new led by (intro filter_cong) auto
  have "cycle_usage s2 (br_id r) jid = map lg_event (filter (\<lambda>x. ue_job_id (lg_event x) = Some jid) rows)"
    using old fresh by (simp add: cycle_usage_def f rows led reservation_row_of_def)
  with rows led show ?thesis by auto
qed

section \<open>Totals\<close>

lemma add_event_fields [simp]:
  "ut_event_count (add_event t e) = ut_event_count t"
  "ut_quantities (add_event t e) = add_quantities (ut_quantities t) (ue_quantities e)"
  "ut_cost_by_currency_micros (add_event t e) = add_cost (ut_cost_by_currency_micros t) (ue_cost e)"
  by (simp_all add: add_event_def)

lemma fold_add_event:
  "ut_event_count (foldl add_event t es) = ut_event_count t"
  "ut_quantities (foldl add_event t es) = foldl add_quantities (ut_quantities t) (map ue_quantities es)"
  "ut_cost_by_currency_micros (foldl add_event t es)
    = foldl add_cost (ut_cost_by_currency_micros t) (map ue_cost es)"
  by (induction es arbitrary: t) simp_all

lemma fold_add_quantities:
  "uq_characters (foldl add_quantities q qs) = foldl add_optional (uq_characters q) (map uq_characters qs)"
  "uq_audio_milliseconds (foldl add_quantities q qs)
    = foldl add_optional (uq_audio_milliseconds q) (map uq_audio_milliseconds qs)"
  "uq_input_tokens (foldl add_quantities q qs) = foldl add_optional (uq_input_tokens q) (map uq_input_tokens qs)"
  "uq_output_tokens (foldl add_quantities q qs) = foldl add_optional (uq_output_tokens q) (map uq_output_tokens qs)"
  by (induction qs arbitrary: q) (simp_all add: add_quantities_def)

definition selected_usage :: "usage_filter \<Rightarrow> db \<Rightarrow> usage_event list" where
  "selected_usage f s = map lg_event (filter (matches_filter (f\<lparr>uf_limit := None\<rparr>)) (db_ledger s))"

text \<open>
  Totals over the ledger are exact: they count every event that the filter selects, whatever its
  limit; the total of a counter is unknown if no selected event knows it and otherwise the sum of
  the known values, cut at the largest u64; the cost in each currency that occurs is the sum of the
  costs in it, modulo 2^64, hence exact as long as it fits an i64.
\<close>

theorem usage_totals_exact:
  assumes "usage_totals_of f s = Inr (t, s')" and "ledger_wf s"
    and "\<forall>e \<in> set (selected_usage f s). \<forall>n. uq_characters (ue_quantities e) = Some n \<longrightarrow> n \<le> u64_max"
    and "\<forall>e \<in> set (selected_usage f s). \<forall>n. uq_input_tokens (ue_quantities e) = Some n \<longrightarrow> n \<le> u64_max"
  shows "s' = s \<and> ut_event_count t = length (selected_usage f s)
    \<and> uq_characters (ut_quantities t) = map_option (min u64_max)
        (known_sum (map (\<lambda>e. uq_characters (ue_quantities e)) (selected_usage f s)))
    \<and> uq_input_tokens (ut_quantities t) = map_option (min u64_max)
        (known_sum (map (\<lambda>e. uq_input_tokens (ue_quantities e)) (selected_usage f s)))
    \<and> (\<forall>c. ut_cost_by_currency_micros t c =
        (if \<exists>e \<in> set (selected_usage f s). \<exists>m. ue_cost e = Some m \<and> mo_currency m = c
         then Some (wrap_i64 (cost_sum c (selected_usage f s))) else None))"
proof -
  let ?es = "selected_usage f s"
  have ev: "filtered_events (f\<lparr>uf_limit := None\<rparr>) s = rev ?es"
    using filtered_events_rev [OF assms(2), of "f\<lparr>uf_limit := None\<rparr>"] by (simp add: selected_usage_def)
  from assms(1) have t: "t = foldl add_event \<lparr>ut_event_count = length (rev ?es),
      ut_quantities = no_quantities, ut_cost_by_currency_micros = Map.empty,
      ut_uncertain_charge_count = 0\<rparr> (rev ?es)" and s': "s' = s"
    by (auto simp: usage_totals_of_def usage_list_def ev)
  have sum: "foldl add_optional None (map (\<lambda>e. g (ue_quantities e)) (rev ?es))
      = map_option (min u64_max) (known_sum (map (\<lambda>e. g (ue_quantities e)) ?es))"
    if "\<forall>e \<in> set ?es. \<forall>n. g (ue_quantities e) = Some n \<longrightarrow> n \<le> u64_max"
    for g :: "usage_quantities \<Rightarrow> nat option"
  proof -
    have "v \<le> u64_max" if v: "Some v \<in> set (map (\<lambda>e. g (ue_quantities e)) (rev ?es))" for v
    proof -
      from v obtain e where "e \<in> set ?es" "g (ue_quantities e) = Some v" by (auto dest: sym)
      then show ?thesis using \<open>\<forall>e \<in> set ?es. \<forall>n. g (ue_quantities e) = Some n \<longrightarrow> n \<le> u64_max\<close> by blast
    qed
    from add_optional_fold [of "map (\<lambda>e. g (ue_quantities e)) (rev ?es)", OF this]
    show ?thesis by (simp add: rev_map [symmetric])
  qed
  have cost: "foldl add_cost Map.empty (map ue_cost (rev ?es)) c =
        (if \<exists>e \<in> set ?es. \<exists>m. ue_cost e = Some m \<and> mo_currency m = c
         then Some (wrap_i64 (cost_sum c ?es)) else None)" for c
    using add_cost_fold [of Map.empty c False 0 "rev ?es"]
    by (simp add: cost_sum_def sum_list_rev flip: rev_map)
  show ?thesis
    using sum [OF assms(3)] sum [OF assms(4)] cost s'
    by (simp add: t fold_add_event fold_add_quantities no_quantities_def comp_def del: map_map
        add: map_map [unfolded comp_def])
qed

section \<open>Witnesses\<close>

definition ledger_db :: db where
  "ledger_db = small_db\<lparr>db_providers := [5]\<rparr>"

definition ledger_reserved :: db where
  "ledger_reserved = small_reserved\<lparr>db_providers := [5]\<rparr>"

definition ledger_used :: db where
  "ledger_used = ledger_reserved\<lparr>db_ledger := [\<lparr>lg_sequence = 1, lg_event = small_event\<rparr>],
     db_ledger_last := 1\<rparr>"

lemmas ledger_defs = ledger_db_def ledger_reserved_def ledger_used_def small_defs

lemma ledger_db_wf: "budgets_wf ledger_db" "ledger_wf ledger_db" "ledger_wf ledger_reserved" "ledger_wf ledger_used"
  using small_wf small_ledger_wf
  by (simp_all add: ledger_defs budgets_wf_def ledger_wf_def i64_max_def)

lemma ledger_reserve: "budget_reserve gregorian small_reservation ledger_db = Inr ((), ledger_reserved)"
  by (simp add: service_eval ledger_defs)

lemma ledger_append: "usage_append small_event ledger_reserved = Inr (1, ledger_used)"
  by (simp add: usage_append_def insert_usage_event_def unsigned_column_def usage_event_issues_def
      usage_keys_known_def optional_member_def service_eval ledger_defs)

lemma ledger_used_grows: "ledger_grows ledger_reserved ledger_used"
  by (rule ledger_grows.append [OF ledger_grows.start ledger_append])

theorem ledger_append_only_witness:
  "ledger_wf ledger_used \<and> (\<exists>rows. db_ledger ledger_used = db_ledger ledger_reserved @ rows \<and> rows \<noteq> [])"
proof -
  have "db_ledger ledger_used \<noteq> db_ledger ledger_reserved" by (simp add: ledger_defs)
  with ledger_append_only [OF ledger_db_wf(3) ledger_used_grows] show ?thesis by fastforce
qed

theorem cycle_usage_since_reservation_witness:
  "\<exists>rows. db_ledger ledger_used = db_ledger ledger_db @ rows \<and> cycle_usage ledger_used 21 11
     = map lg_event (filter (\<lambda>x. ue_job_id (lg_event x) = Some 11) rows) \<and> rows \<noteq> []"
proof -
  have "db_reservations ledger_used = db_reservations ledger_reserved" "br_id small_reservation = 21"
    "db_ledger ledger_used \<noteq> db_ledger ledger_db" by (simp_all add: ledger_defs)
  with cycle_usage_since_reservation [OF ledger_db_wf(1,2) ledger_reserve ledger_used_grows, of 11]
  show ?thesis by fastforce
qed

theorem usage_totals_exact_witness:
  "\<exists>t. usage_totals_of no_filter ledger_used = Inr (t, ledger_used) \<and> uq_characters (ut_quantities t) = Some 45"
proof -
  have sel: "selected_usage no_filter ledger_used = [small_event]"
    by (simp add: selected_usage_def no_filter_def matches_filter_def matches_option_def ledger_defs)
  obtain t where t: "usage_totals_of no_filter ledger_used = Inr (t, ledger_used)"
    by (simp add: usage_totals_of_def usage_list_def tx_defs)
  from usage_totals_exact [OF t ledger_db_wf(4)]
  have "uq_characters (ut_quantities t) = map_option (min u64_max) (known_sum [Some 45])"
    unfolding sel by (simp add: small_event_def no_quantities_def u64_max_def)
  with t show ?thesis by (simp add: u64_max_def)
qed

end
