(* ===== verification/Provider_Errors.thy ===== *)
theory Provider_Errors
  imports Domain_Base
begin

text \<open>
  Errors of provider adapters (crates/providers/src/error.rs): the error type, the classification of
  an HTTP response, and the only text of a response body that an error may carry. \<open>parse\<close> stands for
  \<open>serde\_json::from\_slice\<close> on the body. A \<open>Duration\<close> is a number of nanoseconds.
\<close>

type_synonym duration = nat

datatype provider_error =
    PConfiguration str
  | PUnsupported str
  | PAuthentication
  | PRateLimited "duration option"
  | PUncertainCharge
  | PHttp u16 str
  | PContextWindowExceeded
  | POutputTruncated
  | PTransport str
  | PInvalidResponse str
  | PNotOwned
  | PProcessNotFound
  | PProcess str
  | PCancelled

section \<open>Reading a JSON value\<close>

fun json_get :: "str \<Rightarrow> json \<Rightarrow> json option" where
  "json_get k (JObj members) = map_of members k"
| "json_get k _ = None"

fun json_as_str :: "json \<Rightarrow> str option" where
  "json_as_str (JStr s) = Some s"
| "json_as_str _ = None"

definition error_field :: "str \<Rightarrow> json \<Rightarrow> json option" where
  "error_field k v = Option.bind (json_get ''error'' v) (json_get k)"

definition or_else :: "'a option \<Rightarrow> 'a option \<Rightarrow> 'a option" where
  "or_else a b = (case a of Some v \<Rightarrow> Some v | None \<Rightarrow> b)"

fun is_prefix_of :: "str \<Rightarrow> str \<Rightarrow> bool" where
  "is_prefix_of [] s = True"
| "is_prefix_of (p # ps) [] = False"
| "is_prefix_of (p # ps) (c # cs) = (p = c \<and> is_prefix_of ps cs)"

fun str_contains :: "str \<Rightarrow> str \<Rightarrow> bool" where
  "str_contains [] p = (p = [])"
| "str_contains (c # cs) p = (is_prefix_of p (c # cs) \<or> str_contains cs p)"

section \<open>Classification\<close>

definition overflow_codes :: "str list" where
  "overflow_codes = [''context_length_exceeded'', ''context_window_exceeded'', ''context_overflow'',
     ''max_context_length'', ''prompt_too_long'', ''too_many_tokens'']"

definition overflow_phrase :: "str \<Rightarrow> bool" where
  "overflow_phrase m \<longleftrightarrow>
     (str_contains m ''context length''
        \<and> (str_contains m ''not enough'' \<or> str_contains m ''greater than''
           \<or> str_contains m ''exceed'' \<or> str_contains m ''too small''))
   \<or> (str_contains m ''context window'' \<and> str_contains m ''exceed'')
   \<or> (str_contains m ''context the overflows'' \<and> str_contains m ''tokens'')
   \<or> (str_contains m ''tokens to keep'' \<and> str_contains m ''context'')
   \<or> (str_contains m ''available context size'' \<and> str_contains m ''tokens'')"

definition error_symbol :: "json \<Rightarrow> str option" where
  "error_symbol v = Option.bind
     (or_else (or_else (or_else (error_field ''code'' v) (error_field ''type'' v))
        (json_get ''code'' v)) (json_get ''type'' v)) json_as_str"

definition error_message :: "json \<Rightarrow> str option" where
  "error_message v = or_else
     (Option.bind (json_get ''error'' v) (\<lambda>e.
        or_else (json_as_str e) (Option.bind (json_get ''message'' e) json_as_str)))
     (Option.bind (json_get ''message'' v) json_as_str)"

definition is_context_window_error :: "(str \<Rightarrow> json option) \<Rightarrow> u16 \<Rightarrow> str \<Rightarrow> bool" where
  "is_context_window_error parse status body =
     (if status \<notin> {400, 413, 422} then False
      else case parse body of
        None \<Rightarrow> False
      | Some v \<Rightarrow>
          (case error_symbol v of Some s \<Rightarrow> List.member overflow_codes (map ascii_lower s) | None \<Rightarrow> False)
        \<or> (case error_message v of Some m \<Rightarrow> overflow_phrase (map ascii_lower m) | None \<Rightarrow> False))"

definition is_code_byte :: "char \<Rightarrow> bool" where
  "is_code_byte c \<longleftrightarrow> is_ascii_upper c \<or> is_ascii_lower c \<or> is_ascii_digit c
     \<or> c = CHR ''_'' \<or> c = CHR ''-'' \<or> c = CHR ''.''"

definition is_safe_code :: "str \<Rightarrow> bool" where
  "is_safe_code s \<longleftrightarrow> s \<noteq> [] \<and> length s \<le> 64 \<and> list_all is_code_byte s"

definition sanitized_message :: "(str \<Rightarrow> json option) \<Rightarrow> str \<Rightarrow> str" where
  "sanitized_message parse body =
     (case Option.bind (parse body) (\<lambda>v.
         Option.bind (or_else (error_field ''code'' v) (json_get ''code'' v)) json_as_str) of
        Some code \<Rightarrow> if is_safe_code code then ''provider error code '' @ code
                     else ''provider returned an error response''
      | None \<Rightarrow> ''provider returned an error response'')"

definition from_status :: "(str \<Rightarrow> json option) \<Rightarrow> u16 \<Rightarrow> str \<Rightarrow> provider_error" where
  "from_status parse status body =
     (if is_context_window_error parse status body then PContextWindowExceeded
      else if status = 401 \<or> status = 403 then PAuthentication
      else if status = 429 then PRateLimited None
      else PHttp status (sanitized_message parse body))"

section \<open>Lemmas\<close>

lemma sanitized_message_cases:
  obtains (generic) "sanitized_message parse body = ''provider returned an error response''"
  | (code) c where "is_safe_code c" and "sanitized_message parse body = ''provider error code '' @ c"
  unfolding sanitized_message_def by (force split: option.splits if_splits)

lemma is_prefix_of_iff: "is_prefix_of p s \<longleftrightarrow> (\<exists>r. s = p @ r)"
  by (induction p s rule: is_prefix_of.induct) auto

lemma str_contains_iff: "str_contains s p \<longleftrightarrow> (\<exists>a b. s = a @ p @ b)"
proof (induction s)
  case (Cons c s)
  show ?case
    by (auto simp: is_prefix_of_iff Cons Cons_eq_append_conv)
qed auto

end
