(* ===== verification/Retry.thy ===== *)
theory Retry
  imports Provider_Errors
begin

text \<open>
  The retry runtime (crates/service/src/runtime/retry.rs). A run of \<open>execute\_with\_retry\<close> is its
  trace: every dispatch of the operation, every journal entry and every sleep, in order. What the
  environment decides is a parameter: \<open>operation\<close> gives the outcome of an attempt, \<open>journal\<close> the
  error with which the journal refuses an event after a history of events, \<open>rnd\<close> the random number
  drawn for the delay after an attempt, \<open>clk\<close> the time of an attempt's event. The loop over
  \<open>1..=max\_attempts\<close> reaches its \<open>unreachable!\<close> as the result \<open>None\<close>.
\<close>

section \<open>Data\<close>

datatype attempt_number = AttemptNumber u16

fun attempt_get :: "attempt_number \<Rightarrow> u16" where
  "attempt_get (AttemptNumber n) = n"

text \<open>The derived order of the newtype.\<close>

instantiation attempt_number :: linorder
begin

definition less_eq_attempt_number :: "attempt_number \<Rightarrow> attempt_number \<Rightarrow> bool" where
  "less_eq_attempt_number a b \<longleftrightarrow> attempt_get a \<le> attempt_get b"

definition less_attempt_number :: "attempt_number \<Rightarrow> attempt_number \<Rightarrow> bool" where
  "less_attempt_number a b \<longleftrightarrow> attempt_get a < attempt_get b"

instance
proof
  fix a b c :: attempt_number
  show "a \<le> b \<Longrightarrow> b \<le> a \<Longrightarrow> a = b" by (cases a; cases b) (simp add: less_eq_attempt_number_def)
qed (auto simp: less_eq_attempt_number_def less_attempt_number_def)

end

datatype retry_class =
  TransientFailure | RateLimitedFailure | AuthenticationFailure | InvalidFailure
  | UncertainChargeFailure | CancelledRun | PermanentFailure

datatype retry_event_outcome = AttemptSucceeded | AttemptFailed retry_class bool "duration option"

record retry_event =
  ev_attempt :: attempt_number
  ev_recorded_at :: time
  ev_outcome :: retry_event_outcome

record retry_policy =
  rp_max_attempts :: u16
  rp_base_delay :: duration
  rp_max_delay :: duration
  rp_jitter_basis_points :: u16
  rp_retry_uncertain_charge :: bool

datatype retry_policy_error = NoAttempts | InvalidDelayRange | InvalidJitter

section \<open>Durations\<close>

definition duration_max :: duration where
  "duration_max = 18446744073709551615 * 1000000000 + 999999999"

definition u128_max :: nat where
  "u128_max = 340282366920938463463374607431768211455"

definition duration_saturating_mul :: "duration \<Rightarrow> u32 \<Rightarrow> duration" where
  "duration_saturating_mul d n = min duration_max (d * n)"

definition duration_saturating_add :: "duration \<Rightarrow> duration \<Rightarrow> duration" where
  "duration_saturating_add a b = min duration_max (a + b)"

definition u64_from_u128_or_max :: "nat \<Rightarrow> u64" where
  "u64_from_u128_or_max n = (if n \<le> u64_max then n else u64_max)"

definition duration_fraction :: "duration \<Rightarrow> u16 \<Rightarrow> duration" where
  "duration_fraction d basis_points =
     u64_from_u128_or_max (min u128_max (d * basis_points) div 10000)"

section \<open>The policy\<close>

definition retry_policy_new :: "u16 \<Rightarrow> duration \<Rightarrow> duration \<Rightarrow> retry_policy_error + retry_policy" where
  "retry_policy_new max_attempts base_delay max_delay =
     (if max_attempts = 0 then Inl NoAttempts
      else if base_delay > max_delay then Inl InvalidDelayRange
      else Inr \<lparr>rp_max_attempts = max_attempts, rp_base_delay = base_delay, rp_max_delay = max_delay,
             rp_jitter_basis_points = 2000, rp_retry_uncertain_charge = False\<rparr>)"

definition with_jitter_basis_points :: "retry_policy \<Rightarrow> u16 \<Rightarrow> retry_policy_error + retry_policy" where
  "with_jitter_basis_points p jitter =
     (if jitter > 10000 then Inl InvalidJitter else Inr (p\<lparr>rp_jitter_basis_points := jitter\<rparr>))"

definition with_uncertain_charge_retries :: "retry_policy \<Rightarrow> bool \<Rightarrow> retry_policy" where
  "with_uncertain_charge_retries p enabled = p\<lparr>rp_retry_uncertain_charge := enabled\<rparr>"

definition default_retry_policy :: retry_policy where
  "default_retry_policy = \<lparr>rp_max_attempts = 4, rp_base_delay = 500 * 1000000,
     rp_max_delay = 30 * 1000000000, rp_jitter_basis_points = 2000, rp_retry_uncertain_charge = False\<rparr>"

definition delay_for :: "retry_policy \<Rightarrow> u64 \<Rightarrow> attempt_number \<Rightarrow> duration option \<Rightarrow> duration" where
  "delay_for p rnd attempt hint = (case hint of
      Some h \<Rightarrow> min h (rp_max_delay p)
    | None \<Rightarrow>
        (let exponent = min (attempt_get attempt - 1) 31;
             factor = 2 ^ exponent;
             base = min (duration_saturating_mul (rp_base_delay p) factor) (rp_max_delay p)
         in if rp_jitter_basis_points p = 0 \<or> base = 0 \<or> base = rp_max_delay p then base
            else
              let available = rp_max_delay p - base;
                  jitter_window = min (duration_fraction base (rp_jitter_basis_points p)) available
              in if jitter_window = 0 then base
                 else let upper_nanos = u64_from_u128_or_max jitter_window
                      in duration_saturating_add base (rnd mod u64_saturating_add upper_nanos 1)))"

section \<open>Classification\<close>

definition classify_provider_error :: "provider_error \<Rightarrow> retry_class" where
  "classify_provider_error e = (case e of
      PAuthentication \<Rightarrow> AuthenticationFailure
    | PConfiguration _ \<Rightarrow> InvalidFailure
    | PUnsupported _ \<Rightarrow> InvalidFailure
    | PInvalidResponse _ \<Rightarrow> InvalidFailure
    | PContextWindowExceeded \<Rightarrow> InvalidFailure
    | POutputTruncated \<Rightarrow> InvalidFailure
    | PRateLimited _ \<Rightarrow> RateLimitedFailure
    | PUncertainCharge \<Rightarrow> UncertainChargeFailure
    | PTransport _ \<Rightarrow> TransientFailure
    | PProcess _ \<Rightarrow> TransientFailure
    | PHttp status _ \<Rightarrow>
        (if status = 429 then RateLimitedFailure
         else if status = 408 \<or> status = 425 then TransientFailure
         else if status \<ge> 500 then TransientFailure
         else if status \<in> {400, 404, 405, 409, 415, 422} then InvalidFailure
         else PermanentFailure)
    | PCancelled \<Rightarrow> CancelledRun
    | PNotOwned \<Rightarrow> PermanentFailure
    | PProcessNotFound \<Rightarrow> PermanentFailure)"

definition timeout_after_dispatch :: "bool \<Rightarrow> provider_error" where
  "timeout_after_dispatch dispatched =
     (if dispatched then PUncertainCharge
      else PTransport ''provider request timed out before dispatch'')"

definition retry_permitted :: "retry_class \<Rightarrow> retry_policy \<Rightarrow> bool" where
  "retry_permitted c p \<longleftrightarrow> c = TransientFailure \<or> c = RateLimitedFailure
     \<or> (c = UncertainChargeFailure \<and> rp_retry_uncertain_charge p)"

fun retry_after_hint :: "provider_error \<Rightarrow> duration option" where
  "retry_after_hint (PRateLimited retry_after) = retry_after"
| "retry_after_hint _ = None"

section \<open>Execution\<close>

datatype ('v, 'j) retry_result =
    RetrySucceeded 'v attempt_number
  | ProviderFailed provider_error retry_class attempt_number
  | JournalFailed 'j attempt_number

datatype retry_action = Dispatched attempt_number | Recorded retry_event | Slept duration

record ('v, 'j) retry_env =
  operation :: "attempt_number \<Rightarrow> provider_error + 'v"
  journal :: "retry_event list \<Rightarrow> retry_event \<Rightarrow> 'j option"
  rnd :: "attempt_number \<Rightarrow> u64"
  clk :: "attempt_number \<Rightarrow> time"

fun events_of :: "retry_action list \<Rightarrow> retry_event list" where
  "events_of [] = []"
| "events_of (Recorded e # as) = e # events_of as"
| "events_of (_ # as) = events_of as"

definition event_of :: "retry_policy \<Rightarrow> ('v, 'j) retry_env \<Rightarrow> attempt_number \<Rightarrow> retry_event" where
  "event_of p env a = \<lparr>ev_attempt = a, ev_recorded_at = clk env a, ev_outcome =
     (case operation env a of
        Inr _ \<Rightarrow> AttemptSucceeded
      | Inl error \<Rightarrow>
          (let c = classify_provider_error error;
               will_retry = (attempt_get a < rp_max_attempts p \<and> retry_permitted c p)
           in AttemptFailed c will_retry
                (if will_retry then Some (delay_for p (rnd env a) a (retry_after_hint error)) else None)))\<rparr>"

text \<open>The body of the loop for the remaining attempts; \<open>trace\<close> is what has happened before.\<close>

fun retry_loop ::
  "retry_policy \<Rightarrow> ('v, 'j) retry_env \<Rightarrow> retry_action list \<Rightarrow> u16 list \<Rightarrow>
     ('v, 'j) retry_result option \<times> retry_action list" where
  "retry_loop p env trace [] = (None, trace)"
| "retry_loop p env trace (raw # rest) =
     (let a = AttemptNumber raw;
          event = event_of p env a;
          dispatched = trace @ [Dispatched a]
      in case journal env (events_of trace) event of
        Some e \<Rightarrow> (Some (JournalFailed e a), dispatched)
      | None \<Rightarrow>
          (case operation env a of
             Inr v \<Rightarrow> (Some (RetrySucceeded v a), dispatched @ [Recorded event])
           | Inl error \<Rightarrow>
               (case ev_outcome event of
                  AttemptFailed c _ (Some delay) \<Rightarrow>
                    retry_loop p env (dispatched @ [Recorded event, Slept delay]) rest
                | _ \<Rightarrow> (Some (ProviderFailed error (classify_provider_error error) a),
                        dispatched @ [Recorded event]))))"

definition execute_with_retry ::
  "retry_policy \<Rightarrow> ('v, 'j) retry_env \<Rightarrow> ('v, 'j) retry_result option \<times> retry_action list" where
  "execute_with_retry p env = retry_loop p env [] [1..<Suc (rp_max_attempts p)]"

fun result_attempts :: "('v, 'j) retry_result \<Rightarrow> attempt_number" where
  "result_attempts (RetrySucceeded _ a) = a"
| "result_attempts (ProviderFailed _ _ a) = a"
| "result_attempts (JournalFailed _ a) = a"

fun result_failure_class :: "('v, 'j) retry_result \<Rightarrow> retry_class option" where
  "result_failure_class (ProviderFailed _ c _) = Some c"
| "result_failure_class _ = None"

end
