(* ===== verification/Retry_Properties.thy ===== *)
theory Retry_Properties
  imports Retry
begin

text \<open>
  Properties of the retry runtime: it always ends with a result, every attempt is journalled before
  the next one, an uncertain charge is never repeated unless the policy says so, and delays are an
  exponential back-off within the policy's bounds.
\<close>

section \<open>Delays\<close>

lemma duration_fraction_le: "duration_fraction d n \<le> d * n div 10000"
proof -
  have "min u128_max (d * n) div 10000 \<le> d * n div 10000" by (rule div_le_mono) simp
  then show ?thesis unfolding duration_fraction_def u64_from_u128_or_max_def by (simp split: if_split)
qed

lemma duration_fraction_le_self: "n \<le> 10000 \<Longrightarrow> duration_fraction d n \<le> d"
proof -
  assume "n \<le> 10000"
  then have "d * n div 10000 \<le> d * 10000 div 10000" by (intro div_le_mono mult_le_mono2)
  with duration_fraction_le [of d n] show ?thesis by simp
qed

lemma random_offset_le: "r mod u64_saturating_add (u64_from_u128_or_max w) 1 \<le> w"
proof -
  let ?m = "u64_saturating_add (u64_from_u128_or_max w) 1"
  have m: "0 < ?m" "?m \<le> Suc w"
    by (auto simp: u64_saturating_add_def u64_from_u128_or_max_def u64_max_def)
  from mod_less_divisor [OF m(1), of r] m(2) show ?thesis by simp
qed

text \<open>The delay after attempt n is the base delay doubled n - 1 times (at most 31 times) and capped
  at the maximal delay, plus a random part of at most the policy's share of it; it never exceeds the
  maximal delay. A server's retry-after hint is honoured up to the maximal delay.
\<close>

theorem retry_delay_bounds:
  assumes "retry_policy_new n base maximal = Inr p0" and "with_jitter_basis_points p0 j = Inr p"
    and "maximal \<le> duration_max"
  shows "delay_for p r (AttemptNumber a) (Some h) = min h maximal
    \<and> (let doubled = min (base * 2 ^ min (a - 1) 31) maximal in
         doubled \<le> delay_for p r (AttemptNumber a) None
       \<and> delay_for p r (AttemptNumber a) None \<le> min maximal (doubled + doubled * j div 10000)
       \<and> (j = 0 \<longrightarrow> delay_for p r (AttemptNumber a) None = doubled))"
proof -
  from assms have p: "rp_base_delay p = base" "rp_max_delay p = maximal" "rp_jitter_basis_points p = j"
    by (auto simp: retry_policy_new_def with_jitter_basis_points_def split: if_splits)
  define doubled where "doubled = min (base * 2 ^ min (a - 1) 31) maximal"
  have d: "min (duration_saturating_mul base (2 ^ min (a - 1) 31)) maximal = doubled"
    using assms(3) by (auto simp: duration_saturating_mul_def doubled_def min_def)
  have le: "doubled \<le> maximal" by (simp add: doubled_def)
  define w where "w = min (duration_fraction doubled j) (maximal - doubled)"
  have w: "w \<le> doubled * j div 10000" "doubled + w \<le> maximal"
    using duration_fraction_le [of doubled j] le by (simp_all add: w_def)
  define x where "x = r mod u64_saturating_add (u64_from_u128_or_max w) 1"
  have x: "x \<le> w" unfolding x_def by (rule random_offset_le)
  have s: "duration_saturating_add doubled x = doubled + x"
    using x w(2) assms(3) by (simp add: duration_saturating_add_def)
  have v: "delay_for p r (AttemptNumber a) None
      = (if j = 0 \<or> doubled = 0 \<or> doubled = maximal \<or> w = 0 then doubled else doubled + x)"
    unfolding delay_for_def option.case p attempt_get.simps Let_def d w_def [symmetric] x_def [symmetric] s
    by simp
  have h: "delay_for p r (AttemptNumber a) (Some h) = min h maximal" by (simp add: delay_for_def p)
  have "doubled \<le> delay_for p r (AttemptNumber a) None" unfolding v by simp
  moreover have "delay_for p r (AttemptNumber a) None \<le> min maximal (doubled + doubled * j div 10000)"
    unfolding v using le w x by (simp split: if_split)
  moreover have "j = 0 \<longrightarrow> delay_for p r (AttemptNumber a) None = doubled" unfolding v by simp
  ultimately show ?thesis unfolding doubled_def [symmetric] Let_def using h by blast
qed

theorem retry_delay_bounds_witness:
  "\<exists>p. with_jitter_basis_points \<lparr>rp_max_attempts = 4, rp_base_delay = 500, rp_max_delay = 30000,
      rp_jitter_basis_points = 2000, rp_retry_uncertain_charge = False\<rparr> 1000 = Inr p
    \<and> 2000 \<le> delay_for p 77 (AttemptNumber 3) None \<and> delay_for p 77 (AttemptNumber 3) None \<le> 2200"
proof -
  have n: "retry_policy_new 4 500 30000 = Inr \<lparr>rp_max_attempts = 4, rp_base_delay = 500,
      rp_max_delay = 30000, rp_jitter_basis_points = 2000, rp_retry_uncertain_charge = False\<rparr>"
    by (simp add: retry_policy_new_def)
  obtain p where j: "with_jitter_basis_points \<lparr>rp_max_attempts = 4, rp_base_delay = 500,
      rp_max_delay = 30000, rp_jitter_basis_points = 2000, rp_retry_uncertain_charge = False\<rparr> 1000 = Inr p"
    by (simp add: with_jitter_basis_points_def)
  have "(30000::nat) \<le> duration_max" by (simp add: duration_max_def)
  from retry_delay_bounds [OF n j this, of 77 3] j show ?thesis by (simp add: Let_def)
qed

section \<open>Runs\<close>

definition will_retry :: "retry_policy \<Rightarrow> ('v, 'j) retry_env \<Rightarrow> u16 \<Rightarrow> bool" where
  "will_retry p env n \<longleftrightarrow> n < rp_max_attempts p \<and> (case operation env (AttemptNumber n) of
      Inl e \<Rightarrow> retry_permitted (classify_provider_error e) p | Inr _ \<Rightarrow> False)"

definition backoff :: "retry_policy \<Rightarrow> ('v, 'j) retry_env \<Rightarrow> u16 \<Rightarrow> duration" where
  "backoff p env n = (case operation env (AttemptNumber n) of
      Inl e \<Rightarrow> delay_for p (rnd env (AttemptNumber n)) (AttemptNumber n) (retry_after_hint e)
    | Inr _ \<Rightarrow> 0)"

text \<open>A failed attempt that is tried again: dispatched, journalled, waited for.\<close>

definition retried_round :: "retry_policy \<Rightarrow> ('v, 'j) retry_env \<Rightarrow> u16 \<Rightarrow> retry_action list" where
  "retried_round p env n = [Dispatched (AttemptNumber n), Recorded (event_of p env (AttemptNumber n)),
     Slept (backoff p env n)]"

text \<open>The last attempt and its result.\<close>

definition last_round :: "retry_policy \<Rightarrow> ('v, 'j) retry_env \<Rightarrow> u16 \<Rightarrow> ('v, 'j) retry_result \<Rightarrow>
    retry_action list \<Rightarrow> bool" where
  "last_round p env n r acts \<longleftrightarrow> (let a = AttemptNumber n in
     (case r of
        JournalFailed j a' \<Rightarrow> a' = a \<and> acts = [Dispatched a]
      | RetrySucceeded v a' \<Rightarrow> a' = a \<and> operation env a = Inr v
          \<and> acts = [Dispatched a, Recorded (event_of p env a)]
      | ProviderFailed e c a' \<Rightarrow> a' = a \<and> operation env a = Inl e \<and> c = classify_provider_error e
          \<and> \<not> will_retry p env n \<and> acts = [Dispatched a, Recorded (event_of p env a)]))"

lemma retry_loop_run:
  assumes "k \<le> rp_max_attempts p"
  shows "\<exists>n r acts. k \<le> n \<and> n \<le> rp_max_attempts p \<and> last_round p env n r acts
    \<and> (\<forall>i. k \<le> i \<longrightarrow> i < n \<longrightarrow> will_retry p env i)
    \<and> retry_loop p env trace [k..<Suc (rp_max_attempts p)]
        = (Some r, trace @ concat (map (retried_round p env) [k..<n]) @ acts)"
  using assms
proof (induction "rp_max_attempts p - k" arbitrary: k trace)
  case 0
  then have k: "k = rp_max_attempts p" by simp
  let ?a = "AttemptNumber k"
  show ?case
    by (rule exI [of _ k]; cases "journal env (events_of trace) (event_of p env ?a)";
        cases "operation env ?a")
       (auto simp: k last_round_def will_retry_def event_of_def Let_def)
next
  case (Suc m)
  let ?a = "AttemptNumber k" and ?M = "rp_max_attempts p"
  have k: "[k..<Suc ?M] = k # [Suc k..<Suc ?M]" using Suc.prems by (simp add: upt_conv_Cons)
  show ?case
  proof (cases "journal env (events_of trace) (event_of p env ?a) = None \<and> will_retry p env k")
    case False
    then show ?thesis
      unfolding k
      by (intro exI [of _ k]; cases "journal env (events_of trace) (event_of p env ?a)";
          cases "operation env ?a")
         (use Suc.prems in \<open>auto simp: last_round_def will_retry_def event_of_def Let_def\<close>)
  next
    case True
    then obtain e where e: "operation env ?a = Inl e" "k < ?M"
      "retry_permitted (classify_provider_error e) p"
      by (auto simp: will_retry_def split: sum.splits)
    let ?trace = "trace @ retried_round p env k"
    have "retry_loop p env trace [k..<Suc ?M] = retry_loop p env ?trace [Suc k..<Suc ?M]"
      unfolding k using True e
      by (simp add: Let_def event_of_def retried_round_def backoff_def del: upt_Suc)
    moreover have "m = ?M - Suc k" "Suc k \<le> ?M" using Suc.hyps(2) e(2) by simp_all
    from Suc.hyps(1) [OF this, of ?trace] obtain n r acts where
      n: "Suc k \<le> n" "n \<le> ?M" "last_round p env n r acts" "\<forall>i. Suc k \<le> i \<longrightarrow> i < n \<longrightarrow> will_retry p env i"
      "retry_loop p env ?trace [Suc k..<Suc ?M]
        = (Some r, ?trace @ concat (map (retried_round p env) [Suc k..<n]) @ acts)" by blast
    moreover have "concat (map (retried_round p env) [k..<n])
        = retried_round p env k @ concat (map (retried_round p env) [Suc k..<n])"
      using n(1) by (simp add: upt_conv_Cons)
    moreover have "\<forall>i. k \<le> i \<longrightarrow> i < n \<longrightarrow> will_retry p env i"
      using n(4) True by (metis Suc_leI le_neq_implies_less)
    ultimately show ?thesis
      by (intro exI [of _ n] exI [of _ r] exI [of _ acts]) auto
  qed
qed

text \<open>
  C39. A run under an admitted policy always ends, after at least one and at most the maximal number
  of attempts, numbered from one without a gap, and never reaches the code after the loop. Every
  attempt but the last failed in a way that the policy retries and was journalled and waited for
  before the next one was dispatched. The run ends with the value of the last attempt, with its
  error when the policy does not retry it, or with the journal's refusal; in the first two cases
  the last attempt was journalled too.
\<close>

theorem retry_run_ends:
  assumes "retry_policy_new m base maximal = Inr p0" and "with_jitter_basis_points p0 j = Inr p1"
    and "p = with_uncertain_charge_retries p1 enabled"
  shows "\<exists>n r acts. 1 \<le> n \<and> n \<le> m \<and> last_round p env n r acts
    \<and> (\<forall>i. 1 \<le> i \<longrightarrow> i < n \<longrightarrow> will_retry p env i)
    \<and> execute_with_retry p env = (Some r, concat (map (retried_round p env) [1..<n]) @ acts)"
proof -
  from assms have "rp_max_attempts p = m" "1 \<le> m"
    by (auto simp: retry_policy_new_def with_jitter_basis_points_def with_uncertain_charge_retries_def
        split: if_splits)
  with retry_loop_run [of 1 p env "[]"] show ?thesis by (simp add: execute_with_retry_def)
qed

definition sample_policy :: retry_policy where
  "sample_policy = \<lparr>rp_max_attempts = 3, rp_base_delay = 5, rp_max_delay = 30,
     rp_jitter_basis_points = 0, rp_retry_uncertain_charge = False\<rparr>"

text \<open>A provider whose first attempt is rate limited and whose second has an uncertain charge.\<close>

definition sample_retry_env :: "(nat, nat) retry_env" where
  "sample_retry_env = \<lparr>operation = (\<lambda>a. if a = AttemptNumber 1 then Inl (PRateLimited (Some 7))
       else Inl PUncertainCharge),
     journal = (\<lambda>_ _. None), rnd = (\<lambda>_. 0), clk = (\<lambda>_. 0)\<rparr>"

lemma sample_policy_ok:
  "retry_policy_new 3 5 30 = Inr (sample_policy\<lparr>rp_jitter_basis_points := 2000\<rparr>)"
  "with_jitter_basis_points (sample_policy\<lparr>rp_jitter_basis_points := 2000\<rparr>) 0 = Inr sample_policy"
  "sample_policy = with_uncertain_charge_retries sample_policy False"
  by (simp_all add: retry_policy_new_def sample_policy_def with_jitter_basis_points_def
      with_uncertain_charge_retries_def)

theorem retry_run_ends_witness:
  "\<exists>r acts. execute_with_retry sample_policy sample_retry_env = (Some r, acts)
     \<and> result_attempts r = AttemptNumber 2 \<and> acts \<noteq> []"
proof -
  have f: "execute_with_retry sample_policy sample_retry_env
      = (Some (ProviderFailed PUncertainCharge UncertainChargeFailure (AttemptNumber 2)),
         snd (execute_with_retry sample_policy sample_retry_env))" by code_simp
  from retry_run_ends [OF sample_policy_ok, of sample_retry_env] obtain n r acts where
    "execute_with_retry sample_policy sample_retry_env
      = (Some r, concat (map (retried_round sample_policy sample_retry_env) [1..<n]) @ acts)"
    "last_round sample_policy sample_retry_env n r acts" by blast
  with f show ?thesis by (auto simp: last_round_def Let_def)
qed

section \<open>Charges\<close>

lemma dispatched_in_run:
  assumes "Dispatched (AttemptNumber i) \<in> set (concat (map (retried_round p env) [1..<n]) @ acts)"
    and "last_round p env n r acts"
  shows "1 \<le> i \<and> i < n \<or> i = n"
  using assms by (auto simp: retried_round_def last_round_def Let_def split: retry_result.splits)

text \<open>
  C34. No double charge. Unless the policy enables it, an attempt whose charge is uncertain is never
  followed by another dispatch: when attempt i + 1 is dispatched, attempt i failed with a
  transient error or a rate limit, which the journal accepted. In particular a timeout after the
  dispatch ends the run.
\<close>

theorem no_double_charge:
  assumes "retry_policy_new m base maximal = Inr p0" and "with_jitter_basis_points p0 j = Inr p1"
    and "p = with_uncertain_charge_retries p1 False" and "1 \<le> i"
    and "Dispatched (AttemptNumber (Suc i)) \<in> set (snd (execute_with_retry p env))"
  shows "(\<exists>e. operation env (AttemptNumber i) = Inl e
      \<and> (classify_provider_error e = TransientFailure \<or> classify_provider_error e = RateLimitedFailure)
      \<and> e \<noteq> timeout_after_dispatch True)
    \<and> Recorded (event_of p env (AttemptNumber i)) \<in> set (snd (execute_with_retry p env))"
proof -
  from retry_run_ends [OF assms(1-3), of env] obtain n r acts where
    n: "1 \<le> n" "n \<le> m" and l: "last_round p env n r acts" and w: "\<forall>i. 1 \<le> i \<longrightarrow> i < n \<longrightarrow> will_retry p env i"
    and run: "execute_with_retry p env = (Some r, concat (map (retried_round p env) [1..<n]) @ acts)" by blast
  from dispatched_in_run [OF _ l] assms(5) run have i: "i < n" by fastforce
  have "Recorded (event_of p env (AttemptNumber i)) \<in> set (retried_round p env i)"
    by (simp add: retried_round_def)
  with i assms(4) have rec: "Recorded (event_of p env (AttemptNumber i)) \<in> set (snd (execute_with_retry p env))"
    by (auto simp: run)
  have off: "\<not> rp_retry_uncertain_charge p"
    using assms(3) by (simp add: with_uncertain_charge_retries_def)
  from w i assms(4) have "will_retry p env i" by blast
  with off have "\<exists>e. operation env (AttemptNumber i) = Inl e
      \<and> (classify_provider_error e = TransientFailure \<or> classify_provider_error e = RateLimitedFailure)"
    by (auto simp: will_retry_def retry_permitted_def split: sum.splits)
  with rec show ?thesis by (auto simp: timeout_after_dispatch_def classify_provider_error_def)
qed

theorem no_double_charge_witness:
  "\<exists>e. operation sample_retry_env (AttemptNumber 1) = Inl e \<and> e \<noteq> PUncertainCharge"
proof -
  have "Dispatched (AttemptNumber (Suc 1)) \<in> set (snd (execute_with_retry sample_policy sample_retry_env))"
    by code_simp
  from no_double_charge [OF sample_policy_ok _ this] show ?thesis
    by (auto simp: timeout_after_dispatch_def)
qed

section \<open>Responses\<close>

text \<open>
  C40. What an HTTP error response may do. It is retried exactly for the statuses 408, 425, 429 and
  from 500 on, whatever its body says. And the body never survives in the error: the message of an
  HTTP error is a fixed text, or a fixed prefix with a symbolic code of at most 64 letters, digits,
  underscores, hyphens and points.
\<close>

theorem http_error_handling:
  "(retry_permitted (classify_provider_error (from_status parse status body)) p
      \<longleftrightarrow> status \<in> {408, 425, 429} \<or> status \<ge> 500)
   \<and> (case from_status parse status body of
        PHttp st message \<Rightarrow> st = status \<and> (message = ''provider returned an error response''
          \<or> (\<exists>code. is_safe_code code \<and> message = ''provider error code '' @ code))
      | _ \<Rightarrow> True)"
proof -
  have "retry_permitted (classify_provider_error (from_status parse status body)) p
      \<longleftrightarrow> status \<in> {408, 425, 429} \<or> status \<ge> 500"
    by (auto simp: from_status_def is_context_window_error_def classify_provider_error_def retry_permitted_def)
  moreover have "sanitized_message parse body = ''provider returned an error response''
      \<or> (\<exists>code. is_safe_code code \<and> sanitized_message parse body = ''provider error code '' @ code)"
    by (cases rule: sanitized_message_cases [of parse body]) blast+
  ultimately show ?thesis by (simp add: from_status_def)
qed

end
