(* ===== verification/Qc_Base.thy ===== *)
theory Qc_Base
  imports Domain_Base
begin

text \<open>
  The vocabulary of media quality control (crates/media/src/qc/mod.rs): finding codes, severities,
  typed evidence, findings and ranges.
\<close>

datatype qc_finding_code =
    DecodeInvalid | FileMetadataInvalid | FileAudioStreamMissing | FileMultipleAudioStreams
  | FileContainerUnexpected | FileCodecUnexpected | FileSampleRateUnexpected
  | FileChannelCountUnexpected | FileBitrateOutOfRange | FileDurationOutOfRange | PcmEmpty
  | PcmNonFinite | PcmSilent | PcmClipping | PcmRmsOutOfRange | PcmSamplePeakExceeded
  | PcmTruePeakExceeded | PcmLeadingSilenceOutOfRange | PcmTrailingSilenceOutOfRange
  | PcmLongSilence | PcmAbruptJoin | Mp3Invalid | Mp3CbrUnverified | Mp3VariableBitrate
  | Mp3BitrateOutOfRange | Mp3SampleRateUnexpected

datatype qc_severity = QcInfo | QcWarning | QcError

fun severity_rank :: "qc_severity \<Rightarrow> nat" where
  "severity_rank QcInfo = 0"
| "severity_rank QcWarning = 1"
| "severity_rank QcError = 2"

text \<open>The derived order of the enumeration.\<close>

instantiation qc_severity :: linorder
begin

definition less_eq_qc_severity :: "qc_severity \<Rightarrow> qc_severity \<Rightarrow> bool" where
  "less_eq_qc_severity a b \<longleftrightarrow> severity_rank a \<le> severity_rank b"

definition less_qc_severity :: "qc_severity \<Rightarrow> qc_severity \<Rightarrow> bool" where
  "less_qc_severity a b \<longleftrightarrow> severity_rank a < severity_rank b"

instance
proof
  fix a b c :: qc_severity
  show "a \<le> b \<Longrightarrow> b \<le> a \<Longrightarrow> a = b"
    by (cases a; cases b) (simp_all add: less_eq_qc_severity_def)
qed (auto simp: less_eq_qc_severity_def less_qc_severity_def)

end

datatype qc_value =
    QcBoolean bool
  | QcCount u64
  | QcRatio fval
  | QcDecibels fval
  | QcMilliseconds u64
  | QcHertz u32
  | QcBitsPerSecond u64
  | QcText str
  | QcTextList "str list"

datatype qc_expectation =
    QcExact qc_value
  | QcRange "qc_value option" "qc_value option" bool
  | QcOneOf "qc_value list"
  | QcDescription str

record qc_finding =
  qf_code :: qc_finding_code
  qf_severity :: qc_severity
  qf_message :: str
  qf_actual :: "qc_value option"
  qf_expected :: "qc_expectation option"
  qf_start_milliseconds :: "u64 option"
  qf_end_milliseconds :: "u64 option"

definition finding_new :: "qc_finding_code \<Rightarrow> qc_severity \<Rightarrow> str \<Rightarrow> qc_finding" where
  "finding_new code severity message =
     \<lparr>qf_code = code, qf_severity = severity, qf_message = message, qf_actual = None,
      qf_expected = None, qf_start_milliseconds = None, qf_end_milliseconds = None\<rparr>"

definition finding_evidence :: "qc_value \<Rightarrow> qc_expectation \<Rightarrow> qc_finding \<Rightarrow> qc_finding" where
  "finding_evidence actual expected f = f\<lparr>qf_actual := Some actual, qf_expected := Some expected\<rparr>"

definition finding_at :: "u64 \<Rightarrow> u64 \<Rightarrow> qc_finding \<Rightarrow> qc_finding" where
  "finding_at start finish f =
     f\<lparr>qf_start_milliseconds := Some start, qf_end_milliseconds := Some finish\<rparr>"

section \<open>Ranges\<close>

datatype media_error = MediaConfiguration str

record qc_range_f64 =
  rf_min :: "fval option"
  rf_max :: "fval option"

definition range_f64_contains :: "qc_range_f64 \<Rightarrow> fval \<Rightarrow> bool" where
  "range_f64_contains r v \<longleftrightarrow> fval_is_finite v
     \<and> is_none_or (rf_min r) (\<lambda>m. fval_le m v) \<and> is_none_or (rf_max r) (\<lambda>m. fval_le v m)"

definition range_f64_validate :: "qc_range_f64 \<Rightarrow> str \<Rightarrow> media_error + unit" where
  "range_f64_validate r name =
     (if is_some_and (rf_min r) (\<lambda>v. \<not> fval_is_finite v)
       \<or> is_some_and (rf_max r) (\<lambda>v. \<not> fval_is_finite v)
       \<or> is_some_and (rf_min r) (\<lambda>a. is_some_and (rf_max r) (fval_gt a))
      then Inl (MediaConfiguration (name @ '' must use finite ordered bounds'')) else Inr ())"

record qc_range_u64 =
  ru_min :: "u64 option"
  ru_max :: "u64 option"

definition range_u64_contains :: "qc_range_u64 \<Rightarrow> u64 \<Rightarrow> bool" where
  "range_u64_contains r v \<longleftrightarrow> is_none_or (ru_min r) (\<lambda>m. m \<le> v) \<and> is_none_or (ru_max r) (\<lambda>m. v \<le> m)"

definition range_u64_validate :: "qc_range_u64 \<Rightarrow> str \<Rightarrow> media_error + unit" where
  "range_u64_validate r name =
     (if is_some_and (ru_min r) (\<lambda>a. is_some_and (ru_max r) (\<lambda>b. a > b))
      then Inl (MediaConfiguration (name @ '' must use ordered bounds'')) else Inr ())"

text \<open>A range that passes validation is inhabited.\<close>

lemma valid_range_u64_inhabited:
  "range_u64_validate r name = Inr () \<longleftrightarrow> (\<exists>v. range_u64_contains r v)"
  by (cases "ru_min r"; cases "ru_max r")
     (auto simp: range_u64_validate_def range_u64_contains_def is_none_or_def is_some_and_def not_less
       intro: order_trans)

lemma valid_range_f64_inhabited:
  assumes "range_f64_validate r name = Inr ()"
  shows "\<exists>v. range_f64_contains r (Finite v)"
proof -
  have cases: "fval_is_finite a \<Longrightarrow> \<exists>x. a = Finite x" for a by (cases a) simp_all
  show ?thesis
  proof (cases "rf_min r")
    case None
    with assms cases show ?thesis
      by (cases "rf_max r")
         (force simp: range_f64_validate_def range_f64_contains_def is_none_or_def is_some_and_def
           split: if_splits)+
  next
    case (Some a)
    with assms cases [of a] obtain x where "a = Finite x"
      by (auto simp: range_f64_validate_def is_some_and_def split: if_splits)
    with Some assms cases show ?thesis
      by (cases "rf_max r")
         (force simp: range_f64_validate_def range_f64_contains_def is_none_or_def is_some_and_def
           split: if_splits intro!: exI [of _ x])+
  qed
qed

end
