(* ===== verification/Mp3_Scan.thy ===== *)
theory Mp3_Scan
  imports Qc_Base
begin

text \<open>
  The MP3 frame scanner (crates/media/src/qc/mp3.rs). A file is a list of bytes; a frame header is
  decoded from the bits of a 32-bit word; the scan steps from one declared frame to the next with
  the state \<open>mp3\_state\<close>. A \<open>BTreeSet\<close> is its sorted list of elements. A slice has at most
  \<open>isize::MAX\<close> bytes, so that an offset fits a \<open>usize\<close> and a \<open>u64\<close>.
\<close>

unbundle bit_operations_syntax

type_synonym byte = "8 word"

section \<open>Data\<close>

datatype mp3_cbr_status = ConstantRate | VariableRate | InsufficientFrames | InvalidStream

datatype mp3_vbr_header = Xing | Info | Vbri

datatype mp3_scan_error_kind =
  TooShort | InvalidId3 | NoFrames | InvalidHeader | TruncatedFrame | TrailingData | InconsistentStream

record mp3_scan_error =
  se_kind :: mp3_scan_error_kind
  se_byte_offset :: u64
  se_timestamp_milliseconds :: u64

record mp3_frame_analysis =
  fa_status :: mp3_cbr_status
  fa_frame_count :: u64
  fa_bitrates_kbps :: "u16 list"
  fa_sample_rates_hz :: "u32 list"
  fa_first_frame_offset :: "u64 option"
  fa_audio_bytes :: u64
  fa_duration_milliseconds :: u64
  fa_first_variable_frame_milliseconds :: "u64 option"
  fa_vbr_header :: "mp3_vbr_header option"
  fa_error :: "mp3_scan_error option"

datatype mpeg_version = MpegOne | MpegTwo | MpegTwoPointFive

datatype mpeg_layer = LayerOne | LayerTwo | LayerThree

record frame_header =
  fh_version :: mpeg_version
  fh_layer :: mpeg_layer
  fh_bitrate_kbps :: u16
  fh_sample_rate_hz :: u32
  fh_frame_length :: usize
  fh_samples_per_frame :: u16
  fh_crc_present :: bool
  fh_mono :: bool

section \<open>Frame headers\<close>

definition bitrate_table :: "mpeg_version \<Rightarrow> mpeg_layer \<Rightarrow> u16 list" where
  "bitrate_table version layer = (case (version, layer) of
      (MpegOne, LayerOne) \<Rightarrow> [32, 64, 96, 128, 160, 192, 224, 256, 288, 320, 352, 384, 416, 448]
    | (MpegOne, LayerTwo) \<Rightarrow> [32, 48, 56, 64, 80, 96, 112, 128, 160, 192, 224, 256, 320, 384]
    | (MpegOne, LayerThree) \<Rightarrow> [32, 40, 48, 56, 64, 80, 96, 112, 128, 160, 192, 224, 256, 320]
    | (_, LayerOne) \<Rightarrow> [32, 48, 56, 64, 80, 96, 112, 128, 144, 160, 176, 192, 224, 256]
    | (_, _) \<Rightarrow> [8, 16, 24, 32, 40, 48, 56, 64, 80, 96, 112, 128, 144, 160])"

definition list_get :: "'a list \<Rightarrow> usize \<Rightarrow> 'a option" where
  "list_get xs i = (if i < length xs then Some (xs ! i) else None)"

definition bitrate :: "mpeg_version \<Rightarrow> mpeg_layer \<Rightarrow> usize \<Rightarrow> u16 option" where
  "bitrate version layer index = list_get (bitrate_table version layer) (index - 1)"

definition sample_rate :: "mpeg_version \<Rightarrow> usize \<Rightarrow> u32 option" where
  "sample_rate version index = list_get (case version of
      MpegOne \<Rightarrow> [44100, 48000, 32000]
    | MpegTwo \<Rightarrow> [22050, 24000, 16000]
    | MpegTwoPointFive \<Rightarrow> [11025, 12000, 8000]) index"

definition u32_from_be_bytes :: "byte \<Rightarrow> byte \<Rightarrow> byte \<Rightarrow> byte \<Rightarrow> 32 word" where
  "u32_from_be_bytes a b c d =
     push_bit 24 (ucast a) OR push_bit 16 (ucast b) OR push_bit 8 (ucast c) OR ucast d"

definition header_bits :: "32 word \<Rightarrow> nat \<Rightarrow> 32 word \<Rightarrow> nat" where
  "header_bits header shift m = unat (drop_bit shift header AND m)"

definition frame_length_of :: "mpeg_version \<Rightarrow> mpeg_layer \<Rightarrow> u16 \<Rightarrow> u32 \<Rightarrow> u64 \<Rightarrow> u64" where
  "frame_length_of version layer bitrate_kbps sample_rate_hz padding =
     (let bits_per_second = u64_saturating_mul bitrate_kbps 1000 in
      case layer of
        LayerOne \<Rightarrow> u64_saturating_mul
          (u64_saturating_add (u64_saturating_mul 12 bits_per_second div sample_rate_hz) padding) 4
      | LayerTwo \<Rightarrow> u64_saturating_mul 144 bits_per_second div sample_rate_hz + padding
      | LayerThree \<Rightarrow>
          (if version = MpegOne
           then u64_saturating_mul 144 bits_per_second div sample_rate_hz + padding
           else u64_saturating_mul 72 bits_per_second div sample_rate_hz + padding))"

definition samples_per_frame_of :: "mpeg_version \<Rightarrow> mpeg_layer \<Rightarrow> u16" where
  "samples_per_frame_of version layer = (case (version, layer) of
      (_, LayerOne) \<Rightarrow> 384
    | (_, LayerTwo) \<Rightarrow> 1152
    | (MpegOne, LayerThree) \<Rightarrow> 1152
    | (_, LayerThree) \<Rightarrow> 576)"

definition header_version :: "32 word \<Rightarrow> mpeg_version option" where
  "header_version header = (let v = header_bits header 19 3 in
     if v = 0 then Some MpegTwoPointFive else if v = 2 then Some MpegTwo
     else if v = 3 then Some MpegOne else None)"

definition header_layer :: "32 word \<Rightarrow> mpeg_layer option" where
  "header_layer header = (let v = header_bits header 17 3 in
     if v = 1 then Some LayerThree else if v = 2 then Some LayerTwo
     else if v = 3 then Some LayerOne else None)"

text \<open>\<open>usize\<close> is 64 bits wide, so that the length converts.\<close>

definition decode_header :: "32 word \<Rightarrow> frame_header option" where
  "decode_header header =
     (if header AND 0xffe00000 \<noteq> 0xffe00000 then None else
      Option.bind (header_version header) (\<lambda>version.
      Option.bind (header_layer header) (\<lambda>layer.
        let bitrate_index = header_bits header 12 15 in
        if bitrate_index = 0 \<or> bitrate_index = 15 then None else
        let sample_rate_index = header_bits header 10 3 in
        if sample_rate_index = 3 then None else
        Option.bind (bitrate version layer bitrate_index) (\<lambda>bitrate_kbps.
        Option.bind (sample_rate version sample_rate_index) (\<lambda>sample_rate_hz.
          let padding = header_bits header 9 1 in
          Some \<lparr>fh_version = version, fh_layer = layer, fh_bitrate_kbps = bitrate_kbps,
            fh_sample_rate_hz = sample_rate_hz,
            fh_frame_length = frame_length_of version layer bitrate_kbps sample_rate_hz padding,
            fh_samples_per_frame = samples_per_frame_of version layer,
            fh_crc_present = (header AND push_bit 16 1 = 0),
            fh_mono = (header_bits header 6 3 = 3)\<rparr>)))))"

definition parse_frame_header :: "byte list \<Rightarrow> frame_header option" where
  "parse_frame_header bytes = (case bytes of
      [a, b, c, d] \<Rightarrow> decode_header (u32_from_be_bytes a b c d)
    | _ \<Rightarrow> None)"

definition bytes_of :: "str \<Rightarrow> byte list" where
  "bytes_of s = map (\<lambda>c. of_nat (of_char c)) s"

definition slice :: "byte list \<Rightarrow> usize \<Rightarrow> usize \<Rightarrow> byte list" where
  "slice bytes i j = take (j - i) (drop i bytes)"

text \<open>\<open>frame.get(i..i + 4) == Some(tag)\<close>\<close>

definition has_tag_at :: "byte list \<Rightarrow> usize \<Rightarrow> str \<Rightarrow> bool" where
  "has_tag_at frame i tag \<longleftrightarrow> i + 4 \<le> length frame \<and> slice frame i (i + 4) = bytes_of tag"

definition detect_vbr_header :: "byte list \<Rightarrow> frame_header \<Rightarrow> mp3_vbr_header option" where
  "detect_vbr_header frame header =
     (let crc_bytes = (if fh_crc_present header then 2 else 0);
          side_information_bytes = (case (fh_version header, fh_mono header) of
              (MpegOne, False) \<Rightarrow> 32
            | (MpegOne, True) \<Rightarrow> 17
            | (_, True) \<Rightarrow> 9
            | (_, False) \<Rightarrow> 17);
          xing_offset = 4 + crc_bytes + side_information_bytes
      in if has_tag_at frame xing_offset ''Xing'' then Some Xing
         else if has_tag_at frame xing_offset ''Info'' then Some Info
         else if has_tag_at frame 36 ''VBRI'' then Some Vbri
         else if has_tag_at frame 38 ''VBRI'' then Some Vbri
         else None)"

section \<open>The scan\<close>

definition id3v2_end :: "byte list \<Rightarrow> usize \<Rightarrow> usize + usize" where
  "id3v2_end bytes audio_end =
     (if take 3 bytes \<noteq> bytes_of ''ID3'' then Inr 0
      else if length bytes < 10 then Inl 0
      else
        let size_bytes = slice bytes 6 10 in
        if list_ex (\<lambda>v. v AND 0x80 \<noteq> 0) size_bytes then Inl 6
        else
          let size = (case map unat size_bytes of
                [a, b, c, d] \<Rightarrow> push_bit 21 a OR push_bit 14 b OR push_bit 7 c OR d
              | _ \<Rightarrow> 0);
              footer_size = (if bytes ! 5 AND 0x10 \<noteq> 0 then 10 else 0);
              id3_end = 10 + size + footer_size
          in if id3_end > audio_end then Inl 6 else Inr id3_end)"

definition u128_limit :: nat where
  "u128_limit = 340282366920938463463374607431768211455"

definition samples_to_milliseconds :: "nat \<Rightarrow> u32 \<Rightarrow> u64" where
  "samples_to_milliseconds samples sample_rate_hz =
     (if sample_rate_hz = 0 then 0 else u64_or_max (min u128_limit (samples * 1000) div sample_rate_hz))"

record mp3_state =
  ms_offset :: usize
  ms_frame_count :: u64
  ms_audio_bytes :: u64
  ms_total_samples :: nat \<comment> \<open>a \<open>u128\<close>\<close>
  ms_bitrates :: "u16 list"
  ms_sample_rates :: "u32 list"
  ms_stream_identity :: "(mpeg_version \<times> mpeg_layer \<times> u32) option"
  ms_first_bitrate :: "u16 option"
  ms_first_variable :: "u64 option"
  ms_vbr_header :: "mp3_vbr_header option"

definition initial_state :: "usize \<Rightarrow> mp3_state" where
  "initial_state audio_start = \<lparr>ms_offset = audio_start, ms_frame_count = 0, ms_audio_bytes = 0,
     ms_total_samples = 0, ms_bitrates = [], ms_sample_rates = [], ms_stream_identity = None,
     ms_first_bitrate = None, ms_first_variable = None, ms_vbr_header = None\<rparr>"

definition elapsed_milliseconds :: "mp3_state \<Rightarrow> u64" where
  "elapsed_milliseconds st = (case ms_stream_identity st of
      None \<Rightarrow> 0 | Some (_, _, rate) \<Rightarrow> samples_to_milliseconds (ms_total_samples st) rate)"

definition invalid_analysis :: "mp3_scan_error_kind \<Rightarrow> usize \<Rightarrow> mp3_frame_analysis" where
  "invalid_analysis kind offset = \<lparr>fa_status = InvalidStream, fa_frame_count = 0,
     fa_bitrates_kbps = [], fa_sample_rates_hz = [], fa_first_frame_offset = None, fa_audio_bytes = 0,
     fa_duration_milliseconds = 0, fa_first_variable_frame_milliseconds = None, fa_vbr_header = None,
     fa_error = Some \<lparr>se_kind = kind, se_byte_offset = offset, se_timestamp_milliseconds = 0\<rparr>\<rparr>"

definition completed_invalid_analysis ::
  "usize \<Rightarrow> mp3_state \<Rightarrow> mp3_scan_error_kind \<Rightarrow> mp3_frame_analysis" where
  "completed_invalid_analysis audio_start st kind = \<lparr>fa_status = InvalidStream,
     fa_frame_count = ms_frame_count st, fa_bitrates_kbps = ms_bitrates st,
     fa_sample_rates_hz = ms_sample_rates st, fa_first_frame_offset = Some audio_start,
     fa_audio_bytes = ms_audio_bytes st, fa_duration_milliseconds = elapsed_milliseconds st,
     fa_first_variable_frame_milliseconds = ms_first_variable st, fa_vbr_header = ms_vbr_header st,
     fa_error = Some \<lparr>se_kind = kind, se_byte_offset = ms_offset st,
       se_timestamp_milliseconds = elapsed_milliseconds st\<rparr>\<rparr>"

definition is_variable_marker :: "mp3_vbr_header option \<Rightarrow> bool" where
  "is_variable_marker h \<longleftrightarrow> h = Some Xing \<or> h = Some Vbri"

definition header_identity :: "frame_header \<Rightarrow> mpeg_version \<times> mpeg_layer \<times> u32" where
  "header_identity h = (fh_version h, fh_layer h, fh_sample_rate_hz h)"

text \<open>The bookkeeping of a frame that has been accepted.\<close>

definition accept_frame :: "byte list \<Rightarrow> frame_header \<Rightarrow> mp3_state \<Rightarrow> mp3_state" where
  "accept_frame bytes h st =
     (let frame_end = ms_offset st + fh_frame_length h;
          elapsed = elapsed_milliseconds st;
          vbr = (if ms_frame_count st = 0
                 then detect_vbr_header (slice bytes (ms_offset st) frame_end) h
                 else ms_vbr_header st);
          variable1 = (if ms_frame_count st = 0 \<and> is_variable_marker vbr then Some 0
                       else ms_first_variable st);
          variable2 = (if is_some_and (ms_first_bitrate st) (\<lambda>b. b \<noteq> fh_bitrate_kbps h)
                         \<and> variable1 = None
                       then Some elapsed else variable1)
      in \<lparr>ms_offset = frame_end,
          ms_frame_count = u64_saturating_add (ms_frame_count st) 1,
          ms_audio_bytes = u64_saturating_add (ms_audio_bytes st) (fh_frame_length h),
          ms_total_samples = min u128_limit (ms_total_samples st + fh_samples_per_frame h),
          ms_bitrates = insort_insert (fh_bitrate_kbps h) (ms_bitrates st),
          ms_sample_rates = insort_insert (fh_sample_rate_hz h) (ms_sample_rates st),
          ms_stream_identity = Some (case ms_stream_identity st of
              Some i \<Rightarrow> i | None \<Rightarrow> header_identity h),
          ms_first_bitrate = Some (case ms_first_bitrate st of
              Some b \<Rightarrow> b | None \<Rightarrow> fh_bitrate_kbps h),
          ms_first_variable = variable2, ms_vbr_header = vbr\<rparr>)"

definition scan_frame ::
  "byte list \<Rightarrow> usize \<Rightarrow> usize \<Rightarrow> mp3_state \<Rightarrow> mp3_frame_analysis + mp3_state" where
  "scan_frame bytes audio_start audio_end st =
     (if audio_end - ms_offset st < 4
      then Inl (completed_invalid_analysis audio_start st TrailingData)
      else case parse_frame_header (slice bytes (ms_offset st) (ms_offset st + 4)) of
        None \<Rightarrow> Inl (completed_invalid_analysis audio_start st
            (if ms_frame_count st = 0 then InvalidHeader else TrailingData))
      | Some h \<Rightarrow>
          if ms_offset st + fh_frame_length h > audio_end
          then Inl (completed_invalid_analysis audio_start st TruncatedFrame)
          else if is_some_and (ms_stream_identity st) (\<lambda>i. i \<noteq> header_identity h)
          then Inl (completed_invalid_analysis audio_start
              (st\<lparr>ms_sample_rates := insort_insert (fh_sample_rate_hz h) (ms_sample_rates st)\<rparr>)
              InconsistentStream)
          else Inr (accept_frame bytes h st))"

section \<open>The scan terminates\<close>

lemma bitrate_bounds:
  assumes "bitrate v l i = Some b"
  shows "8 \<le> b" and "b \<le> 448" and "v = MpegOne \<or> l = LayerOne \<Longrightarrow> 32 \<le> b"
proof -
  have t: "\<forall>b \<in> set (bitrate_table v l). 8 \<le> b \<and> b \<le> 448 \<and> (v = MpegOne \<or> l = LayerOne \<longrightarrow> 32 \<le> b)"
    by (cases v; cases l) (simp_all add: bitrate_table_def)
  from assms have "b \<in> set (bitrate_table v l)"
    by (auto simp: bitrate_def list_get_def split: if_splits)
  with t show "8 \<le> b" and "b \<le> 448" and "v = MpegOne \<or> l = LayerOne \<Longrightarrow> 32 \<le> b" by blast+
qed

lemma sample_rate_bounds:
  assumes "sample_rate v i = Some r"
  shows "8000 \<le> r" and "r \<le> 48000" and "v \<noteq> MpegOne \<Longrightarrow> r \<le> 24000"
proof -
  from assms have "r \<in> set (case v of MpegOne \<Rightarrow> [44100, 48000, 32000]
      | MpegTwo \<Rightarrow> [22050, 24000, 16000] | MpegTwoPointFive \<Rightarrow> [11025, 12000, 8000])"
    by (auto simp only: sample_rate_def list_get_def nth_mem split: if_splits)
  then show "8000 \<le> r" and "r \<le> 48000" and "v \<noteq> MpegOne \<Longrightarrow> r \<le> 24000"
    by (cases v; auto)+
qed

lemma frame_length_bounds:
  assumes "bitrate v l i = Some b" and "sample_rate v k = Some r" and "p \<le> 1"
  shows "24 \<le> frame_length_of v l b r p" and "frame_length_of v l b r p \<le> 10000"
proof -
  note b = bitrate_bounds [OF assms(1)] and r = sample_rate_bounds [OF assms(2)]
  have lower: "n \<le> c * b * 1000 div r" if "n * r \<le> c * b * 1000" for n c
    using that r(1) by (simp add: less_eq_div_iff_mult_less_eq)
  have upper: "c * b * 1000 div r \<le> c * 56" for c
  proof -
    have "c * b * 1000 \<le> c * 448 * 1000" by (intro mult_le_mono b(2) order_refl)
    then have "c * b * 1000 div r \<le> c * 448 * 1000 div r" by (rule div_le_mono)
    also have "\<dots> \<le> c * 448 * 1000 div 8000" by (rule div_le_mono2) (use r(1) in simp_all)
    finally show ?thesis by simp
  qed
  have exact: "u64_saturating_mul c (u64_saturating_mul b 1000) = c * b * 1000" if "c \<le> 144" for c
  proof -
    have "c * b \<le> 144 * 448" using that b(2) by (rule mult_le_mono)
    with b(2) show ?thesis by (simp add: u64_saturating_mul_def u64_max_def)
  qed
  have lens: "frame_length_of v l b r p = (case l of
      LayerOne \<Rightarrow> (12 * b * 1000 div r + p) * 4
    | LayerTwo \<Rightarrow> 144 * b * 1000 div r + p
    | LayerThree \<Rightarrow> (if v = MpegOne then 144 * b * 1000 div r + p else 72 * b * 1000 div r + p))"
    using upper [of 12] assms(3)
    by (cases l) (simp_all add: frame_length_of_def exact Let_def u64_saturating_add_def
        u64_saturating_mul_def [of _ 4] u64_max_def)
  have "24 \<le> 144 * b * 1000 div r" using b(1,3) r(2,3) by (intro lower; cases "v = MpegOne") auto
  moreover have "24 \<le> 72 * b * 1000 div r" if "v \<noteq> MpegOne" using b(1) r(3) that by (intro lower) auto
  moreover have "8 \<le> 12 * b * 1000 div r" if "l = LayerOne" using b(3) r(2) that by (intro lower) auto
  ultimately show "24 \<le> frame_length_of v l b r p"
    unfolding lens by (cases l) auto
  show "frame_length_of v l b r p \<le> 10000"
    unfolding lens using upper [of 12] upper [of 72] upper [of 144] assms(3) by (cases l) auto
qed

lemma header_bit_le: "header_bits header shift 1 \<le> 1"
proof -
  have "drop_bit shift header AND 1 \<le> 1" by (rule word_and_le1)
  then show ?thesis by (simp add: header_bits_def word_le_nat_alt)
qed

lemma decode_header_Some:
  assumes "decode_header w = Some h"
  obtains v l i k where "header_version w = Some v" and "header_layer w = Some l"
    and "bitrate v l i = Some (fh_bitrate_kbps h)" and "sample_rate v k = Some (fh_sample_rate_hz h)"
    and "fh_version h = v" and "fh_layer h = l"
    and "fh_frame_length h = frame_length_of v l (fh_bitrate_kbps h) (fh_sample_rate_hz h)
      (header_bits w 9 1)"
    and "fh_samples_per_frame h = samples_per_frame_of v l"
  using assms unfolding decode_header_def Let_def
  by (auto simp: bind_eq_Some_conv split: if_splits)

lemma parse_frame_header_length:
  assumes "parse_frame_header bytes = Some h"
  shows "length bytes = 4" and "24 \<le> fh_frame_length h" and "fh_frame_length h \<le> 10000"
    and "fh_samples_per_frame h \<le> 1152" and "0 < fh_sample_rate_hz h"
proof -
  from assms obtain a b c d where bytes: "bytes = [a, b, c, d]"
    and h: "decode_header (u32_from_be_bytes a b c d) = Some h"
    by (auto simp: parse_frame_header_def split: list.splits)
  have s: "samples_per_frame_of v l \<le> 1152" for v l
    by (cases v; cases l) (simp_all add: samples_per_frame_of_def)
  show "length bytes = 4" by (simp add: bytes)
  have "24 \<le> fh_frame_length h \<and> fh_frame_length h \<le> 10000
    \<and> fh_samples_per_frame h \<le> 1152 \<and> 0 < fh_sample_rate_hz h"
    using h
  proof (rule decode_header_Some)
    fix v l i k
    assume b: "bitrate v l i = Some (fh_bitrate_kbps h)" and r: "sample_rate v k = Some (fh_sample_rate_hz h)"
      and "fh_frame_length h = frame_length_of v l (fh_bitrate_kbps h) (fh_sample_rate_hz h)
        (header_bits (u32_from_be_bytes a b c d) 9 1)"
      and "fh_samples_per_frame h = samples_per_frame_of v l"
    with frame_length_bounds [OF b r header_bit_le] sample_rate_bounds(1) [OF r] s show ?thesis by simp
  qed
  then show "24 \<le> fh_frame_length h" and "fh_frame_length h \<le> 10000"
    and "fh_samples_per_frame h \<le> 1152" and "0 < fh_sample_rate_hz h" by blast+
qed

lemma scan_frame_Inr:
  "scan_frame bytes audio_start audio_end st = Inr st' \<longleftrightarrow> (\<exists>h.
     parse_frame_header (slice bytes (ms_offset st) (ms_offset st + 4)) = Some h
     \<and> 4 \<le> audio_end - ms_offset st \<and> ms_offset st + fh_frame_length h \<le> audio_end
     \<and> (\<forall>i. ms_stream_identity st = Some i \<longrightarrow> i = header_identity h)
     \<and> st' = accept_frame bytes h st)"
  by (auto simp: scan_frame_def is_some_and_def split: option.splits)

lemma accept_frame_offset [simp]: "ms_offset (accept_frame bytes h st) = ms_offset st + fh_frame_length h"
  by (simp add: accept_frame_def Let_def)

function scan_frames ::
  "byte list \<Rightarrow> usize \<Rightarrow> usize \<Rightarrow> mp3_state \<Rightarrow> mp3_frame_analysis + mp3_state" where
  "scan_frames bytes audio_start audio_end st =
     (if ms_offset st < audio_end then
        (case scan_frame bytes audio_start audio_end st of
           Inl a \<Rightarrow> Inl a | Inr st' \<Rightarrow> scan_frames bytes audio_start audio_end st')
      else Inr st)"
  by pat_completeness auto
termination
proof (relation "measure (\<lambda>(bytes, audio_start, audio_end, st). audio_end - ms_offset st)", goal_cases)
  case (2 bytes audio_start audio_end st st')
  then obtain h where "parse_frame_header (slice bytes (ms_offset st) (ms_offset st + 4)) = Some h"
    "st' = accept_frame bytes h st" by (auto simp: scan_frame_Inr)
  with parse_frame_header_length(2) 2(1) show ?case by fastforce
qed simp

declare scan_frames.simps [simp del]

definition finished_analysis :: "usize \<Rightarrow> mp3_state \<Rightarrow> mp3_frame_analysis" where
  "finished_analysis audio_start st =
     (let variable = (length (ms_bitrates st) > 1 \<or> is_variable_marker (ms_vbr_header st))
      in \<lparr>fa_status = (if variable then VariableRate else if ms_frame_count st < 2
             then InsufficientFrames else ConstantRate),
          fa_frame_count = ms_frame_count st, fa_bitrates_kbps = ms_bitrates st,
          fa_sample_rates_hz = ms_sample_rates st, fa_first_frame_offset = Some audio_start,
          fa_audio_bytes = ms_audio_bytes st, fa_duration_milliseconds = elapsed_milliseconds st,
          fa_first_variable_frame_milliseconds = ms_first_variable st,
          fa_vbr_header = ms_vbr_header st, fa_error = None\<rparr>)"

definition audio_end_of :: "byte list \<Rightarrow> usize" where
  "audio_end_of bytes = (if length bytes \<ge> 128
       \<and> slice bytes (length bytes - 128) (length bytes - 125) = bytes_of ''TAG''
     then length bytes - 128 else length bytes)"

definition scan_mp3_frames :: "byte list \<Rightarrow> mp3_frame_analysis" where
  "scan_mp3_frames bytes =
     (if length bytes < 4 then invalid_analysis TooShort 0
      else
        let audio_end = audio_end_of bytes in
        case id3v2_end bytes audio_end of
          Inl offset \<Rightarrow> invalid_analysis InvalidId3 offset
        | Inr audio_start \<Rightarrow>
            if audio_end - audio_start < 4 then invalid_analysis NoFrames audio_start
            else case scan_frames bytes audio_start audio_end (initial_state audio_start) of
              Inl a \<Rightarrow> a | Inr st \<Rightarrow> finished_analysis audio_start st)"

section \<open>Findings\<close>

record mp3_qc_expectations =
  xp_require_cbr :: bool
  xp_bitrate_kbps :: "qc_range_u64 option"
  xp_sample_rate_hz :: "u32 option"

definition default_mp3_expectations :: mp3_qc_expectations where
  "default_mp3_expectations = \<lparr>xp_require_cbr = True, xp_bitrate_kbps = None, xp_sample_rate_hz = None\<rparr>"

definition mp3_expectations_validate :: "mp3_qc_expectations \<Rightarrow> media_error + unit" where
  "mp3_expectations_validate x = (case xp_bitrate_kbps x of
      None \<Rightarrow> Inr () | Some r \<Rightarrow> range_u64_validate r ''MP3 bitrate range'')"

fun error_kind_name :: "mp3_scan_error_kind \<Rightarrow> str" where
  "error_kind_name TooShort = ''TooShort''"
| "error_kind_name InvalidId3 = ''InvalidId3''"
| "error_kind_name NoFrames = ''NoFrames''"
| "error_kind_name InvalidHeader = ''InvalidHeader''"
| "error_kind_name TruncatedFrame = ''TruncatedFrame''"
| "error_kind_name TrailingData = ''TrailingData''"
| "error_kind_name InconsistentStream = ''InconsistentStream''"

definition variable_evidence :: "mp3_frame_analysis \<Rightarrow> str list" where
  "variable_evidence a = map (\<lambda>b. nat_text b @ '' kbps'') (fa_bitrates_kbps a)
     @ (case fa_vbr_header a of
          Some Xing \<Rightarrow> [''xing header''] | Some Vbri \<Rightarrow> [''vbri header''] | _ \<Rightarrow> [])"

definition structure_findings :: "mp3_qc_expectations \<Rightarrow> mp3_frame_analysis \<Rightarrow> qc_finding list" where
  "structure_findings x a = (case fa_error a of
      Some e \<Rightarrow>
        [finding_at (se_timestamp_milliseconds e) (se_timestamp_milliseconds e)
          (finding_evidence (QcText (error_kind_name (se_kind e) @ '' at byte '' @ nat_text (se_byte_offset e)))
            (QcDescription ''consecutive complete MP3 frames with supported headers'')
            (finding_new Mp3Invalid QcError ''MP3 frame structure is invalid''))]
    | None \<Rightarrow>
        if \<not> xp_require_cbr x then []
        else (case fa_status a of
            VariableRate \<Rightarrow>
              (let timestamp = (case fa_first_variable_frame_milliseconds a of Some t \<Rightarrow> t | None \<Rightarrow> 0) in
               [finding_at timestamp timestamp
                 (finding_evidence (QcTextList (variable_evidence a))
                   (QcDescription ''one bitrate across all frames and no Xing or VBRI marker'')
                   (finding_new Mp3VariableBitrate QcError
                      ''MP3 does not have a constant bitrate across all frames''))])
          | InsufficientFrames \<Rightarrow>
              [finding_evidence (QcCount (fa_frame_count a)) (QcRange (Some (QcCount 2)) None True)
                (finding_new Mp3CbrUnverified QcError
                   ''MP3 contains too few frames to verify constant bitrate'')]
          | _ \<Rightarrow> []))"

definition kbps_bound :: "u64 option \<Rightarrow> qc_value option" where
  "kbps_bound b = map_option (\<lambda>v. QcBitsPerSecond (u64_saturating_mul v 1000)) b"

definition bitrate_findings :: "qc_range_u64 \<Rightarrow> mp3_frame_analysis \<Rightarrow> qc_finding list" where
  "bitrate_findings expected a =
     map (\<lambda>b. finding_evidence (QcBitsPerSecond (u64_saturating_mul b 1000))
            (QcRange (kbps_bound (ru_min expected)) (kbps_bound (ru_max expected)) True)
            (finding_new Mp3BitrateOutOfRange QcError
               ''MP3 frame bitrate is outside the configured range''))
       (filter (\<lambda>b. \<not> range_u64_contains expected b) (fa_bitrates_kbps a))"

definition sample_rate_findings :: "u32 \<Rightarrow> mp3_frame_analysis \<Rightarrow> qc_finding list" where
  "sample_rate_findings expected a =
     map (\<lambda>r. finding_evidence (QcHertz r) (QcExact (QcHertz expected))
            (finding_new Mp3SampleRateUnexpected QcError
               ''MP3 frame sample rate does not match the configured policy''))
       (filter (\<lambda>r. r \<noteq> expected) (fa_sample_rates_hz a))"

definition analyze_mp3 ::
  "byte list \<Rightarrow> mp3_qc_expectations \<Rightarrow>
     media_error + mp3_frame_analysis \<times> qc_finding list" where
  "analyze_mp3 bytes x = (case mp3_expectations_validate x of
      Inl e \<Rightarrow> Inl e
    | Inr _ \<Rightarrow>
        (let a = scan_mp3_frames bytes in
         Inr (a, structure_findings x a
           @ (case xp_bitrate_kbps x of None \<Rightarrow> [] | Some r \<Rightarrow> bitrate_findings r a)
           @ (case xp_sample_rate_hz x of None \<Rightarrow> [] | Some r \<Rightarrow> sample_rate_findings r a))))"

end
