(* ===== verification/Mp3_Properties.thy ===== *)
theory Mp3_Properties
  imports Mp3_Scan
begin

text \<open>
  The scanner against its specification: a file is accepted exactly when the bytes between its tags
  are a sequence of complete frames of one stream, and the analysis reports what these frames say.
\<close>

section \<open>Specification\<close>

text \<open>The bytes are the frames with these headers, one after the other.\<close>

fun frames_tile :: "frame_header list \<Rightarrow> byte list \<Rightarrow> bool" where
  "frames_tile [] bs = (bs = [])"
| "frames_tile (h # hs) bs = (parse_frame_header (take 4 bs) = Some h \<and> fh_frame_length h \<le> length bs
     \<and> frames_tile hs (drop (fh_frame_length h) bs))"

definition one_stream :: "frame_header list \<Rightarrow> bool" where
  "one_stream hs \<longleftrightarrow> (\<forall>h \<in> set hs. header_identity h = header_identity (hd hs))"

definition audio_slice :: "byte list \<Rightarrow> usize \<Rightarrow> byte list" where
  "audio_slice bytes start = slice bytes start (audio_end_of bytes)"

text \<open>A file with readable tags and frames of one stream between them.\<close>

definition well_framed :: "byte list \<Rightarrow> usize \<Rightarrow> frame_header list \<Rightarrow> bool" where
  "well_framed bytes start hs \<longleftrightarrow> id3v2_end bytes (audio_end_of bytes) = Inr start
     \<and> hs \<noteq> [] \<and> frames_tile hs (audio_slice bytes start) \<and> one_stream hs"

lemma frames_tile_unique:
  "frames_tile hs bs \<Longrightarrow> frames_tile hs' bs \<Longrightarrow> hs = hs'"
proof (induction hs arbitrary: hs' bs)
  case Nil
  then show ?case by (cases hs') (auto simp: parse_frame_header_def)
next
  case (Cons h hs)
  show ?case
  proof (cases hs')
    case Nil
    with Cons.prems show ?thesis by (auto simp: parse_frame_header_def)
  next
    case (Cons h' hs'')
    with Cons.prems have "h' = h" by auto
    with Cons Cons.prems Cons.IH [of "drop (fh_frame_length h) bs" hs''] show ?thesis by simp
  qed
qed

lemma frames_tile_length:
  "frames_tile hs bs \<Longrightarrow> sum_list (map fh_frame_length hs) = length bs \<and> 24 * length hs \<le> length bs"
proof (induction hs arbitrary: bs)
  case (Cons h hs)
  then have "parse_frame_header (take 4 bs) = Some h" "fh_frame_length h \<le> length bs" by simp_all
  with parse_frame_header_length(2) Cons.IH [of "drop (fh_frame_length h) bs"] Cons.prems
  show ?case by fastforce
qed simp

section \<open>The loop is a fold over the frames\<close>

definition matches_identity :: "mp3_state \<Rightarrow> frame_header list \<Rightarrow> bool" where
  "matches_identity st hs \<longleftrightarrow> (case ms_stream_identity st of
      None \<Rightarrow> one_stream hs | Some i \<Rightarrow> (\<forall>h \<in> set hs. header_identity h = i))"

lemma accept_frame_identity:
  "ms_stream_identity (accept_frame bytes h st) = Some (case ms_stream_identity st of
      Some i \<Rightarrow> i | None \<Rightarrow> header_identity h)"
  by (simp add: accept_frame_def Let_def)

lemma matches_identity_Cons:
  "matches_identity st (h # hs) \<longleftrightarrow> (\<forall>i. ms_stream_identity st = Some i \<longrightarrow> i = header_identity h)
     \<and> matches_identity (accept_frame bytes h st) hs"
  by (auto simp: matches_identity_def accept_frame_identity one_stream_def split: option.split)

lemma slice_drop: "i \<le> j \<Longrightarrow> drop n (slice bytes i j) = slice bytes (i + n) j"
  by (simp add: slice_def drop_take add.commute)

lemma slice_take: "i + n \<le> j \<Longrightarrow> take n (slice bytes i j) = slice bytes i (i + n)"
  by (simp add: slice_def min_def)

lemma length_slice: "j \<le> length bytes \<Longrightarrow> length (slice bytes i j) = j - i"
  by (simp add: slice_def)

lemma parse_short: "length bs < 4 \<Longrightarrow> parse_frame_header bs = None"
  by (auto simp: parse_frame_header_def split: list.split)

lemma scan_frames_Inr:
  assumes "audio_end \<le> length bytes" and "ms_offset st \<le> audio_end"
  shows "scan_frames bytes s audio_end st = Inr st' \<longleftrightarrow> (\<exists>hs.
     frames_tile hs (slice bytes (ms_offset st) audio_end) \<and> matches_identity st hs
     \<and> st' = fold (accept_frame bytes) hs st)"
  using assms
proof (induction bytes s audio_end st rule: scan_frames.induct)
  case (1 bytes s e st)
  let ?sl = "slice bytes (ms_offset st) e"
  have len: "length ?sl = e - ms_offset st" by (rule length_slice [OF "1.prems"(1)])
  show ?case
  proof (cases "ms_offset st < e")
    case False
    with "1.prems" len have "?sl = []" by simp
    then have "frames_tile hs ?sl \<longleftrightarrow> hs = []" for hs
      by (cases hs) (auto simp: parse_frame_header_def)
    then show ?thesis
      by (subst scan_frames.simps)
         (auto simp: False matches_identity_def one_stream_def split: option.split)
  next
    case True
    show ?thesis
    proof (cases "scan_frame bytes s e st")
      case (Inl a)
      have "\<not> (frames_tile hs ?sl \<and> matches_identity st hs)" for hs
      proof
        assume t: "frames_tile hs ?sl \<and> matches_identity st hs"
        with True len obtain h hs' where hs: "hs = h # hs'" by (cases hs) auto
        with t have p: "parse_frame_header (take 4 ?sl) = Some h" and l: "fh_frame_length h \<le> e - ms_offset st"
          using len by auto
        from parse_frame_header_length(1) [OF p] len have four: "4 \<le> e - ms_offset st" by simp
        with p have "parse_frame_header (slice bytes (ms_offset st) (ms_offset st + 4)) = Some h"
          by (simp add: slice_take)
        moreover from t hs have "\<forall>i. ms_stream_identity st = Some i \<longrightarrow> i = header_identity h"
          using matches_identity_Cons by blast
        ultimately have "scan_frame bytes s e st = Inr (accept_frame bytes h st)"
          using four l by (auto simp: scan_frame_Inr)
        with Inl show False by simp
      qed
      then have "\<nexists>hs. frames_tile hs ?sl \<and> matches_identity st hs \<and> st' = fold (accept_frame bytes) hs st"
        by blast
      then show ?thesis by (subst scan_frames.simps) (simp add: True Inl)
    next
      case (Inr st1)
      then obtain h where p: "parse_frame_header (slice bytes (ms_offset st) (ms_offset st + 4)) = Some h"
        and four: "4 \<le> e - ms_offset st" and l: "ms_offset st + fh_frame_length h \<le> e"
        and i: "\<forall>i. ms_stream_identity st = Some i \<longrightarrow> i = header_identity h"
        and st1: "st1 = accept_frame bytes h st" by (auto simp: scan_frame_Inr)
      have tk: "parse_frame_header (take 4 ?sl) = Some h" using p four by (simp add: slice_take)
      have dr: "drop (fh_frame_length h) ?sl = slice bytes (ms_offset st1) e"
        using l by (simp add: slice_drop st1)
      have l': "fh_frame_length h \<le> length ?sl" using l len by simp
      have tile: "frames_tile hs ?sl \<longleftrightarrow> (\<exists>hs'. hs = h # hs' \<and> frames_tile hs' (slice bytes (ms_offset st1) e))"
        for hs
      proof (cases hs)
        case Nil
        with True len show ?thesis by auto
      next
        case (Cons h' hs')
        with tk dr l' show ?thesis by auto
      qed
      have "ms_offset st1 \<le> e" using l by (simp add: st1)
      from "1.IH" [OF True Inr "1.prems"(1) this]
      have "scan_frames bytes s e st = Inr st' \<longleftrightarrow> (\<exists>hs'.
          frames_tile hs' (slice bytes (ms_offset st1) e) \<and> matches_identity st1 hs'
          \<and> st' = fold (accept_frame bytes) hs' st1)"
        by (subst scan_frames.simps) (simp add: True Inr)
      moreover have "(\<exists>hs. frames_tile hs ?sl \<and> matches_identity st hs \<and> st' = fold (accept_frame bytes) hs st)
        \<longleftrightarrow> (\<exists>hs'. frames_tile hs' (slice bytes (ms_offset st1) e) \<and> matches_identity st1 hs'
          \<and> st' = fold (accept_frame bytes) hs' st1)"
        unfolding tile using i by (auto simp: st1 matches_identity_Cons [of st h _ bytes])
      ultimately show ?thesis by (rule trans [OF _ sym])
    qed
  qed
qed

section \<open>What the frames say\<close>

lemma accept_frame_counts:
  assumes "ms_frame_count st < u64_max" and "ms_audio_bytes st + fh_frame_length h \<le> u64_max"
  shows "ms_frame_count (accept_frame bytes h st) = ms_frame_count st + 1"
    and "ms_audio_bytes (accept_frame bytes h st) = ms_audio_bytes st + fh_frame_length h"
  using assms by (simp_all add: accept_frame_def Let_def u64_saturating_add_def)

lemma fold_counts:
  assumes "ms_frame_count st + length hs \<le> u64_max"
    and "ms_audio_bytes st + sum_list (map fh_frame_length hs) \<le> u64_max"
  shows "ms_frame_count (fold (accept_frame bytes) hs st) = ms_frame_count st + length hs
    \<and> ms_audio_bytes (fold (accept_frame bytes) hs st) = ms_audio_bytes st + sum_list (map fh_frame_length hs)"
  using assms
proof (induction hs arbitrary: st)
  case (Cons h hs)
  then have c: "ms_frame_count (accept_frame bytes h st) = ms_frame_count st + 1"
    "ms_audio_bytes (accept_frame bytes h st) = ms_audio_bytes st + fh_frame_length h"
    by (simp_all add: accept_frame_counts)
  from Cons.IH [of "accept_frame bytes h st"] Cons.prems c show ?case by simp
qed simp

lemma fold_rates:
  "sorted (ms_bitrates st) \<and> distinct (ms_bitrates st) \<Longrightarrow>
    sorted (ms_bitrates (fold (accept_frame bytes) hs st)) \<and> distinct (ms_bitrates (fold (accept_frame bytes) hs st))
    \<and> set (ms_bitrates (fold (accept_frame bytes) hs st)) = set (ms_bitrates st) \<union> fh_bitrate_kbps ` set hs"
  by (induction hs arbitrary: st)
     (auto simp: accept_frame_def Let_def sorted_insort_insert distinct_insort_insert set_insort_insert)

lemma fold_sample_rates:
  "sorted (ms_sample_rates st) \<and> distinct (ms_sample_rates st) \<Longrightarrow>
    sorted (ms_sample_rates (fold (accept_frame bytes) hs st))
    \<and> distinct (ms_sample_rates (fold (accept_frame bytes) hs st))
    \<and> set (ms_sample_rates (fold (accept_frame bytes) hs st)) = set (ms_sample_rates st) \<union> fh_sample_rate_hz ` set hs"
  by (induction hs arbitrary: st)
     (auto simp: accept_frame_def Let_def sorted_insort_insert distinct_insort_insert set_insort_insert)

lemma fold_vbr:
  "0 < ms_frame_count st \<Longrightarrow> ms_vbr_header (fold (accept_frame bytes) hs st) = ms_vbr_header st"
proof (induction hs arbitrary: st)
  case (Cons h hs)
  have "0 < ms_frame_count (accept_frame bytes h st)"
    "ms_vbr_header (accept_frame bytes h st) = ms_vbr_header st"
    using Cons.prems by (simp_all add: accept_frame_def Let_def u64_saturating_add_def u64_max_def)
  with Cons.IH show ?case by simp
qed simp

lemma sorted_distinct_sort: "sorted xs \<Longrightarrow> distinct xs \<Longrightarrow> xs = sorted_list_of_set (set xs)"
  by (simp add: sorted_list_of_set_sort_remdups sorted_sort_id distinct_remdups_id)

text \<open>The Xing or VBRI marker of the first frame.\<close>

definition first_marker :: "byte list \<Rightarrow> usize \<Rightarrow> frame_header \<Rightarrow> mp3_vbr_header option" where
  "first_marker bytes start h = detect_vbr_header (slice bytes start (start + fh_frame_length h)) h"

lemma fold_initial:
  fixes bytes :: "byte list" and start :: usize
  assumes "hs \<noteq> []" and "length hs \<le> u64_max" and "sum_list (map fh_frame_length hs) \<le> u64_max"
  defines "st \<equiv> fold (accept_frame bytes) hs (initial_state start)"
  shows "ms_frame_count st = length hs" and "ms_audio_bytes st = sum_list (map fh_frame_length hs)"
    and "ms_bitrates st = sorted_list_of_set (fh_bitrate_kbps ` set hs)"
    and "ms_sample_rates st = sorted_list_of_set (fh_sample_rate_hz ` set hs)"
    and "ms_vbr_header st = first_marker bytes start (hd hs)"
proof -
  from fold_counts [of "initial_state start" hs bytes] assms(2,3)
  show "ms_frame_count st = length hs" and "ms_audio_bytes st = sum_list (map fh_frame_length hs)"
    by (simp_all add: st_def initial_state_def)
  from fold_rates [of "initial_state start" bytes hs] sorted_distinct_sort [of "ms_bitrates st"]
  show "ms_bitrates st = sorted_list_of_set (fh_bitrate_kbps ` set hs)"
    by (simp add: st_def initial_state_def)
  from fold_sample_rates [of "initial_state start" bytes hs] sorted_distinct_sort [of "ms_sample_rates st"]
  show "ms_sample_rates st = sorted_list_of_set (fh_sample_rate_hz ` set hs)"
    by (simp add: st_def initial_state_def)
  from assms(1) obtain h hs' where hs: "hs = h # hs'" by (cases hs) auto
  have "0 < ms_frame_count (accept_frame bytes h (initial_state start))"
    by (simp add: accept_frame_def initial_state_def Let_def u64_saturating_add_def u64_max_def)
  from fold_vbr [OF this, of bytes hs']
  show "ms_vbr_header st = first_marker bytes start (hd hs)"
    by (simp add: st_def hs accept_frame_def initial_state_def Let_def first_marker_def)
qed

section \<open>Properties\<close>

lemma id3v2_end_le: "id3v2_end bytes e = Inr start \<Longrightarrow> start \<le> e"
  by (auto simp: id3v2_end_def Let_def split: if_splits list.splits)

lemma audio_end_le: "audio_end_of bytes \<le> length bytes"
  by (simp add: audio_end_of_def)

text \<open>Bounds kept by the loop, whether it completes or stops at a bad frame.\<close>

definition scan_inv :: "usize \<Rightarrow> usize \<Rightarrow> mp3_state \<Rightarrow> bool" where
  "scan_inv s e st \<longleftrightarrow> s + 24 * ms_frame_count st \<le> ms_offset st
     \<and> s + ms_audio_bytes st \<le> ms_offset st \<and> ms_offset st \<le> e"

definition analysis_within :: "usize \<Rightarrow> mp3_frame_analysis \<Rightarrow> bool" where
  "analysis_within e a \<longleftrightarrow> 24 * fa_frame_count a \<le> e \<and> fa_audio_bytes a \<le> e
     \<and> (case fa_error a of None \<Rightarrow> fa_status a \<noteq> InvalidStream
        | Some er \<Rightarrow> fa_status a = InvalidStream \<and> se_byte_offset er \<le> e)"

lemma initial_inv: "s \<le> e \<Longrightarrow> scan_inv s e (initial_state s)"
  by (simp add: scan_inv_def initial_state_def)

lemma accept_frame_inv:
  assumes "scan_inv s e st" and "parse_frame_header bs = Some h" and "ms_offset st + fh_frame_length h \<le> e"
  shows "scan_inv s e (accept_frame bytes h st)"
proof -
  have "24 * u64_saturating_add (ms_frame_count st) 1 \<le> 24 * ms_frame_count st + 24"
    "u64_saturating_add (ms_audio_bytes st) (fh_frame_length h) \<le> ms_audio_bytes st + fh_frame_length h"
    by (simp_all add: u64_saturating_add_def min_def)
  with assms parse_frame_header_length(2) [OF assms(2)] show ?thesis
    by (simp add: scan_inv_def accept_frame_def Let_def)
qed

lemma completed_within: "scan_inv s e st \<Longrightarrow> analysis_within e (completed_invalid_analysis s' st k)"
  by (simp add: scan_inv_def analysis_within_def completed_invalid_analysis_def)

lemma scan_frames_bounds:
  assumes "scan_inv s e st"
  shows "case scan_frames bytes s e st of
      Inl a \<Rightarrow> fa_error a \<noteq> None \<and> analysis_within e a | Inr st' \<Rightarrow> scan_inv s e st'"
  using assms
proof (induction bytes s e st rule: scan_frames.induct)
  case (1 bytes s e st)
  show ?case
  proof (cases "ms_offset st < e")
    case False
    with "1.prems" show ?thesis by (subst scan_frames.simps) simp
  next
    case True
    show ?thesis
    proof (cases "scan_frame bytes s e st")
      case (Inl a)
      then have "fa_error a \<noteq> None \<and> analysis_within e a"
        using "1.prems" completed_within [OF "1.prems"]
          completed_within [of s e "st\<lparr>ms_sample_rates := R\<rparr>" for R]
        by (auto simp: scan_frame_def completed_invalid_analysis_def [abs_def] scan_inv_def
            analysis_within_def split: if_splits option.splits)
      with True Inl show ?thesis by (subst scan_frames.simps) simp
    next
      case (Inr st1)
      then have "scan_inv s e st1"
        using accept_frame_inv [OF "1.prems"] by (auto simp: scan_frame_Inr)
      from "1.IH" [OF True Inr this] show ?thesis
        by (subst scan_frames.simps) (simp add: True Inr)
    qed
  qed
qed

lemma scan_cases:
  obtains (refused) a where "scan_mp3_frames bytes = a" and "fa_error a \<noteq> None"
      and "fa_status a = InvalidStream" and "\<nexists>start hs. well_framed bytes start hs"
  | (framed) start hs where "well_framed bytes start hs"
      and "scan_mp3_frames bytes = finished_analysis start (fold (accept_frame bytes) hs (initial_state start))"
proof -
  let ?e = "audio_end_of bytes"
  have none: "\<not> well_framed bytes start hs" if "length (audio_slice bytes start) < 4" for start hs
    using that by (cases hs) (auto simp: well_framed_def parse_short)
  have len: "length (audio_slice bytes start) = ?e - start" for start
    unfolding audio_slice_def by (rule length_slice [OF audio_end_le])
  show thesis
  proof (cases "length bytes < 4 \<or> (\<exists>k. id3v2_end bytes ?e = Inl k)")
    case True
    moreover have "length bytes < 4 \<Longrightarrow> length (audio_slice bytes start) < 4" for start
      using len [of start] audio_end_le [of bytes] by linarith
    ultimately have "\<not> well_framed bytes start hs" for start hs
      using none [of start hs] by (auto simp: well_framed_def)
    with True show thesis
      by (intro refused [OF refl]) (auto simp: scan_mp3_frames_def invalid_analysis_def Let_def)
  next
    case False
    then obtain start where st: "id3v2_end bytes ?e = Inr start" and l: "\<not> length bytes < 4"
      by (cases "id3v2_end bytes ?e") auto
    have only: "well_framed bytes s hs \<Longrightarrow> s = start" for s hs using st by (simp add: well_framed_def)
    show thesis
    proof (cases "?e - start < 4")
      case True
      then have "\<not> well_framed bytes s hs" for s hs using none [of s hs] len [of s] only [of s hs] by auto
      with True st l show thesis
        by (intro refused [OF refl]) (auto simp: scan_mp3_frames_def invalid_analysis_def Let_def)
    next
      case False
      let ?r = "scan_frames bytes start ?e (initial_state start)"
      have off: "ms_offset (initial_state start) \<le> ?e"
        using id3v2_end_le [OF st] by (simp add: initial_state_def)
      have run: "scan_mp3_frames bytes = (case ?r of Inl a \<Rightarrow> a | Inr st \<Rightarrow> finished_analysis start st)"
        using st l False by (simp add: scan_mp3_frames_def Let_def)
      have eq: "?r = Inr t \<longleftrightarrow> (\<exists>hs. well_framed bytes start hs \<and> t = fold (accept_frame bytes) hs (initial_state start))" for t
      proof -
        have "frames_tile hs (audio_slice bytes start) \<Longrightarrow> hs \<noteq> []" for hs
          using len [of start] False by (cases hs) auto
        then show ?thesis
          using scan_frames_Inr [OF audio_end_le off, of start t] st
          by (auto simp: well_framed_def audio_slice_def matches_identity_def initial_state_def)
      qed
      show thesis
      proof (cases ?r)
        case (Inr t)
        with eq [of t] obtain hs where "well_framed bytes start hs"
          "t = fold (accept_frame bytes) hs (initial_state start)" by auto
        with Inr run show thesis by (intro framed [of start hs]) simp_all
      next
        case (Inl a)
        have "\<nexists>s hs. well_framed bytes s hs" using eq Inl only by (metis sum.distinct(1))
        moreover have "fa_error a \<noteq> None \<and> fa_status a = InvalidStream"
          using scan_frames_bounds [OF initial_inv, of start ?e bytes] off Inl
          by (auto simp: analysis_within_def initial_state_def)
        ultimately show thesis using Inl run refused by auto
      qed
    qed
  qed
qed

text \<open>
  C35. The scan accepts exactly the well-framed files. It reports no error if and only if the tags are
  readable and the bytes between them are a non-empty sequence of complete frames with supported
  headers, of one version, layer and sample rate. Then it reports their number, their bytes, their
  bit rates in increasing order and the sample rate, and a constant rate exactly when there are at
  least two frames, all of the same bit rate, and the first has no Xing or VBRI marker.
\<close>

theorem scan_accepts_exactly_well_framed:
  assumes "length bytes \<le> u64_max"
  shows "case fa_error (scan_mp3_frames bytes) of
      Some e \<Rightarrow> fa_status (scan_mp3_frames bytes) = InvalidStream \<and> (\<forall>start hs. \<not> well_framed bytes start hs)
    | None \<Rightarrow> (\<exists>start hs. well_framed bytes start hs
        \<and> fa_first_frame_offset (scan_mp3_frames bytes) = Some start
        \<and> fa_frame_count (scan_mp3_frames bytes) = length hs
        \<and> fa_audio_bytes (scan_mp3_frames bytes) = audio_end_of bytes - start
        \<and> fa_bitrates_kbps (scan_mp3_frames bytes) = sorted_list_of_set (fh_bitrate_kbps ` set hs)
        \<and> fa_sample_rates_hz (scan_mp3_frames bytes) = [fh_sample_rate_hz (hd hs)]
        \<and> (fa_status (scan_mp3_frames bytes) = ConstantRate \<longleftrightarrow> 2 \<le> length hs
             \<and> (\<forall>h \<in> set hs. fh_bitrate_kbps h = fh_bitrate_kbps (hd hs))
             \<and> \<not> is_variable_marker (first_marker bytes start (hd hs))))"
proof (cases rule: scan_cases [of bytes])
  case (refused a)
  then show ?thesis by auto
next
  case (framed start hs)
  let ?st = "fold (accept_frame bytes) hs (initial_state start)"
  have ne: "hs \<noteq> []" and t: "frames_tile hs (audio_slice bytes start)" and o: "one_stream hs"
    using framed(1) by (simp_all add: well_framed_def)
  have len: "length (audio_slice bytes start) = audio_end_of bytes - start"
    unfolding audio_slice_def by (rule length_slice [OF audio_end_le])
  note tl = frames_tile_length [OF t]
  have le: "length hs \<le> u64_max" "sum_list (map fh_frame_length hs) \<le> u64_max"
    using tl len assms audio_end_le [of bytes] by linarith+
  note f = fold_initial [OF ne le, of bytes start]
  have rate: "fh_sample_rate_hz ` set hs = {fh_sample_rate_hz (hd hs)}"
    using o ne by (cases hs) (auto simp: one_stream_def header_identity_def)
  have card: "length (sorted_list_of_set (fh_bitrate_kbps ` set hs)) > 1
      \<longleftrightarrow> \<not> (\<forall>h \<in> set hs. fh_bitrate_kbps h = fh_bitrate_kbps (hd hs))"
  proof -
    have in1: "fh_bitrate_kbps (hd hs) \<in> fh_bitrate_kbps ` set hs" using ne by simp
    have "card (fh_bitrate_kbps ` set hs) > 1
        \<longleftrightarrow> fh_bitrate_kbps ` set hs \<noteq> {fh_bitrate_kbps (hd hs)}"
      using in1 card_gt_0_iff [of "fh_bitrate_kbps ` set hs"]
      by (metis One_nat_def card_1_singleton_iff finite_imageI finite_set linorder_neqE_nat
          less_one neq0_conv singletonD empty_iff)
    with in1 show ?thesis by auto
  qed
  have none: "fa_error (scan_mp3_frames bytes) = None"
    by (simp add: framed(2) finished_analysis_def Let_def)
  have status: "fa_status (scan_mp3_frames bytes) = ConstantRate \<longleftrightarrow> 2 \<le> length hs
             \<and> (\<forall>h \<in> set hs. fh_bitrate_kbps h = fh_bitrate_kbps (hd hs))
             \<and> \<not> is_variable_marker (first_marker bytes start (hd hs))"
    using card by (auto simp: framed(2) finished_analysis_def Let_def f)
  show ?thesis
    unfolding none option.case using framed(1) status tl len
    by (intro exI [of _ start] exI [of _ hs])
       (simp add: framed(2) finished_analysis_def Let_def f rate)
qed

lemma scan_frame_invalid:
  "scan_frame bytes start audio_end st = Inl a \<Longrightarrow> fa_error a \<noteq> None"
  by (auto simp: scan_frame_def completed_invalid_analysis_def Let_def
      split: if_splits option.splits)

lemma scan_frames_invalid:
  "scan_frames bytes start audio_end st = Inl a \<Longrightarrow> fa_error a \<noteq> None"
proof (induction bytes start audio_end st rule: scan_frames.induct)
  case (1 bytes start audio_end st)
  from "1.prems" "1.IH" show ?case
    by (simp add: scan_frames.simps [of bytes start audio_end st] split: if_splits sum.splits)
       (auto dest: scan_frame_invalid)
qed

lemma scan_error_or_valid:
  "fa_error (scan_mp3_frames bytes) \<noteq> None \<or> fa_status (scan_mp3_frames bytes) \<noteq> InvalidStream"
  using scan_frames_invalid
  by (auto simp: scan_mp3_frames_def Let_def invalid_analysis_def finished_analysis_def
      split: sum.split)

text \<open>
  Whatever the bytes are, the scan stops and stays within them: it reports at most one frame per
  24 bytes, no more audio bytes than the file has, and the offset of an error inside the file.
\<close>

theorem scan_stays_within_file:
  "analysis_within (length bytes) (scan_mp3_frames bytes)"
proof -
  let ?e = "audio_end_of bytes"
  have e: "?e \<le> length bytes" by (rule audio_end_le)
  have mono: "analysis_within (length bytes) a" if "analysis_within ?e a" for a
    using that e by (auto simp: analysis_within_def split: option.splits)
  have inv: "analysis_within (length bytes) (invalid_analysis k n)" if "n \<le> length bytes" for k n
    using that by (simp add: analysis_within_def invalid_analysis_def)
  show ?thesis
  proof (cases "length bytes < 4")
    case True
    then show ?thesis using inv [of 0 TooShort] by (simp add: scan_mp3_frames_def)
  next
    case False
    show ?thesis
    proof (cases "id3v2_end bytes ?e")
      case (Inl n)
      then have "n \<le> 6" "n = 6 \<Longrightarrow> 10 \<le> length bytes"
        by (auto simp: id3v2_end_def Let_def split: if_splits list.splits)
      then have "n \<le> length bytes" using False Inl
        by (auto simp: id3v2_end_def Let_def split: if_splits list.splits)
      with Inl False inv show ?thesis by (simp add: scan_mp3_frames_def Let_def)
    next
      case (Inr start)
      have le: "start \<le> ?e" by (rule id3v2_end_le [OF Inr])
      show ?thesis
      proof (cases "?e - start < 4")
        case True
        with Inr False inv [of start] le e show ?thesis by (simp add: scan_mp3_frames_def Let_def)
      next
        case run: False
        have b: "case scan_frames bytes start ?e (initial_state start) of
            Inl a \<Rightarrow> fa_error a \<noteq> None \<and> analysis_within ?e a | Inr st' \<Rightarrow> scan_inv start ?e st'"
          by (rule scan_frames_bounds [OF initial_inv [OF le]])
        have fin: "analysis_within ?e (finished_analysis start st)" if "scan_inv start ?e st" for st
          using that by (auto simp: analysis_within_def finished_analysis_def scan_inv_def Let_def)
        from Inr False run b fin mono show ?thesis
          by (auto simp: scan_mp3_frames_def Let_def split: sum.splits)
      qed
    qed
  qed
qed

text \<open>
  The quality gate. An analysis raises no finding exactly when the file scans without error, has
  a constant rate if that is required, every bit rate lies in the configured range and the sample
  rate is the configured one; every finding is an error, and expectations are refused exactly when
  their bit-rate range is empty.
\<close>

theorem mp3_quality_gate:
  "case analyze_mp3 bytes x of
     Inl e \<Rightarrow> \<exists>r. xp_bitrate_kbps x = Some r \<and> \<not> (\<exists>v. range_u64_contains r v)
   | Inr (a, findings) \<Rightarrow> a = scan_mp3_frames bytes
       \<and> list_all (\<lambda>f. qf_severity f = QcError) findings
       \<and> (findings = [] \<longleftrightarrow> fa_error a = None \<and> (xp_require_cbr x \<longrightarrow> fa_status a = ConstantRate)
            \<and> is_none_or (xp_bitrate_kbps x) (\<lambda>r. list_all (range_u64_contains r) (fa_bitrates_kbps a))
            \<and> is_none_or (xp_sample_rate_hz x) (\<lambda>r. list_all (\<lambda>v. v = r) (fa_sample_rates_hz a)))"
proof -
  let ?a = "scan_mp3_frames bytes"
  have err: "list_all (\<lambda>f. qf_severity f = QcError) (structure_findings x ?a)"
    "list_all (\<lambda>f. qf_severity f = QcError) (bitrate_findings r ?a)"
    "list_all (\<lambda>f. qf_severity f = QcError) (sample_rate_findings k ?a)" for r k
    by (auto simp: structure_findings_def bitrate_findings_def sample_rate_findings_def finding_new_def
        finding_evidence_def finding_at_def list_all_iff Let_def
        split: option.split mp3_cbr_status.split)
  have str: "structure_findings x ?a = [] \<longleftrightarrow> fa_error ?a = None
      \<and> (xp_require_cbr x \<longrightarrow> fa_status ?a = ConstantRate)"
    using scan_error_or_valid [of bytes]
    by (auto simp: structure_findings_def Let_def
        split: option.splits mp3_cbr_status.splits)
  have bit: "bitrate_findings r ?a = [] \<longleftrightarrow> list_all (range_u64_contains r) (fa_bitrates_kbps ?a)" for r
    by (auto simp: bitrate_findings_def filter_empty_conv list_all_iff)
  have rate: "sample_rate_findings k ?a = [] \<longleftrightarrow> list_all (\<lambda>v. v = k) (fa_sample_rates_hz ?a)" for k
    by (auto simp: sample_rate_findings_def filter_empty_conv list_all_iff)
  have ok: "mp3_expectations_validate x = Inr () \<longleftrightarrow>
      is_none_or (xp_bitrate_kbps x) (\<lambda>r. \<exists>v. range_u64_contains r v)"
    by (auto simp: mp3_expectations_validate_def is_none_or_def valid_range_u64_inhabited
        split: option.split)
  show ?thesis
  proof (cases "mp3_expectations_validate x")
    case (Inl e)
    with ok show ?thesis by (auto simp: analyze_mp3_def is_none_or_def split: option.splits)
  next
    case (Inr u)
    then show ?thesis using err str bit rate
      by (auto simp: analyze_mp3_def Let_def is_none_or_def split: option.split)
  qed
qed

section \<open>A file of two frames\<close>

definition sample_frame :: "byte list" where
  "sample_frame = [0xFF, 0xF3, 0x14, 0x00] @ replicate 20 0"

definition sample_header :: frame_header where
  "sample_header = \<lparr>fh_version = MpegTwo, fh_layer = LayerThree, fh_bitrate_kbps = 8,
     fh_sample_rate_hz = 24000, fh_frame_length = 24, fh_samples_per_frame = 576,
     fh_crc_present = False, fh_mono = False\<rparr>"

lemma parse_sample_frame: "parse_frame_header [0xFF, 0xF3, 0x14, 0x00] = Some sample_header"
  by (simp add: parse_frame_header_def u32_from_be_bytes_def decode_header_def header_bits_def
      header_version_def header_layer_def sample_header_def bitrate_def sample_rate_def
      bitrate_table_def list_get_def frame_length_of_def samples_per_frame_of_def u64_defs Let_def)

lemma sample_file_framed:
  "well_framed (sample_frame @ sample_frame) 0 [sample_header, sample_header]"
proof -
  have e: "audio_end_of (sample_frame @ sample_frame) = 48"
    by (simp add: audio_end_of_def sample_frame_def)
  have "id3v2_end (sample_frame @ sample_frame) 48 = Inr 0"
    by (simp add: id3v2_end_def sample_frame_def bytes_of_def)
  moreover have "frames_tile [sample_header, sample_header] (sample_frame @ sample_frame)"
    using parse_sample_frame by (simp add: sample_frame_def sample_header_def)
  moreover have "audio_slice (sample_frame @ sample_frame) 0 = sample_frame @ sample_frame"
    by (simp add: audio_slice_def slice_def e) (simp add: sample_frame_def)
  ultimately show ?thesis by (simp add: well_framed_def one_stream_def e)
qed

theorem scan_accepts_exactly_well_framed_witness:
  "fa_error (scan_mp3_frames (sample_frame @ sample_frame)) = None
   \<and> fa_audio_bytes (scan_mp3_frames (sample_frame @ sample_frame)) = 48"
proof -
  let ?f = "sample_frame @ sample_frame"
  have "length ?f \<le> u64_max" by (simp add: sample_frame_def u64_max_def)
  note ex = scan_accepts_exactly_well_framed [OF this]
  from ex sample_file_framed have none: "fa_error (scan_mp3_frames ?f) = None"
    by (auto split: option.splits)
  with ex obtain start hs where w: "well_framed ?f start hs"
    and "fa_audio_bytes (scan_mp3_frames ?f) = audio_end_of ?f - start" by auto
  moreover from w sample_file_framed have "start = 0" by (simp add: well_framed_def)
  ultimately show ?thesis using none by (simp add: audio_end_of_def sample_frame_def)
qed

lemma sample_file_scan:
  "fa_error (scan_mp3_frames (sample_frame @ sample_frame)) = None"
  "fa_status (scan_mp3_frames (sample_frame @ sample_frame)) = ConstantRate"
proof -
  let ?f = "sample_frame @ sample_frame"
  have e: "audio_end_of ?f = 48" and l: "length ?f = 48"
    by (simp_all add: audio_end_of_def sample_frame_def)
  have i: "id3v2_end ?f 48 = Inr 0" by (simp add: id3v2_end_def sample_frame_def bytes_of_def)
  have "scan_frames ?f 0 48 (initial_state 0)
      = Inr (fold (accept_frame ?f) [sample_header, sample_header] (initial_state 0))"
    using sample_file_framed l
    by (subst scan_frames_Inr)
       (simp_all add: well_framed_def audio_slice_def e matches_identity_def initial_state_def
          exI [of _ "[sample_header, sample_header]"] del: frames_tile.simps fold_simps)
  then have "scan_mp3_frames ?f
      = finished_analysis 0 (fold (accept_frame ?f) [sample_header, sample_header] (initial_state 0))"
    using l by (simp add: scan_mp3_frames_def Let_def e i)
  moreover have "detect_vbr_header (slice ?f 0 24) sample_header = None"
    by (simp add: sample_header_def sample_frame_def detect_vbr_header_def has_tag_at_def bytes_of_def
        slice_def)
  moreover have "fh_frame_length sample_header = 24" "fh_bitrate_kbps sample_header = 8"
    by (simp_all add: sample_header_def)
  ultimately show "fa_error (scan_mp3_frames ?f) = None" "fa_status (scan_mp3_frames ?f) = ConstantRate"
    by (simp_all add: finished_analysis_def accept_frame_def initial_state_def is_variable_marker_def
        is_some_and_def insort_insert_key_def u64_saturating_add_def u64_max_def Let_def)
qed

theorem mp3_quality_gate_witness:
  "analyze_mp3 (sample_frame @ sample_frame) default_mp3_expectations
   = Inr (scan_mp3_frames (sample_frame @ sample_frame), [])"
proof -
  let ?f = "sample_frame @ sample_frame" and ?x = default_mp3_expectations
  have x: "xp_require_cbr ?x" "xp_bitrate_kbps ?x = None" "xp_sample_rate_hz ?x = None"
    by (simp_all add: default_mp3_expectations_def)
  have "analyze_mp3 ?f ?x \<noteq> Inl e" for e
    using mp3_quality_gate [of ?x ?f] x by auto
  then obtain a fs where a: "analyze_mp3 ?f ?x = Inr (a, fs)"
    by (cases "analyze_mp3 ?f ?x") auto
  with mp3_quality_gate [of ?x ?f] x sample_file_scan show ?thesis
    by (simp add: is_none_or_def)
qed

end
