(* ===== verification/Utf8_Text.thy ===== *)
theory Utf8_Text
  imports Prelude
begin

text \<open>
  Byte positions in UTF-8 texts: character boundaries, slicing between them and the white-space
  characters at a position. The code slices a \<open>String\<close> only at character boundaries; the lemmas
  here say which positions these are.
\<close>

section \<open>Encoded characters\<close>

definition is_continuation :: "char \<Rightarrow> bool" where
  "is_continuation c \<longleftrightarrow> 128 \<le> (of_char c :: nat) \<and> (of_char c :: nat) < 192"

text \<open>The length of the encoding that starts with a byte; 0 for a byte that cannot start one.\<close>

definition utf8_width :: "char \<Rightarrow> nat" where
  "utf8_width c = (let n = (of_char c :: nat) in
     if n < 128 then 1 else if n < 194 then 0 else if n < 224 then 2 else if n < 240 then 3
     else if n < 245 then 4 else 0)"

lemma utf8_width_le: "utf8_width c \<le> 4"
  by (simp add: utf8_width_def Let_def)

text \<open>A text of complete characters. Every Rust \<open>String\<close> is one.\<close>

function utf8 :: "str \<Rightarrow> bool" where
  "utf8 s =
     (if s = [] then True
      else if utf8_width (hd s) = 0 \<or> length s < utf8_width (hd s) then False
      else list_all is_continuation (take (utf8_width (hd s) - 1) (tl s))
        \<and> utf8 (drop (utf8_width (hd s)) s))"
  by pat_completeness auto
termination by (relation "measure length") auto

declare utf8.simps [simp del]

lemma utf8_Nil [simp]: "utf8 []"
  by (subst utf8.simps) simp

lemma utf8_step:
  assumes "utf8 s" and "s \<noteq> []"
  shows "0 < utf8_width (hd s)" and "utf8_width (hd s) \<le> length s"
    and "list_all is_continuation (take (utf8_width (hd s) - 1) (tl s))"
    and "utf8 (drop (utf8_width (hd s)) s)"
  using assms utf8.simps [of s] by (auto split: if_splits)

lemma utf8_ascii:
  "list_all (\<lambda>c. (of_char c :: nat) < 128) s \<Longrightarrow> utf8 s"
  by (induction s) (subst utf8.simps, simp add: utf8_width_def)+

text \<open>\<open>str::is_char_boundary\<close>.\<close>

definition is_char_boundary :: "str \<Rightarrow> nat \<Rightarrow> bool" where
  "is_char_boundary s i \<longleftrightarrow> i = 0 \<or> i = length s \<or> (i < length s \<and> \<not> is_continuation (s ! i))"

text \<open>\<open>s.chars().count()\<close>: the bytes that start a character.\<close>

definition char_count :: "str \<Rightarrow> nat" where
  "char_count s = length (filter (\<lambda>c. \<not> is_continuation c) s)"

text \<open>\<open>s[i..j]\<close>.\<close>

definition str_slice :: "str \<Rightarrow> nat \<Rightarrow> nat \<Rightarrow> str" where
  "str_slice s i j = take (j - i) (drop i s)"

lemma length_str_slice: "i \<le> j \<Longrightarrow> j \<le> length s \<Longrightarrow> length (str_slice s i j) = j - i"
  by (simp add: str_slice_def)

lemma str_slice_full [simp]: "str_slice s 0 (length s) = s"
  by (simp add: str_slice_def)

lemma str_slice_append:
  "i \<le> j \<Longrightarrow> j \<le> k \<Longrightarrow> str_slice s i j @ str_slice s j k = str_slice s i k"
  using take_add [of "j - i" "k - j" "drop i s"] by (simp add: str_slice_def)

lemma str_slice_slice:
  "i \<le> j \<Longrightarrow> m \<le> n \<Longrightarrow> i + n \<le> j \<Longrightarrow> str_slice (str_slice s i j) m n = str_slice s (i + m) (i + n)"
  by (simp add: str_slice_def drop_take add.commute)

text \<open>\<open>s.chars()\<close>, each character as its encoding; taking characters and trimming white space.\<close>

function chars_of :: "str \<Rightarrow> str list" where
  "chars_of s = (if s = [] then [] else
     let w = max 1 (utf8_width (hd s)) in take w s # chars_of (drop w s))"
  by pat_completeness auto
termination by (relation "measure length") auto

declare chars_of.simps [simp del]

lemma chars_of_Nil [simp]: "chars_of [] = []"
  by (subst chars_of.simps) simp

lemma concat_chars_of [simp]: "concat (chars_of s) = s"
proof (induction s rule: chars_of.induct)
  case (1 s)
  then show ?case by (subst chars_of.simps) (simp add: Let_def)
qed

definition take_chars :: "nat \<Rightarrow> str \<Rightarrow> str" where
  "take_chars n s = concat (take n (chars_of s))"

definition is_ws_char :: "str \<Rightarrow> bool" where
  "is_ws_char c \<longleftrightarrow> ws_len c \<noteq> 0"

definition str_trim :: "str \<Rightarrow> str" where
  "str_trim s = concat (rev (dropWhile is_ws_char (rev (dropWhile is_ws_char (chars_of s)))))"

section \<open>Boundaries\<close>

lemma is_char_boundary_0 [simp]: "is_char_boundary s 0"
  by (simp add: is_char_boundary_def)

lemma is_char_boundary_length [simp]: "is_char_boundary s (length s)"
  by (simp add: is_char_boundary_def)

lemma is_char_boundary_le: "is_char_boundary s i \<Longrightarrow> i \<le> length s"
  by (auto simp: is_char_boundary_def)

lemma utf8_hd: "utf8 s \<Longrightarrow> s \<noteq> [] \<Longrightarrow> \<not> is_continuation (hd s)"
  using utf8_step(1) [of s]
  by (auto simp: utf8_width_def is_continuation_def Let_def split: if_splits)

text \<open>Cutting at a boundary gives two texts of complete characters.\<close>

lemma utf8_cut:
  assumes "utf8 s" and "is_char_boundary s i"
  shows "utf8 (take i s) \<and> utf8 (drop i s)"
  using assms
proof (induction s arbitrary: i rule: utf8.induct)
  case (1 s)
  let ?w = "utf8_width (hd s)"
  show ?case
  proof (cases "s = [] \<or> i = 0")
    case True
    with "1.prems" show ?thesis by auto
  next
    case False
    then have s: "s \<noteq> []" and i: "0 < i" by auto
    note st = utf8_step [OF "1.prems"(1) s]
    have ge: "?w \<le> i"
    proof (rule ccontr)
      assume "\<not> ?w \<le> i"
      then have "i < ?w" by simp
      with st(2) have l: "i < length s" by simp
      have "s ! i = tl s ! (i - 1)" using i s by (cases s) (auto simp: nth_Cons')
      moreover have "tl s ! (i - 1) = take (?w - 1) (tl s) ! (i - 1)"
        using \<open>i < ?w\<close> i by simp
      moreover have "take (?w - 1) (tl s) ! (i - 1) \<in> set (take (?w - 1) (tl s))"
        using \<open>i < ?w\<close> i l by (intro nth_mem) auto
      ultimately have "is_continuation (s ! i)" using st(3) by (metis list_all_iff)
      with "1.prems"(2) i l show False by (simp add: is_char_boundary_def)
    qed
    have "is_char_boundary (drop ?w s) (i - ?w)"
      using "1.prems"(2) ge st(2) by (auto simp: is_char_boundary_def)
    with "1.IH" [of "i - ?w"] s st have "utf8 (take (i - ?w) (drop ?w s)) \<and> utf8 (drop (i - ?w) (drop ?w s))"
      by simp
    then have ih: "utf8 (take (i - ?w) (drop ?w s))" "utf8 (drop i s)" using ge by simp_all
    have h: "hd (take i s) = hd s" using i by (rule hd_take)
    have "take (?w - 1) (tl (take i s)) = take (?w - 1) (tl s)"
      using ge by (simp add: tl_take min_absorb1)
    moreover have "drop ?w (take i s) = take (i - ?w) (drop ?w s)" by (simp add: drop_take)
    ultimately have "utf8 (take i s)" using h st ge ih(1)
      by (subst utf8.simps) auto
    with ih show ?thesis by simp
  qed
qed

lemma utf8_slice:
  assumes "utf8 s" and "is_char_boundary s i" and "is_char_boundary s j" and "i \<le> j"
  shows "utf8 (str_slice s i j)"
proof -
  have "utf8 (drop i s)" using utf8_cut [OF assms(1,2)] by simp
  moreover have "is_char_boundary (drop i s) (j - i)"
    using assms(3,4) by (auto simp: is_char_boundary_def)
  ultimately show ?thesis by (simp add: str_slice_def utf8_cut)
qed

text \<open>Boundaries of a slice are boundaries of the text.\<close>

lemma is_char_boundary_slice:
  assumes "is_char_boundary s i" and "is_char_boundary s j" and "i \<le> j" and "k \<le> j - i"
  shows "is_char_boundary (str_slice s i j) k \<longleftrightarrow> is_char_boundary s (i + k)"
proof -
  have "j \<le> length s" using assms(2) by (rule is_char_boundary_le)
  with assms show ?thesis
    by (cases "k = j - i") (auto simp: is_char_boundary_def str_slice_def)
qed

text \<open>There is a boundary within three bytes before every position.\<close>

lemma boundary_near:
  assumes "utf8 s" and "p \<le> length s"
  shows "\<exists>q. q \<le> p \<and> p < q + 4 \<and> is_char_boundary s q"
  using assms
proof (induction s arbitrary: p rule: utf8.induct)
  case (1 s)
  let ?w = "utf8_width (hd s)"
  show ?case
  proof (cases "s = [] \<or> p < ?w")
    case True
    with "1.prems" utf8_width_le [of "hd s"] show ?thesis by (intro exI [of _ 0]) auto
  next
    case False
    then have s: "s \<noteq> []" and p: "?w \<le> p" by auto
    note st = utf8_step [OF "1.prems"(1) s]
    have "p - ?w \<le> length (drop ?w s)" using "1.prems"(2) by simp
    with "1.IH" [of "p - ?w"] s st have "\<exists>q \<le> p - ?w. p - ?w < q + 4 \<and> is_char_boundary (drop ?w s) q"
      by simp
    then obtain q where q: "q \<le> p - ?w" "p - ?w < q + 4" "is_char_boundary (drop ?w s) q" by blast
    have "is_char_boundary s (?w + q)"
    proof (cases "q = 0")
      case True
      then show ?thesis
        using utf8_hd [OF st(4)] st(2)
        by (cases "?w = length s") (auto simp: is_char_boundary_def hd_drop_conv_nth)
    next
      case False
      with q(3) st(2) show ?thesis by (auto simp: is_char_boundary_def)
    qed
    with q p show ?thesis by (intro exI [of _ "?w + q"]) auto
  qed
qed

section \<open>White space\<close>

text \<open>A white-space character is encoded as \<^const>\<open>ws_len\<close> says.\<close>

lemma ws_len_width:
  assumes "ws_len s \<noteq> 0"
  shows "s \<noteq> []" and "ws_len s = utf8_width (hd s)" and "ws_len s \<le> length s"
proof -
  show "s \<noteq> []" using assms by auto
  show "ws_len s = utf8_width (hd s)" using assms
    by (cases s rule: ws_len.cases)
       (auto simp: is_ascii_ws_def is_ws_tail_2_def is_ws_tail_3_def utf8_width_def Let_def split: if_splits)
  show "ws_len s \<le> length s" using assms by (cases s rule: ws_len.cases) auto
qed

lemma ws_end_boundary:
  assumes "utf8 s" and "ws_len (drop p s) \<noteq> 0"
  shows "is_char_boundary s p" and "is_char_boundary s (p + ws_len (drop p s))"
    and "p + ws_len (drop p s) \<le> length s"
proof -
  note w = ws_len_width [OF assms(2)]
  then have p: "p < length s" by simp
  have "\<not> is_continuation (hd (drop p s))"
    using w(2) assms(2) by (auto simp: utf8_width_def is_continuation_def Let_def split: if_splits)
  with p show b: "is_char_boundary s p" by (simp add: is_char_boundary_def hd_drop_conv_nth)
  have u: "utf8 (drop p s)" using utf8_cut [OF assms(1) b] by simp
  from w(3) p show le: "p + ws_len (drop p s) \<le> length s" by simp
  from utf8_step(4) [OF u w(1)] w(2) have "utf8 (drop (p + ws_len (drop p s)) s)"
    by (simp add: add.commute)
  with le show "is_char_boundary s (p + ws_len (drop p s))"
    using utf8_hd [of "drop (p + ws_len (drop p s)) s"]
    by (cases "p + ws_len (drop p s) = length s") (auto simp: is_char_boundary_def hd_drop_conv_nth)
qed

section \<open>Characters of a text\<close>

text \<open>Complete encodings, of which the last may be cut off: what \<open>chars_of\<close> returns.\<close>

fun char_seq :: "str list \<Rightarrow> bool" where
  "char_seq [] = True"
| "char_seq [c] = (c \<noteq> [] \<and> length c \<le> max 1 (utf8_width (hd c)))"
| "char_seq (c # cs) = (c \<noteq> [] \<and> length c = max 1 (utf8_width (hd c)) \<and> char_seq cs)"

lemma char_seq_chars_of: "char_seq (chars_of s)"
proof (induction s rule: chars_of.induct)
  case (1 s)
  show ?case
  proof (cases "s = []")
    case False
    let ?w = "max 1 (utf8_width (hd s))"
    have eq: "chars_of s = take ?w s # chars_of (drop ?w s)"
      using False by (subst chars_of.simps) (simp add: Let_def)
    have hd: "take ?w s \<noteq> []" "hd (take ?w s) = hd s" using False by (cases s; simp)+
    show ?thesis
    proof (cases "drop ?w s = []")
      case True
      with eq hd show ?thesis by simp
    next
      case long: False
      then have "length (take ?w s) = ?w" by simp
      moreover obtain d ds where "chars_of (drop ?w s) = d # ds"
        using long by (subst (asm) chars_of.simps) (auto simp: Let_def)
      ultimately show ?thesis using "1.IH" [OF False refl] hd by (simp add: eq)
    qed
  qed simp
qed

lemma chars_of_concat: "char_seq cs \<Longrightarrow> chars_of (concat cs) = cs"
proof (induction cs rule: char_seq.induct)
  case (2 c)
  then show ?case by (subst chars_of.simps) (simp add: Let_def)
next
  case (3 c d cs)
  then have c: "c \<noteq> []" "length c = max 1 (utf8_width (hd c))" "chars_of (concat (d # cs)) = d # cs" by auto
  have "hd (c @ concat (d # cs)) = hd c" using c(1) by simp
  then show ?case using c by (subst chars_of.simps) (simp add: Let_def)
qed simp

lemma char_seq_tl: "char_seq (c # cs) \<Longrightarrow> char_seq cs"
  by (cases cs) auto

lemma char_seq_dropWhile: "char_seq cs \<Longrightarrow> char_seq (dropWhile P cs)"
  by (induction cs) (auto dest: char_seq_tl)

lemma char_seq_prefix: "char_seq (cs @ ds) \<Longrightarrow> char_seq cs"
proof (induction cs rule: char_seq.induct)
  case (2 c)
  then show ?case by (cases ds) auto
qed auto

lemma trim_end_prefix: "\<exists>ws. cs = rev (dropWhile P (rev cs)) @ ws \<and> (\<forall>w \<in> set ws. P w)"
proof -
  have "rev cs = takeWhile P (rev cs) @ dropWhile P (rev cs)" by simp
  then have "cs = rev (dropWhile P (rev cs)) @ rev (takeWhile P (rev cs))" by (metis rev_append rev_rev_ident)
  moreover have "\<forall>w \<in> set (rev (takeWhile P (rev cs))). P w" by (auto dest: set_takeWhileD)
  ultimately show ?thesis by blast
qed

lemma chars_of_trim:
  "chars_of (str_trim s) = rev (dropWhile is_ws_char (rev (dropWhile is_ws_char (chars_of s))))"
proof -
  let ?cs = "dropWhile is_ws_char (chars_of s)"
  obtain ws where "?cs = rev (dropWhile is_ws_char (rev ?cs)) @ ws" using trim_end_prefix [of ?cs is_ws_char] by blast
  then have "char_seq (rev (dropWhile is_ws_char (rev ?cs)))"
    using char_seq_dropWhile [OF char_seq_chars_of [of s]] char_seq_prefix by metis
  then show ?thesis by (simp add: str_trim_def chars_of_concat)
qed

text \<open>A text that was trimmed is empty or not blank.\<close>

lemma ws_len_take: "ws_len s \<noteq> 0 \<Longrightarrow> ws_len (take (max 1 (utf8_width (hd s))) s) \<noteq> 0"
proof -
  assume ws: "ws_len s \<noteq> 0"
  have "ws_len (take (ws_len s) s) \<noteq> 0" using ws by (cases s rule: ws_len.cases) (auto split: if_splits)
  with ws_len_width(2) [OF ws] ws show ?thesis by (simp add: max_def)
qed

lemma str_trim_not_blank: "str_trim s \<noteq> [] \<Longrightarrow> \<not> str_is_blank (str_trim s)"
proof -
  assume ne: "str_trim s \<noteq> []"
  let ?cs = "dropWhile is_ws_char (chars_of s)"
  obtain ws where ws: "?cs = rev (dropWhile is_ws_char (rev ?cs)) @ ws" using trim_end_prefix [of ?cs is_ws_char] by blast
  have trim: "chars_of (str_trim s) = rev (dropWhile is_ws_char (rev ?cs))" by (rule chars_of_trim)
  have "chars_of (str_trim s) \<noteq> []" using ne by (subst chars_of.simps) (simp add: Let_def)
  then obtain c cs where c: "chars_of (str_trim s) = c # cs" by (cases "chars_of (str_trim s)") auto
  then have "hd ?cs = c" "?cs \<noteq> []" using ws trim by (metis append_Cons list.sel(1) list.distinct(1))+
  then have "\<not> is_ws_char c" using hd_dropWhile [of is_ws_char "chars_of s"] by auto
  moreover have "c = take (max 1 (utf8_width (hd (str_trim s)))) (str_trim s)"
    using c ne by (subst (asm) chars_of.simps) (simp add: Let_def)
  ultimately have "ws_len (str_trim s) = 0" using ws_len_take [of "str_trim s"] by (auto simp: is_ws_char_def)
  with ne show ?thesis by (subst str_is_blank.simps) simp
qed

end
