(* ===== verification/Detection_Types.thy ===== *)
theory Detection_Types
  imports Provider_Errors
begin

text \<open>
  The data of character detection in crates/providers/src/types.rs and
  crates/core/src/providers.rs: generation controls with their admission, requests, results and the
  validation of a result against its request. A \<open>BTreeSet\<close> of modes is a list of modes.
\<close>

section \<open>Generation controls\<close>

datatype reasoning_mode = ModeDisabled | ModeEffort | ModeAdaptive | ModeTokenBudget

datatype parameter_support = NoSupport | OmitOnly | SupportsValue | NullableValue

datatype temperature = DefaultTemperature | NullTemperature | TemperatureValue fval

definition temperature_validate :: "temperature \<Rightarrow> parameter_support \<Rightarrow> provider_error + unit" where
  "temperature_validate t support = (case t of
     DefaultTemperature \<Rightarrow> Inr ()
   | NullTemperature \<Rightarrow> (if support = NullableValue then Inr ()
       else Inl (PUnsupported ''the selected temperature mode''))
   | TemperatureValue v \<Rightarrow>
       (if fval_is_finite v \<and> fval_in_range 0 2 v
        then (if support = SupportsValue \<or> support = NullableValue then Inr ()
              else Inl (PUnsupported ''the selected temperature mode''))
        else Inl (PConfiguration ''temperature must be between 0 and 2'')))"

datatype reasoning_effort = ReasoningEffort str

fun effort_text :: "reasoning_effort \<Rightarrow> str" where
  "effort_text (ReasoningEffort s) = s"

definition reasoning_effort_new :: "str \<Rightarrow> validation_issue + reasoning_effort" where
  "reasoning_effort_new value =
     (if value \<noteq> [] \<and> length value \<le> 24
       \<and> list_all (\<lambda>c. is_ascii_lower c \<or> is_ascii_digit c \<or> c = CHR ''_'' \<or> c = CHR ''-'') value
      then Inr (ReasoningEffort value)
      else Inl (mk_issue ''reasoning.effort'' ''invalid''
        ''reasoning effort must be a short lowercase provider identifier''))"

datatype reasoning_control =
  InheritReasoning | DisabledReasoning | EffortReasoning reasoning_effort | AdaptiveReasoning
  | TokenBudget u32

definition reasoning_validate :: "reasoning_control \<Rightarrow> reasoning_mode list \<Rightarrow> provider_error + unit" where
  "reasoning_validate control supported =
     (let admit = \<lambda>mode. if mode \<in> set supported then Inr ()
            else Inl (PUnsupported ''the selected reasoning mode'')
      in case control of
        InheritReasoning \<Rightarrow> Inr ()
      | DisabledReasoning \<Rightarrow> admit ModeDisabled
      | EffortReasoning _ \<Rightarrow> admit ModeEffort
      | AdaptiveReasoning \<Rightarrow> admit ModeAdaptive
      | TokenBudget tokens \<Rightarrow>
          (if tokens < 1024 then Inl (PConfiguration ''reasoning token budget must be at least 1024'')
           else admit ModeTokenBudget))"

datatype controls_source = FromModelApi | FromValidationProbe | FromAdapterContract | FromProviderDefault

record generation_controls =
  gc_temperature :: parameter_support
  gc_max_temperature :: "fval option"
  gc_reasoning :: "reasoning_mode list"
  gc_efforts :: "reasoning_effort list"
  gc_min_token_budget :: "u32 option"
  gc_max_token_budget :: "u32 option"
  gc_source :: controls_source

definition provider_default_only :: generation_controls where
  "provider_default_only = \<lparr>gc_temperature = NoSupport, gc_max_temperature = None, gc_reasoning = [],
     gc_efforts = [], gc_min_token_budget = None, gc_max_token_budget = None,
     gc_source = FromProviderDefault\<rparr>"

definition controls_allow :: "generation_controls \<Rightarrow> reasoning_control \<Rightarrow> bool" where
  "controls_allow g control = (case control of
     InheritReasoning \<Rightarrow> True
   | DisabledReasoning \<Rightarrow> ModeDisabled \<in> set (gc_reasoning g)
   | AdaptiveReasoning \<Rightarrow> ModeAdaptive \<in> set (gc_reasoning g)
   | EffortReasoning e \<Rightarrow> ModeEffort \<in> set (gc_reasoning g) \<and> (gc_efforts g = [] \<or> e \<in> set (gc_efforts g))
   | TokenBudget tokens \<Rightarrow> ModeTokenBudget \<in> set (gc_reasoning g)
       \<and> is_none_or (gc_min_token_budget g) (\<lambda>m. tokens \<ge> m)
       \<and> is_none_or (gc_max_token_budget g) (\<lambda>m. tokens \<le> m))"

text \<open>The message of a temperature above the model's maximum shows that maximum.\<close>

definition controls_validate ::
  "(fval \<Rightarrow> str) \<Rightarrow> generation_controls \<Rightarrow> temperature \<Rightarrow> reasoning_control \<Rightarrow> provider_error + unit" where
  "controls_validate show_float g t control =
     (case temperature_validate t (gc_temperature g) of
        Inl e \<Rightarrow> Inl e
      | Inr _ \<Rightarrow>
          (case (t, gc_max_temperature g) of
             (TemperatureValue v, Some m) \<Rightarrow>
               if fval_gt v m
               then Inl (PConfiguration (''the selected model accepts temperatures up to '' @ show_float m))
               else if controls_allow g control then Inr ()
               else Inl (PUnsupported ''the selected reasoning setting for this model'')
           | _ \<Rightarrow> if controls_allow g control then Inr ()
               else Inl (PUnsupported ''the selected reasoning setting for this model'')))"

record context_window =
  cw_loaded_tokens :: "u64 option"
  cw_maximum_tokens :: "u64 option"

section \<open>Requests and results\<close>

datatype usage_source = UsageReported | UsageEstimated | UsageUnknown

record provider_usage =
  pu_source :: usage_source
  pu_characters :: "u64 option"
  pu_audio_milliseconds :: "u64 option"
  pu_input_tokens :: "u64 option"
  pu_output_tokens :: "u64 option"
  pu_cached_tokens :: "u64 option"
  pu_reasoning_tokens :: "u64 option"
  pu_credits_micros :: "i64 option"
  pu_raw_redacted :: "json option"
  pu_request_id :: "str option"

definition no_usage :: provider_usage where
  "no_usage = \<lparr>pu_source = UsageUnknown, pu_characters = None, pu_audio_milliseconds = None,
     pu_input_tokens = None, pu_output_tokens = None, pu_cached_tokens = None,
     pu_reasoning_tokens = None, pu_credits_micros = None, pu_raw_redacted = None, pu_request_id = None\<rparr>"

record request_paragraph =
  rp_id :: str
  rp_text :: str
  rp_context_only :: bool

record detection_request =
  dq_request_id :: uuid
  dq_model :: str
  dq_system_prompt :: str
  dq_paragraphs :: "request_paragraph list"
  dq_temperature :: temperature
  dq_reasoning :: reasoning_control
  dq_max_output_tokens :: u32

record detected_character =
  dc_canonical_name :: str
  dc_aliases :: "str list"
  dc_confidence :: fval

record detected_dialogue =
  dd_paragraph_id :: str
  dd_character :: str
  dd_start :: u32
  dd_end :: u32
  dd_confidence :: fval

record detection_result =
  dr_characters :: "detected_character list"
  dr_dialogue :: "detected_dialogue list"
  dr_usage :: provider_usage

text \<open>The length of the last paragraph with an identifier, as a \<open>BTreeMap\<close> collected from the list.\<close>

definition paragraph_length :: "detection_request \<Rightarrow> str \<Rightarrow> usize option" where
  "paragraph_length q i =
     map_option (length \<circ> rp_text) (find (\<lambda>p. rp_id p = i) (rev (dq_paragraphs q)))"

fun check_spans :: "detection_request \<Rightarrow> detected_dialogue list \<Rightarrow> provider_error option" where
  "check_spans q [] = None"
| "check_spans q (d # ds) = (case paragraph_length q (dd_paragraph_id d) of
     None \<Rightarrow> Some (PInvalidResponse (''unknown paragraph id '' @ dd_paragraph_id d))
   | Some n \<Rightarrow>
       if dd_start d \<ge> dd_end d \<or> dd_end d > n \<or> \<not> fval_in_range 0 1 (dd_confidence d)
       then Some (PInvalidResponse ''dialogue span is outside its paragraph'')
       else check_spans q ds)"

definition result_validate :: "detection_result \<Rightarrow> detection_request \<Rightarrow> provider_error + detection_result" where
  "result_validate r q =
     (if \<exists>c \<in> set (dr_characters r). str_is_blank (dc_canonical_name c) \<or> \<not> fval_in_range 0 1 (dc_confidence c)
      then Inl (PInvalidResponse ''invalid detected character'')
      else case check_spans q (dr_dialogue r) of Some e \<Rightarrow> Inl e | None \<Rightarrow> Inr r)"

end
