(* ===== verification/Detection_Batching.thy ===== *)
theory Detection_Batching
  imports Utf8_Text Service_Base Accounting_Domain Detection_Types
begin

text \<open>
  Packing of a book's paragraphs into character-detection requests
  (crates/service/src/workflows/batching.rs): the context budget of a model, the cutting of long
  paragraphs at character boundaries, the packing of fragments into batches with context around
  them, and the halving of a batch that the provider refuses. The rendering of a paragraph's UUID is
  the parameter \<open>id_text\<close>.
\<close>

section \<open>Constants of crates/service/src/workflows/mod.rs\<close>

definition batch_paragraphs :: nat where "batch_paragraphs = 24"
definition context_overlap :: nat where "context_overlap = 2"
definition token_aware_schema :: u32 where "token_aware_schema = 5"
definition prompt_token_reserve :: u64 where "prompt_token_reserve = 1024"
definition min_output_tokens :: u64 where "min_output_tokens = 512"
definition max_output_limit :: u64 where "max_output_limit = 4096"
definition min_paragraph_tokens :: u64 where "min_paragraph_tokens = 256"
definition paragraph_overhead :: u64 where "paragraph_overhead = 128"

lemmas detection_consts = batch_paragraphs_def context_overlap_def token_aware_schema_def
  prompt_token_reserve_def min_output_tokens_def max_output_limit_def min_paragraph_tokens_def
  paragraph_overhead_def

section \<open>Data\<close>

type_synonym paragraph_id = uuid

record source_paragraph =
  sp_id :: paragraph_id
  sp_text :: str
  sp_hash :: str
  sp_chapter_title :: str
  sp_chapter_id :: chapter_id

record detection_fragment =
  df_request_id :: str
  df_source_id :: str
  df_source_byte_start :: usize
  df_text :: str

record detection_batching =
  bp_text_bytes_per_token :: u64
  bp_paragraph_overhead_tokens :: u64
  bp_count_request_id :: bool
  bp_max_paragraphs :: usize

record context_budget =
  cb_context_window :: u64
  cb_paragraph_budget :: u64
  cb_max_output :: u32
  cb_safety_margin :: u64

record batch_paragraph =
  bpp_fragment :: detection_fragment
  bpp_context_only :: bool

record detection_batch =
  bt_paragraphs :: "batch_paragraph list"
  bt_max_output_tokens :: u32

section \<open>Batching parameters\<close>

definition batching_v5 :: detection_batching where
  "batching_v5 = \<lparr>bp_text_bytes_per_token = 1, bp_paragraph_overhead_tokens = paragraph_overhead,
     bp_count_request_id = True, bp_max_paragraphs = batch_paragraphs\<rparr>"

definition batching_current :: detection_batching where
  "batching_current = \<lparr>bp_text_bytes_per_token = 2, bp_paragraph_overhead_tokens = 32,
     bp_count_request_id = False, bp_max_paragraphs = 40\<rparr>"

definition batching_for_schema :: "u32 \<Rightarrow> detection_batching" where
  "batching_for_schema schema_version = (if schema_version \<ge> 6 then batching_current else batching_v5)"

text \<open>\<open>u64::div_ceil\<close>; it panics for a zero divisor, which no parameter set has.\<close>

definition div_ceil :: "nat \<Rightarrow> nat \<Rightarrow> nat" where
  "div_ceil n d = (if n mod d = 0 then n div d else n div d + 1)"

definition fragment_tokens :: "detection_batching \<Rightarrow> detection_fragment \<Rightarrow> u64" where
  "fragment_tokens p f =
     u64_saturating_add
       (u64_saturating_add (div_ceil (u64_or_max (length (df_text f))) (bp_text_bytes_per_token p))
          (if bp_count_request_id p then u64_or_max (length (df_request_id f)) else 0))
       (bp_paragraph_overhead_tokens p)"

section \<open>The budget of a context window\<close>

definition conflict :: "str \<Rightarrow> service_error" where
  "conflict message = ResourceConflict (Plain message)"

definition window_too_small :: service_error where
  "window_too_small =
     conflict ''the configured model context window is too small for character detection''"

definition clamp :: "nat \<Rightarrow> nat \<Rightarrow> nat \<Rightarrow> nat" where
  "clamp lo hi n = (if n < lo then lo else if n > hi then hi else n)"

definition context_budget_new :: "u64 \<Rightarrow> service_error + context_budget" where
  "context_budget_new window =
     (let safety = clamp 128 1024 (window div 16);
          fixed = u64_saturating_add prompt_token_reserve safety
      in if window < fixed then Inl window_too_small
      else let available = window - fixed
      in if available < u64_saturating_add min_output_tokens min_paragraph_tokens
         then Inl window_too_small
      else let desired = clamp min_output_tokens max_output_limit (window div 4);
               output = min desired (available - min_paragraph_tokens)
      in if u32_max < output
         then Inl (conflict ''the configured model output limit is too large'')
         else Inr \<lparr>cb_context_window = window, cb_paragraph_budget = available - output,
                cb_max_output = output, cb_safety_margin = safety\<rparr>)"

section \<open>Cutting a text\<close>

text \<open>\<open>while hard_end > start && !text.is_char_boundary(hard_end) { hard_end -= 1 }\<close>\<close>

fun boundary_before :: "str \<Rightarrow> usize \<Rightarrow> usize \<Rightarrow> usize" where
  "boundary_before text start 0 = 0"
| "boundary_before text start (Suc n) =
     (if Suc n > start \<and> \<not> is_char_boundary text (Suc n) then boundary_before text start n else Suc n)"

text \<open>
  The last white-space character of \<open>text[start..hard_end]\<close> that does not start before
  \<open>minimum\<close>; the end of its encoding. White space is recognised at the byte that starts it, which is
  always a character boundary.
\<close>

definition last_space_end :: "str \<Rightarrow> usize \<Rightarrow> usize \<Rightarrow> usize \<Rightarrow> usize option" where
  "last_space_end text start hard_end minimum =
     (let s = str_slice text start hard_end in
      map_option (\<lambda>offset. start + offset + ws_len (drop offset s))
        (find (\<lambda>offset. ws_len (drop offset s) \<noteq> 0 \<and> offset \<ge> minimum) (rev [0..<length s])))"

definition preferred_fragment_end :: "str \<Rightarrow> usize \<Rightarrow> usize \<Rightarrow> usize" where
  "preferred_fragment_end text start max_bytes =
     (if start \<ge> length text then length text
      else
        let hard_end = boundary_before text start (min (u64_saturating_add start max_bytes) (length text))
        in if hard_end = length text \<or> hard_end = start then hard_end
           else case last_space_end text start hard_end (max_bytes div 2) of
             Some e \<Rightarrow> e | None \<Rightarrow> hard_end)"

text \<open>The identifier of the paragraph, an at sign and the start.\<close>

definition fragment_id :: "str \<Rightarrow> usize \<Rightarrow> str" where
  "fragment_id source_id start = source_id @ ''@'' @ nat_text start"


definition whole_fragment :: "(paragraph_id \<Rightarrow> str) \<Rightarrow> source_paragraph \<Rightarrow> detection_fragment" where
  "whole_fragment id_text p = \<lparr>df_request_id = id_text (sp_id p), df_source_id = id_text (sp_id p),
     df_source_byte_start = 0, df_text = sp_text p\<rparr>"

definition part_of_paragraph :: "(paragraph_id \<Rightarrow> str) \<Rightarrow> source_paragraph \<Rightarrow> usize \<Rightarrow> usize \<Rightarrow> detection_fragment" where
  "part_of_paragraph id_text p start end_at =
     \<lparr>df_request_id = fragment_id (id_text (sp_id p)) start, df_source_id = id_text (sp_id p),
      df_source_byte_start = start, df_text = str_slice (sp_text p) start end_at\<rparr>"

text \<open>The loop of \<open>fragment_source_paragraph\<close>.\<close>

function cut_paragraph ::
  "(paragraph_id \<Rightarrow> str) \<Rightarrow> source_paragraph \<Rightarrow> u64 \<Rightarrow> detection_batching \<Rightarrow> usize \<Rightarrow> usize \<Rightarrow>
     service_error + detection_fragment list" where
  "cut_paragraph id_text p paragraph_tokens batching max_text_bytes start =
     (if start < length (sp_text p) then
        if preferred_fragment_end (sp_text p) start max_text_bytes \<le> start
        then Inl (conflict ''a paragraph could not be split at a UTF-8 boundary'')
        else if fragment_tokens batching (part_of_paragraph id_text p start
               (preferred_fragment_end (sp_text p) start max_text_bytes)) > paragraph_tokens
        then Inl (conflict ''a paragraph fragment exceeds the configured context window'')
        else map_sum id
           (\<lambda>rest. part_of_paragraph id_text p start
              (preferred_fragment_end (sp_text p) start max_text_bytes) # rest)
           (cut_paragraph id_text p paragraph_tokens batching max_text_bytes
              (preferred_fragment_end (sp_text p) start max_text_bytes))
      else Inr [])"
  by pat_completeness auto
termination
  by (relation "measure (\<lambda>(_, p, _, _, _, start). length (sp_text p) - start)") auto

declare cut_paragraph.simps [simp del]

definition fragment_source_paragraph ::
  "(paragraph_id \<Rightarrow> str) \<Rightarrow> source_paragraph \<Rightarrow> u64 \<Rightarrow> detection_batching \<Rightarrow>
     service_error + detection_fragment list" where
  "fragment_source_paragraph id_text p paragraph_tokens batching =
     (if fragment_tokens batching (whole_fragment id_text p) \<le> paragraph_tokens
      then Inr [whole_fragment id_text p]
      else
        let fixed = u64_saturating_add
              (u64_saturating_add paragraph_overhead (u64_or_max (length (id_text (sp_id p))))) 21
        in if paragraph_tokens < fixed
             \<or> u64_saturating_mul (paragraph_tokens - fixed) (bp_text_bytes_per_token batching) = 0
           then Inl (conflict ''the configured context window cannot hold a paragraph fragment'')
           else cut_paragraph id_text p paragraph_tokens batching
             (u64_saturating_mul (paragraph_tokens - fixed) (bp_text_bytes_per_token batching)) 0)"

section \<open>Packing\<close>

fun fragment_all ::
  "(paragraph_id \<Rightarrow> str) \<Rightarrow> u64 \<Rightarrow> detection_batching \<Rightarrow> source_paragraph list \<Rightarrow>
     service_error + detection_fragment list" where
  "fragment_all id_text tokens batching [] = Inr []"
| "fragment_all id_text tokens batching (p # ps) =
     (case fragment_source_paragraph id_text p tokens batching of
        Inl e \<Rightarrow> Inl e
      | Inr fs \<Rightarrow> map_sum id ((@) fs) (fragment_all id_text tokens batching ps))"

text \<open>The inner loop: one more fragment at a time while the count and the tokens allow it.\<close>

function pack_batch ::
  "detection_batching \<Rightarrow> u64 \<Rightarrow> detection_fragment list \<Rightarrow> usize \<Rightarrow> usize \<Rightarrow> u64 \<Rightarrow>
     service_error + usize \<times> u64" where
  "pack_batch batching budget fragments start end_at tokens =
     (if end_at < length fragments \<and> end_at - start < bp_max_paragraphs batching then
        if end_at > start
           \<and> u64_saturating_add tokens (fragment_tokens batching (fragments ! end_at)) > budget
        then Inr (end_at, tokens)
        else if fragment_tokens batching (fragments ! end_at) > budget
        then Inl (conflict ''a paragraph fragment exceeds the character-detection token budget'')
        else pack_batch batching budget fragments start (end_at + 1)
               (u64_saturating_add tokens (fragment_tokens batching (fragments ! end_at)))
      else Inr (end_at, tokens))"
  by pat_completeness auto
termination
  by (relation "measure (\<lambda>(_, _, fragments, _, end_at, _). length fragments - end_at)") auto

declare pack_batch.simps [simp del]

lemma pack_batch_end_ge: "pack_batch b u fs start e t = Inr (e', t') \<Longrightarrow> e \<le> e'"
proof (induction b u fs start e t rule: pack_batch.induct)
  case (1 b u fs start e t)
  from "1.prems" "1.IH" show ?case
    by (subst (asm) pack_batch.simps) (auto split: if_splits)
qed

function pack_ranges ::
  "detection_batching \<Rightarrow> u64 \<Rightarrow> detection_fragment list \<Rightarrow> usize \<Rightarrow>
     service_error + (usize \<times> usize \<times> u64) list" where
  "pack_ranges batching budget fragments start =
     (if start < length fragments then
        case pack_batch batching budget fragments start start 0 of
          Inl e \<Rightarrow> Inl e
        | Inr (end_at, tokens) \<Rightarrow>
            if end_at = start
            then Inl (conflict ''the character-detection token budget produced an empty batch'')
            else map_sum id (\<lambda>rest. (start, end_at, tokens) # rest)
                   (pack_ranges batching budget fragments end_at)
      else Inr [])"
  by pat_completeness auto
termination
  by (relation "measure (\<lambda>(_, _, fragments, start). length fragments - start)")
     (auto dest!: pack_batch_end_ge)

declare pack_ranges.simps [simp del]

text \<open>Up to two fragments before and behind the batch go along as context, nearest first, as long as
  the tokens suffice; the batch lists all its fragments in their order.\<close>

definition context_indexes :: "usize \<Rightarrow> usize \<Rightarrow> usize \<Rightarrow> usize list" where
  "context_indexes count start end_at =
     rev [start - context_overlap ..< start] @ [end_at ..< min (end_at + context_overlap) count]"

fun add_context ::
  "detection_batching \<Rightarrow> u64 \<Rightarrow> detection_fragment list \<Rightarrow> usize list \<Rightarrow> u64 \<Rightarrow> (usize \<times> bool) list \<Rightarrow>
     (usize \<times> bool) list" where
  "add_context batching budget fragments [] tokens indexes = indexes"
| "add_context batching budget fragments (i # is) tokens indexes =
     (let total = u64_saturating_add tokens (fragment_tokens batching (fragments ! i)) in
      if total \<le> budget
      then add_context batching budget fragments is total (btree_insert i True indexes)
      else add_context batching budget fragments is tokens indexes)"

definition batch_of_range ::
  "detection_batching \<Rightarrow> context_budget \<Rightarrow> detection_fragment list \<Rightarrow> usize \<times> usize \<times> u64 \<Rightarrow> detection_batch" where
  "batch_of_range batching budget fragments r = (case r of (start, end_at, tokens) \<Rightarrow>
     \<lparr>bt_paragraphs = map (\<lambda>(i, context_only).
          \<lparr>bpp_fragment = fragments ! i, bpp_context_only = context_only\<rparr>)
        (add_context batching (cb_paragraph_budget budget) fragments
           (context_indexes (length fragments) start end_at) tokens
           (map (\<lambda>i. (i, False)) [start ..< end_at])),
      bt_max_output_tokens = cb_max_output budget\<rparr>)"

definition paragraph_batches ::
  "(paragraph_id \<Rightarrow> str) \<Rightarrow> source_paragraph list \<Rightarrow> context_budget \<Rightarrow> detection_batching \<Rightarrow>
     service_error + detection_batch list" where
  "paragraph_batches id_text paragraphs budget batching =
     (case fragment_all id_text (cb_paragraph_budget budget) batching paragraphs of
        Inl e \<Rightarrow> Inl e
      | Inr fragments \<Rightarrow> map_sum id (map (batch_of_range batching budget fragments))
          (pack_ranges batching (cb_paragraph_budget budget) fragments 0))"

text \<open>Jobs of old schema versions are packed by count, whole paragraphs only.\<close>

definition legacy_batch :: "(paragraph_id \<Rightarrow> str) \<Rightarrow> source_paragraph list \<Rightarrow> usize \<Rightarrow> detection_batch" where
  "legacy_batch id_text paragraphs start =
     (let end_at = min (start + batch_paragraphs) (length paragraphs);
          context_start = start - context_overlap;
          context_end = min (end_at + context_overlap) (length paragraphs)
      in \<lparr>bt_paragraphs = map (\<lambda>absolute.
             \<lparr>bpp_fragment = whole_fragment id_text (paragraphs ! absolute),
              bpp_context_only = (absolute < start \<or> absolute \<ge> end_at)\<rparr>)
           [context_start ..< context_end],
         bt_max_output_tokens = 4096\<rparr>)"

definition legacy_paragraph_batches ::
  "(paragraph_id \<Rightarrow> str) \<Rightarrow> source_paragraph list \<Rightarrow> detection_batch list" where
  "legacy_paragraph_batches id_text paragraphs =
     map (legacy_batch id_text paragraphs) (filter (\<lambda>i. i mod batch_paragraphs = 0) [0 ..< length paragraphs])"

section \<open>Durable jobs\<close>

record detection_config =
  cfg_schema_version :: u32
  cfg_provider_profile_id :: uuid
  cfg_model :: str
  cfg_provider_endpoint :: "str option"
  cfg_provider_mode :: "provider_mode option"
  cfg_provider_snapshot_id :: "uuid option"
  cfg_temperature :: temperature
  cfg_reasoning :: reasoning_control
  cfg_context_window_tokens :: "u64 option"
  cfg_max_output_tokens :: "u32 option"
  cfg_detection_run_id :: uuid
  cfg_base_character_revision :: u64

definition detection_batches_for_config ::
  "(paragraph_id \<Rightarrow> str) \<Rightarrow> source_paragraph list \<Rightarrow> detection_config \<Rightarrow> service_error + detection_batch list" where
  "detection_batches_for_config id_text paragraphs config =
     (if cfg_schema_version config < token_aware_schema
      then Inr (legacy_paragraph_batches id_text paragraphs)
      else case cfg_context_window_tokens config of
        None \<Rightarrow> Inl (conflict ''the durable detection job is missing its context-window budget'')
      | Some window \<Rightarrow>
          (case context_budget_new window of
             Inl e \<Rightarrow> Inl e
           | Inr budget \<Rightarrow>
               if cfg_max_output_tokens config \<noteq> Some (cb_max_output budget)
               then Inl (conflict ''the durable detection job has an inconsistent output-token budget'')
               else paragraph_batches id_text paragraphs budget
                      (batching_for_schema (cfg_schema_version config))))"

section \<open>Splitting a refused batch\<close>

definition request_paragraphs :: "detection_batch \<Rightarrow> request_paragraph list" where
  "request_paragraphs b = map (\<lambda>p. \<lparr>rp_id = df_request_id (bpp_fragment p),
     rp_text = df_text (bpp_fragment p), rp_context_only = bpp_context_only p\<rparr>) (bt_paragraphs b)"

definition core_paragraphs :: "detection_batch \<Rightarrow> detection_fragment list" where
  "core_paragraphs b = map bpp_fragment (filter (\<lambda>p. \<not> bpp_context_only p) (bt_paragraphs b))"

definition fragment_slice :: "detection_fragment \<Rightarrow> usize \<Rightarrow> usize \<Rightarrow> detection_fragment" where
  "fragment_slice f start end_at =
     (let source_byte_start = u64_saturating_add (df_source_byte_start f) start in
      \<lparr>df_request_id = fragment_id (df_source_id f) source_byte_start, df_source_id = df_source_id f,
       df_source_byte_start = source_byte_start, df_text = str_slice (df_text f) start end_at\<rparr>)"

definition core_batch :: "u32 \<Rightarrow> detection_fragment list \<Rightarrow> detection_batch" where
  "core_batch max_output fs = \<lparr>bt_paragraphs =
     map (\<lambda>f. \<lparr>bpp_fragment = f, bpp_context_only = False\<rparr>) fs, bt_max_output_tokens = max_output\<rparr>"

definition split_core :: "detection_batch \<Rightarrow> u32 \<Rightarrow> service_error + detection_batch list option" where
  "split_core b max_output =
     (let core = core_paragraphs b in
      if length core > 1 then
        let middle = div_ceil (length core) 2 in
        Inr (Some (map (core_batch max_output)
          (filter (\<lambda>fs. fs \<noteq> []) [take middle core, drop middle core])))
      else case core of
        [] \<Rightarrow> Inl (conflict ''character-detection adaptive batching has no source text'')
      | f # _ \<Rightarrow>
          let e = preferred_fragment_end (df_text f) 0 (length (df_text f) div 2) in
          if char_count (df_text f) > 1 \<and> e > 0 \<and> e < length (df_text f)
          then Inr (Some (map (\<lambda>g. core_batch max_output [g])
            [fragment_slice f 0 e, fragment_slice f e (length (df_text f))]))
          else Inr None)"

definition split_for_context_retry :: "detection_batch \<Rightarrow> service_error + detection_batch list" where
  "split_for_context_retry b =
     (let fallback_output = (if bt_max_output_tokens b > 256
            then max (bt_max_output_tokens b div 2) 256 else bt_max_output_tokens b)
      in case split_core b fallback_output of
        Inl e \<Rightarrow> Inl e
      | Inr (Some children) \<Rightarrow> Inr children
      | Inr None \<Rightarrow>
          if bt_max_output_tokens b > 256
          then Inr [\<lparr>bt_paragraphs = bt_paragraphs b, bt_max_output_tokens = fallback_output\<rparr>]
          else Inl (conflict ''the provider context window remains too small after adaptive batching''))"

definition split_for_output_retry :: "detection_batch \<Rightarrow> service_error + detection_batch list" where
  "split_for_output_retry b = (case split_core b (bt_max_output_tokens b) of
     Inl e \<Rightarrow> Inl e
   | Inr (Some children) \<Rightarrow> Inr children
   | Inr None \<Rightarrow> Inl (conflict ''the provider output remains incomplete after adaptive batching''))"

section \<open>Estimating a request\<close>

definition estimate_fragment_tokens :: "detection_fragment \<Rightarrow> u64" where
  "estimate_fragment_tokens f =
     u64_saturating_add (u64_saturating_add (u64_or_max (length (df_text f)))
       (u64_or_max (length (df_request_id f)))) paragraph_overhead"

definition reasoning_token_estimate :: "reasoning_control \<Rightarrow> u64" where
  "reasoning_token_estimate control = (case control of
     DisabledReasoning \<Rightarrow> 0
   | TokenBudget tokens \<Rightarrow> tokens
   | EffortReasoning e \<Rightarrow>
       (if effort_text e = ''none'' then 0
        else if effort_text e = ''minimal'' then 2048
        else if effort_text e = ''low'' then 4096
        else if effort_text e = ''medium'' then 8192
        else if effort_text e = ''high'' then 16384
        else if effort_text e = ''xhigh'' then 32768
        else 65536)
   | InheritReasoning \<Rightarrow> 16384
   | AdaptiveReasoning \<Rightarrow> 16384)"

definition detection_request_estimate :: "detection_batch \<Rightarrow> reasoning_control \<Rightarrow> usage_quantities" where
  "detection_request_estimate b control =
     no_quantities\<lparr>
       uq_characters := Some (fold (\<lambda>p total. u64_saturating_add total
          (u64_or_max (char_count (df_text (bpp_fragment p))))) (bt_paragraphs b) 0),
       uq_input_tokens := Some (fold (\<lambda>p total. u64_saturating_add total
          (estimate_fragment_tokens (bpp_fragment p))) (bt_paragraphs b) prompt_token_reserve),
       uq_output_tokens := Some (bt_max_output_tokens b),
       uq_reasoning_tokens := Some (reasoning_token_estimate control)\<rparr>"

end
