(* ===== verification/Detection_Batching_Correctness.thy ===== *)
theory Detection_Batching_Correctness
  imports Detection_Batching
begin

text \<open>
  Lemmas about the packing of detection requests: cutting points are character boundaries that make
  progress, the fragments of a paragraph are its text, the ranges of a packing tile the fragments,
  and no batch exceeds the token budget.
\<close>

section \<open>Numbers\<close>

lemma length_nat_text: "0 < k \<Longrightarrow> n < 10 ^ k \<Longrightarrow> length (nat_text n) \<le> k"
proof (induction k arbitrary: n)
  case (Suc k)
  show ?case
  proof (cases "n < 10")
    case True
    then show ?thesis by (subst nat_text.simps) simp
  next
    case False
    with Suc.prems have "0 < k" by (cases k) auto
    moreover have "n div 10 < 10 ^ k" using Suc.prems(2) by (simp add: div_less_iff_less_mult)
    ultimately have "length (nat_text (n div 10)) \<le> k" by (rule Suc.IH)
    with False show ?thesis by (subst nat_text.simps) simp
  qed
qed simp

lemma length_nat_text_u64: "n \<le> u64_max \<Longrightarrow> length (nat_text n) \<le> 20"
  by (rule length_nat_text) (simp_all add: u64_max_def)

lemma nat_text_inj: "nat_text m = nat_text n \<Longrightarrow> m = n"
proof (induction m arbitrary: n rule: nat_text.induct)
  case (1 m)
  have digit: "char_of (48 + i) = char_of (48 + j) \<longleftrightarrow> i = j" if "i < 10" "j < 10" for i j :: nat
  proof -
    have "(of_char (char_of (48 + i)) :: nat) = 48 + i" "(of_char (char_of (48 + j)) :: nat) = 48 + j"
      using that by (simp_all add: of_char_of)
    then show ?thesis by (metis add_left_cancel)
  qed
  have nonempty: "nat_text k \<noteq> []" for k by (subst nat_text.simps) simp
  show ?case
  proof (cases "m < 10"; cases "n < 10")
    assume "m < 10" "n < 10"
    with "1.prems" digit show ?thesis by (simp add: nat_text.simps [of m] nat_text.simps [of n])
  next
    assume "m < 10" "\<not> n < 10"
    with "1.prems" nonempty [of "n div 10"] show ?thesis
      by (auto simp: nat_text.simps [of m] nat_text.simps [of n])
  next
    assume "\<not> m < 10" "n < 10"
    with "1.prems" nonempty [of "m div 10"] show ?thesis
      by (auto simp: nat_text.simps [of m] nat_text.simps [of n] append_eq_Cons_conv)
  next
    assume big: "\<not> m < 10" "\<not> n < 10"
    with "1.prems" have "nat_text (m div 10) = nat_text (n div 10)"
      and "char_of (48 + m mod 10) = char_of (48 + n mod 10)"
      by (simp_all add: nat_text.simps [of m] nat_text.simps [of n])
    with "1.IH" [OF big(1)] digit have "m div 10 = n div 10" "m mod 10 = n mod 10" by auto
    then show ?thesis by (metis div_mult_mod_eq)
  qed
qed

section \<open>Cutting points\<close>

lemma boundary_before_props:
  assumes "is_char_boundary text start" and "start \<le> n"
  shows "start \<le> boundary_before text start n" and "boundary_before text start n \<le> n"
    and "is_char_boundary text (boundary_before text start n)"
    and "is_char_boundary text q \<Longrightarrow> q \<le> n \<Longrightarrow> q \<le> boundary_before text start n"
proof -
  have "start \<le> boundary_before text start n \<and> boundary_before text start n \<le> n
     \<and> is_char_boundary text (boundary_before text start n)
     \<and> (is_char_boundary text q \<longrightarrow> q \<le> n \<longrightarrow> q \<le> boundary_before text start n)"
    using assms
  proof (induction n)
    case (Suc n)
    show ?case
    proof (cases "Suc n > start \<and> \<not> is_char_boundary text (Suc n)")
      case True
      with Suc show ?thesis by (auto simp: le_Suc_eq)
    next
      case False
      with Suc.prems have "start = Suc n \<or> is_char_boundary text (Suc n)" by auto
      with False Suc.prems show ?thesis by auto
    qed
  qed simp
  then show "start \<le> boundary_before text start n" and "boundary_before text start n \<le> n"
    and "is_char_boundary text (boundary_before text start n)"
    and "is_char_boundary text q \<Longrightarrow> q \<le> n \<Longrightarrow> q \<le> boundary_before text start n"
    by blast+
qed

lemma last_space_end_props:
  assumes "last_space_end text start hard_end minimum = Some e" and "utf8 text"
    and "is_char_boundary text start" and "is_char_boundary text hard_end" and "start \<le> hard_end"
  shows "start < e" and "e \<le> hard_end" and "is_char_boundary text e"
proof -
  let ?s = "str_slice text start hard_end"
  have h: "hard_end \<le> length text" using assms(4) by (rule is_char_boundary_le)
  from assms(1) obtain offset where
    f: "find (\<lambda>offset. ws_len (drop offset ?s) \<noteq> 0 \<and> offset \<ge> minimum) (rev [0..<length ?s]) = Some offset"
    and e: "e = start + offset + ws_len (drop offset ?s)"
    by (auto simp: last_space_end_def Let_def)
  from f have w: "ws_len (drop offset ?s) \<noteq> 0" by (auto simp: find_Some_iff)
  note b = ws_end_boundary [OF utf8_slice [OF assms(2-5)] w]
  have len: "length ?s = hard_end - start" using assms(5) h by (rule length_str_slice)
  from b(3) len show "e \<le> hard_end" using e assms(5) by simp
  show "start < e" using e w by simp
  have "is_char_boundary text (start + (offset + ws_len (drop offset ?s)))"
    using is_char_boundary_slice [OF assms(3-5)] b(2,3) len by simp
  then show "is_char_boundary text e" using e by (simp add: add.assoc)
qed

lemma preferred_fragment_end_props:
  assumes "utf8 text" and "is_char_boundary text start" and "length text \<le> u64_max"
  shows "preferred_fragment_end text start max_bytes \<le> length text"
    and "is_char_boundary text (preferred_fragment_end text start max_bytes)"
    and "start \<le> preferred_fragment_end text start max_bytes"
    and "preferred_fragment_end text start max_bytes \<le> max (start + max_bytes) start"
    and "start < length text \<Longrightarrow> 4 \<le> max_bytes \<Longrightarrow> start < preferred_fragment_end text start max_bytes"
proof -
  let ?n = "min (u64_saturating_add start max_bytes) (length text)"
  let ?h = "boundary_before text start ?n" and ?p = "preferred_fragment_end text start max_bytes"
  have le: "start \<le> length text" using assms(2) by (rule is_char_boundary_le)
  have n: "?n = min (start + max_bytes) (length text)" using assms(3) by (simp add: u64_saturating_add_def)
  with le have sn: "start \<le> ?n" by simp
  note bb = boundary_before_props [OF assms(2) sn]
  have cases: "(?p = ?h \<or> (start < ?p \<and> ?p \<le> ?h \<and> is_char_boundary text ?p))
      \<or> (start = length text \<and> ?p = start)"
  proof (cases "start \<ge> length text \<or> ?h = length text \<or> ?h = start")
    case True
    with le bb(1,2) show ?thesis by (auto simp: preferred_fragment_end_def Let_def)
  next
    case False
    show ?thesis
    proof (cases "last_space_end text start ?h (max_bytes div 2)")
      case None
      with False show ?thesis by (simp add: preferred_fragment_end_def Let_def)
    next
      case (Some e)
      with last_space_end_props [OF Some assms(1,2) bb(3) bb(1)] False show ?thesis
        by (simp add: preferred_fragment_end_def Let_def)
    qed
  qed
  with bb le n show "?p \<le> length text" "is_char_boundary text ?p" "start \<le> ?p"
    "?p \<le> max (start + max_bytes) start"
    by (auto simp: min_def split: if_splits)
  show "start < ?p" if lt: "start < length text" and four: "4 \<le> max_bytes"
  proof -
    have "start < ?h"
    proof (cases "start + 4 \<le> length text")
      case True
      with n four have "start + 4 \<le> ?n" by simp
      from boundary_near [OF assms(1) True] obtain q where "q \<le> start + 4" "start + 4 < q + 4"
        "is_char_boundary text q" by blast
      with bb(4) [of q] \<open>start + 4 \<le> ?n\<close> show ?thesis by simp
    next
      case False
      with n four have "?n = length text" by simp
      with bb(4) [of "length text"] lt show ?thesis by simp
    qed
    with cases lt show ?thesis by auto
  qed
qed

section \<open>Fragments of a paragraph\<close>

lemma clamp_bounds: "lo \<le> hi \<Longrightarrow> lo \<le> clamp lo hi n \<and> clamp lo hi n \<le> hi"
  by (simp add: clamp_def)

lemma context_budget_new_props:
  assumes "context_budget_new window = Inr budget" and "window \<le> u64_max"
  shows "cb_context_window budget = window" and "256 \<le> cb_paragraph_budget budget"
    and "prompt_token_reserve + cb_paragraph_budget budget + cb_max_output budget + cb_safety_margin budget = window"
    and "512 \<le> cb_max_output budget" and "cb_max_output budget \<le> 4096"
    and "128 \<le> cb_safety_margin budget" and "cb_paragraph_budget budget < u64_max"
proof -
  define safety where "safety = clamp 128 1024 (window div 16)"
  define desired where "desired = clamp 512 4096 (window div 4)"
  have s: "128 \<le> safety" "safety \<le> 1024" and d: "512 \<le> desired" "desired \<le> 4096"
    using clamp_bounds [of 128 1024 "window div 16"] clamp_bounds [of 512 4096 "window div 4"]
    by (simp_all add: safety_def desired_def)
  have fixed: "u64_saturating_add 1024 safety = 1024 + safety"
    and least: "u64_saturating_add 512 256 = 768"
    using s(2) by (simp_all add: u64_saturating_add_def u64_max_def)
  define available where "available = window - (1024 + safety)"
  from assms(1) have w: "1024 + safety \<le> window" "768 \<le> available"
    and b: "budget = \<lparr>cb_context_window = window,
        cb_paragraph_budget = available - min desired (available - 256),
        cb_max_output = min desired (available - 256), cb_safety_margin = safety\<rparr>"
    by (simp_all add: context_budget_new_def Let_def detection_consts fixed least available_def
        flip: safety_def desired_def split: if_splits)
  have m: "512 \<le> min desired (available - 256)" "min desired (available - 256) \<le> 4096"
    "min desired (available - 256) + 256 \<le> available"
    using w(2) d by auto
  from b m w s show "cb_context_window budget = window" "256 \<le> cb_paragraph_budget budget"
    "512 \<le> cb_max_output budget" "cb_max_output budget \<le> 4096" "128 \<le> cb_safety_margin budget"
    by auto
  show "prompt_token_reserve + cb_paragraph_budget budget + cb_max_output budget + cb_safety_margin budget = window"
    using b m w by (simp add: prompt_token_reserve_def available_def)
  have "available - min desired (available - 256) < window" using w(1) by (simp add: available_def)
  with b assms(2) show "cb_paragraph_budget budget < u64_max" by simp
qed

text \<open>What the fragments of a paragraph have in common.\<close>

definition part_of :: "(paragraph_id \<Rightarrow> str) \<Rightarrow> source_paragraph \<Rightarrow> detection_fragment \<Rightarrow> bool" where
  "part_of id_text p f \<longleftrightarrow> df_source_id f = id_text (sp_id p)
     \<and> df_source_byte_start f + length (df_text f) \<le> length (sp_text p)
     \<and> df_text f = str_slice (sp_text p) (df_source_byte_start f) (df_source_byte_start f + length (df_text f))
     \<and> utf8 (df_text f)"

text \<open>Consecutive fragments from a byte position on.\<close>

fun pieces_from :: "(paragraph_id \<Rightarrow> str) \<Rightarrow> source_paragraph \<Rightarrow> usize \<Rightarrow> detection_fragment list \<Rightarrow> bool" where
  "pieces_from id_text p start [] = (start = length (sp_text p))"
| "pieces_from id_text p start (f # fs) = (df_source_byte_start f = start \<and> df_text f \<noteq> []
     \<and> df_request_id f = fragment_id (id_text (sp_id p)) start \<and> part_of id_text p f
     \<and> pieces_from id_text p (start + length (df_text f)) fs)"

lemma pieces_from_concat:
  "pieces_from id_text p start fs \<Longrightarrow> start \<le> length (sp_text p)
     \<and> concat (map df_text fs) = drop start (sp_text p)"
proof (induction fs arbitrary: start)
  case (Cons f fs)
  then have "df_text f = str_slice (sp_text p) start (start + length (df_text f))"
    and "concat (map df_text fs) = drop (start + length (df_text f)) (sp_text p)"
    and "start + length (df_text f) \<le> length (sp_text p)"
    by (auto simp: part_of_def)
  then show ?case
    using append_take_drop_id [of "length (df_text f)" "drop start (sp_text p)"]
    by (simp add: str_slice_def add.commute)
qed simp

lemma pieces_from_ids:
  "pieces_from id_text p start fs \<Longrightarrow> distinct (map df_request_id fs)
     \<and> (\<forall>f \<in> set fs. \<exists>i \<ge> start. df_request_id f = fragment_id (id_text (sp_id p)) i)"
proof (induction fs arbitrary: start)
  case (Cons f fs)
  then have f: "df_request_id f = fragment_id (id_text (sp_id p)) start" and "0 < length (df_text f)"
    and ih: "distinct (map df_request_id fs)"
      "\<forall>g \<in> set fs. \<exists>i \<ge> start + length (df_text f). df_request_id g = fragment_id (id_text (sp_id p)) i"
    by auto
  have "df_request_id g \<noteq> df_request_id f" if "g \<in> set fs" for g
    using ih(2) that f \<open>0 < length (df_text f)\<close> by (auto simp: fragment_id_def dest!: nat_text_inj bspec)
  then have "df_request_id f \<notin> df_request_id ` set fs" by (metis imageE)
  with ih(1) have "distinct (map df_request_id (f # fs))" by simp
  moreover have "\<exists>i \<ge> start. df_request_id g = fragment_id (id_text (sp_id p)) i" if g: "g \<in> set (f # fs)" for g
  proof (cases "g = f")
    case True
    with f show ?thesis by blast
  next
    case False
    with g ih(2) obtain i where "i \<ge> start + length (df_text f)"
      "df_request_id g = fragment_id (id_text (sp_id p)) i" by auto
    then show ?thesis by (intro exI [of _ i]) simp
  qed
  ultimately show ?case by blast
qed simp

lemma pieces_from_part: "pieces_from id_text p start fs \<Longrightarrow> f \<in> set fs \<Longrightarrow> part_of id_text p f"
  by (induction fs arbitrary: start) auto

definition known_batching :: "detection_batching \<Rightarrow> bool" where
  "known_batching b \<longleftrightarrow> b = batching_v5 \<or> b = batching_current"

lemma known_batching_for_schema [simp]: "known_batching (batching_for_schema v)"
  by (simp add: known_batching_def batching_for_schema_def)

lemma u64_or_max_le: "u64_or_max n \<le> n"
  by (simp add: u64_or_max_def u64_max_def)

lemma div_ceil_le: "n \<le> m * d \<Longrightarrow> 0 < d \<Longrightarrow> div_ceil n d \<le> m"
proof -
  assume n: "n \<le> m * d" and d: "0 < d"
  show "div_ceil n d \<le> m"
  proof (cases "n mod d = 0")
    case True
    with div_le_mono [OF n, of d] d show ?thesis by (simp add: div_ceil_def)
  next
    case False
    have "n div d < m"
    proof (rule ccontr)
      assume "\<not> n div d < m"
      then have "m * d \<le> n div d * d" by simp
      with n have "n = n div d * d" using div_times_less_eq_dividend [of n d] by linarith
      with False show False by (metis mod_mult_self2_is_0)
    qed
    with False show ?thesis by (simp add: div_ceil_def)
  qed
qed

text \<open>A piece of at most the computed number of bytes fits the token budget.\<close>

lemma piece_fits:
  assumes "known_batching b" and "length (df_request_id f) \<le> i + 21" and "i + 149 \<le> budget"
    and "length (df_text f) \<le> (budget - (i + 149)) * bp_text_bytes_per_token b"
  shows "fragment_tokens b f \<le> budget"
proof -
  let ?t = "div_ceil (u64_or_max (length (df_text f))) (bp_text_bytes_per_token b)"
  have "0 < bp_text_bytes_per_token b"
    using assms(1) by (auto simp: known_batching_def batching_v5_def batching_current_def)
  moreover have "u64_or_max (length (df_text f)) \<le> (budget - (i + 149)) * bp_text_bytes_per_token b"
    using assms(4) u64_or_max_le [of "length (df_text f)"] by linarith
  ultimately have t: "?t \<le> budget - (i + 149)" by (intro div_ceil_le)
  moreover have "fragment_tokens b f \<le> ?t + (i + 21) + 128"
    using assms(1,2) u64_or_max_le [of "length (df_request_id f)"]
    by (auto simp: fragment_tokens_def known_batching_def batching_v5_def batching_current_def
        paragraph_overhead_def u64_saturating_add_def)
  ultimately show ?thesis using assms(3) by linarith
qed

lemma cut_paragraph_pieces:
  assumes "known_batching b" and "utf8 (sp_text p)" and "length (sp_text p) \<le> u64_max"
    and "is_char_boundary (sp_text p) start"
    and "length (id_text (sp_id p)) + 149 \<le> budget" and "4 \<le> n"
    and "n \<le> (budget - (length (id_text (sp_id p)) + 149)) * bp_text_bytes_per_token b"
  shows "\<exists>fs. cut_paragraph id_text p budget b n start = Inr fs \<and> pieces_from id_text p start fs
     \<and> (\<forall>f \<in> set fs. fragment_tokens b f \<le> budget)"
  using assms
proof (induction id_text p budget b n start rule: cut_paragraph.induct)
  case (1 id_text p budget b n start)
  let ?e = "preferred_fragment_end (sp_text p) start n"
  let ?f = "part_of_paragraph id_text p start ?e"
  note e = preferred_fragment_end_props [OF "1.prems"(2,4,3), of n]
  show ?case
  proof (cases "start < length (sp_text p)")
    case False
    with is_char_boundary_le [OF "1.prems"(4)] show ?thesis by (subst cut_paragraph.simps) simp
  next
    case True
    have gt: "start < ?e" by (rule e(5) [OF True "1.prems"(6)])
    have len: "length (df_text ?f) = ?e - start"
      using gt e(1) by (simp add: part_of_paragraph_def length_str_slice)
    have "length (df_request_id ?f) \<le> length (id_text (sp_id p)) + 21"
      using length_nat_text_u64 [of start] True "1.prems"(3)
      by (simp add: part_of_paragraph_def fragment_id_def)
    moreover have "length (df_text ?f) \<le> (budget - (length (id_text (sp_id p)) + 149)) * bp_text_bytes_per_token b"
      using len e(4) "1.prems"(7) gt by linarith
    ultimately have fit: "fragment_tokens b ?f \<le> budget"
      using piece_fits [OF "1.prems"(1) _ "1.prems"(5)] by blast
    have "utf8 (df_text ?f)"
      using utf8_slice [OF "1.prems"(2,4) e(2) e(3)] by (simp add: part_of_paragraph_def)
    then have part: "part_of id_text p ?f"
      using len gt e(1) by (simp add: part_of_def part_of_paragraph_def)
    from True gt fit "1.IH" "1.prems" e(2) obtain fs where
      fs: "cut_paragraph id_text p budget b n ?e = Inr fs" "pieces_from id_text p ?e fs"
        "\<forall>f \<in> set fs. fragment_tokens b f \<le> budget"
      by (auto simp: not_le not_less)
    have "cut_paragraph id_text p budget b n start = Inr (?f # fs)"
      using True gt fit fs(1) by (subst cut_paragraph.simps) simp
    moreover have "pieces_from id_text p start (?f # fs)"
    proof -
      have "start + length (df_text ?f) = ?e" using len gt by simp
      moreover have "df_text ?f \<noteq> []" using len gt by auto
      ultimately show ?thesis using part fs(2)
        by (simp add: part_of_paragraph_def)
    qed
    ultimately show ?thesis using fs(3) fit by auto
  qed
qed

definition fragments_of :: "(paragraph_id \<Rightarrow> str) \<Rightarrow> source_paragraph \<Rightarrow> detection_fragment list \<Rightarrow> bool" where
  "fragments_of id_text p fs \<longleftrightarrow> fs = [whole_fragment id_text p] \<or> pieces_from id_text p 0 fs"

lemma fragment_source_paragraph_fragments:
  assumes "known_batching b" and "utf8 (sp_text p)" and "length (sp_text p) \<le> u64_max"
    and "length (id_text (sp_id p)) = 36" and "256 \<le> budget" and "budget < u64_max"
  shows "\<exists>fs. fragment_source_paragraph id_text p budget b = Inr fs \<and> fragments_of id_text p fs
     \<and> (\<forall>f \<in> set fs. fragment_tokens b f \<le> budget)"
proof (cases "fragment_tokens b (whole_fragment id_text p) \<le> budget")
  case True
  then show ?thesis by (simp add: fragment_source_paragraph_def fragments_of_def)
next
  case False
  let ?n = "u64_saturating_mul (budget - 185) (bp_text_bytes_per_token b)"
  have k: "1 \<le> bp_text_bytes_per_token b"
    using assms(1) by (auto simp: known_batching_def batching_v5_def batching_current_def)
  have "71 * 1 \<le> (budget - 185) * bp_text_bytes_per_token b"
    using assms(5) k by (intro mult_le_mono) auto
  then have n: "4 \<le> ?n" "?n \<le> (budget - 185) * bp_text_bytes_per_token b"
    by (simp_all add: u64_saturating_mul_def u64_max_def)
  have fixed: "u64_saturating_add (u64_saturating_add paragraph_overhead
      (u64_or_max (length (id_text (sp_id p))))) 21 = 185"
    using assms(4) by (simp add: paragraph_overhead_def u64_saturating_add_def u64_or_max_def u64_max_def)
  have "\<exists>fs. cut_paragraph id_text p budget b ?n 0 = Inr fs \<and> pieces_from id_text p 0 fs
     \<and> (\<forall>f \<in> set fs. fragment_tokens b f \<le> budget)"
    using assms n by (intro cut_paragraph_pieces) auto
  moreover have "fragment_source_paragraph id_text p budget b = cut_paragraph id_text p budget b ?n 0"
    using False n(1) assms(5) by (simp add: fragment_source_paragraph_def fixed Let_def)
  ultimately show ?thesis by (auto simp: fragments_of_def)
qed

lemma fragments_of_props:
  assumes "fragments_of id_text p fs" and "utf8 (sp_text p)"
  shows "concat (map df_text fs) = sp_text p" and "f \<in> set fs \<Longrightarrow> part_of id_text p f"
    and "distinct (map df_request_id fs)"
    and "f \<in> set fs \<Longrightarrow> df_request_id f = id_text (sp_id p)
       \<or> (\<exists>i. df_request_id f = fragment_id (id_text (sp_id p)) i)"
proof -
  have w: "part_of id_text p (whole_fragment id_text p)"
    using assms(2) by (simp add: part_of_def whole_fragment_def)
  from assms(1) show "concat (map df_text fs) = sp_text p"
    by (auto simp: fragments_of_def whole_fragment_def dest: pieces_from_concat)
  from assms(1) w show "f \<in> set fs \<Longrightarrow> part_of id_text p f"
    by (auto simp: fragments_of_def dest: pieces_from_part)
  from assms(1) show "distinct (map df_request_id fs)"
    by (auto simp: fragments_of_def dest: pieces_from_ids)
  from assms(1) show "f \<in> set fs \<Longrightarrow> df_request_id f = id_text (sp_id p)
       \<or> (\<exists>i. df_request_id f = fragment_id (id_text (sp_id p)) i)"
    by (auto simp: fragments_of_def whole_fragment_def dest: pieces_from_ids)
qed

section \<open>All fragments\<close>

lemma fragment_all_fragments:
  assumes "known_batching b"
    and "\<forall>p \<in> set ps. utf8 (sp_text p) \<and> length (sp_text p) \<le> u64_max \<and> length (id_text (sp_id p)) = 36"
    and "256 \<le> budget" and "budget < u64_max"
  shows "\<exists>fss. fragment_all id_text budget b ps = Inr (concat fss) \<and> list_all2 (fragments_of id_text) ps fss
     \<and> (\<forall>f \<in> set (concat fss). fragment_tokens b f \<le> budget)"
  using assms(2)
proof (induction ps)
  case Nil
  show ?case by (rule exI [of _ "[]"]) simp
next
  case (Cons p ps)
  then obtain fss where "fragment_all id_text budget b ps = Inr (concat fss)"
    "list_all2 (fragments_of id_text) ps fss" "\<forall>f \<in> set (concat fss). fragment_tokens b f \<le> budget"
    by auto
  moreover from Cons.prems fragment_source_paragraph_fragments [OF assms(1) _ _ _ assms(3,4)]
  obtain fs where "fragment_source_paragraph id_text p budget b = Inr fs" "fragments_of id_text p fs"
    "\<forall>f \<in> set fs. fragment_tokens b f \<le> budget" by fastforce
  ultimately show ?case by (intro exI [of _ "fs # fss"]) auto
qed

lemma fragments_of_index:
  assumes "list_all2 (fragments_of id_text) ps fss" and "f \<in> set (concat fss)"
  shows "\<exists>p fs. p \<in> set ps \<and> f \<in> set fs \<and> fragments_of id_text p fs"
  using assms by (induction ps fss rule: list_all2_induct) auto

text \<open>The texts of the fragments of each paragraph are its text.\<close>

lemma fragments_of_source:
  assumes "list_all2 (fragments_of id_text) ps fss" and "\<forall>p \<in> set ps. utf8 (sp_text p)"
    and "distinct (map (id_text \<circ> sp_id) ps)" and "p \<in> set ps"
  shows "concat (map df_text (filter (\<lambda>f. df_source_id f = id_text (sp_id p)) (concat fss))) = sp_text p"
  using assms
proof (induction ps fss rule: list_all2_induct)
  case (Cons q ps fs fss)
  note fo = fragments_of_props [OF Cons.hyps(1)]
  have src: "df_source_id f = id_text (sp_id q)" if "f \<in> set fs" for f
    using fo(2) that Cons.prems by (simp add: part_of_def)
  have other: "df_source_id f \<in> (id_text \<circ> sp_id) ` set ps" if "f \<in> set (concat fss)" for f
  proof -
    from fragments_of_index [OF Cons.hyps(2) that] obtain r fs' where
      "r \<in> set ps" "f \<in> set fs'" "fragments_of id_text r fs'" by blast
    moreover from this Cons.prems have "utf8 (sp_text r)" by simp
    ultimately have "df_source_id f = id_text (sp_id r)"
      using fragments_of_props(2) by (simp add: part_of_def)
    with \<open>r \<in> set ps\<close> show ?thesis by auto
  qed
  show ?case
  proof (cases "p = q")
    case True
    have "id_text (sp_id q) \<notin> (id_text \<circ> sp_id) ` set ps" using Cons.prems(2) by simp
    with other True have "df_source_id f \<noteq> id_text (sp_id p)" if "f \<in> set (concat fss)" for f
      using that by metis
    then have "filter (\<lambda>f. df_source_id f = id_text (sp_id p)) (concat fss) = []"
      by (simp only: filter_empty_conv)  blast
    moreover have "filter (\<lambda>f. df_source_id f = id_text (sp_id p)) fs = fs"
      using src True by (simp add: filter_id_conv)
    ultimately show ?thesis using fo(1) True Cons.prems by simp
  next
    case False
    with Cons.prems have p: "p \<in> set ps" by simp
    have "id_text (sp_id p) \<noteq> id_text (sp_id q)"
      using imageI [OF p, of "id_text \<circ> sp_id"] Cons.prems(2) by auto
    moreover from this src have "filter (\<lambda>f. df_source_id f = id_text (sp_id p)) fs = []"
      by (simp add: filter_empty_conv)
    ultimately show ?thesis using Cons p by simp
  qed
qed simp

lemma fragments_of_member:
  assumes "list_all2 (fragments_of id_text) ps fss" and "\<forall>p \<in> set ps. utf8 (sp_text p)"
    and "f \<in> set (concat fss)"
  shows "\<exists>p \<in> set ps. part_of id_text p f"
proof -
  from fragments_of_index [OF assms(1,3)] obtain p fs where
    "p \<in> set ps" "f \<in> set fs" "fragments_of id_text p fs" by blast
  with assms(2) fragments_of_props(2) show ?thesis by blast
qed

text \<open>Request identifiers are unique: the first 36 bytes tell the paragraph, the rest the position.\<close>

lemma request_ids_distinct:
  assumes "list_all2 (fragments_of id_text) ps fss"
    and "\<forall>p \<in> set ps. utf8 (sp_text p) \<and> length (id_text (sp_id p)) = 36"
    and "distinct (map (id_text \<circ> sp_id) ps)"
  shows "distinct (map df_request_id (concat fss))
     \<and> (\<forall>f \<in> set (concat fss). take 36 (df_request_id f) \<in> (id_text \<circ> sp_id) ` set ps)"
  using assms
proof (induction ps fss rule: list_all2_induct)
  case (Cons q ps fs fss)
  have pre: "take 36 (df_request_id f) = id_text (sp_id q)" if "f \<in> set fs" for f
    using fragments_of_props(4) [OF Cons.hyps(1) _ that] Cons.prems by (auto simp: fragment_id_def)
  from Cons have ih: "distinct (map df_request_id (concat fss))"
    "\<forall>f \<in> set (concat fss). take 36 (df_request_id f) \<in> (id_text \<circ> sp_id) ` set ps" by auto
  have "df_request_id ` set fs \<inter> df_request_id ` set (concat fss) = {}"
  proof -
    have False if "f \<in> set fs" "g \<in> set (concat fss)" "df_request_id f = df_request_id g" for f g
    proof -
      from ih(2) that(2) obtain r where "r \<in> set ps" "take 36 (df_request_id g) = id_text (sp_id r)"
        by auto
      with pre [OF that(1)] that(3) Cons.prems(2) show False by (auto simp: image_iff)
    qed
    then show ?thesis by blast
  qed
  moreover have "distinct (map df_request_id fs)"
    using fragments_of_props(3) [OF Cons.hyps(1)] Cons.prems by simp
  ultimately have "distinct (map df_request_id (concat (fs # fss)))"
    using ih(1) by simp
  moreover have "\<forall>f \<in> set (concat (fs # fss)). take 36 (df_request_id f) \<in> (id_text \<circ> sp_id) ` set (q # ps)"
    using pre ih(2) by auto
  ultimately show ?case by blast
qed simp

section \<open>Ranges\<close>

definition range_tokens :: "detection_batching \<Rightarrow> detection_fragment list \<Rightarrow> nat list \<Rightarrow> nat" where
  "range_tokens b fs is = sum_list (map (\<lambda>i. fragment_tokens b (fs ! i)) is)"

lemma pack_batch_props:
  assumes "\<forall>f \<in> set fs. fragment_tokens b f \<le> budget" and "budget < u64_max"
    and "start \<le> e" and "e \<le> length fs" and "e - start \<le> bp_max_paragraphs b"
    and "t = range_tokens b fs [start ..< e]" and "t \<le> budget"
  shows "\<exists>e' t'. pack_batch b budget fs start e t = Inr (e', t') \<and> e \<le> e' \<and> e' \<le> length fs
     \<and> e' - start \<le> bp_max_paragraphs b \<and> t' = range_tokens b fs [start ..< e'] \<and> t' \<le> budget
     \<and> (e = start \<and> start < length fs \<and> 0 < bp_max_paragraphs b \<longrightarrow> start < e')"
  using assms
proof (induction b budget fs start e t rule: pack_batch.induct)
  case (1 b budget fs start e t)
  show ?case
  proof (cases "e < length fs \<and> e - start < bp_max_paragraphs b")
    case False
    with "1.prems" show ?thesis by (subst pack_batch.simps) auto
  next
    case more: True
    let ?n = "fragment_tokens b (fs ! e)"
    have n: "?n \<le> budget" using "1.prems"(1) more by simp
    show ?thesis
    proof (cases "start < e \<and> u64_saturating_add t ?n > budget")
      case True
      with more "1.prems" show ?thesis by (subst pack_batch.simps) auto
    next
      case False
      have sum: "u64_saturating_add t ?n = t + ?n" "t + ?n \<le> budget"
      proof -
        have "t + ?n \<le> budget"
        proof (cases "start < e")
          case True
          with False "1.prems"(2) show ?thesis by (auto simp: u64_saturating_add_def)
        next
          case False
          with "1.prems" have "t = 0" by (simp add: range_tokens_def)
          with n show ?thesis by simp
        qed
        with "1.prems"(2) show "t + ?n \<le> budget" "u64_saturating_add t ?n = t + ?n"
          by (simp_all add: u64_saturating_add_def)
      qed
      have r: "t + ?n = range_tokens b fs [start ..< e + 1]"
        using "1.prems"(3,6) by (simp add: range_tokens_def)
      have "\<exists>e' t'. pack_batch b budget fs start (e + 1) (u64_saturating_add t ?n) = Inr (e', t')
          \<and> e + 1 \<le> e' \<and> e' \<le> length fs \<and> e' - start \<le> bp_max_paragraphs b
          \<and> t' = range_tokens b fs [start ..< e'] \<and> t' \<le> budget
          \<and> (e + 1 = start \<and> start < length fs \<and> 0 < bp_max_paragraphs b \<longrightarrow> start < e')"
        by (rule "1.IH" [OF more False]) (use n more "1.prems" sum r in \<open>simp_all only: sum(1) not_less\<close>, auto)
      then obtain e' t' where
        "pack_batch b budget fs start (e + 1) (t + ?n) = Inr (e', t')" "e + 1 \<le> e'" "e' \<le> length fs"
        "e' - start \<le> bp_max_paragraphs b" "t' = range_tokens b fs [start ..< e']" "t' \<le> budget"
        unfolding sum(1) by blast
      moreover have "pack_batch b budget fs start e t = pack_batch b budget fs start (e + 1) (t + ?n)"
        using more False n sum by (subst pack_batch.simps) (simp add: not_less)
      ultimately show ?thesis using "1.prems"(3) by auto
    qed
  qed
qed

fun ranges_from :: "detection_batching \<Rightarrow> u64 \<Rightarrow> detection_fragment list \<Rightarrow> usize \<Rightarrow> (usize \<times> usize \<times> u64) list \<Rightarrow> bool" where
  "ranges_from b budget fs start [] = (start = length fs)"
| "ranges_from b budget fs start ((i, e, t) # rs) = (i = start \<and> start < e \<and> e \<le> length fs
     \<and> e - start \<le> bp_max_paragraphs b \<and> t = range_tokens b fs [start ..< e] \<and> t \<le> budget
     \<and> ranges_from b budget fs e rs)"

lemma pack_ranges_ranges:
  assumes "\<forall>f \<in> set fs. fragment_tokens b f \<le> budget" and "budget < u64_max"
    and "start \<le> length fs" and "0 < bp_max_paragraphs b"
  shows "\<exists>rs. pack_ranges b budget fs start = Inr rs \<and> ranges_from b budget fs start rs"
  using assms
proof (induction b budget fs start rule: pack_ranges.induct)
  case (1 b budget fs start)
  show ?case
  proof (cases "start < length fs")
    case False
    with "1.prems" show ?thesis by (subst pack_ranges.simps) simp
  next
    case True
    from pack_batch_props [OF "1.prems"(1,2), of start start 0] True "1.prems"(4)
    obtain e t where p: "pack_batch b budget fs start start 0 = Inr (e, t)" "start < e" "e \<le> length fs"
      "e - start \<le> bp_max_paragraphs b" "t = range_tokens b fs [start ..< e]" "t \<le> budget"
      by (auto simp: range_tokens_def)
    with "1.IH" [OF True p(1) refl] "1.prems" obtain rs where
      "pack_ranges b budget fs e = Inr rs" "ranges_from b budget fs e rs" by auto
    with True p show ?thesis by (subst pack_ranges.simps) simp
  qed
qed

section \<open>Context\<close>

lemma btree_insert_keys: "fst ` set (btree_insert k v m) = insert k (fst ` set m)"
  by (induction k v m rule: btree_insert.induct) auto

lemma btree_insert_sorted:
  "sorted_wrt (<) (map fst m) \<Longrightarrow> sorted_wrt (<) (map fst (btree_insert k v m))"
  using btree_insert_keys [of k v]
  by (induction k v m rule: btree_insert.induct) (auto simp: btree_insert_keys [unfolded image_def, simplified] image_def
      dest: order.strict_trans)

lemma btree_insert_new:
  assumes "k \<notin> fst ` set m"
  shows "sum_list (map (g \<circ> fst) (btree_insert k v m)) = (sum_list (map (g \<circ> fst) m) + g k :: nat)"
    and "\<not> P (k, v) \<Longrightarrow> filter P (btree_insert k v m) = filter P m"
    and "length (btree_insert k v m) = Suc (length m)"
  using assms by (induction k v m rule: btree_insert.induct) auto

lemma add_context_props:
  assumes "sorted_wrt (<) (map fst m)" and "tokens = range_tokens b fs (map fst m)" and "tokens \<le> budget"
    and "budget < u64_max" and "distinct is" and "set is \<inter> fst ` set m = {}"
    and "m' = add_context b budget fs is tokens m"
  shows "sorted_wrt (<) (map fst m') \<and> range_tokens b fs (map fst m') \<le> budget
     \<and> filter (\<lambda>(i, c). \<not> c) m' = filter (\<lambda>(i, c). \<not> c) m \<and> fst ` set m' \<subseteq> fst ` set m \<union> set is
     \<and> length m' \<le> length m + length is"
  using assms
proof (induction b budget fs "is" tokens m rule: add_context.induct)
  case (2 b budget fs i "is" tokens m)
  let ?n = "fragment_tokens b (fs ! i)"
  show ?case
  proof (cases "u64_saturating_add tokens ?n \<le> budget")
    case True
    with "2.prems"(4) have sum: "u64_saturating_add tokens ?n = tokens + ?n" "tokens + ?n \<le> budget"
      by (auto simp: u64_saturating_add_def min_def split: if_splits)
    have new: "i \<notin> fst ` set m" using "2.prems"(6) by auto
    note ins = btree_insert_new [OF new]
    have r: "tokens + ?n = range_tokens b fs (map fst (btree_insert i True m))"
      using ins(1) [of "\<lambda>i. fragment_tokens b (fs ! i)" True] "2.prems"(2)
      by (simp add: range_tokens_def comp_def)
    have step: "m' = add_context b budget fs is (tokens + ?n) (btree_insert i True m)"
      using "2.prems"(7) sum by (simp add: Let_def)
    have "sorted_wrt (<) (map fst m') \<and> range_tokens b fs (map fst m') \<le> budget
     \<and> filter (\<lambda>(i, c). \<not> c) m' = filter (\<lambda>(i, c). \<not> c) (btree_insert i True m)
     \<and> fst ` set m' \<subseteq> fst ` set (btree_insert i True m) \<union> set is
     \<and> length m' \<le> length (btree_insert i True m) + length is"
      using "2.IH"(1) [OF refl True btree_insert_sorted [OF "2.prems"(1)]] r sum "2.prems" step
      by (simp add: btree_insert_keys)
    with ins(2) [of "\<lambda>(i, c). \<not> c" True] ins(3) show ?thesis by (auto simp: btree_insert_keys)
  next
    case False
    have "sorted_wrt (<) (map fst m') \<and> range_tokens b fs (map fst m') \<le> budget
     \<and> filter (\<lambda>(i, c). \<not> c) m' = filter (\<lambda>(i, c). \<not> c) m \<and> fst ` set m' \<subseteq> fst ` set m \<union> set is
     \<and> length m' \<le> length m + length is"
      using "2.IH"(2) [OF refl False "2.prems"(1-4)] "2.prems"(5-7) False by (simp add: Let_def)
    then show ?thesis by auto
  qed
qed simp

definition batch_indexes ::
  "detection_batching \<Rightarrow> u64 \<Rightarrow> detection_fragment list \<Rightarrow> usize \<times> usize \<times> u64 \<Rightarrow> (usize \<times> bool) list" where
  "batch_indexes b budget fs r = (case r of (start, e, tokens) \<Rightarrow>
     add_context b budget fs (context_indexes (length fs) start e) tokens (map (\<lambda>i. (i, False)) [start ..< e]))"

lemma batch_indexes_props:
  assumes "start < e" and "e \<le> length fs" and "t = range_tokens b fs [start ..< e]" and "t \<le> budget"
    and "budget < u64_max" and "m = batch_indexes b budget fs (start, e, t)"
  shows "sorted_wrt (<) (map fst m)" and "range_tokens b fs (map fst m) \<le> budget"
    and "filter (\<lambda>(i, c). \<not> c) m = map (\<lambda>i. (i, False)) [start ..< e]"
    and "fst ` set m \<subseteq> {..< length fs}" and "length m \<le> (e - start) + 4"
proof -
  let ?m = "map (\<lambda>i. (i, False)) [start ..< e]" and ?is = "context_indexes (length fs) start e"
  have k: "map fst ?m = [start ..< e]" by (simp add: comp_def)
  have "m = add_context b budget fs ?is t ?m" using assms(6) by (simp add: batch_indexes_def)
  moreover have "distinct ?is" "set ?is \<inter> fst ` set ?m = {}"
    using assms(1) by (auto simp: context_indexes_def image_image)
  moreover have "sorted_wrt (<) (map fst ?m)" "t = range_tokens b fs (map fst ?m)"
    using k assms(3) by (simp_all add: sorted_wrt_upt)
  ultimately have p: "sorted_wrt (<) (map fst m) \<and> range_tokens b fs (map fst m) \<le> budget
     \<and> filter (\<lambda>(i, c). \<not> c) m = filter (\<lambda>(i, c). \<not> c) ?m \<and> fst ` set m \<subseteq> fst ` set ?m \<union> set ?is
     \<and> length m \<le> length ?m + length ?is"
    using assms(4,5) by (intro add_context_props) auto
  then show "sorted_wrt (<) (map fst m)" "range_tokens b fs (map fst m) \<le> budget" by blast+
  from p show "filter (\<lambda>(i, c). \<not> c) m = ?m" by (simp add: filter_id_conv)
  have "set ?is \<subseteq> {..< length fs}" using assms(1,2) by (auto simp: context_indexes_def)
  with p assms(2) show "fst ` set m \<subseteq> {..< length fs}" by (auto simp: image_image)
  have "length ?is \<le> 4" by (simp add: context_indexes_def context_overlap_def)
  with p show "length m \<le> (e - start) + 4" by simp
qed

lemma batch_of_range_indexes:
  "bt_paragraphs (batch_of_range b budget fs r)
    = map (\<lambda>(i, c). \<lparr>bpp_fragment = fs ! i, bpp_context_only = c\<rparr>)
        (batch_indexes b (cb_paragraph_budget budget) fs r)"
  "bt_max_output_tokens (batch_of_range b budget fs r) = cb_max_output budget"
  by (cases r; simp add: batch_of_range_def batch_indexes_def)+

text \<open>What holds of each batch of a packing.\<close>

definition batch_ok :: "detection_batching \<Rightarrow> context_budget \<Rightarrow> detection_batch \<Rightarrow> bool" where
  "batch_ok b budget bt \<longleftrightarrow>
     sum_list (map (fragment_tokens b \<circ> bpp_fragment) (bt_paragraphs bt)) \<le> cb_paragraph_budget budget
     \<and> bt_max_output_tokens bt = cb_max_output budget
     \<and> 1 \<le> length (core_paragraphs bt) \<and> length (core_paragraphs bt) \<le> bp_max_paragraphs b
     \<and> length (bt_paragraphs bt) \<le> length (core_paragraphs bt) + 4
     \<and> distinct (map (df_request_id \<circ> bpp_fragment) (bt_paragraphs bt))"

lemma batch_of_range_ok:
  assumes "start < e" and "e \<le> length fs" and "t = range_tokens b fs [start ..< e]"
    and "t \<le> cb_paragraph_budget budget" and "cb_paragraph_budget budget < u64_max"
    and "e - start \<le> bp_max_paragraphs b" and "distinct (map df_request_id fs)"
    and "bt = batch_of_range b budget fs (start, e, t)"
  shows "core_paragraphs bt = map ((!) fs) [start ..< e]" and "batch_ok b budget bt"
proof -
  define m where "m = batch_indexes b (cb_paragraph_budget budget) fs (start, e, t)"
  note p = batch_indexes_props [OF assms(1-5) m_def]
  have bt: "bt_paragraphs bt = map (\<lambda>(i, c). \<lparr>bpp_fragment = fs ! i, bpp_context_only = c\<rparr>) m"
    "bt_max_output_tokens bt = cb_max_output budget"
    using assms(8) by (simp_all add: batch_of_range_indexes m_def)
  have "core_paragraphs bt = map (\<lambda>(i, c). fs ! i) (filter (\<lambda>(i, c). \<not> c) m)"
    by (simp add: core_paragraphs_def bt filter_map comp_def case_prod_unfold)
  with p(3) show core: "core_paragraphs bt = map ((!) fs) [start ..< e]" by (simp add: comp_def)
  have "sum_list (map (fragment_tokens b \<circ> bpp_fragment) (bt_paragraphs bt)) = range_tokens b fs (map fst m)"
    by (simp add: bt range_tokens_def comp_def case_prod_unfold)
  moreover have "distinct (map (df_request_id \<circ> bpp_fragment) (bt_paragraphs bt))"
  proof -
    have "map (df_request_id \<circ> bpp_fragment) (bt_paragraphs bt) = map (\<lambda>i. map df_request_id fs ! i) (map fst m)"
      using p(4) by (auto simp: bt case_prod_unfold)
    moreover have "inj_on (\<lambda>i. map df_request_id fs ! i) (set (map fst m))"
      using inj_on_nth [OF assms(7), of "set (map fst m)"] p(4) by auto
    moreover have "distinct (map fst m)" using p(1) by (simp add: strict_sorted_iff)
    ultimately show ?thesis by (metis distinct_map)
  qed
  moreover have "length (core_paragraphs bt) = e - start" using core by simp
  moreover have "length (bt_paragraphs bt) \<le> (e - start) + 4" using p(5) by (simp add: bt)
  moreover have "1 \<le> e - start" using assms(1) by simp
  ultimately show "batch_ok b budget bt"
    unfolding batch_ok_def using p(2) bt(2) assms(6) by (simp only:)
qed

lemma pack_ok:
  assumes "ranges_from b (cb_paragraph_budget budget) fs start rs"
    and "cb_paragraph_budget budget < u64_max" and "distinct (map df_request_id fs)"
  shows "concat (map core_paragraphs (map (batch_of_range b budget fs) rs)) = drop start fs
     \<and> (\<forall>bt \<in> set (map (batch_of_range b budget fs) rs). batch_ok b budget bt)"
  using assms(1)
proof (induction rs arbitrary: start)
  case (Cons r rs)
  obtain i e t where r: "r = (i, e, t)" by (cases r)
  with Cons.prems have h: "i = start" "start < e" "e \<le> length fs" "e - start \<le> bp_max_paragraphs b"
    "t = range_tokens b fs [start ..< e]" "t \<le> cb_paragraph_budget budget"
    "ranges_from b (cb_paragraph_budget budget) fs e rs" by auto
  note ok = batch_of_range_ok [OF h(2,3,5,6) assms(2) h(4) assms(3) refl]
  have "map ((!) fs) [start ..< e] = take (e - start) (drop start fs)"
    using h(2,3) by (intro nth_equalityI) auto
  moreover have "take (e - start) (drop start fs) @ drop e fs = drop start fs"
    using append_take_drop_id [of "e - start" "drop start fs"] h(2) by simp
  ultimately show ?case using Cons.IH [OF h(7)] ok r h(1) by simp
qed simp

end
