(* ===== verification/Detection_Batching_Properties.thy ===== *)
theory Detection_Batching_Properties
  imports Detection_Batching_Correctness
begin

text \<open>
  What the packing of detection requests guarantees: nothing of the book is lost or sent twice, no
  request exceeds the context window of the model, and splitting a refused batch makes progress.
\<close>

section \<open>Packing by count\<close>

lemma filter_multiples: "0 < n \<Longrightarrow> n \<le> k \<Longrightarrow> filter (\<lambda>i. i mod k = 0) [0 ..< n] = [0]"
  for n k :: nat
  by (auto simp: upt_conv_Cons filter_empty_conv)

lemma concat_chunks:
  assumes "0 < k"
  shows "concat (map (\<lambda>i. take k (drop i xs)) (filter (\<lambda>i. i mod k = 0) [0 ..< length xs])) = xs"
proof (induction "length xs" arbitrary: xs rule: less_induct)
  case less
  show ?case
  proof (cases "length xs \<le> k")
    case True
    have "filter (\<lambda>i. i mod k = 0) [0 ..< length xs] = (if xs = [] then [] else [0])"
      using True filter_multiples [of "length xs" k] by (cases "xs = []") simp_all
    with True show ?thesis by simp
  next
    case False
    let ?ys = "drop k xs"
    have split: "[0 ..< length xs] = [0 ..< k] @ map (\<lambda>i. i + k) [0 ..< length xs - k]"
      using False upt_add_eq_append [of 0 k "length xs - k"] by (simp add: map_add_upt)
    from filter_multiples [OF assms order.refl] have "concat (map (\<lambda>i. take k (drop i xs)) (filter (\<lambda>i. i mod k = 0) [0 ..< length xs]))
      = take k xs @ concat (map (\<lambda>i. take k (drop i ?ys)) (filter (\<lambda>i. i mod k = 0) [0 ..< length ?ys]))"
      by (simp add: split filter_map comp_def add.commute)
    with less [of ?ys] False assms show ?thesis by simp
  qed
qed

lemma upt_split: "i \<le> j \<Longrightarrow> j \<le> k \<Longrightarrow> [i ..< k] = [i ..< j] @ [j ..< k]"
  using upt_add_eq_append [of i j "k - j"] by simp

lemma legacy_batch_core:
  assumes "start < length ps"
  shows "core_paragraphs (legacy_batch id_text ps start) = map (whole_fragment id_text) (take 24 (drop start ps))"
proof -
  let ?e = "min (start + 24) (length ps)" and ?ce = "min (min (start + 24) (length ps) + 2) (length ps)"
  have "[start - 2 ..< ?ce] = [start - 2 ..< start] @ [start ..< ?e] @ [?e ..< ?ce]"
    using assms upt_split [of "start - 2" start ?ce] upt_split [of start ?e ?ce] by auto
  moreover have "filter (\<lambda>i. \<not> (i < start \<or> i \<ge> ?e)) [start - 2 ..< start] = []"
    "filter (\<lambda>i. \<not> (i < start \<or> i \<ge> ?e)) [?e ..< ?ce] = []"
    "filter (\<lambda>i. \<not> (i < start \<or> i \<ge> ?e)) [start ..< ?e] = [start ..< ?e]"
    by (auto simp: filter_empty_conv filter_id_conv)
  ultimately have "filter (\<lambda>i. \<not> (i < start \<or> i \<ge> ?e)) [start - 2 ..< ?ce] = [start ..< ?e]"
    by simp
  then have "core_paragraphs (legacy_batch id_text ps start)
      = map (\<lambda>i. whole_fragment id_text (ps ! i)) [start ..< ?e]"
    by (simp add: core_paragraphs_def legacy_batch_def Let_def filter_map comp_def batch_paragraphs_def
        context_overlap_def)
  also have "\<dots> = map (whole_fragment id_text) (take 24 (drop start ps))"
    by (intro nth_equalityI) (auto simp: nth_append less_diff_conv add.commute)
  finally show ?thesis .
qed

lemma legacy_core:
  "concat (map core_paragraphs (legacy_paragraph_batches id_text ps)) = map (whole_fragment id_text) ps"
proof -
  have "concat (map core_paragraphs (legacy_paragraph_batches id_text ps))
    = concat (map (\<lambda>i. map (whole_fragment id_text) (take 24 (drop i ps)))
        (filter (\<lambda>i. i mod 24 = 0) [0 ..< length ps]))"
    unfolding legacy_paragraph_batches_def batch_paragraphs_def map_map comp_def
    by (intro arg_cong [where f = concat] map_cong refl legacy_batch_core) simp
  also have "\<dots> = map (whole_fragment id_text)
      (concat (map (\<lambda>i. take 24 (drop i ps)) (filter (\<lambda>i. i mod 24 = 0) [0 ..< length ps])))"
    by (simp add: map_concat comp_def)
  finally show ?thesis by (simp add: concat_chunks)
qed

lemma fragments_of_whole: "utf8 (sp_text p) \<Longrightarrow> fragments_of id_text p [whole_fragment id_text p]"
  by (simp add: fragments_of_def)

section \<open>Jobs\<close>

text \<open>A job whose budget was computed for its context window, as \<open>detection_batches_for_config\<close> checks.\<close>

definition budgeted :: "detection_config \<Rightarrow> bool" where
  "budgeted config = (cfg_schema_version config \<ge> 5 \<longrightarrow> (case cfg_context_window_tokens config of
     None \<Rightarrow> False
   | Some window \<Rightarrow> window \<le> u64_max \<and> (case context_budget_new window of
       Inl _ \<Rightarrow> False | Inr budget \<Rightarrow> cfg_max_output_tokens config = Some (cb_max_output budget))))"

text \<open>The paragraphs of a project: distinct identifiers of 36 bytes, texts of complete characters.\<close>

definition project_paragraphs :: "(paragraph_id \<Rightarrow> str) \<Rightarrow> source_paragraph list \<Rightarrow> bool" where
  "project_paragraphs id_text ps = (distinct (map (id_text \<circ> sp_id) ps)
     \<and> list_all (\<lambda>p. utf8 (sp_text p) \<and> length (sp_text p) \<le> u64_max \<and> length (id_text (sp_id p)) = 36) ps)"

section \<open>A small job\<close>

definition sample_id :: "paragraph_id \<Rightarrow> str" where
  "sample_id u = ''00000000-0000-0000-0000-00000000000'' @ [char_of (48 + u mod 10)]"

definition sample_paragraphs :: "source_paragraph list" where
  "sample_paragraphs =
     [\<lparr>sp_id = 1, sp_text = ''Hello'', sp_hash = ''h1'', sp_chapter_title = ''One'', sp_chapter_id = 7\<rparr>,
      \<lparr>sp_id = 2, sp_text = ''Ada!'', sp_hash = ''h2'', sp_chapter_title = ''One'', sp_chapter_id = 7\<rparr>]"

definition sample_config :: detection_config where
  "sample_config = \<lparr>cfg_schema_version = 6, cfg_provider_profile_id = 3, cfg_model = ''m'',
     cfg_provider_endpoint = None, cfg_provider_mode = None, cfg_provider_snapshot_id = None,
     cfg_temperature = DefaultTemperature, cfg_reasoning = InheritReasoning,
     cfg_context_window_tokens = Some 4096, cfg_max_output_tokens = Some 1024,
     cfg_detection_run_id = 4, cfg_base_character_revision = 0\<rparr>"

definition sample_batch :: detection_batch where
  "sample_batch = core_batch 1024 (map (whole_fragment sample_id) sample_paragraphs)"

lemma sample_budget:
  "context_budget_new 4096 = Inr \<lparr>cb_context_window = 4096, cb_paragraph_budget = 1792,
     cb_max_output = 1024, cb_safety_margin = 256\<rparr>"
  by (simp add: context_budget_new_def clamp_def detection_consts u64_saturating_add_def u64_max_def
      u32_max_def Let_def)

lemma sample_project: "project_paragraphs sample_id sample_paragraphs" "budgeted sample_config"
  by (simp_all add: project_paragraphs_def sample_paragraphs_def sample_id_def utf8_ascii u64_max_def
      budgeted_def sample_config_def sample_budget)

lemma sample_batches:
  "detection_batches_for_config sample_id sample_paragraphs sample_config = Inr [sample_batch]"
  by (simp add: detection_batches_for_config_def sample_config_def sample_budget token_aware_schema_def
      paragraph_batches_def sample_paragraphs_def fragment_source_paragraph_def whole_fragment_def
      fragment_tokens_def batching_for_schema_def batching_current_def div_ceil_def u64_or_max_def
      u64_saturating_add_def u64_max_def pack_ranges.simps pack_batch.simps batch_of_range_def
      context_indexes_def sample_batch_def core_batch_def upt_rec)

text \<open>The shape of the batches of a job, from which both properties follow.\<close>

lemma batches_shape:
  assumes "project_paragraphs id_text ps" and "budgeted config"
  shows "\<exists>bs fss. detection_batches_for_config id_text ps config = Inr bs
     \<and> concat (map core_paragraphs bs) = concat fss \<and> list_all2 (fragments_of id_text) ps fss
     \<and> (cfg_schema_version config \<ge> 5 \<longrightarrow> (\<exists>window budget. cfg_context_window_tokens config = Some window
          \<and> window \<le> u64_max \<and> context_budget_new window = Inr budget
          \<and> (\<forall>bt \<in> set bs. batch_ok (batching_for_schema (cfg_schema_version config)) budget bt)))"
proof (cases "cfg_schema_version config < 5")
  case True
  let ?fss = "map (\<lambda>p. [whole_fragment id_text p]) ps"
  have "list_all2 (fragments_of id_text) ps ?fss"
    using assms(1) by (auto simp: list_all2_conv_all_nth project_paragraphs_def list_all_iff fragments_of_whole)
  moreover have "concat ?fss = map (whole_fragment id_text) ps" by (induction ps) simp_all
  moreover have "detection_batches_for_config id_text ps config = Inr (legacy_paragraph_batches id_text ps)"
    using True by (simp add: detection_batches_for_config_def token_aware_schema_def)
  ultimately show ?thesis using True legacy_core by (metis not_le)
next
  case False
  let ?b = "batching_for_schema (cfg_schema_version config)"
  from False assms(2) obtain window budget where w: "cfg_context_window_tokens config = Some window"
    "window \<le> u64_max" "context_budget_new window = Inr budget"
    "cfg_max_output_tokens config = Some (cb_max_output budget)"
    by (auto simp: budgeted_def split: option.splits sum.splits)
  note wb = context_budget_new_props [OF w(3,2)]
  have ps: "\<forall>p \<in> set ps. utf8 (sp_text p) \<and> length (sp_text p) \<le> u64_max \<and> length (id_text (sp_id p)) = 36"
    and ds: "distinct (map (id_text \<circ> sp_id) ps)"
    using assms(1) by (auto simp: project_paragraphs_def list_all_iff)
  from fragment_all_fragments [OF known_batching_for_schema ps wb(2,7)] obtain fss where
    f: "fragment_all id_text (cb_paragraph_budget budget) ?b ps = Inr (concat fss)"
      "list_all2 (fragments_of id_text) ps fss"
      "\<forall>f \<in> set (concat fss). fragment_tokens ?b f \<le> cb_paragraph_budget budget" by blast
  have bp: "0 < bp_max_paragraphs ?b"
    by (simp add: batching_for_schema_def batching_current_def batching_v5_def batch_paragraphs_def)
  from pack_ranges_ranges [OF f(3) wb(7) _ bp, of 0] obtain rs where
    rs: "pack_ranges ?b (cb_paragraph_budget budget) (concat fss) 0 = Inr rs"
      "ranges_from ?b (cb_paragraph_budget budget) (concat fss) 0 rs" by auto
  have "distinct (map df_request_id (concat fss))"
    using request_ids_distinct [OF f(2) _ ds] ps by simp
  from pack_ok [OF rs(2) wb(7) this] have
    ok: "concat (map core_paragraphs (map (batch_of_range ?b budget (concat fss)) rs)) = concat fss"
      "\<forall>bt \<in> set (map (batch_of_range ?b budget (concat fss)) rs). batch_ok ?b budget bt" by auto
  have "detection_batches_for_config id_text ps config
      = Inr (map (batch_of_range ?b budget (concat fss)) rs)"
    using False w by (simp add: detection_batches_for_config_def token_aware_schema_def paragraph_batches_def f(1) rs(1))
  with ok f(2) w(1-3) show ?thesis by blast
qed

text \<open>
  C13. Detection batches cover the book. For every project and every job whose output budget matches
  its context window, batching succeeds (in the old and the current schema), and for every paragraph
  the core fragments that name it, taken over all batches in order, concatenate to its text: no byte
  of the book is lost, duplicated or reordered, and no character is cut. Each of them is the slice of
  its paragraph at the recorded byte offset.
\<close>

theorem detection_batches_cover:
  assumes "project_paragraphs id_text ps" and "budgeted config"
  shows "\<exists>bs. detection_batches_for_config id_text ps config = Inr bs
     \<and> (\<forall>p \<in> set ps. concat (map df_text (filter (\<lambda>f. df_source_id f = id_text (sp_id p))
          (concat (map core_paragraphs bs)))) = sp_text p)
     \<and> (\<forall>f \<in> set (concat (map core_paragraphs bs)). \<exists>p \<in> set ps. df_source_id f = id_text (sp_id p)
          \<and> df_text f = str_slice (sp_text p) (df_source_byte_start f) (df_source_byte_start f + length (df_text f))
          \<and> utf8 (df_text f))"
proof -
  have ps: "\<forall>p \<in> set ps. utf8 (sp_text p)" and ds: "distinct (map (id_text \<circ> sp_id) ps)"
    using assms(1) by (auto simp: project_paragraphs_def list_all_iff)
  from batches_shape [OF assms] obtain bs fss where
    bs: "detection_batches_for_config id_text ps config = Inr bs"
      "concat (map core_paragraphs bs) = concat fss" "list_all2 (fragments_of id_text) ps fss" by blast
  have "\<forall>p \<in> set ps. concat (map df_text (filter (\<lambda>f. df_source_id f = id_text (sp_id p))
      (concat (map core_paragraphs bs)))) = sp_text p"
    using fragments_of_source [OF bs(3) ps ds] bs(2) by simp
  moreover have "\<forall>f \<in> set (concat (map core_paragraphs bs)). \<exists>p \<in> set ps. part_of id_text p f"
    using fragments_of_member [OF bs(3) ps] bs(2) by simp
  ultimately show ?thesis using bs(1) unfolding part_of_def by blast
qed

theorem detection_batches_cover_witness:
  "\<exists>bs. detection_batches_for_config sample_id sample_paragraphs sample_config = Inr bs
     \<and> (\<forall>p \<in> set sample_paragraphs. concat (map df_text (filter (\<lambda>f. df_source_id f = sample_id (sp_id p))
          (concat (map core_paragraphs bs)))) = sp_text p)"
  using detection_batches_cover [OF sample_project] by blast

text \<open>
  C20. Detection requests fit the model. In a budgeted job every batch of the current schemas sends
  between one fragment and the schema's maximal number of core fragments, at most four more as
  context, under distinct request identifiers, and the prompt reserve, the tokens of its fragments,
  the output limit and the safety margin together stay within the context window of the model; the
  output limit lies between 512 and 4096 tokens.
\<close>

theorem detection_batches_fit:
  assumes "project_paragraphs id_text ps" and "budgeted config" and "cfg_schema_version config \<ge> 5"
    and "detection_batches_for_config id_text ps config = Inr bs" and "bt \<in> set bs"
  shows "prompt_token_reserve
       + sum_list (map (\<lambda>p. fragment_tokens (batching_for_schema (cfg_schema_version config)) (bpp_fragment p)) (bt_paragraphs bt))
       + bt_max_output_tokens bt + 128 \<le> the (cfg_context_window_tokens config)
     \<and> 512 \<le> bt_max_output_tokens bt \<and> bt_max_output_tokens bt \<le> 4096
     \<and> 1 \<le> length (core_paragraphs bt)
     \<and> length (core_paragraphs bt) \<le> (if cfg_schema_version config \<ge> 6 then 40 else 24)
     \<and> length (bt_paragraphs bt) \<le> length (core_paragraphs bt) + 4
     \<and> distinct (map rp_id (request_paragraphs bt))"
proof -
  let ?b = "batching_for_schema (cfg_schema_version config)"
  from batches_shape [OF assms(1,2)] assms(3,4,5) obtain window budget where
    w: "cfg_context_window_tokens config = Some window" "window \<le> u64_max" "context_budget_new window = Inr budget"
    and ok: "batch_ok ?b budget bt" by auto
  note wb = context_budget_new_props [OF w(3,2)]
  have "bp_max_paragraphs ?b = (if cfg_schema_version config \<ge> 6 then 40 else 24)"
    by (simp add: batching_for_schema_def batching_current_def batching_v5_def batch_paragraphs_def)
  moreover have "map rp_id (request_paragraphs bt) = map (df_request_id \<circ> bpp_fragment) (bt_paragraphs bt)"
    by (simp add: request_paragraphs_def comp_def)
  ultimately show ?thesis
    using ok wb(3-6) w(1) by (auto simp: batch_ok_def comp_def)
qed

theorem detection_batches_fit_witness:
  "prompt_token_reserve
     + sum_list (map (\<lambda>p. fragment_tokens batching_current (bpp_fragment p)) (bt_paragraphs sample_batch))
     + bt_max_output_tokens sample_batch + 128 \<le> 4096"
proof -
  have "cfg_schema_version sample_config = 6" "cfg_context_window_tokens sample_config = Some 4096"
    by (simp_all add: sample_config_def)
  then show ?thesis
    using detection_batches_fit [OF sample_project _ sample_batches, of sample_batch]
    by (simp add: batching_for_schema_def)
qed

section \<open>Splitting\<close>

text \<open>How much a batch asks for: it falls with every split.\<close>

definition fragment_size :: "detection_fragment \<Rightarrow> nat" where
  "fragment_size f = length (df_text f) + 1"

definition batch_size :: "detection_batch \<Rightarrow> nat" where
  "batch_size b = sum_list (map fragment_size (core_paragraphs b)) + bt_max_output_tokens b"

lemma core_paragraphs_core_batch [simp]: "core_paragraphs (core_batch m fs) = fs"
  by (simp add: core_paragraphs_def core_batch_def comp_def)

lemma bt_max_output_core_batch [simp]: "bt_max_output_tokens (core_batch m fs) = m"
  by (simp add: core_batch_def)

lemma sum_fragment_size_pos: "fs \<noteq> [] \<Longrightarrow> 0 < sum_list (map fragment_size fs)"
  by (cases fs) (simp_all add: fragment_size_def)

text \<open>The two ways of splitting the core fragments.\<close>

lemma split_core_cases:
  assumes "split_core b m = Inr (Some cs)"
  obtains (halves) l r where "core_paragraphs b = l @ r" and "l \<noteq> []" and "r \<noteq> []"
      and "cs = [core_batch m l, core_batch m r]"
    | (cut) f e where "core_paragraphs b = [f]" and "0 < e" and "e < length (df_text f)"
      and "e = preferred_fragment_end (df_text f) 0 (length (df_text f) div 2)"
      and "cs = [core_batch m [fragment_slice f 0 e], core_batch m [fragment_slice f e (length (df_text f))]]"
proof (cases "length (core_paragraphs b) > 1")
  case True
  let ?c = "core_paragraphs b" and ?k = "div_ceil (length (core_paragraphs b)) 2"
  have k: "0 < ?k" "?k < length ?c" using True by (simp_all add: div_ceil_def) arith+
  then have "take ?k ?c \<noteq> []" "drop ?k ?c \<noteq> []" using True by auto
  moreover from this have "cs = [core_batch m (take ?k ?c), core_batch m (drop ?k ?c)]"
    using assms True by (simp add: split_core_def Let_def)
  ultimately show thesis using halves [of "take ?k ?c" "drop ?k ?c"] by simp
next
  case False
  then obtain f where "core_paragraphs b = [f]"
    using assms by (cases "core_paragraphs b") (auto simp: split_core_def)
  with assms show thesis using cut [of f] by (auto simp: split_core_def Let_def split: if_splits)
qed

lemma fragment_slice_props:
  assumes "part_of id_text p f" and "length (sp_text p) \<le> u64_max"
    and "is_char_boundary (df_text f) i" and "is_char_boundary (df_text f) j" and "i \<le> j"
  shows "part_of id_text p (fragment_slice f i j)"
    and "df_text (fragment_slice f i j) = str_slice (df_text f) i j"
proof -
  let ?s = "df_source_byte_start f" and ?n = "length (df_text f)"
  have f: "df_text f = str_slice (sp_text p) ?s (?s + ?n)" "?s + ?n \<le> length (sp_text p)" "utf8 (df_text f)"
    "df_source_id f = id_text (sp_id p)" using assms(1) by (auto simp: part_of_def)
  have j: "j \<le> ?n" using assms(4) by (rule is_char_boundary_le)
  have sat: "u64_saturating_add ?s i = ?s + i"
    using f(2) j assms(2,5) by (simp add: u64_saturating_add_def)
  have "str_slice (df_text f) i j = str_slice (sp_text p) (?s + i) (?s + j)"
    using str_slice_slice [of ?s "?s + ?n" i j "sp_text p"] f(1) j assms(5) by simp
  moreover have "length (str_slice (df_text f) i j) = j - i" using j assms(5) by (simp add: length_str_slice)
  moreover have "utf8 (str_slice (df_text f) i j)" using utf8_slice [OF f(3) assms(3-5)] .
  ultimately show "part_of id_text p (fragment_slice f i j)"
    "df_text (fragment_slice f i j) = str_slice (df_text f) i j"
    using f(2,4) j assms(5) by (simp_all add: part_of_def fragment_slice_def sat Let_def)
qed

text \<open>What a list of core fragments says of the book: identifiers and texts in order.\<close>

definition source_pieces :: "detection_fragment list \<Rightarrow> (str \<times> str) list" where
  "source_pieces fs = map (\<lambda>f. (df_source_id f, df_text f)) fs"

definition text_of_source :: "str \<Rightarrow> detection_fragment list \<Rightarrow> str" where
  "text_of_source i fs = concat (map df_text (filter (\<lambda>f. df_source_id f = i) fs))"

lemma text_of_source_append [simp]: "text_of_source i (fs @ gs) = text_of_source i fs @ text_of_source i gs"
  by (simp add: text_of_source_def)

lemma split_core_props:
  assumes "split_core b m = Inr (Some cs)" and "m \<le> bt_max_output_tokens b"
    and "\<forall>f \<in> set (core_paragraphs b). \<exists>p \<in> set ps. part_of id_text p f"
    and "\<forall>p \<in> set ps. length (sp_text p) \<le> u64_max"
  shows "text_of_source i (concat (map core_paragraphs cs)) = text_of_source i (core_paragraphs b)
     \<and> (\<forall>c \<in> set cs. batch_size c < batch_size b
          \<and> (\<forall>f \<in> set (core_paragraphs c). \<exists>p \<in> set ps. part_of id_text p f))"
  using assms(1)
proof (cases rule: split_core_cases)
  case (halves l r)
  moreover have "0 < sum_list (map fragment_size l)" "0 < sum_list (map fragment_size r)"
    using halves by (simp_all add: sum_fragment_size_pos)
  ultimately show ?thesis using assms(2,3) by (auto simp: batch_size_def)
next
  case (cut f e)
  then obtain p where p: "p \<in> set ps" "part_of id_text p f" using assms(3) by auto
  then have u: "utf8 (df_text f)" and len: "length (df_text f) \<le> u64_max" and pl: "length (sp_text p) \<le> u64_max"
    using assms(4) by (auto simp: part_of_def)
  have e: "is_char_boundary (df_text f) e"
    using preferred_fragment_end_props(2) [OF u is_char_boundary_0 len] cut(4) by simp
  note l = fragment_slice_props [OF p(2) pl is_char_boundary_0 e]
  note r = fragment_slice_props [OF p(2) pl e is_char_boundary_length]
  have parts: "part_of id_text p (fragment_slice f 0 e)" "part_of id_text p (fragment_slice f e (length (df_text f)))"
    and texts: "df_text (fragment_slice f 0 e) = str_slice (df_text f) 0 e"
      "df_text (fragment_slice f e (length (df_text f))) = str_slice (df_text f) e (length (df_text f))"
    using l r cut(3) by auto
  have "str_slice (df_text f) 0 e @ str_slice (df_text f) e (length (df_text f)) = df_text f"
    using str_slice_append [of 0 e "length (df_text f)" "df_text f"] cut(3) by simp
  moreover have "df_source_id (fragment_slice f x y) = df_source_id f" for x y
    by (simp add: fragment_slice_def Let_def)
  ultimately have "text_of_source i (concat (map core_paragraphs cs)) = text_of_source i (core_paragraphs b)"
    using texts by (simp add: cut text_of_source_def)
  moreover have "fragment_size (fragment_slice f 0 e) < fragment_size f"
    "fragment_size (fragment_slice f e (length (df_text f))) < fragment_size f"
    using texts cut(2,3) by (simp_all add: fragment_size_def length_str_slice)
  ultimately show ?thesis using parts p(1) assms(2) by (auto simp: cut batch_size_def)
qed

text \<open>Both kinds of retry go through \<open>split_core\<close> or halve the output limit.\<close>

lemma split_for_retry_props:
  assumes "split_for_context_retry b = Inr cs \<or> split_for_output_retry b = Inr cs"
    and "\<forall>f \<in> set (core_paragraphs b). \<exists>p \<in> set ps. part_of id_text p f"
    and "\<forall>p \<in> set ps. length (sp_text p) \<le> u64_max"
  shows "text_of_source i (concat (map core_paragraphs cs)) = text_of_source i (core_paragraphs b)
     \<and> (\<forall>c \<in> set cs. batch_size c < batch_size b
          \<and> (\<forall>f \<in> set (core_paragraphs c). \<exists>p \<in> set ps. part_of id_text p f))"
proof -
  define m where "m = (if bt_max_output_tokens b > 256 then max (bt_max_output_tokens b div 2) 256
    else bt_max_output_tokens b)"
  have m: "m \<le> bt_max_output_tokens b" "256 < bt_max_output_tokens b \<Longrightarrow> m < bt_max_output_tokens b"
    by (auto simp: m_def)
  from assms(1) consider "split_core b m = Inr (Some cs)"
    | "256 < bt_max_output_tokens b" "cs = [\<lparr>bt_paragraphs = bt_paragraphs b, bt_max_output_tokens = m\<rparr>]"
    | "split_core b (bt_max_output_tokens b) = Inr (Some cs)"
    by (fastforce simp: split_for_context_retry_def split_for_output_retry_def m_def Let_def
        split: sum.splits option.splits if_splits)
  then show ?thesis
  proof cases
    case 1
    then show ?thesis using split_core_props [OF _ m(1) assms(2,3)] by blast
  next
    case 2
    then have "core_paragraphs (hd cs) = core_paragraphs b" by (simp add: core_paragraphs_def)
    with 2 m(2) assms(2) show ?thesis by (simp add: batch_size_def)
  next
    case 3
    then show ?thesis using split_core_props [OF _ order.refl assms(2,3)] by blast
  qed
qed

end
