(* ===== verification/Detection_Execution.thy ===== *)
theory Detection_Execution
  imports Detection_Batching Job_Lifecycle Retry
begin

text \<open>
  Execution of one detection batch (crates/service/src/workflows/execution.rs): the loop that sends
  the pending requests, halves a batch the provider finds too large, repairs an unreadable answer
  once, and gathers the results with their positions moved back to the source paragraphs. The
  environment decides the provider's answers, the new request identifiers, the time, and which reads
  and writes of the database fail; each of its components takes the number of the request.
\<close>

section \<open>Results\<close>

text \<open>The entry of the last batch paragraph with an identifier, as a \<open>BTreeMap\<close> collected from them.\<close>

definition batch_paragraph_of :: "detection_batch \<Rightarrow> str \<Rightarrow> batch_paragraph option" where
  "batch_paragraph_of b i = find (\<lambda>p. df_request_id (bpp_fragment p) = i) (rev (bt_paragraphs b))"

definition u32_checked_add :: "u32 \<Rightarrow> u32 \<Rightarrow> u32 option" where
  "u32_checked_add a b = (if a + b \<le> u32_max then Some (a + b) else None)"

definition rebase_span :: "batch_paragraph \<Rightarrow> detected_dialogue \<Rightarrow> service_error + detected_dialogue" where
  "rebase_span p d =
     (if u32_max < df_source_byte_start (bpp_fragment p)
      then Inl (conflict ''paragraph byte offset exceeds the supported range'')
      else case (u32_checked_add (dd_start d) (df_source_byte_start (bpp_fragment p)),
                 u32_checked_add (dd_end d) (df_source_byte_start (bpp_fragment p))) of
        (Some s, Some e) \<Rightarrow> Inr (d\<lparr>dd_start := s, dd_end := e,
            dd_paragraph_id := df_source_id (bpp_fragment p)\<rparr>)
      | _ \<Rightarrow> Inl (conflict ''dialogue byte offset exceeds the supported range''))"

fun rebase_spans :: "detection_batch \<Rightarrow> detected_dialogue list \<Rightarrow> service_error + detected_dialogue list" where
  "rebase_spans b [] = Inr []"
| "rebase_spans b (d # ds) = (case batch_paragraph_of b (dd_paragraph_id d) of
     None \<Rightarrow> Inl (conflict ''provider returned dialogue for an unknown paragraph fragment'')
   | Some p \<Rightarrow>
       if bpp_context_only p then rebase_spans b ds
       else case rebase_span p d of
         Inl e \<Rightarrow> Inl e
       | Inr d' \<Rightarrow> map_sum id ((#) d') (rebase_spans b ds))"

definition rebase_detection_result :: "detection_result \<Rightarrow> detection_batch \<Rightarrow> service_error + detection_result" where
  "rebase_detection_result r b = map_sum id (\<lambda>ds. r\<lparr>dr_dialogue := ds\<rparr>) (rebase_spans b (dr_dialogue r))"

text \<open>Counters are added when both requests report them; the source is kept when both agree.\<close>

definition both_known :: "u64 option \<Rightarrow> u64 option \<Rightarrow> u64 option" where
  "both_known l r = (case (l, r) of (Some x, Some y) \<Rightarrow> Some (u64_saturating_add x y) | _ \<Rightarrow> None)"

definition sum_known_credits :: "i64 option \<Rightarrow> i64 option \<Rightarrow> i64 option" where
  "sum_known_credits l r = (case (l, r) of
      (Some x, Some y) \<Rightarrow> Some (min i64_max (max i64_min (x + y))) | _ \<Rightarrow> None)"

fun sum_source :: "usage_source \<Rightarrow> usage_source \<Rightarrow> usage_source" where
  "sum_source UsageReported UsageReported = UsageReported"
| "sum_source UsageEstimated UsageEstimated = UsageEstimated"
| "sum_source _ _ = UsageUnknown"

definition append_provider_usage :: "provider_usage \<Rightarrow> provider_usage \<Rightarrow> bool \<Rightarrow> provider_usage" where
  "append_provider_usage combined next_usage has_prior_usage =
     (if \<not> has_prior_usage then next_usage
      else \<lparr>pu_source = sum_source (pu_source combined) (pu_source next_usage),
        pu_characters = both_known (pu_characters combined) (pu_characters next_usage),
        pu_audio_milliseconds = both_known (pu_audio_milliseconds combined) (pu_audio_milliseconds next_usage),
        pu_input_tokens = both_known (pu_input_tokens combined) (pu_input_tokens next_usage),
        pu_output_tokens = both_known (pu_output_tokens combined) (pu_output_tokens next_usage),
        pu_cached_tokens = both_known (pu_cached_tokens combined) (pu_cached_tokens next_usage),
        pu_reasoning_tokens = both_known (pu_reasoning_tokens combined) (pu_reasoning_tokens next_usage),
        pu_credits_micros = sum_known_credits (pu_credits_micros combined) (pu_credits_micros next_usage),
        pu_raw_redacted = None, pu_request_id = None\<rparr>)"

definition append_detection_result :: "detection_result \<Rightarrow> detection_result \<Rightarrow> bool \<Rightarrow> detection_result" where
  "append_detection_result combined r has_prior_usage =
     \<lparr>dr_characters = dr_characters combined @ dr_characters r,
      dr_dialogue = dr_dialogue combined @ dr_dialogue r,
      dr_usage = append_provider_usage (dr_usage combined) (dr_usage r) has_prior_usage\<rparr>"

section \<open>Messages\<close>

definition provider_error_text :: "provider_error \<Rightarrow> str" where
  "provider_error_text e = (case e of
      PConfiguration m \<Rightarrow> ''provider configuration is invalid: '' @ m
    | PUnsupported feature \<Rightarrow> ''provider does not support '' @ feature
    | PAuthentication \<Rightarrow> ''provider authentication failed''
    | PRateLimited _ \<Rightarrow> ''provider rate limit reached''
    | PUncertainCharge \<Rightarrow> ''provider request timed out after dispatch; billing status is uncertain''
    | PHttp status m \<Rightarrow> ''provider returned HTTP '' @ nat_text status @ '': '' @ m
    | PContextWindowExceeded \<Rightarrow> ''provider model context window is too small for the request''
    | POutputTruncated \<Rightarrow> ''provider output was truncated before the structured result completed''
    | PTransport m \<Rightarrow> ''provider transport failed: '' @ m
    | PInvalidResponse m \<Rightarrow> ''provider returned malformed data: '' @ m
    | PNotOwned \<Rightarrow> ''managed process is not owned by this controller''
    | PProcessNotFound \<Rightarrow> ''managed process was not found''
    | PProcess m \<Rightarrow> ''managed process failed: '' @ m
    | PCancelled \<Rightarrow> ''operation was cancelled'')"

definition attempt_text :: "attempt_number \<Rightarrow> str" where
  "attempt_text a = ''AttemptNumber('' @ nat_text (attempt_get a) @ '')''"

text \<open>The text of a \<open>RetryExecutionError\<close>; the journal's own message is a string.\<close>

fun retry_failure_text :: "('v, str) retry_result \<Rightarrow> str" where
  "retry_failure_text (ProviderFailed e _ a) =
     ''provider operation failed after '' @ attempt_text a @ '': '' @ provider_error_text e"
| "retry_failure_text (JournalFailed m a) =
     ''could not durably record provider attempt '' @ attempt_text a @ '': retry journal failed: '' @ m"
| "retry_failure_text (RetrySucceeded _ _) = []"

section \<open>The detection unit\<close>

definition json_as_bool :: "json \<Rightarrow> bool option" where
  "json_as_bool v = (case v of JBool b \<Rightarrow> Some b | _ \<Rightarrow> None)"

definition json_as_u64 :: "json \<Rightarrow> u64 option" where
  "json_as_u64 v = (case v of
     JNum (Finite r) \<Rightarrow> (if snd (quotient_of r) = 1 \<and> 0 \<le> r \<and> r \<le> of_nat u64_max
       then Some (nat (fst (quotient_of r))) else None)
   | _ \<Rightarrow> None)"

definition json_nat :: "nat \<Rightarrow> json" where
  "json_nat n = JNum (Finite (of_nat n))"

definition payload_flag :: "job_unit \<Rightarrow> str \<Rightarrow> bool" where
  "payload_flag unit k = (case Option.bind (ju_payload unit k) json_as_bool of None \<Rightarrow> False | Some b \<Rightarrow> b)"

definition payload_count :: "job_unit \<Rightarrow> str \<Rightarrow> usize" where
  "payload_count unit k = (case Option.bind (ju_payload unit k) json_as_u64 of None \<Rightarrow> 0 | Some n \<Rightarrow> n)"

definition set_payload :: "str \<Rightarrow> json option \<Rightarrow> job_unit \<Rightarrow> job_unit" where
  "set_payload k v unit = unit\<lparr>ju_payload := (ju_payload unit)(k := v)\<rparr>"

text \<open>The changes \<open>mark_detection_unit\<close> makes to the unit before it stores it.\<close>

definition mark_detection_unit :: "time \<Rightarrow> job_unit_state \<Rightarrow> str option \<Rightarrow> job_unit \<Rightarrow> job_unit" where
  "mark_detection_unit now next_state error unit =
     (let u = set_payload ''progress'' (Some (JNum (Finite (if next_state = UnitCompleted then 1 else 0))))
            (unit\<lparr>ju_state := next_state, ju_updated_at := now\<rparr>)
      in case error of
        Some m \<Rightarrow> set_payload ''lastError'' (Some (JStr (take_chars 512 m))) u
      | None \<Rightarrow> if next_state \<noteq> UnitFailed then set_payload ''lastError'' None u else u)"

section \<open>The loop\<close>

definition context_fallback_limit :: usize where "context_fallback_limit = 8"
definition output_fallback_limit :: usize where "output_fallback_limit = 8"

record exec_env =
  ex_policy :: retry_policy
  ex_attempts :: "nat \<Rightarrow> detection_request \<Rightarrow> (detection_result, str) retry_env"
  ex_prompt :: str
  ex_repair_prompt :: str
  ex_uuid :: "nat \<Rightarrow> uuid"
  ex_uuid_text :: "uuid \<Rightarrow> str"
  ex_now :: "nat \<Rightarrow> time"
  ex_repair_run :: "nat \<Rightarrow> service_error option"
  ex_prepare :: "nat \<Rightarrow> service_error option"
  ex_offset :: "nat \<Rightarrow> service_error + u16"
  ex_mark :: "nat \<Rightarrow> service_error option"
  ex_job_state :: "nat \<Rightarrow> service_error + job_state option"

datatype exec_end = Finished detection_result | Interrupted | Aborted service_error | Panicked

record exec_log =
  lg_batch :: detection_batch
  lg_request :: detection_request
  lg_reply :: "(detection_result, str) retry_result option"

record exec_state =
  xs_pending :: "(detection_batch \<times> bool) list"
  xs_context_fallbacks :: usize
  xs_output_fallbacks :: usize
  xs_combined :: detection_result
  xs_completed :: usize
  xs_unit :: job_unit
  xs_log :: "exec_log list"

definition detection_request_for ::
  "exec_env \<Rightarrow> detection_config \<Rightarrow> nat \<Rightarrow> detection_batch \<Rightarrow> bool \<Rightarrow> detection_request" where
  "detection_request_for env cfg n b repair =
     \<lparr>dq_request_id = ex_uuid env n, dq_model = cfg_model cfg,
      dq_system_prompt = (if repair
        then ex_prompt env @ [char_of (10::nat), char_of (10::nat)] @ ex_repair_prompt env else ex_prompt env),
      dq_paragraphs = request_paragraphs b, dq_temperature = cfg_temperature cfg,
      dq_reasoning = cfg_reasoning cfg, dq_max_output_tokens = bt_max_output_tokens b\<rparr>"

definition set_dispatch_state :: "str \<Rightarrow> job_unit \<Rightarrow> job_unit" where
  "set_dispatch_state s = set_payload ''dispatchState'' (Some (JStr s))"

text \<open>Replace a batch by its parts after a fallback; the write of the unit may fail.\<close>

definition rebatch ::
  "exec_env \<Rightarrow> nat \<Rightarrow> str \<Rightarrow> usize \<Rightarrow> str \<Rightarrow> detection_batch list \<Rightarrow> bool \<Rightarrow> exec_state \<Rightarrow>
     (exec_end \<times> exec_state) + exec_state" where
  "rebatch env n counter count dispatch children repair st =
     (let unit = mark_detection_unit (ex_now env n) UnitRunning None
            (set_dispatch_state dispatch (set_payload ''requestId'' None
              (set_payload counter (Some (json_nat count)) (xs_unit st))));
          st' = st\<lparr>xs_unit := unit\<rparr>
      in case ex_mark env n of
        Some e \<Rightarrow> Inl (Aborted e, st')
      | None \<Rightarrow> Inr (st'\<lparr>xs_pending := map (\<lambda>c. (c, repair)) children @ xs_pending st\<rparr>))"

text \<open>What follows the answer of the provider for the batch taken from the queue.\<close>

definition handle_reply ::
  "exec_env \<Rightarrow> nat \<Rightarrow> detection_batch \<Rightarrow> bool \<Rightarrow> (detection_result, str) retry_result \<Rightarrow> exec_state \<Rightarrow>
     (exec_end \<times> exec_state) + exec_state" where
  "handle_reply env n b repair reply st = (case reply of
     RetrySucceeded r _ \<Rightarrow>
       (case rebase_detection_result r b of
          Inl e \<Rightarrow> Inl (Aborted e, st)
        | Inr r' \<Rightarrow> Inr (st\<lparr>
            xs_combined := append_detection_result (xs_combined st) r' (xs_completed st > 0),
            xs_completed := u64_saturating_add (xs_completed st) 1\<rparr>))
   | ProviderFailed PContextWindowExceeded _ _ \<Rightarrow>
       (let count = u64_saturating_add (xs_context_fallbacks st) 1;
            st' = st\<lparr>xs_context_fallbacks := count\<rparr>
        in if count > context_fallback_limit
           then Inl (Aborted (conflict ''the provider context window remains too small after adaptive batching''), st')
           else case split_for_context_retry b of
             Inl e \<Rightarrow> Inl (Aborted e, st')
           | Inr children \<Rightarrow> rebatch env n ''contextFallbackCount'' count ''context_rebatch'' children repair st')
   | ProviderFailed POutputTruncated _ _ \<Rightarrow>
       (let count = u64_saturating_add (xs_output_fallbacks st) 1;
            st' = st\<lparr>xs_output_fallbacks := count\<rparr>
        in if count > output_fallback_limit
           then Inl (Aborted (conflict ''the provider output remains incomplete after adaptive batching''), st')
           else case split_for_output_retry b of
             Inl e \<Rightarrow> Inl (Aborted e, st')
           | Inr children \<Rightarrow> rebatch env n ''outputFallbackCount'' count ''output_rebatch'' children repair st')
   | ProviderFailed PCancelled _ _ \<Rightarrow>
       (case ex_job_state env n of
          Inl e \<Rightarrow> Inl (Aborted e, st)
        | Inr None \<Rightarrow> Inl (Aborted ResourceNotFound, st)
        | Inr (Some s) \<Rightarrow>
            if s \<in> {Pausing, Paused, Cancelling, Cancelled} then Inl (Interrupted, st)
            else Inl (Aborted (conflict ''character-detection provider cancelled the request''), st))
   | ProviderFailed (PInvalidResponse _) _ _ \<Rightarrow>
       (if repair then Inl (Aborted (conflict (retry_failure_text reply)), st)
        else
          let unit = mark_detection_unit (ex_now env n) UnitRunning None
                (set_dispatch_state ''prepared'' (set_payload ''requestId'' None
                  (set_payload ''needsRepair'' (Some (JBool True)) (xs_unit st))));
              st' = st\<lparr>xs_unit := unit\<rparr>
          in case ex_mark env n of
            Some e \<Rightarrow> Inl (Aborted e, st')
          | None \<Rightarrow> Inr (st'\<lparr>xs_pending := (b, True) # xs_pending st\<rparr>))
   | _ \<Rightarrow> Inl (Aborted (conflict (retry_failure_text reply)), st))"

text \<open>One request: prepare it durably, send it under the retry policy, act on the answer.\<close>

definition exec_step ::
  "exec_env \<Rightarrow> detection_config \<Rightarrow> detection_batch \<Rightarrow> bool \<Rightarrow> exec_state \<Rightarrow>
     (exec_end \<times> exec_state) + exec_state" where
  "exec_step env cfg b repair st =
     (let n = length (xs_log st);
          request = detection_request_for env cfg n b repair;
          unit = mark_detection_unit (ex_now env n) UnitRunning None
            (set_dispatch_state ''prepared''
              (set_payload ''requestId'' (Some (JStr (ex_uuid_text env (dq_request_id request)))) (xs_unit st)))
      in case (if repair then ex_repair_run env n else None) of
        Some e \<Rightarrow> Inl (Aborted e, st)
      | None \<Rightarrow> (case ex_prepare env n of
        Some e \<Rightarrow> Inl (Aborted e, st\<lparr>xs_unit := unit\<rparr>)
      | None \<Rightarrow>
          let reply = fst (execute_with_retry (ex_policy env) (ex_attempts env n request));
              st1 = st\<lparr>xs_unit := unit, xs_log := xs_log st @
                [\<lparr>lg_batch = b, lg_request = request, lg_reply = reply\<rparr>]\<rparr>
          in case reply of
            None \<Rightarrow> Inl (Panicked, st1)
          | Some answer \<Rightarrow>
              (case ex_offset env n of
                 Inl e \<Rightarrow> Inl (Aborted e, st1)
               | Inr k \<Rightarrow> handle_reply env n b repair answer (st1\<lparr>xs_unit := unit\<lparr>ju_attempt_count := k\<rparr>\<rparr>))))"

text \<open>
  Every step uses up a unit of credit: a batch that waits may be sent twice (once more to repair the
  answer), and each of the remaining fallbacks puts at most one more batch into the queue.
\<close>

definition pending_credit :: "(detection_batch \<times> bool) list \<Rightarrow> nat" where
  "pending_credit q = sum_list (map (\<lambda>(_, repair). if repair then 1 else 2) q)"

definition exec_credit :: "exec_state \<Rightarrow> nat" where
  "exec_credit st = 3 * (context_fallback_limit - xs_context_fallbacks st)
     + 3 * (output_fallback_limit - xs_output_fallbacks st) + pending_credit (xs_pending st)"

lemma pending_credit_simps [simp]:
  "pending_credit [] = 0"
  "pending_credit ((b, repair) # q) = (if repair then 1 else 2) + pending_credit q"
  "pending_credit (q @ r) = pending_credit q + pending_credit r"
  by (simp_all add: pending_credit_def)

lemma split_core_two: "split_core b m = Inr (Some cs) \<Longrightarrow> length cs \<le> 2"
  by (auto simp: split_core_def Let_def split: if_splits list.splits)

lemma split_for_retry_two:
  "split_for_context_retry b = Inr cs \<Longrightarrow> length cs \<le> 2"
  "split_for_output_retry b = Inr cs \<Longrightarrow> length cs \<le> 2"
  by (auto simp: split_for_context_retry_def split_for_output_retry_def Let_def
      split: sum.splits option.splits if_splits dest: split_core_two)

lemma pending_credit_children:
  "length cs \<le> 2 \<Longrightarrow> pending_credit (map (\<lambda>c. (c, repair)) cs) \<le> (if repair then 2 else 4)"
  by (auto simp: pending_credit_def comp_def map_replicate_const sum_list_replicate)

lemma rebatch_cases:
  assumes "rebatch env n counter count dispatch children repair st = Inr st'"
  shows "xs_pending st' = map (\<lambda>c. (c, repair)) children @ xs_pending st"
    and "xs_context_fallbacks st' = xs_context_fallbacks st" and "xs_output_fallbacks st' = xs_output_fallbacks st"
    and "xs_combined st' = xs_combined st" and "xs_completed st' = xs_completed st" and "xs_log st' = xs_log st"
  using assms by (auto simp: rebatch_def Let_def split: option.splits)

text \<open>How the loop goes on after an answer.\<close>

lemma handle_reply_cases:
  assumes "handle_reply env n b repair reply st = Inr st'"
  obtains (finished) r r' a where "reply = RetrySucceeded r a" and "rebase_detection_result r b = Inr r'"
      and "xs_pending st' = xs_pending st" and "xs_log st' = xs_log st"
      and "xs_combined st' = append_detection_result (xs_combined st) r' (xs_completed st > 0)"
      and "xs_completed st' = u64_saturating_add (xs_completed st) 1"
      and "xs_context_fallbacks st' = xs_context_fallbacks st" and "xs_output_fallbacks st' = xs_output_fallbacks st"
    | (too_large) c a cs where "reply = ProviderFailed PContextWindowExceeded c a"
      and "split_for_context_retry b = Inr cs" and "xs_context_fallbacks st < context_fallback_limit"
      and "xs_context_fallbacks st' = xs_context_fallbacks st + 1" and "xs_output_fallbacks st' = xs_output_fallbacks st"
      and "xs_pending st' = map (\<lambda>c. (c, repair)) cs @ xs_pending st" and "xs_log st' = xs_log st"
      and "xs_combined st' = xs_combined st" and "xs_completed st' = xs_completed st"
    | (truncated) c a cs where "reply = ProviderFailed POutputTruncated c a"
      and "split_for_output_retry b = Inr cs" and "xs_output_fallbacks st < output_fallback_limit"
      and "xs_output_fallbacks st' = xs_output_fallbacks st + 1" and "xs_context_fallbacks st' = xs_context_fallbacks st"
      and "xs_pending st' = map (\<lambda>c. (c, repair)) cs @ xs_pending st" and "xs_log st' = xs_log st"
      and "xs_combined st' = xs_combined st" and "xs_completed st' = xs_completed st"
    | (repair) m c a where "reply = ProviderFailed (PInvalidResponse m) c a" and "\<not> repair"
      and "xs_pending st' = (b, True) # xs_pending st" and "xs_log st' = xs_log st"
      and "xs_context_fallbacks st' = xs_context_fallbacks st" and "xs_output_fallbacks st' = xs_output_fallbacks st"
      and "xs_combined st' = xs_combined st" and "xs_completed st' = xs_completed st"
proof (cases reply)
  case (RetrySucceeded r a)
  with assms finished show thesis by (auto simp: handle_reply_def split: sum.splits)
next
  case (ProviderFailed e c a)
  show thesis
  proof (cases e)
    case PContextWindowExceeded
    with ProviderFailed assms obtain cs where cs: "split_for_context_retry b = Inr cs"
      and lim: "u64_saturating_add (xs_context_fallbacks st) 1 \<le> context_fallback_limit"
      and re: "rebatch env n ''contextFallbackCount'' (u64_saturating_add (xs_context_fallbacks st) 1) ''context_rebatch''
        cs repair (st\<lparr>xs_context_fallbacks := u64_saturating_add (xs_context_fallbacks st) 1\<rparr>) = Inr st'"
      by (auto simp: handle_reply_def Let_def split: sum.splits if_splits)
    from lim have "xs_context_fallbacks st < context_fallback_limit"
      "u64_saturating_add (xs_context_fallbacks st) 1 = xs_context_fallbacks st + 1"
      by (auto simp: u64_saturating_add_def context_fallback_limit_def u64_max_def split: if_splits)
    with cs rebatch_cases [OF re] ProviderFailed PContextWindowExceeded too_large show thesis by simp
  next
    case POutputTruncated
    with ProviderFailed assms obtain cs where cs: "split_for_output_retry b = Inr cs"
      and lim: "u64_saturating_add (xs_output_fallbacks st) 1 \<le> output_fallback_limit"
      and re: "rebatch env n ''outputFallbackCount'' (u64_saturating_add (xs_output_fallbacks st) 1) ''output_rebatch''
        cs repair (st\<lparr>xs_output_fallbacks := u64_saturating_add (xs_output_fallbacks st) 1\<rparr>) = Inr st'"
      by (auto simp: handle_reply_def Let_def split: sum.splits if_splits)
    from lim have "xs_output_fallbacks st < output_fallback_limit"
      "u64_saturating_add (xs_output_fallbacks st) 1 = xs_output_fallbacks st + 1"
      by (auto simp: u64_saturating_add_def output_fallback_limit_def u64_max_def split: if_splits)
    with cs rebatch_cases [OF re] ProviderFailed POutputTruncated truncated show thesis by simp
  next
    case (PInvalidResponse m)
    with ProviderFailed assms repair show thesis
      by (auto simp: handle_reply_def Let_def split: option.splits if_splits)
  qed (use ProviderFailed assms in \<open>auto simp: handle_reply_def split: sum.splits option.splits if_splits\<close>)
qed (use assms in \<open>simp add: handle_reply_def\<close>)

lemma exec_step_cases:
  assumes "exec_step env cfg b repair st = Inr st'"
  obtains answer k unit where "fst (execute_with_retry (ex_policy env)
        (ex_attempts env (length (xs_log st)) (detection_request_for env cfg (length (xs_log st)) b repair))) = Some answer"
    and "handle_reply env (length (xs_log st)) b repair answer
      (st\<lparr>xs_log := xs_log st @ [\<lparr>lg_batch = b,
            lg_request = detection_request_for env cfg (length (xs_log st)) b repair, lg_reply = Some answer\<rparr>],
          xs_unit := unit\<lparr>ju_attempt_count := k\<rparr>\<rparr>) = Inr st'"
  using assms by (auto simp: exec_step_def Let_def split: option.splits sum.splits)

lemma exec_step_credit:
  assumes "exec_step env cfg b repair (st\<lparr>xs_pending := q\<rparr>) = Inr st'" and "xs_pending st = (b, repair) # q"
  shows "exec_credit st' < exec_credit st"
  using assms(1)
proof (cases rule: exec_step_cases)
  case (1 answer k unit)
  from 1(2) show ?thesis
  proof (cases rule: handle_reply_cases)
    case finished
    with assms(2) show ?thesis by (simp add: exec_credit_def)
  next
    case (too_large c a cs)
    have "pending_credit (map (\<lambda>c. (c, repair)) cs) \<le> (if repair then 2 else 4)"
      using split_for_retry_two(1) [OF too_large(2)] by (rule pending_credit_children)
    with too_large assms(2) show ?thesis by (auto simp: exec_credit_def split: if_splits)
  next
    case (truncated c a cs)
    have "pending_credit (map (\<lambda>c. (c, repair)) cs) \<le> (if repair then 2 else 4)"
      using split_for_retry_two(2) [OF truncated(2)] by (rule pending_credit_children)
    with truncated assms(2) show ?thesis by (auto simp: exec_credit_def split: if_splits)
  next
    case repair
    with assms(2) show ?thesis by (simp add: exec_credit_def)
  qed
qed

function exec_loop :: "exec_env \<Rightarrow> detection_config \<Rightarrow> exec_state \<Rightarrow> exec_end \<times> exec_state" where
  "exec_loop env cfg st = (case xs_pending st of
     [] \<Rightarrow> (Finished (xs_combined st), st)
   | (b, repair) # q \<Rightarrow>
       (case exec_step env cfg b repair (st\<lparr>xs_pending := q\<rparr>) of
          Inl stop \<Rightarrow> stop
        | Inr st' \<Rightarrow> exec_loop env cfg st'))"
  by pat_completeness auto
termination
  by (relation "measure (\<lambda>(_, _, st). exec_credit st)") (auto dest: exec_step_credit)

declare exec_loop.simps [simp del]

definition exec_start :: "detection_batch \<Rightarrow> job_unit \<Rightarrow> exec_state" where
  "exec_start b unit = \<lparr>xs_pending = [(b, payload_flag unit ''needsRepair'')],
     xs_context_fallbacks = payload_count unit ''contextFallbackCount'',
     xs_output_fallbacks = payload_count unit ''outputFallbackCount'',
     xs_combined = \<lparr>dr_characters = [], dr_dialogue = [], dr_usage = no_usage\<rparr>,
     xs_completed = 0, xs_unit = unit, xs_log = []\<rparr>"

definition execute_detection_batch ::
  "exec_env \<Rightarrow> detection_config \<Rightarrow> detection_batch \<Rightarrow> job_unit \<Rightarrow> exec_end \<times> exec_state" where
  "execute_detection_batch env cfg b unit = exec_loop env cfg (exec_start b unit)"

end
