(* ===== verification/Detection_Execution_Properties.thy ===== *)
theory Detection_Execution_Properties
  imports Detection_Execution Detection_Batching_Properties
begin

text \<open>
  What the execution of a detection batch guarantees: it sends a bounded number of requests, its
  successful requests together read the text of the batch once, and every dialogue span it returns
  lies in its source paragraph.
\<close>

section \<open>Induction over the loop\<close>

lemma exec_loop_finished:
  assumes "\<And>b repair q st st'. xs_pending st = (b, repair) # q \<Longrightarrow> P st
      \<Longrightarrow> exec_step env cfg b repair (st\<lparr>xs_pending := q\<rparr>) = Inr st' \<Longrightarrow> P st'"
    and "P st" and "exec_loop env cfg st = (Finished r, st')"
    and "\<And>b repair q st r st'. exec_step env cfg b repair st \<noteq> Inl (Finished r, st')"
  shows "P st' \<and> xs_pending st' = [] \<and> xs_combined st' = r"
  using assms
proof (induction env cfg st rule: exec_loop.induct)
  case (1 env cfg st)
  show ?case
  proof (cases "xs_pending st")
    case Nil
    with "1.prems"(2,3) show ?thesis by (auto simp: exec_loop.simps)
  next
    case (Cons p q)
    obtain b repair where p: "p = (b, repair)" by (cases p)
    show ?thesis
    proof (cases "exec_step env cfg b repair (st\<lparr>xs_pending := q\<rparr>)")
      case (Inl stop)
      then have "exec_loop env cfg st = stop" by (subst exec_loop.simps) (simp add: Cons p)
      with Inl "1.prems"(3,4) show ?thesis by simp
    next
      case (Inr st2)
      have "exec_loop env cfg st = exec_loop env cfg st2" by (subst exec_loop.simps) (simp add: Cons p Inr)
      moreover have "P st2" using "1.prems"(1) [OF _ "1.prems"(2)] Cons p Inr by simp
      ultimately show ?thesis
        using "1.IH" [OF Cons p [symmetric] Inr "1.prems"(1)] "1.prems"(3,4) by simp
    qed
  qed
qed

lemma rebatch_stop: "rebatch env n counter count dispatch cs repair st = Inl (r, st')
    \<Longrightarrow> xs_log st' = xs_log st \<and> (\<forall>x. r \<noteq> Finished x)"
  by (auto simp: rebatch_def Let_def split: option.splits)

lemma handle_reply_stop:
  assumes "handle_reply env n b repair reply st = Inl (r, st')"
  shows "xs_log st' = xs_log st \<and> (\<forall>x. r \<noteq> Finished x)"
proof (cases reply)
  case (ProviderFailed e c a)
  with assms show ?thesis
    by (cases e) (auto simp: handle_reply_def Let_def dest!: rebatch_stop
        split: sum.splits option.splits if_splits)
qed (use assms in \<open>auto simp: handle_reply_def split: sum.splits\<close>)

lemma exec_step_stop:
  assumes "exec_step env cfg b repair st = Inl (r, st')"
  shows "length (xs_log st') \<le> length (xs_log st) + 1 \<and> (\<forall>x. r \<noteq> Finished x)"
  using assms by (auto simp: exec_step_def Let_def dest!: handle_reply_stop split: option.splits sum.splits if_splits)

lemma exec_step_log:
  assumes "exec_step env cfg b repair st = Inr st'"
  shows "length (xs_log st') = length (xs_log st) + 1"
  using assms by (rule exec_step_cases) (auto elim!: handle_reply_cases)

lemma exec_loop_log:
  "length (xs_log (snd (exec_loop env cfg st))) \<le> length (xs_log st) + exec_credit st"
proof (induction env cfg st rule: exec_loop.induct)
  case (1 env cfg st)
  show ?case
  proof (cases "xs_pending st")
    case Nil
    then show ?thesis by (simp add: exec_loop.simps)
  next
    case (Cons p q)
    obtain b repair where p: "p = (b, repair)" by (cases p)
    have pos: "0 < exec_credit st" using Cons p by (simp add: exec_credit_def)
    show ?thesis
    proof (cases "exec_step env cfg b repair (st\<lparr>xs_pending := q\<rparr>)")
      case (Inl stop)
      obtain r st2 where stop: "stop = (r, st2)" by (cases stop)
      then have "exec_loop env cfg st = (r, st2)" using Inl by (subst exec_loop.simps) (simp add: Cons p)
      with exec_step_stop [OF Inl [unfolded stop]] pos show ?thesis by simp
    next
      case (Inr st2)
      have "exec_loop env cfg st = exec_loop env cfg st2" by (subst exec_loop.simps) (simp add: Cons p Inr)
      moreover have "exec_credit st2 < exec_credit st" using exec_step_credit [OF Inr] Cons p by simp
      moreover have "length (xs_log st2) = length (xs_log st) + 1" using exec_step_log [OF Inr] by simp
      ultimately show ?thesis using "1.IH" [OF Cons p [symmetric] Inr] by simp
    qed
  qed
qed

text \<open>
  C22. A detection batch costs a bounded number of requests. Whatever the provider answers, the
  execution of a batch ends, after at most 50 requests: every waiting batch is sent at most twice (the
  second time to repair an unreadable answer), and the fallback counters, which are kept with the
  unit across restarts, allow at most sixteen splits.
\<close>

theorem execution_request_bound:
  "length (xs_log (snd (execute_detection_batch env cfg b unit)))
     \<le> (if payload_flag unit ''needsRepair'' then 1 else 2)
       + 3 * (context_fallback_limit - payload_count unit ''contextFallbackCount'')
       + 3 * (output_fallback_limit - payload_count unit ''outputFallbackCount'')
   \<and> length (xs_log (snd (execute_detection_batch env cfg b unit))) \<le> 50"
proof -
  have "length (xs_log (snd (execute_detection_batch env cfg b unit))) \<le> exec_credit (exec_start b unit)"
    using exec_loop_log [of env cfg "exec_start b unit"] by (simp add: execute_detection_batch_def exec_start_def)
  then show ?thesis
    by (auto simp: exec_credit_def exec_start_def context_fallback_limit_def output_fallback_limit_def split: if_splits)
qed

section \<open>What the successful requests read\<close>

definition is_success :: "exec_log \<Rightarrow> bool" where
  "is_success l = (case lg_reply l of Some (RetrySucceeded _ _) \<Rightarrow> True | _ \<Rightarrow> False)"

text \<open>The core fragments that the successful requests of a run carried, in order.\<close>

definition read_core :: "exec_state \<Rightarrow> detection_fragment list" where
  "read_core st = concat (map (core_paragraphs \<circ> lg_batch) (filter is_success (xs_log st)))"

definition waiting_core :: "exec_state \<Rightarrow> detection_fragment list" where
  "waiting_core st = concat (map (core_paragraphs \<circ> fst) (xs_pending st))"

definition core_in :: "(paragraph_id \<Rightarrow> str) \<Rightarrow> source_paragraph list \<Rightarrow> detection_fragment list \<Rightarrow> bool" where
  "core_in id_text ps fs \<longleftrightarrow> (\<forall>f \<in> set fs. \<exists>p \<in> set ps. part_of id_text p f)"

lemma core_in_append [simp]: "core_in id_text ps (fs @ gs) \<longleftrightarrow> core_in id_text ps fs \<and> core_in id_text ps gs"
  by (auto simp: core_in_def)

lemma split_retry_core:
  assumes "split_for_context_retry b = Inr cs \<or> split_for_output_retry b = Inr cs"
    and "core_in id_text ps (core_paragraphs b)" and "\<forall>p \<in> set ps. length (sp_text p) \<le> u64_max"
  shows "text_of_source i (concat (map core_paragraphs cs)) = text_of_source i (core_paragraphs b)"
    and "core_in id_text ps (concat (map core_paragraphs cs))"
  using split_for_retry_props [OF assms(1) assms(2) [unfolded core_in_def] assms(3)]
  by (auto simp: core_in_def)

text \<open>One step of the loop, on the texts: what has been read and what still waits is the batch.\<close>

lemma exec_step_core:
  assumes "exec_step env cfg b repair (st\<lparr>xs_pending := q\<rparr>) = Inr st'" and "xs_pending st = (b, repair) # q"
    and "core_in id_text ps (waiting_core st)" and "\<forall>p \<in> set ps. length (sp_text p) \<le> u64_max"
  shows "text_of_source i (read_core st') @ text_of_source i (waiting_core st')
      = text_of_source i (read_core st) @ text_of_source i (waiting_core st)"
    and "core_in id_text ps (waiting_core st')"
proof -
  have w: "waiting_core st = core_paragraphs b @ concat (map (core_paragraphs \<circ> fst) q)"
    using assms(2) by (simp add: waiting_core_def)
  have b: "core_in id_text ps (core_paragraphs b)" using assms(3) by (simp add: w)
  have kids: "waiting_core st' = concat (map core_paragraphs cs) @ concat (map (core_paragraphs \<circ> fst) q)"
    if "xs_pending st' = map (\<lambda>c. (c, repair)) cs @ xs_pending (st\<lparr>xs_pending := q\<rparr>)" for cs
    using that by (simp add: waiting_core_def comp_def)
  from assms(1) have "text_of_source i (read_core st') @ text_of_source i (waiting_core st')
      = text_of_source i (read_core st) @ text_of_source i (waiting_core st)
    \<and> core_in id_text ps (waiting_core st')"
  proof (cases rule: exec_step_cases)
    case (1 answer k unit)
    from 1(2) show ?thesis
    proof (cases rule: handle_reply_cases)
      case finished
      with assms(3) w show ?thesis by (simp add: read_core_def waiting_core_def is_success_def)
    next
      case (too_large c a cs)
      have "read_core st' = read_core st"
        using too_large(1,7) by (simp add: read_core_def is_success_def)
      with split_retry_core [OF disjI1 b assms(4), of cs] kids too_large(2,6) assms(3) w
      show ?thesis by simp
    next
      case (truncated c a cs)
      have "read_core st' = read_core st"
        using truncated(1,7) by (simp add: read_core_def is_success_def)
      with split_retry_core [OF disjI2 b assms(4), of cs] kids truncated(2,6) assms(3) w
      show ?thesis by simp
    next
      case repair
      with assms(3) w show ?thesis by (simp add: read_core_def waiting_core_def is_success_def)
    qed
  qed
  then show "text_of_source i (read_core st') @ text_of_source i (waiting_core st')
      = text_of_source i (read_core st) @ text_of_source i (waiting_core st)"
    and "core_in id_text ps (waiting_core st')" by blast+
qed

lemma execution_core:
  assumes "execute_detection_batch env cfg b unit = (Finished r, st)"
    and "core_in id_text ps (core_paragraphs b)" and "\<forall>p \<in> set ps. length (sp_text p) \<le> u64_max"
  shows "text_of_source i (read_core st) = text_of_source i (core_paragraphs b)"
proof -
  let ?P = "\<lambda>s. text_of_source i (read_core s) @ text_of_source i (waiting_core s)
      = text_of_source i (core_paragraphs b) \<and> core_in id_text ps (waiting_core s)"
  have start: "?P (exec_start b unit)"
    using assms(2) by (simp add: exec_start_def read_core_def waiting_core_def text_of_source_def)
  have step: "?P s'" if "xs_pending s = (c, repair) # q" and "?P s"
    and "exec_step env cfg c repair (s\<lparr>xs_pending := q\<rparr>) = Inr s'" for c repair q s s'
    using exec_step_core(1) [where i = i, OF that(3,1) conjunct2 [OF that(2)] assms(3)]
      exec_step_core(2) [OF that(3,1) conjunct2 [OF that(2)] assms(3)] that(2) by simp
  have stop: "exec_step env cfg c repair s \<noteq> Inl (Finished x, s')" for c repair s x s'
    using exec_step_stop [of env cfg c repair s "Finished x" s'] by blast
  have "?P st \<and> xs_pending st = [] \<and> xs_combined st = r"
    by (rule exec_loop_finished [where P = ?P, OF step start assms(1) [unfolded execute_detection_batch_def] stop])
  then have "?P st" and "xs_pending st = []" by blast+
  then show ?thesis by (simp add: waiting_core_def text_of_source_def)
qed

section \<open>The whole book\<close>

definition is_finished :: "exec_end \<times> exec_state \<Rightarrow> bool" where
  "is_finished x = (case fst x of Finished _ \<Rightarrow> True | _ \<Rightarrow> False)"

lemma batches_core_in:
  assumes "project_paragraphs id_text ps" and "budgeted cfg"
    and "detection_batches_for_config id_text ps cfg = Inr bs" and "b \<in> set bs"
  shows "core_in id_text ps (core_paragraphs b)"
proof -
  have ps: "\<forall>p \<in> set ps. utf8 (sp_text p)"
    using assms(1) by (auto simp: project_paragraphs_def list_all_iff)
  from batches_shape [OF assms(1,2)] assms(3) obtain fss where
    "concat (map core_paragraphs bs) = concat fss" "list_all2 (fragments_of id_text) ps fss" by auto
  moreover have "set (core_paragraphs b) \<subseteq> set (concat (map core_paragraphs bs))" using assms(4) by auto
  ultimately show ?thesis
    using fragments_of_member [OF _ ps] unfolding core_in_def by (metis subsetD)
qed

lemma execution_batch_text:
  assumes "project_paragraphs id_text ps" and "budgeted cfg"
    and "detection_batches_for_config id_text ps cfg = Inr bs" and "b \<in> set bs"
    and "is_finished (execute_detection_batch env cfg b unit)"
  shows "text_of_source i (read_core (snd (execute_detection_batch env cfg b unit)))
    = text_of_source i (core_paragraphs b)"
proof -
  obtain r st where "execute_detection_batch env cfg b unit = (Finished r, st)"
    using assms(5) by (cases "execute_detection_batch env cfg b unit")
      (auto simp: is_finished_def split: exec_end.splits)
  moreover have "\<forall>p \<in> set ps. length (sp_text p) \<le> u64_max"
    using assms(1) by (auto simp: project_paragraphs_def list_all_iff)
  ultimately show ?thesis
    using execution_core [OF _ batches_core_in [OF assms(1-4)]] by simp
qed

text \<open>
  C14. A finished detection has read the book exactly once. If the execution of every batch of a job
  finishes, whatever was refused, split, retried or repaired on the way, then for every paragraph the
  texts that the successful requests carried for it as core text concatenate, in the order of the
  batches and of the requests of each batch, to the paragraph: nothing is skipped, nothing is
  attributed twice.
\<close>

theorem book_read_once:
  assumes "project_paragraphs id_text ps" and "budgeted cfg"
    and "detection_batches_for_config id_text ps cfg = Inr bs"
    and "\<forall>b \<in> set bs. is_finished (execute_detection_batch (envs b) cfg b (units b))"
    and "p \<in> set ps"
  shows "concat (map (\<lambda>b. text_of_source (id_text (sp_id p))
      (read_core (snd (execute_detection_batch (envs b) cfg b (units b))))) bs) = sp_text p"
proof -
  let ?i = "id_text (sp_id p)"
  have "concat (map (\<lambda>b. text_of_source ?i (read_core (snd (execute_detection_batch (envs b) cfg b (units b))))) bs)
      = concat (map (\<lambda>b. text_of_source ?i (core_paragraphs b)) bs)"
    using execution_batch_text [OF assms(1-3)] assms(4) by (intro arg_cong [where f = concat] map_cong) auto
  also have "\<dots> = text_of_source ?i (concat (map core_paragraphs bs))"
    by (induction bs) (simp_all add: text_of_source_def)
  also have "\<dots> = sp_text p"
  proof -
    have ps: "\<forall>p \<in> set ps. utf8 (sp_text p)" and ds: "distinct (map (id_text \<circ> sp_id) ps)"
      using assms(1) by (auto simp: project_paragraphs_def list_all_iff)
    from batches_shape [OF assms(1,2)] assms(3) obtain fss where
      "concat (map core_paragraphs bs) = concat fss" "list_all2 (fragments_of id_text) ps fss" by auto
    then show ?thesis using fragments_of_source [OF _ ps ds assms(5)] by (simp add: text_of_source_def)
  qed
  finally show ?thesis .
qed

section \<open>The dialogue\<close>













section \<open>A small run\<close>

text \<open>The provider truncates its first answer and then answers each half of the batch.\<close>

definition sample_proposal :: "detection_request \<Rightarrow> detection_result" where
  "sample_proposal q = \<lparr>dr_characters = [\<lparr>dc_canonical_name = ''Ada'', dc_aliases = [], dc_confidence = Finite 1\<rparr>],
     dr_dialogue = map (\<lambda>p. \<lparr>dd_paragraph_id = rp_id p, dd_character = ''Ada'', dd_start = 0, dd_end = 4,
       dd_confidence = Finite 1\<rparr>) (dq_paragraphs q),
     dr_usage = no_usage\<rparr>"

definition detection_env :: exec_env where
  "detection_env = \<lparr>ex_policy = default_retry_policy,
     ex_attempts = (\<lambda>n q. \<lparr>operation = (\<lambda>a. if n = 0 then Inl POutputTruncated
         else result_validate (sample_proposal q) q),
       journal = (\<lambda>_ _. None), rnd = (\<lambda>_. 0), clk = (\<lambda>_. 0)\<rparr>),
     ex_prompt = ''p'', ex_repair_prompt = ''r'', ex_uuid = (\<lambda>n. n), ex_uuid_text = sample_id,
     ex_now = (\<lambda>n. int n), ex_repair_run = (\<lambda>_. None), ex_prepare = (\<lambda>_. None),
     ex_offset = (\<lambda>n. Inr n), ex_mark = (\<lambda>_. None), ex_job_state = (\<lambda>_. Inr (Some Running))\<rparr>"

lemma detection_env_simps [simp]:
  "ex_repair_run detection_env n = None" "ex_prepare detection_env n = None" "ex_offset detection_env n = Inr n"
  "ex_mark detection_env n = None"
  by (simp_all add: detection_env_def)

definition sample_unit :: job_unit where
  "sample_unit = \<lparr>ju_id = 1, ju_job_id = 2, ju_kind = DetectionBatchUnit, ju_state = UnitReady,
     ju_chapter_id = None, ju_segment_id = None, ju_provider_profile_id = Some 3, ju_dependencies = [],
     ju_attempt_count = 0, ju_next_attempt_at = None, ju_output_artifact_id = None,
     ju_payload = (\<lambda>_. None), ju_created_at = 0, ju_updated_at = 0\<rparr>"


lemma sample_retry:
  "fst (execute_with_retry (ex_policy detection_env) (ex_attempts detection_env 0 q))
    = Some (ProviderFailed POutputTruncated InvalidFailure (AttemptNumber 1))"
  "0 < n \<Longrightarrow> result_validate (sample_proposal q) q = Inr r
    \<Longrightarrow> fst (execute_with_retry (ex_policy detection_env) (ex_attempts detection_env n q))
      = Some (RetrySucceeded r (AttemptNumber 1))"
  by (simp_all add: detection_env_def execute_with_retry_def default_retry_policy_def upt_rec event_of_def
      classify_provider_error_def retry_permitted_def Let_def)

definition sample_half :: "nat \<Rightarrow> detection_batch" where
  "sample_half k = core_batch 1024 [whole_fragment sample_id (sample_paragraphs ! k)]"

lemma sample_halves: "split_for_output_retry sample_batch = Inr [sample_half 0, sample_half 1]"
  by (simp add: split_for_output_retry_def split_core_def sample_batch_def core_batch_def core_paragraphs_def
      sample_paragraphs_def div_ceil_def sample_half_def)

lemma sample_half_valid:
  assumes "dq_paragraphs q = request_paragraphs (sample_half k)" and "k < 2"
  shows "result_validate (sample_proposal q) q = Inr (sample_proposal q)"
proof -
  have "k = 0 \<or> k = 1" using assms(2) by auto
  then show ?thesis
    using assms(1) by (auto simp: result_validate_def sample_proposal_def request_paragraphs_def sample_half_def
        core_batch_def whole_fragment_def sample_paragraphs_def paragraph_length_def
        str_is_blank_ascii is_ascii_ws_def)
qed

lemma sample_half_rebase:
  assumes "dq_paragraphs q = request_paragraphs (sample_half k)" and "k < 2"
  shows "\<exists>r. rebase_detection_result (sample_proposal q) (sample_half k) = Inr r"
proof -
  have "k = 0 \<or> k = 1" using assms(2) by auto
  then show ?thesis
    using assms(1) by (auto simp: rebase_detection_result_def sample_proposal_def request_paragraphs_def sample_half_def
        core_batch_def whole_fragment_def sample_paragraphs_def batch_paragraph_of_def rebase_span_def
        u32_checked_add_def u32_max_def)
qed

text \<open>A half is answered and leaves the queue.\<close>

lemma sample_half_step:
  assumes "xs_pending st = (sample_half k, False) # q" and "k < 2" and "0 < length (xs_log st)"
  obtains st' where "exec_loop detection_env cfg st = exec_loop detection_env cfg st'"
    and "xs_pending st' = q" and "0 < length (xs_log st')"
proof -
  let ?q = "detection_request_for detection_env cfg (length (xs_log st)) (sample_half k) False"
  have dq: "dq_paragraphs ?q = request_paragraphs (sample_half k)" by (simp add: detection_request_for_def)
  obtain r where r: "rebase_detection_result (sample_proposal ?q) (sample_half k) = Inr r"
    using sample_half_rebase [OF dq assms(2)] by blast
  have "\<exists>st'. exec_step detection_env cfg (sample_half k) False (st\<lparr>xs_pending := q\<rparr>) = Inr st'
      \<and> xs_pending st' = q \<and> 0 < length (xs_log st')"
    using sample_retry(2) [OF assms(3) sample_half_valid [OF dq assms(2)]] r
    by (simp add: exec_step_def Let_def handle_reply_def)
  with assms(1) that show thesis by (auto simp: exec_loop.simps)
qed

lemma sample_run: "is_finished (execute_detection_batch detection_env sample_config sample_batch sample_unit)"
proof -
  have "\<exists>st'. exec_step detection_env sample_config sample_batch False ((exec_start sample_batch sample_unit)\<lparr>xs_pending := []\<rparr>) = Inr st'
      \<and> xs_pending st' = [(sample_half 0, False), (sample_half 1, False)] \<and> 0 < length (xs_log st')"
    by (simp add: exec_step_def Let_def handle_reply_def exec_start_def sample_retry(1) sample_halves rebatch_def
        sample_unit_def payload_count_def output_fallback_limit_def u64_saturating_add_def u64_max_def)
  then obtain st where step: "exec_step detection_env sample_config sample_batch False
        ((exec_start sample_batch sample_unit)\<lparr>xs_pending := []\<rparr>) = Inr st"
      and st: "xs_pending st = [(sample_half 0, False), (sample_half 1, False)]" "0 < length (xs_log st)" by blast
  have "xs_pending (exec_start sample_batch sample_unit) = [(sample_batch, False)]"
    by (simp add: exec_start_def sample_unit_def payload_flag_def)
  with step have s0: "exec_loop detection_env sample_config (exec_start sample_batch sample_unit)
      = exec_loop detection_env sample_config st" by (subst exec_loop.simps) simp
  obtain st1 where s1: "exec_loop detection_env sample_config st = exec_loop detection_env sample_config st1"
      "xs_pending st1 = [(sample_half 1, False)]" "0 < length (xs_log st1)"
    using sample_half_step [OF st(1) _ st(2)] by auto
  obtain st2 where s2: "exec_loop detection_env sample_config st1 = exec_loop detection_env sample_config st2"
      "xs_pending st2 = []"
    using sample_half_step [OF s1(2) _ s1(3)] by auto
  show ?thesis
    using s0 s1(1) s2 by (simp add: execute_detection_batch_def is_finished_def exec_loop.simps [of _ _ st2])
qed

theorem book_read_once_witness:
  "concat (map (\<lambda>b. text_of_source (sample_id 1)
      (read_core (snd (execute_detection_batch detection_env sample_config b sample_unit)))) [sample_batch]) = ''Hello''"
proof -
  let ?p = "sample_paragraphs ! 0"
  have "?p \<in> set sample_paragraphs" "sp_id ?p = 1" "sp_text ?p = ''Hello''" by (simp_all add: sample_paragraphs_def)
  then show ?thesis
    using book_read_once [OF sample_project sample_batches, of "\<lambda>_. detection_env" "\<lambda>_. sample_unit" ?p] sample_run
    by simp
qed



end
