(* ===== verification/Detection_Recovery.thy ===== *)
theory Detection_Recovery
  imports Detection_Execution
begin

text \<open>
  The durable trail of a detection unit and what a restart makes of it: the journal of
  crates/service/src/workflows/execution.rs writes the unit's row and one row per attempt around
  every request, and crates/service/src/workflows/recovery.rs decides from these rows whether the
  unit may be sent again. A crash may fall between any two writes. The JSON decoding of a persisted
  result is the parameter \<open>decode\<close>.
\<close>

section \<open>Rows\<close>

record unit_rows =
  ur_unit :: job_unit
  ur_attempts :: "job_attempt list"

text \<open>\<open>SELECT MAX(ordinal)\<close>, 0 without rows, as a \<open>u16\<close>.\<close>

definition max_ordinal :: "job_attempt list \<Rightarrow> nat" where
  "max_ordinal as = fold (\<lambda>a m. max (ja_ordinal a) m) as 0"

definition durable_attempt_offset :: "unit_rows \<Rightarrow> service_error + u16" where
  "durable_attempt_offset r =
     (if max_ordinal (ur_attempts r) \<le> u16_max then Inr (max_ordinal (ur_attempts r))
      else Inl (conflict ''detection attempt count is out of range''))"

text \<open>\<open>ORDER BY ordinal DESC LIMIT 1\<close>.\<close>

definition later_attempt :: "job_attempt \<Rightarrow> job_attempt option \<Rightarrow> job_attempt option" where
  "later_attempt a best = (case best of
     None \<Rightarrow> Some a
   | Some b \<Rightarrow> if ja_ordinal a > ja_ordinal b then Some a else Some b)"

definition latest_detection_attempt :: "unit_rows \<Rightarrow> job_attempt option" where
  "latest_detection_attempt r = fold later_attempt (ur_attempts r) None"

definition attempt_at :: "unit_rows \<Rightarrow> u16 \<Rightarrow> job_attempt option" where
  "attempt_at r k = find (\<lambda>a. ja_ordinal a = k) (ur_attempts r)"

section \<open>The journal\<close>

definition journal_ordinal :: "u16 \<Rightarrow> attempt_number \<Rightarrow> str + u16" where
  "journal_ordinal offset a =
     (if offset + attempt_get a \<le> u16_max then Inr (offset + attempt_get a)
      else Inl ''detection attempt count overflow'')"

fun core_failure_class :: "retry_class \<Rightarrow> failure_class" where
  "core_failure_class TransientFailure = Transport"
| "core_failure_class RateLimitedFailure = RateLimit"
| "core_failure_class AuthenticationFailure = Authentication"
| "core_failure_class InvalidFailure = ValidationFailure"
| "core_failure_class PermanentFailure = ValidationFailure"
| "core_failure_class UncertainChargeFailure = TimeoutAfterDispatch"
| "core_failure_class CancelledRun = CancelledFailure"

fun retry_class_code :: "retry_class \<Rightarrow> str" where
  "retry_class_code TransientFailure = ''transient''"
| "retry_class_code RateLimitedFailure = ''ratelimited''"
| "retry_class_code AuthenticationFailure = ''authentication''"
| "retry_class_code InvalidFailure = ''validation''"
| "retry_class_code PermanentFailure = ''permanent''"
| "retry_class_code UncertainChargeFailure = ''uncertaincharge''"
| "retry_class_code CancelledRun = ''cancelled''"

text \<open>The two writes of \<open>record_dispatch_started\<close>, before the request leaves.\<close>

definition dispatch_unit :: "time \<Rightarrow> u16 \<Rightarrow> str \<Rightarrow> unit_rows \<Rightarrow> unit_rows" where
  "dispatch_unit now ordinal request_id r =
     r\<lparr>ur_unit := set_payload ''requestId'' (Some (JStr request_id))
       (set_dispatch_state ''dispatched''
         ((ur_unit r)\<lparr>ju_attempt_count := max (ju_attempt_count (ur_unit r)) ordinal,
            ju_next_attempt_at := None, ju_state := UnitRunning, ju_updated_at := now\<rparr>))\<rparr>"

definition dispatch_attempt :: "bool \<Rightarrow> time \<Rightarrow> attempt_id \<Rightarrow> u16 \<Rightarrow> str \<Rightarrow> unit_rows \<Rightarrow> job_attempt" where
  "dispatch_attempt non_billable now i ordinal request_id r =
     \<lparr>ja_id = i, ja_job_unit_id = ju_id (ur_unit r), ja_ordinal = ordinal, ja_started_at = now,
      ja_finished_at = None, ja_failure_class = None, ja_error_code = None, ja_redacted_error = None,
      ja_provider_request_id = Some request_id, ja_uncertain_charge = (\<not> non_billable)\<rparr>"

definition insert_attempt_row :: "job_attempt \<Rightarrow> unit_rows \<Rightarrow> unit_rows option" where
  "insert_attempt_row a r =
     (if attempt_at r (ja_ordinal a) = None then Some (r\<lparr>ur_attempts := ur_attempts r @ [a]\<rparr>) else None)"

text \<open>The two writes of \<open>RetryJournal::record\<close>, after the outcome of an attempt is known.\<close>

definition settled_attempt :: "retry_event_outcome \<Rightarrow> time \<Rightarrow> job_attempt \<Rightarrow> job_attempt" where
  "settled_attempt outcome recorded_at a = (case outcome of
     AttemptSucceeded \<Rightarrow> a\<lparr>ja_finished_at := Some recorded_at, ja_failure_class := None,
       ja_error_code := None, ja_redacted_error := None, ja_uncertain_charge := False\<rparr>
   | AttemptFailed c _ _ \<Rightarrow> a\<lparr>ja_finished_at := Some recorded_at,
       ja_failure_class := Some (core_failure_class c), ja_error_code := Some (retry_class_code c),
       ja_redacted_error := Some ''provider request failed; sensitive details were redacted'',
       ja_uncertain_charge := (c = UncertainChargeFailure)\<rparr>)"

definition dispatch_state_after :: "retry_event_outcome \<Rightarrow> bool \<Rightarrow> str" where
  "dispatch_state_after outcome dispatch_was_recorded = (case outcome of
     AttemptSucceeded \<Rightarrow> ''response_received''
   | AttemptFailed c will_retry _ \<Rightarrow>
       (if \<not> dispatch_was_recorded \<and> c = CancelledRun then ''cancelled_before_dispatch''
        else if will_retry then ''retry_wait'' else ''failed_response''))"

fun outcome_retry_after :: "retry_event_outcome \<Rightarrow> duration option" where
  "outcome_retry_after AttemptSucceeded = None"
| "outcome_retry_after (AttemptFailed _ _ d) = d"

definition record_attempt :: "retry_event_outcome \<Rightarrow> time \<Rightarrow> attempt_id \<Rightarrow> u16 \<Rightarrow> unit_rows \<Rightarrow> unit_rows option" where
  "record_attempt outcome recorded_at i ordinal r = (case attempt_at r ordinal of
     Some a \<Rightarrow> Some (r\<lparr>ur_attempts := map (\<lambda>b. if ja_ordinal b = ordinal
         then settled_attempt outcome recorded_at a else b) (ur_attempts r)\<rparr>)
   | None \<Rightarrow> insert_attempt_row (settled_attempt outcome recorded_at
       \<lparr>ja_id = i, ja_job_unit_id = ju_id (ur_unit r), ja_ordinal = ordinal, ja_started_at = recorded_at,
        ja_finished_at = None, ja_failure_class = None, ja_error_code = None, ja_redacted_error = None,
        ja_provider_request_id = None, ja_uncertain_charge = False\<rparr>) r)"

text \<open>\<open>later\<close> adds a duration to a time; a duration that \<open>chrono\<close> cannot represent gives no time.\<close>

definition record_unit ::
  "(time \<Rightarrow> duration \<Rightarrow> time option) \<Rightarrow> retry_event_outcome \<Rightarrow> bool \<Rightarrow> time \<Rightarrow> u16 \<Rightarrow> unit_rows \<Rightarrow> unit_rows" where
  "record_unit later outcome dispatch_was_recorded recorded_at ordinal r =
     r\<lparr>ur_unit := set_dispatch_state (dispatch_state_after outcome dispatch_was_recorded)
       ((ur_unit r)\<lparr>ju_attempt_count := max (ju_attempt_count (ur_unit r)) ordinal,
          ju_next_attempt_at := Option.bind (outcome_retry_after outcome) (later recorded_at),
          ju_updated_at := recorded_at\<rparr>)\<rparr>"

section \<open>The decision after a restart\<close>

datatype recovery_action = Keep | FinalizePersistedResult | RedispatchSafe | FailUncertain | FailTerminal

definition persisted_detection_result :: "(json \<Rightarrow> str + 'r) \<Rightarrow> job_unit \<Rightarrow> service_error + 'r option" where
  "persisted_detection_result decode unit = (case ju_payload unit ''result'' of
     None \<Rightarrow> Inr None
   | Some v \<Rightarrow> (case decode v of
       Inl e \<Rightarrow> Inl (conflict (''durable detection batch result is invalid: '' @ e))
     | Inr r \<Rightarrow> Inr (Some r)))"

definition unit_dispatch_state :: "job_unit \<Rightarrow> str" where
  "unit_dispatch_state unit = (case Option.bind (ju_payload unit ''dispatchState'') json_as_str of
     None \<Rightarrow> ''unknown'' | Some s \<Rightarrow> s)"

definition outcome_is_ambiguous :: "job_attempt \<Rightarrow> bool" where
  "outcome_is_ambiguous a \<longleftrightarrow> ja_finished_at a = None \<or> ja_uncertain_charge a
     \<or> ja_failure_class a = None \<or> is_some_and (ja_failure_class a) may_have_charged"

definition decide_attempt :: "job_unit \<Rightarrow> job_attempt option \<Rightarrow> bool \<Rightarrow> recovery_action" where
  "decide_attempt unit latest non_billable = (case latest of
     None \<Rightarrow>
       (if unit_dispatch_state unit \<in> {''prepared'', ''recovered_safe''}
          \<or> (non_billable \<and> unit_dispatch_state unit = ''dispatched'')
        then RedispatchSafe else FailUncertain)
   | Some a \<Rightarrow>
       (if outcome_is_ambiguous a then (if non_billable then RedispatchSafe else FailUncertain)
        else if ja_failure_class a = Some CancelledFailure
          \<and> unit_dispatch_state unit = ''cancelled_before_dispatch'' then RedispatchSafe
        else if is_some_and (ja_failure_class a) is_transient then RedispatchSafe
        else FailTerminal))"

definition recovery_decision ::
  "(json \<Rightarrow> str + 'r) \<Rightarrow> job_unit \<Rightarrow> job_attempt option \<Rightarrow> bool \<Rightarrow> service_error + recovery_action" where
  "recovery_decision decode unit latest non_billable = (case persisted_detection_result decode unit of
     Inl e \<Rightarrow> Inl e
   | Inr (Some _) \<Rightarrow> Inr (if ju_state unit = UnitCompleted then Keep else FinalizePersistedResult)
   | Inr None \<Rightarrow>
       Inr (if ju_state unit \<in> {UnitBlocked, UnitReady, UnitPaused, UnitCompleted} then Keep
         else if ju_state unit \<in> {UnitCancelled, UnitFailed} then FailTerminal
         else decide_attempt unit latest non_billable))"

text \<open>Built-in local runtimes cannot charge; an interrupted attempt of theirs is closed.\<close>

definition reconcile_interrupted_non_billable_attempt ::
  "time \<Rightarrow> job_attempt \<Rightarrow> unit_rows \<Rightarrow> service_error + unit_rows" where
  "reconcile_interrupted_non_billable_attempt now a r =
     (if ja_finished_at a \<noteq> None \<and> \<not> ja_uncertain_charge a then Inr r
      else
        let repaired = a\<lparr>ja_finished_at := Some (case ja_finished_at a of Some t \<Rightarrow> t | None \<Rightarrow> now),
              ja_failure_class := Some Transport, ja_error_code := Some ''local_response_interrupted'',
              ja_redacted_error :=
                Some ''local provider response was interrupted before it could be persisted'',
              ja_uncertain_charge := False\<rparr>
        in if length (filter (\<lambda>b. ja_id b = ja_id a \<and> ja_job_unit_id b = ja_job_unit_id a) (ur_attempts r)) = 1
           then Inr (r\<lparr>ur_attempts := map (\<lambda>b. if ja_id b = ja_id a \<and> ja_job_unit_id b = ja_job_unit_id a
             then repaired else b) (ur_attempts r)\<rparr>)
           else Inl (conflict ''the interrupted local detection attempt changed during recovery''))"

definition uncertain_detail :: str where
  "uncertain_detail = ''A character-detection request was in flight when the app stopped and may have been charged. Retry this batch explicitly.''"

definition terminal_detail :: str where
  "terminal_detail = ''Character detection stopped after a non-retryable provider response. Retry explicitly after correcting the provider configuration.''"

text \<open>What recovery does with one unit; the uncertain usage of an attempt is appended to the ledger.\<close>

datatype unit_recovery = Untouched | MadeReady | StoppedUncertain "job_attempt option" | StoppedTerminal

definition recover_unit ::
  "(json \<Rightarrow> str + 'r) \<Rightarrow> time \<Rightarrow> bool \<Rightarrow> unit_rows \<Rightarrow> service_error + unit_recovery \<times> unit_rows" where
  "recover_unit decode now non_billable r =
     (let latest = latest_detection_attempt r in
      case recovery_decision decode (ur_unit r) latest non_billable of
        Inl e \<Rightarrow> Inl e
      | Inr Keep \<Rightarrow> Inr (Untouched, r)
      | Inr FinalizePersistedResult \<Rightarrow> Inr (Untouched, r)
      | Inr RedispatchSafe \<Rightarrow>
          map_sum id (\<lambda>r'. (MadeReady, r'\<lparr>ur_unit := mark_detection_unit now UnitReady None
              (set_dispatch_state ''recovered_safe'' (set_payload ''requestId'' None (ur_unit r)))\<rparr>))
            (case latest of
               Some a \<Rightarrow> (if non_billable then reconcile_interrupted_non_billable_attempt now a r else Inr r)
             | None \<Rightarrow> Inr r)
      | Inr FailUncertain \<Rightarrow>
          Inr (StoppedUncertain latest, r\<lparr>ur_unit := mark_detection_unit now UnitFailed (Some uncertain_detail)
            (if latest = None then set_payload ''uncertainUsageUnresolved'' (Some (JBool True)) (ur_unit r)
             else ur_unit r)\<rparr>)
      | Inr FailTerminal \<Rightarrow>
          Inr (StoppedTerminal, r\<lparr>ur_unit := mark_detection_unit now UnitFailed (Some terminal_detail) (ur_unit r)\<rparr>))"

text \<open>Recovery of a job goes through its units in order and stops at the first that must not run again.\<close>

fun recover_units ::
  "(json \<Rightarrow> str + 'r) \<Rightarrow> time \<Rightarrow> bool \<Rightarrow> unit_rows list \<Rightarrow> service_error + bool \<times> unit_rows list" where
  "recover_units decode now non_billable [] = Inr (True, [])"
| "recover_units decode now non_billable (r # rs) = (case recover_unit decode now non_billable r of
     Inl e \<Rightarrow> Inl e
   | Inr (StoppedUncertain _, r') \<Rightarrow> Inr (False, r' # rs)
   | Inr (StoppedTerminal, r') \<Rightarrow> Inr (False, r' # rs)
   | Inr (_, r') \<Rightarrow> map_sum id (map_prod id ((#) r')) (recover_units decode now non_billable rs))"

end
