(* ===== verification/Detection_Recovery_Properties.thy ===== *)
theory Detection_Recovery_Properties
  imports Detection_Recovery
begin

text \<open>
  Crash safety of detection requests: the durable writes of a unit as a step relation, in which a
  crash may happen after every step, and what recovery decides from the rows it finds.
\<close>

section \<open>The writes around a request\<close>

datatype phase =
    Idle
  | Preparing
  | Started
  | OnTheWay
  | Answered bool retry_event_outcome
  | Recorded bool retry_event_outcome

record dispatch_run =
  dw_rows :: unit_rows
  dw_offset :: u16
  dw_attempt :: nat
  dw_phase :: phase
  dw_last :: "(bool \<times> retry_event_outcome) option"

text \<open>
  One durable write or one event between the writes. \<open>Answered True\<close>: the provider has answered a
  request that was sent; \<open>Answered False\<close>: the attempt ended before anything was sent. The unit may
  be marked between two requests (prepared, also for a repair, or rebatched). \<open>dw_last\<close> remembers
  the last attempt whose row was settled.
\<close>

inductive durable_step :: "bool \<Rightarrow> (time \<Rightarrow> duration \<Rightarrow> time option) \<Rightarrow> dispatch_run \<Rightarrow> dispatch_run \<Rightarrow> bool"
  for non_billable :: bool and later :: "time \<Rightarrow> duration \<Rightarrow> time option" where
  mark: "dw_phase w = Idle \<Longrightarrow> unit_dispatch_state u \<in> {''prepared'', ''context_rebatch'', ''output_rebatch''} \<Longrightarrow>
    durable_step non_billable later w (w\<lparr>dw_rows := (dw_rows w)\<lparr>ur_unit := u\<rparr>\<rparr>)"
| prepare: "dw_phase w = Idle \<Longrightarrow> durable_attempt_offset (dw_rows w) = Inr offset \<Longrightarrow>
    durable_step non_billable later w (w\<lparr>dw_offset := offset, dw_attempt := 1, dw_phase := Preparing\<rparr>)"
| start: "dw_phase w = Preparing \<Longrightarrow> journal_ordinal (dw_offset w) (AttemptNumber (dw_attempt w)) = Inr k \<Longrightarrow>
    durable_step non_billable later w
      (w\<lparr>dw_rows := dispatch_unit now k request (dw_rows w), dw_phase := Started\<rparr>)"
| send: "dw_phase w = Started \<Longrightarrow>
    insert_attempt_row (dispatch_attempt non_billable now i (dw_offset w + dw_attempt w) request (dw_rows w)) (dw_rows w)
      = Some r \<Longrightarrow>
    durable_step non_billable later w (w\<lparr>dw_rows := r, dw_phase := OnTheWay\<rparr>)"
| answer: "dw_phase w = OnTheWay \<Longrightarrow>
    durable_step non_billable later w (w\<lparr>dw_phase := Answered True outcome\<rparr>)"
| refuse: "dw_phase w = Preparing \<or> dw_phase w = Started \<Longrightarrow>
    durable_step non_billable later w (w\<lparr>dw_phase := Answered False (AttemptFailed c will_retry delay)\<rparr>)"
| record_row: "dw_phase w = Answered sent outcome \<Longrightarrow>
    record_attempt outcome now i (dw_offset w + dw_attempt w) (dw_rows w) = Some r \<Longrightarrow>
    durable_step non_billable later w (w\<lparr>dw_rows := r, dw_phase := Recorded sent outcome, dw_last := Some (sent, outcome)\<rparr>)"
| retry: "dw_phase w = Recorded sent (AttemptFailed c True delay) \<Longrightarrow>
    durable_step non_billable later w
      (w\<lparr>dw_rows := record_unit later (AttemptFailed c True delay) sent now (dw_offset w + dw_attempt w) (dw_rows w),
         dw_attempt := dw_attempt w + 1, dw_phase := Preparing\<rparr>)"
| finish: "dw_phase w = Recorded sent outcome \<Longrightarrow> \<forall>c delay. outcome \<noteq> AttemptFailed c True delay \<Longrightarrow>
    durable_step non_billable later w
      (w\<lparr>dw_rows := record_unit later outcome sent now (dw_offset w + dw_attempt w) (dw_rows w), dw_phase := Idle\<rparr>)"

inductive reachable_run :: "bool \<Rightarrow> (time \<Rightarrow> duration \<Rightarrow> time option) \<Rightarrow> unit_rows \<Rightarrow> dispatch_run \<Rightarrow> bool"
  for non_billable :: bool and later :: "time \<Rightarrow> duration \<Rightarrow> time option" and r0 :: unit_rows where
  init: "reachable_run non_billable later r0 \<lparr>dw_rows = r0, dw_offset = 0, dw_attempt = 0, dw_phase = Idle,
     dw_last = None\<rparr>"
| step: "reachable_run non_billable later r0 w \<Longrightarrow> durable_step non_billable later w w'
    \<Longrightarrow> reachable_run non_billable later r0 w'"

section \<open>Attempt rows\<close>

lemma fold_max_ordinal_ge:
  "m \<le> fold (\<lambda>a m. max (ja_ordinal a) m) as m
   \<and> (\<forall>a \<in> set as. ja_ordinal a \<le> fold (\<lambda>a m. max (ja_ordinal a) m) as m)"
proof (induction as arbitrary: m)
  case (Cons a as)
  from Cons [of "max (ja_ordinal a) m"] show ?case by auto
qed simp

lemma ordinal_le_max: "a \<in> set as \<Longrightarrow> ja_ordinal a \<le> max_ordinal as"
  using fold_max_ordinal_ge [of 0 as] by (simp add: max_ordinal_def)




lemma settled_ordinal [simp]: "ja_ordinal (settled_attempt outcome t a) = ja_ordinal a"
  by (cases outcome) (simp_all add: settled_attempt_def)


lemma attempt_at_None: "attempt_at r k = None \<longleftrightarrow> (\<forall>a \<in> set (ur_attempts r). ja_ordinal a \<noteq> k)"
  by (auto simp: attempt_at_def find_None_iff)


section \<open>The invariant\<close>









lemma unit_dispatch_state_set [simp]: "unit_dispatch_state (set_dispatch_state s u) = s"
  by (simp add: unit_dispatch_state_def set_dispatch_state_def set_payload_def)

lemma unit_dispatch_state_other [simp]:
  "k \<noteq> ''dispatchState'' \<Longrightarrow> unit_dispatch_state (set_payload k v u) = unit_dispatch_state u"
  by (simp add: unit_dispatch_state_def set_payload_def)

lemma dispatch_unit_rows [simp]:
  "ur_attempts (dispatch_unit now k request r) = ur_attempts r"
  "unit_dispatch_state (ur_unit (dispatch_unit now k request r)) = ''dispatched''"
  by (simp_all add: dispatch_unit_def)

lemma record_unit_rows [simp]:
  "ur_attempts (record_unit later outcome sent now k r) = ur_attempts r"
  "unit_dispatch_state (ur_unit (record_unit later outcome sent now k r)) = dispatch_state_after outcome sent"
  by (simp_all add: record_unit_def)

lemma latest_unit_changed [simp]:
  "latest_detection_attempt (dispatch_unit now k request r) = latest_detection_attempt r"
  "latest_detection_attempt (record_unit later outcome sent now k r) = latest_detection_attempt r"
  by (simp_all add: latest_detection_attempt_def)




section \<open>What recovery may send again\<close>



section \<open>Runs\<close>

lemma dispatch_attempt_ordinal [simp]: "ja_ordinal (dispatch_attempt non_billable now i k request r) = k"
  by (simp add: dispatch_attempt_def)

text \<open>A whole attempt, from the preparation to the settled row.\<close>

lemma run_attempt:
  assumes "reachable_run non_billable later r0 w" and "dw_phase w = Idle"
    and "max_ordinal (ur_attempts (dw_rows w)) < u16_max"
  shows "\<exists>w' a. reachable_run non_billable later r0 w' \<and> dw_phase w' = Recorded True outcome
     \<and> ur_attempts (dw_rows w') = ur_attempts (dw_rows w) @ [settled_attempt outcome 0 a]
     \<and> ja_ordinal a = max_ordinal (ur_attempts (dw_rows w)) + 1 \<and> ju_state (ur_unit (dw_rows w')) = UnitRunning
     \<and> ju_payload (ur_unit (dw_rows w')) ''result'' = ju_payload (ur_unit (dw_rows w)) ''result''"
proof -
  let ?r = "dw_rows w" and ?m = "max_ordinal (ur_attempts (dw_rows w))"
  let ?r1 = "dispatch_unit 0 (?m + 1) ''q'' ?r"
  let ?a = "dispatch_attempt non_billable 0 1 (?m + 1) ''q'' ?r1"
  let ?r2 = "?r1\<lparr>ur_attempts := ur_attempts ?r @ [?a]\<rparr>"
  let ?r3 = "?r2\<lparr>ur_attempts := ur_attempts ?r @ [settled_attempt outcome 0 ?a]\<rparr>"
  let ?w1 = "w\<lparr>dw_offset := ?m, dw_attempt := 1, dw_phase := Preparing\<rparr>"
  let ?w2 = "?w1\<lparr>dw_rows := ?r1, dw_phase := Started\<rparr>"
  let ?w3 = "?w2\<lparr>dw_rows := ?r2, dw_phase := OnTheWay\<rparr>"
  let ?w4 = "?w3\<lparr>dw_phase := Answered True outcome\<rparr>"
  let ?w5 = "?w4\<lparr>dw_rows := ?r3, dw_phase := Recorded True outcome, dw_last := Some (True, outcome)\<rparr>"
  have old: "ja_ordinal b \<noteq> ?m + 1" if "b \<in> set (ur_attempts ?r)" for b
    using ordinal_le_max [OF that] by simp
  have s1: "durable_step non_billable later w ?w1"
    using assms(2,3) by (intro durable_step.prepare) (simp_all add: durable_attempt_offset_def)
  have s2: "durable_step non_billable later ?w1 ?w2"
    using assms(3) durable_step.start [of ?w1 "?m + 1" non_billable later 0 "''q''"]
    by (simp add: journal_ordinal_def)
  have "insert_attempt_row ?a ?r1 = Some ?r2"
    using old by (simp add: insert_attempt_row_def attempt_at_None dispatch_attempt_def)
  then have s3: "durable_step non_billable later ?w2 ?w3"
    using durable_step.send [of ?w2 non_billable 0 1 "''q''" ?r2 later] by simp
  have s4: "durable_step non_billable later ?w3 ?w4"
    using durable_step.answer [of ?w3 non_billable later outcome] by simp
  have "record_attempt outcome 0 1 (?m + 1) ?r2 = Some ?r3"
  proof -
    have "find (\<lambda>b. ja_ordinal b = ?m + 1) (ur_attempts ?r) = None" using old by (auto simp: find_None_iff)
    moreover have "find P (xs @ [x]) = (if P x then Some x else None)" if "find P xs = None"
      for P :: "job_attempt \<Rightarrow> bool" and xs x using that by (induction xs) (auto split: if_splits)
    ultimately have "attempt_at ?r2 (?m + 1) = Some ?a" by (simp add: attempt_at_def)
    moreover have "map (\<lambda>b. if ja_ordinal b = ?m + 1 then settled_attempt outcome 0 ?a else b) (ur_attempts ?r)
        = ur_attempts ?r" using old by (auto intro: map_idI)
    ultimately show ?thesis by (simp add: record_attempt_def del: One_nat_def)
  qed
  then have s5: "durable_step non_billable later ?w4 ?w5"
    using durable_step.record_row [of ?w4 True outcome 0 1 ?r3 non_billable later] by simp
  note step = reachable_run.step
  have "reachable_run non_billable later r0 ?w5"
    by (rule step [OF step [OF step [OF step [OF step [OF assms(1) s1] s2] s3] s4] s5])
  moreover have "dw_phase ?w5 = Recorded True outcome"
    "ur_attempts (dw_rows ?w5) = ur_attempts ?r @ [settled_attempt outcome 0 ?a]" "ja_ordinal ?a = ?m + 1"
    "ju_state (ur_unit (dw_rows ?w5)) = UnitRunning"
    "ju_payload (ur_unit (dw_rows ?w5)) ''result'' = ju_payload (ur_unit ?r) ''result''"
    by (simp_all add: dispatch_unit_def set_dispatch_state_def set_payload_def)
  ultimately show ?thesis by blast
qed

lemma run_finish:
  assumes "reachable_run non_billable later r0 w" and "dw_phase w = Recorded True AttemptSucceeded"
  shows "\<exists>w'. reachable_run non_billable later r0 w' \<and> dw_phase w' = Idle
     \<and> ur_attempts (dw_rows w') = ur_attempts (dw_rows w)
     \<and> ju_payload (ur_unit (dw_rows w')) ''result'' = ju_payload (ur_unit (dw_rows w)) ''result''"
proof -
  have "durable_step non_billable later w
      (w\<lparr>dw_rows := record_unit later AttemptSucceeded True 0 (dw_offset w + dw_attempt w) (dw_rows w), dw_phase := Idle\<rparr>)"
    using durable_step.finish [of w True AttemptSucceeded] assms(2) by simp
  with assms(1) have "reachable_run non_billable later r0
      (w\<lparr>dw_rows := record_unit later AttemptSucceeded True 0 (dw_offset w + dw_attempt w) (dw_rows w), dw_phase := Idle\<rparr>)"
    by (rule reachable_run.step)
  then show ?thesis
    by (intro exI conjI, assumption) (simp_all add: record_unit_def set_dispatch_state_def set_payload_def)
qed

definition sample_rows :: unit_rows where
  "sample_rows = \<lparr>ur_unit = \<lparr>ju_id = 1, ju_job_id = 2, ju_kind = DetectionBatchUnit, ju_state = UnitReady,
     ju_chapter_id = None, ju_segment_id = None, ju_provider_profile_id = Some 3, ju_dependencies = [],
     ju_attempt_count = 0, ju_next_attempt_at = None, ju_output_artifact_id = None,
     ju_payload = (\<lambda>_. None), ju_created_at = 0, ju_updated_at = 0\<rparr>, ur_attempts = []\<rparr>"

definition sample_decode :: "json \<Rightarrow> str + unit" where
  "sample_decode v = Inl ''no result''"

lemma redispatch_after_transient:
  assumes "ju_payload unit ''result'' = None" and "ju_state unit = UnitRunning"
  shows "recovery_decision decode unit (Some (settled_attempt (AttemptFailed TransientFailure w d) t a)) False
    = Inr RedispatchSafe"
  using assms by (simp add: recovery_decision_def persisted_detection_result_def decide_attempt_def
      outcome_is_ambiguous_def settled_attempt_def is_some_and_def)


text \<open>
  The decision looks at the last attempt only. After a batch was split, its first half may have been
  answered (and charged) when the request for the second half fails in transit and the service stops:
  recovery then sends the whole unit again, although an earlier attempt of it has succeeded, whose
  result and usage were still only in memory.
\<close>

theorem answered_part_is_sent_again:
  "\<exists>w a. reachable_run False (\<lambda>_ _. None) sample_rows w
     \<and> a \<in> set (ur_attempts (dw_rows w)) \<and> ja_finished_at a \<noteq> None \<and> ja_failure_class a = None
     \<and> recovery_decision sample_decode (ur_unit (dw_rows w)) (latest_detection_attempt (dw_rows w)) False
         = Inr RedispatchSafe"
proof -
  have "reachable_run False (\<lambda>_ _. None) sample_rows
      \<lparr>dw_rows = sample_rows, dw_offset = 0, dw_attempt = 0, dw_phase = Idle, dw_last = None\<rparr>"
    by (rule reachable_run.init)
  from run_attempt [OF this, of AttemptSucceeded] obtain w1 a where
    w1: "reachable_run False (\<lambda>_ _. None) sample_rows w1" "dw_phase w1 = Recorded True AttemptSucceeded"
      "ur_attempts (dw_rows w1) = [settled_attempt AttemptSucceeded 0 a]"
      "ju_payload (ur_unit (dw_rows w1)) ''result'' = None" "ja_ordinal a = 1"
    by (auto simp: sample_rows_def u16_max_def max_ordinal_def)
  from run_finish [OF w1(1,2)] w1(3,4) obtain w2 where
    w2: "reachable_run False (\<lambda>_ _. None) sample_rows w2" "dw_phase w2 = Idle"
      "ur_attempts (dw_rows w2) = [settled_attempt AttemptSucceeded 0 a]"
      "ju_payload (ur_unit (dw_rows w2)) ''result'' = None" by auto
  let ?t = "AttemptFailed TransientFailure False None"
  have m: "max_ordinal (ur_attempts (dw_rows w2)) = 1" using w1(5) by (simp add: w2(3) max_ordinal_def)
  from run_attempt [OF w2(1,2), of ?t] m obtain w b where
    w: "reachable_run False (\<lambda>_ _. None) sample_rows w" "ja_ordinal b = Suc 1"
      "ur_attempts (dw_rows w) = [settled_attempt AttemptSucceeded 0 a, settled_attempt ?t 0 b]"
      "ju_state (ur_unit (dw_rows w)) = UnitRunning" "ju_payload (ur_unit (dw_rows w)) ''result'' = None"
    by (auto simp: w2 u16_max_def)
  have "latest_detection_attempt (dw_rows w) = Some (settled_attempt ?t 0 b)"
    using w1(5) w(2) by (simp add: latest_detection_attempt_def later_attempt_def w(3))
  with redispatch_after_transient [OF w(5,4)] have
    "recovery_decision sample_decode (ur_unit (dw_rows w)) (latest_detection_attempt (dw_rows w)) False
      = Inr RedispatchSafe" by simp
  moreover have "settled_attempt AttemptSucceeded 0 a \<in> set (ur_attempts (dw_rows w))"
    "ja_finished_at (settled_attempt AttemptSucceeded 0 a) \<noteq> None"
    "ja_failure_class (settled_attempt AttemptSucceeded 0 a) = None"
    by (simp_all add: w(3) settled_attempt_def)
  ultimately show ?thesis using w(1) by blast
qed

end
