(* ===== verification/Cast_Merge.thy ===== *)
theory Cast_Merge
  imports Utf8_Text Detection_Types "HOL-Library.Char_ord" "HOL-Library.List_Lexorder"
begin

text \<open>
  The cast of a book (crates/service/src/workflows/cast.rs): the characters that the batches of a
  detection run report one by one are merged into groups, every dialogue is given the canonical name
  of its group, and the cast is joined with the characters of earlier runs. \<open>lower\<close> stands for
  Unicode lower case (\<open>str::to\_lowercase\<close>). Strings are compared by their bytes. A \<open>BTreeSet\<close> of
  keys that is only asked for membership is a list.
\<close>

section \<open>Names\<close>

text \<open>\<open>split\_whitespace().collect::<Vec<\_>>().join(" ")\<close>.\<close>

fun words_of :: "str list \<Rightarrow> str \<Rightarrow> str list" where
  "words_of [] w = (if w = [] then [] else [w])"
| "words_of (c # cs) w = (if is_ws_char c then (if w = [] then words_of cs [] else w # words_of cs [])
     else words_of cs (w @ c))"

fun join_words :: "str list \<Rightarrow> str" where
  "join_words [] = []"
| "join_words [w] = w"
| "join_words (w # ws) = w @ '' '' @ join_words ws"

definition normalized_character_name :: "(str \<Rightarrow> str) \<Rightarrow> str \<Rightarrow> str" where
  "normalized_character_name lower name = lower (join_words (words_of (chars_of name) []))"

text \<open>\<open>f32::max\<close> ignores a NaN.\<close>

definition fval_max :: "fval \<Rightarrow> fval \<Rightarrow> fval" where
  "fval_max a b = (if a = Not_A_Number then b else if b = Not_A_Number then a
     else if fval_le a b then b else a)"

section \<open>Groups\<close>

record cast_group =
  cg_names :: "str list"
  cg_keys :: "str list"
  cg_canonical_counts :: "(str \<times> usize) list"
  cg_confidence :: fval
  cg_merged_into :: "usize option"

definition empty_group :: cast_group where
  "empty_group = \<lparr>cg_names = [], cg_keys = [], cg_canonical_counts = [], cg_confidence = Finite 0,
     cg_merged_into = None\<rparr>"

definition has_canonical_key :: "(str \<Rightarrow> str) \<Rightarrow> cast_group \<Rightarrow> str \<Rightarrow> bool" where
  "has_canonical_key lower g key \<longleftrightarrow>
     list_ex (\<lambda>(canonical, _). normalized_character_name lower canonical = key) (cg_canonical_counts g)"

text \<open>\<open>max\_by\<close>: the count, then the number of characters, then the smaller name; the last maximum.\<close>

definition canonical_le :: "str \<times> usize \<Rightarrow> str \<times> usize \<Rightarrow> bool" where
  "canonical_le l r \<longleftrightarrow> snd l < snd r \<or> (snd l = snd r \<and>
     (char_count (fst l) < char_count (fst r) \<or> (char_count (fst l) = char_count (fst r) \<and> fst r \<le> fst l)))"

definition canonical_name :: "cast_group \<Rightarrow> str option" where
  "canonical_name g = map_option fst (fold (\<lambda>c best. case best of
     None \<Rightarrow> Some c | Some b \<Rightarrow> if canonical_le b c then Some c else Some b) (cg_canonical_counts g) None)"

definition add_name :: "(str \<Rightarrow> str) \<Rightarrow> str \<Rightarrow> cast_group \<Rightarrow> cast_group" where
  "add_name lower name g =
     (let key = normalized_character_name lower name
      in g\<lparr>cg_names := (if list_ex (\<lambda>existing. normalized_character_name lower existing = key) (cg_names g)
             then cg_names g else cg_names g @ [name]),
           cg_keys := List.insert key (cg_keys g)\<rparr>)"

text \<open>\<open>*counts.entry(name).or\_default() += n\<close>.\<close>

definition count_canonical :: "str \<Rightarrow> usize \<Rightarrow> cast_group \<Rightarrow> cast_group" where
  "count_canonical name n g = g\<lparr>cg_canonical_counts := btree_insert name
     ((case map_of (cg_canonical_counts g) name of None \<Rightarrow> 0 | Some m \<Rightarrow> m) + n) (cg_canonical_counts g)\<rparr>"

definition raise_confidence :: "fval \<Rightarrow> cast_group \<Rightarrow> cast_group" where
  "raise_confidence c g = g\<lparr>cg_confidence := fval_max (cg_confidence g) c\<rparr>"

section \<open>The merger\<close>

definition live_groups :: "cast_group list \<Rightarrow> usize list" where
  "live_groups gs = filter (\<lambda>i. cg_merged_into (gs ! i) = None) [0 ..< length gs]"

text \<open>Following \<open>merged\_into\<close>; a group is merged into a smaller index, so the number of groups is fuel
  enough.\<close>

fun root_from :: "nat \<Rightarrow> cast_group list \<Rightarrow> usize \<Rightarrow> usize" where
  "root_from 0 gs i = i"
| "root_from (Suc fuel) gs i = (case cg_merged_into (gs ! i) of None \<Rightarrow> i | Some j \<Rightarrow> root_from fuel gs j)"

definition root :: "cast_group list \<Rightarrow> usize \<Rightarrow> usize" where
  "root gs = root_from (length gs) gs"

definition absorb :: "(str \<Rightarrow> str) \<Rightarrow> usize \<Rightarrow> usize \<Rightarrow> cast_group list \<Rightarrow> cast_group list" where
  "absorb lower target other_index gs =
     (let absorbed = gs ! other_index;
          gs' = gs[other_index := empty_group\<lparr>cg_merged_into := Some target\<rparr>];
          g = fold (add_name lower) (cg_names absorbed) (gs' ! target);
          g' = fold (\<lambda>(name, n). count_canonical name n) (cg_canonical_counts absorbed) g
      in gs'[target := raise_confidence (cg_confidence absorbed) g'])"

definition character_names :: "detected_character \<Rightarrow> str list" where
  "character_names c = filter (\<lambda>n. n \<noteq> []) (str_trim (dc_canonical_name c) # map str_trim (dc_aliases c))"

definition group_matches :: "(str \<Rightarrow> str) \<Rightarrow> str \<Rightarrow> str list \<Rightarrow> cast_group \<Rightarrow> bool" where
  "group_matches lower canonical_key keys g \<longleftrightarrow> canonical_key \<in> set (cg_keys g)
     \<or> list_ex (\<lambda>(existing, _). normalized_character_name lower existing \<in> set keys) (cg_canonical_counts g)"

definition add_character :: "(str \<Rightarrow> str) \<Rightarrow> detected_character \<Rightarrow> cast_group list \<Rightarrow> cast_group list" where
  "add_character lower c gs =
     (let canonical = str_trim (dc_canonical_name c);
          canonical_key = normalized_character_name lower canonical
      in if canonical_key = [] then gs
      else
        let names = character_names c;
            keys = map (normalized_character_name lower) names;
            matched = filter (\<lambda>i. group_matches lower canonical_key keys (gs ! i)) (live_groups gs);
            (gs1, target) = (case matched of i # _ \<Rightarrow> (gs, i) | [] \<Rightarrow> (gs @ [empty_group], length gs));
            gs2 = fold (absorb lower target) (tl matched) gs1
        in gs2[target := raise_confidence (dc_confidence c)
             (count_canonical canonical 1 (fold (add_name lower) names (gs2 ! target)))])"

definition cast_speaker ::
  "(str \<Rightarrow> str) \<Rightarrow> str \<Rightarrow> fval \<Rightarrow> cast_group list \<Rightarrow> usize option \<times> cast_group list" where
  "cast_speaker lower name confidence gs =
     (let key = normalized_character_name lower name
      in if key = [] then (None, gs)
      else case (case find (\<lambda>i. has_canonical_key lower (gs ! i) key) (live_groups gs) of
               Some i \<Rightarrow> Some i
             | None \<Rightarrow> find (\<lambda>i. key \<in> set (cg_keys (gs ! i))) (live_groups gs)) of
        Some i \<Rightarrow> (Some (root gs i), gs)
      | None \<Rightarrow>
          (Some (length gs), gs @ [(add_name lower (str_trim name) (empty_group\<lparr>cg_confidence := confidence\<rparr>))
             \<lparr>cg_canonical_counts := [(str_trim name, 1)]\<rparr>]))"

fun cast_speakers ::
  "(str \<Rightarrow> str) \<Rightarrow> detected_dialogue list \<Rightarrow> cast_group list \<Rightarrow> usize option list \<times> cast_group list" where
  "cast_speakers lower [] gs = ([], gs)"
| "cast_speakers lower (d # ds) gs =
     (case cast_speaker lower (dd_character d) (dd_confidence d) gs of
        (s, gs') \<Rightarrow> (case cast_speakers lower ds gs' of (ss, gs'') \<Rightarrow> (s # ss, gs'')))"

definition group_character :: "(str \<Rightarrow> str) \<Rightarrow> cast_group \<Rightarrow> detected_character option" where
  "group_character lower g = map_option (\<lambda>name.
     \<lparr>dc_canonical_name = name,
      dc_aliases = filter (\<lambda>n. normalized_character_name lower n \<noteq> normalized_character_name lower name) (cg_names g),
      dc_confidence = cg_confidence g\<rparr>) (canonical_name g)"

text \<open>A dialogue takes the canonical name of its group; without one it is dropped.\<close>

definition attribute_dialogue :: "cast_group list \<Rightarrow> detected_dialogue \<times> usize option \<Rightarrow> (usize \<times> detected_dialogue) option" where
  "attribute_dialogue gs x = (case x of
     (d, Some i) \<Rightarrow> map_option (\<lambda>name. (i, d\<lparr>dd_character := name\<rparr>)) (canonical_name (gs ! i))
   | (d, None) \<Rightarrow> None)"

definition canonicalize_detection_result :: "(str \<Rightarrow> str) \<Rightarrow> detection_result \<Rightarrow> detection_result" where
  "canonicalize_detection_result lower r =
     (let (speakers, gs) = cast_speakers lower (dr_dialogue r) (fold (add_character lower) (dr_characters r) []);
          attributed = List.map_filter (attribute_dialogue gs) (zip (dr_dialogue r) speakers)
      in r\<lparr>dr_dialogue := map snd attributed,
           dr_characters := List.map_filter (\<lambda>i. group_character lower (gs ! i))
             (filter (\<lambda>i. i \<in> set (map fst attributed) \<or> ''narrator'' \<in> set (cg_keys (gs ! i))) (live_groups gs))\<rparr>)"

section \<open>Joining with earlier characters\<close>

record cast_character =
  ch_id :: uuid
  ch_project_id :: project_id
  ch_role :: character_role
  ch_canonical_name :: str
  ch_aliases :: "str list"
  ch_description :: "str option"
  ch_confidence :: "fval option"
  ch_detection_run_id :: "uuid option"
  ch_manually_created :: bool
  ch_created_at :: time
  ch_updated_at :: time

type_synonym merged_entry = "str \<times> str list \<times> fval"

definition add_alias :: "str \<Rightarrow> str list \<Rightarrow> str list" where
  "add_alias alias aliases =
     (if list_ex (\<lambda>existing. eq_ignore_ascii_case existing alias) aliases then aliases else aliases @ [alias])"

definition merge_entry :: "(str \<Rightarrow> str) \<Rightarrow> detected_character \<Rightarrow> (str \<times> merged_entry) list \<Rightarrow> (str \<times> merged_entry) list" where
  "merge_entry lower c merged =
     (let key = lower (str_trim (dc_canonical_name c))
      in if key = [] then merged
      else case (case map_of merged key of
                   Some e \<Rightarrow> e | None \<Rightarrow> (str_trim (dc_canonical_name c), [], dc_confidence c)) of
        (name, aliases, confidence) \<Rightarrow>
          btree_insert key (name, fold add_alias (dc_aliases c) aliases, fval_max confidence (dc_confidence c)) merged)"

definition merged_character ::
  "(str \<Rightarrow> str) \<Rightarrow> (nat \<Rightarrow> uuid) \<Rightarrow> project_id \<Rightarrow> uuid \<Rightarrow> time \<Rightarrow> (str \<rightharpoonup> cast_character) \<Rightarrow> nat \<Rightarrow> merged_entry \<Rightarrow> cast_character" where
  "merged_character lower new_id project run now previous_characters n e = (case e of
     (detected_name, detected_aliases, confidence) \<Rightarrow>
       (let previous = previous_characters (lower detected_name);
            preserve = is_some_and previous ch_manually_created
        in \<lparr>ch_id = (case previous of None \<Rightarrow> new_id n | Some p \<Rightarrow> ch_id p),
            ch_project_id = project,
            ch_role = (if eq_ignore_ascii_case detected_name ''narrator'' then NarratorRole else CharacterRole),
            ch_canonical_name = (case previous of Some p \<Rightarrow> if preserve then ch_canonical_name p else detected_name
              | None \<Rightarrow> detected_name),
            ch_aliases = (case previous of Some p \<Rightarrow> if preserve then ch_aliases p else detected_aliases
              | None \<Rightarrow> detected_aliases),
            ch_description = Option.bind previous ch_description,
            ch_confidence = Some confidence, ch_detection_run_id = Some run, ch_manually_created = preserve,
            ch_created_at = (case previous of None \<Rightarrow> now | Some p \<Rightarrow> ch_created_at p), ch_updated_at = now\<rparr>))"

text \<open>Manually created characters that the run did not find stay; \<open>previous\<close> lists them by name.\<close>

fun retain_previous :: "(str \<times> cast_character) list \<Rightarrow> uuid list \<Rightarrow> cast_character list" where
  "retain_previous [] retained = []"
| "retain_previous ((_, p) # ps) retained =
     (if ch_manually_created p \<and> ch_id p \<notin> set retained then p # retain_previous ps (ch_id p # retained)
      else retain_previous ps retained)"

definition merge_characters ::
  "(str \<Rightarrow> str) \<Rightarrow> (nat \<Rightarrow> uuid) \<Rightarrow> detection_result \<Rightarrow> project_id \<Rightarrow> uuid \<Rightarrow> time \<Rightarrow> (str \<times> cast_character) list \<Rightarrow>
     cast_character list" where
  "merge_characters lower new_id r project run now previous =
     (let merged = fold (merge_entry lower) (dr_characters r) [];
          merged' = (if map_of merged ''narrator'' = None
            then btree_insert ''narrator'' (''Narrator'', [], Finite 1) merged else merged);
          out = map (\<lambda>(n, _, e). merged_character lower new_id project run now (map_of previous) n e)
            (enumerate 0 merged')
      in out @ retain_previous previous (map ch_id out))"

text \<open>The earlier characters by each of their names, the most recent one first.\<close>

definition previous_by_name :: "(str \<Rightarrow> str) \<Rightarrow> cast_character list \<Rightarrow> (str \<times> cast_character) list" where
  "previous_by_name lower cs = fold (\<lambda>c m. fold (\<lambda>name m'.
     if map_of m' (lower name) = None then btree_insert (lower name) c m' else m')
       (ch_canonical_name c # ch_aliases c) m) cs []"

end
