(* ===== verification/Cast_Properties.thy ===== *)
theory Cast_Properties
  imports Cast_Merge
begin

text \<open>
  The merged cast of a detection run: no two characters share a name that is canonical for one of
  them, and every dialogue is attributed to a listed character that bears the name the provider gave.
\<close>

section \<open>Names\<close>

lemma words_of_dropWhile: "words_of (dropWhile is_ws_char cs) [] = words_of cs []"
  by (induction cs) auto

lemma words_of_blank: "\<forall>w \<in> set ws. is_ws_char w \<Longrightarrow> words_of (cs @ ws) w = words_of cs w"
proof (induction cs w rule: words_of.induct)
  case (1 w)
  then show ?case by (induction ws arbitrary: w) (auto split: if_splits)
qed auto

text \<open>White space around a name does not change its key.\<close>

lemma normalized_trim: "normalized_character_name lower (str_trim s) = normalized_character_name lower s"
proof -
  let ?cs = "dropWhile is_ws_char (chars_of s)"
  obtain ws where ws: "?cs = rev (dropWhile is_ws_char (rev ?cs)) @ ws" "\<forall>w \<in> set ws. is_ws_char w"
    using trim_end_prefix [of ?cs is_ws_char] by blast
  have "words_of (rev (dropWhile is_ws_char (rev ?cs))) [] = words_of ?cs []"
    using words_of_blank [OF ws(2), of "rev (dropWhile is_ws_char (rev ?cs))" "[]"] ws(1) by simp
  then show ?thesis by (simp add: normalized_character_name_def chars_of_trim words_of_dropWhile)
qed

section \<open>Keys of a group\<close>

definition canonical_keys :: "(str \<Rightarrow> str) \<Rightarrow> cast_group \<Rightarrow> str set" where
  "canonical_keys lower g = normalized_character_name lower ` fst ` set (cg_canonical_counts g)"

definition group_ok :: "(str \<Rightarrow> str) \<Rightarrow> cast_group \<Rightarrow> bool" where
  "group_ok lower g \<longleftrightarrow> set (cg_keys g) = normalized_character_name lower ` set (cg_names g)
     \<and> canonical_keys lower g \<subseteq> set (cg_keys g)"

lemma group_ok_empty [simp]: "group_ok lower (empty_group\<lparr>cg_merged_into := m\<rparr>)" "group_ok lower empty_group"
  by (simp_all add: group_ok_def canonical_keys_def empty_group_def)

lemma add_name_props [simp]:
  "set (cg_keys (add_name lower n g)) = insert (normalized_character_name lower n) (set (cg_keys g))"
  "normalized_character_name lower ` set (cg_names (add_name lower n g))
    = insert (normalized_character_name lower n) (normalized_character_name lower ` set (cg_names g))"
  "cg_canonical_counts (add_name lower n g) = cg_canonical_counts g"
  "cg_merged_into (add_name lower n g) = cg_merged_into g"
proof -
  show "normalized_character_name lower ` set (cg_names (add_name lower n g))
    = insert (normalized_character_name lower n) (normalized_character_name lower ` set (cg_names g))"
  proof (cases "list_ex (\<lambda>e. normalized_character_name lower e = normalized_character_name lower n) (cg_names g)")
    case True
    then have "normalized_character_name lower n \<in> normalized_character_name lower ` set (cg_names g)"
      by (auto simp: list_ex_iff) (metis imageI)
    with True show ?thesis by (simp add: add_name_def Let_def insert_absorb)
  qed (simp add: add_name_def Let_def)
qed (simp_all add: add_name_def Let_def)

lemma fold_add_name [simp]:
  "set (cg_keys (fold (add_name lower) ns g)) = normalized_character_name lower ` set ns \<union> set (cg_keys g)"
  "normalized_character_name lower ` set (cg_names (fold (add_name lower) ns g))
    = normalized_character_name lower ` set ns \<union> normalized_character_name lower ` set (cg_names g)"
  "cg_canonical_counts (fold (add_name lower) ns g) = cg_canonical_counts g"
  "cg_merged_into (fold (add_name lower) ns g) = cg_merged_into g"
  by (induction ns arbitrary: g) auto

lemma btree_insert_fst: "fst ` set (btree_insert k v m) = insert k (fst ` set m)"
  by (induction k v m rule: btree_insert.induct) auto

lemma count_canonical_props [simp]:
  "cg_keys (count_canonical n k g) = cg_keys g" "cg_names (count_canonical n k g) = cg_names g"
  "cg_merged_into (count_canonical n k g) = cg_merged_into g"
  "fst ` set (cg_canonical_counts (count_canonical n k g)) = insert n (fst ` set (cg_canonical_counts g))"
  by (simp_all add: count_canonical_def btree_insert_fst)

lemma fold_count_canonical [simp]:
  "cg_keys (fold (\<lambda>(n, k). count_canonical n k) cs g) = cg_keys g"
  "cg_names (fold (\<lambda>(n, k). count_canonical n k) cs g) = cg_names g"
  "cg_merged_into (fold (\<lambda>(n, k). count_canonical n k) cs g) = cg_merged_into g"
  "fst ` set (cg_canonical_counts (fold (\<lambda>(n, k). count_canonical n k) cs g))
    = fst ` set cs \<union> fst ` set (cg_canonical_counts g)"
  by (induction cs arbitrary: g) (simp_all add: case_prod_unfold)

lemma raise_confidence_props [simp]:
  "cg_keys (raise_confidence c g) = cg_keys g" "cg_names (raise_confidence c g) = cg_names g"
  "cg_merged_into (raise_confidence c g) = cg_merged_into g"
  "cg_canonical_counts (raise_confidence c g) = cg_canonical_counts g"
  by (simp_all add: raise_confidence_def)

text \<open>The canonical name is one of the counted names.\<close>

lemma fold_canonical:
  "fold (\<lambda>c best. case best of None \<Rightarrow> Some c | Some b \<Rightarrow> if canonical_le b c then Some c else Some b) cs (Some b)
    \<in> Some ` insert b (set cs)"
proof (induction cs arbitrary: b)
  case (Cons c cs)
  from Cons [of c] Cons [of b] show ?case by auto
qed simp

lemma canonical_name_props:
  "cg_canonical_counts g \<noteq> [] \<Longrightarrow> canonical_name g \<noteq> None"
  "canonical_name g = Some n \<Longrightarrow> n \<in> fst ` set (cg_canonical_counts g)"
proof -
  have cons: "\<exists>x \<in> set (c # cs). canonical_name g = Some (fst x)" if "cg_canonical_counts g = c # cs" for c cs
  proof -
    from fold_canonical [of cs c] obtain x where "x \<in> set (c # cs)" "fold (\<lambda>c best. case best of
      None \<Rightarrow> Some c | Some b \<Rightarrow> if canonical_le b c then Some c else Some b) cs (Some c) = Some x"
      unfolding image_iff list.set(2) by (elim bexE) (rule that, simp_all)
    then show ?thesis unfolding canonical_name_def that by (intro bexI [of _ x]) simp_all
  qed
  show "canonical_name g \<noteq> None" if "cg_canonical_counts g \<noteq> []"
    using that cons by (cases "cg_canonical_counts g") auto
  show "n \<in> fst ` set (cg_canonical_counts g)" if "canonical_name g = Some n"
  proof (cases "cg_canonical_counts g")
    case Nil
    with that show ?thesis by (simp add: canonical_name_def)
  next
    case (Cons c cs)
    from cons [OF this] that Cons show ?thesis by force
  qed
qed

section \<open>Absorbing groups\<close>

lemma absorb_props:
  assumes "t < length gs" and "j < length gs" and "t \<noteq> j"
    and "group_ok lower (gs ! t)" and "group_ok lower (gs ! j)"
  shows "length (absorb lower t j gs) = length gs"
    and "i \<noteq> t \<Longrightarrow> i \<noteq> j \<Longrightarrow> absorb lower t j gs ! i = gs ! i"
    and "absorb lower t j gs ! j = empty_group\<lparr>cg_merged_into := Some t\<rparr>"
    and "set (cg_keys (absorb lower t j gs ! t)) = set (cg_keys (gs ! t)) \<union> set (cg_keys (gs ! j))"
    and "canonical_keys lower (absorb lower t j gs ! t) = canonical_keys lower (gs ! t) \<union> canonical_keys lower (gs ! j)"
    and "cg_merged_into (absorb lower t j gs ! t) = cg_merged_into (gs ! t)"
    and "group_ok lower (absorb lower t j gs ! t)"
proof -
  let ?n = "normalized_character_name lower"
  let ?g = "raise_confidence (cg_confidence (gs ! j)) (fold (\<lambda>(name, n). count_canonical name n)
      (cg_canonical_counts (gs ! j)) (fold (add_name lower) (cg_names (gs ! j)) (gs ! t)))"
  have eq: "absorb lower t j gs = gs[j := empty_group\<lparr>cg_merged_into := Some t\<rparr>, t := ?g]"
    using assms(3) by (simp add: absorb_def Let_def)
  show "length (absorb lower t j gs) = length gs"
    "i \<noteq> t \<Longrightarrow> i \<noteq> j \<Longrightarrow> absorb lower t j gs ! i = gs ! i"
    "absorb lower t j gs ! j = empty_group\<lparr>cg_merged_into := Some t\<rparr>"
    using assms(2,3) by (simp_all add: eq)
  have at: "absorb lower t j gs ! t = ?g" using assms(1) by (simp add: eq)
  have keys: "set (cg_keys (gs ! j)) = ?n ` set (cg_names (gs ! j))" using assms(5) by (simp add: group_ok_def)
  show k: "set (cg_keys (absorb lower t j gs ! t)) = set (cg_keys (gs ! t)) \<union> set (cg_keys (gs ! j))"
    by (simp add: at keys Un_commute)
  show c: "canonical_keys lower (absorb lower t j gs ! t) = canonical_keys lower (gs ! t) \<union> canonical_keys lower (gs ! j)"
    by (simp add: at canonical_keys_def image_Un Un_commute)
  show "cg_merged_into (absorb lower t j gs ! t) = cg_merged_into (gs ! t)" by (simp add: at)
  have "?n ` set (cg_names (absorb lower t j gs ! t)) = ?n ` set (cg_names (gs ! j)) \<union> ?n ` set (cg_names (gs ! t))"
    by (simp add: at)
  then show "group_ok lower (absorb lower t j gs ! t)"
    using assms(4,5) k c by (auto simp: group_ok_def)
qed

lemma fold_absorb:
  assumes "t < length gs" and "\<forall>j \<in> set js. j < length gs \<and> j \<noteq> t" and "distinct js"
    and "\<forall>i < length gs. group_ok lower (gs ! i)"
  shows "length (fold (absorb lower t) js gs) = length gs"
    and "i \<noteq> t \<Longrightarrow> i \<notin> set js \<Longrightarrow> fold (absorb lower t) js gs ! i = gs ! i"
    and "i \<in> set js \<Longrightarrow> fold (absorb lower t) js gs ! i = empty_group\<lparr>cg_merged_into := Some t\<rparr>"
    and "set (cg_keys (fold (absorb lower t) js gs ! t)) = set (cg_keys (gs ! t)) \<union> (\<Union>j \<in> set js. set (cg_keys (gs ! j)))"
    and "canonical_keys lower (fold (absorb lower t) js gs ! t)
      = canonical_keys lower (gs ! t) \<union> (\<Union>j \<in> set js. canonical_keys lower (gs ! j))"
    and "cg_merged_into (fold (absorb lower t) js gs ! t) = cg_merged_into (gs ! t)"
    and "group_ok lower (fold (absorb lower t) js gs ! t)"
proof -
  have "length (fold (absorb lower t) js gs) = length gs
    \<and> (\<forall>i. i \<noteq> t \<and> i \<notin> set js \<longrightarrow> fold (absorb lower t) js gs ! i = gs ! i)
    \<and> (\<forall>i \<in> set js. fold (absorb lower t) js gs ! i = empty_group\<lparr>cg_merged_into := Some t\<rparr>)
    \<and> set (cg_keys (fold (absorb lower t) js gs ! t)) = set (cg_keys (gs ! t)) \<union> (\<Union>j \<in> set js. set (cg_keys (gs ! j)))
    \<and> canonical_keys lower (fold (absorb lower t) js gs ! t)
      = canonical_keys lower (gs ! t) \<union> (\<Union>j \<in> set js. canonical_keys lower (gs ! j))
    \<and> cg_merged_into (fold (absorb lower t) js gs ! t) = cg_merged_into (gs ! t)
    \<and> group_ok lower (fold (absorb lower t) js gs ! t)"
    using assms
  proof (induction js arbitrary: gs)
    case (Cons j js)
    then have h: "t < length gs" "j < length gs" "t \<noteq> j" "group_ok lower (gs ! t)" "group_ok lower (gs ! j)" by auto
    note a = absorb_props [OF h]
    let ?g = "absorb lower t j gs"
    have ok: "\<forall>i < length ?g. group_ok lower (?g ! i)"
    proof (intro allI impI)
      fix i assume "i < length ?g"
      then show "group_ok lower (?g ! i)"
        using a Cons.prems(4) by (cases "i = t"; cases "i = j") simp_all
    qed
    have same: "?g ! k = gs ! k" if "k \<in> set js" for k using a(2) [of k] that Cons.prems(2,3) by auto
    have pre: "t < length ?g" "\<forall>k \<in> set js. k < length ?g \<and> k \<noteq> t" "distinct js"
      using Cons.prems(1-3) a(1) by auto
    from Cons.IH [OF pre ok] a h(3) same Cons.prems(3) show ?case by (simp add: Un_assoc)
  qed simp
  then show "length (fold (absorb lower t) js gs) = length gs"
    "i \<noteq> t \<Longrightarrow> i \<notin> set js \<Longrightarrow> fold (absorb lower t) js gs ! i = gs ! i"
    "i \<in> set js \<Longrightarrow> fold (absorb lower t) js gs ! i = empty_group\<lparr>cg_merged_into := Some t\<rparr>"
    "set (cg_keys (fold (absorb lower t) js gs ! t)) = set (cg_keys (gs ! t)) \<union> (\<Union>j \<in> set js. set (cg_keys (gs ! j)))"
    "canonical_keys lower (fold (absorb lower t) js gs ! t)
      = canonical_keys lower (gs ! t) \<union> (\<Union>j \<in> set js. canonical_keys lower (gs ! j))"
    "cg_merged_into (fold (absorb lower t) js gs ! t) = cg_merged_into (gs ! t)"
    "group_ok lower (fold (absorb lower t) js gs ! t)" by blast+
qed

section \<open>The invariant of the merger\<close>

text \<open>No canonical key of a live group is a key of another one.\<close>

definition cast_inv :: "(str \<Rightarrow> str) \<Rightarrow> cast_group list \<Rightarrow> bool" where
  "cast_inv lower gs \<longleftrightarrow> (\<forall>i < length gs. group_ok lower (gs ! i))
     \<and> (\<forall>i \<in> set (live_groups gs). cg_canonical_counts (gs ! i) \<noteq> [])
     \<and> (\<forall>i \<in> set (live_groups gs). \<forall>j \<in> set (live_groups gs).
          i \<noteq> j \<longrightarrow> canonical_keys lower (gs ! i) \<inter> set (cg_keys (gs ! j)) = {})"

lemma live_groups_iff: "i \<in> set (live_groups gs) \<longleftrightarrow> i < length gs \<and> cg_merged_into (gs ! i) = None"
  by (auto simp: live_groups_def)

lemma distinct_live [simp]: "distinct (live_groups gs)"
  by (simp add: live_groups_def)

lemma canonical_counts_iff: "canonical_keys lower g = {} \<longleftrightarrow> cg_canonical_counts g = []"
  by (simp add: canonical_keys_def)

lemma group_matches_iff:
  "group_matches lower k ks g \<longleftrightarrow> k \<in> set (cg_keys g) \<or> canonical_keys lower g \<inter> set ks \<noteq> {}"
proof -
  have "list_ex (\<lambda>(existing, _). normalized_character_name lower existing \<in> set ks) (cg_canonical_counts g)
    \<longleftrightarrow> canonical_keys lower g \<inter> set ks \<noteq> {}"
    unfolding list_ex_iff case_prod_unfold canonical_keys_def image_image disjoint_iff by blast
  then show ?thesis by (simp add: group_matches_def)
qed

lemma canonical_in_names:
  assumes "lower [] = []" and "normalized_character_name lower (str_trim (dc_canonical_name c)) \<noteq> []"
  shows "str_trim (dc_canonical_name c) \<in> set (character_names c)"
proof -
  have "str_trim (dc_canonical_name c) \<noteq> []"
  proof
    assume "str_trim (dc_canonical_name c) = []"
    with assms show False by (simp add: normalized_character_name_def chars_of.simps)
  qed
  then show ?thesis by (simp add: character_names_def)
qed

lemma empty_group_props [simp]:
  "cg_merged_into empty_group = None" "cg_keys empty_group = []" "cg_canonical_counts empty_group = []"
  "canonical_keys lower empty_group = {}"
  by (simp_all add: empty_group_def canonical_keys_def)

lemma recorded_character:
  fixes g :: cast_group and lower :: "str \<Rightarrow> str" and n :: str and ns :: "str list" and d :: fval
  defines "g' \<equiv> raise_confidence d (count_canonical n 1 (fold (add_name lower) ns g))"
  shows "set (cg_keys g') = normalized_character_name lower ` set ns \<union> set (cg_keys g)"
    and "canonical_keys lower g' = insert (normalized_character_name lower n) (canonical_keys lower g)"
    and "cg_merged_into g' = cg_merged_into g"
    and "cg_canonical_counts g' \<noteq> []"
    and "group_ok lower g \<Longrightarrow> n \<in> set ns \<Longrightarrow> group_ok lower g'"
proof -
  show k: "set (cg_keys g') = normalized_character_name lower ` set ns \<union> set (cg_keys g)"
    by (simp add: g'_def)
  show c: "canonical_keys lower g' = insert (normalized_character_name lower n) (canonical_keys lower g)"
    by (simp add: g'_def canonical_keys_def)
  show "cg_merged_into g' = cg_merged_into g" by (simp add: g'_def)
  show "cg_canonical_counts g' \<noteq> []" using c canonical_counts_iff [of lower g'] by auto
  have "normalized_character_name lower ` set (cg_names g')
    = normalized_character_name lower ` set ns \<union> normalized_character_name lower ` set (cg_names g)"
    by (simp add: g'_def)
  then show "group_ok lower g'" if "group_ok lower g" "n \<in> set ns"
    using that k c by (auto simp: group_ok_def)
qed

lemma cast_inv_disjoint:
  "cast_inv lower gs \<Longrightarrow> i \<in> set (live_groups gs) \<Longrightarrow> j \<in> set (live_groups gs) \<Longrightarrow> i \<noteq> j \<Longrightarrow>
    canonical_keys lower (gs ! i) \<inter> set (cg_keys (gs ! j)) = {}"
  by (simp add: cast_inv_def)

lemma cast_invI:
  assumes "\<And>i. i < length gs \<Longrightarrow> group_ok lower (gs ! i)"
    and "\<And>i. i \<in> set (live_groups gs) \<Longrightarrow> cg_canonical_counts (gs ! i) \<noteq> []"
    and "\<And>i j. i \<in> set (live_groups gs) \<Longrightarrow> j \<in> set (live_groups gs) \<Longrightarrow> i \<noteq> j \<Longrightarrow>
      canonical_keys lower (gs ! i) \<inter> set (cg_keys (gs ! j)) = {}"
  shows "cast_inv lower gs"
  using assms by (simp add: cast_inv_def)

lemma canonical_keys_sub:
  assumes "cast_inv lower gs" and "i \<in> set (live_groups gs)"
  shows "canonical_keys lower (gs ! i) \<subseteq> set (cg_keys (gs ! i))"
proof -
  have "group_ok lower (gs ! i)" using assms by (simp add: cast_inv_def live_groups_iff)
  then show ?thesis unfolding group_ok_def by (rule conjunct2)
qed

lemma has_canonical_key_iff: "has_canonical_key lower g k \<longleftrightarrow> k \<in> canonical_keys lower g"
  unfolding has_canonical_key_def list_ex_iff case_prod_unfold canonical_keys_def image_image image_iff by auto

text \<open>What a new character does to the groups: the matching ones become one.\<close>

lemma merged_groups:
  assumes inv: "cast_inv lower gs" and new: "gs1 = gs \<and> matched = t # js \<or> gs1 = gs @ [empty_group] \<and> matched = [] \<and> t = length gs \<and> js = []"
    and matched: "matched = filter P (live_groups gs)"
    and g': "set (cg_keys g') = K \<union> set (cg_keys (fold (absorb lower t) js gs1 ! t))"
      "canonical_keys lower g' = insert k (canonical_keys lower (fold (absorb lower t) js gs1 ! t))"
      "cg_merged_into g' = cg_merged_into (fold (absorb lower t) js gs1 ! t)" "cg_canonical_counts g' \<noteq> []"
      "group_ok lower (fold (absorb lower t) js gs1 ! t) \<Longrightarrow> group_ok lower g'"
    and P: "\<And>i. \<not> P i \<Longrightarrow> k \<notin> set (cg_keys (gs ! i)) \<and> canonical_keys lower (gs ! i) \<inter> K = {}" and "k \<in> K"
  shows "cast_inv lower ((fold (absorb lower t) js gs1)[t := g'])"
proof -
  let ?gs = "fold (absorb lower t) js gs1"
  have set_matched: "i \<in> set matched \<longleftrightarrow> i < length gs \<and> cg_merged_into (gs ! i) = None \<and> P i" for i
    by (auto simp: matched live_groups_iff)
  have d: "distinct matched" by (simp add: matched)
  have basic: "t < length gs1 \<and> (\<forall>j \<in> set js. j < length gs1 \<and> j \<noteq> t) \<and> distinct js
    \<and> (\<forall>i < length gs1. group_ok lower (gs1 ! i)) \<and> cg_merged_into (gs1 ! t) = None"
  proof (cases "matched = []")
    case True
    with new have n: "gs1 = gs @ [empty_group]" "t = length gs" "js = []" by auto
    from inv have "\<forall>i < length gs. group_ok lower (gs ! i)" by (simp add: cast_inv_def)
    then show ?thesis by (simp add: n nth_append less_Suc_eq)
  next
    case False
    with new have n: "gs1 = gs" "matched = t # js" by auto
    have "t < length gs" "cg_merged_into (gs ! t) = None" "\<forall>j \<in> set js. j < length gs"
      using set_matched n(2) by auto
    moreover have "t \<notin> set js" "distinct js" using d n(2) by auto
    moreover have "\<forall>i < length gs. group_ok lower (gs ! i)" using inv by (simp add: cast_inv_def)
    ultimately show ?thesis unfolding n(1) by blast
  qed
  then have t: "t < length gs1" and js: "\<forall>j \<in> set js. j < length gs1 \<and> j \<noteq> t" and djs: "distinct js"
    and ok1: "\<forall>i < length gs1. group_ok lower (gs1 ! i)" and tlive: "cg_merged_into (gs1 ! t) = None"
    by blast+
  note f = fold_absorb [OF t js djs ok1]
  have len: "length (?gs[t := g']) = length gs1" using f(1) by simp
  have nth: "?gs[t := g'] ! i = (if i = t then g' else if i \<in> set js then empty_group\<lparr>cg_merged_into := Some t\<rparr> else gs1 ! i)"
    for i using f(1-3) t by simp
  text \<open>The other live groups are live groups that did not match.\<close>
  have other: "i < length gs \<and> gs1 ! i = gs ! i \<and> i \<in> set (live_groups gs) \<and> \<not> P i \<and> ?gs[t := g'] ! i = gs ! i"
    if "i \<in> set (live_groups (?gs[t := g']))" "i \<noteq> t" for i
  proof -
    have i: "i < length gs1" "i \<notin> set js" "cg_merged_into (gs1 ! i) = None"
      using that len nth [of i] by (auto simp: live_groups_iff empty_group_def split: if_splits)
    have l: "i < length gs" "gs1 ! i = gs ! i" using new i(1) that(2) by (auto simp: nth_append)
    have "i \<notin> set matched" using new i(2) that(2) by auto
    with i l that(2) show ?thesis using set_matched [of i] nth [of i] by (simp add: live_groups_iff)
  qed
  have keys_t: "set (cg_keys g') = K \<union> (\<Union>j \<in> set matched. set (cg_keys (gs ! j)))"
    using f(4) g'(1) new by (elim disjE conjE) simp_all
  have canon_t: "canonical_keys lower g' = insert k (\<Union>j \<in> set matched. canonical_keys lower (gs ! j))"
    using f(5) g'(2) new by (elim disjE conjE) simp_all
  have sep: "canonical_keys lower (gs ! i) \<inter> set (cg_keys g') = {}" "canonical_keys lower g' \<inter> set (cg_keys (gs ! i)) = {}"
    if "i \<in> set (live_groups gs)" "\<not> P i" for i
  proof -
    have ij: "canonical_keys lower (gs ! i) \<inter> set (cg_keys (gs ! j)) = {}"
      "canonical_keys lower (gs ! j) \<inter> set (cg_keys (gs ! i)) = {}" if "j \<in> set matched" for j
      using cast_inv_disjoint [OF inv, of i j] cast_inv_disjoint [OF inv, of j i] that
        \<open>i \<in> set (live_groups gs)\<close> \<open>\<not> P i\<close> by (auto simp: matched)
    show "canonical_keys lower (gs ! i) \<inter> set (cg_keys g') = {}"
      using ij(1) P [OF that(2)] unfolding keys_t by auto
    show "canonical_keys lower g' \<inter> set (cg_keys (gs ! i)) = {}"
      using ij(2) P [OF that(2)] unfolding canon_t by auto
  qed
  show ?thesis
  proof (rule cast_invI)
    fix i assume "i < length (?gs[t := g'])"
    then show "group_ok lower (?gs[t := g'] ! i)"
      using ok1 len g'(5) f(7) by (simp add: nth)
  next
    fix i assume "i \<in> set (live_groups (?gs[t := g']))"
    then show "cg_canonical_counts (?gs[t := g'] ! i) \<noteq> []"
      using other [of i] inv g'(4) nth [of i] by (cases "i = t") (simp_all add: cast_inv_def)
  next
    fix i j assume ij: "i \<in> set (live_groups (?gs[t := g']))" "j \<in> set (live_groups (?gs[t := g']))" "i \<noteq> j"
    have at: "?gs[t := g'] ! t = g'" by (simp add: nth)
    show "canonical_keys lower (?gs[t := g'] ! i) \<inter> set (cg_keys (?gs[t := g'] ! j)) = {}"
    proof (cases "i = t")
      case True
      with ij other [of j] sep(2) [of j] at show ?thesis by simp
    next
      case False
      show ?thesis
      proof (cases "j = t")
        case True
        with ij other [of i] sep(1) [of i] at show ?thesis by simp
      next
        case f2: False
        with False ij other [of i] other [of j] show ?thesis by (simp add: cast_inv_disjoint [OF inv])
      qed
    qed
  qed
qed

lemma add_character_inv:
  assumes inv: "cast_inv lower gs" and lower: "lower [] = []"
  shows "cast_inv lower (add_character lower c gs)"
proof (cases "normalized_character_name lower (str_trim (dc_canonical_name c)) = []")
  case True
  with inv show ?thesis by (simp add: add_character_def)
next
  case False
  let ?k = "normalized_character_name lower (str_trim (dc_canonical_name c))"
  let ?ks = "map (normalized_character_name lower) (character_names c)"
  let ?P = "\<lambda>i. group_matches lower ?k ?ks (gs ! i)"
  let ?matched = "filter ?P (live_groups gs)"
  obtain gs1 t where new: "(case ?matched of i # _ \<Rightarrow> (gs, i) | [] \<Rightarrow> (gs @ [empty_group], length gs)) = (gs1, t)"
    by fastforce
  let ?g' = "raise_confidence (dc_confidence c) (count_canonical (str_trim (dc_canonical_name c)) 1
    (fold (add_name lower) (character_names c) (fold (absorb lower t) (tl ?matched) gs1 ! t)))"
  have eq: "add_character lower c gs = (fold (absorb lower t) (tl ?matched) gs1)[t := ?g']"
    using False by (simp add: add_character_def Let_def new)
  have n: "str_trim (dc_canonical_name c) \<in> set (character_names c)"
    using canonical_in_names lower False by blast
  show ?thesis unfolding eq
  proof (rule merged_groups [where matched = ?matched and P = ?P and K = "set ?ks" and k = ?k])
    show "gs1 = gs \<and> ?matched = t # tl ?matched
      \<or> gs1 = gs @ [empty_group] \<and> ?matched = [] \<and> t = length gs \<and> tl ?matched = []"
      using new by (cases ?matched) simp_all
    show "?k \<notin> set (cg_keys (gs ! i)) \<and> canonical_keys lower (gs ! i) \<inter> set ?ks = {}" if "\<not> ?P i" for i
      using that by (simp add: group_matches_iff)
    show "?k \<in> set ?ks" using n by simp
  qed (use inv recorded_character n in \<open>simp_all\<close>)
qed

lemma fold_add_character_inv:
  "cast_inv lower gs \<Longrightarrow> lower [] = [] \<Longrightarrow> cast_inv lower (fold (add_character lower) cs gs)"
  by (induction cs arbitrary: gs) (simp_all add: add_character_inv)

section \<open>Speakers\<close>

text \<open>A speaker that was resolved: its group bears its name.\<close>

definition resolved :: "(str \<Rightarrow> str) \<Rightarrow> cast_group list \<Rightarrow> str \<Rightarrow> usize option \<Rightarrow> bool" where
  "resolved lower gs name s = (case s of None \<Rightarrow> normalized_character_name lower name = []
     | Some i \<Rightarrow> normalized_character_name lower name \<noteq> [] \<and> i \<in> set (live_groups gs)
         \<and> normalized_character_name lower name \<in> set (cg_keys (gs ! i)))"

lemma root_live: "i \<in> set (live_groups gs) \<Longrightarrow> root gs i = i"
  by (cases "length gs") (simp_all add: root_def live_groups_iff)

lemma live_append: "i \<in> set (live_groups gs) \<Longrightarrow> i \<in> set (live_groups (gs @ ex)) \<and> (gs @ ex) ! i = gs ! i"
  by (simp add: live_groups_iff nth_append)

lemma live_snoc: "i \<in> set (live_groups (gs @ [g])) \<Longrightarrow> i = length gs \<and> cg_merged_into g = None \<or> i \<in> set (live_groups gs)"
  by (auto simp: live_groups_iff nth_append less_Suc_eq split: if_splits)

lemma resolved_append: "resolved lower gs name s \<Longrightarrow> resolved lower (gs @ ex) name s"
  using live_append [of _ gs ex] by (auto simp: resolved_def split: option.splits)

text \<open>A new group whose only name is no key of another group keeps the invariant.\<close>

lemma cast_inv_snoc:
  assumes inv: "cast_inv lower gs" and g: "set (cg_keys g) = {key}" "canonical_keys lower g = {key}" "group_ok lower g"
    and new: "\<forall>i \<in> set (live_groups gs). key \<notin> set (cg_keys (gs ! i))"
  shows "cast_inv lower (gs @ [g])"
proof (rule cast_invI)
  fix i assume "i < length (gs @ [g])"
  then show "group_ok lower ((gs @ [g]) ! i)"
    using inv g(3) by (auto simp: cast_inv_def nth_append less_Suc_eq)
next
  fix i assume "i \<in> set (live_groups (gs @ [g]))"
  then show "cg_canonical_counts ((gs @ [g]) ! i) \<noteq> []"
    using live_snoc [of i gs g] live_append [of i gs "[g]"] inv g(2) canonical_counts_iff [of lower g]
    by (auto simp: cast_inv_def)
next
  fix i j assume ij: "i \<in> set (live_groups (gs @ [g]))" "j \<in> set (live_groups (gs @ [g]))" "i \<noteq> j"
  have old: "canonical_keys lower (gs ! k) \<inter> {key} = {}" "{key} \<inter> set (cg_keys (gs ! k)) = {}"
    if "k \<in> set (live_groups gs)" for k
    using new canonical_keys_sub [OF inv that] that by auto
  from live_snoc [OF ij(1)] live_snoc [OF ij(2)] ij(3)
  consider "i = length gs" "j \<in> set (live_groups gs)" | "j = length gs" "i \<in> set (live_groups gs)"
    | "i \<in> set (live_groups gs)" "j \<in> set (live_groups gs)" by auto
  then show "canonical_keys lower ((gs @ [g]) ! i) \<inter> set (cg_keys ((gs @ [g]) ! j)) = {}"
  proof cases
    case 1
    with old(2) [of j] g live_append [of j gs "[g]"] show ?thesis by simp
  next
    case 2
    with old(1) [of i] g live_append [of i gs "[g]"] show ?thesis by simp
  next
    case 3
    with live_append [of i gs "[g]"] live_append [of j gs "[g]"] cast_inv_disjoint [OF inv 3 ij(3)]
    show ?thesis by simp
  qed
qed

lemma cast_speaker_resolves:
  assumes inv: "cast_inv lower gs" and s: "cast_speaker lower name conf gs = (s, gs')"
  shows "cast_inv lower gs' \<and> (\<exists>ex. gs' = gs @ ex) \<and> resolved lower gs' name s"
proof (cases "normalized_character_name lower name = []")
  case True
  with s inv show ?thesis by (auto simp: cast_speaker_def resolved_def)
next
  case False
  let ?key = "normalized_character_name lower name"
  let ?found = "case find (\<lambda>i. has_canonical_key lower (gs ! i) ?key) (live_groups gs) of
      Some i \<Rightarrow> Some i | None \<Rightarrow> find (\<lambda>i. ?key \<in> set (cg_keys (gs ! i))) (live_groups gs)"
  show ?thesis
  proof (cases ?found)
    case (Some i)
    have i: "i \<in> set (live_groups gs) \<and> (has_canonical_key lower (gs ! i) ?key \<or> ?key \<in> set (cg_keys (gs ! i)))"
      using Some by (auto simp: find_Some_iff split: option.splits)
    then have "?key \<in> set (cg_keys (gs ! i))"
      using canonical_keys_sub [OF inv, of i] by (auto simp: has_canonical_key_iff)
    moreover have "s = Some i \<and> gs' = gs"
      using s False Some root_live i by (simp add: cast_speaker_def Let_def)
    ultimately show ?thesis using inv i False by (simp add: resolved_def)
  next
    case None
    let ?g = "(add_name lower (str_trim name) (empty_group\<lparr>cg_confidence := conf\<rparr>))
      \<lparr>cg_canonical_counts := [(str_trim name, 1)]\<rparr>"
    have new: "\<forall>i \<in> set (live_groups gs). ?key \<notin> set (cg_keys (gs ! i))"
      using None by (auto simp: find_None_iff split: option.splits)
    have g: "set (cg_keys ?g) = {?key}" "canonical_keys lower ?g = {?key}" "group_ok lower ?g" "cg_merged_into ?g = None"
      by (simp_all add: add_name_def Let_def empty_group_def canonical_keys_def group_ok_def normalized_trim)
    have eq: "s = Some (length gs)" "gs' = gs @ [?g]"
      using s False None by (simp_all add: cast_speaker_def Let_def)
    have "resolved lower gs' name s" using False g by (simp add: eq resolved_def live_groups_iff)
    with cast_inv_snoc [OF inv g(1-3) new] show ?thesis by (simp add: eq)
  qed
qed

lemma cast_speakers_resolve:
  "cast_inv lower gs \<Longrightarrow> cast_speakers lower ds gs = (ss, gs') \<Longrightarrow>
    cast_inv lower gs' \<and> (\<exists>ex. gs' = gs @ ex) \<and> list_all2 (\<lambda>d s. resolved lower gs' (dd_character d) s) ds ss"
proof (induction ds arbitrary: gs ss)
  case (Cons d ds)
  obtain s gs1 where s: "cast_speaker lower (dd_character d) (dd_confidence d) gs = (s, gs1)" by fastforce
  obtain ss' where ss': "cast_speakers lower ds gs1 = (ss', gs')" "ss = s # ss'"
    using Cons.prems(2) by (auto simp: s split: prod.splits)
  note a = cast_speaker_resolves [OF Cons.prems(1) s]
  from a have "cast_inv lower gs1" by blast
  note b = Cons.IH [OF this ss'(1)]
  from a b obtain ex ex' where e: "gs1 = gs @ ex" "gs' = gs1 @ ex'" by blast
  have "resolved lower gs' (dd_character d) s" using a resolved_append [of lower gs1] by (simp add: e(2))
  with b show ?case by (simp add: ss'(2)) (simp add: e)
qed simp

section \<open>The merged cast\<close>

text \<open>The keys a character of the result answers to, its canonical one first.\<close>

definition character_keys :: "(str \<Rightarrow> str) \<Rightarrow> detected_character \<Rightarrow> str list" where
  "character_keys lower c = map (normalized_character_name lower) (dc_canonical_name c # dc_aliases c)"

lemma group_character_keys:
  assumes inv: "cast_inv lower gs" and i: "i \<in> set (live_groups gs)"
  shows "\<exists>c. group_character lower (gs ! i) = Some c \<and> canonical_name (gs ! i) = Some (dc_canonical_name c)
    \<and> set (character_keys lower c) = set (cg_keys (gs ! i))
    \<and> normalized_character_name lower (dc_canonical_name c) \<in> canonical_keys lower (gs ! i)"
proof -
  have "cg_canonical_counts (gs ! i) \<noteq> []" using inv i by (simp add: cast_inv_def)
  then obtain n where n: "canonical_name (gs ! i) = Some n" using canonical_name_props(1) by blast
  have k: "normalized_character_name lower n \<in> canonical_keys lower (gs ! i)"
    unfolding canonical_keys_def using canonical_name_props(2) [OF n] by (rule imageI)
  have "group_ok lower (gs ! i)" using inv i by (simp add: cast_inv_def live_groups_iff)
  then have keys: "set (cg_keys (gs ! i)) = normalized_character_name lower ` set (cg_names (gs ! i))"
    unfolding group_ok_def by (rule conjunct1)
  from k canonical_keys_sub [OF inv i]
  have "normalized_character_name lower n \<in> normalized_character_name lower ` set (cg_names (gs ! i))"
    unfolding keys by blast
  then have "insert (normalized_character_name lower n) (normalized_character_name lower ` set (filter
    (\<lambda>m. normalized_character_name lower m \<noteq> normalized_character_name lower n) (cg_names (gs ! i))))
    = normalized_character_name lower ` set (cg_names (gs ! i))" by auto
  with n k show ?thesis by (simp add: group_character_def character_keys_def keys)
qed

text \<open>Attribution keeps the dialogues whose speaker has a name.\<close>

lemma attribution:
  assumes inv: "cast_inv lower gs"
  shows "list_all2 (\<lambda>d s. resolved lower gs (dd_character d) s) ds ss \<Longrightarrow>
    list_all2 (\<lambda>d (i, d'). i \<in> set (live_groups gs) \<and> canonical_name (gs ! i) = Some (dd_character d')
        \<and> normalized_character_name lower (dd_character d) \<in> set (cg_keys (gs ! i))
        \<and> d' = d\<lparr>dd_character := dd_character d'\<rparr>)
      (filter (\<lambda>d. normalized_character_name lower (dd_character d) \<noteq> []) ds)
      (List.map_filter (attribute_dialogue gs) (zip ds ss))"
proof (induction ds ss rule: list_all2_induct)
  case (Cons d ds s ss)
  show ?case
  proof (cases s)
    case None
    with Cons show ?thesis by (simp add: resolved_def attribute_dialogue_def map_filter_simps)
  next
    case (Some i)
    with Cons have i: "i \<in> set (live_groups gs)" "normalized_character_name lower (dd_character d) \<noteq> []"
      "normalized_character_name lower (dd_character d) \<in> set (cg_keys (gs ! i))" by (simp_all add: resolved_def)
    from group_character_keys [OF inv i(1)] obtain n where "canonical_name (gs ! i) = Some n" by blast
    with i Cons.IH show ?thesis by (simp add: Some attribute_dialogue_def map_filter_simps)
  qed
qed (simp add: map_filter_simps)

lemma listed_characters:
  assumes inv: "cast_inv lower gs"
  shows "List.map_filter (\<lambda>i. group_character lower (gs ! i)) (filter P (live_groups gs))
    = map (\<lambda>i. the (group_character lower (gs ! i))) (filter P (live_groups gs))"
proof -
  have "group_character lower (gs ! i) \<noteq> None" if "i \<in> set (live_groups gs)" for i
    using group_character_keys [OF inv that] by auto
  then have "filter (\<lambda>i. group_character lower (gs ! i) \<noteq> None) (filter P (live_groups gs)) = filter P (live_groups gs)"
    by (intro filter_True) simp
  then show ?thesis by (simp add: map_filter_def del: filter_filter)
qed

lemma canonicalized_cast:
  fixes r :: detection_result
  assumes lower: "lower [] = []"
  defines "r' \<equiv> canonicalize_detection_result lower r"
  shows "sorted_wrt (\<lambda>c c'. normalized_character_name lower (dc_canonical_name c) \<notin> set (character_keys lower c')
      \<and> normalized_character_name lower (dc_canonical_name c') \<notin> set (character_keys lower c)) (dr_characters r')"
    and "list_all2 (\<lambda>d d'. d' = d\<lparr>dd_character := dd_character d'\<rparr> \<and> list_ex (\<lambda>c. dc_canonical_name c = dd_character d'
          \<and> normalized_character_name lower (dd_character d) \<in> set (character_keys lower c)) (dr_characters r'))
      (filter (\<lambda>d. normalized_character_name lower (dd_character d) \<noteq> []) (dr_dialogue r)) (dr_dialogue r')"
    and "list_all (\<lambda>c. list_ex (\<lambda>d. dd_character d = dc_canonical_name c) (dr_dialogue r')
      \<or> ''narrator'' \<in> set (character_keys lower c)) (dr_characters r')"
proof -
  obtain ss gs where ss: "cast_speakers lower (dr_dialogue r) (fold (add_character lower) (dr_characters r) []) = (ss, gs)"
    by fastforce
  have "cast_inv lower []" by (simp add: cast_inv_def live_groups_def)
  then have "cast_inv lower (fold (add_character lower) (dr_characters r) [])"
    using fold_add_character_inv lower by blast
  from cast_speakers_resolve [OF this ss] have inv: "cast_inv lower gs"
    and res: "list_all2 (\<lambda>d s. resolved lower gs (dd_character d) s) (dr_dialogue r) ss" by blast+
  let ?at = "List.map_filter (attribute_dialogue gs) (zip (dr_dialogue r) ss)"
  let ?P = "\<lambda>i. i \<in> set (map fst ?at) \<or> ''narrator'' \<in> set (cg_keys (gs ! i))"
  let ?c = "\<lambda>i. the (group_character lower (gs ! i))"
  have dial: "dr_dialogue r' = map snd ?at"
    by (simp add: r'_def canonicalize_detection_result_def ss Let_def)
  have char: "dr_characters r' = map ?c (filter ?P (live_groups gs))"
    using listed_characters [OF inv, of ?P] by (simp add: r'_def canonicalize_detection_result_def ss Let_def)
  have at: "list_all2 (\<lambda>d (i, d'). i \<in> set (live_groups gs) \<and> canonical_name (gs ! i) = Some (dd_character d')
        \<and> normalized_character_name lower (dd_character d) \<in> set (cg_keys (gs ! i))
        \<and> d' = d\<lparr>dd_character := dd_character d'\<rparr>)
      (filter (\<lambda>d. normalized_character_name lower (dd_character d) \<noteq> []) (dr_dialogue r)) ?at"
    by (rule attribution [OF inv res])
  have c: "canonical_name (gs ! i) = Some (dc_canonical_name (?c i)) \<and> set (character_keys lower (?c i)) = set (cg_keys (gs ! i))
    \<and> normalized_character_name lower (dc_canonical_name (?c i)) \<in> canonical_keys lower (gs ! i)"
    if i: "i \<in> set (live_groups gs)" for i
  proof -
    from group_character_keys [OF inv i] obtain ch where ch: "group_character lower (gs ! i) = Some ch"
      "canonical_name (gs ! i) = Some (dc_canonical_name ch)" "set (character_keys lower ch) = set (cg_keys (gs ! i))"
      "normalized_character_name lower (dc_canonical_name ch) \<in> canonical_keys lower (gs ! i)" by (elim exE conjE)
    have "?c i = ch" by (simp only: ch(1) option.sel)
    with ch(2-4) show ?thesis by (simp only: simp_thms)
  qed
  have "sorted_wrt (<) (filter ?P (live_groups gs))"
    unfolding live_groups_def by (intro sorted_wrt_filter) simp
  then show "sorted_wrt (\<lambda>c c'. normalized_character_name lower (dc_canonical_name c) \<notin> set (character_keys lower c')
      \<and> normalized_character_name lower (dc_canonical_name c') \<notin> set (character_keys lower c)) (dr_characters r')"
    unfolding char sorted_wrt_map
  proof (rule sorted_wrt_mono_rel [rotated])
    fix i j assume ij: "i \<in> set (filter ?P (live_groups gs))" "j \<in> set (filter ?P (live_groups gs))" "i < j"
    then have i: "i \<in> set (live_groups gs)" and j: "j \<in> set (live_groups gs)" and "i \<noteq> j" "j \<noteq> i" by simp_all
    have keys: "set (character_keys lower (?c i)) = set (cg_keys (gs ! i))" "set (character_keys lower (?c j)) = set (cg_keys (gs ! j))"
      using c [OF i] c [OF j] by blast+
    have names: "normalized_character_name lower (dc_canonical_name (?c i)) \<in> canonical_keys lower (gs ! i)"
      "normalized_character_name lower (dc_canonical_name (?c j)) \<in> canonical_keys lower (gs ! j)"
      using c [OF i] c [OF j] by blast+
    show "normalized_character_name lower (dc_canonical_name (?c i)) \<notin> set (character_keys lower (?c j))
      \<and> normalized_character_name lower (dc_canonical_name (?c j)) \<notin> set (character_keys lower (?c i))"
      unfolding keys using names cast_inv_disjoint [OF inv i j \<open>i \<noteq> j\<close>] cast_inv_disjoint [OF inv j i \<open>j \<noteq> i\<close>]
      by blast
  qed
  show "list_all2 (\<lambda>d d'. d' = d\<lparr>dd_character := dd_character d'\<rparr> \<and> list_ex (\<lambda>c. dc_canonical_name c = dd_character d'
          \<and> normalized_character_name lower (dd_character d) \<in> set (character_keys lower c)) (dr_characters r'))
      (filter (\<lambda>d. normalized_character_name lower (dd_character d) \<noteq> []) (dr_dialogue r)) (dr_dialogue r')"
    unfolding dial list_all2_map2
  proof (rule list.rel_mono_strong [OF at], elim case_prodE conjE)
    fix d x i d' assume x: "x \<in> set ?at" "x = (i, d')" "i \<in> set (live_groups gs)" "canonical_name (gs ! i) = Some (dd_character d')"
      "normalized_character_name lower (dd_character d) \<in> set (cg_keys (gs ! i))" "d' = d\<lparr>dd_character := dd_character d'\<rparr>"
    have "i \<in> set (map fst ?at)" using x(1,2) by force
    then have "?c i \<in> set (dr_characters r')" using x(3) by (simp add: char)
    then have "list_ex (\<lambda>c. dc_canonical_name c = dd_character d'
          \<and> normalized_character_name lower (dd_character d) \<in> set (character_keys lower c)) (dr_characters r')"
      using c [OF x(3)] x(4,5) by (auto simp: list_ex_iff)
    with x(2,6) show "snd x = d\<lparr>dd_character := dd_character (snd x)\<rparr> \<and> list_ex (\<lambda>c. dc_canonical_name c = dd_character (snd x)
          \<and> normalized_character_name lower (dd_character d) \<in> set (character_keys lower c)) (dr_characters r')" by simp
  qed
  show "list_all (\<lambda>c. list_ex (\<lambda>d. dd_character d = dc_canonical_name c) (dr_dialogue r')
      \<or> ''narrator'' \<in> set (character_keys lower c)) (dr_characters r')"
    unfolding list_all_iff
  proof
    fix ch assume "ch \<in> set (dr_characters r')"
    then obtain i where i: "i \<in> set (live_groups gs)" "?P i" "ch = ?c i" by (auto simp: char)
    show "list_ex (\<lambda>d. dd_character d = dc_canonical_name ch) (dr_dialogue r') \<or> ''narrator'' \<in> set (character_keys lower ch)"
    proof (cases "''narrator'' \<in> set (cg_keys (gs ! i))")
      case True
      with c [OF i(1)] i(3) show ?thesis by simp
    next
      case False
      with i(2) obtain d' where d': "(i, d') \<in> set ?at" by auto
      with at obtain d where "canonical_name (gs ! i) = Some (dd_character d')"
        by (auto simp: list_all2_conv_all_nth in_set_conv_nth)
      with c [OF i(1)] d' i(3) show ?thesis by (force simp: dial list_ex_iff)
    qed
  qed
qed

text \<open>C17. The cast of a detection run is resolved: each canonical name belongs to one listed character
  only, not even as an alias of another; every dialogue with a named speaker is kept in order, unchanged
  but for the name, which is the canonical name of a listed character that bears the name the provider
  gave; and a listed character speaks or is the narrator. \<open>lower\<close> maps the empty text to itself.\<close>

theorem cast_resolves_speakers:
  assumes "lower [] = []" and "canonicalize_detection_result lower r = r'"
  shows "sorted_wrt (\<lambda>c c'. normalized_character_name lower (dc_canonical_name c) \<notin> set (character_keys lower c')
      \<and> normalized_character_name lower (dc_canonical_name c') \<notin> set (character_keys lower c)) (dr_characters r')
    \<and> list_all2 (\<lambda>d d'. d' = d\<lparr>dd_character := dd_character d'\<rparr> \<and> list_ex (\<lambda>c. dc_canonical_name c = dd_character d'
          \<and> normalized_character_name lower (dd_character d) \<in> set (character_keys lower c)) (dr_characters r'))
        (filter (\<lambda>d. normalized_character_name lower (dd_character d) \<noteq> []) (dr_dialogue r)) (dr_dialogue r')
    \<and> list_all (\<lambda>c. list_ex (\<lambda>d. dd_character d = dc_canonical_name c) (dr_dialogue r')
        \<or> ''narrator'' \<in> set (character_keys lower c)) (dr_characters r')"
  using canonicalized_cast [where lower = lower and r = r, OF assms(1)] unfolding assms(2) by (intro conjI)

section \<open>Samples\<close>

definition sample_cast :: detection_result where
  "sample_cast = \<lparr>dr_characters =
       [\<lparr>dc_canonical_name = ''Al'', dc_aliases = [''Bo''], dc_confidence = Finite 1\<rparr>,
        \<lparr>dc_canonical_name = ''bo '', dc_aliases = [], dc_confidence = Finite 2\<rparr>],
     dr_dialogue =
       [\<lparr>dd_paragraph_id = ''p1'', dd_character = ''BO'', dd_start = 0, dd_end = 4, dd_confidence = Finite 1\<rparr>,
        \<lparr>dd_paragraph_id = ''p1'', dd_character = '' '', dd_start = 5, dd_end = 7, dd_confidence = Finite 1\<rparr>,
        \<lparr>dd_paragraph_id = ''p2'', dd_character = ''Cy'', dd_start = 0, dd_end = 3, dd_confidence = Finite 1\<rparr>],
     dr_usage = no_usage\<rparr>"

lemma sample_cast_names:
  "map dd_character (dr_dialogue (canonicalize_detection_result (map ascii_lower) sample_cast)) = [''Al'', ''Cy'']"
  "map (\<lambda>c. (dc_canonical_name c, dc_aliases c)) (dr_characters (canonicalize_detection_result (map ascii_lower) sample_cast))
    = [(''Al'', [''Bo'']), (''Cy'', [])]"
  by code_simp+

theorem cast_resolves_speakers_witness:
  "map dd_character (dr_dialogue (canonicalize_detection_result (map ascii_lower) sample_cast)) = [''Al'', ''Cy'']
   \<and> sorted_wrt (\<lambda>c c'. normalized_character_name (map ascii_lower) (dc_canonical_name c) \<notin> set (character_keys (map ascii_lower) c')
      \<and> normalized_character_name (map ascii_lower) (dc_canonical_name c') \<notin> set (character_keys (map ascii_lower) c))
      (dr_characters (canonicalize_detection_result (map ascii_lower) sample_cast))"
  using cast_resolves_speakers [of "map ascii_lower" sample_cast, OF _ refl] sample_cast_names(1) by simp

section \<open>A shared identity\<close>

text \<open>Joining the cast with earlier characters does not keep identities apart: an earlier character whose
  alias the new run reports as a character of its own gives its identity to both.\<close>

definition earlier_harry :: cast_character where
  "earlier_harry = \<lparr>ch_id = 7, ch_project_id = 1, ch_role = CharacterRole, ch_canonical_name = ''Harry'',
     ch_aliases = [''Dad''], ch_description = None, ch_confidence = None, ch_detection_run_id = None,
     ch_manually_created = False, ch_created_at = 0, ch_updated_at = 0\<rparr>"

definition two_characters :: detection_result where
  "two_characters = \<lparr>dr_characters =
       [\<lparr>dc_canonical_name = ''Harry'', dc_aliases = [], dc_confidence = Finite 1\<rparr>,
        \<lparr>dc_canonical_name = ''Dad'', dc_aliases = [], dc_confidence = Finite 1\<rparr>],
     dr_dialogue =
       [\<lparr>dd_paragraph_id = ''p1'', dd_character = ''Harry'', dd_start = 0, dd_end = 4, dd_confidence = Finite 1\<rparr>,
        \<lparr>dd_paragraph_id = ''p1'', dd_character = ''Dad'', dd_start = 5, dd_end = 7, dd_confidence = Finite 1\<rparr>],
     dr_usage = no_usage\<rparr>"

theorem merged_characters_share_id:
  "map (\<lambda>c. (ch_canonical_name c, ch_id c)) (merge_characters (map ascii_lower) (\<lambda>n. 100 + n)
     (canonicalize_detection_result (map ascii_lower) two_characters) 1 2 3
     (previous_by_name (map ascii_lower) [earlier_harry]))
   = [(''Dad'', 7), (''Harry'', 7), (''Narrator'', 102)]"
  by code_simp

end
