(* ===== verification/Speaker_Segments.thy ===== *)
theory Speaker_Segments
  imports Utf8_Text Service_Base
begin

text \<open>
  Segmentation of a chapter for speech synthesis (crates/service/src/conversion/planning.rs): which
  speaker reads which bytes of a paragraph, the pronunciation rules of a segment, its context and
  the removal of what cannot be spoken. What an assignment says of provider and voice is only passed
  on; it is the type \<open>'v\<close>. A map of assignments is the list of its entries in iteration order.
  The regular expressions (\<open>regex\<close>), the hash (\<open>blake3\<close>) and the Unicode class of
  alphanumeric characters are the parameters of \<open>text_env\<close>.
\<close>

section \<open>Data\<close>

datatype speaker = NarratorSpeaker | CharacterSpeaker uuid | NamedSpeaker str

record dialogue_span =
  ds_paragraph_id :: uuid
  ds_character_id :: uuid
  ds_byte_start :: u64
  ds_byte_end :: u64
  ds_confidence :: fval
  ds_evidence :: "str option"

record speaker_override =
  so_id :: uuid
  so_project_id :: project_id
  so_paragraph_id :: uuid
  so_source_content_hash :: str
  so_byte_start :: u64
  so_byte_end :: u64
  so_speaker :: speaker
  so_created_at :: time
  so_updated_at :: time

record 'v speaker_assignment =
  sa_character_id :: uuid
  sa_character_name :: str
  sa_voice :: 'v

type_synonym 'v assignments = "(uuid \<times> 'v speaker_assignment) list"

datatype paragraph_kind =
  KindHeading | KindProse | KindListItem | KindQuote | KindVerse | KindImageDescription | KindOther

record book_paragraph =
  pg_id :: uuid
  pg_chapter_id :: uuid
  pg_ordinal :: u32
  pg_kind :: paragraph_kind
  pg_text :: str
  pg_source_start :: u64
  pg_source_end :: u64
  pg_content_hash :: str

section \<open>Byte ranges\<close>

text \<open>\<open>while start < text.len() && !text.is_char_boundary(start)\<close>.\<close>

function boundary_from :: "str \<Rightarrow> usize \<Rightarrow> usize" where
  "boundary_from text start =
     (if start < length text \<and> \<not> is_char_boundary text start then boundary_from text (start + 1) else start)"
  by pat_completeness auto
termination by (relation "measure (\<lambda>(text, start). length text - start)") auto

declare boundary_from.simps [simp del]

text \<open>\<open>while end > start && !text.is_char_boundary(end)\<close>.\<close>

fun boundary_down :: "str \<Rightarrow> usize \<Rightarrow> usize \<Rightarrow> usize" where
  "boundary_down text start 0 = 0"
| "boundary_down text start (Suc n) =
     (if Suc n > start \<and> \<not> is_char_boundary text (Suc n) then boundary_down text start n else Suc n)"

definition valid_text_range :: "str \<Rightarrow> u64 \<Rightarrow> u64 \<Rightarrow> (usize \<times> usize) option" where
  "valid_text_range text start end_at =
     (let s = boundary_from text (min start (length text));
          e = boundary_down text s (min end_at (length text))
      in if s < e then Some (s, e) else None)"

section \<open>Speakers\<close>

record range_span =
  rs_start :: usize
  rs_end :: usize
  rs_speaker :: uuid
  rs_manual :: bool

definition speaker_character_id :: "speaker \<Rightarrow> uuid \<Rightarrow> 'v assignments \<Rightarrow> uuid option" where
  "speaker_character_id s narrator assignments = (case s of
     NarratorSpeaker \<Rightarrow> Some narrator
   | CharacterSpeaker i \<Rightarrow> (if map_of assignments i \<noteq> None then Some i else None)
   | NamedSpeaker name \<Rightarrow>
       map_option (\<lambda>(_, a). sa_character_id a)
         (find (\<lambda>(_, a). eq_ignore_ascii_case (sa_character_name a) name) assignments))"

definition detected_spans :: "str \<Rightarrow> dialogue_span list \<Rightarrow> 'v assignments \<Rightarrow> range_span list" where
  "detected_spans text detected assignments = List.map_filter (\<lambda>d.
     if map_of assignments (ds_character_id d) = None then None
     else map_option (\<lambda>(s, e). \<lparr>rs_start = s, rs_end = e, rs_speaker = ds_character_id d, rs_manual = False\<rparr>)
       (valid_text_range text (ds_byte_start d) (ds_byte_end d))) detected"

definition override_spans ::
  "str \<Rightarrow> uuid \<Rightarrow> speaker_override list \<Rightarrow> 'v assignments \<Rightarrow> range_span list" where
  "override_spans text narrator overrides assignments = List.map_filter (\<lambda>v.
     case speaker_character_id (so_speaker v) narrator assignments of
       None \<Rightarrow> None
     | Some speaker \<Rightarrow>
         map_option (\<lambda>(s, e). \<lparr>rs_start = s, rs_end = e, rs_speaker = speaker, rs_manual = True\<rparr>)
           (valid_text_range text (so_byte_start v) (so_byte_end v))) overrides"

definition range_spans ::
  "str \<Rightarrow> uuid \<Rightarrow> dialogue_span list \<Rightarrow> speaker_override list \<Rightarrow> 'v assignments \<Rightarrow> range_span list" where
  "range_spans text narrator detected overrides assignments =
     detected_spans text detected assignments @ override_spans text narrator overrides assignments"

text \<open>The order of \<open>(manual, start, Reverse(end))\<close>; \<open>max_by_key\<close> takes the last of the greatest.\<close>

definition span_le :: "range_span \<Rightarrow> range_span \<Rightarrow> bool" where
  "span_le a b \<longleftrightarrow>
     (\<not> rs_manual a \<and> rs_manual b)
     \<or> (rs_manual a = rs_manual b \<and>
         (rs_start a < rs_start b \<or> (rs_start a = rs_start b \<and> rs_end b \<le> rs_end a)))"

definition best_span :: "range_span list \<Rightarrow> range_span option" where
  "best_span spans = fold (\<lambda>s best. case best of
     None \<Rightarrow> Some s | Some b \<Rightarrow> if span_le b s then Some s else Some b) spans None"

definition speaker_of_interval :: "range_span list \<Rightarrow> uuid \<Rightarrow> usize \<Rightarrow> usize \<Rightarrow> uuid" where
  "speaker_of_interval spans narrator start end_at =
     (case best_span (filter (\<lambda>s. rs_start s \<le> start \<and> end_at \<le> rs_end s) spans) of
        None \<Rightarrow> narrator | Some s \<Rightarrow> rs_speaker s)"

definition boundaries_of :: "str \<Rightarrow> range_span list \<Rightarrow> usize list" where
  "boundaries_of text spans =
     sort (remdups ([0, length text] @ concat (map (\<lambda>s. [rs_start s, rs_end s]) spans)))"

type_synonym speaker_range = "usize \<times> usize \<times> uuid"

definition push_range :: "speaker_range list \<Rightarrow> usize \<Rightarrow> usize \<Rightarrow> uuid \<Rightarrow> speaker_range list" where
  "push_range ranges start end_at speaker =
     (if ranges \<noteq> [] \<and> snd (snd (last ranges)) = speaker \<and> fst (snd (last ranges)) = start
      then butlast ranges @ [(fst (last ranges), end_at, speaker)]
      else ranges @ [(start, end_at, speaker)])"

fun collect_ranges :: "range_span list \<Rightarrow> uuid \<Rightarrow> usize list \<Rightarrow> speaker_range list \<Rightarrow> speaker_range list" where
  "collect_ranges spans narrator (start # end_at # bs) ranges =
     collect_ranges spans narrator (end_at # bs)
       (if start = end_at then ranges
        else push_range ranges start end_at (speaker_of_interval spans narrator start end_at))"
| "collect_ranges spans narrator bs ranges = ranges"

definition speaker_ranges ::
  "str \<Rightarrow> uuid \<Rightarrow> dialogue_span list \<Rightarrow> speaker_override list \<Rightarrow> 'v assignments \<Rightarrow> speaker_range list" where
  "speaker_ranges text narrator detected overrides assignments =
     (let spans = range_spans text narrator detected overrides assignments
      in collect_ranges spans narrator (boundaries_of text spans) [])"

section \<open>Pronunciation\<close>

datatype rule_scope = GlobalRule | ProjectRule
datatype rule_kind = LiteralRule | WholeWordRule | RegexRule | AliasRule | PhonemeRule

record pronunciation_rule =
  pr_id :: uuid
  pr_scope :: rule_scope
  pr_kind :: rule_kind
  pr_source :: str
  pr_replacement :: str
  pr_language :: "str option"
  pr_character_id :: "uuid option"
  pr_case_sensitive :: bool
  pr_enabled :: bool
  pr_order :: u32
  pr_conflict :: "str option"
  pr_project_id :: "uuid option"

record 'rx text_env =
  te_escape :: "str \<Rightarrow> str"
  te_build :: "str \<Rightarrow> bool \<Rightarrow> str + 'rx"
  te_replace_expand :: "'rx \<Rightarrow> str \<Rightarrow> str \<Rightarrow> str"
  te_replace_literal :: "'rx \<Rightarrow> str \<Rightarrow> str \<Rightarrow> str"
  te_hash :: "str list \<Rightarrow> str"
  te_alphanumeric :: "str \<Rightarrow> bool"
  te_uuid_text :: "uuid \<Rightarrow> str"
  te_uuid_bytes :: "uuid \<Rightarrow> str"
  te_new_id :: "nat \<Rightarrow> uuid"

definition rule_applies :: "uuid \<Rightarrow> uuid \<Rightarrow> str option \<Rightarrow> pronunciation_rule \<Rightarrow> bool" where
  "rule_applies project character language r \<longleftrightarrow> pr_enabled r
     \<and> (case pr_scope r of GlobalRule \<Rightarrow> True | ProjectRule \<Rightarrow> pr_project_id r = Some project)
     \<and> is_none_or (pr_character_id r) (\<lambda>i. i = character)
     \<and> is_none_or (pr_language r) (\<lambda>l. is_some_and language (\<lambda>v. eq_ignore_ascii_case v l))"

text \<open>The sort key: project rules after global ones, then by order and id.\<close>

definition rule_le :: "pronunciation_rule \<Rightarrow> pronunciation_rule \<Rightarrow> bool" where
  "rule_le a b \<longleftrightarrow>
     (pr_scope a = GlobalRule \<and> pr_scope b = ProjectRule)
     \<or> (pr_scope a = pr_scope b \<and> (pr_order a < pr_order b
         \<or> (pr_order a = pr_order b \<and> pr_id a \<le> pr_id b)))"

text \<open>A stable insertion sort by that key, as \<open>sort_by_key\<close>.\<close>

fun insert_rule :: "pronunciation_rule \<Rightarrow> pronunciation_rule list \<Rightarrow> pronunciation_rule list" where
  "insert_rule r [] = [r]"
| "insert_rule r (q # qs) = (if rule_le r q then r # q # qs else q # insert_rule r qs)"

definition sort_rules :: "pronunciation_rule list \<Rightarrow> pronunciation_rule list" where
  "sort_rules rules = foldr insert_rule rules []"

definition rule_pattern :: "'rx text_env \<Rightarrow> pronunciation_rule \<Rightarrow> str" where
  "rule_pattern env r = (case pr_kind r of
     LiteralRule \<Rightarrow> te_escape env (pr_source r)
   | PhonemeRule \<Rightarrow> te_escape env (pr_source r)
   | WholeWordRule \<Rightarrow> [CHR 0x5C] @ ''b'' @ te_escape env (pr_source r) @ [CHR 0x5C] @ ''b''
   | AliasRule \<Rightarrow> [CHR 0x5C] @ ''b'' @ te_escape env (pr_source r) @ [CHR 0x5C] @ ''b''
   | RegexRule \<Rightarrow> pr_source r)"

definition replace_with :: "'rx text_env \<Rightarrow> 'rx \<Rightarrow> pronunciation_rule \<Rightarrow> str \<Rightarrow> str" where
  "replace_with env rx r text =
     (if pr_kind r = RegexRule then te_replace_expand env rx text (pr_replacement r)
      else te_replace_literal env rx text (pr_replacement r))"

fun apply_rules ::
  "'rx text_env \<Rightarrow> pronunciation_rule list \<Rightarrow> str \<Rightarrow> uuid list \<Rightarrow> service_error + str \<times> uuid list" where
  "apply_rules env [] text applied = Inr (text, applied)"
| "apply_rules env (r # rs) text applied =
     (case te_build env (rule_pattern env r) (\<not> pr_case_sensitive r) of
        Inl e \<Rightarrow> Inl (InvalidRequest (''invalid pronunciation regex: '' @ e))
      | Inr rx \<Rightarrow>
          (let after = replace_with env rx r text
           in apply_rules env rs after (if after \<noteq> text then applied @ [pr_id r] else applied)))"

definition apply_pronunciation_rules ::
  "'rx text_env \<Rightarrow> str \<Rightarrow> pronunciation_rule list \<Rightarrow> uuid \<Rightarrow> uuid \<Rightarrow> str option \<Rightarrow>
     service_error + str \<times> uuid list \<times> str" where
  "apply_pronunciation_rules env text rules project character language =
     (let applicable = sort_rules (filter (rule_applies project character language) rules)
      in map_sum id (\<lambda>(transformed, applied). (transformed, applied,
           te_hash env (concat (map (\<lambda>r. [te_uuid_bytes env (pr_id r), pr_source r, pr_replacement r]) applicable))))
         (apply_rules env applicable text []))"

section \<open>Segments\<close>

record 'v segment_plan =
  sg_id :: uuid
  sg_proofing :: bool
  sg_key :: str
  sg_chapter_id :: uuid
  sg_paragraph_id :: uuid
  sg_source_content_hash :: str
  sg_byte_start :: u64
  sg_byte_end :: u64
  sg_chapter_title :: str
  sg_segment_ordinal :: u32
  sg_playback_ordinal :: usize
  sg_original_text :: str
  sg_text :: str
  sg_context :: "str option"
  sg_assignment :: "'v speaker_assignment"
  sg_applied_rule_ids :: "uuid list"
  sg_dictionary_revision :: str

definition segment_key :: "'rx text_env \<Rightarrow> uuid \<Rightarrow> uuid \<Rightarrow> usize \<Rightarrow> usize \<Rightarrow> uuid \<Rightarrow> str" where
  "segment_key env chapter paragraph start end_at speaker =
     te_hash env (concat (map (\<lambda>v. [v, [CHR 0x00]])
       [te_uuid_text env chapter, te_uuid_text env paragraph, nat_text start, nat_text end_at,
        te_uuid_text env speaker]))"

definition is_speakable :: "'rx text_env \<Rightarrow> str \<Rightarrow> bool" where
  "is_speakable env text \<longleftrightarrow> list_ex (te_alphanumeric env) (chars_of text)"

definition leading_characters :: "str \<Rightarrow> nat \<Rightarrow> str" where
  "leading_characters s count = concat (take count (chars_of s))"

definition trailing_characters :: "str \<Rightarrow> nat \<Rightarrow> str" where
  "trailing_characters s count = concat (rev (take count (rev (chars_of s))))"

definition override_is_current :: "book_paragraph \<Rightarrow> speaker_override \<Rightarrow> bool" where
  "override_is_current p v \<longleftrightarrow> so_source_content_hash v = pg_content_hash p"

text \<open>
  One range of a paragraph; \<open>count\<close> is the number of segments so far. A range that does not start
  and end at character boundaries gives no text.
\<close>

definition segment_range ::
  "'rx text_env \<Rightarrow> uuid \<Rightarrow> str option \<Rightarrow> uuid \<Rightarrow> str \<Rightarrow> pronunciation_rule list \<Rightarrow> 'v assignments \<Rightarrow>
     book_paragraph \<Rightarrow> nat \<Rightarrow> speaker_range \<Rightarrow> service_error + 'v segment_plan option" where
  "segment_range env project language chapter title rules assignments p count r =
     (case r of (start, end_at, character) \<Rightarrow>
       if \<not> (start \<le> end_at \<and> is_char_boundary (pg_text p) start \<and> is_char_boundary (pg_text p) end_at)
       then Inr None
       else
         let original = str_trim (str_slice (pg_text p) start end_at)
         in if original = [] then Inr None
         else case map_of assignments character of
           None \<Rightarrow> Inl (ResourceConflict (Plain (''a speaker in '' @ [CHR 0x27] @ title @ [CHR 0x27]
             @ '' has no valid voice assignment'')))
         | Some assignment \<Rightarrow>
             map_sum id (\<lambda>(text, applied, revision). Some
               \<lparr>sg_id = te_new_id env count, sg_proofing = True,
                sg_key = segment_key env chapter (pg_id p) start end_at character,
                sg_chapter_id = chapter, sg_paragraph_id = pg_id p,
                sg_source_content_hash = pg_content_hash p,
                sg_byte_start = u64_or_max start, sg_byte_end = u64_or_max end_at, sg_chapter_title = title,
                sg_segment_ordinal = min count u32_max, sg_playback_ordinal = 0,
                sg_original_text = original, sg_text = text, sg_context = None,
                sg_assignment = assignment, sg_applied_rule_ids = applied,
                sg_dictionary_revision = revision\<rparr>)
               (apply_pronunciation_rules env original rules project character language))"

text \<open>The loop over all ranges of all paragraphs.\<close>

fun segment_all ::
  "(nat \<Rightarrow> book_paragraph \<times> speaker_range \<Rightarrow> service_error + 'v segment_plan option) \<Rightarrow>
     (book_paragraph \<times> speaker_range) list \<Rightarrow> 'v segment_plan list \<Rightarrow> service_error + 'v segment_plan list" where
  "segment_all seg [] output = Inr output"
| "segment_all seg (r # rs) output = (case seg (length output) r of
     Inl e \<Rightarrow> Inl e
   | Inr None \<Rightarrow> segment_all seg rs output
   | Inr (Some s) \<Rightarrow> segment_all seg rs (output @ [s]))"

definition paragraph_ranges ::
  "uuid \<Rightarrow> 'v assignments \<Rightarrow> (uuid \<Rightarrow> dialogue_span list) \<Rightarrow> (uuid \<Rightarrow> speaker_override list) \<Rightarrow>
     book_paragraph \<Rightarrow> speaker_range list" where
  "paragraph_ranges narrator assignments detection overrides p =
     (if str_is_blank (pg_text p) then []
      else speaker_ranges (pg_text p) narrator (detection (pg_id p))
        (filter (override_is_current p) (overrides (pg_id p))) assignments)"

definition context_of :: "str option \<Rightarrow> str option \<Rightarrow> str option" where
  "context_of before after = (case (before, after) of
     (Some b, Some a) \<Rightarrow> Some (b @ [CHR 0x0A] @ ''---'' @ [CHR 0x0A] @ a)
   | (Some v, None) \<Rightarrow> Some v
   | (None, Some v) \<Rightarrow> Some v
   | (None, None) \<Rightarrow> None)"

definition with_contexts :: "'v segment_plan list \<Rightarrow> 'v segment_plan list" where
  "with_contexts segments = map (\<lambda>i. (segments ! i)\<lparr>sg_context := context_of
       (if i = 0 then None else Some (trailing_characters (sg_text (segments ! (i - 1))) 160))
       (if i + 1 < length segments then Some (leading_characters (sg_text (segments ! (i + 1))) 160) else None)\<rparr>)
     [0 ..< length segments]"

definition segment_chapter ::
  "'rx text_env \<Rightarrow> uuid \<Rightarrow> str option \<Rightarrow> uuid \<Rightarrow> str \<Rightarrow> book_paragraph list \<Rightarrow> uuid \<Rightarrow> 'v assignments \<Rightarrow>
     (uuid \<Rightarrow> dialogue_span list) \<Rightarrow> (uuid \<Rightarrow> speaker_override list) \<Rightarrow> pronunciation_rule list \<Rightarrow>
     service_error + 'v segment_plan list" where
  "segment_chapter env project language chapter title paragraphs narrator assignments detection overrides rules =
     map_sum id (\<lambda>output. filter (\<lambda>s. is_speakable env (sg_original_text s)) (with_contexts output))
       (segment_all (\<lambda>count (p, r). segment_range env project language chapter title rules assignments p count r)
         (concat (map (\<lambda>p. map (Pair p) (paragraph_ranges narrator assignments detection overrides p)) paragraphs))
         [])"

end
