(* ===== verification/Speaker_Properties.thy ===== *)
theory Speaker_Properties
  imports Speaker_Segments
begin

text \<open>
  The speaker ranges of a paragraph partition its bytes, each read by the best span that covers it,
  and the segments of a chapter are exactly the ranges that can be spoken.
\<close>

section \<open>Byte ranges\<close>

lemma boundary_from_props:
  "start \<le> length str \<Longrightarrow> start \<le> boundary_from str start \<and> boundary_from str start \<le> length str
     \<and> is_char_boundary str (boundary_from str start)"
proof (induction str start rule: boundary_from.induct)
  case (1 str start)
  show ?case
  proof (cases "start < length str \<and> \<not> is_char_boundary str start")
    case True
    then show ?thesis using "1.IH" by (subst (1 2 3) boundary_from.simps) auto
  next
    case False
    with "1.prems" have "boundary_from str start = start" by (subst boundary_from.simps) auto
    moreover from False "1.prems" have "is_char_boundary str start"
      by (cases "start = length str") auto
    ultimately show ?thesis using "1.prems" by simp
  qed
qed

lemma boundary_down_props:
  "is_char_boundary str start \<Longrightarrow> boundary_down str start e \<le> e
     \<and> (start < boundary_down str start e \<longrightarrow> is_char_boundary str (boundary_down str start e))"
  by (induction str start e rule: boundary_down.induct) auto

lemma valid_text_range_props:
  assumes "valid_text_range str a b = Some (s, e)"
  shows "s < e" and "e \<le> length str" and "is_char_boundary str s" and "is_char_boundary str e"
proof -
  let ?s = "boundary_from str (min a (length str))"
  have s: "is_char_boundary str ?s" using boundary_from_props [of "min a (length str)" str] by simp
  from assms have eq: "s = ?s" "e = boundary_down str ?s (min b (length str))" "s < e"
    by (auto simp: valid_text_range_def Let_def split: if_splits)
  with boundary_down_props [OF s, of "min b (length str)"] s
  show "s < e" "e \<le> length str" "is_char_boundary str s" "is_char_boundary str e" by auto
qed

definition span_ok :: "str \<Rightarrow> range_span \<Rightarrow> bool" where
  "span_ok text s \<longleftrightarrow> rs_start s < rs_end s \<and> rs_end s \<le> length text
     \<and> is_char_boundary text (rs_start s) \<and> is_char_boundary text (rs_end s)"

lemma valid_span_ok:
  "valid_text_range str a b = Some (s, e) \<Longrightarrow> span_ok str \<lparr>rs_start = s, rs_end = e, rs_speaker = c, rs_manual = m\<rparr>"
  using valid_text_range_props [of str a b s e] by (simp add: span_ok_def)

lemma in_map_filter: "y \<in> set (List.map_filter f xs) \<longleftrightarrow> (\<exists>x \<in> set xs. f x = Some y)"
  by (induction xs) (auto simp: List.map_filter_simps split: option.splits)

lemma range_spans_ok: "s \<in> set (range_spans text narrator detected overrides assignments) \<Longrightarrow> span_ok text s"
  by (auto simp: range_spans_def detected_spans_def override_spans_def in_map_filter
      intro: valid_span_ok split: if_splits option.splits)

section \<open>The best span\<close>

lemma span_le_refl [simp]: "span_le a a"
  by (simp add: span_le_def)

lemma span_le_trans: "span_le a b \<Longrightarrow> span_le b c \<Longrightarrow> span_le a c"
  by (auto simp: span_le_def)

lemma span_le_total: "span_le a b \<or> span_le b a"
  by (auto simp: span_le_def)

abbreviation better :: "range_span \<Rightarrow> range_span option \<Rightarrow> range_span option" where
  "better s best \<equiv> (case best of None \<Rightarrow> Some s | Some b \<Rightarrow> if span_le b s then Some s else Some b)"

lemma fold_better:
  "fold better spans (Some b) = Some m \<Longrightarrow> (m = b \<or> m \<in> set spans) \<and> span_le b m \<and> (\<forall>s \<in> set spans. span_le s m)"
proof (induction spans arbitrary: b)
  case (Cons s spans)
  show ?case
  proof (cases "span_le b s")
    case True
    with Cons.prems have "fold better spans (Some s) = Some m" by simp
    from Cons.IH [OF this] True show ?thesis using span_le_trans by auto
  next
    case False
    with Cons.prems have "fold better spans (Some b) = Some m" by simp
    moreover have "span_le s b" using False span_le_total by blast
    ultimately show ?thesis using Cons.IH [of b] span_le_trans by auto
  qed
qed simp

lemma fold_better_Some: "\<exists>m. fold better spans (Some b) = Some m"
  by (induction spans arbitrary: b) auto

lemma best_span_props:
  "best_span spans = None \<longleftrightarrow> spans = []"
  "best_span spans = Some m \<Longrightarrow> m \<in> set spans \<and> (\<forall>s \<in> set spans. span_le s m)"
proof -
  show "best_span spans = None \<longleftrightarrow> spans = []"
  proof (cases spans)
    case (Cons s ss)
    then show ?thesis using fold_better_Some [of ss s] by (auto simp: best_span_def)
  qed (simp add: best_span_def)
  show "m \<in> set spans \<and> (\<forall>s \<in> set spans. span_le s m)" if "best_span spans = Some m"
  proof (cases spans)
    case (Cons s ss)
    with that have "fold better ss (Some s) = Some m" by (simp add: best_span_def)
    from fold_better [OF this] Cons show ?thesis by auto
  qed (use that in \<open>simp add: best_span_def\<close>)
qed

section \<open>Ranges\<close>

text \<open>Consecutive non-empty ranges from one position to another.\<close>

fun tiles :: "usize \<Rightarrow> usize \<Rightarrow> speaker_range list \<Rightarrow> bool" where
  "tiles a b [] = (a = b)"
| "tiles a b ((s, e, c) # rs) = (s = a \<and> s < e \<and> tiles e b rs)"

lemma tiles_append: "tiles a b (rs @ qs) \<longleftrightarrow> (\<exists>m. tiles a m rs \<and> tiles m b qs)"
  by (induction a b rs rule: tiles.induct) auto

lemma tiles_le: "tiles a b rs \<Longrightarrow> a \<le> b"
  by (induction a b rs rule: tiles.induct) auto

text \<open>Who reads a byte: the best span over it, or the narrator.\<close>

definition speaker_at :: "range_span list \<Rightarrow> uuid \<Rightarrow> usize \<Rightarrow> uuid" where
  "speaker_at spans narrator i =
     (case best_span (filter (\<lambda>s. rs_start s \<le> i \<and> i < rs_end s) spans) of
        None \<Rightarrow> narrator | Some s \<Rightarrow> rs_speaker s)"

definition speaks :: "range_span list \<Rightarrow> uuid \<Rightarrow> speaker_range \<Rightarrow> bool" where
  "speaks spans narrator r = (case r of (s, e, c) \<Rightarrow> \<forall>i \<in> {s ..< e}. speaker_at spans narrator i = c)"

abbreviation changes :: "speaker_range list \<Rightarrow> bool" where
  "changes \<equiv> successively (\<lambda>x y. snd (snd x) \<noteq> snd (snd y))"

definition range_ends :: "speaker_range list \<Rightarrow> nat set" where
  "range_ends rs = fst ` set rs \<union> (fst \<circ> snd) ` set rs"

text \<open>Between two neighbouring boundaries the covering spans do not change.\<close>

lemma speaker_of_interval_at:
  assumes "\<forall>s \<in> set spans. (rs_start s \<le> a \<or> b \<le> rs_start s) \<and> (rs_end s \<le> a \<or> b \<le> rs_end s)"
    and "a \<le> i" and "i < b"
  shows "speaker_of_interval spans narrator a b = speaker_at spans narrator i"
proof -
  have "filter (\<lambda>s. rs_start s \<le> a \<and> b \<le> rs_end s) spans = filter (\<lambda>s. rs_start s \<le> i \<and> i < rs_end s) spans"
    using assms by (intro filter_cong) auto
  then show ?thesis by (simp add: speaker_of_interval_def speaker_at_def)
qed

lemma push_range_props:
  assumes "tiles 0 a ranges" and "a < b" and "\<forall>r \<in> set ranges. speaks spans narrator r" and "changes ranges"
    and "\<forall>i \<in> {a ..< b}. speaker_at spans narrator i = c"
  shows "tiles 0 b (push_range ranges a b c)"
    and "\<forall>r \<in> set (push_range ranges a b c). speaks spans narrator r" and "changes (push_range ranges a b c)"
    and "range_ends (push_range ranges a b c) \<subseteq> range_ends ranges \<union> {a, b}"
proof -
  have "tiles 0 b (push_range ranges a b c) \<and> (\<forall>r \<in> set (push_range ranges a b c). speaks spans narrator r)
    \<and> changes (push_range ranges a b c)
    \<and> (range_ends (push_range ranges a b c) \<subseteq> range_ends ranges \<union> {a, b})"
  proof (cases ranges rule: rev_cases)
    case Nil
    with assms show ?thesis by (simp add: push_range_def speaks_def range_ends_def)
  next
    case (snoc qs q)
    obtain s e d where q: "q = (s, e, d)" by (cases q)
    with assms(1) snoc have t: "tiles 0 s qs" "s < e" "e = a" by (auto simp: tiles_append)
    have ch: "changes qs" "qs \<noteq> [] \<Longrightarrow> snd (snd (last qs)) \<noteq> d"
      using assms(4) snoc q by (auto simp: successively_append_iff)
    have sp: "\<forall>i \<in> {s ..< a}. speaker_at spans narrator i = d" "\<forall>r \<in> set qs. speaks spans narrator r"
      using assms(3) snoc q t(3) by (auto simp: speaks_def)
    show ?thesis
    proof (cases "d = c")
      case True
      then have eq: "push_range ranges a b c = qs @ [(s, b, c)]" using snoc q t(3) by (simp add: push_range_def)
      have "\<forall>i \<in> {s ..< b}. speaker_at spans narrator i = c"
      proof
        fix i assume "i \<in> {s ..< b}"
        then show "speaker_at spans narrator i = c" using sp(1) assms(5) True by (cases "i < a") auto
      qed
      with eq t assms(2) sp(2) ch True snoc q show ?thesis
        by (auto simp: tiles_append speaks_def successively_append_iff range_ends_def)
    next
      case False
      then have eq: "push_range ranges a b c = ranges @ [(a, b, c)]" using snoc q by (simp add: push_range_def)
      with assms snoc q t(3) False show ?thesis
        by (auto simp: tiles_append speaks_def successively_append_iff range_ends_def)
    qed
  qed
  then show "tiles 0 b (push_range ranges a b c)" "\<forall>r \<in> set (push_range ranges a b c). speaks spans narrator r"
    "changes (push_range ranges a b c)"
    "range_ends (push_range ranges a b c) \<subseteq> range_ends ranges \<union> {a, b}" by blast+
qed

lemma collect_ranges_props:
  assumes "sorted_wrt (<) bs" and "bs \<noteq> []" and "tiles 0 (hd bs) ranges"
    and "\<forall>s \<in> set spans. {rs_start s, rs_end s} \<subseteq> {.. hd bs} \<union> set bs"
    and "\<forall>r \<in> set ranges. speaks spans narrator r" and "changes ranges"
  shows "tiles 0 (last bs) (collect_ranges spans narrator bs ranges)
     \<and> (\<forall>r \<in> set (collect_ranges spans narrator bs ranges). speaks spans narrator r)
     \<and> changes (collect_ranges spans narrator bs ranges)
     \<and> range_ends (collect_ranges spans narrator bs ranges) \<subseteq> range_ends ranges \<union> set bs"
  using assms
proof (induction spans narrator bs ranges rule: collect_ranges.induct)
  case (1 spans narrator a b bs ranges)
  have ab: "a < b" and srt: "sorted_wrt (<) (b # bs)" and above: "\<forall>x \<in> set bs. b < x"
    using "1.prems"(1) by auto
  have "\<forall>s \<in> set spans. (rs_start s \<le> a \<or> b \<le> rs_start s) \<and> (rs_end s \<le> a \<or> b \<le> rs_end s)"
    using "1.prems"(4) above by fastforce
  then have sp: "\<forall>i \<in> {a ..< b}. speaker_at spans narrator i = speaker_of_interval spans narrator a b"
    using speaker_of_interval_at [of spans a b _ narrator] by auto
  have t: "tiles 0 a ranges" using "1.prems"(3) by simp
  note pr = push_range_props [OF t ab "1.prems"(5,6) sp]
  have "\<forall>s \<in> set spans. {rs_start s, rs_end s} \<subseteq> {.. hd (b # bs)} \<union> set (b # bs)"
    using "1.prems"(4) ab by fastforce
  note cover = this
  let ?p = "push_range ranges a b (speaker_of_interval spans narrator a b)"
  have step: "collect_ranges spans narrator (a # b # bs) ranges = collect_ranges spans narrator (b # bs) ?p"
    using ab by simp
  have eq: "(if a = b then ranges else ?p) = ?p" using ab by simp
  have "tiles 0 (hd (b # bs)) ?p" using pr(1) by simp
  note ih = "1.IH" [OF srt _ _ cover, unfolded eq, OF _ this pr(2,3)]
  have sub: "range_ends ranges \<union> {a, b} \<union> set (b # bs) \<subseteq> range_ends ranges \<union> set (a # b # bs)" by auto
  show ?case unfolding step using ih pr(4) sub by auto
qed auto

text \<open>The structure of the ranges of a paragraph, which both properties use.\<close>

lemma speaker_ranges_structure:
  assumes rs_def: "rs = speaker_ranges str narrator detected overrides assignments"
  shows "tiles 0 (length str) rs" and "changes rs"
    and "\<forall>(s, e, c) \<in> set rs. is_char_boundary str s \<and> is_char_boundary str e \<and> s \<le> e"
    and "\<forall>r \<in> set rs. speaks (range_spans str narrator detected overrides assignments) narrator r"
proof -
  let ?spans = "range_spans str narrator detected overrides assignments"
  let ?bs = "boundaries_of str ?spans" and ?r = "speaker_ranges str narrator detected overrides assignments"
  have set_bs: "set ?bs = {0, length str} \<union> (\<Union>s \<in> set ?spans. {rs_start s, rs_end s})"
    by (auto simp: boundaries_of_def)
  have srt: "sorted_wrt (<) ?bs" by (simp add: boundaries_of_def strict_sorted_iff)
  have ne: "?bs \<noteq> []" using set_bs by auto
  have max: "\<forall>x \<in> set ?bs. x \<le> length str"
    using range_spans_ok by (fastforce simp: set_bs span_ok_def)
  have "hd ?bs = 0"
  proof -
    have "0 \<in> set ?bs" by (simp add: set_bs)
    with srt ne show ?thesis by (cases ?bs) auto
  qed
  moreover have "last ?bs = length str"
  proof -
    have "length str \<in> set ?bs" by (simp add: set_bs)
    moreover have "last ?bs \<in> set ?bs" using ne by simp
    moreover have "\<forall>x \<in> set ?bs. x \<le> last ?bs"
      using srt ne by (cases ?bs rule: rev_cases) (auto simp: sorted_wrt_append intro: less_imp_le)
    ultimately show ?thesis using max by (metis order.antisym)
  qed
  moreover have "\<forall>s \<in> set ?spans. {rs_start s, rs_end s} \<subseteq> {.. hd ?bs} \<union> set ?bs" by (auto simp: set_bs)
  moreover have "tiles 0 (hd ?bs) []" using \<open>hd ?bs = 0\<close> by simp
  ultimately have p: "tiles 0 (length str) ?r" "\<forall>r \<in> set ?r. speaks ?spans narrator r" "changes ?r"
    "range_ends ?r \<subseteq> set ?bs"
    using collect_ranges_props [OF srt ne, of "[]" ?spans narrator] by (simp_all add: speaker_ranges_def Let_def range_ends_def)
  have b: "\<forall>x \<in> set ?bs. is_char_boundary str x"
    using range_spans_ok by (fastforce simp: set_bs span_ok_def)
  have "\<forall>(s, e, c) \<in> set ?r. is_char_boundary str s \<and> is_char_boundary str e"
    using p(4) b by (fastforce simp: range_ends_def)
  moreover have "s \<le> e" if "tiles a z qs" "(s, e, c) \<in> set qs" for a z qs s e c
    using that by (induction a z qs rule: tiles.induct) auto
  ultimately show "tiles 0 (length str) rs" "changes rs"
    "\<forall>(s, e, c) \<in> set rs. is_char_boundary str s \<and> is_char_boundary str e \<and> s \<le> e"
    "\<forall>r \<in> set rs. speaks ?spans narrator r"
    using p(1-3) unfolding rs_def by blast+
qed

text \<open>
  C23. The speakers of a paragraph. For every text, every list of detected spans and overrides and
  every voice assignment, the speaker ranges partition the bytes of the text in order, neighbouring
  ranges have different speakers, every range starts and ends at a character boundary, and each byte
  is read by the speaker of the best valid span over it (overrides before detections, then the later
  start, then the shorter span) or else by the narrator.
\<close>

theorem speaker_ranges_partition:
  "tiles 0 (length text) (speaker_ranges text narrator detected overrides assignments)
   \<and> successively (\<lambda>x y. snd (snd x) \<noteq> snd (snd y)) (speaker_ranges text narrator detected overrides assignments)
   \<and> list_all (\<lambda>(s, e, c). is_char_boundary text s \<and> is_char_boundary text e
       \<and> list_all (\<lambda>i. case best_span (filter (\<lambda>x. rs_start x \<le> i \<and> i < rs_end x)
             (range_spans text narrator detected overrides assignments)) of
           None \<Rightarrow> c = narrator | Some x \<Rightarrow> c = rs_speaker x) [s ..< e])
     (speaker_ranges text narrator detected overrides assignments)"
proof -
  let ?spans = "range_spans text narrator detected overrides assignments"
  let ?r = "speaker_ranges text narrator detected overrides assignments"
  note p = speaker_ranges_structure [OF refl, of "text" narrator detected overrides assignments]
  have "list_all (\<lambda>(s, e, c). is_char_boundary text s \<and> is_char_boundary text e
       \<and> list_all (\<lambda>i. case best_span (filter (\<lambda>x. rs_start x \<le> i \<and> i < rs_end x) ?spans) of
           None \<Rightarrow> c = narrator | Some x \<Rightarrow> c = rs_speaker x) [s ..< e]) ?r"
    using p(3,4) by (fastforce simp: list_all_iff speaks_def speaker_at_def split: option.splits)
  with p(1,2) show ?thesis by blast
qed

section \<open>Segments\<close>

type_synonym 'v viewed_segment = "uuid \<times> u64 \<times> u64 \<times> 'v speaker_assignment \<times> str"

definition spoken_view :: "'v segment_plan \<Rightarrow> 'v viewed_segment" where
  "spoken_view s = (sg_paragraph_id s, sg_byte_start s, sg_byte_end s, sg_assignment s, sg_original_text s)"

definition range_view :: "'v assignments \<Rightarrow> book_paragraph \<times> speaker_range \<Rightarrow> 'v viewed_segment option" where
  "range_view assignments x = (case x of (p, s, e, c) \<Rightarrow>
     (if str_trim (str_slice (pg_text p) s e) = [] then None
      else Some (pg_id p, s, e, the (map_of assignments c), str_trim (str_slice (pg_text p) s e))))"

lemma segment_range_view:
  assumes "segment_range env project language chapter title rules assignments p count (s, e, c) = Inr x"
    and "is_char_boundary (pg_text p) s" and "is_char_boundary (pg_text p) e" and "s \<le> e"
    and "length (pg_text p) \<le> u64_max"
  shows "map_option spoken_view x = range_view assignments (p, s, e, c)"
proof -
  have "e \<le> u64_max" using is_char_boundary_le [OF assms(3)] assms(5) by simp
  then have u: "u64_or_max s = s" "u64_or_max e = e" using assms(4) by (simp_all add: u64_or_max_def)
  show ?thesis
  proof (cases "str_trim (str_slice (pg_text p) s e) = []")
    case True
    with assms show ?thesis by (auto simp: segment_range_def range_view_def Let_def)
  next
    case False
    with assms(1-4) obtain a y where a: "map_of assignments c = Some a"
      and y: "apply_pronunciation_rules env (str_trim (str_slice (pg_text p) s e)) rules project c language = Inr y"
      by (cases "apply_pronunciation_rules env (str_trim (str_slice (pg_text p) s e)) rules project c language")
        (auto simp: segment_range_def Let_def split: option.splits)
    with False assms(1-4) u show ?thesis
      by (cases y) (auto simp: segment_range_def Let_def range_view_def spoken_view_def)
  qed
qed

lemma segment_all_view:
  assumes "segment_all seg rs out = Inr out'"
    and "\<And>r n x. r \<in> set rs \<Longrightarrow> seg n r = Inr x \<Longrightarrow> map_option spoken_view x = F r"
  shows "map spoken_view out' = map spoken_view out @ List.map_filter F rs"
  using assms
proof (induction seg rs out rule: segment_all.induct)
  case (2 seg r rs out)
  show ?case
  proof (cases "seg (length out) r")
    case (Inr x)
    have x: "map_option spoken_view x = F r" using "2.prems"(2) [of r, OF _ Inr] by simp
    show ?thesis
    proof (cases x)
      case None
      with "2.prems"(1) Inr have "segment_all seg rs out = Inr out'" by simp
      from "2.IH"(1) [OF Inr None this] "2.prems"(2) x None show ?thesis
        by (simp add: List.map_filter_simps)
    next
      case (Some y)
      with "2.prems"(1) Inr have "segment_all seg rs (out @ [y]) = Inr out'" by simp
      from "2.IH"(2) [OF Inr Some this] "2.prems"(2) x [symmetric] Some show ?thesis
        by (simp add: List.map_filter_simps)
    qed
  qed (use "2.prems"(1) in simp)
qed (simp add: List.map_filter_simps)

lemma with_contexts_view: "map spoken_view (with_contexts xs) = map spoken_view xs"
  by (intro nth_equalityI) (simp_all add: with_contexts_def spoken_view_def)

lemma map_filter_eq_concat: "List.map_filter f xs = concat (map (\<lambda>x. case f x of None \<Rightarrow> [] | Some y \<Rightarrow> [y]) xs)"
  by (induction xs) (simp_all add: List.map_filter_simps split: option.splits)

lemma filter_swap: "filter P (filter Q xs) = filter Q (filter P xs)"
  by (simp add: conj_commute)

text \<open>Only one paragraph has its identifier.\<close>

lemma filter_paragraph:
  assumes "distinct (map pg_id ps)" and "p \<in> set ps"
    and "\<And>q r v. q \<in> set ps \<Longrightarrow> F (q, r) = Some v \<Longrightarrow> fst v = pg_id q"
  shows "filter (\<lambda>v. fst v = pg_id p) (List.map_filter F (concat (map (\<lambda>q. map (Pair q) (rs q)) ps)))
    = List.map_filter F (map (Pair p) (rs p))"
  using assms
proof (induction ps)
  case (Cons q ps)
  have app: "List.map_filter F (xs @ ys) = List.map_filter F xs @ List.map_filter F ys" for xs ys
    by (simp add: map_filter_eq_concat)
  have keep: "filter (\<lambda>v. fst v = pg_id p) (List.map_filter F (map (Pair q) xs))
      = (if pg_id q = pg_id p then List.map_filter F (map (Pair q) xs) else [])" for xs
    using Cons.prems(3) [of q] by (induction xs) (auto simp: List.map_filter_simps split: option.splits)
  show ?case
  proof (cases "p = q")
    case True
    have "filter (\<lambda>v. fst v = pg_id p) (List.map_filter F (concat (map (\<lambda>q. map (Pair q) (rs q)) ps))) = []"
    proof (rule filter_False, rule ballI, rule notI)
      fix v assume "v \<in> set (List.map_filter F (concat (map (\<lambda>q. map (Pair q) (rs q)) ps)))" "fst v = pg_id p"
      then obtain q' r where q': "q' \<in> set ps" "F (q', r) = Some v" by (auto simp: in_map_filter)
      then have "fst v = pg_id q'" by (intro Cons.prems(3)) simp_all
      with q'(1) \<open>fst v = pg_id p\<close> True have "pg_id q \<in> pg_id ` set ps" by (metis imageI)
      with Cons.prems(1) show False by simp
    qed
    then show ?thesis by (simp only: list.map concat.simps app filter_append keep [unfolded True] True
          if_True append_Nil2 simp_thms)
  next
    case False
    with Cons.prems(1,2) have m: "p \<in> set ps" "pg_id q \<noteq> pg_id p" "distinct (map pg_id ps)" by auto
    have "filter (\<lambda>v. fst v = pg_id p) (List.map_filter F (concat (map (\<lambda>q. map (Pair q) (rs q)) ps)))
        = List.map_filter F (map (Pair p) (rs p))"
    proof (rule Cons.IH [OF m(3,1)])
      show "fst v = pg_id q'" if "q' \<in> set ps" "F (q', r) = Some v" for q' r v
        using that by (intro Cons.prems(3) [of q' r v]) simp_all
    qed
    with keep m(2) show ?thesis by (simp only: list.map concat.simps app filter_append if_False append_Nil)
  qed
qed simp

lemma map_filter_range_view:
  "filter (\<lambda>v. is_speakable env (snd (snd (snd (snd v))))) (List.map_filter (range_view assignments) (map (Pair p) rs))
    = map (\<lambda>(s, e, c). (pg_id p, s, e, the (map_of assignments c), str_trim (str_slice (pg_text p) s e)))
        (filter (\<lambda>(s, e, c). is_speakable env (str_trim (str_slice (pg_text p) s e))) rs)"
proof (induction rs)
  case (Cons r rs)
  have "\<not> is_speakable env []" by (simp add: is_speakable_def)
  with Cons show ?case by (cases r) (auto simp: List.map_filter_simps range_view_def)
qed (simp add: List.map_filter_simps)

text \<open>
  C15. Everything that can be spoken is spoken once, by the right voice. When a chapter was segmented,
  the segments of each of its paragraphs, in order, are exactly the speaker ranges of the paragraph
  whose trimmed text has an alphanumeric character, each with its byte range, its trimmed text and
  the voice assignment of its speaker.
\<close>

theorem segments_cover_speech:
  assumes "segment_chapter env project language chapter title ps narrator assignments detection overrides rules = Inr segs"
    and "distinct (map pg_id ps)" and "\<forall>p \<in> set ps. length (pg_text p) \<le> u64_max"
    and "p \<in> set ps" and "\<not> str_is_blank (pg_text p)"
  shows "map (\<lambda>s. (sg_byte_start s, sg_byte_end s, sg_assignment s, sg_original_text s))
       (filter (\<lambda>s. sg_paragraph_id s = pg_id p) segs)
     = map (\<lambda>(s, e, c). (s, e, the (map_of assignments c), str_trim (str_slice (pg_text p) s e)))
         (filter (\<lambda>(s, e, c). is_speakable env (str_trim (str_slice (pg_text p) s e)))
           (speaker_ranges (pg_text p) narrator (detection (pg_id p))
              (filter (override_is_current p) (overrides (pg_id p))) assignments))"
proof -
  let ?rs = "paragraph_ranges narrator assignments detection overrides"
  let ?all = "concat (map (\<lambda>q. map (Pair q) (?rs q)) ps)"
  let ?seg = "\<lambda>count (p, r). segment_range env project language chapter title rules assignments p count r"
  from assms(1) obtain out where out: "segment_all ?seg ?all [] = Inr out"
    and segs: "segs = filter (\<lambda>s. is_speakable env (sg_original_text s)) (with_contexts out)"
    by (cases "segment_all ?seg ?all []") (auto simp: segment_chapter_def)
  have "map_option spoken_view x = range_view assignments r" if r: "r \<in> set ?all" and x: "?seg n r = Inr x" for r n x
  proof -
    from r obtain q s e c where q: "q \<in> set ps" "r = (q, s, e, c)" "(s, e, c) \<in> set (?rs q)" by fastforce
    then have in_ranges: "(s, e, c) \<in> set (speaker_ranges (pg_text q) narrator (detection (pg_id q))
        (filter (override_is_current q) (overrides (pg_id q))) assignments)"
      by (auto simp: paragraph_ranges_def split: if_splits)
    note part = speaker_ranges_structure [OF refl, of "pg_text q" narrator "detection (pg_id q)"
        "filter (override_is_current q) (overrides (pg_id q))" assignments]
    have "is_char_boundary (pg_text q) s" "is_char_boundary (pg_text q) e" "s \<le> e"
      using part in_ranges by auto
    with segment_range_view q x assms(3) show ?thesis by simp blast
  qed
  from segment_all_view [OF out this] have view: "map spoken_view out = List.map_filter (range_view assignments) ?all"
    by simp
  let ?P = "\<lambda>v :: _ viewed_segment. is_speakable env (snd (snd (snd (snd v))))"
  have "map spoken_view segs = filter ?P (map spoken_view (with_contexts out))"
    by (simp add: segs filter_map comp_def spoken_view_def)
  then have sv: "map spoken_view segs = filter ?P (List.map_filter (range_view assignments) ?all)"
    by (simp add: with_contexts_view view)
  have own: "filter (\<lambda>v. fst v = pg_id p) (List.map_filter (range_view assignments) ?all)
      = List.map_filter (range_view assignments) (map (Pair p) (?rs p))"
    by (rule filter_paragraph [OF assms(2,4)]) (auto simp: range_view_def split: if_splits)
  have "map spoken_view (filter (\<lambda>s. sg_paragraph_id s = pg_id p) segs)
      = filter (\<lambda>v. fst v = pg_id p) (map spoken_view segs)"
    by (simp add: filter_map comp_def spoken_view_def)
  also have "\<dots> = filter ?P (List.map_filter (range_view assignments) (map (Pair p) (?rs p)))"
    by (simp only: sv filter_swap [of "\<lambda>v. fst v = pg_id p"] own)
  finally have v: "map spoken_view (filter (\<lambda>s. sg_paragraph_id s = pg_id p) segs)
      = map (\<lambda>(s, e, c). (pg_id p, s, e, the (map_of assignments c), str_trim (str_slice (pg_text p) s e)))
        (filter (\<lambda>(s, e, c). is_speakable env (str_trim (str_slice (pg_text p) s e))) (?rs p))"
    by (simp only: map_filter_range_view)
  have "map (\<lambda>s. (sg_byte_start s, sg_byte_end s, sg_assignment s, sg_original_text s))
       (filter (\<lambda>s. sg_paragraph_id s = pg_id p) segs)
     = map snd (map spoken_view (filter (\<lambda>s. sg_paragraph_id s = pg_id p) segs))"
    by (simp add: spoken_view_def)
  also have "\<dots> = map (\<lambda>(s, e, c). (s, e, the (map_of assignments c), str_trim (str_slice (pg_text p) s e)))
        (filter (\<lambda>(s, e, c). is_speakable env (str_trim (str_slice (pg_text p) s e))) (?rs p))"
    unfolding v by (simp add: case_prod_unfold)
  finally show ?thesis using assms(5) by (simp add: paragraph_ranges_def)
qed

section \<open>A small chapter\<close>

definition small_paragraph :: book_paragraph where
  "small_paragraph = \<lparr>pg_id = 1, pg_chapter_id = 2, pg_ordinal = 0, pg_kind = KindProse, pg_text = ''Go'',
     pg_source_start = 0, pg_source_end = 2, pg_content_hash = ''h''\<rparr>"

definition small_assignments :: "unit assignments" where
  "small_assignments = [(0, \<lparr>sa_character_id = 0, sa_character_name = ''Narrator'', sa_voice = ()\<rparr>),
     (5, \<lparr>sa_character_id = 5, sa_character_name = ''Ada'', sa_voice = ()\<rparr>)]"

definition small_detection :: "uuid \<Rightarrow> dialogue_span list" where
  "small_detection i = [\<lparr>ds_paragraph_id = 1, ds_character_id = 5, ds_byte_start = 0, ds_byte_end = 2,
     ds_confidence = Finite 1, ds_evidence = None\<rparr>]"

definition small_text_env :: "unit text_env" where
  "small_text_env = \<lparr>te_escape = id, te_build = (\<lambda>_ _. Inr ()), te_replace_expand = (\<lambda>_ s _. s),
     te_replace_literal = (\<lambda>_ s _. s), te_hash = concat, te_alphanumeric = (\<lambda>c. c \<noteq> '' ''),
     te_uuid_text = nat_text, te_uuid_bytes = nat_text, te_new_id = id\<rparr>"

lemma small_ranges: "speaker_ranges ''Go'' 0 (small_detection i) [] small_assignments = [(0, 2, 5)]"
  by (simp add: speaker_ranges_def range_spans_def detected_spans_def override_spans_def small_detection_def
      small_assignments_def List.map_filter_simps valid_text_range_def boundary_from.simps is_char_boundary_def
      boundary_down.simps is_continuation_def boundaries_of_def push_range_def speaker_of_interval_def
      best_span_def Let_def numeral_2_eq_2)

lemma small_chars: "chars_of ''Go'' = [''G'', ''o'']"
  by (simp add: chars_of.simps [of "''Go''"] chars_of.simps [of "''o''"] utf8_width_def Let_def)

lemma small_trim: "str_trim ''Go'' = ''Go''"
  by (simp add: str_trim_def small_chars is_ws_char_def ws_len_ascii is_ascii_ws_def)

lemma small_assigned:
  "map_of small_assignments 5 = Some \<lparr>sa_character_id = 5, sa_character_name = ''Ada'', sa_voice = ()\<rparr>"
  by (simp add: small_assignments_def)

theorem segments_cover_speech_witness:
  "\<exists>segs. segment_chapter small_text_env 3 None 2 ''One'' [small_paragraph] 0 small_assignments small_detection
       (\<lambda>_. []) [] = Inr segs
     \<and> map (\<lambda>s. (sg_byte_start s, sg_byte_end s, sg_assignment s, sg_original_text s)) segs
         = [(0, 2, \<lparr>sa_character_id = 5, sa_character_name = ''Ada'', sa_voice = ()\<rparr>, ''Go'')]"
proof -
  let ?seg = "segment_chapter small_text_env 3 None 2 ''One'' [small_paragraph] 0 small_assignments small_detection
       (\<lambda>_. []) []"
  have nb: "\<not> str_is_blank (pg_text small_paragraph)"
    by (simp add: small_paragraph_def str_is_blank_ascii is_ascii_ws_def)
  have "\<exists>segs. ?seg = Inr segs \<and> (\<forall>s \<in> set segs. sg_paragraph_id s = 1)"
    using nb by (simp add: segment_chapter_def paragraph_ranges_def small_paragraph_def small_ranges
        segment_range_def str_slice_def small_trim small_assigned apply_pronunciation_rules_def
        sort_rules_def Let_def is_char_boundary_def with_contexts_def)
  then obtain segs where segs: "?seg = Inr segs" "\<forall>s \<in> set segs. sg_paragraph_id s = 1" by blast
  have "map (\<lambda>s. (sg_byte_start s, sg_byte_end s, sg_assignment s, sg_original_text s))
       (filter (\<lambda>s. sg_paragraph_id s = pg_id small_paragraph) segs)
     = map (\<lambda>(s, e, c). (s, e, the (map_of small_assignments c), str_trim (str_slice (pg_text small_paragraph) s e)))
         (filter (\<lambda>(s, e, c). is_speakable small_text_env (str_trim (str_slice (pg_text small_paragraph) s e)))
           (speaker_ranges (pg_text small_paragraph) 0 (small_detection (pg_id small_paragraph))
              (filter (override_is_current small_paragraph) []) small_assignments))"
    by (rule segments_cover_speech [OF segs(1)]) (use nb in \<open>simp_all add: small_paragraph_def u64_max_def\<close>)
  moreover have "filter (\<lambda>s. sg_paragraph_id s = pg_id small_paragraph) segs = segs"
    using segs(2) by (simp add: small_paragraph_def filter_id_conv)
  moreover have "is_speakable small_text_env ''Go''"
    by (simp add: is_speakable_def small_chars small_text_env_def)
  ultimately have v: "map (\<lambda>s. (sg_byte_start s, sg_byte_end s, sg_assignment s, sg_original_text s)) segs
      = [(0, 2, the (map_of small_assignments 5), ''Go'')]"
    by (simp add: small_paragraph_def small_ranges str_slice_def small_trim)
  with segs(1) show ?thesis by (intro exI [of _ segs] conjI) (simp_all only: small_assigned option.sel)
qed

end
