(* ===== verification/Playback.thy ===== *)
theory Playback
  imports Prelude
begin

text \<open>
  Live playback of a conversion (crates/service/src/conversion/playback.rs): segments are synthesised
  in any order, their audio is sent to the listeners in the order of the segments. The hub of one job
  is its order state and the packets sent so far, each with the ordinal of its segment (which the
  packet itself does not carry). \<open>listening\<close> says whether the channel has a receiver; it does not
  change during an operation, and sending succeeds exactly then. Each operation holds the lock.
\<close>

type_synonym pcm = "char list"

datatype playback_packet = Audio pcm | Reset

record segment_buffer =
  sb_chunks :: "pcm list"
  sb_complete :: bool
  sb_published :: bool

definition empty_buffer :: segment_buffer where
  "empty_buffer = \<lparr>sb_chunks = [], sb_complete = False, sb_published = False\<rparr>"

record order_state =
  os_next_ordinal :: usize
  os_segments :: "(usize \<times> segment_buffer) list"

record playback_hub =
  ph_order :: order_state
  ph_sent :: "(usize \<times> playback_packet) list"

text \<open>\<open>segments.entry(ordinal).or\_default()\<close> and \<open>remove\<close>.\<close>

definition segment_entry :: "(usize \<times> segment_buffer) list \<Rightarrow> usize \<Rightarrow> segment_buffer" where
  "segment_entry segments ordinal = (case map_of segments ordinal of Some b \<Rightarrow> b | None \<Rightarrow> empty_buffer)"

definition remove_segment :: "usize \<Rightarrow> (usize \<times> segment_buffer) list \<Rightarrow> (usize \<times> segment_buffer) list" where
  "remove_segment ordinal = filter (\<lambda>(k, _). k \<noteq> ordinal)"

definition put_segment :: "usize \<Rightarrow> segment_buffer \<Rightarrow> playback_hub \<Rightarrow> playback_hub" where
  "put_segment ordinal b h = h\<lparr>ph_order := (ph_order h)\<lparr>os_segments :=
     btree_insert ordinal b (os_segments (ph_order h))\<rparr>\<rparr>"

definition prepare_playback :: "usize \<Rightarrow> playback_hub \<Rightarrow> playback_hub" where
  "prepare_playback next_ordinal h = h\<lparr>ph_order := \<lparr>os_next_ordinal = next_ordinal, os_segments = []\<rparr>\<rparr>"

text \<open>One round of the loop: the chunks of the next segment are sent (or dropped without a receiver).\<close>

definition send_chunks :: "bool \<Rightarrow> usize \<Rightarrow> segment_buffer \<Rightarrow> (usize \<times> playback_packet) list" where
  "send_chunks listening ordinal b = (if listening then map (\<lambda>c. (ordinal, Audio c)) (sb_chunks b) else [])"

definition drained_buffer :: "bool \<Rightarrow> segment_buffer \<Rightarrow> segment_buffer" where
  "drained_buffer listening b =
     b\<lparr>sb_chunks := [], sb_published := (sb_published b \<or> (listening \<and> sb_chunks b \<noteq> []))\<rparr>"

lemma remove_segment_length: "map_of segments k = Some b \<Longrightarrow> length (remove_segment k segments) < length segments"
proof (induction segments)
  case (Cons s segments)
  have "length (remove_segment k segments) \<le> length segments" by (simp add: remove_segment_def)
  with Cons show ?case by (cases s) (auto simp: remove_segment_def less_Suc_eq_le split: if_splits)
qed simp

function drain_playback_order :: "bool \<Rightarrow> playback_hub \<Rightarrow> playback_hub" where
  "drain_playback_order listening h =
     (case map_of (os_segments (ph_order h)) (os_next_ordinal (ph_order h)) of
        None \<Rightarrow> h
      | Some b \<Rightarrow>
          if \<not> sb_complete b
          then (put_segment (os_next_ordinal (ph_order h)) (drained_buffer listening b) h)
            \<lparr>ph_sent := ph_sent h @ send_chunks listening (os_next_ordinal (ph_order h)) b\<rparr>
          else drain_playback_order listening
            (h\<lparr>ph_order := \<lparr>os_next_ordinal = u64_saturating_add (os_next_ordinal (ph_order h)) 1,
                 os_segments = remove_segment (os_next_ordinal (ph_order h)) (os_segments (ph_order h))\<rparr>,
               ph_sent := ph_sent h @ send_chunks listening (os_next_ordinal (ph_order h)) b\<rparr>))"
  by pat_completeness auto

termination
  by (relation "measure (\<lambda>(_, h). length (os_segments (ph_order h)))") (auto dest: remove_segment_length)

declare drain_playback_order.simps [simp del]

definition publish_playback_chunk :: "bool \<Rightarrow> usize \<Rightarrow> pcm \<Rightarrow> playback_hub \<Rightarrow> playback_hub" where
  "publish_playback_chunk listening ordinal pcm h =
     (if pcm = [] then h
      else if \<not> listening then h
      else if ordinal < os_next_ordinal (ph_order h) then h
      else
        let b = segment_entry (os_segments (ph_order h)) ordinal
        in drain_playback_order listening (put_segment ordinal (b\<lparr>sb_chunks := sb_chunks b @ [pcm]\<rparr>) h))"

definition complete_playback_segment :: "bool \<Rightarrow> usize \<Rightarrow> playback_hub \<Rightarrow> playback_hub" where
  "complete_playback_segment listening ordinal h =
     (if ordinal < os_next_ordinal (ph_order h) then h
      else
        let b = segment_entry (os_segments (ph_order h)) ordinal
        in drain_playback_order listening (put_segment ordinal (b\<lparr>sb_complete := True\<rparr>) h))"

definition reset_playback_segment :: "bool \<Rightarrow> usize \<Rightarrow> playback_hub \<Rightarrow> playback_hub" where
  "reset_playback_segment listening ordinal h =
     (if ordinal < os_next_ordinal (ph_order h) then h
      else
        let b = segment_entry (os_segments (ph_order h)) ordinal;
            h' = put_segment ordinal (b\<lparr>sb_chunks := [], sb_complete := False, sb_published := False\<rparr>) h
        in if sb_published b \<and> listening then h'\<lparr>ph_sent := ph_sent h @ [(ordinal, Reset)]\<rparr> else h')"

text \<open>\<open>slice::chunks\<close> for a positive size.\<close>

function chunks_of :: "nat \<Rightarrow> 'a list \<Rightarrow> 'a list list" where
  "chunks_of n xs = (if xs = [] \<or> n = 0 then [] else take n xs # chunks_of n (drop n xs))"
  by pat_completeness auto
termination by (relation "measure (length \<circ> snd)") auto

declare chunks_of.simps [simp del]

definition range_chunk_bytes :: usize where
  "range_chunk_bytes = 64 * 1024"

definition complete_playback_with_pcm :: "bool \<Rightarrow> usize \<Rightarrow> pcm \<Rightarrow> playback_hub \<Rightarrow> playback_hub" where
  "complete_playback_with_pcm listening ordinal pcm h =
     complete_playback_segment listening ordinal
       (fold (publish_playback_chunk listening ordinal) (chunks_of (range_chunk_bytes - range_chunk_bytes mod 4) pcm) h)"

end
