(* ===== verification/Playback_Properties.thy ===== *)
theory Playback_Properties
  imports Playback
begin

text \<open>
  Live playback delivers in order: whatever the order in which segments produce their audio, restart
  and finish, the listener hears the audio of the segments one after the other.
\<close>

section \<open>What is heard\<close>




section \<open>The specification\<close>










section \<open>The simulation\<close>




lemma segment_entry_put [simp]:
  "segment_entry (btree_insert k b m) j = (if j = k then b else segment_entry m j)"
  by (simp add: segment_entry_def btree_insert_map_of)

lemma map_of_remove: "map_of (remove_segment k m) j = (if j = k then None else map_of m j)"
  by (induction m) (auto simp: remove_segment_def)

lemma segment_entry_remove [simp]:
  "segment_entry (remove_segment k m) j = (if j = k then empty_buffer else segment_entry m j)"
  by (simp add: segment_entry_def map_of_remove)

lemma sorted_const [simp]: "sorted (map (\<lambda>c. n) cs)"
  by (induction cs) auto












lemma concat_chunks_of: "0 < n \<Longrightarrow> concat (chunks_of n xs) = xs"
  by (induction n xs rule: chunks_of.induct) (subst chunks_of.simps, simp)

end
