(* ===== verification/Dialogue_Resolution.thy ===== *)
theory Dialogue_Resolution
  imports Utf8_Text Detection_Types
begin

text \<open>
  The answer of a language model (crates/providers/src/adapters/dialogue.rs): the model quotes the
  opening and closing words of a spoken passage, and the adapter finds the passage in the paragraph.
  The JSON parser (serde\_json) and the first character of the lower case of a character
  (\<open>char::to\_lowercase\<close>) are the parameters \<open>wire_env\<close>. A character is its encoding.
\<close>

section \<open>Wire format\<close>

record wire_character =
  wc_canonical_name :: str
  wc_aliases :: "str list"
  wc_confidence :: "fval option"

record wire_dialogue =
  wd_paragraph_id :: str
  wd_character :: str
  wd_quote_start :: "str option"
  wd_quote_end :: "str option"
  wd_text :: "str option"
  wd_start :: "u32 option"
  wd_end :: "u32 option"
  wd_confidence :: "fval option"

record wire_result =
  wr_characters :: "wire_character list"
  wr_dialogue :: "wire_dialogue list"

record wire_paragraph =
  wp_id :: str
  wp_text :: str
  wp_context_only :: bool

text \<open>A parse error: the end of the input, or a line and a column.\<close>

datatype json_failure = UnexpectedEnd | NotParsed usize usize

record wire_env =
  we_parse :: "str \<Rightarrow> json_failure + wire_result"
  we_lower :: "str \<Rightarrow> str"

definition wire_id :: "usize \<Rightarrow> str" where
  "wire_id index = ''p'' @ nat_text (index + 1)"

text \<open>The paragraphs as they are serialized; \<open>context_only\<close> is left out when it is false.\<close>

definition wire_input :: "detection_request \<Rightarrow> wire_paragraph list" where
  "wire_input q = map (\<lambda>(i, p). \<lparr>wp_id = wire_id i, wp_text = rp_text p, wp_context_only = rp_context_only p\<rparr>)
     (enumerate 0 (dq_paragraphs q))"

section \<open>Folding\<close>

text \<open>The encoding of a code point.\<close>

definition utf8_of :: "nat \<Rightarrow> str" where
  "utf8_of n =
     (if n < 0x80 then [char_of n]
      else if n < 0x800 then [char_of (0xC0 + n div 64), char_of (0x80 + n mod 64)]
      else if n < 0x10000
      then [char_of (0xE0 + n div 4096), char_of (0x80 + n div 64 mod 64), char_of (0x80 + n mod 64)]
      else [char_of (0xF0 + n div 262144), char_of (0x80 + n div 4096 mod 64),
            char_of (0x80 + n div 64 mod 64), char_of (0x80 + n mod 64)])"

definition is_quotation_mark :: "str \<Rightarrow> bool" where
  "is_quotation_mark c \<longleftrightarrow> c \<in> set (map utf8_of [0x22, 0x201C, 0x201D, 0x201E, 0x201F, 0xAB, 0xBB,
     0x2039, 0x203A, 0x300C, 0x300D, 0x300E, 0x300F, 0x2018, 0x201A, 0x201B])"

definition is_invisible :: "str \<Rightarrow> bool" where
  "is_invisible c \<longleftrightarrow> c \<in> set (map utf8_of [0xAD, 0x200B, 0x200C, 0x200D, 0x2060, 0xFEFF])"

definition is_apostrophe :: "str \<Rightarrow> bool" where
  "is_apostrophe c \<longleftrightarrow> c \<in> set (map utf8_of [0x2018, 0x2019, 0x201A, 0x201B, 0x2032, 0x60, 0xB4])"

definition is_dash :: "str \<Rightarrow> bool" where
  "is_dash c \<longleftrightarrow> c \<in> set (map utf8_of [0x2010, 0x2011, 0x2012, 0x2013, 0x2014, 0x2015, 0x2212])"

type_synonym folded = "(str \<times> usize \<times> usize) list"

text \<open>Each folded character keeps the byte range it came from.\<close>

definition push_folded :: "(str \<Rightarrow> str) \<Rightarrow> str \<Rightarrow> usize \<times> usize \<Rightarrow> folded \<Rightarrow> folded" where
  "push_folded lower c origin acc =
     (if is_invisible c then acc
      else if is_apostrophe c then acc @ [([CHR 0x27], origin)]
      else if is_dash c then acc @ [(''-'', origin)]
      else if c = utf8_of 0x2026 then acc @ replicate 3 (''.'', origin)
      else if is_quotation_mark c then acc @ [([CHR 0x22], origin)]
      else if is_ws_char c
      then (if acc \<noteq> [] \<and> fst (last acc) = '' '' then acc else acc @ [('' '', origin)])
      else acc @ [(lower c, origin)])"

fun fold_chars :: "(str \<Rightarrow> str) \<Rightarrow> usize \<Rightarrow> str list \<Rightarrow> folded \<Rightarrow> folded" where
  "fold_chars lower offset [] acc = acc"
| "fold_chars lower offset (c # cs) acc =
     fold_chars lower (offset + length c) cs (push_folded lower c (offset, offset + length c) acc)"

definition normalized_text :: "(str \<Rightarrow> str) \<Rightarrow> str \<Rightarrow> folded" where
  "normalized_text lower text = fold_chars lower 0 (chars_of text) []"

definition is_quote_or_ws :: "str \<Rightarrow> bool" where
  "is_quote_or_ws c \<longleftrightarrow> is_quotation_mark c \<or> is_ws_char c"

definition trim_list :: "('a \<Rightarrow> bool) \<Rightarrow> 'a list \<Rightarrow> 'a list" where
  "trim_list P xs = dropWhile P (rev (dropWhile P (rev xs)))"

definition normalize_anchor :: "(str \<Rightarrow> str) \<Rightarrow> str \<Rightarrow> str list" where
  "normalize_anchor lower value = trim_list (\<lambda>c. c = '' '')
     (map fst (fold (\<lambda>c. push_folded lower c (0, 0)) (trim_list is_quote_or_ws (chars_of (str_trim value))) []))"

section \<open>Searching\<close>

text \<open>\<open>partition\_point\<close> on origins in increasing order.\<close>

definition position_at_or_after :: "folded \<Rightarrow> usize \<Rightarrow> usize" where
  "position_at_or_after h byte = length (takeWhile (\<lambda>(_, s, _). s < byte) h)"

definition occurs_at :: "str list \<Rightarrow> str list \<Rightarrow> usize \<Rightarrow> bool" where
  "occurs_at chars needle p \<longleftrightarrow> take (length needle) (drop p chars) = needle"

definition find_from :: "str list \<Rightarrow> str list \<Rightarrow> usize \<Rightarrow> usize option" where
  "find_from chars needle start =
     (if needle = [] \<or> length needle > length chars then None
      else find (occurs_at chars needle) [start ..< length chars - length needle + 1])"

lemma find_upt:
  "find P [a ..< b] = Some p \<longleftrightarrow> a \<le> p \<and> p < b \<and> P p \<and> (\<forall>q. a \<le> q \<and> q < p \<longrightarrow> \<not> P q)"
proof (induction "b - a" arbitrary: a)
  case 0
  then show ?case by simp
next
  case (Suc n)
  then have "a < b" "n = b - Suc a" by simp_all
  have ih: "find P [Suc a ..< b] = Some p
    \<longleftrightarrow> Suc a \<le> p \<and> p < b \<and> P p \<and> (\<forall>q. Suc a \<le> q \<and> q < p \<longrightarrow> \<not> P q)"
    using Suc.hyps(1) [of "Suc a"] \<open>n = b - Suc a\<close> by blast
  show ?case
  proof (cases "P a")
    case True
    then have "p = a" if "a \<le> p" "\<forall>q. a \<le> q \<and> q < p \<longrightarrow> \<not> P q" using that le_less by blast
    with True \<open>a < b\<close> show ?thesis by (auto simp: upt_conv_Cons)
  next
    case False
    have all: "(\<forall>q. a \<le> q \<and> q < p \<longrightarrow> \<not> P q) \<longleftrightarrow> (\<forall>q. Suc a \<le> q \<and> q < p \<longrightarrow> \<not> P q)"
    proof (intro iffI allI impI)
      fix q assume h: "\<forall>q. Suc a \<le> q \<and> q < p \<longrightarrow> \<not> P q" "a \<le> q \<and> q < p"
      show "\<not> P q" using h False by (cases "q = a") simp_all
    qed simp
    have le: "P p \<and> a \<le> p \<longleftrightarrow> P p \<and> Suc a \<le> p" using False by (cases "p = a") auto
    have fnd: "find P [a ..< b] = find P [Suc a ..< b]" using False \<open>a < b\<close> by (simp add: upt_conv_Cons)
    show ?thesis unfolding fnd ih all using le by argo
  qed
qed

lemma find_from_Some:
  "find_from chars needle s = Some p \<longleftrightarrow> needle \<noteq> [] \<and> s \<le> p \<and> p + length needle \<le> length chars
     \<and> occurs_at chars needle p \<and> (\<forall>q. s \<le> q \<and> q < p \<longrightarrow> \<not> occurs_at chars needle q)"
proof (cases "needle = [] \<or> length needle > length chars")
  case True
  then show ?thesis by (auto simp: find_from_def)
next
  case False
  then have "p < length chars - length needle + 1 \<longleftrightarrow> p + length needle \<le> length chars" by auto
  moreover have "find_from chars needle s = find (occurs_at chars needle) [s ..< length chars - length needle + 1]"
    using False by (simp only: find_from_def if_False)
  ultimately show ?thesis using False by (simp only: find_upt) blast
qed

text \<open>The loop: the first closing anchor that does not end before the opening one.\<close>

function find_closing :: "str list \<Rightarrow> str list \<Rightarrow> usize \<Rightarrow> usize \<Rightarrow> usize option" where
  "find_closing chars closing minimum_end search =
     (case find_from chars closing search of
        None \<Rightarrow> None
      | Some candidate \<Rightarrow>
          if candidate + length closing \<ge> minimum_end then Some candidate
          else find_closing chars closing minimum_end (candidate + 1))"
  by pat_completeness auto
termination
  by (relation "measure (\<lambda>(chars, _, _, search). length chars + 1 - search)")
     (auto simp: find_from_Some)

declare find_closing.simps [simp del]

definition locate_passage :: "(str \<Rightarrow> str) \<Rightarrow> str \<Rightarrow> str \<Rightarrow> str \<Rightarrow> usize \<Rightarrow> (usize \<times> usize) option" where
  "locate_passage lower text opening_text closing_text start_at =
     (let h = normalized_text lower text;
          opening = normalize_anchor lower opening_text;
          closing = normalize_anchor lower closing_text
      in if opening = [] \<or> closing = [] then None
      else case find_from (map fst h) opening (position_at_or_after h start_at) of
        None \<Rightarrow> None
      | Some start \<Rightarrow>
          map_option (\<lambda>candidate. (fst (snd (h ! start)), snd (snd (h ! (candidate + length closing - 1)))))
            (find_closing (map fst h) closing (start + length opening) start))"

section \<open>Quotation marks around a passage\<close>

text \<open>The loops over \<open>text[..start].chars().next\_back()\<close> and \<open>text[probe..].chars().next()\<close>.\<close>

fun expand_back :: "str list \<Rightarrow> usize \<Rightarrow> usize" where
  "expand_back [] start = start"
| "expand_back (c # cs) start = (if is_quotation_mark c then expand_back cs (start - length c) else start)"

definition is_inner_punctuation :: "str \<Rightarrow> bool" where
  "is_inner_punctuation c \<longleftrightarrow> c \<in> {'','', ''.'', ''!'', ''?'', utf8_of 0x2026, '';'', '':''}"

fun expand_forward :: "str list \<Rightarrow> usize \<Rightarrow> usize \<Rightarrow> usize" where
  "expand_forward [] probe end_at = end_at"
| "expand_forward (c # cs) probe end_at =
     (if is_quotation_mark c then expand_forward cs (probe + length c) (probe + length c)
      else if is_inner_punctuation c \<and> probe = end_at then expand_forward cs (probe + length c) end_at
      else end_at)"

definition expand_to_quotation_marks :: "str \<Rightarrow> usize \<times> usize \<Rightarrow> usize \<times> usize" where
  "expand_to_quotation_marks text r = (case r of (start, end_at) \<Rightarrow>
     (expand_back (rev (chars_of (take start text))) start,
      expand_forward (chars_of (drop end_at text)) end_at end_at))"

section \<open>Resolving an answer\<close>

definition non_blank :: "str option \<Rightarrow> str option" where
  "non_blank v = (case v of None \<Rightarrow> None | Some s \<Rightarrow> if str_is_blank s then None else Some s)"

definition or_text :: "str option \<Rightarrow> str option \<Rightarrow> str option" where
  "or_text a b = (case a of None \<Rightarrow> b | Some s \<Rightarrow> Some s)"

definition locate_item :: "(str \<Rightarrow> str) \<Rightarrow> wire_dialogue \<Rightarrow> str \<Rightarrow> usize \<Rightarrow> (usize \<times> usize) option" where
  "locate_item lower item text cursor =
     (let full = non_blank (wd_text item)
      in case or_text (or_text (non_blank (wd_quote_start item)) full) (non_blank (wd_quote_end item)) of
        Some opening \<Rightarrow>
          (let closing = (case or_text (non_blank (wd_quote_end item)) full of Some c \<Rightarrow> c | None \<Rightarrow> opening)
           in map_option (expand_to_quotation_marks text)
             (case locate_passage lower text opening closing cursor of
                Some r \<Rightarrow> Some r
              | None \<Rightarrow> if cursor > 0 then locate_passage lower text opening closing 0 else None))
      | None \<Rightarrow> (case (wd_start item, wd_end item) of
          (Some start, Some end_at) \<Rightarrow>
            if start < end_at \<and> end_at \<le> length text \<and> is_char_boundary text start \<and> is_char_boundary text end_at
            then Some (start, end_at) else None
        | _ \<Rightarrow> None))"

definition clamp_confidence :: "fval option \<Rightarrow> fval" where
  "clamp_confidence v = (case v of Some (Finite x) \<Rightarrow> Finite (min 1 (max 0 x)) | _ \<Rightarrow> Finite (1 / 2))"

definition resolve_character :: "wire_character \<Rightarrow> detected_character option" where
  "resolve_character c = (if str_trim (wc_canonical_name c) = [] then None
     else Some \<lparr>dc_canonical_name = str_trim (wc_canonical_name c),
       dc_aliases = filter (\<lambda>a. a \<noteq> []) (map str_trim (wc_aliases c)),
       dc_confidence = clamp_confidence (wc_confidence c)\<rparr>)"

text \<open>The paragraph of an item, by its alias or else by its identifier.\<close>

definition paragraph_of_item :: "detection_request \<Rightarrow> wire_dialogue \<Rightarrow> request_paragraph option" where
  "paragraph_of_item q item =
     (case map_of (map (\<lambda>(i, p). (wire_id i, p)) (enumerate 0 (dq_paragraphs q))) (str_trim (wd_paragraph_id item)) of
        Some p \<Rightarrow> Some p
      | None \<Rightarrow> find (\<lambda>p. rp_id p = str_trim (wd_paragraph_id item)) (dq_paragraphs q))"

text \<open>One item; \<open>cursors\<close> says where the last passage of each paragraph ended.\<close>

definition resolve_item ::
  "(str \<Rightarrow> str) \<Rightarrow> detection_request \<Rightarrow> wire_dialogue \<Rightarrow>
     (str \<rightharpoonup> usize) \<times> detected_dialogue list \<Rightarrow> (str \<rightharpoonup> usize) \<times> detected_dialogue list" where
  "resolve_item lower q item st = (case st of (cursors, dialogue) \<Rightarrow>
     (case paragraph_of_item q item of
        None \<Rightarrow> st
      | Some p \<Rightarrow>
          if str_trim (wd_character item) = [] then st
          else case locate_item lower item (rp_text p)
              (case cursors (rp_id p) of Some c \<Rightarrow> c | None \<Rightarrow> 0) of
            None \<Rightarrow> st
          | Some (start, end_at) \<Rightarrow>
              if start \<le> u32_max \<and> end_at \<le> u32_max
              then (cursors(rp_id p \<mapsto> end_at),
                dialogue @ [\<lparr>dd_paragraph_id = rp_id p, dd_character = str_trim (wd_character item),
                  dd_start = start, dd_end = end_at, dd_confidence = clamp_confidence (wd_confidence item)\<rparr>])
              else st))"

definition resolve_answer :: "(str \<Rightarrow> str) \<Rightarrow> wire_result \<Rightarrow> detection_request \<Rightarrow> detection_result" where
  "resolve_answer lower w q =
     \<lparr>dr_characters = List.map_filter resolve_character (wr_characters w),
      dr_dialogue = snd (fold (resolve_item lower q) (wr_dialogue w) (Map.empty, [])),
      dr_usage = no_usage\<rparr>"

section \<open>Parsing an answer\<close>

definition strip_suffix :: "str \<Rightarrow> str \<Rightarrow> str option" where
  "strip_suffix suffix s = map_option rev (strip_prefix (rev suffix) (rev s))"

definition find_byte :: "char \<Rightarrow> str \<Rightarrow> usize option" where
  "find_byte c s = (if c \<in> set s then Some (length (takeWhile (\<lambda>d. d \<noteq> c) s)) else None)"

definition rfind_byte :: "char \<Rightarrow> str \<Rightarrow> usize option" where
  "rfind_byte c s = (if c \<in> set s then Some (length s - 1 - length (takeWhile (\<lambda>d. d \<noteq> c) (rev s))) else None)"

definition code_fence :: str where
  "code_fence = replicate 3 (CHR 0x60)"

definition unfence :: "str \<Rightarrow> str" where
  "unfence content =
     (let trimmed = str_trim content
      in case Option.bind (or_text (strip_prefix (code_fence @ ''json'') trimmed) (strip_prefix code_fence trimmed))
          (strip_suffix code_fence) of
        None \<Rightarrow> trimmed
      | Some v \<Rightarrow> str_trim v)"

definition extract_json_object :: "str \<Rightarrow> str" where
  "extract_json_object content =
     (let unfenced = unfence content
      in if strip_prefix [CHR 0x7B] unfenced \<noteq> None then unfenced
      else case (find_byte (CHR 0x7B) unfenced, rfind_byte (CHR 0x7D) unfenced) of
        (Some start, Some end_at) \<Rightarrow>
          if start < end_at then str_slice unfenced start (end_at + 1) else drop start unfenced
      | (Some start, None) \<Rightarrow> drop start unfenced
      | _ \<Rightarrow> unfenced)"

definition parse_and_resolve ::
  "wire_env \<Rightarrow> str \<Rightarrow> detection_request \<Rightarrow> provider_error + detection_result" where
  "parse_and_resolve env content q = (case we_parse env (extract_json_object content) of
     Inl UnexpectedEnd \<Rightarrow> Inl POutputTruncated
   | Inl (NotParsed l c) \<Rightarrow> Inl (PInvalidResponse (''character detection output is not schema-valid JSON (line ''
       @ nat_text l @ '', column '' @ nat_text c @ '')''))
   | Inr w \<Rightarrow> Inr (resolve_answer (we_lower env) w q))"

end
