(* ===== verification/Dialogue_Properties.thy ===== *)
theory Dialogue_Properties
  imports Dialogue_Resolution
begin

text \<open>
  Resolving the quotes of a model: the search finds exactly the first passage that begins and ends as
  quoted, and what it returns is always a range of whole characters within its paragraph.
\<close>

section \<open>Character boundaries\<close>

lemma boundary_drop:
  assumes "utf8 s" and "s \<noteq> []" and "is_char_boundary (drop (utf8_width (hd s)) s) q"
  shows "is_char_boundary s (utf8_width (hd s) + q)"
proof -
  note st = utf8_step [OF assms(1,2)]
  show ?thesis
  proof (cases "q = 0")
    case True
    then show ?thesis
      using utf8_hd [OF st(4)] st(2)
      by (cases "utf8_width (hd s) = length s") (auto simp: is_char_boundary_def hd_drop_conv_nth)
  next
    case False
    with assms(3) st(2) show ?thesis by (auto simp: is_char_boundary_def)
  qed
qed

lemma chars_boundary:
  "utf8 s \<Longrightarrow> chars_of s = cs @ ds \<Longrightarrow> is_char_boundary s (length (concat cs))"
proof (induction cs arbitrary: s)
  case (Cons c cs)
  have s: "s \<noteq> []" using Cons.prems(2) by auto
  note st = utf8_step [OF Cons.prems(1) s]
  have "chars_of s = take (utf8_width (hd s)) s # chars_of (drop (utf8_width (hd s)) s)"
    using s by (subst chars_of.simps) (use st(1) in \<open>simp add: Let_def max_def\<close>)
  with Cons.prems(2) have c: "c = take (utf8_width (hd s)) s"
    and rest: "chars_of (drop (utf8_width (hd s)) s) = cs @ ds" by auto
  have "is_char_boundary (drop (utf8_width (hd s)) s) (length (concat cs))" by (rule Cons.IH [OF st(4) rest])
  with boundary_drop [OF Cons.prems(1) s] c st(2) show ?case by simp
qed simp

lemma boundary_take:
  assumes "is_char_boundary s j" and "is_char_boundary (take j s) k" and "k \<le> j"
  shows "is_char_boundary s k"
  using is_char_boundary_slice [of s 0 j k] assms by (simp add: str_slice_def)

lemma boundary_after:
  assumes "is_char_boundary s i" and "is_char_boundary (drop i s) k"
  shows "is_char_boundary s (i + k)"
  using is_char_boundary_slice [of s i "length s" k] assms is_char_boundary_le [OF assms(1)]
    is_char_boundary_le [OF assms(2)] by (simp add: str_slice_def)

section \<open>Origins\<close>

definition origin_le :: "str \<times> usize \<times> usize \<Rightarrow> str \<times> usize \<times> usize \<Rightarrow> bool" where
  "origin_le x y \<longleftrightarrow> fst (snd x) \<le> fst (snd y) \<and> snd (snd x) \<le> snd (snd y)"

definition origins_ordered :: "usize \<Rightarrow> folded \<Rightarrow> bool" where
  "origins_ordered offset h \<longleftrightarrow> sorted_wrt origin_le h
     \<and> (\<forall>x \<in> set h. fst (snd x) < snd (snd x) \<and> snd (snd x) \<le> offset)"

text \<open>A pushed character adds nothing, or entries with its own origin.\<close>

lemma push_folded_cases: "\<exists>new. push_folded lower c origin acc = acc @ new \<and> (\<forall>x \<in> set new. snd x = origin)"
  by (auto simp: push_folded_def)

lemma sorted_wrt_const: "(\<And>x y. x \<in> set xs \<Longrightarrow> y \<in> set xs \<Longrightarrow> R x y) \<Longrightarrow> sorted_wrt R xs"
  by (induction xs) auto

lemma push_folded_ordered:
  assumes "origins_ordered offset acc" and "c \<noteq> []"
  shows "origins_ordered (offset + length c) (push_folded lower c (offset, offset + length c) acc)"
proof -
  obtain new where new: "push_folded lower c (offset, offset + length c) acc = acc @ new"
    "\<forall>x \<in> set new. snd x = (offset, offset + length c)"
    using push_folded_cases [of lower c "(offset, offset + length c)" acc] by blast
  have "sorted_wrt origin_le new" using new(2) by (intro sorted_wrt_const) (simp add: origin_le_def)
  moreover have "origin_le x y" if "x \<in> set acc" "y \<in> set new" for x y
  proof -
    have "fst (snd x) < snd (snd x)" "snd (snd x) \<le> offset" using assms(1) that(1) by (auto simp: origins_ordered_def)
    with new(2) that(2) show ?thesis by (simp add: origin_le_def)
  qed
  moreover have "fst (snd x) < snd (snd x) \<and> snd (snd x) \<le> offset + length c" if "x \<in> set (acc @ new)" for x
    using that new(2) assms by (auto simp: origins_ordered_def)
  ultimately show ?thesis using assms(1) unfolding new(1) origins_ordered_def
    by (auto simp: sorted_wrt_append)
qed

lemma fold_chars_ordered:
  "origins_ordered offset acc \<Longrightarrow> \<forall>c \<in> set cs. c \<noteq> [] \<Longrightarrow>
    origins_ordered (offset + length (concat cs)) (fold_chars lower offset cs acc)"
proof (induction cs arbitrary: offset acc)
  case (Cons c cs)
  have "origins_ordered (offset + length c) (push_folded lower c (offset, offset + length c) acc)"
    using push_folded_ordered Cons.prems by simp
  from Cons.IH [OF this] Cons.prems(2) show ?case by (simp add: add.assoc)
qed simp

lemma chars_of_nonempty: "c \<in> set (chars_of s) \<Longrightarrow> c \<noteq> []"
proof (induction s rule: chars_of.induct)
  case (1 s)
  show ?case
  proof (cases "s = []")
    case False
    with "1.prems" have "c = take (max 1 (utf8_width (hd s))) s \<or> c \<in> set (chars_of (drop (max 1 (utf8_width (hd s))) s))"
      by (subst (asm) chars_of.simps) (simp add: Let_def)
    then show ?thesis
    proof
      assume "c = take (max 1 (utf8_width (hd s))) s"
      with False show ?thesis by (simp add: max_def split: if_splits)
    qed (rule "1.IH" [OF False refl])
  qed (use "1.prems" in simp)
qed

lemma normalized_text_ordered: "origins_ordered (length text) (normalized_text lower text)"
  using fold_chars_ordered [of 0 "[]" "chars_of text" lower] chars_of_nonempty [of _ "text"]
  by (simp add: normalized_text_def origins_ordered_def)

text \<open>Origins lie between whole characters.\<close>

lemma fold_chars_boundaries:
  assumes "utf8 text"
  shows "chars_of text = pre @ cs \<Longrightarrow>
    \<forall>x \<in> set acc. is_char_boundary text (fst (snd x)) \<and> is_char_boundary text (snd (snd x)) \<Longrightarrow>
    \<forall>x \<in> set (fold_chars lower (length (concat pre)) cs acc).
      is_char_boundary text (fst (snd x)) \<and> is_char_boundary text (snd (snd x))"
proof (induction cs arbitrary: pre acc)
  case (Cons c cs)
  let ?o = "(length (concat pre), length (concat pre) + length c)"
  have b: "is_char_boundary text (fst ?o)" "is_char_boundary text (snd ?o)"
    using chars_boundary [OF assms, of pre] chars_boundary [OF assms, of "pre @ [c]"] Cons.prems(1) by simp_all
  obtain new where "push_folded lower c ?o acc = acc @ new" "\<forall>x \<in> set new. snd x = ?o"
    using push_folded_cases [of lower c ?o acc] by blast
  then have "\<forall>x \<in> set (push_folded lower c ?o acc). is_char_boundary text (fst (snd x)) \<and> is_char_boundary text (snd (snd x))"
    using b Cons.prems(2) by auto
  from Cons.IH [of "pre @ [c]", OF _ this] Cons.prems(1) show ?case by simp
qed simp

lemma normalized_text_boundaries:
  assumes "utf8 text" and "x \<in> set (normalized_text lower text)"
  shows "is_char_boundary text (fst (snd x)) \<and> is_char_boundary text (snd (snd x))"
  using fold_chars_boundaries [OF assms(1), of "[]" "chars_of text" "[]" lower] assms(2)
  by (simp add: normalized_text_def)

section \<open>The search\<close>

definition closes_at :: "str list \<Rightarrow> str list \<Rightarrow> usize \<Rightarrow> usize \<Rightarrow> bool" where
  "closes_at chars closing minimum_end j \<longleftrightarrow> closing \<noteq> [] \<and> j + length closing \<le> length chars
     \<and> occurs_at chars closing j \<and> minimum_end \<le> j + length closing"

lemma find_closing_Some:
  "find_closing chars closing m search = Some j \<longleftrightarrow>
     search \<le> j \<and> closes_at chars closing m j \<and> (\<forall>k. search \<le> k \<and> k < j \<longrightarrow> \<not> closes_at chars closing m k)"
proof (induction chars closing m search rule: find_closing.induct)
  case (1 chars closing m search)
  show ?case
  proof (cases "find_from chars closing search")
    case None
    have "\<not> closes_at chars closing m k" if "search \<le> k" for k
    proof
      assume "closes_at chars closing m k"
      then have occ: "closing \<noteq> []" "k + length closing \<le> length chars" "occurs_at chars closing k"
        by (simp_all add: closes_at_def)
      define l where "l = (LEAST l. search \<le> l \<and> occurs_at chars closing l)"
      have l: "search \<le> l \<and> occurs_at chars closing l" unfolding l_def by (rule LeastI) (use that occ in blast)
      have "l \<le> k" unfolding l_def by (rule Least_le) (use that occ in blast)
      moreover have "\<not> occurs_at chars closing q" if "search \<le> q" "q < l" for q
        using not_less_Least [of q "\<lambda>l. search \<le> l \<and> occurs_at chars closing l"] that by (auto simp: l_def)
      ultimately have "find_from chars closing search = Some l" using l occ by (simp add: find_from_Some)
      with None show False by simp
    qed
    moreover have "find_closing chars closing m search = None" using None by (subst find_closing.simps) simp
    ultimately show ?thesis by auto
  next
    case (Some c)
    then have c: "closing \<noteq> []" "search \<le> c" "c + length closing \<le> length chars" "occurs_at chars closing c"
      and before: "\<forall>q. search \<le> q \<and> q < c \<longrightarrow> \<not> occurs_at chars closing q" by (simp_all add: find_from_Some)
    have nb: "\<not> closes_at chars closing m k" if "search \<le> k" "k < c" for k
      using before that by (simp add: closes_at_def)
    show ?thesis
    proof (cases "m \<le> c + length closing")
      case True
      then have at: "closes_at chars closing m c" using c by (simp add: closes_at_def)
      have "find_closing chars closing m search = Some c" using Some True by (subst find_closing.simps) simp
      moreover have "j = c" if "search \<le> j" "closes_at chars closing m j"
        "\<forall>k. search \<le> k \<and> k < j \<longrightarrow> \<not> closes_at chars closing m k"
        using that at nb c(2) by (metis linorder_neqE_nat)
      ultimately show ?thesis using at nb c(2) by auto
    next
      case False
      have eq: "find_closing chars closing m search = find_closing chars closing m (c + 1)"
        using Some False by (subst find_closing.simps) simp
      have nc: "\<not> closes_at chars closing m k" if "search \<le> k" "k < c + 1" for k
        using nb [of k] that False by (cases "k = c") (simp_all add: closes_at_def)
      have ih: "find_closing chars closing m (c + 1) = Some j \<longleftrightarrow> c + 1 \<le> j \<and> closes_at chars closing m j
          \<and> (\<forall>k. c + 1 \<le> k \<and> k < j \<longrightarrow> \<not> closes_at chars closing m k)"
        using "1.IH" [OF Some] False by blast
      show ?thesis unfolding eq ih
      proof (intro iffI conjI allI impI)
        fix k assume h: "c + 1 \<le> j \<and> closes_at chars closing m j
          \<and> (\<forall>k. c + 1 \<le> k \<and> k < j \<longrightarrow> \<not> closes_at chars closing m k)" "search \<le> k \<and> k < j"
        show "\<not> closes_at chars closing m k"
          using h nc [of k] by (cases "k < c + 1") simp_all
      next
        assume h: "search \<le> j \<and> closes_at chars closing m j
          \<and> (\<forall>k. search \<le> k \<and> k < j \<longrightarrow> \<not> closes_at chars closing m k)"
        show "c + 1 \<le> j" using h nc [of j] by (cases "j < c + 1") simp_all
      qed (use c(2) in \<open>auto\<close>)
    qed
  qed
qed

text \<open>A position is searched exactly if its character starts at or after the byte.\<close>

lemma position_at_or_after_le:
  assumes "sorted_wrt origin_le h" and "i < length h"
  shows "position_at_or_after h b \<le> i \<longleftrightarrow> b \<le> fst (snd (h ! i))"
proof -
  let ?P = "\<lambda>(_, s, _). s < b"
  let ?k = "position_at_or_after h b"
  have k: "?k = length (takeWhile ?P h)" by (simp add: position_at_or_after_def)
  show ?thesis
  proof
    assume le: "?k \<le> i"
    then have kl: "?k < length h" using assms(2) by simp
    then have "\<not> ?P (h ! ?k)" unfolding k by (rule nth_length_takeWhile)
    then have "b \<le> fst (snd (h ! ?k))" by (simp add: case_prod_beta)
    also have "\<dots> \<le> fst (snd (h ! i))"
    proof (cases "?k = i")
      case False
      with le have "?k < i" by simp
      from sorted_wrt_nth_less [OF assms(1) this assms(2)] show ?thesis by (simp add: origin_le_def)
    qed simp
    finally show "b \<le> fst (snd (h ! i))" .
  next
    assume b: "b \<le> fst (snd (h ! i))"
    show "?k \<le> i"
    proof (rule ccontr)
      assume "\<not> ?k \<le> i"
      then have "i < length (takeWhile ?P h)" by (simp add: k)
      then have "h ! i \<in> set (takeWhile ?P h)" using takeWhile_nth nth_mem by metis
      then have "?P (h ! i)" by (rule set_takeWhileD [THEN conjunct2])
      with b show False by (simp add: case_prod_beta)
    qed
  qed
qed

text \<open>The first passage from a byte on: folded, it begins with the opening and ends with the closing
  anchor, which may overlap but not end before the opening one.\<close>

definition first_passage ::
  "folded \<Rightarrow> str list \<Rightarrow> str list \<Rightarrow> usize \<Rightarrow> usize \<Rightarrow> usize \<Rightarrow> bool" where
  "first_passage h opening closing start_at i j \<longleftrightarrow> opening \<noteq> []
     \<and> i + length opening \<le> length h \<and> start_at \<le> fst (snd (h ! i)) \<and> occurs_at (map fst h) opening i
     \<and> (\<forall>k < i. start_at \<le> fst (snd (h ! k)) \<longrightarrow> \<not> occurs_at (map fst h) opening k)
     \<and> i \<le> j \<and> closes_at (map fst h) closing (i + length opening) j
     \<and> (\<forall>k. i \<le> k \<and> k < j \<longrightarrow> \<not> closes_at (map fst h) closing (i + length opening) k)"

lemma find_opening:
  assumes "sorted_wrt origin_le h"
  shows "find_from (map fst h) opening (position_at_or_after h b) = Some i \<longleftrightarrow> opening \<noteq> []
     \<and> i + length opening \<le> length h \<and> b \<le> fst (snd (h ! i)) \<and> occurs_at (map fst h) opening i
     \<and> (\<forall>k < i. b \<le> fst (snd (h ! k)) \<longrightarrow> \<not> occurs_at (map fst h) opening k)"
proof (cases "opening \<noteq> [] \<and> i + length opening \<le> length h")
  case True
  then have "i < length h" by (cases "opening") auto
  then have "position_at_or_after h b \<le> k \<longleftrightarrow> b \<le> fst (snd (h ! k))" if "k \<le> i" for k
    using position_at_or_after_le [OF assms, of k b] that by simp
  with True show ?thesis by (auto simp: find_from_Some)
qed (auto simp: find_from_Some)

lemma locate_passage_iff:
  fixes lower :: "str \<Rightarrow> str" and "text" :: str
  defines "h \<equiv> normalized_text lower text"
  shows "locate_passage lower text o1 c1 b = Some (s, e) \<longleftrightarrow>
    (\<exists>i j. first_passage h (normalize_anchor lower o1) (normalize_anchor lower c1) b i j
       \<and> s = fst (snd (h ! i)) \<and> e = snd (snd (h ! (j + length (normalize_anchor lower c1) - 1))))"
proof -
  let ?o = "normalize_anchor lower o1" and ?c = "normalize_anchor lower c1"
  have sorted: "sorted_wrt origin_le h" using normalized_text_ordered by (simp add: h_def origins_ordered_def)
  show ?thesis
  proof (cases "?o = [] \<or> ?c = []")
    case True
    then show ?thesis by (auto simp: locate_passage_def Let_def first_passage_def closes_at_def)
  next
    case False
    then have "locate_passage lower text o1 c1 b = Some (s, e) \<longleftrightarrow>
      (\<exists>i j. find_from (map fst h) ?o (position_at_or_after h b) = Some i
        \<and> find_closing (map fst h) ?c (i + length ?o) i = Some j
        \<and> s = fst (snd (h ! i)) \<and> e = snd (snd (h ! (j + length ?c - 1))))"
      by (auto simp: locate_passage_def Let_def h_def split: option.splits)
    then show ?thesis unfolding find_opening [OF sorted] find_closing_Some first_passage_def
      by (simp only: conj_assoc)
  qed
qed

lemma locate_passage_range:
  assumes "utf8 text" and "locate_passage lower text o1 c1 b = Some (s, e)"
  shows "s < e \<and> e \<le> length text \<and> is_char_boundary text s \<and> is_char_boundary text e"
proof -
  let ?h = "normalized_text lower text" and ?c = "normalize_anchor lower c1"
  from assms(2) obtain i j where ij: "first_passage ?h (normalize_anchor lower o1) ?c b i j"
    and s: "s = fst (snd (?h ! i))" and e: "e = snd (snd (?h ! (j + length ?c - 1)))"
    unfolding locate_passage_iff by blast
  let ?l = "j + length ?c - 1"
  have "?c \<noteq> []" "j + length ?c \<le> length ?h" "i \<le> j"
    using ij by (simp_all add: first_passage_def closes_at_def)
  then have l: "i \<le> ?l" "?l < length ?h" by (cases ?c; simp)+
  have ord: "sorted_wrt origin_le ?h" "\<forall>x \<in> set ?h. fst (snd x) < snd (snd x) \<and> snd (snd x) \<le> length text"
    using normalized_text_ordered [of "text" lower] by (simp_all add: origins_ordered_def)
  have "fst (snd (?h ! i)) \<le> fst (snd (?h ! ?l))"
  proof (cases "i = ?l")
    case False
    with l have "i < ?l" by simp
    from sorted_wrt_nth_less [OF ord(1) this l(2)] show ?thesis by (simp add: origin_le_def)
  qed simp
  moreover have "fst (snd (?h ! ?l)) < snd (snd (?h ! ?l)) \<and> snd (snd (?h ! ?l)) \<le> length text"
    using ord(2) nth_mem [OF l(2)] by blast
  ultimately have "s < e" "e \<le> length text" unfolding s e by simp_all
  moreover have "is_char_boundary text s" "is_char_boundary text e"
    using normalized_text_boundaries [OF assms(1)] l unfolding s e by (meson nth_mem le_less_trans)+
  ultimately show ?thesis by simp
qed

text \<open>C18. A quote is found exactly where it stands. \<open>locate_passage\<close> returns a range if and only if the
  folded text has, from the given byte on, a passage that begins with the folded opening anchor and ends
  with the folded closing anchor; it then is the first such opening and, for it, the first closing, and
  the range runs from the first byte of the opening to the last byte of the closing.\<close>

theorem quoted_passage_found:
  "locate_passage lower text o1 c1 b = Some (s, e) \<longleftrightarrow>
    (\<exists>i j. first_passage (normalized_text lower text) (normalize_anchor lower o1) (normalize_anchor lower c1) b i j
       \<and> s = fst (snd (normalized_text lower text ! i))
       \<and> e = snd (snd (normalized_text lower text ! (j + length (normalize_anchor lower c1) - 1))))"
  by (rule locate_passage_iff)

section \<open>Quotation marks\<close>

lemma expand_back_chars:
  "\<exists>n. expand_back (rev cs) (length (concat cs)) = length (concat (take n cs))
    \<and> length (concat (take n cs)) \<le> length (concat cs)"
proof (induction cs rule: rev_induct)
  case (snoc c cs)
  show ?case
  proof (cases "is_quotation_mark c")
    case True
    obtain n where n: "expand_back (rev cs) (length (concat cs)) = length (concat (take n cs))"
      "length (concat (take n cs)) \<le> length (concat cs)" using snoc by blast
    have "take (min n (length cs)) (cs @ [c]) = take n cs" by (simp add: min_def)
    with n True show ?thesis by (intro exI [of _ "min n (length cs)"]) simp
  qed (auto intro: exI [of _ "Suc (length cs)"])
qed simp

lemma expand_forward_chars:
  "e \<le> p \<Longrightarrow> \<exists>n. expand_forward cs p e = e \<or> expand_forward cs p e = p + length (concat (take n cs))"
proof (induction cs p e rule: expand_forward.induct)
  case (2 c cs p e)
  show ?case
  proof (cases "is_quotation_mark c")
    case True
    with 2 obtain n where "expand_forward (c # cs) p e = p + length c \<or>
      expand_forward (c # cs) p e = p + length c + length (concat (take n cs))" by auto
    then show ?thesis
    proof
      assume "expand_forward (c # cs) p e = p + length c"
      then show ?thesis by (intro exI [of _ 1]) simp
    next
      assume "expand_forward (c # cs) p e = p + length c + length (concat (take n cs))"
      then show ?thesis by (intro exI [of _ "Suc n"]) simp
    qed
  next
    case False
    show ?thesis
    proof (cases "is_inner_punctuation c \<and> p = e")
      case True
      with False 2 obtain n where "expand_forward (c # cs) p e = e
        \<or> expand_forward (c # cs) p e = p + length c + length (concat (take n cs))" by auto
      then show ?thesis
      proof
        assume "expand_forward (c # cs) p e = p + length c + length (concat (take n cs))"
        then show ?thesis by (intro exI [of _ "Suc n"]) simp
      qed simp
    next
      case other: False
      with False have "expand_forward (c # cs) p e = e" by auto
      then show ?thesis by blast
    qed
  qed
qed simp

lemma expand_range:
  assumes "utf8 text" and "is_char_boundary text s" and "is_char_boundary text e" and "s < e"
    and "expand_to_quotation_marks text (s, e) = (s', e')"
  shows "s' \<le> s \<and> e \<le> e' \<and> e' \<le> length text \<and> is_char_boundary text s' \<and> is_char_boundary text e'"
proof -
  have u: "utf8 (take s text)" "utf8 (drop e text)" using utf8_cut assms(1-3) by blast+
  have le: "s \<le> length text" "e \<le> length text" using assms(2,3) is_char_boundary_le by blast+
  let ?b = "chars_of (take s text)" and ?f = "chars_of (drop e text)"
  have "length (concat ?b) = s" using le by simp
  with expand_back_chars [of ?b] assms(5) obtain n where n: "s' = length (concat (take n ?b))" "s' \<le> s"
    by (auto simp: expand_to_quotation_marks_def)
  have "is_char_boundary (take s text) s'"
    unfolding n(1) by (rule chars_boundary [OF u(1), of _ "drop n ?b"]) simp
  then have s': "is_char_boundary text s'" using boundary_take [OF assms(2)] n(2) by blast
  have e'_eq: "e' = expand_forward ?f e e" using assms(5) by (simp add: expand_to_quotation_marks_def)
  obtain m where m: "e' = e \<or> e' = e + length (concat (take m ?f))"
    using expand_forward_chars [of e e ?f] unfolding e'_eq by auto
  have "is_char_boundary (drop e text) (length (concat (take m ?f)))"
    by (rule chars_boundary [OF u(2), of _ "drop m ?f"]) simp
  from boundary_after [OF assms(3) this] m assms(3) have "is_char_boundary text e'" by auto
  with s' n(2) m is_char_boundary_le [of "text" e'] show ?thesis by auto
qed

section \<open>Resolved answers\<close>

lemma locate_item_range:
  assumes "utf8 text" and "locate_item lower item text cursor = Some (s, e)"
  shows "s < e \<and> e \<le> length text \<and> is_char_boundary text s \<and> is_char_boundary text e"
proof (cases "or_text (or_text (non_blank (wd_quote_start item)) (non_blank (wd_text item))) (non_blank (wd_quote_end item))")
  case None
  with assms(2) show ?thesis by (auto simp: locate_item_def split: option.splits if_splits)
next
  case (Some o1)
  with assms(2) obtain c1 b s0 e0 where r: "locate_passage lower text o1 c1 b = Some (s0, e0)"
    and x: "expand_to_quotation_marks text (s0, e0) = (s, e)"
    by (auto simp: locate_item_def Let_def split: option.splits if_splits)
  note l = locate_passage_range [OF assms(1) r]
  from expand_range [OF assms(1) _ _ _ x] l show ?thesis by auto
qed

lemma paragraph_of_item_mem:
  assumes "paragraph_of_item q item = Some p"
  shows "p \<in> set (dq_paragraphs q)"
proof (cases "map_of (map (\<lambda>(i, p). (wire_id i, p)) (enumerate 0 (dq_paragraphs q))) (str_trim (wd_paragraph_id item))")
  case None
  with assms show ?thesis by (auto simp: paragraph_of_item_def find_Some_iff)
next
  case (Some p')
  with assms have "p' = p" by (simp add: paragraph_of_item_def)
  with map_of_SomeD [OF Some] show ?thesis by (auto simp: enumerate_eq_zip dest: set_zip_rightD)
qed

definition span_exact :: "detection_request \<Rightarrow> detected_dialogue \<Rightarrow> bool" where
  "span_exact q d \<longleftrightarrow> \<not> str_is_blank (dd_character d) \<and> fval_in_range 0 1 (dd_confidence d)
     \<and> list_ex (\<lambda>p. rp_id p = dd_paragraph_id d \<and> dd_start d < dd_end d \<and> dd_end d \<le> length (rp_text p)
         \<and> is_char_boundary (rp_text p) (dd_start d) \<and> is_char_boundary (rp_text p) (dd_end d)) (dq_paragraphs q)"

lemma clamp_confidence_range [simp]: "fval_in_range 0 1 (clamp_confidence v)"
  by (auto simp: clamp_confidence_def split: option.split fval.split)

lemma resolve_item_exact:
  assumes "list_all (utf8 \<circ> rp_text) (dq_paragraphs q)" and "list_all (span_exact q) (snd st)"
  shows "list_all (span_exact q) (snd (resolve_item lower q item st))"
proof -
  obtain cursors dialogue where st: "st = (cursors, dialogue)" by fastforce
  show ?thesis
  proof (cases "paragraph_of_item q item")
    case None
    with assms(2) st show ?thesis by (simp add: resolve_item_def)
  next
    case (Some p)
    have p: "p \<in> set (dq_paragraphs q)" by (rule paragraph_of_item_mem [OF Some])
    with assms(1) have u: "utf8 (rp_text p)" by (auto simp: list_all_iff)
    let ?l = "locate_item lower item (rp_text p) (case cursors (rp_id p) of Some c \<Rightarrow> c | None \<Rightarrow> 0)"
    show ?thesis
    proof (cases "str_trim (wd_character item) = [] \<or> ?l = None")
      case True
      with Some assms(2) st show ?thesis by (auto simp: resolve_item_def)
    next
      case False
      then obtain s e where l: "?l = Some (s, e)" by auto
      from False str_trim_not_blank have "\<not> str_is_blank (str_trim (wd_character item))" by blast
      with locate_item_range [OF u l] p
      have "span_exact q \<lparr>dd_paragraph_id = rp_id p, dd_character = str_trim (wd_character item),
          dd_start = s, dd_end = e, dd_confidence = clamp_confidence (wd_confidence item)\<rparr>"
        by (auto simp: span_exact_def list_ex_iff)
      with Some l False assms(2) st show ?thesis by (simp add: resolve_item_def)
    qed
  qed
qed

lemma resolve_items_exact:
  "list_all (utf8 \<circ> rp_text) (dq_paragraphs q) \<Longrightarrow> list_all (span_exact q) (snd st) \<Longrightarrow>
    list_all (span_exact q) (snd (fold (resolve_item lower q) items st))"
  by (induction items arbitrary: st) (simp_all add: resolve_item_exact)

lemma paragraph_length_distinct:
  assumes "distinct (map rp_id (dq_paragraphs q))" and "p \<in> set (dq_paragraphs q)"
  shows "paragraph_length q (rp_id p) = Some (length (rp_text p))"
proof (cases "find (\<lambda>p'. rp_id p' = rp_id p) (rev (dq_paragraphs q))")
  case None
  with assms(2) show ?thesis by (auto simp: find_None_iff)
next
  case (Some p')
  then obtain i where "i < length (rev (dq_paragraphs q))" "p' = rev (dq_paragraphs q) ! i" "rp_id p' = rp_id p"
    by (auto simp: find_Some_iff)
  then have "p' \<in> set (dq_paragraphs q)" "rp_id p' = rp_id p" using nth_mem [of i "rev (dq_paragraphs q)"] by simp_all
  with assms have "p' = p" by (auto simp: distinct_map inj_on_def)
  with Some show ?thesis by (simp add: paragraph_length_def)
qed

lemma exact_spans_pass:
  "distinct (map rp_id (dq_paragraphs q)) \<Longrightarrow> list_all (span_exact q) ds \<Longrightarrow> check_spans q ds = None"
proof (induction ds)
  case (Cons d ds)
  then obtain p where "p \<in> set (dq_paragraphs q)" "rp_id p = dd_paragraph_id d" "dd_start d < dd_end d"
    "dd_end d \<le> length (rp_text p)" "fval_in_range 0 1 (dd_confidence d)"
    by (auto simp: span_exact_def list_ex_iff)
  with Cons paragraph_length_distinct [of q p] show ?case by simp
qed simp

lemma resolved_characters:
  "c \<in> set (List.map_filter resolve_character cs) \<Longrightarrow> \<not> str_is_blank (dc_canonical_name c) \<and> fval_in_range 0 1 (dc_confidence c)"
  using str_trim_not_blank
  by (auto simp: map_filter_def resolve_character_def split: if_splits)

text \<open>C19. An answer of the model never leaves its paragraphs. For a request with distinct paragraph
  identifiers, whatever the model answered: if the answer is accepted at all, the validation of the
  provider interface accepts it too, and every dialogue passage in it has a named speaker, a
  confidence between 0 and 1 and a non-empty range of whole characters of a paragraph of the request.\<close>

theorem resolved_answer_valid:
  assumes "distinct (map rp_id (dq_paragraphs q))" and "list_all (utf8 \<circ> rp_text) (dq_paragraphs q)"
    and "parse_and_resolve env content q = Inr r"
  shows "result_validate r q = Inr r \<and> list_all (span_exact q) (dr_dialogue r)"
proof -
  obtain w where r: "r = resolve_answer (we_lower env) w q"
    using assms(3) by (auto simp: parse_and_resolve_def split: sum.splits json_failure.splits)
  have ds: "list_all (span_exact q) (dr_dialogue r)"
    using resolve_items_exact [OF assms(2)] by (simp add: r resolve_answer_def)
  have "\<forall>c \<in> set (dr_characters r). \<not> str_is_blank (dc_canonical_name c) \<and> fval_in_range 0 1 (dc_confidence c)"
    using resolved_characters by (simp add: r resolve_answer_def)
  then have "\<not> (\<exists>c \<in> set (dr_characters r). str_is_blank (dc_canonical_name c) \<or> \<not> fval_in_range 0 1 (dc_confidence c))"
    by blast
  with exact_spans_pass [OF assms(1) ds] ds show ?thesis by (simp add: result_validate_def)
qed

section \<open>Samples\<close>

definition quote_request :: detection_request where
  "quote_request = \<lparr>dq_request_id = 1, dq_model = ''m'', dq_system_prompt = [],
     dq_paragraphs = [\<lparr>rp_id = ''a'', rp_text = [CHR 0x22] @ ''Hi,'' @ [CHR 0x22] @ '' Al'', rp_context_only = False\<rparr>],
     dq_temperature = DefaultTemperature, dq_reasoning = InheritReasoning, dq_max_output_tokens = 512\<rparr>"

definition quote_answer :: wire_result where
  "quote_answer = \<lparr>wr_characters = [], wr_dialogue = [\<lparr>wd_paragraph_id = ''p1'', wd_character = ''Al'',
     wd_quote_start = Some ''HI'', wd_quote_end = None, wd_text = None, wd_start = None, wd_end = None,
     wd_confidence = None\<rparr>]\<rparr>"

definition quote_env :: wire_env where
  "quote_env = \<lparr>we_parse = (\<lambda>_. Inr quote_answer), we_lower = map ascii_lower\<rparr>"

lemma quote_accepted:
  "parse_and_resolve quote_env ''{}'' quote_request = Inr (resolve_answer (map ascii_lower) quote_answer quote_request)"
  by (simp add: parse_and_resolve_def quote_env_def)

lemma eq_char_of:
  "n < 256 \<Longrightarrow> c = char_of n \<longleftrightarrow> (of_char c :: nat) = n"
  "n < 256 \<Longrightarrow> char_of n = c \<longleftrightarrow> (of_char c :: nat) = n"
  by (metis char_of_char of_char_of mod_less)+

lemma ascii_class:
  "is_quotation_mark [c] \<longleftrightarrow> (of_char c :: nat) = 34" "is_invisible [c] \<longleftrightarrow> False" "is_dash [c] \<longleftrightarrow> False"
  "is_apostrophe [c] \<longleftrightarrow> (of_char c :: nat) = 96" "[c] = utf8_of 0x2026 \<longleftrightarrow> False"
  by (simp_all add: is_quotation_mark_def is_invisible_def is_dash_def is_apostrophe_def utf8_of_def eq_char_of)

lemma quote_text: "chars_of ([CHR 0x22] @ ''Hi,'' @ [CHR 0x22] @ '' Al'')
    = [[CHR 0x22], ''H'', ''i'', '','', [CHR 0x22], '' '', ''A'', ''l'']"
  by (simp add: chars_of.simps utf8_width_def Let_def)

lemma quote_folded:
  "normalized_text (map ascii_lower) ([CHR 0x22] @ ''Hi,'' @ [CHR 0x22] @ '' Al'')
    = [([CHR 0x22], 0, 1), (''h'', 1, 2), (''i'', 2, 3), ('','', 3, 4), ([CHR 0x22], 4, 5), ('' '', 5, 6),
       (''a'', 6, 7), (''l'', 7, 8)]"
  unfolding normalized_text_def quote_text
  by (simp add: push_folded_def ascii_class is_ws_char_def is_ascii_ws_def ascii_lower_def is_ascii_upper_def eq_char_of)

lemma quote_anchor: "normalize_anchor (map ascii_lower) ''HI'' = [''h'', ''i'']"
proof -
  have "chars_of (str_trim ''HI'') = [''H'', ''I'']"
    unfolding chars_of_trim by (simp add: chars_of.simps utf8_width_def Let_def is_ws_char_def is_ascii_ws_def)
  then show ?thesis
    by (simp add: normalize_anchor_def trim_list_def is_quote_or_ws_def push_folded_def ascii_class is_ws_char_def
        is_ascii_ws_def ascii_lower_def is_ascii_upper_def eq_char_of)
qed

lemma quote_located:
  "locate_passage (map ascii_lower) ([CHR 0x22] @ ''Hi,'' @ [CHR 0x22] @ '' Al'') ''HI'' ''HI'' 0 = Some (1, 3)"
  unfolding locate_passage_def Let_def quote_folded quote_anchor
  by (simp add: position_at_or_after_def find_from_def occurs_at_def find_closing.simps upt_rec)

lemma quote_expanded:
  "expand_to_quotation_marks ([CHR 0x22] @ ''Hi,'' @ [CHR 0x22] @ '' Al'') (1, 3) = (0, 5)"
  by (simp add: expand_to_quotation_marks_def chars_of.simps utf8_width_def Let_def ascii_class is_inner_punctuation_def)

lemma quote_names: "str_trim ''p1'' = ''p1''" "str_trim ''Al'' = ''Al''"
  by (simp_all add: str_trim_def chars_of.simps utf8_width_def Let_def is_ws_char_def is_ascii_ws_def)

lemma quote_paragraph: "paragraph_of_item quote_request (hd (wr_dialogue quote_answer)) = Some (hd (dq_paragraphs quote_request))"
  by (simp add: paragraph_of_item_def quote_answer_def quote_request_def quote_names wire_id_def nat_text.simps eq_char_of)

lemma quote_located_item: "locate_item (map ascii_lower) (hd (wr_dialogue quote_answer)) (rp_text (hd (dq_paragraphs quote_request))) 0
    = Some (0, 5)"
proof -
  have "\<not> str_is_blank ''HI''" by (simp add: str_is_blank_ascii is_ascii_ws_def)
  with quote_located quote_expanded show ?thesis
    by (simp add: locate_item_def quote_answer_def quote_request_def non_blank_def or_text_def)
qed

lemma quote_resolved:
  "dr_dialogue (resolve_answer (map ascii_lower) quote_answer quote_request)
    = [\<lparr>dd_paragraph_id = ''a'', dd_character = ''Al'', dd_start = 0, dd_end = 5, dd_confidence = Finite (1 / 2)\<rparr>]"
proof -
  have d: "wr_dialogue quote_answer = [hd (wr_dialogue quote_answer)]" by (simp add: quote_answer_def)
  have "resolve_item (map ascii_lower) quote_request (hd (wr_dialogue quote_answer)) (Map.empty, [])
    = ([''a'' \<mapsto> 5], [\<lparr>dd_paragraph_id = ''a'', dd_character = ''Al'', dd_start = 0, dd_end = 5,
        dd_confidence = Finite (1 / 2)\<rparr>])"
    unfolding resolve_item_def quote_paragraph
    using quote_located_item
    by (simp add: quote_answer_def quote_request_def quote_names u32_max_def clamp_confidence_def)
  then show ?thesis unfolding resolve_answer_def by (subst d) simp
qed

theorem resolved_answer_valid_witness:
  "\<exists>r. parse_and_resolve quote_env ''{}'' quote_request = Inr r \<and> result_validate r quote_request = Inr r
     \<and> dr_dialogue r = [\<lparr>dd_paragraph_id = ''a'', dd_character = ''Al'', dd_start = 0, dd_end = 5, dd_confidence = Finite (1 / 2)\<rparr>]
     \<and> list_all (span_exact quote_request) (dr_dialogue r)"
proof -
  have "distinct (map rp_id (dq_paragraphs quote_request))" "list_all (utf8 \<circ> rp_text) (dq_paragraphs quote_request)"
    by (simp_all add: quote_request_def utf8_ascii)
  from resolved_answer_valid [OF this quote_accepted] quote_accepted quote_resolved show ?thesis by blast
qed

end
