(* ===== verification/Auth_Sessions.thy ===== *)
theory Auth_Sessions
  imports Idempotency_Middleware Provider_Errors Utf8_Text "HOL-Library.Word"
begin

unbundle bit_operations_syntax

text \<open>
  Authentication of the HTTP service (crates/service/src/auth.rs): desktop bootstrap, LAN password,
  browser sessions with their CSRF tokens, API tokens, the login throttle, and the checks every
  request passes. A record holds the tables \<open>auth\_sessions\<close> and \<open>api\_tokens\<close>, the setting that names
  the stored password verifier, and the two values behind mutexes. Random tokens and identifiers and
  the instants at which the clock is read are arguments. An operation returns its result and the state
  it leaves, since an error does not undo what was done before it.

  Parameters, in \<open>auth\_env\<close>: the hash (blake3), the password derivation (argon2), base64, the secret
  vault, the decoding of the stored verifier, and the parsers of UUIDs, IP addresses, authorities, URLs
  and header values.
\<close>

section \<open>State\<close>

type_synonym hash_bytes = "8 word list"

record session_row =
  sn_id :: str
  sn_kind :: str
  sn_token_hash :: hash_bytes
  sn_csrf_hash :: "hash_bytes option"
  sn_created_at :: time
  sn_expires_at :: time
  sn_last_seen_at :: time
  sn_revoked_at :: "time option"
  sn_peer_address :: "str option"

record token_row =
  tk_id :: str
  tk_label :: str
  tk_token_hash :: hash_bytes
  tk_created_at :: time
  tk_last_used_at :: "time option"
  tk_expires_at :: "time option"
  tk_revoked_at :: "time option"

record bootstrap_secret =
  bs_plaintext :: str
  bs_hash :: hash_bytes

record auth_manager =
  am_sessions :: "session_row list"
  am_tokens :: "token_row list"
  am_password_setting :: "json option"
  am_bootstrap :: "bootstrap_secret option"
  am_authentication_required :: bool
  am_login_failures :: "time list"

record session_tokens =
  st_session :: str
  st_csrf :: str

record origin_url =
  ou_scheme :: str
  ou_username :: str
  ou_password :: "str option"
  ou_host :: "str option"
  ou_port_or_known_default :: "u16 option"
  ou_path :: str
  ou_query :: "str option"
  ou_fragment :: "str option"

record auth_env =
  ae_hash :: "str \<Rightarrow> hash_bytes"
  ae_argon2 :: "str \<Rightarrow> str \<Rightarrow> hash_bytes option"
  ae_base64_encode :: "str \<Rightarrow> str"
  ae_base64_of_hash :: "hash_bytes \<Rightarrow> str"
  ae_base64_decode :: "str \<Rightarrow> str option"
  ae_base64_decode_hash :: "str \<Rightarrow> hash_bytes option"
  ae_encode_verifier :: "str \<Rightarrow> str \<Rightarrow> str"
  ae_decode_verifier :: "str \<Rightarrow> (str \<times> str) option"
  ae_vault_expose :: "uuid \<Rightarrow> service_error + str"
  ae_uuid_text :: "uuid \<Rightarrow> str"
  ae_uuid_parse :: "str \<Rightarrow> uuid option"
  ae_ip_text :: "str \<Rightarrow> str option"
  ae_authority :: "str \<Rightarrow> (str \<times> u16 option) option"
  ae_url :: "str \<Rightarrow> origin_url option"
  ae_header_value :: "str \<Rightarrow> bool"

definition session_hours :: int where "session_hours = 12"

definition hour_nanos :: int where "hour_nanos = 3600 * 1000000000"

definition minute_nanos :: int where "minute_nanos = 60 * 1000000000"

definition session_cookie_name :: str where "session_cookie_name = ''audiobookai_session''"

definition csrf_cookie_name :: str where "csrf_cookie_name = ''audiobookai_csrf''"

text \<open>\<open>difference | (left ^ right)\<close> over all bytes.\<close>

definition constant_time_eq :: "hash_bytes \<Rightarrow> hash_bytes \<Rightarrow> bool" where
  "constant_time_eq left right =
     (if length left \<noteq> length right then False
      else fold (\<lambda>(l, r) difference. difference OR (l XOR r)) (zip left right) 0 = 0)"

section \<open>Sessions\<close>

definition initialize_auth ::
  "auth_env \<Rightarrow> str option \<Rightarrow> bool \<Rightarrow> session_row list \<Rightarrow> token_row list \<Rightarrow> json option \<Rightarrow> auth_manager" where
  "initialize_auth env desktop_bootstrap listener_is_loopback sessions tokens setting =
     \<lparr>am_sessions = sessions, am_tokens = tokens, am_password_setting = setting,
      am_bootstrap = map_option (\<lambda>p. \<lparr>bs_plaintext = p, bs_hash = ae_hash env p\<rparr>) desktop_bootstrap,
      am_authentication_required = (desktop_bootstrap \<noteq> None \<or> \<not> listener_is_loopback),
      am_login_failures = []\<rparr>"

definition take_bootstrap_nonce :: "auth_manager \<Rightarrow> str option" where
  "take_bootstrap_nonce m = map_option bs_plaintext (am_bootstrap m)"

definition create_session ::
  "auth_env \<Rightarrow> str \<Rightarrow> str \<Rightarrow> session_tokens \<Rightarrow> time \<Rightarrow> auth_manager \<Rightarrow>
     (service_error + session_tokens) \<times> auth_manager" where
  "create_session env kind i tokens now m =
     (if i \<in> set (map sn_id (am_sessions m))
      then (Inl (StorageFailure (OfStorage (DatabaseError UniqueViolation))), m)
      else (Inr tokens, m\<lparr>am_sessions := am_sessions m @
        [\<lparr>sn_id = i, sn_kind = kind, sn_token_hash = ae_hash env (st_session tokens),
          sn_csrf_hash = Some (ae_hash env (st_csrf tokens)), sn_created_at = now,
          sn_expires_at = now + session_hours * hour_nanos, sn_last_seen_at = now,
          sn_revoked_at = None, sn_peer_address = None\<rparr>]\<rparr>))"

definition exchange_bootstrap ::
  "auth_env \<Rightarrow> str \<Rightarrow> str \<Rightarrow> session_tokens \<Rightarrow> time \<Rightarrow> auth_manager \<Rightarrow>
     (service_error + session_tokens) \<times> auth_manager" where
  "exchange_bootstrap env nonce i tokens now m =
     (if \<not> is_some_and (am_bootstrap m) (\<lambda>s. constant_time_eq (bs_hash s) (ae_hash env nonce))
      then (Inl (Unauthorized ''the desktop bootstrap nonce is invalid or has already been used''), m)
      else create_session env ''desktop'' i tokens now (m\<lparr>am_bootstrap := None\<rparr>))"

section \<open>Passwords\<close>

definition password_secret_id :: "auth_env \<Rightarrow> auth_manager \<Rightarrow> service_error + uuid" where
  "password_secret_id env m = (case am_password_setting m of
     None \<Rightarrow> Inl (ResourceConflict (Plain ''LAN password authentication is not configured''))
   | Some v \<Rightarrow> (case Option.bind (Option.bind (json_get ''secretId'' v) json_as_str) (ae_uuid_parse env) of
       None \<Rightarrow> Inl (InternalFailure ''LAN password reference is invalid'')
     | Some i \<Rightarrow> Inr i))"

text \<open>
  \<open>stored\<close> is the vault's answer to storing the verifier; the second component names the old secret
  that is deleted afterwards.
\<close>

definition configure_lan_password ::
  "auth_env \<Rightarrow> str \<Rightarrow> str \<Rightarrow> (str \<Rightarrow> service_error + uuid) \<Rightarrow> auth_manager \<Rightarrow>
     (service_error + uuid option) \<times> auth_manager" where
  "configure_lan_password env password salt stored m =
     (if char_count password < 12
      then (Inl (InvalidRequest ''LAN password must contain at least 12 characters''), m)
      else case ae_argon2 env password salt of
        None \<Rightarrow> (Inl (InternalFailure ''LAN password derivation failed''), m)
      | Some h \<Rightarrow>
          (case stored (ae_encode_verifier env (ae_base64_encode env salt) (ae_base64_of_hash env h)) of
             Inl e \<Rightarrow> (Inl e, m)
           | Inr reference \<Rightarrow>
               (Inr (case password_secret_id env m of
                   Inl _ \<Rightarrow> None | Inr old \<Rightarrow> if old \<noteq> reference then Some old else None),
                m\<lparr>am_password_setting := Some (JObj [(''secretId'', JStr (ae_uuid_text env reference))])\<rparr>)))"

definition enforce_login_throttle :: "time \<Rightarrow> auth_manager \<Rightarrow> (service_error + unit) \<times> auth_manager" where
  "enforce_login_throttle now m =
     (let failures = dropWhile (\<lambda>t. t < now - minute_nanos) (am_login_failures m);
          m' = m\<lparr>am_login_failures := failures\<rparr>
      in if 5 \<le> length failures
         then (Inl (RateLimitedRequest ''too many failed LAN login attempts; retry in one minute''), m')
         else (Inr (), m'))"

text \<open>The comparison with the stored verifier: whether the password is right.\<close>

definition check_password :: "auth_env \<Rightarrow> str \<Rightarrow> auth_manager \<Rightarrow> service_error + bool" where
  "check_password env password m = (case password_secret_id env m of
     Inl e \<Rightarrow> Inl e
   | Inr i \<Rightarrow> (case ae_vault_expose env i of
       Inl e \<Rightarrow> Inl e
     | Inr payload \<Rightarrow> (case ae_decode_verifier env payload of
         None \<Rightarrow> Inl (InternalFailure ''LAN password verifier is invalid'')
       | Some (salt_text, hash_text) \<Rightarrow> (case ae_base64_decode env salt_text of
           None \<Rightarrow> Inl (InternalFailure ''LAN password salt is invalid'')
         | Some salt \<Rightarrow> (case ae_base64_decode_hash env hash_text of
             None \<Rightarrow> Inl (InternalFailure ''LAN password hash is invalid'')
           | Some expected \<Rightarrow> (case ae_argon2 env password salt of
               None \<Rightarrow> Inl (InternalFailure ''LAN password derivation failed'')
             | Some supplied \<Rightarrow> Inr (constant_time_eq expected supplied)))))))"

definition login_with_password ::
  "auth_env \<Rightarrow> str \<Rightarrow> str \<Rightarrow> session_tokens \<Rightarrow> time \<Rightarrow> time \<Rightarrow> auth_manager \<Rightarrow>
     (service_error + session_tokens) \<times> auth_manager" where
  "login_with_password env password i tokens now finished m =
     (case enforce_login_throttle now m of
        (Inl e, m') \<Rightarrow> (Inl e, m')
      | (Inr _, m') \<Rightarrow> (case check_password env password m' of
          Inl e \<Rightarrow> (Inl e, m')
        | Inr False \<Rightarrow> (Inl (Unauthorized ''the LAN password is invalid''),
            m'\<lparr>am_login_failures := am_login_failures m' @ [finished]\<rparr>)
        | Inr True \<Rightarrow> create_session env ''lan_browser'' i tokens finished (m'\<lparr>am_login_failures := []\<rparr>)))"

section \<open>Validation\<close>

definition session_live :: "time \<Rightarrow> session_row \<Rightarrow> bool" where
  "session_live now r \<longleftrightarrow> sn_revoked_at r = None \<and> sn_expires_at r > now"

definition check_csrf :: "auth_env \<Rightarrow> str option \<Rightarrow> session_row \<Rightarrow> service_error + unit" where
  "check_csrf env csrf_token r = (case csrf_token of
     None \<Rightarrow> Inl (Forbidden ''a CSRF token is required'')
   | Some supplied \<Rightarrow> (case sn_csrf_hash r of
       None \<Rightarrow> Inl (Forbidden ''the session has no CSRF binding'')
     | Some stored \<Rightarrow>
         if constant_time_eq stored (ae_hash env supplied) then Inr ()
         else Inl (Forbidden ''the CSRF token does not match this session'')))"

definition validate_session ::
  "auth_env \<Rightarrow> str \<Rightarrow> str option \<Rightarrow> bool \<Rightarrow> time \<Rightarrow> time \<Rightarrow> auth_manager \<Rightarrow> (service_error + unit) \<times> auth_manager" where
  "validate_session env session_token csrf_token require_csrf now seen m =
     (case find (\<lambda>r. constant_time_eq (sn_token_hash r) (ae_hash env session_token))
        (filter (session_live now) (am_sessions m)) of
        None \<Rightarrow> (Inl (Unauthorized ''the session is missing, expired, or revoked''), m)
      | Some r \<Rightarrow> (case (if require_csrf then check_csrf env csrf_token r else Inr ()) of
          Inl e \<Rightarrow> (Inl e, m)
        | Inr _ \<Rightarrow> (Inr (), m\<lparr>am_sessions := sql_update (\<lambda>s. sn_id s = sn_id r)
            (\<lambda>s. s\<lparr>sn_last_seen_at := seen\<rparr>) (am_sessions m)\<rparr>)))"

definition is_open_lan_session :: "session_row \<Rightarrow> bool" where
  "is_open_lan_session r \<longleftrightarrow> sn_kind r = ''lan_browser'' \<and> sn_revoked_at r = None"

definition revoke_lan_sessions :: "time \<Rightarrow> auth_manager \<Rightarrow> nat \<times> auth_manager" where
  "revoke_lan_sessions now m =
     (length (filter is_open_lan_session (am_sessions m)),
      m\<lparr>am_sessions := sql_update is_open_lan_session (\<lambda>s. s\<lparr>sn_revoked_at := Some now\<rparr>) (am_sessions m)\<rparr>)"

definition token_live :: "time \<Rightarrow> token_row \<Rightarrow> bool" where
  "token_live now r \<longleftrightarrow> tk_revoked_at r = None \<and> is_none_or (tk_expires_at r) (\<lambda>e. e > now)"

record lan_auth_status =
  la_password_configured :: bool
  la_api_token_count :: usize
  la_active_sessions :: usize

definition lan_status :: "time \<Rightarrow> auth_manager \<Rightarrow> lan_auth_status" where
  "lan_status now m =
     \<lparr>la_password_configured = (am_password_setting m \<noteq> None),
      la_api_token_count = length (filter (token_live now) (am_tokens m)),
      la_active_sessions = length (filter (\<lambda>r. sn_kind r = ''lan_browser'' \<and> session_live now r) (am_sessions m))\<rparr>"

section \<open>API tokens\<close>

record api_token_summary =
  ts_id :: str
  ts_label :: str
  ts_created_at :: time
  ts_last_used_at :: "time option"

definition list_api_tokens :: "time \<Rightarrow> auth_manager \<Rightarrow> api_token_summary list" where
  "list_api_tokens now m = map (\<lambda>r. \<lparr>ts_id = tk_id r, ts_label = tk_label r, ts_created_at = tk_created_at r,
       ts_last_used_at = tk_last_used_at r\<rparr>)
     (sort_key (\<lambda>r. - tk_created_at r) (filter (token_live now) (am_tokens m)))"

record issued_api_token =
  ia_id :: str
  ia_token :: str
  ia_label :: str
  ia_created_at :: time

definition issue_api_token ::
  "auth_env \<Rightarrow> str \<Rightarrow> str \<Rightarrow> str \<Rightarrow> time \<Rightarrow> auth_manager \<Rightarrow> (service_error + issued_api_token) \<times> auth_manager" where
  "issue_api_token env label token i now m =
     (let label = str_trim label in
      if label = [] \<or> char_count label > 80
      then (Inl (InvalidRequest ''API token label must contain 1 to 80 characters''), m)
      else if i \<in> set (map tk_id (am_tokens m))
      then (Inl (StorageFailure (OfStorage (DatabaseError UniqueViolation))), m)
      else (Inr \<lparr>ia_id = i, ia_token = token, ia_label = label, ia_created_at = now\<rparr>,
        m\<lparr>am_tokens := am_tokens m @ [\<lparr>tk_id = i, tk_label = label, tk_token_hash = ae_hash env token,
          tk_created_at = now, tk_last_used_at = None, tk_expires_at = None, tk_revoked_at = None\<rparr>]\<rparr>))"

definition revoke_api_token :: "str \<Rightarrow> time \<Rightarrow> auth_manager \<Rightarrow> (service_error + unit) \<times> auth_manager" where
  "revoke_api_token i now m =
     (if rows_affected (\<lambda>r. tk_id r = i \<and> tk_revoked_at r = None) (am_tokens m) = 0 then (Inl ResourceNotFound, m)
      else (Inr (), m\<lparr>am_tokens := sql_update (\<lambda>r. tk_id r = i \<and> tk_revoked_at r = None)
        (\<lambda>r. r\<lparr>tk_revoked_at := Some now\<rparr>) (am_tokens m)\<rparr>))"

definition validate_api_token :: "auth_env \<Rightarrow> str \<Rightarrow> time \<Rightarrow> time \<Rightarrow> auth_manager \<Rightarrow> (service_error + unit) \<times> auth_manager" where
  "validate_api_token env token now used m =
     (case find (\<lambda>r. constant_time_eq (tk_token_hash r) (ae_hash env token)) (filter (token_live now) (am_tokens m)) of
        None \<Rightarrow> (Inl (Unauthorized ''the API token is invalid''), m)
      | Some r \<Rightarrow> (Inr (), m\<lparr>am_tokens := sql_update (\<lambda>s. tk_id s = tk_id r)
          (\<lambda>s. s\<lparr>tk_last_used_at := Some used\<rparr>) (am_tokens m)\<rparr>))"

section \<open>Requests\<close>

text \<open>The headers of a request that the checks read, each if it is present and printable.\<close>

record auth_request =
  aq_method :: http_method
  aq_path :: str
  aq_authorization :: "str option"
  aq_cookie :: "str option"
  aq_csrf_token :: "str option"
  aq_host :: "str option"
  aq_origin :: "str option"

fun split_on :: "char \<Rightarrow> str \<Rightarrow> str list" where
  "split_on d [] = [[]]"
| "split_on d (c # cs) =
     (if c = d then [] # split_on d cs
      else case split_on d cs of [] \<Rightarrow> [[c]] | w # ws \<Rightarrow> (c # w) # ws)"

fun find_cookie :: "str \<Rightarrow> str list \<Rightarrow> str option" where
  "find_cookie name [] = None"
| "find_cookie name (c # cs) = (case Option.bind (strip_prefix name c) (strip_prefix ''='') of
     Some v \<Rightarrow> Some v | None \<Rightarrow> find_cookie name cs)"

definition cookie_value :: "str option \<Rightarrow> str \<Rightarrow> str option" where
  "cookie_value cookie_header name =
     Option.bind cookie_header (\<lambda>h. find_cookie name (map str_trim (split_on (CHR '';'') h)))"

definition bearer_token :: "auth_request \<Rightarrow> str option" where
  "bearer_token q = Option.bind (aq_authorization q) (strip_prefix ''Bearer '')"

definition session_exempt :: "auth_request \<Rightarrow> bool" where
  "session_exempt q \<longleftrightarrow> aq_path q = ''/api/v1/health''
     \<or> aq_path q \<in> {''/api/v1/auth/bootstrap'', ''/api/v1/auth/login''} \<or> aq_method q = Options"

definition unsafe_method :: "http_method \<Rightarrow> bool" where
  "unsafe_method meth \<longleftrightarrow> meth \<notin> {Get, Head, Options}"

text \<open>\<open>Inr\<close> lets the request through to its handler.\<close>

definition require_session ::
  "auth_env \<Rightarrow> auth_request \<Rightarrow> time \<Rightarrow> time \<Rightarrow> auth_manager \<Rightarrow> (service_error + unit) \<times> auth_manager" where
  "require_session env q now seen m =
     (if session_exempt q \<or> \<not> am_authentication_required m then (Inr (), m)
      else case bearer_token q of
        Some token \<Rightarrow> validate_api_token env token now seen m
      | None \<Rightarrow> (case cookie_value (aq_cookie q) session_cookie_name of
          None \<Rightarrow> (Inl (Unauthorized ''an authenticated AudiobookAI session is required''), m)
        | Some session \<Rightarrow>
            validate_session env session (aq_csrf_token q) (unsafe_method (aq_method q)) now seen m))"

text \<open>\<open>format!("{name}={value}; Path=/; ...")\<close> for the two cookies.\<close>

definition cookie_text :: "str \<Rightarrow> str \<Rightarrow> bool \<Rightarrow> bool \<Rightarrow> str" where
  "cookie_text name v http_only secure = name @ ''='' @ v @ ''; Path=/'' @ (if http_only then ''; HttpOnly'' else [])
     @ ''; SameSite=Strict; Max-Age='' @ nat_text (nat (session_hours * 60 * 60)) @ (if secure then ''; Secure'' else [])"

record session_answer =
  sw_expires_in_seconds :: int
  sw_cookies :: "str list"

definition session_response :: "auth_env \<Rightarrow> session_tokens \<Rightarrow> bool \<Rightarrow> service_error + session_answer" where
  "session_response env tokens secure =
     (let session_cookie = cookie_text session_cookie_name (st_session tokens) True secure;
          csrf_cookie = cookie_text csrf_cookie_name (st_csrf tokens) False secure
      in if \<not> ae_header_value env session_cookie then Inl (InternalFailure ''could not create session cookie'')
      else if \<not> ae_header_value env csrf_cookie then Inl (InternalFailure ''could not create CSRF cookie'')
      else Inr \<lparr>sw_expires_in_seconds = session_hours * 60 * 60, sw_cookies = [session_cookie, csrf_cookie]\<rparr>)"

section \<open>Authority and origin\<close>

text \<open>The part of the service configuration that says how the service is reached.\<close>

record authority_config =
  ac_ip :: str
  ac_loopback :: bool
  ac_unspecified :: bool
  ac_port :: u16
  ac_uses_tls :: bool
  ac_lan_hostnames :: "str list"
  ac_desktop_bootstrap :: bool

definition config_scheme :: "authority_config \<Rightarrow> str" where
  "config_scheme c = (if ac_uses_tls c then ''https'' else ''http'')"

definition default_port :: "authority_config \<Rightarrow> u16" where
  "default_port c = (if ac_uses_tls c then 443 else 80)"

definition normalize_host :: "auth_env \<Rightarrow> str \<Rightarrow> str" where
  "normalize_host env host =
     (case ae_ip_text env (rev (dropWhile (\<lambda>c. c = CHR '']'') (rev (dropWhile (\<lambda>c. c = CHR ''['') host)))) of
        None \<Rightarrow> map ascii_lower host
      | Some address \<Rightarrow> address)"

definition host_is_allowed :: "auth_env \<Rightarrow> authority_config \<Rightarrow> str \<Rightarrow> bool" where
  "host_is_allowed env c candidate =
     (if ac_loopback c
      then eq_ignore_ascii_case candidate ''localhost'' \<or> normalize_host env (ac_ip c) = candidate
      else (\<not> ac_unspecified c \<and> normalize_host env (ac_ip c) = candidate)
        \<or> list_ex (\<lambda>h. normalize_host env h = candidate) (ac_lan_hostnames c))"

definition trusted_tauri_origin :: "authority_config \<Rightarrow> str \<Rightarrow> bool" where
  "trusted_tauri_origin c origin \<longleftrightarrow> ac_desktop_bootstrap c \<and> ac_loopback c
     \<and> origin \<in> {''tauri://localhost'', ''http://tauri.localhost'', ''https://tauri.localhost''}"

definition origin_is_bare :: "origin_url \<Rightarrow> bool" where
  "origin_is_bare u \<longleftrightarrow> ou_username u = [] \<and> ou_password u = None \<and> ou_path u = ''/'' \<and> ou_query u = None
     \<and> ou_fragment u = None"

definition same_authority :: "auth_env \<Rightarrow> authority_config \<Rightarrow> str \<Rightarrow> origin_url \<Rightarrow> bool" where
  "same_authority env c host_name u \<longleftrightarrow> ou_scheme u = config_scheme c
     \<and> ou_port_or_known_default u = Some (ac_port c)
     \<and> is_some_and (ou_host u) (\<lambda>h. normalize_host env h = host_name)"

definition validate_host_and_origin :: "auth_env \<Rightarrow> authority_config \<Rightarrow> auth_request \<Rightarrow> service_error + unit" where
  "validate_host_and_origin env c q = (case aq_host q of
     None \<Rightarrow> Inl (Forbidden ''the Host header is required'')
   | Some host \<Rightarrow> (case ae_authority env host of
       None \<Rightarrow> Inl (Forbidden ''the Host header is invalid'')
     | Some (authority_host, port) \<Rightarrow>
         (let host_name = normalize_host env authority_host;
              authority_port = (case port of Some p \<Rightarrow> p | None \<Rightarrow> default_port c)
          in if authority_port \<noteq> ac_port c \<or> \<not> host_is_allowed env c host_name
             then Inl (Forbidden ''the Host header does not identify this service authority'')
             else case aq_origin q of
               None \<Rightarrow> Inr ()
             | Some origin \<Rightarrow>
                 if trusted_tauri_origin c origin then Inr ()
                 else (case ae_url env origin of
                   None \<Rightarrow> Inl (Forbidden ''the Origin header is invalid'')
                 | Some u \<Rightarrow>
                     if \<not> origin_is_bare u \<or> \<not> same_authority env c host_name u
                     then Inl (Forbidden ''the Origin header is not trusted by this service'')
                     else Inr ()))))"

text \<open>The middleware around the whole router.\<close>

definition enforce_authority :: "auth_env \<Rightarrow> authority_config \<Rightarrow> auth_request \<Rightarrow> service_error + unit" where
  "enforce_authority env c q = validate_host_and_origin env c q"

end
