(* ===== verification/Auth_Properties.thy ===== *)
theory Auth_Properties
  imports Auth_Sessions
begin

text \<open>
  Who gets in: a run of the authentication operations with the trace of what was issued and revoked,
  newest first, and what a request that passed must have carried. Security goals are stated over every
  run, whatever requests arrive.
\<close>

section \<open>Runs\<close>

datatype auth_event =
    Restarted
  | SessionIssued str session_tokens time
  | TokenIssued str str
  | TokenRevoked str
  | LanRevoked
  | PasswordAccepted
  | LoginFailed time

text \<open>What a login leaves in the trace, besides the session it may have made.\<close>

definition login_events :: "auth_env \<Rightarrow> str \<Rightarrow> time \<Rightarrow> time \<Rightarrow> auth_manager \<Rightarrow> auth_event list" where
  "login_events env password now finished m = (case enforce_login_throttle now m of
     (Inl _, _) \<Rightarrow> []
   | (Inr _, m') \<Rightarrow> (case check_password env password m' of
       Inl _ \<Rightarrow> [] | Inr True \<Rightarrow> [PasswordAccepted] | Inr False \<Rightarrow> [LoginFailed finished]))"

definition session_events :: "str \<Rightarrow> time \<Rightarrow> service_error + session_tokens \<Rightarrow> auth_event list" where
  "session_events kind now r = (case r of Inl _ \<Rightarrow> [] | Inr tokens \<Rightarrow> [SessionIssued kind tokens now])"

text \<open>One operation: the instant it is finished at, the events it leaves in the trace, and the state.\<close>

inductive auth_step ::
  "auth_env \<Rightarrow> time \<Rightarrow> auth_manager \<Rightarrow> time \<Rightarrow> auth_event list \<Rightarrow> auth_manager \<Rightarrow> bool"
  for env :: auth_env and t :: time and m :: auth_manager where
  bootstrap: "t \<le> now \<Longrightarrow> exchange_bootstrap env nonce i tokens now m = (r, m') \<Longrightarrow>
    auth_step env t m now (session_events ''desktop'' now r) m'"
| login: "t \<le> now \<Longrightarrow> now \<le> finished \<Longrightarrow> login_with_password env password i tokens now finished m = (r, m') \<Longrightarrow>
    auth_step env t m finished
      (session_events ''lan_browser'' finished r @ login_events env password now finished m) m'"
| configure: "t \<le> now \<Longrightarrow> configure_lan_password env password salt stored m = (a, m') \<Longrightarrow> auth_step env t m now [] m'"
| revoke_lan: "t \<le> now \<Longrightarrow> revoke_lan_sessions now m = (n, m') \<Longrightarrow> auth_step env t m now [LanRevoked] m'"
| issue_token: "t \<le> now \<Longrightarrow> issue_api_token env label token i now m = (a, m') \<Longrightarrow>
    auth_step env t m now (case a of Inl _ \<Rightarrow> [] | Inr issued \<Rightarrow> [TokenIssued (ia_id issued) (ia_token issued)]) m'"
| revoke_token: "t \<le> now \<Longrightarrow> revoke_api_token i now m = (a, m') \<Longrightarrow>
    auth_step env t m now (case a of Inl _ \<Rightarrow> [] | Inr _ \<Rightarrow> [TokenRevoked i]) m'"
| request: "t \<le> now \<Longrightarrow> now \<le> finished \<Longrightarrow> require_session env q now finished m = (a, m') \<Longrightarrow>
    auth_step env t m finished [] m'"
| restart: "t \<le> now \<Longrightarrow> auth_step env t m now [Restarted]
    (initialize_auth env desktop loopback (am_sessions m) (am_tokens m) (am_password_setting m))"

inductive auth_run :: "auth_env \<Rightarrow> time \<Rightarrow> auth_event list \<Rightarrow> auth_manager \<Rightarrow> bool" for env :: auth_env where
  installed: "auth_run env t [Restarted] (initialize_auth env desktop loopback [] [] None)"
| operated: "auth_run env t evs m \<Longrightarrow> auth_step env t m t' new m' \<Longrightarrow> auth_run env t' (new @ evs) m'"

section \<open>Comparing hashes\<close>

lemma fold_or_zero:
  "fold (\<lambda>(l, r) d. d OR (l XOR r)) ps (d :: 'a::len word) = 0 \<longleftrightarrow> d = 0 \<and> (\<forall>(l, r) \<in> set ps. l = r)"
proof (induction ps arbitrary: d)
  case (Cons p ps)
  obtain l r where p: "p = (l, r)" by fastforce
  have "l XOR r = 0 \<longleftrightarrow> l = r" by (auto simp: bit_eq_iff bit_simps)
  then have "d OR (l XOR r) = 0 \<longleftrightarrow> d = 0 \<and> l = r" by (simp add: or_eq_0_iff)
  with Cons show ?case by (simp add: p)
qed simp

lemma constant_time_eq_iff [simp]: "constant_time_eq a b \<longleftrightarrow> a = b"
proof -
  have "(\<forall>(l, r) \<in> set (zip a b). l = r) \<longleftrightarrow> a = b" if "length a = length b"
    using that by (induction a b rule: list_induct2) auto
  then show ?thesis by (cases "length a = length b") (auto simp: constant_time_eq_def fold_or_zero)
qed

section \<open>What the tables know\<close>

definition session_known :: "auth_env \<Rightarrow> auth_event list \<Rightarrow> session_row \<Rightarrow> bool" where
  "session_known env evs r \<longleftrightarrow> (\<exists>tokens issued after before.
     evs = after @ SessionIssued (sn_kind r) tokens issued # before
     \<and> sn_token_hash r = ae_hash env (st_session tokens) \<and> sn_csrf_hash r = Some (ae_hash env (st_csrf tokens))
     \<and> sn_expires_at r = issued + session_hours * hour_nanos
     \<and> (sn_kind r = ''lan_browser'' \<and> sn_revoked_at r = None \<longrightarrow> LanRevoked \<notin> set after))"

definition token_known :: "auth_env \<Rightarrow> auth_event list \<Rightarrow> token_row \<Rightarrow> bool" where
  "token_known env evs r \<longleftrightarrow> (\<exists>token after before. evs = after @ TokenIssued (tk_id r) token # before
     \<and> tk_token_hash r = ae_hash env token \<and> (tk_revoked_at r = None \<longrightarrow> TokenRevoked (tk_id r) \<notin> set after))"



definition tables_known :: "auth_env \<Rightarrow> auth_event list \<Rightarrow> auth_manager \<Rightarrow> bool" where
  "tables_known env evs m \<longleftrightarrow> (\<forall>r \<in> set (am_sessions m). session_known env evs r) \<and> (\<forall>r \<in> set (am_tokens m). token_known env evs r)"



lemma create_session_simps [simp]:
  "create_session env kind i tokens now m = (r, m') \<Longrightarrow> am_tokens m' = am_tokens m"
  "create_session env kind i tokens now m = (r, m') \<Longrightarrow> am_bootstrap m' = am_bootstrap m"
  "create_session env kind i tokens now m = (r, m') \<Longrightarrow> am_login_failures m' = am_login_failures m"
  "create_session env kind i tokens now m = (Inl e, m') \<Longrightarrow> m' = m"
  by (auto simp: create_session_def split: if_splits)

lemma throttle_fields:
  assumes "enforce_login_throttle now m = (r, m')"
  shows "m' = m\<lparr>am_login_failures := dropWhile (\<lambda>t. t < now - minute_nanos) (am_login_failures m)\<rparr>"
  using assms by (auto simp: enforce_login_throttle_def Let_def split: if_splits)

lemma login_tables:
  assumes "login_with_password env password i tokens now finished m = (Inl e, m')"
  shows "am_sessions m' = am_sessions m \<and> am_tokens m' = am_tokens m \<and> am_bootstrap m' = am_bootstrap m"
proof -
  obtain r m0 where t: "enforce_login_throttle now m = (r, m0)" by fastforce
  note m0 = throttle_fields [OF t]
  show ?thesis
  proof (cases r)
    case (Inl e')
    with assms m0 show ?thesis by (auto simp: login_with_password_def t)
  next
    case (Inr u)
    show ?thesis
    proof (cases "check_password env password m0")
      case (Inl e')
      with \<open>r = Inr u\<close> assms m0 show ?thesis by (auto simp: login_with_password_def t)
    next
      case (Inr right)
      have "m' = m0\<lparr>am_login_failures := am_login_failures m0 @ [finished]\<rparr> \<or> m' = m0\<lparr>am_login_failures := []\<rparr>"
      proof (cases right)
        case True
        with assms \<open>r = Inr u\<close> Inr have "create_session env ''lan_browser'' i tokens finished (m0\<lparr>am_login_failures := []\<rparr>) = (Inl e, m')"
          by (simp add: login_with_password_def t)
        then show ?thesis using create_session_simps(4) by blast
      next
        case False
        with assms \<open>r = Inr u\<close> Inr show ?thesis by (simp add: login_with_password_def t)
      qed
      then show ?thesis
      proof
        assume "m' = m0\<lparr>am_login_failures := am_login_failures m0 @ [finished]\<rparr>"
        then show ?thesis by (simp add: m0)
      next
        assume "m' = m0\<lparr>am_login_failures := []\<rparr>"
        then show ?thesis by (simp add: m0)
      qed
    qed
  qed
qed


lemma exchange_cases:
  assumes "exchange_bootstrap env nonce i tokens now m = (r, m')"
  shows "r = Inl (Unauthorized ''the desktop bootstrap nonce is invalid or has already been used'') \<and> m' = m
    \<or> am_bootstrap m \<noteq> None \<and> create_session env ''desktop'' i tokens now (m\<lparr>am_bootstrap := None\<rparr>) = (r, m')"
  using assms by (auto simp: exchange_bootstrap_def is_some_and_def split: if_splits option.splits)

lemma login_cases:
  assumes "login_with_password env password i tokens now finished m = (r, m')"
  obtains (throttled) e m0 where "enforce_login_throttle now m = (Inl e, m0)" "r = Inl e" "m' = m0"
  | (undecided) u m0 e where "enforce_login_throttle now m = (Inr u, m0)" "check_password env password m0 = Inl e"
      "r = Inl e" "m' = m0"
  | (wrong) u m0 where "enforce_login_throttle now m = (Inr u, m0)" "check_password env password m0 = Inr False"
      "r = Inl (Unauthorized ''the LAN password is invalid'')"
      "m' = m0\<lparr>am_login_failures := am_login_failures m0 @ [finished]\<rparr>"
  | (right) u m0 where "enforce_login_throttle now m = (Inr u, m0)" "check_password env password m0 = Inr True"
      "create_session env ''lan_browser'' i tokens finished (m0\<lparr>am_login_failures := []\<rparr>) = (r, m')"
proof -
  obtain x m0 where t: "enforce_login_throttle now m = (x, m0)" by fastforce
  show thesis
  proof (cases x)
    case (Inl e)
    with assms t throttled show thesis by (simp add: login_with_password_def)
  next
    case (Inr u)
    show thesis
    proof (cases "check_password env password m0")
      case (Inl e)
      with assms t \<open>x = Inr u\<close> undecided show thesis by (simp add: login_with_password_def)
    next
      case check: (Inr b)
      show thesis
      proof (cases b)
        case True
        with assms t \<open>x = Inr u\<close> check right show thesis by (simp add: login_with_password_def)
      next
        case False
        with assms t \<open>x = Inr u\<close> check wrong show thesis by (simp add: login_with_password_def)
      qed
    qed
  qed
qed

lemma tables_known_fields:
  "am_sessions m' = am_sessions m \<Longrightarrow> am_tokens m' = am_tokens m \<Longrightarrow> tables_known env evs m' \<longleftrightarrow> tables_known env evs m"
  by (simp add: tables_known_def)




section \<open>Nobody gets in without an issued secret\<close>




section \<open>The bootstrap nonce\<close>

definition since_restart :: "auth_event list \<Rightarrow> auth_event list" where
  "since_restart evs = takeWhile (\<lambda>e. e \<noteq> Restarted) evs"

definition is_desktop_session :: "auth_event \<Rightarrow> bool" where
  "is_desktop_session e \<longleftrightarrow> (case e of SessionIssued kind _ _ \<Rightarrow> kind = ''desktop'' | _ \<Rightarrow> False)"

definition desktop_sessions :: "auth_event list \<Rightarrow> nat" where
  "desktop_sessions evs = length (filter is_desktop_session (since_restart evs))"

lemma desktop_sessions_simps [simp]:
  "desktop_sessions (Restarted # evs) = 0"
  "e \<noteq> Restarted \<Longrightarrow> desktop_sessions (e # evs) = (if is_desktop_session e then 1 else 0) + desktop_sessions evs"
  by (simp_all add: desktop_sessions_def since_restart_def)

lemma desktop_events [simp]:
  "desktop_sessions (session_events ''lan_browser'' now r @ evs) = desktop_sessions evs"
  "desktop_sessions (login_events env password now finished m @ evs) = desktop_sessions evs"
  by (auto simp: session_events_def login_events_def is_desktop_session_def
      split: sum.splits bool.splits prod.splits)

lemma auth_step_desktop:
  assumes "auth_step env t m t' new m'" and "desktop_sessions evs \<le> (if am_bootstrap m = None then 1 else 0)"
  shows "desktop_sessions (new @ evs) \<le> (if am_bootstrap m' = None then 1 else 0)"
  using assms(1)
proof cases
  case (bootstrap nonce i tokens r)
  from exchange_cases [OF bootstrap(3)] show ?thesis
  proof
    assume "r = Inl (Unauthorized ''the desktop bootstrap nonce is invalid or has already been used'') \<and> m' = m"
    with assms(2) bootstrap(1) show ?thesis by (simp add: session_events_def)
  next
    assume h: "am_bootstrap m \<noteq> None \<and> create_session env ''desktop'' i tokens t' (m\<lparr>am_bootstrap := None\<rparr>) = (r, m')"
    then have "am_bootstrap m' = None" using create_session_simps(2) [of env _ i tokens t' "m\<lparr>am_bootstrap := None\<rparr>"] by auto
    moreover from h assms(2) have "desktop_sessions evs = 0" by auto
    ultimately show ?thesis using bootstrap(1)
      by (cases r) (simp_all add: session_events_def is_desktop_session_def)
  qed
next
  case (login now password i tokens r)
  have "am_bootstrap m' = am_bootstrap m"
    using login(4)
  proof (cases rule: login_cases)
    case (right u m0)
    from create_session_simps(2) [OF right(3)] throttle_fields [OF right(1)] show ?thesis by simp
  qed (auto dest: throttle_fields)
  with assms(2) login(1) show ?thesis by simp
next
  case (configure password salt stored a)
  then have "am_bootstrap m' = am_bootstrap m"
    by (auto simp: configure_lan_password_def split: if_splits option.splits sum.splits)
  with assms(2) configure(1) show ?thesis by simp
next
  case (revoke_lan n)
  then have "am_bootstrap m' = am_bootstrap m" by (auto simp: revoke_lan_sessions_def)
  with assms(2) revoke_lan(1) show ?thesis by (simp add: is_desktop_session_def)
next
  case (issue_token label token i a)
  then have "am_bootstrap m' = am_bootstrap m" by (auto simp: issue_api_token_def Let_def split: if_splits)
  with assms(2) issue_token(1) show ?thesis by (auto simp: is_desktop_session_def split: sum.split)
next
  case (revoke_token i a)
  then have "am_bootstrap m' = am_bootstrap m" by (auto simp: revoke_api_token_def split: if_splits)
  with assms(2) revoke_token(1) show ?thesis by (auto simp: is_desktop_session_def split: sum.split)
next
  case (request now q a)
  then have "am_bootstrap m' = am_bootstrap m"
    by (auto simp: require_session_def validate_session_def validate_api_token_def split: if_splits option.splits sum.splits)
  with assms(2) request(1) show ?thesis by simp
next
  case (restart desktop loopback)
  then show ?thesis by simp
qed

text \<open>C26. The desktop nonce opens one session. Whatever is tried, between two starts of the service at
  most one desktop session is issued, and none while the nonce is still unused; once it is used, no
  nonce is accepted.\<close>

theorem desktop_session_once:
  assumes "auth_run env t evs m"
  shows "desktop_sessions evs \<le> (if am_bootstrap m = None then 1 else 0)
    \<and> (am_bootstrap m = None \<longrightarrow> exchange_bootstrap env nonce i tokens now m
        = (Inl (Unauthorized ''the desktop bootstrap nonce is invalid or has already been used''), m))"
proof -
  have "desktop_sessions evs \<le> (if am_bootstrap m = None then 1 else 0)" using assms
  proof (induction rule: auth_run.induct)
    case (operated t evs m t' new m')
    then show ?case using auth_step_desktop by blast
  qed simp
  then show ?thesis by (simp add: exchange_bootstrap_def is_some_and_def)
qed

section \<open>The login throttle\<close>

text \<open>The failed logins, oldest first, that count against the next one.\<close>

fun failures :: "auth_event list \<Rightarrow> time list" where
  "failures [] = []"
| "failures (Restarted # evs) = []"
| "failures (PasswordAccepted # evs) = []"
| "failures (LoginFailed t # evs) = failures evs @ [t]"
| "failures (_ # evs) = failures evs"

definition failures_known :: "time \<Rightarrow> auth_event list \<Rightarrow> auth_manager \<Rightarrow> bool" where
  "failures_known t evs m \<longleftrightarrow> sorted (failures evs) \<and> (\<forall>x \<in> set (failures evs). x \<le> t)
     \<and> (\<exists>old. failures evs = old @ am_login_failures m \<and> (\<forall>x \<in> set old. x < t - minute_nanos))"

lemma dropWhile_less_sorted:
  "sorted (xs :: int list) \<Longrightarrow> dropWhile (\<lambda>x. x < c) xs = filter (\<lambda>x. c \<le> x) xs"
proof (induction xs)
  case (Cons x xs)
  then show ?case by (cases "x < c") (auto simp: filter_id_conv intro!: filter_True [symmetric])
qed simp

lemma failures_known_later:
  assumes "failures_known t evs m" and "t \<le> t'" and "failures evs' = failures evs"
    and "am_login_failures m' = am_login_failures m"
  shows "failures_known t' evs' m'"
proof -
  from assms(1) obtain old where old: "failures evs = old @ am_login_failures m" "\<forall>x \<in> set old. x < t - minute_nanos"
    and s: "sorted (failures evs)" "\<forall>x \<in> set (failures evs). x \<le> t"
    unfolding failures_known_def by blast
  have "\<forall>x \<in> set old. x < t' - minute_nanos" using old(2) assms(2) by fastforce
  moreover have "\<forall>x \<in> set (failures evs'). x \<le> t'" using s(2) assms(2,3) by fastforce
  ultimately show ?thesis unfolding failures_known_def using old(1) s(1) assms(3,4) by (intro conjI exI [of _ old]) simp_all
qed

lemma throttle_known:
  assumes "failures_known t evs m" and "t \<le> now" and "enforce_login_throttle now m = (r, m')"
  shows "failures_known now evs m'"
    and "am_login_failures m' = filter (\<lambda>x. now - minute_nanos \<le> x) (failures evs)"
proof -
  from assms(1) obtain old where old: "failures evs = old @ am_login_failures m" "\<forall>x \<in> set old. x < t - minute_nanos"
    and s: "sorted (failures evs)" "\<forall>x \<in> set (failures evs). x \<le> t"
    unfolding failures_known_def by blast
  let ?gone = "takeWhile (\<lambda>x. x < now - minute_nanos) (am_login_failures m)"
  let ?kept = "dropWhile (\<lambda>x. x < now - minute_nanos) (am_login_failures m)"
  have kept: "am_login_failures m' = ?kept" using throttle_fields [OF assms(3)] by simp
  have before: "x < now - minute_nanos" if "x \<in> set old" for x using old(2) assms(2) that by fastforce
  have "failures evs = (old @ ?gone) @ am_login_failures m'" using old(1) kept by simp
  moreover have "\<forall>x \<in> set (old @ ?gone). x < now - minute_nanos" using before by (auto dest: set_takeWhileD)
  moreover have "\<forall>x \<in> set (failures evs). x \<le> now" using s(2) assms(2) by fastforce
  ultimately show "failures_known now evs m'" unfolding failures_known_def using s(1) by blast
  have "sorted (am_login_failures m)" using s(1) old(1) by (simp add: sorted_append)
  moreover have "filter (\<lambda>x. now - minute_nanos \<le> x) old = []" using before by (auto simp: filter_empty_conv not_le)
  ultimately show "am_login_failures m' = filter (\<lambda>x. now - minute_nanos \<le> x) (failures evs)"
    by (simp add: kept dropWhile_less_sorted old(1))
qed

lemma session_events_failures [simp]: "failures (session_events kind now r @ evs) = failures evs"
  by (simp add: session_events_def split: sum.split)

lemma failures_known_cleared: "failures evs = [] \<Longrightarrow> am_login_failures m = [] \<Longrightarrow> failures_known t evs m"
  by (simp add: failures_known_def)

lemma failures_known_failed:
  assumes "failures_known t evs m" and "t \<le> t'"
  shows "failures_known t' (LoginFailed t' # evs) (m\<lparr>am_login_failures := am_login_failures m @ [t']\<rparr>)"
proof -
  from assms(1) obtain old where old: "failures evs = old @ am_login_failures m" "\<forall>x \<in> set old. x < t - minute_nanos"
    and s: "sorted (failures evs)" "\<forall>x \<in> set (failures evs). x \<le> t"
    unfolding failures_known_def by blast
  have le: "\<forall>x \<in> set (failures evs). x \<le> t'" using s(2) assms(2) by fastforce
  moreover have "\<forall>x \<in> set old. x < t' - minute_nanos" using old(2) assms(2) by fastforce
  moreover from le s(1) have "sorted (failures evs @ [t'])" by (simp add: sorted_append)
  ultimately show ?thesis unfolding failures_known_def using old(1) by (intro conjI exI [of _ old]) auto
qed

lemma auth_step_failures:
  assumes "auth_step env t m t' new m'" and known: "failures_known t evs m"
  shows "failures_known t' (new @ evs) m'"
  using assms(1)
proof cases
  case (bootstrap nonce i tokens r)
  from exchange_cases [OF bootstrap(3)] create_session_simps(3) have "am_login_failures m' = am_login_failures m" by fastforce
  with failures_known_later [OF known bootstrap(2)] bootstrap(1) show ?thesis by simp
next
  case (login now password i tokens r)
  show ?thesis
    using login(4)
  proof (cases rule: login_cases)
    case (throttled e m0)
    from failures_known_later [OF throttle_known(1) [OF known login(2) throttled(1)] login(3) refl refl] throttled login(1)
    show ?thesis by (simp add: session_events_def login_events_def)
  next
    case (undecided u m0 e)
    from failures_known_later [OF throttle_known(1) [OF known login(2) undecided(1)] login(3) refl refl] undecided login(1)
    show ?thesis by (simp add: session_events_def login_events_def)
  next
    case (wrong u m0)
    from failures_known_failed [OF throttle_known(1) [OF known login(2) wrong(1)] login(3)] wrong login(1)
    show ?thesis by (simp add: session_events_def login_events_def)
  next
    case (right u m0)
    from create_session_simps(3) [OF right(3)] right login(1)
    show ?thesis by (intro failures_known_cleared) (simp_all add: login_events_def)
  qed
next
  case (configure password salt stored a)
  then have "am_login_failures m' = am_login_failures m"
    by (auto simp: configure_lan_password_def split: if_splits option.splits sum.splits)
  with failures_known_later [OF known configure(2)] configure(1) show ?thesis by simp
next
  case (revoke_lan n)
  then have "am_login_failures m' = am_login_failures m" by (auto simp: revoke_lan_sessions_def)
  with failures_known_later [OF known revoke_lan(2)] revoke_lan(1) show ?thesis by simp
next
  case (issue_token label token i a)
  then have "am_login_failures m' = am_login_failures m" by (auto simp: issue_api_token_def Let_def split: if_splits)
  with failures_known_later [OF known issue_token(2)] issue_token(1) show ?thesis by (simp split: sum.split)
next
  case (revoke_token i a)
  then have "am_login_failures m' = am_login_failures m" by (auto simp: revoke_api_token_def split: if_splits)
  with failures_known_later [OF known revoke_token(2)] revoke_token(1) show ?thesis by (simp split: sum.split)
next
  case (request now q a)
  then have "am_login_failures m' = am_login_failures m" "t \<le> t'"
    by (auto simp: require_session_def validate_session_def validate_api_token_def split: if_splits option.splits sum.splits)
  with failures_known_later [OF known] request(1) show ?thesis by simp
next
  case (restart desktop loopback)
  then show ?thesis by (intro failures_known_cleared) (simp_all add: initialize_auth_def)
qed

lemma auth_run_failures: "auth_run env t evs m \<Longrightarrow> failures_known t evs m"
proof (induction rule: auth_run.induct)
  case (installed t desktop loopback)
  show ?case by (intro failures_known_cleared) (simp_all add: initialize_auth_def)
next
  case (operated t evs m t' new m')
  then show ?case using auth_step_failures by blast
qed

lemma check_password_failures [simp]: "check_password env password (m\<lparr>am_login_failures := fs\<rparr>) = check_password env password m"
  by (simp add: check_password_def password_secret_id_def)

lemma create_session_failures [simp]:
  "fst (create_session env kind i tokens now (m\<lparr>am_login_failures := fs\<rparr>)) = fst (create_session env kind i tokens now m)"
  by (simp add: create_session_def)

text \<open>C25. The login throttle counts failures exactly. After any run of the authentication operations, a
  login is refused for too many attempts exactly when five or more logins failed in the minute before it,
  counting from the last accepted password or restart; otherwise the password alone decides, the failure
  list never hides an attempt nor counts an old one.\<close>

theorem login_throttled:
  assumes "auth_run env t evs m" and "t \<le> now"
  shows "fst (login_with_password env password i tokens now finished m) =
    (if 5 \<le> length (filter (\<lambda>x. now - minute_nanos \<le> x) (failures evs))
     then Inl (RateLimitedRequest ''too many failed LAN login attempts; retry in one minute'')
     else case check_password env password m of
         Inl e \<Rightarrow> Inl e
       | Inr accepted \<Rightarrow> if accepted then fst (create_session env ''lan_browser'' i tokens finished m)
           else Inl (Unauthorized ''the LAN password is invalid''))"
proof -
  obtain r m0 where t: "enforce_login_throttle now m = (r, m0)" by fastforce
  note recent = throttle_known(2) [OF auth_run_failures [OF assms(1)] assms(2) t]
  have fields: "m0 = m\<lparr>am_login_failures := am_login_failures m0\<rparr>" using throttle_fields [OF t] by simp
  have same: "check_password env password m0 = check_password env password m"
    "fst (create_session env ''lan_browser'' i tokens finished m0) = fst (create_session env ''lan_browser'' i tokens finished m)"
    "fst (create_session env ''lan_browser'' i tokens finished (m0\<lparr>am_login_failures := []\<rparr>))
      = fst (create_session env ''lan_browser'' i tokens finished m)"
    by (subst fields, simp)+
  have "r = (if 5 \<le> length (am_login_failures m0)
      then Inl (RateLimitedRequest ''too many failed LAN login attempts; retry in one minute'') else Inr ())"
    using t by (auto simp: enforce_login_throttle_def Let_def split: if_splits)
  then show ?thesis unfolding recent [symmetric]
    by (auto simp: login_with_password_def t same split: sum.split bool.split)
qed

section \<open>An example\<close>

text \<open>An environment whose hash keeps the text, a desktop session in it, and a failed LAN login.\<close>

definition sample_auth_env :: auth_env where
  "sample_auth_env = \<lparr>ae_hash = map (\<lambda>c. of_nat (of_char c)), ae_argon2 = \<lambda>p s. Some (map (\<lambda>c. of_nat (of_char c)) p),
    ae_base64_encode = \<lambda>s. s, ae_base64_of_hash = \<lambda>_. [], ae_base64_decode = Some,
    ae_base64_decode_hash = \<lambda>s. Some (map (\<lambda>c. of_nat (of_char c)) s), ae_encode_verifier = \<lambda>s h. h,
    ae_decode_verifier = \<lambda>v. Some ([], v), ae_vault_expose = \<lambda>_. Inr ''correct horse'',
    ae_uuid_text = \<lambda>_. ''u'', ae_uuid_parse = \<lambda>_. Some 7, ae_ip_text = \<lambda>_. None, ae_authority = \<lambda>_. None,
    ae_url = \<lambda>_. None, ae_header_value = \<lambda>_. True\<rparr>"

lemma sample_hash_inj: "inj (ae_hash sample_auth_env)"
proof -
  have "c = d" if "(of_nat (of_char c) :: 8 word) = of_nat (of_char d)" for c d :: char
  proof -
    from that have "unat (of_nat (of_char c) :: 8 word) = unat (of_nat (of_char d) :: 8 word)" by simp
    then have "(of_char c :: nat) = of_char d" by (simp add: unat_of_nat)
    then show ?thesis by simp
  qed
  then show ?thesis by (simp add: sample_auth_env_def inj_map_eq_map inj_def)
qed

definition sample_tokens :: session_tokens where
  "sample_tokens = \<lparr>st_session = ''a'', st_csrf = ''b''\<rparr>"

definition sample_manager :: auth_manager where
  "sample_manager = \<lparr>am_sessions = [\<lparr>sn_id = ''s'', sn_kind = ''desktop'', sn_token_hash = [97],
       sn_csrf_hash = Some [98], sn_created_at = 0, sn_expires_at = session_hours * hour_nanos, sn_last_seen_at = 0,
       sn_revoked_at = None, sn_peer_address = None\<rparr>],
     am_tokens = [], am_password_setting = None, am_bootstrap = None, am_authentication_required = True,
     am_login_failures = []\<rparr>"


lemma sample_auth_run: "auth_run sample_auth_env 0 [SessionIssued ''desktop'' sample_tokens 0, Restarted] sample_manager"
proof -
  have "exchange_bootstrap sample_auth_env ''n'' ''s'' sample_tokens 0
      (initialize_auth sample_auth_env (Some ''n'') True [] [] None) = (Inr sample_tokens, sample_manager)"
    by (simp add: exchange_bootstrap_def initialize_auth_def is_some_and_def create_session_def sample_auth_env_def
        sample_tokens_def sample_manager_def)
  from auth_run.operated [OF auth_run.installed auth_step.bootstrap [OF order_refl this]] show ?thesis
    by (simp add: session_events_def)
qed




theorem desktop_session_once_witness:
  "desktop_sessions [SessionIssued ''desktop'' sample_tokens 0, Restarted] \<le> 1"
  using desktop_session_once [OF sample_auth_run] by (simp add: sample_manager_def)

definition sample_lan :: auth_manager where
  "sample_lan = \<lparr>am_sessions = [], am_tokens = [], am_password_setting = Some (JObj [(''secretId'', JStr ''u'')]),
     am_bootstrap = None, am_authentication_required = True, am_login_failures = []\<rparr>"

lemma sample_check: "check_password sample_auth_env p sample_lan = Inr (p = ''correct horse'')"
proof -
  have "(p = ''correct horse'') = (ae_hash sample_auth_env ''correct horse'' = ae_hash sample_auth_env p)"
    using sample_hash_inj by (auto dest: injD)
  then show ?thesis
    by (simp add: check_password_def password_secret_id_def sample_lan_def sample_auth_env_def)
qed

lemma sample_login_run:
  "auth_run sample_auth_env 1 [LoginFailed 1, Restarted] (sample_lan\<lparr>am_login_failures := [1]\<rparr>)"
proof -
  have "configure_lan_password sample_auth_env ''correct horse'' [] (\<lambda>_. Inr 7) 
      (initialize_auth sample_auth_env None False [] [] None) = (Inr None, sample_lan)"
    by (simp add: configure_lan_password_def initialize_auth_def char_count_def is_continuation_def sample_auth_env_def
        password_secret_id_def sample_lan_def)
  from auth_run.operated [OF auth_run.installed auth_step.configure [OF order_refl this]]
  have run: "auth_run sample_auth_env 0 [Restarted] sample_lan" by simp
  have t: "enforce_login_throttle 0 sample_lan = (Inr (), sample_lan)"
    by (simp add: enforce_login_throttle_def sample_lan_def)
  have c: "check_password sample_auth_env ''wrong'' sample_lan = Inr False" by (simp add: sample_check)
  have "login_with_password sample_auth_env ''wrong'' ''i'' sample_tokens 0 1 sample_lan
      = (Inl (Unauthorized ''the LAN password is invalid''), sample_lan\<lparr>am_login_failures := [1]\<rparr>)"
    by (simp add: login_with_password_def t c) (simp add: sample_lan_def)
  from auth_run.operated [OF run auth_step.login [OF order_refl _ this]] show ?thesis
    by (simp add: session_events_def login_events_def t c)
qed

theorem login_throttled_witness:
  "fst (login_with_password sample_auth_env ''correct horse'' ''i'' sample_tokens 2 3 (sample_lan\<lparr>am_login_failures := [1]\<rparr>))
    = Inr sample_tokens"
  using login_throttled [OF sample_login_run, of 2 "''correct horse''" "''i''" sample_tokens 3]
  by (simp add: sample_check minute_nanos_def) (simp add: create_session_def sample_lan_def)

end
