(* ===== verification/Proofing_Domain.thy ===== *)
theory Proofing_Domain
  imports Job_Repository Speaker_Segments Provider_Errors
begin

text \<open>
  The proofing workbench's part of the domain model: crates/core/src/proofing.rs, with the settings of
  crates/core/src/speech.rs that a segment carries. After a conversion every segment of the book has
  takes (recordings); one of them is selected, and an editor reviews it.
\<close>

section \<open>Settings of a segment\<close>

datatype delivery_cue = Whisper | Shout | Sarcastic | Curious | Excited | Crying | Mischievous

record performance_settings =
  pf_speed :: "fval option"
  pf_pitch :: "fval option"
  pf_stability :: "fval option"
  pf_similarity :: "fval option"
  pf_style :: "fval option"
  pf_speaker_boost :: "bool option"
  pf_delivery_cue :: "delivery_cue option"

definition performance_overlay :: "performance_settings \<Rightarrow> performance_settings \<Rightarrow> performance_settings" where
  "performance_overlay defaults overrides =
     \<lparr>pf_speed = or_else (pf_speed overrides) (pf_speed defaults),
      pf_pitch = or_else (pf_pitch overrides) (pf_pitch defaults),
      pf_stability = or_else (pf_stability overrides) (pf_stability defaults),
      pf_similarity = or_else (pf_similarity overrides) (pf_similarity defaults),
      pf_style = or_else (pf_style overrides) (pf_style defaults),
      pf_speaker_boost = or_else (pf_speaker_boost overrides) (pf_speaker_boost defaults),
      pf_delivery_cue = or_else (pf_delivery_cue overrides) (pf_delivery_cue defaults)\<rparr>"

definition default_performance :: performance_settings where
  "default_performance = \<lparr>pf_speed = None, pf_pitch = None, pf_stability = None, pf_similarity = None,
     pf_style = None, pf_speaker_boost = None, pf_delivery_cue = None\<rparr>"

record timing_settings =
  ti_pause_before_ms :: "u32 option"
  ti_pause_after_ms :: "u32 option"

definition default_timing :: timing_settings where
  "default_timing = \<lparr>ti_pause_before_ms = None, ti_pause_after_ms = None\<rparr>"

text \<open>\<open>format!\<close> prints the bounds 0.25, 4, 0 and 1.\<close>

definition require_optional_number :: "str \<Rightarrow> fval option \<Rightarrow> rat \<Rightarrow> rat \<Rightarrow> str \<Rightarrow> validation_issue list" where
  "require_optional_number path v minimum maximum bounds =
     issue_if (is_some_and v (\<lambda>x. \<not> fval_in_range minimum maximum x))
       (mk_issue path ''out_of_range'' (path @ '' must be finite and between '' @ bounds))"

definition performance_issues :: "performance_settings \<Rightarrow> validation_issue list" where
  "performance_issues p =
     require_optional_number ''speed'' (pf_speed p) (1 / 4) 4 ''0.25 and 4''
   @ require_optional_number ''pitch'' (pf_pitch p) (1 / 4) 4 ''0.25 and 4''
   @ require_optional_number ''stability'' (pf_stability p) 0 1 ''0 and 1''
   @ require_optional_number ''similarity'' (pf_similarity p) 0 1 ''0 and 1''
   @ require_optional_number ''style'' (pf_style p) 0 1 ''0 and 1''"

definition performance_is_empty :: "performance_settings \<Rightarrow> bool" where
  "performance_is_empty p \<longleftrightarrow> pf_speed p = None \<and> pf_pitch p = None \<and> pf_stability p = None
     \<and> pf_similarity p = None \<and> pf_style p = None \<and> pf_speaker_boost p = None \<and> pf_delivery_cue p = None"

definition timing_issues :: "timing_settings \<Rightarrow> validation_issue list" where
  "timing_issues t =
     issue_if (is_some_and (ti_pause_before_ms t) (\<lambda>v. v > 5000))
       (mk_issue ''pause_before_ms'' ''out_of_range'' ''segment pause must not exceed 5000 milliseconds'')
   @ issue_if (is_some_and (ti_pause_after_ms t) (\<lambda>v. v > 5000))
       (mk_issue ''pause_after_ms'' ''out_of_range'' ''segment pause must not exceed 5000 milliseconds'')"

text \<open>What a model supports (crates/core/src/providers.rs).\<close>

record performance_range =
  pr_minimum :: fval
  pr_maximum :: fval

definition range_is_valid :: "performance_range \<Rightarrow> bool" where
  "range_is_valid r \<longleftrightarrow> fval_is_finite (pr_minimum r) \<and> fval_is_finite (pr_maximum r)
     \<and> fval_le (pr_minimum r) (pr_maximum r)"

definition range_contains :: "performance_range \<Rightarrow> fval \<Rightarrow> bool" where
  "range_contains r v \<longleftrightarrow> range_is_valid r \<and> fval_is_finite v \<and> fval_le (pr_minimum r) v \<and> fval_le v (pr_maximum r)"

record performance_capabilities =
  pc_speed :: "performance_range option"
  pc_pitch :: "performance_range option"
  pc_stability :: "performance_range option"
  pc_similarity :: "performance_range option"
  pc_style :: "performance_range option"
  pc_speaker_boost :: bool
  pc_delivery_cues :: "delivery_cue list"

record model_performance_capabilities =
  mp_model :: str
  mp_performance :: performance_capabilities

section \<open>Segments and plans\<close>

datatype segment_review_state = Unreviewed | Flagged | Approved | Locked

definition is_accepted :: "segment_review_state \<Rightarrow> bool" where
  "is_accepted s \<longleftrightarrow> s \<in> {Approved, Locked}"

datatype production_segment_source = EpubRange | OpeningCredit | ClosingCredit

record production_segment =
  psg_id :: segment_id
  psg_project_id :: project_id
  psg_chapter_id :: "chapter_id option"
  psg_paragraph_id :: "uuid option"
  psg_source :: production_segment_source
  psg_stable_key :: str
  psg_ordinal :: u32
  psg_source_content_hash :: str
  psg_byte_start :: "u64 option"
  psg_byte_end :: "u64 option"
  psg_speaker :: speaker
  psg_original_text :: str
  psg_narration_text_override :: "str option"
  psg_effective_text :: str
  psg_context_before :: "str option"
  psg_context_after :: "str option"
  psg_performance_override :: performance_settings
  psg_timing_override :: timing_settings
  psg_expected_input_hash :: str
  psg_review_state :: segment_review_state
  psg_active :: bool
  psg_revision :: u64
  psg_created_at :: time
  psg_updated_at :: time

datatype proofing_plan_status = PlanReady | PlanDirty | PlanIncomplete

record proofing_plan =
  ppl_project_id :: project_id
  ppl_source_conversion_job_id :: job_id
  ppl_plan_revision :: u64
  ppl_plan_hash :: str
  ppl_status :: proofing_plan_status
  ppl_dirty_reasons :: "str list"
  ppl_created_at :: time
  ppl_updated_at :: time

section \<open>Takes\<close>

datatype take_finding_severity = TakeWarning | TakeError

record take_finding =
  pfi_code :: str
  pfi_severity :: take_finding_severity
  pfi_message :: str
  pfi_start_ms :: "u64 option"
  pfi_end_ms :: "u64 option"
  pfi_actual :: "fval option"
  pfi_expected :: "str option"

type_synonym take_id = uuid

record segment_take =
  ptk_id :: take_id
  ptk_segment_id :: segment_id
  ptk_artifact_id :: artifact_id
  ptk_ordinal :: u32
  ptk_source_job_id :: job_id
  ptk_source_job_unit_id :: job_unit_id
  ptk_semantic_input_hash :: str
  ptk_duration_ms :: u64
  ptk_provider_profile_id :: "provider_id option"
  ptk_model :: "str option"
  ptk_voice_profile_id :: "uuid option"
  ptk_dictionary_revision_hash :: str
  ptk_normalization_version :: str
  ptk_synthesis_provenance :: "(str \<times> json) list"
  ptk_findings :: "take_finding list"
  ptk_created_at :: time

record segment_selection =
  psl_segment_id :: segment_id
  psl_take_id :: take_id
  psl_selected_at :: time
  psl_revision :: u64

record proof_export_selection =
  pxe_segment_id :: segment_id
  pxe_take_id :: take_id
  pxe_artifact_id :: artifact_id

record proof_export_snapshot =
  pxs_id :: uuid
  pxs_project_id :: project_id
  pxs_job_id :: job_id
  pxs_export_profile_id :: export_profile_id
  pxs_plan_revision :: u64
  pxs_plan_hash :: str
  pxs_selections :: "proof_export_selection list"
  pxs_created_at :: time

end
