(* ===== verification/Proofing_Repository.thy ===== *)
theory Proofing_Repository
  imports Proofing_Domain
begin

text \<open>
  The proofing repository (crates/storage/src/repositories/proofing.rs) over the tables of
  crates/storage/migrations/0005\_proofing\_workbench.sql. Its record of tables embeds the database of
  the other repositories: \<open>on\_db\<close> runs a transaction of theirs, and the keys of production segments that
  their foreign keys refer to are those of the table here. The export snapshot's identifier inside the
  JSON payload of a unit is read by serde; \<open>decode\_id\<close> is that reader (\<open>Inl\<close> its error text).
\<close>

section \<open>Tables\<close>

record plan_row =
  rpl_project_id :: project_id
  rpl_source_conversion_job_id :: "job_id option"
  rpl_plan_revision :: i64
  rpl_payload :: proofing_plan

record segment_row =
  rsg_id :: segment_id
  rsg_project_id :: project_id
  rsg_chapter_id :: "chapter_id option"
  rsg_stable_key :: str
  rsg_ordinal :: i64
  rsg_active :: bool
  rsg_revision :: i64
  rsg_payload :: production_segment

record take_row =
  rtk_id :: take_id
  rtk_segment_id :: segment_id
  rtk_artifact_id :: artifact_id
  rtk_ordinal :: i64
  rtk_payload :: segment_take

record selection_row =
  rsl_segment_id :: segment_id
  rsl_take_id :: take_id
  rsl_revision :: i64
  rsl_payload :: segment_selection

record snapshot_row =
  rxs_id :: uuid
  rxs_project_id :: project_id
  rxs_job_id :: job_id
  rxs_payload :: proof_export_snapshot

record proof_db =
  pdb_base :: db
  pdb_paragraphs :: "uuid list"
  pdb_artifacts :: "artifact_id list"
  pdb_plans :: "plan_row list"
  pdb_segments :: "segment_row list"
  pdb_takes :: "take_row list"
  pdb_selections :: "selection_row list"
  pdb_snapshots :: "snapshot_row list"

type_synonym 'a proof_tx = "(proof_db, storage_error, 'a) tx"

definition base_view :: "proof_db \<Rightarrow> db" where
  "base_view s = (pdb_base s)\<lparr>db_segments := map rsg_id (pdb_segments s)\<rparr>"

definition on_db :: "'a db_tx \<Rightarrow> 'a proof_tx" where
  "on_db m = (\<lambda>s. case m (base_view s) of Inl e \<Rightarrow> Inl e | Inr (a, d) \<Rightarrow>
     Inr (a, s\<lparr>pdb_base := d\<lparr>db_segments := db_segments (pdb_base s)\<rparr>\<rparr>))"

section \<open>Checks on the arguments\<close>

definition validate_plan_segments :: "proofing_plan \<Rightarrow> production_segment list \<Rightarrow> storage_error + unit" where
  "validate_plan_segments plan segments =
     (if list_ex (\<lambda>g. psg_project_id g \<noteq> ppl_project_id plan \<or> \<not> psg_active g) segments
      then Inl (InvalidData ''proofing segment does not belong to the active project plan'' [])
      else Inr ())"

definition validate_job_units :: "job_id \<Rightarrow> job_unit list \<Rightarrow> storage_error + unit" where
  "validate_job_units i units =
     (if units = [] then Inl (InvalidData ''durable job graph cannot be empty'' [])
      else if \<not> distinct (map ju_id units)
      then Inl (InvalidData ''durable job graph contains duplicate unit ids'' [])
      else if list_ex (\<lambda>u. ju_job_id u \<noteq> i
          \<or> list_ex (\<lambda>d. d = ju_id u \<or> d \<notin> set (map ju_id units)) (ju_dependencies u)) units
      then Inl (InvalidData ''durable job graph contains a foreign or invalid dependency'' [])
      else Inr ())"

text \<open>The two maps from segments to artifacts, \<open>expected\<close> and \<open>actual\<close>.\<close>

fun expected_artifacts ::
  "proof_export_selection list \<Rightarrow> (segment_id \<times> artifact_id) list \<Rightarrow>
     storage_error + (segment_id \<times> artifact_id) list" where
  "expected_artifacts [] expected = Inr expected"
| "expected_artifacts (x # xs) expected =
     (if map_of expected (pxe_segment_id x) \<noteq> None
      then Inl (InvalidData ''proof export snapshot contains duplicate segment selections'' [])
      else expected_artifacts xs (btree_insert (pxe_segment_id x) (pxe_artifact_id x) expected))"

fun actual_artifacts ::
  "job_unit list \<Rightarrow> (segment_id \<times> artifact_id) list \<Rightarrow> storage_error + (segment_id \<times> artifact_id) list" where
  "actual_artifacts [] actual = Inr actual"
| "actual_artifacts (u # us) actual = (case (ju_segment_id u, ju_output_artifact_id u) of
      (Some segment, Some artifact) \<Rightarrow>
        if ju_state u \<noteq> UnitCompleted \<or> map_of actual segment \<noteq> None
        then Inl (InvalidData ''proof export graph contains a duplicate or incomplete selection'' [])
        else actual_artifacts us (btree_insert segment artifact actual)
    | _ \<Rightarrow> Inl (InvalidData ''proof export synthesis unit is missing its selected artifact'' []))"

definition validate_proof_export_snapshot_graph ::
  "(json \<Rightarrow> str + uuid) \<Rightarrow> proof_export_snapshot \<Rightarrow> job_unit list \<Rightarrow> storage_error + unit" where
  "validate_proof_export_snapshot_graph decode_id snapshot units =
     (case expected_artifacts (pxs_selections snapshot) [] of
        Inl e \<Rightarrow> Inl e
      | Inr expected \<Rightarrow> (case actual_artifacts (filter (\<lambda>u. ju_kind u = SynthesisSegment) units) [] of
          Inl e \<Rightarrow> Inl e
        | Inr actual \<Rightarrow>
            (let export_units = filter (\<lambda>u. ju_kind u = FinalExport) units;
                 stored = (case export_units of [] \<Rightarrow> None | u # _ \<Rightarrow> ju_payload u ''proofExportSnapshotId'')
             in case (case stored of None \<Rightarrow> Inr None | Some v \<Rightarrow> map_sum id Some (decode_id v)) of
                  Inl message \<Rightarrow> Inl (InvalidData message [])
                | Inr snapshot_id \<Rightarrow>
                    if expected = [] \<or> actual \<noteq> expected \<or> length export_units \<noteq> 1
                      \<or> snapshot_id \<noteq> Some (pxs_id snapshot)
                    then Inl (InvalidData ''proof export graph does not match its audit snapshot'' [])
                    else Inr ())))"

section \<open>Statements\<close>

definition enforce_at :: "bool \<Rightarrow> db_failure \<Rightarrow> unit proof_tx" where
  "enforce_at ok failure = tx_ensure ok (DatabaseError failure)"

definition segment_known :: "proof_db \<Rightarrow> segment_id \<Rightarrow> bool" where
  "segment_known s i \<longleftrightarrow> list_ex (\<lambda>r. rsg_id r = i) (pdb_segments s)"

definition job_known :: "proof_db \<Rightarrow> job_id \<Rightarrow> bool" where
  "job_known s i \<longleftrightarrow> list_ex (\<lambda>r. jr_id r = i) (db_jobs (pdb_base s))"

text \<open>\<open>u64\<close> to a nullable \<open>INTEGER\<close>: \<open>i64::try\_from(value).ok()\<close>; then the check of the column.\<close>

definition byte_range_ok :: "u64 option \<Rightarrow> u64 option \<Rightarrow> bool" where
  "byte_range_ok start end_at =
     (case (Option.bind start i64_try_from_u64, Option.bind end_at i64_try_from_u64) of
        (Some a, Some b) \<Rightarrow> a \<le> b | _ \<Rightarrow> True)"

definition active_key_clash :: "project_id \<Rightarrow> str \<Rightarrow> segment_row \<Rightarrow> bool" where
  "active_key_clash project key r \<longleftrightarrow> rsg_active r \<and> rsg_project_id r = project \<and> rsg_stable_key r = key"

definition segment_row_of :: "production_segment \<Rightarrow> segment_row" where
  "segment_row_of g = \<lparr>rsg_id = psg_id g, rsg_project_id = psg_project_id g, rsg_chapter_id = psg_chapter_id g,
     rsg_stable_key = psg_stable_key g, rsg_ordinal = int (psg_ordinal g), rsg_active = psg_active g,
     rsg_revision = i64_from_u64_or_max (psg_revision g), rsg_payload = g\<rparr>"

definition insert_segment :: "production_segment \<Rightarrow> unit proof_tx" where
  "insert_segment g =
     tx_then (enforce_at (byte_range_ok (psg_byte_start g) (psg_byte_end g)) CheckViolation)
    (tx_bind (tx_gets (\<lambda>s. segment_known s (psg_id g) \<or> (psg_active g
         \<and> list_ex (active_key_clash (psg_project_id g) (psg_stable_key g)) (pdb_segments s)))) (\<lambda>clash.
     tx_then (enforce_at (\<not> clash) UniqueViolation)
    (tx_bind (tx_gets (\<lambda>s. List.member (db_projects (pdb_base s)) (psg_project_id g)
         \<and> optional_member (db_chapters (pdb_base s)) (psg_chapter_id g)
         \<and> optional_member (pdb_paragraphs s) (psg_paragraph_id g))) (\<lambda>found.
     tx_then (enforce_at found ForeignKeyViolation)
       (tx_modify (\<lambda>s. s\<lparr>pdb_segments := pdb_segments s @ [segment_row_of g]\<rparr>))))))"

text \<open>The loop over the active rows of the project; each is written back inactive.\<close>

definition deactivate_row :: "segment_row \<Rightarrow> unit proof_tx" where
  "deactivate_row row = tx_modify (\<lambda>s. s\<lparr>pdb_segments := sql_update (\<lambda>r. rsg_id r = rsg_id row)
     (\<lambda>r. r\<lparr>rsg_active := False, rsg_payload := (rsg_payload row)\<lparr>psg_active := False\<rparr>\<rparr>) (pdb_segments s)\<rparr>)"

definition deactivate_active_segments :: "project_id \<Rightarrow> unit proof_tx" where
  "deactivate_active_segments project =
     tx_bind (tx_gets (\<lambda>s. filter (\<lambda>r. rsg_project_id r = project \<and> rsg_active r) (pdb_segments s)))
       (\<lambda>rows. tx_foreach rows deactivate_row)"

text \<open>\<open>UPDATE production\_segments ... WHERE id = ? AND project\_id = ? AND revision = ?\<close>.\<close>

definition matches_segment :: "production_segment \<Rightarrow> u64 \<Rightarrow> segment_row \<Rightarrow> bool" where
  "matches_segment g expected r \<longleftrightarrow> rsg_id r = psg_id g \<and> rsg_project_id r = psg_project_id g
     \<and> rsg_revision r = i64_from_u64_or_max expected"

definition update_segment_row :: "production_segment \<Rightarrow> u64 \<Rightarrow> nat proof_tx" where
  "update_segment_row stored expected =
     tx_bind (tx_gets (\<lambda>s. list_ex (\<lambda>r. matches_segment stored expected r \<and> psg_active stored
         \<and> list_ex (\<lambda>q. rsg_id q \<noteq> rsg_id r \<and> active_key_clash (rsg_project_id r) (rsg_stable_key r) q)
             (pdb_segments s)) (pdb_segments s))) (\<lambda>clash.
       tx_then (enforce_at (\<not> clash) UniqueViolation)
      (tx_bind (tx_gets (\<lambda>s. rows_affected (matches_segment stored expected) (pdb_segments s))) (\<lambda>n.
       tx_then (tx_modify (\<lambda>s. s\<lparr>pdb_segments := sql_update (matches_segment stored expected)
          (\<lambda>r. r\<lparr>rsg_active := psg_active stored, rsg_revision := i64_from_u64_or_max (psg_revision stored),
                 rsg_payload := stored\<rparr>) (pdb_segments s)\<rparr>))
        (tx_return n))))"

definition plan_row_of :: "proofing_plan \<Rightarrow> plan_row" where
  "plan_row_of plan = \<lparr>rpl_project_id = ppl_project_id plan,
     rpl_source_conversion_job_id = Some (ppl_source_conversion_job_id plan),
     rpl_plan_revision = i64_from_u64_or_max (ppl_plan_revision plan), rpl_payload = plan\<rparr>"

definition upsert_plan :: "proofing_plan \<Rightarrow> unit proof_tx" where
  "upsert_plan plan =
     tx_bind (tx_gets (\<lambda>s. list_ex (\<lambda>r. rpl_project_id r = ppl_project_id plan) (pdb_plans s))) (\<lambda>exists.
     tx_bind (tx_gets (\<lambda>s. (exists \<or> List.member (db_projects (pdb_base s)) (ppl_project_id plan))
         \<and> job_known s (ppl_source_conversion_job_id plan))) (\<lambda>found.
       tx_then (enforce_at found ForeignKeyViolation)
         (tx_modify (\<lambda>s. s\<lparr>pdb_plans := (if exists
            then sql_update (\<lambda>r. rpl_project_id r = ppl_project_id plan) (\<lambda>r. plan_row_of plan) (pdb_plans s)
            else pdb_plans s @ [plan_row_of plan])\<rparr>))))"

definition matches_plan :: "proofing_plan \<Rightarrow> u64 \<Rightarrow> plan_row \<Rightarrow> bool" where
  "matches_plan plan expected r \<longleftrightarrow>
     rpl_project_id r = ppl_project_id plan \<and> rpl_plan_revision r = i64_from_u64_or_max expected"

definition update_plan_row :: "proofing_plan \<Rightarrow> u64 \<Rightarrow> nat proof_tx" where
  "update_plan_row plan expected =
     tx_bind (tx_gets (\<lambda>s. rows_affected (matches_plan plan expected) (pdb_plans s))) (\<lambda>n.
       tx_then (tx_modify (\<lambda>s. s\<lparr>pdb_plans := sql_update (matches_plan plan expected)
          (\<lambda>r. r\<lparr>rpl_plan_revision := i64_from_u64_or_max (ppl_plan_revision plan), rpl_payload := plan\<rparr>)
          (pdb_plans s)\<rparr>))
        (tx_return n))"

definition proof_insert_job :: "job \<Rightarrow> unit proof_tx" where
  "proof_insert_job j =
     tx_bind (tx_gets (\<lambda>s. job_known s (j_id j))) (\<lambda>clash.
       tx_then (enforce_at (\<not> clash) UniqueViolation)
      (tx_bind (tx_gets (\<lambda>s. List.member (db_projects (pdb_base s)) (j_project_id j)
            \<and> export_profile_known (pdb_base s) (j_export_profile_id j))) (\<lambda>found.
       tx_then (enforce_at found ForeignKeyViolation)
         (tx_modify (\<lambda>s. s\<lparr>pdb_base := (pdb_base s)\<lparr>db_jobs := db_jobs (pdb_base s) @ [job_row_of j]\<rparr>\<rparr>)))))"

text \<open>The same statements as the job repository's \<open>upsert\_unit\<close>.\<close>

definition upsert_job_unit :: "job_unit \<Rightarrow> unit proof_tx" where
  "upsert_job_unit u = on_db (job_upsert_unit u)"

definition insert_export_snapshot :: "proof_export_snapshot \<Rightarrow> unit proof_tx" where
  "insert_export_snapshot x =
     tx_bind (tx_gets (\<lambda>s. list_ex (\<lambda>r. rxs_id r = pxs_id x \<or> rxs_job_id r = pxs_job_id x) (pdb_snapshots s)))
       (\<lambda>clash.
       tx_then (enforce_at (\<not> clash) UniqueViolation)
      (tx_bind (tx_gets (\<lambda>s. List.member (db_projects (pdb_base s)) (pxs_project_id x)
            \<and> job_known s (pxs_job_id x))) (\<lambda>found.
       tx_then (enforce_at found ForeignKeyViolation)
         (tx_modify (\<lambda>s. s\<lparr>pdb_snapshots := pdb_snapshots s @
            [\<lparr>rxs_id = pxs_id x, rxs_project_id = pxs_project_id x, rxs_job_id = pxs_job_id x,
              rxs_payload = x\<rparr>]\<rparr>)))))"

definition take_row_of :: "segment_take \<Rightarrow> take_row" where
  "take_row_of t = \<lparr>rtk_id = ptk_id t, rtk_segment_id = ptk_segment_id t, rtk_artifact_id = ptk_artifact_id t,
     rtk_ordinal = int (ptk_ordinal t), rtk_payload = t\<rparr>"

definition take_clash :: "segment_take \<Rightarrow> take_row \<Rightarrow> bool" where
  "take_clash t r \<longleftrightarrow> rtk_id r = ptk_id t \<or> rtk_artifact_id r = ptk_artifact_id t
     \<or> (rtk_segment_id r = ptk_segment_id t \<and> rtk_ordinal r = int (ptk_ordinal t))"

definition insert_take_row :: "segment_take \<Rightarrow> unit proof_tx" where
  "insert_take_row t =
     tx_bind (tx_gets (\<lambda>s. list_ex (take_clash t) (pdb_takes s))) (\<lambda>clash.
       tx_then (enforce_at (\<not> clash) UniqueViolation)
      (tx_bind (tx_gets (\<lambda>s. segment_known s (ptk_segment_id t)
            \<and> List.member (pdb_artifacts s) (ptk_artifact_id t) \<and> job_known s (ptk_source_job_id t)
            \<and> list_ex (\<lambda>u. un_id u = ptk_source_job_unit_id t) (db_units (pdb_base s)))) (\<lambda>found.
       tx_then (enforce_at found ForeignKeyViolation)
         (tx_modify (\<lambda>s. s\<lparr>pdb_takes := pdb_takes s @ [take_row_of t]\<rparr>)))))"

definition take_known :: "proof_db \<Rightarrow> take_id \<Rightarrow> bool" where
  "take_known s i \<longleftrightarrow> list_ex (\<lambda>r. rtk_id r = i) (pdb_takes s)"

definition selection_row_of :: "segment_selection \<Rightarrow> selection_row" where
  "selection_row_of l = \<lparr>rsl_segment_id = psl_segment_id l, rsl_take_id = psl_take_id l,
     rsl_revision = i64_from_u64_or_max (psl_revision l), rsl_payload = l\<rparr>"

definition find_selection :: "proof_db \<Rightarrow> segment_id \<Rightarrow> selection_row option" where
  "find_selection s i = find (\<lambda>r. rsl_segment_id r = i) (pdb_selections s)"

definition upsert_selection :: "segment_selection \<Rightarrow> unit proof_tx" where
  "upsert_selection stored =
     tx_bind (tx_gets (\<lambda>s. find_selection s (psl_segment_id stored) \<noteq> None)) (\<lambda>exists.
     tx_bind (tx_gets (\<lambda>s. (exists \<or> segment_known s (psl_segment_id stored)) \<and> take_known s (psl_take_id stored)))
       (\<lambda>found.
       tx_then (enforce_at found ForeignKeyViolation)
         (tx_modify (\<lambda>s. s\<lparr>pdb_selections := (if exists
            then sql_update (\<lambda>r. rsl_segment_id r = psl_segment_id stored) (\<lambda>r. selection_row_of stored)
                   (pdb_selections s)
            else pdb_selections s @ [selection_row_of stored])\<rparr>))))"

definition matches_selection :: "segment_selection \<Rightarrow> u64 \<Rightarrow> selection_row \<Rightarrow> bool" where
  "matches_selection l expected r \<longleftrightarrow>
     rsl_segment_id r = psl_segment_id l \<and> rsl_revision r = i64_from_u64_or_max expected"

definition update_selection_row :: "segment_selection \<Rightarrow> u64 \<Rightarrow> nat proof_tx" where
  "update_selection_row stored expected =
     tx_bind (tx_gets (\<lambda>s. rows_affected (matches_selection stored expected) (pdb_selections s))) (\<lambda>n.
     tx_bind (tx_gets (\<lambda>s. take_known s (psl_take_id stored))) (\<lambda>found.
       tx_then (enforce_at (n > 0 \<longrightarrow> found) ForeignKeyViolation)
      (tx_then (tx_modify (\<lambda>s. s\<lparr>pdb_selections := sql_update (matches_selection stored expected)
          (\<lambda>r. selection_row_of stored) (pdb_selections s)\<rparr>))
        (tx_return n))))"

section \<open>Methods of the repository\<close>

definition replace_plan :: "proofing_plan \<Rightarrow> production_segment list \<Rightarrow> unit proof_tx" where
  "replace_plan plan segments =
     tx_then (tx_lift (validate_plan_segments plan segments))
    (tx_then (deactivate_active_segments (ppl_project_id plan))
    (tx_then (tx_foreach segments insert_segment) (upsert_plan plan)))"

definition replace_plan_with_units ::
  "proofing_plan \<Rightarrow> production_segment list \<Rightarrow> job_unit list \<Rightarrow> unit proof_tx" where
  "replace_plan_with_units plan segments units =
     tx_then (tx_lift (validate_plan_segments plan segments))
    (tx_then (tx_lift (validate_job_units (ppl_source_conversion_job_id plan) units))
    (tx_then (deactivate_active_segments (ppl_project_id plan))
    (tx_then (tx_foreach segments insert_segment)
    (tx_then (tx_foreach units upsert_job_unit) (upsert_plan plan)))))"

text \<open>\<open>export\_kind\<close> and \<open>matches\_job\<close>: the checks of the snapshot against the job.\<close>

definition validate_snapshot_job ::
  "(json \<Rightarrow> str + uuid) \<Rightarrow> job \<Rightarrow> job_unit list \<Rightarrow> proof_export_snapshot option \<Rightarrow> storage_error + unit" where
  "validate_snapshot_job decode_id j units snapshot = (case snapshot of
      Some x \<Rightarrow>
        if j_kind j = Export then validate_proof_export_snapshot_graph decode_id x units
        else Inl (InvalidData ''proof export snapshot belongs to a non-export job'' [])
    | None \<Rightarrow> if j_kind j = Export then Inl (InvalidData ''proof export job requires an audit snapshot'' [])
        else Inr ())"

definition snapshot_of_job :: "job \<Rightarrow> proof_export_snapshot option \<Rightarrow> bool" where
  "snapshot_of_job j snapshot \<longleftrightarrow> (case snapshot of None \<Rightarrow> True
     | Some x \<Rightarrow> pxs_job_id x = j_id j \<and> pxs_project_id x = j_project_id j
         \<and> j_export_profile_id j = Some (pxs_export_profile_id x))"

definition insert_job_graph_inner ::
  "(str \<Rightarrow> str) \<Rightarrow> (json \<Rightarrow> str + uuid) \<Rightarrow> job \<Rightarrow> job_unit list \<Rightarrow> proof_export_snapshot option \<Rightarrow>
     output_reservation option \<Rightarrow> unit proof_tx" where
  "insert_job_graph_inner ufold decode_id j units snapshot out =
     tx_then (tx_lift (validated (job_issues j)))
    (tx_then (tx_lift (validate_job_units (j_id j) units))
    (tx_then (tx_lift (validate_snapshot_job decode_id j units snapshot))
    (tx_then (tx_ensure (snapshot_of_job j snapshot)
        (InvalidData ''proof export snapshot does not match its job'' []))
    (tx_then (proof_insert_job j)
    (tx_then (case out of None \<Rightarrow> tx_return () | Some r \<Rightarrow> on_db (insert_output_reservation ufold r))
    (tx_then (tx_foreach units upsert_job_unit)
       (case snapshot of None \<Rightarrow> tx_return () | Some x \<Rightarrow> insert_export_snapshot x)))))))"

definition insert_job_graph ::
  "(str \<Rightarrow> str) \<Rightarrow> (json \<Rightarrow> str + uuid) \<Rightarrow> job \<Rightarrow> job_unit list \<Rightarrow> proof_export_snapshot option \<Rightarrow> unit proof_tx" where
  "insert_job_graph ufold decode_id j units snapshot = insert_job_graph_inner ufold decode_id j units snapshot None"

definition insert_export_job_graph_with_output_reservation ::
  "(str \<Rightarrow> str) \<Rightarrow> (json \<Rightarrow> str + uuid) \<Rightarrow> job \<Rightarrow> job_unit list \<Rightarrow> proof_export_snapshot \<Rightarrow>
     output_reservation \<Rightarrow> unit proof_tx" where
  "insert_export_job_graph_with_output_reservation ufold decode_id j units snapshot out =
     tx_then (tx_lift (validate_output_reservation ufold j out))
       (insert_job_graph_inner ufold decode_id j units (Some snapshot) (Some out))"

definition get_plan :: "project_id \<Rightarrow> proofing_plan option proof_tx" where
  "get_plan i = tx_gets (\<lambda>s. map_option rpl_payload (find (\<lambda>r. rpl_project_id r = i) (pdb_plans s)))"

definition update_plan :: "proofing_plan \<Rightarrow> u64 \<Rightarrow> unit proof_tx" where
  "update_plan plan expected =
     tx_bind (update_plan_row plan expected) (\<lambda>n.
       tx_ensure (n \<noteq> 0) (StaleRevision ''proofing plan'' (IdOf (ppl_project_id plan))))"

text \<open>The column decides whether a segment is active, whatever the payload says.\<close>

definition decode_segment_row :: "segment_row \<Rightarrow> production_segment" where
  "decode_segment_row r = (rsg_payload r)\<lparr>psg_active := rsg_active r\<rparr>"

definition get_segment :: "segment_id \<Rightarrow> production_segment option proof_tx" where
  "get_segment i = tx_gets (\<lambda>s. map_option decode_segment_row (find (\<lambda>r. rsg_id r = i) (pdb_segments s)))"

text \<open>\<open>ORDER BY chapter\_id, ordinal\<close>: NULL first, then identifiers as text of fixed width.\<close>

definition chapter_rank :: "chapter_id option \<Rightarrow> nat" where
  "chapter_rank c = (case c of None \<Rightarrow> 0 | Some i \<Rightarrow> Suc i)"

definition list_active_segments :: "project_id \<Rightarrow> chapter_id option \<Rightarrow> production_segment list proof_tx" where
  "list_active_segments project chapter = tx_gets (\<lambda>s. map decode_segment_row (case chapter of
      Some c \<Rightarrow> sort_key rsg_ordinal (filter (\<lambda>r. rsg_project_id r = project \<and> rsg_chapter_id r = Some c
          \<and> rsg_active r) (pdb_segments s))
    | None \<Rightarrow> sort_key (\<lambda>r. chapter_rank (rsg_chapter_id r)) (sort_key rsg_ordinal
        (filter (\<lambda>r. rsg_project_id r = project \<and> rsg_active r) (pdb_segments s)))))"

definition stale_or_missing_segment :: "proof_db \<Rightarrow> segment_id \<Rightarrow> storage_error" where
  "stale_or_missing_segment s i = (if segment_known s i then StaleRevision ''production segment'' (IdOf i)
     else NotFound ''production segment'' (IdOf i))"

definition update_segment :: "production_segment \<Rightarrow> u64 \<Rightarrow> production_segment proof_tx" where
  "update_segment g expected =
     (let stored = g\<lparr>psg_revision := u64_saturating_add expected 1\<rparr>
      in tx_bind (update_segment_row stored expected) (\<lambda>n.
         tx_bind (tx_gets (\<lambda>s. stale_or_missing_segment s (psg_id stored))) (\<lambda>failure.
           tx_then (tx_ensure (n \<noteq> 0) failure) (tx_return stored))))"

definition update_segment_or_stale :: "production_segment \<Rightarrow> u64 \<Rightarrow> unit proof_tx" where
  "update_segment_or_stale stored expected =
     tx_bind (update_segment_row stored expected) (\<lambda>n.
       tx_ensure (n \<noteq> 0) (StaleRevision ''production segment'' (IdOf (psg_id stored))))"

definition update_segment_and_plan ::
  "production_segment \<Rightarrow> u64 \<Rightarrow> proofing_plan \<Rightarrow> u64 \<Rightarrow> production_segment proof_tx" where
  "update_segment_and_plan g expected_segment plan expected_plan =
     (let stored = g\<lparr>psg_revision := u64_saturating_add expected_segment 1\<rparr>
      in tx_then (update_segment_or_stale stored expected_segment)
        (tx_then (update_plan plan expected_plan) (tx_return stored)))"

definition insert_take :: "segment_take \<Rightarrow> unit proof_tx" where
  "insert_take t = insert_take_row t"

definition insert_take_and_select :: "segment_take \<Rightarrow> segment_selection \<Rightarrow> unit proof_tx" where
  "insert_take_and_select t l =
     tx_then (tx_ensure (ptk_segment_id t = psl_segment_id l \<and> ptk_id t = psl_take_id l)
        (InvalidData ''take selection does not match inserted take'' []))
    (tx_then (insert_take_row t)
    (tx_bind (tx_gets (\<lambda>s. Option.bind (find_selection s (psl_segment_id l))
          (\<lambda>r. if 0 \<le> rsl_revision r then Some (nat (rsl_revision r)) else None))) (\<lambda>current.
       upsert_selection (case current of
          Some n \<Rightarrow> l\<lparr>psl_revision := u64_saturating_add n 1\<rparr> | None \<Rightarrow> l))))"

definition list_takes :: "segment_id \<Rightarrow> segment_take list proof_tx" where
  "list_takes i = tx_gets (\<lambda>s. map rtk_payload
     (sort_key (\<lambda>r. - rtk_ordinal r) (filter (\<lambda>r. rtk_segment_id r = i) (pdb_takes s))))"

definition get_take :: "take_id \<Rightarrow> segment_take option proof_tx" where
  "get_take i = tx_gets (\<lambda>s. map_option rtk_payload (find (\<lambda>r. rtk_id r = i) (pdb_takes s)))"

definition get_selection :: "segment_id \<Rightarrow> segment_selection option proof_tx" where
  "get_selection i = tx_gets (\<lambda>s. map_option rsl_payload (find_selection s i))"

definition take_belongs :: "segment_selection \<Rightarrow> unit proof_tx" where
  "take_belongs l =
     tx_bind (tx_gets (\<lambda>s. rows_affected (\<lambda>r. rtk_id r = psl_take_id l \<and> rtk_segment_id r = psl_segment_id l)
         (pdb_takes s))) (\<lambda>n.
       tx_ensure (n = 1) (InvalidData ''selected take belongs to another segment'' []))"

definition update_selection_or_stale :: "segment_selection \<Rightarrow> u64 \<Rightarrow> unit proof_tx" where
  "update_selection_or_stale stored expected =
     tx_bind (update_selection_row stored expected) (\<lambda>n.
       tx_ensure (n \<noteq> 0) (StaleRevision ''segment selection'' (IdOf (psl_segment_id stored))))"

text \<open>The check and the update are two statements outside a transaction; rows of takes are never
  changed, so that nothing can come between them.\<close>

definition select_take :: "segment_selection \<Rightarrow> u64 \<Rightarrow> segment_selection proof_tx" where
  "select_take l expected =
     (let stored = l\<lparr>psl_revision := u64_saturating_add expected 1\<rparr>
      in tx_then (take_belongs l)
        (tx_then (update_selection_or_stale stored expected) (tx_return stored)))"

definition select_take_and_update_segment ::
  "segment_selection \<Rightarrow> u64 \<Rightarrow> production_segment \<Rightarrow> u64 \<Rightarrow> (segment_selection \<times> production_segment) proof_tx" where
  "select_take_and_update_segment l expected_selection g expected_segment =
     (let stored_selection = l\<lparr>psl_revision := u64_saturating_add expected_selection 1\<rparr>;
          stored_segment = g\<lparr>psg_revision := u64_saturating_add expected_segment 1\<rparr>
      in tx_then (tx_ensure (psl_segment_id l = psg_id g) (InvalidData ''selection and segment ids do not match'' []))
        (tx_then (take_belongs l)
        (tx_then (update_selection_or_stale stored_selection expected_selection)
        (tx_then (update_segment_or_stale stored_segment expected_segment)
          (tx_return (stored_selection, stored_segment))))))"

end
