(* ===== verification/Synthesis_Inputs.thy ===== *)
theory Synthesis_Inputs
  imports Proofing_Domain Service_Base
begin

text \<open>
  What a segment is synthesised from: the in-memory catalog, the voice and settings of its speaker
  (crates/service/src/conversion/planning.rs), the checks of settings and providers
  (crates/service/src/api/voices.rs, provider\_config.rs), the hash of the inputs
  (conversion/provider\_io.rs), and the plan of a segment that is already stored
  (conversion/proofing\_plan.rs).

  The record \<open>workbench\<close> is the catalog with what the code asks the database for projects and providers
  (answers of their repositories) and the libraries: text\_env of Speaker\_Segments, \<open>wb\_encode\<close>
  (serde\_json), \<open>wb\_lower\<close> (Unicode), \<open>wb\_decode\_id\<close> (UUIDs), \<open>wb\_render\<close> (\<open>to\_string\<close> of errors, derived by
  thiserror).
\<close>

section \<open>The catalog\<close>

record voice_assignment =
  va_provider_profile_id :: provider_id
  va_provider_name :: str
  va_voice_id :: uuid
  va_voice_name :: str
  va_model :: "str option"
  va_performance :: performance_settings
  va_timing :: timing_settings

record catalog_character =
  cch_id :: uuid
  cch_role :: character_role
  cch_canonical_name :: str
  cch_voice_assignment :: "voice_assignment option"

datatype provider_kind =
  ElevenlabsKind | MlxAudioKind | LocalaiKind | AlltalkV2Kind | PiperKind | NativeOsKind | OpenaiTtsKind
  | OpenaiKind | OpenaiCompatibleKind | AnthropicKind | GeminiKind | QwenKind | KimiKind | MoonshotKind
  | LmStudioKind | OllamaKind

datatype provider_role = TtsRole | LlmRole

datatype provider_status = Online | Offline | Starting | Stopping | ErrorStatus | Unconfigured

text \<open>The capabilities that synthesis asks for.\<close>

record provider_capabilities =
  pcp_tts :: bool
  pcp_model_performance :: "model_performance_capabilities list"

record provider_entry =
  pve_name :: str
  pve_kind :: provider_kind
  pve_role :: provider_role
  pve_mode :: provider_mode
  pve_endpoint :: "str option"
  pve_status :: provider_status
  pve_model :: "str option"
  pve_credential_configured :: bool
  pve_capabilities :: "provider_capabilities option"
  pve_capability_updated_at :: "time option"

text \<open>The stored profile of a provider (crates/core/src/providers.rs) and project.\<close>

record capability_snapshot =
  csn_id :: uuid
  csn_provider_version :: "str option"
  csn_recommended_concurrency :: "u16 option"

record stored_provider =
  spr_concurrency_override :: "u16 option"
  spr_capability_snapshot :: "capability_snapshot option"

definition effective_concurrency :: "stored_provider \<Rightarrow> u16" where
  "effective_concurrency p = max 1 (case or_else (spr_concurrency_override p)
       (Option.bind (spr_capability_snapshot p) csn_recommended_concurrency) of None \<Rightarrow> 1 | Some n \<Rightarrow> n)"

datatype project_status = Importing | Draft | NeedsCharacterReview | ReadyProject | Archived

record stored_project =
  spj_book_id :: uuid
  spj_language :: "str option"
  spj_consent_book_text :: bool
  spj_status :: project_status
  spj_character_reviewed_at :: "time option"

record 'rx workbench =
  wb_characters :: "project_id \<Rightarrow> catalog_character list option"
  wb_rules :: "pronunciation_rule list"
  wb_chapters :: "project_id \<Rightarrow> (chapter_id \<times> str) list option"
  wb_language :: "project_id \<Rightarrow> str option"
  wb_consent_cloud_text :: "project_id \<Rightarrow> bool"
  wb_voices :: "(uuid \<times> provider_id) list"
  wb_voice_sources :: "uuid \<Rightarrow> str option"
  wb_providers :: "provider_id \<Rightarrow> provider_entry option"
  wb_stored_project :: "project_id \<Rightarrow> storage_error + stored_project option"
  wb_stored_provider :: "provider_id \<Rightarrow> storage_error + stored_provider option"
  wb_text :: "'rx text_env"
  wb_encode :: "json \<Rightarrow> str"
  wb_lower :: "str \<Rightarrow> str"
  wb_decode_id :: "json \<Rightarrow> str + uuid"
  wb_render :: "service_error \<Rightarrow> str"

section \<open>Checks of settings and providers\<close>

definition validate_performance_value ::
  "str \<Rightarrow> fval option \<Rightarrow> performance_range option \<Rightarrow> service_error + unit" where
  "validate_performance_value name v r = (case v of
     None \<Rightarrow> Inr ()
   | Some x \<Rightarrow> if \<not> is_some_and r (\<lambda>r. range_contains r x)
       then Inl (InvalidRequest (name @ '' is not supported at this value by the selected model'')) else Inr ())"

definition check_all :: "(service_error + unit) list \<Rightarrow> service_error + unit" where
  "check_all rs = (case find isl rs of Some (Inl e) \<Rightarrow> Inl e | _ \<Rightarrow> Inr ())"

definition first_issue :: "performance_settings \<Rightarrow> timing_settings \<Rightarrow> service_error + unit" where
  "first_issue p t = (case (performance_issues p, timing_issues t) of
      (i # _, _) \<Rightarrow> Inl (InvalidRequest (vi_message i))
    | ([], i # _) \<Rightarrow> Inl (InvalidRequest (vi_message i))
    | ([], []) \<Rightarrow> Inr ())"

definition validate_voice_direction ::
  "performance_settings \<Rightarrow> timing_settings \<Rightarrow> str option \<Rightarrow> provider_capabilities option \<Rightarrow>
     service_error + unit" where
  "validate_voice_direction p t model capabilities = (case first_issue p t of
      Inl e \<Rightarrow> Inl e
    | Inr _ \<Rightarrow>
        if performance_is_empty p then Inr ()
        else (case model of
          None \<Rightarrow> Inl (InvalidRequest ''select an exact TTS model before setting performance controls'')
        | Some m \<Rightarrow> (case Option.bind capabilities (\<lambda>c. find (\<lambda>d. mp_model d = m) (pcp_model_performance c)) of
            None \<Rightarrow> Inl (InvalidRequest ''the selected provider model has no verified performance controls'')
          | Some d \<Rightarrow> (let c = mp_performance d in check_all
              [validate_performance_value ''speed'' (pf_speed p) (pc_speed c),
               validate_performance_value ''pitch'' (pf_pitch p) (pc_pitch c),
               validate_performance_value ''stability'' (pf_stability p) (pc_stability c),
               validate_performance_value ''similarity'' (pf_similarity p) (pc_similarity c),
               validate_performance_value ''style'' (pf_style p) (pc_style c),
               (if pf_speaker_boost p \<noteq> None \<and> \<not> pc_speaker_boost c
                then Inl (InvalidRequest ''speaker boost is not supported by the selected model'') else Inr ()),
               (if is_some_and (pf_delivery_cue p) (\<lambda>cue. cue \<notin> set (pc_delivery_cues c))
                then Inl (InvalidRequest ''the selected delivery cue is not supported by the selected model'')
                else Inr ())]))))"

definition validate_piper_voice_selection :: "provider_entry \<Rightarrow> str \<Rightarrow> str option \<Rightarrow> service_error + unit" where
  "validate_piper_voice_selection provider provider_voice_id assignment_model =
     (if pve_kind provider \<noteq> PiperKind then Inr ()
      else case pve_model provider of
        None \<Rightarrow> Inl (InvalidRequest ''the Piper connection has no verified selected voice'')
      | Some selected \<Rightarrow>
          if provider_voice_id \<noteq> selected \<or> is_some_and assignment_model (\<lambda>m. m \<noteq> selected)
          then Inl (InvalidRequest (''the assigned Piper voice must exactly match the connection'' @ [CHR 0x27]
            @ ''s selected model''))
          else Inr ())"

text \<open>A name in single quotes.\<close>

definition quoted :: "str \<Rightarrow> str" where "quoted s = [CHR 0x27] @ s @ [CHR 0x27]"

definition day_of_nanos :: int where "day_of_nanos = 24 * 3600 * 1000000000"

definition provider_capabilities_are_fresh :: "time \<Rightarrow> provider_entry \<Rightarrow> bool" where
  "provider_capabilities_are_fresh now p \<longleftrightarrow>
     is_some_and (pve_capability_updated_at p) (\<lambda>observed. observed + day_of_nanos > now)"

definition validate_billable_tts_provider_readiness :: "time \<Rightarrow> provider_entry \<Rightarrow> service_error + unit" where
  "validate_billable_tts_provider_readiness now p =
     (if pve_role p \<noteq> TtsRole \<or> \<not> provider_capabilities_are_fresh now p
        \<or> \<not> is_some_and (pve_capabilities p) pcp_tts
      then Inl (ResourceConflict (Formatted ''refresh provider {} to verify its current TTS capability'' [quoted (pve_name p)]))
      else if pve_status p \<noteq> Online
      then Inl (ResourceConflict (Formatted ''provider {} must be online before paid synthesis'' [quoted (pve_name p)]))
      else if pve_mode p = CloudRemote \<and> \<not> pve_credential_configured p
      then Inl (ResourceConflict
        (Formatted ''configure a credential for cloud provider {} before paid synthesis'' [quoted (pve_name p)]))
      else Inr ())"

section \<open>The voices of the speakers\<close>

text \<open>\<open>SpeakerAssignment\<close> without the character, which is in speaker\_assignment.\<close>

record assigned_voice =
  av_provider_id :: provider_id
  av_provider_name :: str
  av_provider_kind :: provider_kind
  av_provider_role :: "provider_role option"
  av_provider_mode :: "provider_mode option"
  av_provider_endpoint :: "str option"
  av_provider_snapshot_id :: "uuid option"
  av_provider_version :: "str option"
  av_provider_concurrency :: u16
  av_voice_id :: uuid
  av_voice_source :: str
  av_voice_name :: str
  av_model :: "str option"
  av_performance :: performance_settings
  av_timing :: timing_settings

text \<open>Dispatch reads the clock, to see how old the capabilities are.\<close>

datatype assignment_purpose = Semantic | Dispatch time

definition dispatch_ready :: "assignment_purpose \<Rightarrow> stored_project \<Rightarrow> provider_entry \<Rightarrow> service_error + unit" where
  "dispatch_ready purpose project provider = (case purpose of
     Semantic \<Rightarrow> Inr ()
   | Dispatch now \<Rightarrow> (case validate_billable_tts_provider_readiness now provider of
       Inl e \<Rightarrow> Inl e
     | Inr _ \<Rightarrow>
         if pve_mode provider = CloudRemote \<and> \<not> spj_consent_book_text project
         then Inl (ResourceConflict
           (Formatted ''grant project consent before sending book text to {}'' [pve_name provider]))
         else Inr ()))"

definition direction_ready ::
  "assignment_purpose \<Rightarrow> voice_assignment \<Rightarrow> str option \<Rightarrow> provider_entry \<Rightarrow> service_error + unit" where
  "direction_ready purpose a model provider = (case purpose of
     Dispatch _ \<Rightarrow> validate_voice_direction (va_performance a) (va_timing a) model (pve_capabilities provider)
   | Semantic \<Rightarrow> first_issue (va_performance a) (va_timing a))"

text \<open>\<open>?\<close> on a result.\<close>

definition and_then :: "'e + 'a \<Rightarrow> ('a \<Rightarrow> 'e + 'b) \<Rightarrow> 'e + 'b" where
  "and_then r f = (case r of Inl e \<Rightarrow> Inl e | Inr a \<Rightarrow> f a)"

definition ok_or :: "'a option \<Rightarrow> 'e \<Rightarrow> 'e + 'a" where
  "ok_or x e = (case x of None \<Rightarrow> Inl e | Some a \<Rightarrow> Inr a)"

definition from_storage :: "storage_error + 'a \<Rightarrow> service_error + 'a" where
  "from_storage r = map_sum (\<lambda>e. StorageFailure (OfStorage e)) id r"

text \<open>One turn of the loop of \<open>build\_assignments\_for\<close>.\<close>

definition assign_voice ::
  "'rx workbench \<Rightarrow> assignment_purpose \<Rightarrow> stored_project \<Rightarrow> catalog_character \<Rightarrow>
     service_error + assigned_voice speaker_assignment" where
  "assign_voice wb purpose project c =
     and_then (ok_or (cch_voice_assignment c)
       (ResourceConflict (Formatted ''assign a voice to {} before conversion'' [quoted (cch_canonical_name c)]))) (\<lambda>a.
     and_then (ok_or (wb_providers wb (va_provider_profile_id a))
       (ResourceConflict (Formatted ''the provider assigned to {} no longer exists'' [quoted (cch_canonical_name c)]))) (\<lambda>provider.
     and_then (dispatch_ready purpose project provider) (\<lambda>_.
     and_then (ok_or (wb_voice_sources wb (va_voice_id a))
       (ResourceConflict (Formatted ''the voice assigned to {} is no longer available'' [quoted (cch_canonical_name c)]))) (\<lambda>source.
     and_then (validate_piper_voice_selection provider source (va_model a)) (\<lambda>_.
     and_then (from_storage (wb_stored_provider wb (va_provider_profile_id a))) (\<lambda>stored.
     let snapshot = Option.bind stored spr_capability_snapshot;
         model = or_else (va_model a) (pve_model provider)
     in and_then (direction_ready purpose a model provider) (\<lambda>_.
        Inr \<lparr>sa_character_id = cch_id c, sa_character_name = cch_canonical_name c,
          sa_voice = \<lparr>av_provider_id = va_provider_profile_id a, av_provider_name = pve_name provider,
            av_provider_kind = pve_kind provider, av_provider_role = Some (pve_role provider),
            av_provider_mode = Some (pve_mode provider), av_provider_endpoint = pve_endpoint provider,
            av_provider_snapshot_id = map_option csn_id snapshot,
            av_provider_version = Option.bind snapshot csn_provider_version,
            av_provider_concurrency = (case stored of None \<Rightarrow> 1 | Some p \<Rightarrow> effective_concurrency p),
            av_voice_id = va_voice_id a, av_voice_source = source, av_voice_name = va_voice_name a,
            av_model = model, av_performance = va_performance a, av_timing = va_timing a\<rparr>\<rparr>)))))))"

fun build_assignments_for ::
  "'rx workbench \<Rightarrow> assignment_purpose \<Rightarrow> stored_project \<Rightarrow> catalog_character list \<Rightarrow> assigned_voice assignments \<Rightarrow>
     service_error + assigned_voice assignments" where
  "build_assignments_for wb purpose project [] result = Inr result"
| "build_assignments_for wb purpose project (c # cs) result =
     and_then (assign_voice wb purpose project c)
       (\<lambda>a. build_assignments_for wb purpose project cs (btree_insert (cch_id c) a result))"

section \<open>The hash of the inputs\<close>

definition normalization_version :: str where "normalization_version = ''48k-flac-segment-v1''"

definition cue_text :: "delivery_cue \<Rightarrow> str" where
  "cue_text c = (case c of Whisper \<Rightarrow> ''whisper'' | Shout \<Rightarrow> ''shout'' | Sarcastic \<Rightarrow> ''sarcastic'' | Curious \<Rightarrow> ''curious''
     | Excited \<Rightarrow> ''excited'' | Crying \<Rightarrow> ''crying'' | Mischievous \<Rightarrow> ''mischievous'')"

text \<open>JSON of the settings: fields without a value are skipped.\<close>

definition json_member :: "str \<Rightarrow> ('a \<Rightarrow> json) \<Rightarrow> 'a option \<Rightarrow> (str \<times> json) list" where
  "json_member k f v = (case v of None \<Rightarrow> [] | Some x \<Rightarrow> [(k, f x)])"

definition performance_json :: "performance_settings \<Rightarrow> json" where
  "performance_json p = JObj (json_member ''speed'' JNum (pf_speed p) @ json_member ''pitch'' JNum (pf_pitch p)
     @ json_member ''stability'' JNum (pf_stability p) @ json_member ''similarity'' JNum (pf_similarity p)
     @ json_member ''style'' JNum (pf_style p) @ json_member ''speaker_boost'' JBool (pf_speaker_boost p)
     @ json_member ''delivery_cue'' (\<lambda>c. JStr (cue_text c)) (pf_delivery_cue p))"

definition timing_json :: "timing_settings \<Rightarrow> json" where
  "timing_json t = JObj (json_member ''pause_before_ms'' (\<lambda>n. JNum (Finite (of_nat n))) (ti_pause_before_ms t)
     @ json_member ''pause_after_ms'' (\<lambda>n. JNum (Finite (of_nat n))) (ti_pause_after_ms t))"

definition json_opt :: "str option \<Rightarrow> json" where
  "json_opt v = (case v of None \<Rightarrow> JNull | Some s \<Rightarrow> JStr s)"

definition semantic_input_hash ::
  "'rx workbench \<Rightarrow> str \<Rightarrow> str option \<Rightarrow> provider_id \<Rightarrow> str option \<Rightarrow> uuid \<Rightarrow> str \<Rightarrow> performance_settings \<Rightarrow> str" where
  "semantic_input_hash wb text ctx provider model voice dictionary_revision performance =
     te_hash (wb_text wb) [wb_encode wb (JObj
       [(''schemaVersion'', JNum (Finite 1)), (''text'', JStr text), (''context'', json_opt ctx),
        (''providerProfileId'', JStr (te_uuid_text (wb_text wb) provider)), (''model'', json_opt model),
        (''voiceProfileId'', JStr (te_uuid_text (wb_text wb) voice)),
        (''dictionaryRevision'', JStr dictionary_revision), (''normalizationVersion'', JStr normalization_version),
        (''performance'', performance_json performance)])]"

definition segment_semantic_input_hash :: "'rx workbench \<Rightarrow> assigned_voice segment_plan \<Rightarrow> str" where
  "segment_semantic_input_hash wb g = semantic_input_hash wb (sg_text g) (sg_context g)
     (av_provider_id (sa_voice (sg_assignment g))) (av_model (sa_voice (sg_assignment g)))
     (av_voice_id (sa_voice (sg_assignment g))) (sg_dictionary_revision g)
     (av_performance (sa_voice (sg_assignment g)))"

section \<open>The plan of a stored segment\<close>

definition effective_timing :: "timing_settings \<Rightarrow> timing_settings \<Rightarrow> timing_settings" where
  "effective_timing override assigned =
     \<lparr>ti_pause_before_ms = or_else (ti_pause_before_ms override) (ti_pause_before_ms assigned),
      ti_pause_after_ms = or_else (ti_pause_after_ms override) (ti_pause_after_ms assigned)\<rparr>"

definition planned_speaker_id :: "speaker \<Rightarrow> catalog_character list \<Rightarrow> service_error + uuid" where
  "planned_speaker_id speaker characters = (case speaker of
     CharacterSpeaker i \<Rightarrow> Inr i
   | NarratorSpeaker \<Rightarrow> ok_or (map_option cch_id (find (\<lambda>c. cch_role c = NarratorRole) characters))
       (ResourceConflict (Plain ''the narrator is unavailable''))
   | NamedSpeaker name \<Rightarrow>
       ok_or (map_option cch_id (find (\<lambda>c. eq_ignore_ascii_case (cch_canonical_name c) name) characters))
         (ResourceConflict (Plain ''the segment speaker is unavailable'')))"

definition chapter_title :: "'rx workbench \<Rightarrow> project_id \<Rightarrow> chapter_id option \<Rightarrow> str" where
  "chapter_title wb project chapter =
     (case Option.bind chapter (\<lambda>i. Option.bind (wb_chapters wb project)
         (\<lambda>cs. map_option snd (find (\<lambda>e. fst e = i) cs))) of
        None \<Rightarrow> ''Production credit'' | Some title \<Rightarrow> title)"

definition load_proofing_segment_plan_for ::
  "'rx workbench \<Rightarrow> assignment_purpose \<Rightarrow> project_id \<Rightarrow> production_segment \<Rightarrow>
     service_error + assigned_voice segment_plan" where
  "load_proofing_segment_plan_for wb purpose project_id g =
     and_then (from_storage (wb_stored_project wb project_id)) (\<lambda>found.
     and_then (ok_or found ResourceNotFound) (\<lambda>project.
     let characters = (case wb_characters wb project_id of None \<Rightarrow> [] | Some cs \<Rightarrow> cs)
     in and_then (planned_speaker_id (psg_speaker g) characters) (\<lambda>character_id.
     and_then (ok_or (find (\<lambda>c. cch_id c = character_id) characters)
       (ResourceConflict (Plain ''the segment speaker is unavailable''))) (\<lambda>c.
     and_then (build_assignments_for wb purpose project [c] []) (\<lambda>assignments.
     and_then (ok_or (map_of assignments character_id)
       (ResourceConflict (Plain ''the segment speaker has no voice''))) (\<lambda>assignment.
     let voice = sa_voice assignment;
         voice = voice\<lparr>av_performance := performance_overlay (av_performance voice) (psg_performance_override g),
           av_timing := effective_timing (psg_timing_override g) (av_timing voice)\<rparr>;
         base_text = (case psg_narration_text_override g of Some t \<Rightarrow> t | None \<Rightarrow> psg_original_text g)
     in and_then (apply_pronunciation_rules (wb_text wb) base_text (wb_rules wb) project_id character_id
          (spj_language project)) (\<lambda>(text, applied, revision).
     and_then (ok_or (psg_chapter_id g)
       (ResourceConflict (Plain ''credit regeneration is not available yet''))) (\<lambda>chapter.
     and_then (ok_or (psg_paragraph_id g)
       (ResourceConflict (Plain ''segment source is unavailable''))) (\<lambda>paragraph_id.
       Inr \<lparr>sg_id = psg_id g, sg_proofing = True, sg_key = psg_stable_key g, sg_chapter_id = chapter,
         sg_paragraph_id = paragraph_id, sg_source_content_hash = psg_source_content_hash g,
         sg_byte_start = (case psg_byte_start g of None \<Rightarrow> 0 | Some n \<Rightarrow> n),
         sg_byte_end = (case psg_byte_end g of None \<Rightarrow> 0 | Some n \<Rightarrow> n),
         sg_chapter_title = chapter_title wb project_id (psg_chapter_id g), sg_segment_ordinal = psg_ordinal g,
         sg_playback_ordinal = psg_ordinal g, sg_original_text = psg_original_text g, sg_text = text,
         sg_context = context_of (psg_context_before g) (psg_context_after g),
         sg_assignment = assignment\<lparr>sa_voice := voice\<rparr>, sg_applied_rule_ids = applied,
         sg_dictionary_revision = revision\<rparr>)))))))))"

definition load_proofing_segment_plan ::
  "'rx workbench \<Rightarrow> project_id \<Rightarrow> production_segment \<Rightarrow> service_error + assigned_voice segment_plan" where
  "load_proofing_segment_plan wb = load_proofing_segment_plan_for wb Semantic"

definition load_dispatchable_proofing_segment_plan ::
  "'rx workbench \<Rightarrow> time \<Rightarrow> project_id \<Rightarrow> production_segment \<Rightarrow> service_error + assigned_voice segment_plan" where
  "load_dispatchable_proofing_segment_plan wb now = load_proofing_segment_plan_for wb (Dispatch now)"

section \<open>The boundary of a dispatch\<close>

text \<open>What is checked again right before book text leaves the machine.\<close>

definition changed :: "str \<Rightarrow> provider_error" where
  "changed what = PConfiguration (what @ '' changed after this job was admitted'')"

definition validate_segment_dispatch_boundary ::
  "'rx workbench \<Rightarrow> time \<Rightarrow> (storage_error \<Rightarrow> str) \<Rightarrow> project_id \<Rightarrow> assigned_voice segment_plan \<Rightarrow> provider_error + unit" where
  "validate_segment_dispatch_boundary wb now storage_text project g =
     (let voice = sa_voice (sg_assignment g);
          rendered = map_sum (\<lambda>e. PConfiguration (wb_render wb e)) id
      in and_then (ok_or (wb_providers wb (av_provider_id voice)) (PConfiguration ''TTS provider was removed'')) (\<lambda>profile.
         and_then (rendered (validate_billable_tts_provider_readiness now profile)) (\<lambda>_.
         if pve_kind profile \<noteq> av_provider_kind voice \<or> pve_role profile \<noteq> TtsRole
           \<or> is_some_and (av_provider_role voice) (\<lambda>role. role \<noteq> pve_role profile)
           \<or> Some (pve_mode profile) \<noteq> av_provider_mode voice \<or> pve_endpoint profile \<noteq> av_provider_endpoint voice
         then Inl (changed ''TTS provider routing'')
         else if pve_mode profile = CloudRemote \<and> \<not> wb_consent_cloud_text wb project
         then Inl (PConfiguration ''cloud-text consent is not active for this dispatch'')
         else if \<not> list_ex (\<lambda>v. v = (av_voice_id voice, av_provider_id voice)) (wb_voices wb)
           \<or> wb_voice_sources wb (av_voice_id voice) \<noteq> Some (av_voice_source voice)
         then Inl (changed ''the selected provider voice'')
         else and_then (rendered (validate_voice_direction (av_performance voice) (av_timing voice) (av_model voice)
             (pve_capabilities profile))) (\<lambda>_.
           and_then (map_sum (\<lambda>e. PProcess (storage_text e)) id (wb_stored_provider wb (av_provider_id voice))) (\<lambda>stored.
             let current = Option.bind stored (\<lambda>p. map_option csn_id (spr_capability_snapshot p))
             in if av_provider_snapshot_id voice = None \<or> current \<noteq> av_provider_snapshot_id voice
             then Inl (changed ''TTS provider capability or credential snapshot'')
             else Inr ())))))"

end
