(* ===== verification/Proofing_Service.thy ===== *)
theory Proofing_Service
  imports Proofing_Repository Service_Transactions Synthesis_Inputs
begin

text \<open>
  The proofing workbench of the service: the handlers of crates/service/src/proofing.rs that read and
  change segments, reviews and selections, and what the conversion adds to it - the plan of a new
  conversion (conversion/proofing\_plan.rs), the take of a finished synthesis unit
  (conversion/synthesis.rs), the end of a conversion (conversion/worker.rs) and the selections of a
  proof export (conversion/admission.rs). Handlers that change a project hold its lock from their first
  read to their last write, so each is one operation here. Events and the lifecycle lock itself are left
  out.
\<close>

type_synonym 'a proof_svc = "(proof_db, 'a) svc_on"

section \<open>Errors\<close>

definition proof_conflict :: "str \<Rightarrow> str \<Rightarrow> service_error" where
  "proof_conflict code message = ConflictDetails code message (JObj [])"

definition stale_segment :: "'rx workbench \<Rightarrow> segment_id \<Rightarrow> u64 \<Rightarrow> service_error" where
  "stale_segment wb i current = ConflictDetails ''stale_segment_revision''
     ''the segment changed since it was loaded''
     (JObj [(''segmentId'', JStr (te_uuid_text (wb_text wb) i)), (''currentRevision'', JNum (Finite (of_nat current)))])"

definition entity_text :: "'rx workbench \<Rightarrow> entity_id \<Rightarrow> str" where
  "entity_text wb i = (case i of IdOf u \<Rightarrow> te_uuid_text (wb_text wb) u | IdText t \<Rightarrow> t)"

definition map_storage_conflict :: "'rx workbench \<Rightarrow> storage_error \<Rightarrow> service_error" where
  "map_storage_conflict wb e = (case e of
     StaleRevision entity i \<Rightarrow> ConflictDetails ''stale_revision''
       (''stale '' @ entity @ '' revision for '' @ entity_text wb i)
       (JObj [(''entity'', JStr entity), (''id'', JStr (entity_text wb i))])
   | _ \<Rightarrow> as_storage e)"

section \<open>Guards\<close>

definition owned_segment :: "project_id \<Rightarrow> segment_id \<Rightarrow> production_segment proof_svc" where
  "owned_segment project i =
     svc_bind (svc_call as_storage (get_segment i)) (\<lambda>found.
     svc_bind (svc_some found ResourceNotFound) (\<lambda>g.
       svc_then (svc_ensure (psg_project_id g = project \<and> psg_active g) ResourceNotFound) (svc_return g)))"

definition ensure_proof_mutable :: "project_id \<Rightarrow> proofing_plan proof_svc" where
  "ensure_proof_mutable project =
     svc_bind (svc_call as_storage (get_plan project)) (\<lambda>found.
     svc_bind (svc_some found
         (proof_conflict ''proofing_unavailable'' ''start a new conversion to create proofing data'')) (\<lambda>plan.
     svc_bind (svc_call as_storage (on_db (job_get (ppl_source_conversion_job_id plan)))) (\<lambda>found_job.
     svc_bind (svc_some found_job
         (proof_conflict ''conversion_missing'' ''the source conversion job is unavailable'')) (\<lambda>j.
       svc_then (svc_ensure (j_state j = Paused \<or> is_terminal (j_state j))
           (proof_conflict ''conversion_active'' ''pause or finish the conversion before changing proofing data''))
         (svc_return plan)))))"

text \<open>The queries for a running job. No statement changes the kind of a job, so the column \<open>kind\<close> is the
  kind in the payload; of several such jobs the first by unit is named.\<close>

definition active_of_kind :: "job_kind \<Rightarrow> job_row \<Rightarrow> bool" where
  "active_of_kind kind r \<longleftrightarrow> j_kind (jr_payload r) = kind \<and> \<not> is_terminal (jr_state r)"

definition active_regeneration :: "proof_db \<Rightarrow> segment_id \<Rightarrow> job_id option" where
  "active_regeneration s i = map_option un_job_id (find (\<lambda>u. un_proof_segment_id u = Some i
     \<and> list_ex (\<lambda>r. jr_id r = un_job_id u \<and> active_of_kind SegmentRegeneration r) (db_jobs (pdb_base s)))
       (db_units (pdb_base s)))"

definition active_proof_export :: "proof_db \<Rightarrow> project_id \<Rightarrow> job_id option" where
  "active_proof_export s project = map_option jr_id
     (find (\<lambda>r. jr_project_id r = project \<and> active_of_kind Export r) (db_jobs (pdb_base s)))"

definition ensure_no_active_regeneration :: "'rx workbench \<Rightarrow> segment_id \<Rightarrow> unit proof_svc" where
  "ensure_no_active_regeneration wb i =
     svc_bind (svc_gets (\<lambda>s. active_regeneration s i)) (\<lambda>found. case found of
       None \<Rightarrow> svc_return ()
     | Some j \<Rightarrow> svc_fail (ConflictDetails ''active_segment_regeneration''
         ''wait for the active regeneration before changing this segment''
         (JObj [(''activeJobId'', JStr (te_uuid_text (wb_text wb) j)), (''segmentId'', JStr (te_uuid_text (wb_text wb) i))])))"

definition ensure_no_active_proof_export :: "'rx workbench \<Rightarrow> project_id \<Rightarrow> unit proof_svc" where
  "ensure_no_active_proof_export wb project =
     svc_bind (svc_gets (\<lambda>s. active_proof_export s project)) (\<lambda>found. case found of
       None \<Rightarrow> svc_return ()
     | Some j \<Rightarrow> svc_fail (ConflictDetails ''active_proof_export''
         ''wait for the active proofing export before changing proofing data''
         (JObj [(''activeJobId'', JStr (te_uuid_text (wb_text wb) j)), (''projectId'', JStr (te_uuid_text (wb_text wb) project))])))"

section \<open>Views\<close>

record proofing_segment_view =
  psv_segment :: production_segment
  psv_selection :: "segment_selection option"
  psv_selected_take :: "segment_take option"
  psv_take_count :: usize
  psv_selected_take_current :: bool
  psv_audio_url :: "str option"

definition inputs_current :: "'rx workbench \<Rightarrow> production_segment \<Rightarrow> bool" where
  "inputs_current wb g = (case load_proofing_segment_plan wb (psg_project_id g) g of
     Inl _ \<Rightarrow> False | Inr plan \<Rightarrow> segment_semantic_input_hash wb plan = psg_expected_input_hash g)"

definition segment_view :: "'rx workbench \<Rightarrow> production_segment \<Rightarrow> proofing_segment_view proof_svc" where
  "segment_view wb g =
     svc_bind (svc_call as_storage (get_selection (psg_id g))) (\<lambda>selection.
     svc_bind (case selection of None \<Rightarrow> svc_return None
        | Some l \<Rightarrow> svc_call as_storage (get_take (psl_take_id l))) (\<lambda>take.
     svc_bind (svc_call as_storage (list_takes (psg_id g))) (\<lambda>takes.
       svc_return \<lparr>psv_segment = g, psv_selection = selection, psv_selected_take = take,
         psv_take_count = length takes,
         psv_selected_take_current = (inputs_current wb g
           \<and> is_some_and take (\<lambda>t. ptk_semantic_input_hash t = psg_expected_input_hash g)),
         psv_audio_url = map_option (\<lambda>t. ''/api/v1/artifacts/'' @ te_uuid_text (wb_text wb) (ptk_artifact_id t)) take\<rparr>)))"

record proofing_counts =
  pco_total :: usize
  pco_unreviewed :: usize
  pco_flagged :: usize
  pco_approved :: usize
  pco_locked :: usize
  pco_stale :: usize
  pco_missing :: usize

definition empty_counts :: proofing_counts where
  "empty_counts = \<lparr>pco_total = 0, pco_unreviewed = 0, pco_flagged = 0, pco_approved = 0, pco_locked = 0,
     pco_stale = 0, pco_missing = 0\<rparr>"

definition count_review :: "segment_review_state \<Rightarrow> proofing_counts \<Rightarrow> proofing_counts" where
  "count_review st c = (case st of
     Unreviewed \<Rightarrow> c\<lparr>pco_unreviewed := u64_saturating_add (pco_unreviewed c) 1\<rparr>
   | Flagged \<Rightarrow> c\<lparr>pco_flagged := u64_saturating_add (pco_flagged c) 1\<rparr>
   | Approved \<Rightarrow> c\<lparr>pco_approved := u64_saturating_add (pco_approved c) 1\<rparr>
   | Locked \<Rightarrow> c\<lparr>pco_locked := u64_saturating_add (pco_locked c) 1\<rparr>)"

definition count_view :: "proofing_segment_view \<Rightarrow> proofing_counts \<Rightarrow> proofing_counts" where
  "count_view v c =
     (let c = count_review (psg_review_state (psv_segment v)) (c\<lparr>pco_total := u64_saturating_add (pco_total c) 1\<rparr>)
      in if psv_selected_take v = None then c\<lparr>pco_missing := u64_saturating_add (pco_missing c) 1\<rparr>
      else if \<not> psv_selected_take_current v then c\<lparr>pco_stale := u64_saturating_add (pco_stale c) 1\<rparr>
      else c)"

fun analyze_segments ::
  "'rx workbench \<Rightarrow> production_segment list \<Rightarrow> proofing_counts \<times> proofing_segment_view list \<Rightarrow>
     (proofing_counts \<times> proofing_segment_view list) proof_svc" where
  "analyze_segments wb [] acc = svc_return acc"
| "analyze_segments wb (g # gs) acc =
     svc_bind (segment_view wb g) (\<lambda>v. analyze_segments wb gs (count_view v (fst acc), snd acc @ [v]))"

text \<open>The summary: \<open>chapter\_counts\<close> counts segments and issues per chapter.\<close>

record proofing_chapter_view =
  pcv_id :: chapter_id
  pcv_title :: str
  pcv_total :: usize
  pcv_issue_count :: usize

record proofing_summary_view =
  psu_available :: bool
  psu_requires_new_conversion :: bool
  psu_plan :: "proofing_plan option"
  psu_counts :: proofing_counts
  psu_chapters :: "proofing_chapter_view list"
  psu_retailer_export_ready :: bool
  psu_generic_export_ready :: bool

definition has_issue :: "proofing_segment_view \<Rightarrow> bool" where
  "has_issue v \<longleftrightarrow> \<not> psv_selected_take_current v \<or> psv_selected_take v = None
     \<or> \<not> is_none_or (psv_selected_take v) (\<lambda>t. ptk_findings t = [])"

definition count_chapter ::
  "proofing_segment_view \<Rightarrow> (chapter_id \<times> usize \<times> usize) list \<Rightarrow> (chapter_id \<times> usize \<times> usize) list" where
  "count_chapter v m = (case psg_chapter_id (psv_segment v) of
     None \<Rightarrow> m
   | Some c \<Rightarrow> (let (n, issues) = (case map_of m c of None \<Rightarrow> (0, 0) | Some e \<Rightarrow> e)
       in btree_insert c (u64_saturating_add n 1, if has_issue v then u64_saturating_add issues 1 else issues) m))"

fun chapter_views :: "(chapter_id \<times> str) list \<Rightarrow> (chapter_id \<times> usize \<times> usize) list \<Rightarrow> proofing_chapter_view list" where
  "chapter_views [] m = []"
| "chapter_views ((i, title) # cs) m = (case map_of m i of
     None \<Rightarrow> chapter_views cs m
   | Some (n, issues) \<Rightarrow> \<lparr>pcv_id = i, pcv_title = title, pcv_total = n, pcv_issue_count = issues\<rparr>
       # chapter_views cs (filter (\<lambda>e. fst e \<noteq> i) m))"

definition ensure_project_exists :: "'rx workbench \<Rightarrow> project_id \<Rightarrow> unit proof_svc" where
  "ensure_project_exists wb project = svc_ensure (wb_chapters wb project \<noteq> None) ResourceNotFound"

definition get_summary :: "'rx workbench \<Rightarrow> project_id \<Rightarrow> proofing_summary_view proof_svc" where
  "get_summary wb project =
     svc_then (ensure_project_exists wb project)
    (svc_bind (svc_call as_storage (get_plan project)) (\<lambda>found. case found of
       None \<Rightarrow> svc_return \<lparr>psu_available = False, psu_requires_new_conversion = True, psu_plan = None,
         psu_counts = empty_counts, psu_chapters = [], psu_retailer_export_ready = False,
         psu_generic_export_ready = False\<rparr>
     | Some plan \<Rightarrow>
         svc_bind (svc_call as_storage (list_active_segments project None)) (\<lambda>segments.
         svc_bind (analyze_segments wb segments (empty_counts, [])) (\<lambda>(counts, views).
         svc_bind (svc_some (wb_chapters wb project) ResourceNotFound) (\<lambda>chapters.
           let no_hard_blockers = (pco_flagged counts = 0 \<and> pco_stale counts = 0 \<and> pco_missing counts = 0);
               ready = (ppl_status plan = PlanReady)
           in svc_return \<lparr>psu_available = True, psu_requires_new_conversion = False, psu_plan = Some plan,
             psu_counts = counts, psu_chapters = chapter_views chapters (fold count_chapter views []),
             psu_retailer_export_ready = (no_hard_blockers \<and> pco_unreviewed counts = 0
               \<and> list_all (\<lambda>g. is_accepted (psg_review_state g)) segments \<and> ready),
             psu_generic_export_ready = (no_hard_blockers \<and> ready)\<rparr>)))))"

record segment_query =
  sq_chapter_id :: "chapter_id option"
  sq_state :: "segment_review_state option"
  sq_issues_only :: "bool option"
  sq_stale_only :: "bool option"
  sq_search :: "str option"
  sq_cursor :: "usize option"
  sq_limit :: "usize option"

definition search_text :: "segment_query \<Rightarrow> str option" where
  "search_text q = Option.bind (map_option str_trim (sq_search q)) (\<lambda>v. if v = [] then None else Some v)"

definition keep_view :: "'rx workbench \<Rightarrow> segment_query \<Rightarrow> proofing_segment_view \<Rightarrow> bool" where
  "keep_view wb q v \<longleftrightarrow>
     is_none_or (sq_state q) (\<lambda>st. psg_review_state (psv_segment v) = st)
     \<and> (sq_issues_only q = Some True \<longrightarrow> is_some_and (psv_selected_take v) (\<lambda>t. ptk_findings t \<noteq> []))
     \<and> (sq_stale_only q = Some True \<longrightarrow> \<not> psv_selected_take_current v)
     \<and> is_none_or (search_text q) (\<lambda>text. let search = wb_lower wb text in
         str_contains (wb_lower wb (psg_original_text (psv_segment v))) search
         \<or> str_contains (wb_lower wb (psg_effective_text (psv_segment v))) search)"

record 'a page =
  pg_items :: "'a list"
  pg_total :: usize
  pg_next_cursor :: "str option"

definition page_limit :: "usize option \<Rightarrow> usize" where
  "page_limit l = max 1 (min 250 (case l of None \<Rightarrow> 100 | Some n \<Rightarrow> n))"

definition page_start :: "usize option \<Rightarrow> usize \<Rightarrow> usize" where
  "page_start cursor n = min (case cursor of None \<Rightarrow> 0 | Some c \<Rightarrow> c) n"

definition page_end :: "usize option \<Rightarrow> usize option \<Rightarrow> usize \<Rightarrow> usize" where
  "page_end cursor l n = min (u64_saturating_add (page_start cursor n) (page_limit l)) n"

definition page_of :: "usize option \<Rightarrow> usize option \<Rightarrow> 'a list \<Rightarrow> 'a page" where
  "page_of cursor l items =
     (let n = length items;
          start = page_start cursor n;
          end_at = page_end cursor l n
      in \<lparr>pg_items = take (end_at - start) (drop start items), pg_total = n,
          pg_next_cursor = (if end_at < n then Some (nat_text end_at) else None)\<rparr>)"

definition list_segments :: "'rx workbench \<Rightarrow> project_id \<Rightarrow> segment_query \<Rightarrow> proofing_segment_view page proof_svc" where
  "list_segments wb project q =
     svc_then (ensure_project_exists wb project)
    (svc_bind (svc_call as_storage (get_plan project)) (\<lambda>found.
     svc_bind (svc_some found
         (proof_conflict ''proofing_unavailable'' ''start a new conversion to create a proofing plan'')) (\<lambda>plan.
     svc_bind (svc_call as_storage (list_active_segments project (sq_chapter_id q))) (\<lambda>segments.
     svc_bind (analyze_segments wb segments (empty_counts, [])) (\<lambda>(counts, items).
       svc_return (page_of (sq_cursor q) (sq_limit q) (filter (keep_view wb q) items)))))))"

section \<open>Editing a segment\<close>

definition speaker_of :: "speaker \<Rightarrow> catalog_character list \<Rightarrow> catalog_character option" where
  "speaker_of speaker characters = (case speaker of
     CharacterSpeaker i \<Rightarrow> find (\<lambda>c. cch_id c = i) characters
   | NarratorSpeaker \<Rightarrow> find (\<lambda>c. cch_role c = NarratorRole) characters
   | NamedSpeaker name \<Rightarrow> find (\<lambda>c. eq_ignore_ascii_case (cch_canonical_name c) name) characters)"

definition synthesis_context ::
  "'rx workbench \<Rightarrow> project_id \<Rightarrow> production_segment \<Rightarrow>
     service_error + uuid \<times> voice_assignment \<times> pronunciation_rule list \<times> str option" where
  "synthesis_context wb project g = (case wb_characters wb project of
     None \<Rightarrow> Inl ResourceNotFound
   | Some characters \<Rightarrow> (case speaker_of (psg_speaker g) characters of
       None \<Rightarrow> Inl (proof_conflict ''speaker_missing'' ''the segment speaker is no longer available'')
     | Some c \<Rightarrow> (case cch_voice_assignment c of
         None \<Rightarrow> Inl (proof_conflict ''voice_missing'' ''assign a voice before editing narration text'')
       | Some a \<Rightarrow> Inr (cch_id c, a, wb_rules wb, wb_language wb project))))"

record segment_update_input =
  su_expected_revision :: u64
  su_text_override :: "str option"
  su_clear_text_override :: bool
  su_performance_override :: "performance_settings option"
  su_timing_override :: "timing_settings option"

definition apply_segment_input ::
  "segment_update_input \<Rightarrow> production_segment \<Rightarrow> service_error + production_segment" where
  "apply_segment_input input g =
     (if \<not> su_clear_text_override input \<and> su_text_override input = None
        \<and> su_performance_override input = None \<and> su_timing_override input = None
      then Inl (InvalidRequest ''provide at least one segment override to update'')
      else if su_clear_text_override input \<and> su_text_override input \<noteq> None
      then Inl (InvalidRequest ''textOverride and clearTextOverride cannot be used together'')
      else case (if su_clear_text_override input then Inr (g\<lparr>psg_narration_text_override := None\<rparr>)
          else case su_text_override input of
            None \<Rightarrow> Inr g
          | Some text \<Rightarrow> (let v = str_trim text in
              if v = [] then Inl (InvalidRequest ''use clearTextOverride to remove a narration override'')
              else if char_count v > 20000
              then Inl (InvalidRequest ''segment narration text exceeds 20,000 characters'')
              else Inr (g\<lparr>psg_narration_text_override := Some v\<rparr>))) of
        Inl e \<Rightarrow> Inl e
      | Inr g \<Rightarrow>
          (let g = (case su_performance_override input of None \<Rightarrow> g | Some p \<Rightarrow> g\<lparr>psg_performance_override := p\<rparr>)
           in Inr (case su_timing_override input of None \<Rightarrow> g | Some t \<Rightarrow> g\<lparr>psg_timing_override := t\<rparr>)))"

text \<open>The new text and expected input hash of an edited segment.\<close>

definition redirect_segment ::
  "'rx workbench \<Rightarrow> project_id \<Rightarrow> production_segment \<Rightarrow> service_error + production_segment" where
  "redirect_segment wb project g =
     (let base_text = (case psg_narration_text_override g of Some t \<Rightarrow> t | None \<Rightarrow> psg_original_text g)
      in case synthesis_context wb project g of
        Inl e \<Rightarrow> Inl e
      | Inr (character, assignment, rules, language) \<Rightarrow>
          (let performance = performance_overlay (va_performance assignment) (psg_performance_override g)
           in case wb_providers wb (va_provider_profile_id assignment) of
             None \<Rightarrow> Inl (proof_conflict ''provider_missing'' ''the assigned provider is unavailable'')
           | Some provider \<Rightarrow>
               (let model = or_else (va_model assignment) (pve_model provider)
                in case validate_voice_direction performance
                     (effective_timing (psg_timing_override g) (va_timing assignment)) model (pve_capabilities provider) of
                  Inl e \<Rightarrow> Inl e
                | Inr _ \<Rightarrow> (case apply_pronunciation_rules (wb_text wb) base_text rules project character language of
                    Inl e \<Rightarrow> Inl e
                  | Inr (text, _, dictionary_revision) \<Rightarrow>
                      Inr (g\<lparr>psg_effective_text := text,
                        psg_expected_input_hash := semantic_input_hash wb text (psg_context_before g)
                          (va_provider_profile_id assignment) model (va_voice_id assignment) dictionary_revision
                          performance\<rparr>)))))"

definition plan_hash :: "'rx workbench \<Rightarrow> production_segment list \<Rightarrow> str" where
  "plan_hash wb segments = te_hash (wb_text wb) (concat (map (\<lambda>g.
       [psg_stable_key g, [CHR 0x00], psg_expected_input_hash g, [CHR 0x00]])
     (sort_key (\<lambda>g. chapter_rank (psg_chapter_id g)) (sort_key psg_ordinal (sort_key psg_id segments)))))"

definition segment_locked :: "str \<Rightarrow> service_error" where
  "segment_locked message = proof_conflict ''segment_locked'' message"

text \<open>\<open>update\_segment\<close> of the service, up to the view it answers with; the clock is read twice.\<close>

definition edit_segment ::
  "'rx workbench \<Rightarrow> project_id \<Rightarrow> segment_id \<Rightarrow> segment_update_input \<Rightarrow> clock \<Rightarrow> production_segment proof_svc" where
  "edit_segment wb project i input clk =
     svc_bind (ensure_proof_mutable project) (\<lambda>plan.
     svc_then (ensure_no_active_proof_export wb project)
    (svc_then (ensure_no_active_regeneration wb i)
    (svc_bind (owned_segment project i) (\<lambda>g.
     svc_then (svc_ensure (psg_revision g = su_expected_revision input) (stale_segment wb (psg_id g) (psg_revision g)))
    (svc_then (svc_ensure (psg_review_state g \<noteq> Locked) (segment_locked ''unlock this segment before editing it''))
    (svc_bind (svc_lift (apply_segment_input input g)) (\<lambda>g.
     svc_bind (svc_lift (redirect_segment wb project g)) (\<lambda>g.
       let g = g\<lparr>psg_review_state := Unreviewed, psg_updated_at := clk 0\<rparr>
       in svc_bind (svc_call as_storage (list_active_segments project None)) (\<lambda>everything.
          let everything = map (\<lambda>h. if psg_id h = psg_id g then g else h) everything;
              changed = plan\<lparr>ppl_plan_revision := u64_saturating_add (ppl_plan_revision plan) 1,
                ppl_plan_hash := plan_hash wb everything, ppl_updated_at := clk 1\<rparr>
          in svc_call (map_storage_conflict wb)
               (update_segment_and_plan g (su_expected_revision input) changed (ppl_plan_revision plan)))))))))))"

section \<open>Review and selection\<close>

definition ensure_approvable :: "production_segment \<Rightarrow> unit proof_svc" where
  "ensure_approvable g =
     svc_bind (svc_call as_storage (get_selection (psg_id g))) (\<lambda>found.
     svc_bind (svc_some found (proof_conflict ''take_missing'' ''select a usable take before approving'')) (\<lambda>l.
     svc_bind (svc_call as_storage (get_take (psl_take_id l))) (\<lambda>found_take.
     svc_bind (svc_some found_take (proof_conflict ''take_missing'' ''the selected take is unavailable'')) (\<lambda>t.
       svc_ensure (ptk_semantic_input_hash t = psg_expected_input_hash g)
         (proof_conflict ''take_stale'' ''regenerate or select a take matching the current narration inputs'')))))"

definition update_review ::
  "'rx workbench \<Rightarrow> project_id \<Rightarrow> segment_id \<Rightarrow> segment_review_state \<Rightarrow> u64 \<Rightarrow> time \<Rightarrow> production_segment proof_svc" where
  "update_review wb project i st expected now =
     svc_then (ensure_proof_mutable project)
    (svc_then (ensure_no_active_proof_export wb project)
    (svc_then (ensure_no_active_regeneration wb i)
    (svc_bind (owned_segment project i) (\<lambda>g.
     svc_then (svc_ensure (psg_revision g = expected) (stale_segment wb (psg_id g) (psg_revision g)))
    (svc_then (svc_ensure (\<not> (psg_review_state g = Locked \<and> st \<noteq> Approved \<and> st \<noteq> Locked))
        (segment_locked ''unlock this segment before changing review state''))
    (svc_then (if is_accepted st then ensure_approvable g else svc_return ())
      (svc_call (map_storage_conflict wb)
        (update_segment (g\<lparr>psg_review_state := st, psg_updated_at := now\<rparr>) expected))))))))"

definition list_takes_of :: "project_id \<Rightarrow> segment_id \<Rightarrow> segment_take list proof_svc" where
  "list_takes_of project i = svc_then (owned_segment project i) (svc_call as_storage (list_takes i))"

definition choose_take ::
  "'rx workbench \<Rightarrow> project_id \<Rightarrow> segment_id \<Rightarrow> take_id \<Rightarrow> u64 \<Rightarrow> u64 \<Rightarrow> clock \<Rightarrow> production_segment proof_svc" where
  "choose_take wb project i t expected expected_segment clk =
     svc_then (ensure_proof_mutable project)
    (svc_then (ensure_no_active_proof_export wb project)
    (svc_then (ensure_no_active_regeneration wb i)
    (svc_bind (owned_segment project i) (\<lambda>g.
     svc_then (svc_ensure (psg_revision g = expected_segment) (stale_segment wb (psg_id g) (psg_revision g)))
    (svc_then (svc_ensure (psg_review_state g \<noteq> Locked)
        (segment_locked ''unlock this segment before selecting another take''))
    (svc_bind (svc_call (map_storage_conflict wb) (select_take_and_update_segment
        \<lparr>psl_segment_id = psg_id g, psl_take_id = t, psl_selected_at = clk 0, psl_revision = expected\<rparr> expected
        (g\<lparr>psg_review_state := Unreviewed, psg_updated_at := clk 1\<rparr>) expected_segment)) (\<lambda>(_, stored).
       svc_return stored)))))))"

section \<open>What a conversion adds\<close>

definition planned_segment ::
  "'rx workbench \<Rightarrow> project_id \<Rightarrow> uuid option \<Rightarrow> time \<Rightarrow> assigned_voice segment_plan \<Rightarrow> production_segment" where
  "planned_segment wb project narrator now g =
     \<lparr>psg_id = sg_id g, psg_project_id = project, psg_chapter_id = Some (sg_chapter_id g),
      psg_paragraph_id = Some (sg_paragraph_id g), psg_source = EpubRange, psg_stable_key = sg_key g,
      psg_ordinal = sg_segment_ordinal g, psg_source_content_hash = sg_source_content_hash g,
      psg_byte_start = Some (sg_byte_start g), psg_byte_end = Some (sg_byte_end g),
      psg_speaker = (if narrator = Some (sa_character_id (sg_assignment g)) then NarratorSpeaker
        else CharacterSpeaker (sa_character_id (sg_assignment g))),
      psg_original_text = sg_original_text g, psg_narration_text_override = None, psg_effective_text = sg_text g,
      psg_context_before = sg_context g, psg_context_after = None,
      psg_performance_override = default_performance, psg_timing_override = default_timing,
      psg_expected_input_hash = segment_semantic_input_hash wb g, psg_review_state = Unreviewed,
      psg_active = True, psg_revision = 0, psg_created_at = now, psg_updated_at = now\<rparr>"

definition narrator_id :: "'rx workbench \<Rightarrow> project_id \<Rightarrow> uuid option" where
  "narrator_id wb project = map_option cch_id
     (Option.bind (wb_characters wb project) (find (\<lambda>c. cch_role c = NarratorRole)))"

text \<open>The chapters of a conversion plan, each with its segments.\<close>

definition build_proofing_plan ::
  "'rx workbench \<Rightarrow> job_id \<Rightarrow> project_id \<Rightarrow> assigned_voice segment_plan list list \<Rightarrow> time \<Rightarrow>
     (proofing_plan \<times> production_segment list) proof_svc" where
  "build_proofing_plan wb j project chapters now =
     svc_bind (svc_call as_storage (get_plan project)) (\<lambda>previous.
       let segments = map (planned_segment wb project (narrator_id wb project) now) (concat chapters)
       in svc_return
         (\<lparr>ppl_project_id = project, ppl_source_conversion_job_id = j,
           ppl_plan_revision = (case previous of None \<Rightarrow> 1 | Some p \<Rightarrow> u64_saturating_add (ppl_plan_revision p) 1),
           ppl_plan_hash = te_hash (wb_text wb) (concat (map (\<lambda>g.
             [psg_stable_key g, [CHR 0x00], psg_expected_input_hash g, [CHR 0x00]]) segments)),
           ppl_status = PlanIncomplete, ppl_dirty_reasons = [],
           ppl_created_at = (case previous of None \<Rightarrow> now | Some p \<Rightarrow> ppl_created_at p), ppl_updated_at = now\<rparr>,
          segments))"

text \<open>The part of \<open>start\_conversion\<close> that replaces the proofing plan.\<close>

definition admit_plan ::
  "'rx workbench \<Rightarrow> job_id \<Rightarrow> project_id \<Rightarrow> assigned_voice segment_plan list list \<Rightarrow> job_unit list \<Rightarrow> time \<Rightarrow>
     unit proof_svc" where
  "admit_plan wb j project chapters units now =
     svc_bind (build_proofing_plan wb j project chapters now) (\<lambda>(plan, segments).
       svc_call as_storage (replace_plan_with_units plan segments units))"

definition next_take_ordinal :: "proof_db \<Rightarrow> segment_id \<Rightarrow> u32" where
  "next_take_ordinal s i =
     (let n = fold (\<lambda>r. max (rtk_ordinal r)) (filter (\<lambda>r. rtk_segment_id r = i) (pdb_takes s)) 0 + 1
      in if 0 \<le> n \<and> n \<le> int u32_max then nat n else u32_max)"

definition finished_take ::
  "'rx workbench \<Rightarrow> job_id \<Rightarrow> assigned_voice segment_plan \<Rightarrow> job_unit \<Rightarrow> take_id \<Rightarrow> segment_id \<Rightarrow> artifact_id \<Rightarrow>
     u32 \<Rightarrow> u64 \<Rightarrow> time \<Rightarrow> segment_take" where
  "finished_take wb j g unit t segment artifact n duration now =
     (let voice = sa_voice (sg_assignment g)
      in \<lparr>ptk_id = t, ptk_segment_id = segment, ptk_artifact_id = artifact, ptk_ordinal = n,
          ptk_source_job_id = j, ptk_source_job_unit_id = ju_id unit,
          ptk_semantic_input_hash = segment_semantic_input_hash wb g, ptk_duration_ms = duration,
          ptk_provider_profile_id = Some (av_provider_id voice), ptk_model = av_model voice,
          ptk_voice_profile_id = Some (av_voice_id voice),
          ptk_dictionary_revision_hash = sg_dictionary_revision g,
          ptk_normalization_version = normalization_version,
          ptk_synthesis_provenance = [(''performance'', performance_json (av_performance voice)),
            (''providerName'', JStr (av_provider_name voice)), (''timing'', timing_json (av_timing voice)),
            (''voiceName'', JStr (av_voice_name voice))],
          ptk_findings = [], ptk_created_at = now\<rparr>)"

text \<open>The section under the project lock. \<open>intact\<close> loads an existing artifact and verifies its file.\<close>

definition record_take ::
  "'rx workbench \<Rightarrow> (artifact_id \<Rightarrow> service_error + unit) \<Rightarrow> job_id \<Rightarrow> assigned_voice segment_plan \<Rightarrow> job_unit \<Rightarrow>
     take_id \<Rightarrow> segment_id \<Rightarrow> artifact_id \<Rightarrow> u64 \<Rightarrow> time \<Rightarrow> unit proof_svc" where
  "record_take wb intact j g unit t segment artifact duration now =
     svc_bind (svc_call as_storage (get_take t)) (\<lambda>existing. case existing of
       Some e \<Rightarrow> svc_lift (intact (ptk_artifact_id e))
     | None \<Rightarrow>
         svc_bind (svc_gets (\<lambda>s. next_take_ordinal s segment)) (\<lambda>n.
           let take = finished_take wb j g unit t segment artifact n duration now
           in if ju_payload unit ''autoSelect'' = Some (JBool True)
              then svc_call as_storage (insert_take_and_select take
                \<lparr>psl_segment_id = segment, psl_take_id = t, psl_selected_at = now, psl_revision = 0\<rparr>)
              else svc_call as_storage (insert_take take)))"

definition payload_id :: "'rx workbench \<Rightarrow> job_unit \<Rightarrow> str \<Rightarrow> uuid option" where
  "payload_id wb unit k = Option.bind (ju_payload unit k) (\<lambda>v. case wb_decode_id wb v of Inl _ \<Rightarrow> None | Inr i \<Rightarrow> Some i)"

text \<open>\<open>materialised\<close> makes the file of the take and answers its duration; the row of the artifact is
  written unless it exists.\<close>

definition persist_proof_take ::
  "'rx workbench \<Rightarrow> (artifact_id \<Rightarrow> service_error + unit) \<Rightarrow> (artifact_id \<Rightarrow> service_error + u64 option) \<Rightarrow> job_id \<Rightarrow>
     assigned_voice segment_plan \<Rightarrow> job_unit \<Rightarrow> time \<Rightarrow> unit proof_svc" where
  "persist_proof_take wb intact materialised j g unit now = (case ju_segment_id unit of
      None \<Rightarrow> svc_return ()
    | Some segment \<Rightarrow>
        svc_bind (svc_some (payload_id wb unit ''takeId'') (InternalFailure ''proofing unit has no take id'')) (\<lambda>t.
        svc_bind (svc_call as_storage (get_take t)) (\<lambda>existing. case existing of
          Some e \<Rightarrow> svc_lift (intact (ptk_artifact_id e))
        | None \<Rightarrow>
            svc_bind (svc_some (payload_id wb unit ''takeArtifactId'')
                (InternalFailure ''proofing unit has no artifact id'')) (\<lambda>artifact.
            svc_bind (svc_lift (materialised artifact)) (\<lambda>duration.
            svc_then (svc_call as_storage (tx_modify (\<lambda>s. if List.member (pdb_artifacts s) artifact then s
                else s\<lparr>pdb_artifacts := pdb_artifacts s @ [artifact]\<rparr>)))
              (record_take wb intact j g unit t segment artifact
                 (case duration of None \<Rightarrow> 0 | Some d \<Rightarrow> d) now))))))"

definition mark_proofing_plan_ready :: "project_id \<Rightarrow> job_id \<Rightarrow> time \<Rightarrow> unit proof_svc" where
  "mark_proofing_plan_ready project j now =
     svc_bind (svc_call as_storage (get_plan project)) (\<lambda>found. case found of
       None \<Rightarrow> svc_return ()
     | Some plan \<Rightarrow>
         if ppl_source_conversion_job_id plan \<noteq> j then svc_return ()
         else svc_call as_storage (update_plan
           (plan\<lparr>ppl_status := PlanReady, ppl_dirty_reasons := [], ppl_updated_at := now\<rparr>) (ppl_plan_revision plan)))"

section \<open>The selections of a proof export\<close>

definition segment_message :: "'rx workbench \<Rightarrow> str \<Rightarrow> production_segment \<Rightarrow> service_error" where
  "segment_message wb text g = ResourceConflict (Formatted text [te_uuid_text (wb_text wb) (psg_id g)])"

definition export_selection ::
  "'rx workbench \<Rightarrow> (artifact_id \<Rightarrow> service_error + unit) \<Rightarrow> bool \<Rightarrow> project_id \<Rightarrow> production_segment \<Rightarrow>
     (proof_export_selection \<times> assigned_voice segment_plan) proof_svc" where
  "export_selection wb intact strict_retailer project g =
     svc_then (svc_ensure (\<not> (strict_retailer \<and> \<not> is_accepted (psg_review_state g)))
        (segment_message wb ''segment {} must be approved or locked for a retailer export'' g))
    (svc_then (svc_ensure (psg_review_state g \<noteq> Flagged)
        (segment_message wb ''resolve the flag on segment {} before exporting'' g))
    (svc_bind (svc_call as_storage (get_selection (psg_id g))) (\<lambda>found.
     svc_bind (svc_some found (segment_message wb ''select a take for segment {}'' g)) (\<lambda>l.
     svc_bind (svc_call as_storage (get_take (psl_take_id l))) (\<lambda>found_take.
     svc_bind (svc_some found_take (ResourceConflict (Plain ''a selected take is unavailable''))) (\<lambda>t.
     svc_then (svc_ensure (ptk_semantic_input_hash t = psg_expected_input_hash g)
        (segment_message wb ''the selected take for segment {} is stale'' g))
    (svc_then (svc_lift (intact (ptk_artifact_id t)))
    (svc_bind (svc_lift (load_proofing_segment_plan wb project g)) (\<lambda>plan.
     svc_then (svc_ensure (segment_semantic_input_hash wb plan = psg_expected_input_hash g)
        (segment_message wb ''the narration inputs for segment {} changed; review or regenerate it first'' g))
       (svc_return (\<lparr>pxe_segment_id = psg_id g, pxe_take_id = ptk_id t, pxe_artifact_id = ptk_artifact_id t\<rparr>, plan)))))))))))"

fun export_selections ::
  "'rx workbench \<Rightarrow> (artifact_id \<Rightarrow> service_error + unit) \<Rightarrow> bool \<Rightarrow> project_id \<Rightarrow> production_segment list \<Rightarrow>
     (proof_export_selection \<times> assigned_voice segment_plan) list proof_svc" where
  "export_selections wb intact strict_retailer project [] = svc_return []"
| "export_selections wb intact strict_retailer project (g # gs) =
     svc_bind (export_selection wb intact strict_retailer project g) (\<lambda>x.
     svc_bind (export_selections wb intact strict_retailer project gs) (\<lambda>xs. svc_return (x # xs)))"

text \<open>\<open>start\_proof\_export\<close> up to the selections of its snapshot.\<close>

definition gather_proof_export ::
  "'rx workbench \<Rightarrow> (artifact_id \<Rightarrow> service_error + unit) \<Rightarrow> bool \<Rightarrow> project_id \<Rightarrow>
     (proofing_plan \<times> (proof_export_selection \<times> assigned_voice segment_plan) list) proof_svc" where
  "gather_proof_export wb intact strict_retailer project =
     svc_bind (svc_call as_storage (get_plan project)) (\<lambda>found.
     svc_bind (svc_some found (ResourceConflict (Plain ''proofing data is unavailable''))) (\<lambda>plan.
     svc_then (svc_ensure (ppl_status plan = PlanReady)
        (ResourceConflict (Plain ''finish the active proofing plan before exporting'')))
    (svc_bind (svc_call as_storage (list_active_segments project None)) (\<lambda>segments.
     svc_then (svc_ensure (segments \<noteq> [])
        (ResourceConflict (Plain ''the proofing plan contains no production segments'')))
    (svc_bind (export_selections wb intact strict_retailer project segments) (\<lambda>xs.
       svc_return (plan, xs)))))))"

text \<open>The snapshot a worker requires before it exports (\<open>load\_required\_proof\_export\_snapshot\<close>).\<close>

definition load_required_proof_export_snapshot :: "job \<Rightarrow> proof_export_snapshot proof_svc" where
  "load_required_proof_export_snapshot j =
     svc_bind (svc_gets (\<lambda>s. map_option rxs_payload (find (\<lambda>r. rxs_job_id r = j_id j) (pdb_snapshots s)))) (\<lambda>found.
     svc_bind (svc_some found (ResourceConflict
        (Plain ''proof export audit snapshot is missing; refusing an unaudited export''))) (\<lambda>x.
       svc_then (svc_ensure (pxs_job_id x = j_id j \<and> pxs_project_id x = j_project_id j
            \<and> j_export_profile_id j = Some (pxs_export_profile_id x))
          (ResourceConflict (Plain ''proof export audit snapshot does not match its durable job'')))
         (svc_return x)))"

end
