(* ===== verification/Proofing_Correctness.thy ===== *)
theory Proofing_Correctness
  imports Proofing_Service Job_Correctness
begin

text \<open>
  Correctness of the proofing workbench, table by table: what each statement of the repository leaves,
  the invariant of segments, takes and selections, and a calculus that pushes a postcondition through
  the reads of a handler to its one write.
\<close>

section \<open>Handlers that read before they write\<close>

named_theorems reads \<open>operations that change nothing\<close>

definition tx_reads :: "('s, 'e, 'a) tx \<Rightarrow> bool" where
  "tx_reads m \<longleftrightarrow> (\<forall>s a s'. m s = Inr (a, s') \<longrightarrow> s' = s)"

definition svc_reads :: "('s, 'a) svc_on \<Rightarrow> bool" where
  "svc_reads m \<longleftrightarrow> (\<forall>s. snd (m s) = s)"

lemma tx_reads_basic [reads, simp]:
  "tx_reads (tx_return x)" "tx_reads (tx_fail e)" "tx_reads (tx_gets f)" "tx_reads (tx_ensure b e)"
  "tx_reads (tx_some v e)" "tx_reads (tx_lift r)"
  by (auto simp: tx_reads_def)

lemma tx_reads_bind [reads]: "tx_reads m \<Longrightarrow> (\<And>a. tx_reads (f a)) \<Longrightarrow> tx_reads (tx_bind m f)"
  unfolding tx_reads_def tx_bind_Inr_iff by metis

lemma tx_reads_case_option [reads]:
  "tx_reads m \<Longrightarrow> (\<And>a. tx_reads (f a)) \<Longrightarrow> tx_reads (case x of None \<Rightarrow> m | Some a \<Rightarrow> f a)"
  by (cases x) simp_all

lemma on_db_Inr:
  "on_db m s = Inr (a, s') \<longleftrightarrow> (\<exists>d. m (base_view s) = Inr (a, d)
     \<and> s' = s\<lparr>pdb_base := d\<lparr>db_segments := db_segments (pdb_base s)\<rparr>\<rparr>)"
  by (auto simp: on_db_def split: sum.split prod.split)

lemma tx_reads_on_db [reads]: "tx_reads m \<Longrightarrow> tx_reads (on_db m)"
  unfolding tx_reads_def
proof (intro allI impI)
  fix s a s'
  assume m: "\<forall>s a s'. m s = Inr (a, s') \<longrightarrow> s' = s" and "on_db m s = Inr (a, s')"
  then obtain d where "m (base_view s) = Inr (a, d)" "s' = s\<lparr>pdb_base := d\<lparr>db_segments := db_segments (pdb_base s)\<rparr>\<rparr>"
    by (auto simp: on_db_Inr)
  moreover from this m have "d = base_view s" by blast
  ultimately show "s' = s" by (simp add: base_view_def)
qed

lemma svc_reads_basic [reads, simp]:
  "svc_reads (svc_return x)" "svc_reads (svc_fail e)" "svc_reads (svc_gets f)" "svc_reads (svc_ensure b e)"
  "svc_reads (svc_some v e)" "svc_reads (svc_lift r)"
  by (simp_all add: svc_reads_def svc_return_def svc_fail_def svc_gets_def svc_ensure_def svc_some_def svc_lift_def
      split: option.split sum.split)

lemma svc_reads_call [reads]: "tx_reads m \<Longrightarrow> svc_reads (svc_call w m)"
  by (auto simp: svc_reads_def tx_reads_def svc_call_def commit_def split: sum.splits prod.splits)

lemma svc_reads_bind [reads]: "svc_reads m \<Longrightarrow> (\<And>a. svc_reads (f a)) \<Longrightarrow> svc_reads (svc_bind m f)"
  unfolding svc_reads_def svc_bind_def by (auto split: prod.split sum.split) (metis snd_conv)+

lemma svc_reads_then [reads]: "svc_reads m \<Longrightarrow> svc_reads m' \<Longrightarrow> svc_reads (svc_then m m')"
  unfolding svc_then_def by (rule svc_reads_bind)

lemma svc_reads_case_option [reads]:
  "svc_reads m \<Longrightarrow> (\<And>a. svc_reads (f a)) \<Longrightarrow> svc_reads (case x of None \<Rightarrow> m | Some a \<Rightarrow> f a)"
  by (cases x) simp_all

lemma svc_reads_if [reads]: "svc_reads m \<Longrightarrow> svc_reads m' \<Longrightarrow> svc_reads (if b then m else m')"
  by simp

lemma svc_reads_same: "svc_reads m \<Longrightarrow> m s = (r, s') \<Longrightarrow> s' = s"
  unfolding svc_reads_def by (metis snd_conv)

text \<open>What holds of the state after a handler: the reads hand on what they found.\<close>

lemma after_bind:
  assumes "svc_reads m" and "P s" and "\<And>a. m s = (Inr a, s) \<Longrightarrow> P (snd (f a s))"
  shows "P (snd (svc_bind m f s))"
proof (cases "m s")
  case (Pair r s')
  with assms(1) have "s' = s" by (rule svc_reads_same)
  with Pair assms(2,3) show ?thesis by (cases r) (simp_all add: svc_bind_def)
qed

lemma after_then:
  assumes "svc_reads m" and "P s" and "\<And>a. m s = (Inr a, s) \<Longrightarrow> P (snd (m' s))"
  shows "P (snd (svc_then m m' s))"
  unfolding svc_then_def by (rule after_bind [where P = P, OF assms(1,2)]) (erule assms(3))

lemma after_call:
  assumes "P s" and "\<And>a s'. m s = Inr (a, s') \<Longrightarrow> P s'"
  shows "P (snd (svc_call w m s))"
  using assms by (auto simp: svc_call_def commit_def split: sum.splits prod.splits)

lemma after_call_bind:
  assumes "P s" and "\<And>a s'. m s = Inr (a, s') \<Longrightarrow> P (snd (f a s'))"
  shows "P (snd (svc_bind (svc_call w m) f s))"
  using assms by (auto simp: svc_bind_def svc_call_def commit_def split: sum.splits prod.splits)

lemma getters_read [reads, simp]:
  "tx_reads (get_plan p)" "tx_reads (get_segment i)" "tx_reads (list_active_segments p c)"
  "tx_reads (list_takes i)" "tx_reads (get_take t)" "tx_reads (get_selection i)"
  by (simp_all add: get_plan_def get_segment_def list_active_segments_def list_takes_def get_take_def get_selection_def)

lemma job_get_reads [reads, simp]: "tx_reads (job_get i)"
  unfolding job_get_def by (intro reads)

lemma guards_read [reads, simp]:
  "svc_reads (owned_segment p i)" "svc_reads (ensure_proof_mutable p)"
  "svc_reads (ensure_no_active_regeneration wb i)" "svc_reads (ensure_no_active_proof_export wb p)"
  "svc_reads (ensure_approvable g)"
  unfolding owned_segment_def ensure_proof_mutable_def ensure_no_active_regeneration_def
    ensure_no_active_proof_export_def ensure_approvable_def
  by (intro reads getters_read job_get_reads)+

section \<open>The tables\<close>

definition segment_row_ok :: "segment_row \<Rightarrow> bool" where
  "segment_row_ok r \<longleftrightarrow> psg_id (rsg_payload r) = rsg_id r \<and> psg_project_id (rsg_payload r) = rsg_project_id r
     \<and> rsg_revision r = i64_from_u64_or_max (psg_revision (rsg_payload r))"

definition take_row_ok :: "take_row \<Rightarrow> bool" where
  "take_row_ok r \<longleftrightarrow> ptk_id (rtk_payload r) = rtk_id r \<and> ptk_segment_id (rtk_payload r) = rtk_segment_id r"

definition selection_row_ok :: "selection_row \<Rightarrow> bool" where
  "selection_row_ok r \<longleftrightarrow> psl_segment_id (rsl_payload r) = rsl_segment_id r \<and> psl_take_id (rsl_payload r) = rsl_take_id r"

definition proof_wf :: "proof_db \<Rightarrow> bool" where
  "proof_wf s \<longleftrightarrow> distinct (map rsg_id (pdb_segments s)) \<and> distinct (map rtk_id (pdb_takes s))
     \<and> distinct (map rsl_segment_id (pdb_selections s))
     \<and> (\<forall>r \<in> set (pdb_segments s). segment_row_ok r) \<and> (\<forall>r \<in> set (pdb_takes s). take_row_ok r)
     \<and> (\<forall>r \<in> set (pdb_selections s). selection_row_ok r)"

text \<open>A selection names a take of its own segment.\<close>

definition selects_own_take :: "proof_db \<Rightarrow> selection_row \<Rightarrow> bool" where
  "selects_own_take s l \<longleftrightarrow> (\<exists>t \<in> set (pdb_takes s). rtk_id t = rsl_take_id l \<and> rtk_segment_id t = rsl_segment_id l)"

text \<open>The selected take of a segment was made from the segment's current inputs.\<close>

definition selection_current :: "proof_db \<Rightarrow> production_segment \<Rightarrow> bool" where
  "selection_current s g \<longleftrightarrow> (\<exists>l \<in> set (pdb_selections s). rsl_segment_id l = psg_id g
     \<and> (\<exists>t \<in> set (pdb_takes s). rtk_id t = rsl_take_id l
         \<and> ptk_semantic_input_hash (rtk_payload t) = psg_expected_input_hash g))"

text \<open>\<open>auto\<close> is the take that the conversion unit of a segment selects when it is finished; a segment
  with a selection has that take.\<close>

definition workbench_ok :: "(segment_id \<Rightarrow> take_id) \<Rightarrow> proof_db \<Rightarrow> bool" where
  "workbench_ok auto s \<longleftrightarrow> proof_wf s
     \<and> (\<forall>l \<in> set (pdb_selections s). selects_own_take s l \<and> take_known s (auto (rsl_segment_id l)))
     \<and> (\<forall>r \<in> set (pdb_segments s). is_accepted (psg_review_state (rsg_payload r)) \<longrightarrow> selection_current s (rsg_payload r))"

lemma workbench_ok_tables:
  assumes "pdb_segments s' = pdb_segments s" "pdb_takes s' = pdb_takes s" "pdb_selections s' = pdb_selections s"
  shows "workbench_ok auto s' \<longleftrightarrow> workbench_ok auto s"
  by (simp add: workbench_ok_def proof_wf_def selects_own_take_def selection_current_def take_known_def assms)

lemma rows_affected_pos: "0 < rows_affected P rows \<longleftrightarrow> (\<exists>r \<in> set rows. P r)"
  using rows_affected_eq_0_iff [of P rows] by auto

lemma same_key: "distinct (map f rows) \<Longrightarrow> q \<in> set rows \<Longrightarrow> r \<in> set rows \<Longrightarrow> f q = f r \<Longrightarrow> q = r"
  by (auto simp: distinct_map dest: inj_onD)

lemma find_by_key:
  "distinct (map f rows) \<Longrightarrow> r \<in> set rows \<Longrightarrow> f r = k \<Longrightarrow> find (\<lambda>q. f q = k) rows = Some r"
  using find_id_unique by metis

lemma wf_finds:
  assumes "proof_wf s"
  shows "r \<in> set (pdb_segments s) \<Longrightarrow> rsg_id r = i \<Longrightarrow> find (\<lambda>q. rsg_id q = i) (pdb_segments s) = Some r"
    and "t \<in> set (pdb_takes s) \<Longrightarrow> rtk_id t = k \<Longrightarrow> find (\<lambda>q. rtk_id q = k) (pdb_takes s) = Some t"
    and "l \<in> set (pdb_selections s) \<Longrightarrow> rsl_segment_id l = j \<Longrightarrow> find_selection s j = Some l"
  using assms by (simp_all add: proof_wf_def find_by_key find_selection_def)

section \<open>Statements\<close>

lemma enforce_at_Inr [simp, tx_simps]: "enforce_at b e s = Inr (u, s') \<longleftrightarrow> b \<and> s' = s"
  by (auto simp: enforce_at_def)

definition written_segment :: "production_segment \<Rightarrow> segment_row \<Rightarrow> segment_row" where
  "written_segment g r = r\<lparr>rsg_active := psg_active g, rsg_revision := i64_from_u64_or_max (psg_revision g),
     rsg_payload := g\<rparr>"

lemma update_segment_row_Inr:
  assumes "update_segment_row g e s = Inr (n, s')"
  shows "n = rows_affected (matches_segment g e) (pdb_segments s)"
    and "s' = s\<lparr>pdb_segments := sql_update (matches_segment g e) (written_segment g) (pdb_segments s)\<rparr>"
  using assms by (auto simp: update_segment_row_def written_segment_def [abs_def])

lemma update_segment_Inr:
  assumes "update_segment g e s = Inr (g', s')"
  shows "g' = g\<lparr>psg_revision := u64_saturating_add e 1\<rparr>"
    and "\<exists>r \<in> set (pdb_segments s). matches_segment g' e r"
    and "s' = s\<lparr>pdb_segments := sql_update (matches_segment g' e) (written_segment g') (pdb_segments s)\<rparr>"
  using assms update_segment_row_Inr [of "g\<lparr>psg_revision := u64_saturating_add e 1\<rparr>" e s]
  by (auto simp: update_segment_def Let_def rows_affected_pos)

lemma update_segment_or_stale_Inr:
  assumes "update_segment_or_stale g e s = Inr (u, s')"
  shows "\<exists>r \<in> set (pdb_segments s). matches_segment g e r"
    and "s' = s\<lparr>pdb_segments := sql_update (matches_segment g e) (written_segment g) (pdb_segments s)\<rparr>"
  using assms update_segment_row_Inr [of g e s]
  by (auto simp: update_segment_or_stale_def rows_affected_pos)

lemma update_plan_Inr:
  assumes "update_plan plan e s = Inr (u, s')"
  shows "\<exists>ps. s' = s\<lparr>pdb_plans := ps\<rparr>"
  using assms by (auto simp: update_plan_def update_plan_row_def)

lemma update_segment_and_plan_Inr:
  assumes "update_segment_and_plan g e plan f s = Inr (g', s')"
  shows "g' = g\<lparr>psg_revision := u64_saturating_add e 1\<rparr>"
    and "\<exists>r \<in> set (pdb_segments s). matches_segment g' e r"
    and "\<exists>ps. s' = s\<lparr>pdb_segments := sql_update (matches_segment g' e) (written_segment g') (pdb_segments s),
       pdb_plans := ps\<rparr>"
proof -
  from assms obtain u s1 v where h: "g' = g\<lparr>psg_revision := u64_saturating_add e 1\<rparr>"
    "update_segment_or_stale g' e s = Inr (u, s1)" "update_plan plan f s1 = Inr (v, s')"
    by (auto simp: update_segment_and_plan_def Let_def)
  show "g' = g\<lparr>psg_revision := u64_saturating_add e 1\<rparr>" by (rule h(1))
  show "\<exists>r \<in> set (pdb_segments s). matches_segment g' e r" by (rule update_segment_or_stale_Inr(1) [OF h(2)])
  from update_segment_or_stale_Inr(2) [OF h(2)] update_plan_Inr [OF h(3)]
  show "\<exists>ps. s' = s\<lparr>pdb_segments := sql_update (matches_segment g' e) (written_segment g') (pdb_segments s),
      pdb_plans := ps\<rparr>" by auto
qed

text \<open>An edit that reached its row writes the row of its segment and no other.\<close>

lemma written_rows:
  assumes "proof_wf s" and "\<exists>r \<in> set (pdb_segments s). matches_segment g e r"
  shows "sql_update (matches_segment g e) (written_segment g) (pdb_segments s)
    = sql_update (\<lambda>r. rsg_id r = psg_id g) (written_segment g) (pdb_segments s)"
proof -
  from assms(2) obtain r where r: "r \<in> set (pdb_segments s)" "matches_segment g e r" by blast
  have "matches_segment g e q \<longleftrightarrow> rsg_id q = psg_id g" if "q \<in> set (pdb_segments s)" for q
  proof
    assume "rsg_id q = psg_id g"
    with r have "rsg_id q = rsg_id r" by (simp add: matches_segment_def)
    with assms(1) that r(1) have "q = r" by (simp add: proof_wf_def) (metis same_key)
    with r(2) show "matches_segment g e q" by simp
  qed (simp add: matches_segment_def)
  then show ?thesis by (simp add: sql_update_def cong: map_cong)
qed

section \<open>Writes keep the invariant\<close>

lemma selection_current_mono:
  assumes "selection_current s g" and "set (pdb_selections s) \<subseteq> set (pdb_selections s')"
    and "set (pdb_takes s) \<subseteq> set (pdb_takes s')"
  shows "selection_current s' g"
  using assms unfolding selection_current_def by blast

lemma selection_current_fields:
  "pdb_selections s' = pdb_selections s \<Longrightarrow> pdb_takes s' = pdb_takes s \<Longrightarrow>
     selection_current s' g \<longleftrightarrow> selection_current s g"
  by (simp add: selection_current_def)

lemma workbench_ok_segments:
  assumes "workbench_ok auto s" and "map rsg_id rows = map rsg_id (pdb_segments s) \<or> distinct (map rsg_id rows)"
    and "\<And>r. r \<in> set rows \<Longrightarrow> segment_row_ok r"
    and "\<And>r. r \<in> set rows \<Longrightarrow> is_accepted (psg_review_state (rsg_payload r)) \<Longrightarrow> selection_current s (rsg_payload r)"
  shows "workbench_ok auto (s\<lparr>pdb_segments := rows\<rparr>)"
proof -
  have "distinct (map rsg_id rows)" using assms(1,2) by (auto simp: workbench_ok_def proof_wf_def)
  with assms show ?thesis
    by (simp add: workbench_ok_def proof_wf_def selects_own_take_def take_known_def selection_current_def)
qed

lemma ok_write_segment:
  assumes ok: "workbench_ok auto s" and m: "\<exists>r \<in> set (pdb_segments s). matches_segment g e r"
    and c: "is_accepted (psg_review_state g) \<Longrightarrow> selection_current s g"
  shows "workbench_ok auto (s\<lparr>pdb_segments := sql_update (matches_segment g e) (written_segment g) (pdb_segments s)\<rparr>)"
proof (rule workbench_ok_segments [OF ok])
  show "map rsg_id (sql_update (matches_segment g e) (written_segment g) (pdb_segments s)) = map rsg_id (pdb_segments s)
    \<or> distinct (map rsg_id (sql_update (matches_segment g e) (written_segment g) (pdb_segments s)))"
    by (simp add: map_sql_update written_segment_def)
next
  fix r assume r: "r \<in> set (sql_update (matches_segment g e) (written_segment g) (pdb_segments s))"
  then obtain q where q: "q \<in> set (pdb_segments s)" "r = (if matches_segment g e q then written_segment g q else q)"
    unfolding set_sql_update by blast
  from ok q(1) have "segment_row_ok q" by (simp add: workbench_ok_def proof_wf_def)
  with q(2) show "segment_row_ok r"
    by (auto simp: segment_row_ok_def written_segment_def matches_segment_def)
  assume a: "is_accepted (psg_review_state (rsg_payload r))"
  show "selection_current s (rsg_payload r)"
  proof (cases "matches_segment g e q")
    case True
    with q(2) a c show ?thesis by (simp add: written_segment_def)
  next
    case False
    with q a ok show ?thesis by (simp add: workbench_ok_def)
  qed
qed

lemma workbench_ok_selections:
  assumes ok: "workbench_ok auto s" and rows: "distinct (map rsl_segment_id rows)"
    and old: "\<And>l. l \<in> set rows \<Longrightarrow> l \<in> set (pdb_selections s) \<or> selection_row_ok l \<and> selects_own_take s l
      \<and> take_known s (auto (rsl_segment_id l))"
    and kept: "\<And>r. r \<in> set (pdb_segments s) \<Longrightarrow> is_accepted (psg_review_state (rsg_payload r)) \<Longrightarrow>
      selection_current s (rsg_payload r) \<Longrightarrow> selection_current (s\<lparr>pdb_selections := rows\<rparr>) (rsg_payload r)"
  shows "workbench_ok auto (s\<lparr>pdb_selections := rows\<rparr>)"
proof -
  have "selection_row_ok l \<and> selects_own_take s l \<and> take_known s (auto (rsl_segment_id l))" if "l \<in> set rows" for l
    using old [OF that] ok by (auto simp: workbench_ok_def proof_wf_def)
  with ok rows kept show ?thesis
    by (simp add: workbench_ok_def proof_wf_def selects_own_take_def take_known_def)
qed

lemma insert_take_row_Inr:
  "insert_take_row t s = Inr (u, s') \<longleftrightarrow> \<not> list_ex (take_clash t) (pdb_takes s) \<and> segment_known s (ptk_segment_id t)
     \<and> List.member (pdb_artifacts s) (ptk_artifact_id t) \<and> job_known s (ptk_source_job_id t)
     \<and> list_ex (\<lambda>u. un_id u = ptk_source_job_unit_id t) (db_units (pdb_base s))
     \<and> s' = s\<lparr>pdb_takes := pdb_takes s @ [take_row_of t]\<rparr>"
  by (auto simp: insert_take_row_def)

lemma ok_insert_take:
  assumes ok: "workbench_ok auto s" and t: "insert_take_row t s = Inr (u, s')"
  shows "workbench_ok auto s'"
proof -
  from t have s': "s' = s\<lparr>pdb_takes := pdb_takes s @ [take_row_of t]\<rparr>" and
    new: "ptk_id t \<notin> rtk_id ` set (pdb_takes s)"
    by (auto simp: insert_take_row_Inr list_ex_iff take_clash_def)
  have "selection_current s' g" if "selection_current s g" for g
    by (rule selection_current_mono [OF that]) (auto simp: s')
  moreover have "selects_own_take s' l" if "selects_own_take s l" for l
    using that by (auto simp: selects_own_take_def s')
  moreover have "take_known s' i" if "take_known s i" for i
    using that by (simp add: take_known_def s')
  moreover have "proof_wf s'" using ok new by (auto simp: workbench_ok_def proof_wf_def s' take_row_of_def take_row_ok_def)
  ultimately show ?thesis using ok by (simp add: workbench_ok_def s')
qed

text \<open>The conversion selects the take it has just inserted. Its segment has no selection yet: a segment
  with a selection has the take of its conversion unit.\<close>

lemma ok_insert_take_and_select:
  assumes ok: "workbench_ok auto s" and r: "insert_take_and_select t l s = Inr (u, s')"
    and a: "ptk_id t = auto (ptk_segment_id t)"
  shows "workbench_ok auto s' \<and> find_selection s (ptk_segment_id t) = None
    \<and> (\<exists>l'. s' = s\<lparr>pdb_takes := pdb_takes s @ [take_row_of t], pdb_selections := pdb_selections s @ [l']\<rparr>
      \<and> rsl_segment_id l' = ptk_segment_id t)"
proof -
  obtain v s1 where t: "insert_take_row t s = Inr (v, s1)" and eq: "ptk_segment_id t = psl_segment_id l" "ptk_id t = psl_take_id l"
    using r by (auto simp: insert_take_and_select_def)
  have s1: "s1 = s\<lparr>pdb_takes := pdb_takes s @ [take_row_of t]\<rparr>" and fresh: "\<not> take_known s (ptk_id t)"
    using t by (auto simp: insert_take_row_Inr list_ex_iff take_clash_def take_known_def)
  note ok1 = ok_insert_take [OF ok t]
  have none: "find_selection s (ptk_segment_id t) = None"
  proof (rule ccontr)
    assume "find_selection s (ptk_segment_id t) \<noteq> None"
    then obtain q where "q \<in> set (pdb_selections s)" "rsl_segment_id q = ptk_segment_id t"
      by (auto simp: find_selection_def dest: find_Some_D)
    with ok fresh a show False by (auto simp: workbench_ok_def)
  qed
  have none1: "find_selection s1 (psl_segment_id l) = None" using none by (simp add: s1 find_selection_def eq)
  have s': "s' = s1\<lparr>pdb_selections := pdb_selections s1 @ [selection_row_of l]\<rparr>"
    using r t none1 eq by (auto simp: insert_take_and_select_def upsert_selection_def)
  have "workbench_ok auto s'"
    unfolding s'
  proof (rule workbench_ok_selections [OF ok1])
    show "distinct (map rsl_segment_id (pdb_selections s1 @ [selection_row_of l]))"
      using ok1 none1 by (auto simp: workbench_ok_def proof_wf_def selection_row_of_def find_selection_def find_None_iff)
  next
    fix q assume "q \<in> set (pdb_selections s1 @ [selection_row_of l])"
    then show "q \<in> set (pdb_selections s1) \<or> selection_row_ok q \<and> selects_own_take s1 q
      \<and> take_known s1 (auto (rsl_segment_id q))"
      using eq a by (auto simp: selection_row_of_def selection_row_ok_def selects_own_take_def take_known_def s1 take_row_of_def)
  qed (auto intro: selection_current_mono)
  with none s' eq show ?thesis by (auto simp: s1 selection_row_of_def)
qed

section \<open>Selecting another take\<close>

lemma take_belongs_Inr:
  assumes "take_belongs l s = Inr (u, s')"
  shows "s' = s" and "\<exists>t \<in> set (pdb_takes s). rtk_id t = psl_take_id l \<and> rtk_segment_id t = psl_segment_id l"
proof -
  let ?P = "\<lambda>r. rtk_id r = psl_take_id l \<and> rtk_segment_id r = psl_segment_id l"
  from assms have n: "rows_affected ?P (pdb_takes s) = 1" and s: "s' = s" by (auto simp: take_belongs_def)
  from s show "s' = s" .
  from n have "0 < rows_affected ?P (pdb_takes s)" by simp
  then show "\<exists>t \<in> set (pdb_takes s). ?P t" by (simp only: rows_affected_pos)
qed

lemma update_selection_or_stale_Inr:
  assumes "update_selection_or_stale l e s = Inr (u, s')"
  shows "\<exists>r \<in> set (pdb_selections s). matches_selection l e r"
    and "s' = s\<lparr>pdb_selections := sql_update (matches_selection l e) (\<lambda>r. selection_row_of l) (pdb_selections s)\<rparr>"
  using assms by (auto simp: update_selection_or_stale_def update_selection_row_def rows_affected_pos)

lemma select_take_and_update_segment_Inr:
  assumes "select_take_and_update_segment l e g f s = Inr (r, s')"
  defines "l' \<equiv> l\<lparr>psl_revision := u64_saturating_add e 1\<rparr>" and "g' \<equiv> g\<lparr>psg_revision := u64_saturating_add f 1\<rparr>"
  shows "psl_segment_id l = psg_id g"
    and "\<exists>t \<in> set (pdb_takes s). rtk_id t = psl_take_id l \<and> rtk_segment_id t = psl_segment_id l"
    and "\<exists>q \<in> set (pdb_selections s). matches_selection l' e q"
    and "\<exists>q \<in> set (pdb_segments s). matches_segment g' f q"
    and "s' = s\<lparr>pdb_segments := sql_update (matches_segment g' f) (written_segment g') (pdb_segments s),
      pdb_selections := sql_update (matches_selection l' e) (\<lambda>r. selection_row_of l') (pdb_selections s)\<rparr>"
proof -
  from assms(1) obtain u v w s0 s1 where h: "psl_segment_id l = psg_id g" "take_belongs l s = Inr (u, s0)"
    "update_selection_or_stale l' e s0 = Inr (v, s1)" "update_segment_or_stale g' f s1 = Inr (w, s')"
    by (auto simp: select_take_and_update_segment_def Let_def l'_def g'_def)
  note s0 = take_belongs_Inr(1) [OF h(2)]
  note s1 = update_selection_or_stale_Inr [OF h(3), unfolded s0]
  note s2 = update_segment_or_stale_Inr [OF h(4)]
  show "psl_segment_id l = psg_id g" by (rule h(1))
  show "\<exists>t \<in> set (pdb_takes s). rtk_id t = psl_take_id l \<and> rtk_segment_id t = psl_segment_id l"
    by (rule take_belongs_Inr(2) [OF h(2)])
  show "\<exists>q \<in> set (pdb_selections s). matches_selection l' e q" by (rule s1(1))
  show "\<exists>q \<in> set (pdb_segments s). matches_segment g' f q" using s2(1) s1(2) by simp
  show "s' = s\<lparr>pdb_segments := sql_update (matches_segment g' f) (written_segment g') (pdb_segments s),
      pdb_selections := sql_update (matches_selection l' e) (\<lambda>r. selection_row_of l') (pdb_selections s)\<rparr>"
    using s2(2) s1(2) by simp
qed

lemma ok_choose:
  assumes ok: "workbench_ok auto s" and r: "select_take_and_update_segment l e g f s = Inr (r, s')"
    and u: "\<not> is_accepted (psg_review_state g)"
  shows "workbench_ok auto s'"
proof -
  let ?l = "l\<lparr>psl_revision := u64_saturating_add e 1\<rparr>" and ?g = "g\<lparr>psg_revision := u64_saturating_add f 1\<rparr>"
  note h = select_take_and_update_segment_Inr [OF r]
  let ?s = "s\<lparr>pdb_segments := sql_update (matches_segment ?g f) (written_segment ?g) (pdb_segments s)\<rparr>"
  let ?rows = "sql_update (matches_selection ?l e) (\<lambda>r. selection_row_of ?l) (pdb_selections s)"
  have wf: "proof_wf s" using ok by (simp add: workbench_ok_def)
  have ok1: "workbench_ok auto ?s" using ok_write_segment [OF ok h(4)] u by simp
  from h(3) obtain q where q: "q \<in> set (pdb_selections s)" "matches_selection ?l e q" by blast
  have "workbench_ok auto (?s\<lparr>pdb_selections := ?rows\<rparr>)"
  proof (rule workbench_ok_selections [OF ok1])
    have "map rsl_segment_id ?rows = map rsl_segment_id (pdb_selections s)"
      by (rule map_sql_update) (simp add: matches_selection_def selection_row_of_def)
    then show "distinct (map rsl_segment_id ?rows)" using wf by (simp add: proof_wf_def)
  next
    fix p assume "p \<in> set ?rows"
    then obtain p0 where p: "p0 \<in> set (pdb_selections s)" "p = (if matches_selection ?l e p0 then selection_row_of ?l else p0)"
      unfolding set_sql_update by blast
    have "take_known s (auto (psl_segment_id l))"
      using ok q by (auto simp: workbench_ok_def matches_selection_def)
    then have "take_known ?s (auto (psl_segment_id l))" by (simp add: take_known_def)
    moreover have "selects_own_take ?s (selection_row_of ?l)"
      using h(2) by (auto simp: selects_own_take_def selection_row_of_def)
    ultimately show "p \<in> set (pdb_selections ?s) \<or> selection_row_ok p \<and> selects_own_take ?s p
      \<and> take_known ?s (auto (rsl_segment_id p))"
      using p by (auto simp: selection_row_ok_def selection_row_of_def)
  next
    fix p assume p: "p \<in> set (pdb_segments ?s)" "is_accepted (psg_review_state (rsg_payload p))"
      "selection_current ?s (rsg_payload p)"
    have "rsg_id p \<noteq> psg_id g"
    proof
      assume i: "rsg_id p = psg_id g"
      have "p = written_segment ?g p0" if "p0 \<in> set (pdb_segments s)" "rsg_id p0 = psg_id g"
        "p = (if rsg_id p0 = psg_id ?g then written_segment ?g p0 else p0)" for p0 using that by simp
      moreover from p(1) obtain p0 where "p0 \<in> set (pdb_segments s)"
        "p = (if rsg_id p0 = psg_id ?g then written_segment ?g p0 else p0)"
        unfolding written_rows [OF wf h(4)] by (auto simp: set_sql_update)
      moreover from this i have "rsg_id p0 = psg_id g" by (auto simp: written_segment_def split: if_splits)
      ultimately have "rsg_payload p = ?g" by (simp add: written_segment_def)
      with p(2) u show False by simp
    qed
    moreover have "psg_id (rsg_payload p) = rsg_id p"
      using ok1 p(1) by (simp add: workbench_ok_def proof_wf_def segment_row_ok_def)
    ultimately have other: "psg_id (rsg_payload p) \<noteq> psl_segment_id l" using h(1) by simp
    from p(3) obtain k where k: "k \<in> set (pdb_selections s)" "rsl_segment_id k = psg_id (rsg_payload p)"
      "\<exists>t \<in> set (pdb_takes s). rtk_id t = rsl_take_id k
         \<and> ptk_semantic_input_hash (rtk_payload t) = psg_expected_input_hash (rsg_payload p)"
      by (auto simp: selection_current_def)
    have "\<not> matches_selection ?l e k" using k(2) other by (simp add: matches_selection_def)
    with k(1) have "k \<in> set ?rows" by (force simp: set_sql_update)
    with k(2,3) show "selection_current (?s\<lparr>pdb_selections := ?rows\<rparr>) (rsg_payload p)"
      by (auto simp: selection_current_def)
  qed
  with h(5) show ?thesis by simp
qed

section \<open>Replacing the plan\<close>

definition inactive :: "segment_row \<Rightarrow> segment_row" where
  "inactive r = r\<lparr>rsg_active := False, rsg_payload := (rsg_payload r)\<lparr>psg_active := False\<rparr>\<rparr>"

lemma inactive_fields [simp]: "rsg_id (inactive r) = rsg_id r"
  by (simp add: inactive_def)

lemma deactivate_rows:
  assumes "distinct (map rsg_id rows)" and "set todo \<subseteq> set rows" and "distinct todo" and "D \<inter> set todo = {}"
  shows "tx_foreach todo deactivate_row (s\<lparr>pdb_segments := map (\<lambda>r. if r \<in> D then inactive r else r) rows\<rparr>)
    = Inr ((), s\<lparr>pdb_segments := map (\<lambda>r. if r \<in> D \<union> set todo then inactive r else r) rows\<rparr>)"
  using assms(2-4)
proof (induction todo arbitrary: D)
  case Nil
  show ?case by (simp add: tx_return_def)
next
  case (Cons row todo)
  have key: "rsg_id r = rsg_id row \<longleftrightarrow> r = row" if "r \<in> set rows" for r
    using same_key [OF assms(1) that, of row] Cons.prems(1) by auto
  have "sql_update (\<lambda>r. rsg_id r = rsg_id row)
      (\<lambda>r. r\<lparr>rsg_active := False, rsg_payload := (rsg_payload row)\<lparr>psg_active := False\<rparr>\<rparr>)
      (map (\<lambda>r. if r \<in> D then inactive r else r) rows)
    = map (\<lambda>r. if r \<in> insert row D then inactive r else r) rows"
    using key Cons.prems(3) by (auto simp: sql_update_def inactive_def)
  then have step: "deactivate_row row (s\<lparr>pdb_segments := map (\<lambda>r. if r \<in> D then inactive r else r) rows\<rparr>)
    = Inr ((), s\<lparr>pdb_segments := map (\<lambda>r. if r \<in> insert row D then inactive r else r) rows\<rparr>)"
    by (simp add: deactivate_row_def)
  have "tx_foreach todo deactivate_row (s\<lparr>pdb_segments := map (\<lambda>r. if r \<in> insert row D then inactive r else r) rows\<rparr>)
    = Inr ((), s\<lparr>pdb_segments := map (\<lambda>r. if r \<in> insert row D \<union> set todo then inactive r else r) rows\<rparr>)"
    using Cons.prems by (intro Cons.IH) auto
  with step show ?case by (simp add: tx_then_def tx_bind_def)
qed

lemma deactivate_active_segments_eq:
  assumes "proof_wf s"
  shows "deactivate_active_segments p s = Inr ((), s\<lparr>pdb_segments :=
    map (\<lambda>r. if rsg_project_id r = p \<and> rsg_active r then inactive r else r) (pdb_segments s)\<rparr>)"
proof -
  let ?todo = "filter (\<lambda>r. rsg_project_id r = p \<and> rsg_active r) (pdb_segments s)"
  have d: "distinct (map rsg_id (pdb_segments s))" using assms by (simp add: proof_wf_def)
  then have "distinct ?todo" by (simp add: distinct_map)
  from deactivate_rows [OF d _ this, of "{}" s]
  have "tx_foreach ?todo deactivate_row s
    = Inr ((), s\<lparr>pdb_segments := map (\<lambda>r. if r \<in> set ?todo then inactive r else r) (pdb_segments s)\<rparr>)" by simp
  moreover have "map (\<lambda>r. if r \<in> set ?todo then inactive r else r) (pdb_segments s)
    = map (\<lambda>r. if rsg_project_id r = p \<and> rsg_active r then inactive r else r) (pdb_segments s)" by simp
  ultimately show ?thesis by (simp add: deactivate_active_segments_def tx_bind_def tx_gets_def)
qed

lemma ok_deactivate: "tx_keeps (workbench_ok auto) (deactivate_active_segments p)"
proof
  fix s u s'
  assume ok: "workbench_ok auto s" and r: "deactivate_active_segments p s = Inr (u, s')"
  let ?rows = "map (\<lambda>r. if rsg_project_id r = p \<and> rsg_active r then inactive r else r) (pdb_segments s)"
  have wf: "proof_wf s" using ok by (simp add: workbench_ok_def)
  have "workbench_ok auto (s\<lparr>pdb_segments := ?rows\<rparr>)"
  proof (rule workbench_ok_segments [OF ok])
    show "map rsg_id ?rows = map rsg_id (pdb_segments s) \<or> distinct (map rsg_id ?rows)" by simp
  next
    fix r assume "r \<in> set ?rows"
    then obtain q where q: "q \<in> set (pdb_segments s)" "r = inactive q \<or> r = q" by auto
    then show "segment_row_ok r" using wf by (auto simp: proof_wf_def segment_row_ok_def inactive_def)
    assume "is_accepted (psg_review_state (rsg_payload r))"
    with q ok show "selection_current s (rsg_payload r)"
      by (auto simp: workbench_ok_def selection_current_def inactive_def)
  qed
  with r show "workbench_ok auto s'" by (simp add: deactivate_active_segments_eq [OF wf])
qed

lemma insert_segment_Inr:
  assumes "insert_segment g s = Inr (u, s')"
  shows "s' = s\<lparr>pdb_segments := pdb_segments s @ [segment_row_of g]\<rparr>" and "\<not> segment_known s (psg_id g)"
  using assms by (auto simp: insert_segment_def)

lemma ok_insert_segment:
  assumes "\<not> is_accepted (psg_review_state g)"
  shows "tx_keeps (workbench_ok auto) (insert_segment g)"
proof
  fix s u s'
  assume ok: "workbench_ok auto s" and r: "insert_segment g s = Inr (u, s')"
  note i = insert_segment_Inr [OF r]
  have "workbench_ok auto (s\<lparr>pdb_segments := pdb_segments s @ [segment_row_of g]\<rparr>)"
  proof (rule workbench_ok_segments [OF ok])
    show "map rsg_id (pdb_segments s @ [segment_row_of g]) = map rsg_id (pdb_segments s)
      \<or> distinct (map rsg_id (pdb_segments s @ [segment_row_of g]))"
      using ok i(2) by (auto simp: workbench_ok_def proof_wf_def segment_row_of_def segment_known_def list_ex_iff)
  next
    fix r assume r: "r \<in> set (pdb_segments s @ [segment_row_of g])"
    with ok show "segment_row_ok r"
      by (auto simp: workbench_ok_def proof_wf_def segment_row_of_def segment_row_ok_def)
    assume "is_accepted (psg_review_state (rsg_payload r))"
    with r ok assms show "selection_current s (rsg_payload r)"
      by (auto simp: workbench_ok_def segment_row_of_def)
  qed
  with i(1) show "workbench_ok auto s'" by simp
qed

lemma ok_elsewhere:
  assumes "\<And>s a s'. m s = Inr (a, s') \<Longrightarrow> pdb_segments s' = pdb_segments s \<and> pdb_takes s' = pdb_takes s
    \<and> pdb_selections s' = pdb_selections s"
  shows "tx_keeps (workbench_ok auto) m"
proof
  fix s a s' assume "workbench_ok auto s" and "m s = Inr (a, s')"
  with assms workbench_ok_tables [of s' s auto] show "workbench_ok auto s'" by blast
qed

lemma ok_other_tables:
  "tx_keeps (workbench_ok auto) (on_db m)" "tx_keeps (workbench_ok auto) (upsert_plan plan)"
  "tx_keeps (workbench_ok auto) (upsert_job_unit u)" "tx_keeps (workbench_ok auto) (update_plan plan e)"
  "tx_keeps (workbench_ok auto) (proof_insert_job j)" "tx_keeps (workbench_ok auto) (insert_export_snapshot x)"
  by (rule ok_elsewhere, auto simp: on_db_Inr upsert_plan_def upsert_job_unit_def update_plan_def
      update_plan_row_def proof_insert_job_def insert_export_snapshot_def)+

lemma ok_replace_plan:
  assumes "\<forall>g \<in> set segments. \<not> is_accepted (psg_review_state g)"
  shows "tx_keeps (workbench_ok auto) (replace_plan_with_units plan segments units)"
  unfolding replace_plan_with_units_def
  by (intro tx_keeps_then tx_keeps_lift ok_deactivate tx_keeps_foreach ok_insert_segment ok_other_tables) (use assms in auto)

lemma ok_insert_graph: "tx_keeps (workbench_ok auto) (insert_job_graph_inner ufold d j units snapshot out)"
  unfolding insert_job_graph_inner_def
  by (intro tx_keeps_then tx_keeps_lift tx_keeps_ensure tx_keeps_foreach tx_keeps_case_option tx_keeps_return ok_other_tables)

end
