(* ===== verification/Proofing_Runs.thy ===== *)
theory Proofing_Runs
  imports Proofing_Correctness
begin

text \<open>
  The proofing workbench as a whole: runs of its operations, in any order and with any catalog, the invariant
  of every state they reach, and what every step keeps of a locked segment.
\<close>

section \<open>Handlers keep the invariant\<close>

lemma ensure_approvable_Inr:
  assumes "proof_wf s" and "ensure_approvable g s = (Inr u, s')"
  shows "selection_current s g"
proof -
  from assms(2) obtain l t where l: "find_selection s (psg_id g) = Some l"
    and t: "find (\<lambda>r. rtk_id r = psl_take_id (rsl_payload l)) (pdb_takes s) = Some t"
    and h: "ptk_semantic_input_hash (rtk_payload t) = psg_expected_input_hash g"
    by (auto simp: ensure_approvable_def get_selection_def get_take_def)
  have "l \<in> set (pdb_selections s)" "rsl_segment_id l = psg_id g" "t \<in> set (pdb_takes s)"
    "rtk_id t = psl_take_id (rsl_payload l)"
    using l t by (auto simp: find_selection_def dest: find_Some_D)
  moreover from this assms(1) have "psl_take_id (rsl_payload l) = rsl_take_id l"
    by (simp add: proof_wf_def selection_row_ok_def)
  ultimately show ?thesis using h unfolding selection_current_def by auto
qed

lemma ok_edit_write:
  assumes ok: "workbench_ok auto s" and r: "update_segment_and_plan g e plan f s = Inr (g', s')"
    and u: "\<not> is_accepted (psg_review_state g)"
  shows "workbench_ok auto s'"
proof -
  note h = update_segment_and_plan_Inr [OF r]
  have "workbench_ok auto (s\<lparr>pdb_segments := sql_update (matches_segment g' e) (written_segment g') (pdb_segments s)\<rparr>)"
    using ok_write_segment [OF ok h(2)] u h(1) by simp
  with h(3) show ?thesis
    using workbench_ok_tables [of s' "s\<lparr>pdb_segments := sql_update (matches_segment g' e) (written_segment g') (pdb_segments s)\<rparr>" auto]
    by auto
qed

lemma ok_review_write:
  assumes ok: "workbench_ok auto s" and r: "update_segment (g\<lparr>psg_review_state := st, psg_updated_at := now\<rparr>) e s = Inr (g', s')"
    and c: "(if is_accepted st then ensure_approvable g else svc_return ()) s = (Inr u, s)"
  shows "workbench_ok auto s'"
proof -
  note h = update_segment_Inr [OF r]
  have "selection_current s g'" if "is_accepted st"
  proof -
    from ok have "proof_wf s" by (simp add: workbench_ok_def)
    from ensure_approvable_Inr [OF this, of g] c that have "selection_current s g" by simp
    then show ?thesis by (simp add: h(1) selection_current_def)
  qed
  then have "workbench_ok auto (s\<lparr>pdb_segments := sql_update (matches_segment g' e) (written_segment g') (pdb_segments s)\<rparr>)"
    using ok_write_segment [OF ok h(2)] h(1) by simp
  with h(3) show ?thesis by simp
qed

lemma not_accepted [simp]: "\<not> is_accepted Unreviewed" "\<not> is_accepted Flagged" "is_accepted Approved" "is_accepted Locked"
  by (simp_all add: is_accepted_def)

lemmas after_ok = after_bind [where P = "workbench_ok auto" for auto] after_then [where P = "workbench_ok auto" for auto]
  after_call [where P = "workbench_ok auto" for auto] after_call_bind [where P = "workbench_ok auto" for auto]

lemma ok_edit_segment:
  assumes ok: "workbench_ok auto s"
  shows "workbench_ok auto (snd (edit_segment wb p i input clk s))"
  unfolding edit_segment_def Let_def
  by (intro after_ok reads guards_read getters_read ok) (erule ok_edit_write [OF ok], simp)

lemma ok_update_review:
  assumes ok: "workbench_ok auto s"
  shows "workbench_ok auto (snd (update_review wb p i st e now s))"
  unfolding update_review_def
  by (intro after_ok reads guards_read getters_read ok) (erule ok_review_write [OF ok])

lemma ok_choose_take:
  assumes ok: "workbench_ok auto s"
  shows "workbench_ok auto (snd (choose_take wb p i t e f clk s))"
proof -
  have w: "workbench_ok auto (snd (svc_bind (svc_call w (select_take_and_update_segment l e
      (g\<lparr>psg_review_state := Unreviewed, psg_updated_at := x\<rparr>) f)) (\<lambda>(_, stored). svc_return stored) s))" for w l g x
    by (rule after_call_bind [where P = "workbench_ok auto"], rule ok, drule ok_choose [OF ok])
      (simp_all add: svc_return_def split: prod.split)
  show ?thesis
    unfolding choose_take_def
    by ((rule after_ok(2), (intro reads guards_read)[1], rule ok)+, rule after_ok(1), (intro reads guards_read)[1],
        rule ok, (rule after_ok(2), (intro reads guards_read)[1], rule ok)+, rule w)
qed

lemma ok_admit_plan:
  assumes ok: "workbench_ok auto s"
  shows "workbench_ok auto (snd (admit_plan wb j p chapters units now s))"
proof -
  have k: "tx_keeps (workbench_ok auto) (replace_plan_with_units plan (map (planned_segment wb p n now) gs) units)"
    for plan n gs by (rule ok_replace_plan) (simp add: planned_segment_def)
  have "workbench_ok auto (snd (svc_call as_storage (replace_plan_with_units plan
      (map (planned_segment wb p n now) gs) units) s))" for plan n gs
    by (rule after_call [where P = "workbench_ok auto"], rule ok, erule tx_keepsD [OF k _ ok])
  moreover have "svc_reads (build_proofing_plan wb j p chapters now)"
    unfolding build_proofing_plan_def Let_def by (intro reads getters_read)
  ultimately show ?thesis
    unfolding admit_plan_def build_proofing_plan_def
    by (auto simp: svc_bind_def svc_call_def svc_return_def Let_def get_plan_def tx_gets_def commit_def)
qed

lemma ok_plan_ready:
  assumes ok: "workbench_ok auto s"
  shows "workbench_ok auto (snd (mark_proofing_plan_ready p j now s))"
proof -
  have "workbench_ok auto (snd (svc_call as_storage (update_plan plan e) s))" for plan e
    by (rule after_call [where P = "workbench_ok auto"], rule ok, erule tx_keepsD [OF ok_other_tables(4) _ ok])
  with ok show ?thesis
    by (auto simp: mark_proofing_plan_ready_def svc_bind_def svc_call_def svc_return_def get_plan_def tx_gets_def commit_def
        split: option.split)
qed

lemma ok_record_take:
  assumes ok: "workbench_ok auto s"
    and a: "ju_payload unit ''autoSelect'' = Some (JBool True) \<Longrightarrow> t = auto segment"
  shows "workbench_ok auto (snd (record_take wb intact j g unit t segment artifact duration now s))"
proof -
  let ?t = "\<lambda>n. finished_take wb j g unit t segment artifact n duration now"
  have f: "ptk_id (?t n) = t" "ptk_segment_id (?t n) = segment" for n by (simp_all add: finished_take_def Let_def)
  show ?thesis
    unfolding record_take_def Let_def
  proof (intro after_bind [where P = "workbench_ok auto"] reads getters_read ok, goal_cases)
    case (1 existing)
    show ?case
    proof (cases existing)
      case None
      have "workbench_ok auto (snd (svc_call as_storage (insert_take_and_select (?t n)
          \<lparr>psl_segment_id = segment, psl_take_id = t, psl_selected_at = now, psl_revision = 0\<rparr>) s))"
        if "ju_payload unit ''autoSelect'' = Some (JBool True)" for n
        by (rule after_call [where P = "workbench_ok auto"], rule ok, drule ok_insert_take_and_select [OF ok])
          (use a [OF that] f in auto)
      moreover have "workbench_ok auto (snd (svc_call as_storage (insert_take (?t n)) s))" for n
        by (rule after_call [where P = "workbench_ok auto"], rule ok) (unfold insert_take_def, erule ok_insert_take [OF ok])
      ultimately show ?thesis using None by (simp add: svc_bind_def svc_gets_def)
    next
      case (Some e)
      with ok show ?thesis by (simp add: svc_lift_def svc_fail_def svc_return_def split: sum.split)
    qed
  qed
qed

lemma ok_persist:
  assumes ok: "workbench_ok auto s"
    and a: "\<And>segment. ju_segment_id unit = Some segment \<Longrightarrow> ju_payload unit ''autoSelect'' = Some (JBool True) \<Longrightarrow>
      payload_id wb unit ''takeId'' = Some (auto segment)"
  shows "workbench_ok auto (snd (persist_proof_take wb intact materialised j g unit now s))"
proof (cases "ju_segment_id unit")
  case None
  with ok show ?thesis by (simp add: persist_proof_take_def svc_return_def)
next
  case (Some segment)
  show ?thesis
    unfolding persist_proof_take_def Some option.case
  proof (intro after_bind [where P = "workbench_ok auto"] reads getters_read ok, goal_cases)
    case (1 t existing)
    then have t: "payload_id wb unit ''takeId'' = Some t" by (simp add: svc_some_def svc_return_def split: option.splits)
    show ?case
    proof (cases existing)
      case (Some e)
      with ok show ?thesis by (simp add: svc_lift_def svc_fail_def svc_return_def split: sum.split)
    next
      case None
      show ?thesis
        unfolding None option.case
      proof (intro after_bind [where P = "workbench_ok auto"] reads ok, goal_cases)
        case (1 artifact duration)
        let ?s = "s\<lparr>pdb_artifacts := pdb_artifacts s @ [artifact]\<rparr>"
        have "workbench_ok auto ?s" using ok workbench_ok_tables [of ?s s auto] by simp
        from ok_record_take [OF this, of unit t segment, where wb = wb] ok_record_take [OF ok, of unit t segment, where wb = wb]
          a [OF \<open>ju_segment_id unit = Some segment\<close>] t
        show ?case by (simp add: svc_then_def svc_bind_def svc_call_def tx_modify_def commit_def)
      qed
    qed
  qed
qed

section \<open>Runs of the workbench\<close>

text \<open>
  Any operation, with any catalog that \<open>admitted\<close> allows. A synthesis unit that selects its take is the
  one its segment got when the conversion was planned (conversion/units.rs gives every planned segment one
  unit with a fresh take): \<open>auto\<close> names that take. The last case is anything the other repositories do.
\<close>

inductive workbench_step ::
  "('rx workbench \<Rightarrow> bool) \<Rightarrow> (segment_id \<Rightarrow> take_id) \<Rightarrow> proof_db \<Rightarrow> proof_db \<Rightarrow> bool"
  for admitted :: "'rx workbench \<Rightarrow> bool" and auto :: "segment_id \<Rightarrow> take_id" and s :: proof_db where
  edited: "admitted wb \<Longrightarrow> workbench_step admitted auto s (snd (edit_segment wb p i input clk s))"
| reviewed: "admitted wb \<Longrightarrow> workbench_step admitted auto s (snd (update_review wb p i st e now s))"
| chosen: "admitted wb \<Longrightarrow> workbench_step admitted auto s (snd (choose_take wb p i t e f clk s))"
| planned: "admitted wb \<Longrightarrow> workbench_step admitted auto s (snd (admit_plan wb j p chapters units now s))"
| recorded: "admitted wb \<Longrightarrow>
    (\<And>segment. ju_segment_id unit = Some segment \<Longrightarrow> ju_payload unit ''autoSelect'' = Some (JBool True) \<Longrightarrow>
      payload_id wb unit ''takeId'' = Some (auto segment)) \<Longrightarrow>
    workbench_step admitted auto s (snd (persist_proof_take wb intact materialised j g unit now s))"
| finished: "workbench_step admitted auto s (snd (mark_proofing_plan_ready p j now s))"
| exported: "workbench_step admitted auto s
    (snd (commit (insert_export_job_graph_with_output_reservation ufold decode_id j units snapshot out) s))"
| elsewhere: "workbench_step admitted auto s (s\<lparr>pdb_base := d\<rparr>)"

inductive workbench_run :: "('rx workbench \<Rightarrow> bool) \<Rightarrow> (segment_id \<Rightarrow> take_id) \<Rightarrow> proof_db \<Rightarrow> bool"
  for admitted :: "'rx workbench \<Rightarrow> bool" and auto :: "segment_id \<Rightarrow> take_id" where
  empty: "workbench_run admitted auto \<lparr>pdb_base = d, pdb_paragraphs = paragraphs, pdb_artifacts = artifacts,
    pdb_plans = [], pdb_segments = [], pdb_takes = [], pdb_selections = [], pdb_snapshots = []\<rparr>"
| step: "workbench_run admitted auto s \<Longrightarrow> workbench_step admitted auto s s' \<Longrightarrow> workbench_run admitted auto s'"

lemma workbench_step_ok:
  assumes "workbench_step admitted auto s s'" and "workbench_ok auto s"
  shows "workbench_ok auto s'"
  using assms(1)
proof cases
  case (exported ufold decode_id j units snapshot out)
  have "tx_keeps (workbench_ok auto) (insert_export_job_graph_with_output_reservation ufold decode_id j units snapshot out)"
    unfolding insert_export_job_graph_with_output_reservation_def
    by (intro tx_keeps_then tx_keeps_lift ok_insert_graph)
  with exported assms(2) show ?thesis by (simp add: tx_keeps_commit)
next
  case (elsewhere d)
  with assms(2) workbench_ok_tables [of s' s auto] show ?thesis by simp
next
  case (recorded wb unit intact materialised j g now)
  then show ?thesis using ok_persist [OF assms(2), of unit wb] by blast
qed (use assms(2) in \<open>simp_all add: ok_edit_segment ok_update_review ok_choose_take ok_admit_plan ok_plan_ready\<close>)

lemma workbench_run_ok: "workbench_run admitted auto s \<Longrightarrow> workbench_ok auto s"
proof (induction rule: workbench_run.induct)
  case (empty d paragraphs artifacts)
  show ?case by (simp add: workbench_ok_def proof_wf_def)
next
  case (step s s')
  then show ?case using workbench_step_ok by blast
qed

section \<open>Decoded segments\<close>

lemma get_segment_Inr:
  "get_segment i s = Inr (Some g, s') \<longleftrightarrow> s' = s
    \<and> (\<exists>r. find (\<lambda>q. rsg_id q = i) (pdb_segments s) = Some r \<and> g = decode_segment_row r)"
  by (cases "find (\<lambda>q. rsg_id q = i) (pdb_segments s)") (auto simp: get_segment_def)

lemma decode_fields [simp]:
  "psg_review_state (decode_segment_row r) = psg_review_state (rsg_payload r)"
  "psg_expected_input_hash (decode_segment_row r) = psg_expected_input_hash (rsg_payload r)"
  "psg_id (decode_segment_row r) = psg_id (rsg_payload r)"
  by (simp_all add: decode_segment_row_def)

section \<open>Locked segments\<close>

text \<open>What a locked segment consists of: everything but its review state, whether it is active, its revision
  and time stamp.\<close>

definition content :: "production_segment \<Rightarrow> production_segment" where
  "content g = g\<lparr>psg_review_state := Unreviewed, psg_active := False, psg_revision := 0, psg_updated_at := 0\<rparr>"

definition kept_locked :: "segment_id \<Rightarrow> proof_db \<Rightarrow> proof_db \<Rightarrow> bool" where
  "kept_locked i s s' \<longleftrightarrow>
     (\<exists>r r'. find (\<lambda>q. rsg_id q = i) (pdb_segments s) = Some r \<and> find (\<lambda>q. rsg_id q = i) (pdb_segments s') = Some r'
        \<and> is_accepted (psg_review_state (rsg_payload r')) \<and> content (rsg_payload r') = content (rsg_payload r))
     \<and> find_selection s' i = find_selection s i
     \<and> (\<forall>k t. find (\<lambda>q. rtk_id q = k) (pdb_takes s) = Some t \<longrightarrow> find (\<lambda>q. rtk_id q = k) (pdb_takes s') = Some t)"

definition locked_in :: "segment_id \<Rightarrow> proof_db \<Rightarrow> bool" where
  "locked_in i s \<longleftrightarrow> is_some_and (find (\<lambda>q. rsg_id q = i) (pdb_segments s)) (\<lambda>r. psg_review_state (rsg_payload r) = Locked)"

lemma kept_locked_refl: "locked_in i s \<Longrightarrow> kept_locked i s s"
  by (auto simp: locked_in_def kept_locked_def is_some_and_def split: option.splits)

lemma kept_locked_tables:
  assumes "kept_locked i s s1" and "pdb_segments s2 = pdb_segments s1" "pdb_takes s2 = pdb_takes s1"
    "pdb_selections s2 = pdb_selections s1"
  shows "kept_locked i s s2"
  using assms by (simp add: kept_locked_def find_selection_def)

text \<open>Writing another segment, or the review state of this one.\<close>

lemma kept_locked_write:
  assumes l: "locked_in i s" and "psg_id g \<noteq> i \<or> is_accepted (psg_review_state g)
    \<and> (\<forall>r. find (\<lambda>q. rsg_id q = i) (pdb_segments s) = Some r \<longrightarrow> content g = content (rsg_payload r))"
  shows "kept_locked i s (s\<lparr>pdb_segments := sql_update (matches_segment g e) (written_segment g) (pdb_segments s)\<rparr>)"
proof -
  from l obtain r where r: "find (\<lambda>q. rsg_id q = i) (pdb_segments s) = Some r" "psg_review_state (rsg_payload r) = Locked"
    by (auto simp: locked_in_def is_some_and_def split: option.splits)
  let ?r = "if matches_segment g e r then written_segment g r else r"
  have "find (\<lambda>q. rsg_id q = i) (sql_update (matches_segment g e) (written_segment g) (pdb_segments s)) = Some ?r"
    by (subst find_sql_update) (simp_all add: r(1) written_segment_def)
  moreover from find_Some_D [OF r(1)] have "rsg_id r = i" by simp
  ultimately show ?thesis using assms(2) r by (auto simp: kept_locked_def find_selection_def written_segment_def matches_segment_def)
qed

lemma owned_segment_Inr:
  assumes "owned_segment p j s = (Inr g, s')" and "proof_wf s"
  shows "\<exists>r. find (\<lambda>q. rsg_id q = j) (pdb_segments s) = Some r \<and> g = decode_segment_row r \<and> psg_id g = j"
proof -
  from assms(1) obtain r where r: "find (\<lambda>q. rsg_id q = j) (pdb_segments s) = Some r" "g = decode_segment_row r"
    by (auto simp: owned_segment_def get_segment_Inr)
  then have "r \<in> set (pdb_segments s)" "rsg_id r = j" by (auto dest: find_Some_D)
  with assms(2) have "psg_id (rsg_payload r) = j" by (simp add: proof_wf_def segment_row_ok_def)
  with r show ?thesis by simp
qed

lemma owned_locked: "owned_segment p i s = (Inr g, s') \<Longrightarrow> proof_wf s \<Longrightarrow> locked_in i s \<Longrightarrow> psg_review_state g = Locked"
  by (auto simp: locked_in_def is_some_and_def dest!: owned_segment_Inr)

lemma apply_segment_input_id: "apply_segment_input input g = Inr g' \<Longrightarrow> psg_id g' = psg_id g"
  by (auto simp: apply_segment_input_def Let_def split: if_splits option.splits sum.splits)

lemma redirect_segment_id: "redirect_segment wb p g = Inr g' \<Longrightarrow> psg_id g' = psg_id g"
  by (auto simp: redirect_segment_def Let_def split: sum.splits option.splits prod.splits)

lemma workbench_wf: "workbench_ok auto s \<Longrightarrow> proof_wf s"
  by (simp add: workbench_ok_def)

lemmas after_kept = after_bind [where P = "kept_locked i s" for i s] after_then [where P = "kept_locked i s" for i s]
  after_call [where P = "kept_locked i s" for i s] after_call_bind [where P = "kept_locked i s" for i s]

lemma locked_has_selection:
  assumes ok: "workbench_ok auto s" and locked: "locked_in i s"
  shows "find_selection s i \<noteq> None"
proof -
  from locked obtain r where r: "find (\<lambda>q. rsg_id q = i) (pdb_segments s) = Some r" "psg_review_state (rsg_payload r) = Locked"
    by (auto simp: locked_in_def is_some_and_def split: option.splits)
  from find_Some_D [OF r(1)] have m: "r \<in> set (pdb_segments s)" "rsg_id r = i" by simp_all
  with ok r(2) have "selection_current s (rsg_payload r)" by (simp add: workbench_ok_def is_accepted_def)
  moreover from m workbench_wf [OF ok] have "psg_id (rsg_payload r) = i" by (simp add: proof_wf_def segment_row_ok_def)
  ultimately show ?thesis by (auto simp: selection_current_def find_selection_def find_None_iff)
qed

lemma kept_edit:
  assumes ok: "workbench_ok auto s" and locked: "locked_in i s"
  shows "kept_locked i s (snd (edit_segment wb p j input clk s))"
  unfolding edit_segment_def Let_def
proof (intro after_kept reads guards_read getters_read kept_locked_refl [OF locked], goal_cases)
  case (1 plan u v g w x g1 g2 everything g3 s')
  have "psg_id g = j" using owned_segment_Inr [OF 1(4) workbench_wf [OF ok]] by blast
  moreover have "j \<noteq> i"
  proof
    assume "j = i"
    with owned_locked [OF _ workbench_wf [OF ok] locked] 1(4) have "psg_review_state g = Locked" by blast
    with 1(6) show False by (simp add: svc_ensure_def svc_fail_def)
  qed
  moreover have "psg_id g2 = psg_id g"
    using 1(7,8) by (auto simp: svc_lift_def svc_return_def svc_fail_def dest!: apply_segment_input_id redirect_segment_id
        split: sum.splits)
  ultimately have id: "psg_id g2 \<noteq> i" by simp
  note h = update_segment_and_plan_Inr [OF 1(10)]
  have "kept_locked i s (s\<lparr>pdb_segments := sql_update (matches_segment g3 (su_expected_revision input)) (written_segment g3) (pdb_segments s)\<rparr>)"
    by (rule kept_locked_write [OF locked]) (simp add: h(1) id)
  with h(3) show ?case by (auto intro: kept_locked_tables)
qed

lemma kept_review:
  assumes ok: "workbench_ok auto s" and locked: "locked_in i s"
  shows "kept_locked i s (snd (update_review wb p j st e now s))"
  unfolding update_review_def
proof (intro after_kept reads guards_read getters_read kept_locked_refl [OF locked], goal_cases)
  case (1 plan u v g w x y g3 s')
  note h = update_segment_Inr [OF 1(8)]
  obtain r where r: "find (\<lambda>q. rsg_id q = j) (pdb_segments s) = Some r" "g = decode_segment_row r" "psg_id g = j"
    using owned_segment_Inr [OF 1(4) workbench_wf [OF ok]] by blast
  have "kept_locked i s (s\<lparr>pdb_segments := sql_update (matches_segment g3 e) (written_segment g3) (pdb_segments s)\<rparr>)"
  proof (rule kept_locked_write [OF locked], cases "j = i")
    case True
    with owned_locked [OF _ workbench_wf [OF ok] locked] 1(4) have "psg_review_state g = Locked" by blast
    with 1(6) have "st = Approved \<or> st = Locked" by (auto simp: svc_ensure_def svc_fail_def split: if_splits)
    then have "is_accepted (psg_review_state g3)" by (auto simp: h(1) is_accepted_def)
    moreover have "content g3 = content (rsg_payload r)" by (simp add: h(1) r(2) content_def decode_segment_row_def)
    ultimately show "psg_id g3 \<noteq> i \<or> is_accepted (psg_review_state g3)
      \<and> (\<forall>r. find (\<lambda>q. rsg_id q = i) (pdb_segments s) = Some r \<longrightarrow> content g3 = content (rsg_payload r))"
      using r(1) True by simp
  next
    case False
    with r(3) show "psg_id g3 \<noteq> i \<or> is_accepted (psg_review_state g3)
      \<and> (\<forall>r. find (\<lambda>q. rsg_id q = i) (pdb_segments s) = Some r \<longrightarrow> content g3 = content (rsg_payload r))"
      by (simp add: h(1))
  qed
  with h(3) show ?case by simp
qed

lemma kept_choose_write:
  assumes locked: "locked_in i s" and r: "select_take_and_update_segment l e g f s = Inr (r, s')" and g: "psg_id g \<noteq> i"
  shows "kept_locked i s s'"
proof -
  note h = select_take_and_update_segment_Inr [OF r]
  let ?l = "l\<lparr>psl_revision := u64_saturating_add e 1\<rparr>" and ?g = "g\<lparr>psg_revision := u64_saturating_add f 1\<rparr>"
  let ?s = "s\<lparr>pdb_segments := sql_update (matches_segment ?g f) (written_segment ?g) (pdb_segments s)\<rparr>"
  have "kept_locked i s ?s" by (rule kept_locked_write [OF locked]) (simp add: g)
  moreover have "find_selection s' i = find_selection ?s i"
  proof -
    have "find (\<lambda>r. rsl_segment_id r = i) (sql_update (matches_selection ?l e) (\<lambda>r. selection_row_of ?l) rows)
      = find (\<lambda>r. rsl_segment_id r = i) rows" for rows
      using g h(1) by (induction rows) (auto simp: matches_selection_def selection_row_of_def)
    then show ?thesis by (simp add: h(5) find_selection_def)
  qed
  ultimately show ?thesis by (simp add: kept_locked_def h(5))
qed

lemma kept_choose:
  assumes ok: "workbench_ok auto s" and locked: "locked_in i s"
  shows "kept_locked i s (snd (choose_take wb p j t e f clk s))"
proof -
  note refl = kept_locked_refl [OF locked]
  have w: "kept_locked i s (snd (svc_bind (svc_call w (select_take_and_update_segment l e
      (g\<lparr>psg_review_state := Unreviewed, psg_updated_at := x\<rparr>) f)) (\<lambda>(_, stored). svc_return stored) s))"
    if "psg_id g \<noteq> i" for w l g x
    by (rule after_call_bind [where P = "kept_locked i s"], rule refl, drule kept_choose_write [OF locked])
      (simp_all add: that svc_return_def split: prod.split)
  have other: "psg_id g \<noteq> i" if "owned_segment p j s = (Inr g, s)" "psg_review_state g \<noteq> Locked" for g
  proof
    assume "psg_id g = i"
    moreover have "psg_id g = j" using owned_segment_Inr [OF that(1) workbench_wf [OF ok]] by blast
    ultimately show False using owned_locked [OF _ workbench_wf [OF ok] locked] that by blast
  qed
  show ?thesis
    unfolding choose_take_def
    apply ((rule after_kept(2), (intro reads guards_read)[1], rule refl)+, rule after_kept(1),
        (intro reads guards_read)[1], rule refl, (rule after_kept(2), (intro reads guards_read)[1], rule refl)+)
    apply (rule w, rule other)
     apply assumption
    apply (simp add: svc_ensure_def svc_fail_def split: if_splits)
    done
qed

lemma kept_replace:
  assumes ok: "workbench_ok auto s" and locked: "locked_in i s"
    and r: "replace_plan_with_units plan segments units s = Inr (u, s')"
  shows "kept_locked i s s'"
proof -
  let ?k = "kept_locked i s"
  let ?rows = "map (\<lambda>r. if rsg_project_id r = ppl_project_id plan \<and> rsg_active r then inactive r else r) (pdb_segments s)"
  from locked obtain q where q: "find (\<lambda>r. rsg_id r = i) (pdb_segments s) = Some q" "psg_review_state (rsg_payload q) = Locked"
    by (auto simp: locked_in_def is_some_and_def split: option.splits)
  have "find (\<lambda>r. rsg_id r = i) ?rows = map_option (\<lambda>r. if rsg_project_id r = ppl_project_id plan \<and> rsg_active r
      then inactive r else r) (find (\<lambda>r. rsg_id r = i) (pdb_segments s))"
    using find_sql_update [of "\<lambda>r. rsg_project_id r = ppl_project_id plan \<and> rsg_active r" "\<lambda>r. rsg_id r = i" inactive]
    by (simp add: sql_update_def)
  with q have start: "?k (s\<lparr>pdb_segments := ?rows\<rparr>)"
    by (simp add: kept_locked_def find_selection_def is_accepted_def inactive_def content_def)
  have insert: "tx_keeps ?k (insert_segment g)" for g
  proof
    fix t u t' assume k: "?k t" and r: "insert_segment g t = Inr (u, t')"
    from k insert_segment_Inr(1) [OF r] show "?k t'" by (auto simp: kept_locked_def find_append find_selection_def)
  qed
  have rest: "tx_keeps ?k (upsert_job_unit v)" "tx_keeps ?k (upsert_plan plan)" for v
    by (rule tx_keepsI, erule kept_locked_tables; auto simp: upsert_job_unit_def on_db_Inr upsert_plan_def)+
  have "tx_keeps ?k (tx_then (tx_foreach segments insert_segment) (tx_then (tx_foreach units upsert_job_unit) (upsert_plan plan)))"
    by (intro tx_keeps_then tx_keeps_foreach insert rest)
  moreover from r have "tx_then (tx_foreach segments insert_segment) (tx_then (tx_foreach units upsert_job_unit) (upsert_plan plan))
      (s\<lparr>pdb_segments := ?rows\<rparr>) = Inr (u, s')"
    by (auto simp: replace_plan_with_units_def deactivate_active_segments_eq [OF workbench_wf [OF ok]])
  ultimately show ?thesis using start by (rule tx_keepsD)
qed

lemma kept_plan:
  assumes ok: "workbench_ok auto s" and locked: "locked_in i s"
  shows "kept_locked i s (snd (admit_plan wb j p chapters units now s))"
proof -
  have "kept_locked i s (snd (svc_call as_storage (replace_plan_with_units plan segments units) s))" for plan segments
    by (rule after_call [where P = "kept_locked i s"], rule kept_locked_refl [OF locked], erule kept_replace [OF ok locked])
  then show ?thesis
    unfolding admit_plan_def build_proofing_plan_def
    by (auto simp: svc_bind_def svc_call_def svc_return_def Let_def get_plan_def tx_gets_def commit_def)
qed

lemma kept_ready:
  assumes locked: "locked_in i s"
  shows "kept_locked i s (snd (mark_proofing_plan_ready p j now s))"
proof -
  have "kept_locked i s (snd (svc_call as_storage (update_plan plan e) s))" for plan e
    by (rule after_call [where P = "kept_locked i s"], rule kept_locked_refl [OF locked], drule update_plan_Inr)
      (auto intro: kept_locked_tables [OF kept_locked_refl [OF locked]])
  with kept_locked_refl [OF locked] show ?thesis
    by (auto simp: mark_proofing_plan_ready_def svc_bind_def svc_call_def svc_return_def get_plan_def tx_gets_def commit_def
        split: option.split)
qed

lemma kept_insert_take:
  assumes "kept_locked i s s1" and "insert_take_row t s1 = Inr (u, s')"
  shows "kept_locked i s s'"
  using assms by (auto simp: insert_take_row_Inr kept_locked_def find_append find_selection_def split: option.split)

lemma kept_record:
  assumes ok: "workbench_ok auto s1" and locked: "locked_in i s" and k: "kept_locked i s s1"
    and a: "ju_payload unit ''autoSelect'' = Some (JBool True) \<Longrightarrow> t = auto segment"
    and sel: "find_selection s i \<noteq> None"
  shows "kept_locked i s (snd (record_take wb intact j g unit t segment artifact duration now s1))"
proof -
  let ?t = "\<lambda>n. finished_take wb j g unit t segment artifact n duration now"
  have f: "ptk_id (?t n) = t" "ptk_segment_id (?t n) = segment" for n by (simp_all add: finished_take_def Let_def)
  have auto_case: "kept_locked i s s2"
    if "ju_payload unit ''autoSelect'' = Some (JBool True)"
      and r: "insert_take_and_select (?t n) \<lparr>psl_segment_id = segment, psl_take_id = t, psl_selected_at = now,
        psl_revision = 0\<rparr> s1 = Inr (u, s2)" for n u s2
  proof -
    have "ptk_id (?t n) = auto (ptk_segment_id (?t n))" unfolding f by (rule a [OF that(1)])
    from ok_insert_take_and_select [OF ok r this] obtain l' where
      l: "find_selection s1 segment = None" "rsl_segment_id l' = segment"
        "s2 = s1\<lparr>pdb_takes := pdb_takes s1 @ [take_row_of (?t n)], pdb_selections := pdb_selections s1 @ [l']\<rparr>"
      by (auto simp: f)
    have "segment \<noteq> i" using l(1) sel k by (auto simp: kept_locked_def)
    with k l(2,3) show ?thesis by (auto simp: kept_locked_def find_append find_selection_def split: option.split)
  qed
  show ?thesis
    unfolding record_take_def Let_def
  proof (intro after_bind [where P = "kept_locked i s"] reads getters_read k, goal_cases)
    case (1 existing)
    show ?case
    proof (cases existing)
      case None
      have "kept_locked i s (snd (svc_call as_storage (insert_take_and_select (?t n)
          \<lparr>psl_segment_id = segment, psl_take_id = t, psl_selected_at = now, psl_revision = 0\<rparr>) s1))"
        if "ju_payload unit ''autoSelect'' = Some (JBool True)" for n
        by (rule after_call [where P = "kept_locked i s"], rule k, erule auto_case [OF that])
      moreover have "kept_locked i s (snd (svc_call as_storage (insert_take (?t n)) s1))" for n
        by (rule after_call [where P = "kept_locked i s"], rule k) (unfold insert_take_def, erule kept_insert_take [OF k])
      ultimately show ?thesis using None by (simp add: svc_bind_def svc_gets_def)
    next
      case (Some e)
      with k show ?thesis by (simp add: svc_lift_def svc_fail_def svc_return_def split: sum.split)
    qed
  qed
qed

lemma kept_persist:
  assumes ok: "workbench_ok auto s" and locked: "locked_in i s"
    and a: "\<And>segment. ju_segment_id unit = Some segment \<Longrightarrow> ju_payload unit ''autoSelect'' = Some (JBool True) \<Longrightarrow>
      payload_id wb unit ''takeId'' = Some (auto segment)"
  shows "kept_locked i s (snd (persist_proof_take wb intact materialised j g unit now s))"
proof (cases "ju_segment_id unit")
  case None
  with kept_locked_refl [OF locked] show ?thesis by (simp add: persist_proof_take_def svc_return_def)
next
  case (Some segment)
  note refl = kept_locked_refl [OF locked]
  show ?thesis
    unfolding persist_proof_take_def Some option.case
  proof (intro after_bind [where P = "kept_locked i s"] reads getters_read refl, goal_cases)
    case (1 t existing)
    then have t: "payload_id wb unit ''takeId'' = Some t" by (simp add: svc_some_def svc_return_def split: option.splits)
    show ?case
    proof (cases existing)
      case (Some e)
      with refl show ?thesis by (simp add: svc_lift_def svc_fail_def svc_return_def split: sum.split)
    next
      case None
      show ?thesis
        unfolding None option.case
      proof (intro after_bind [where P = "kept_locked i s"] reads refl, goal_cases)
        case (1 artifact duration)
        let ?s = "s\<lparr>pdb_artifacts := pdb_artifacts s @ [artifact]\<rparr>"
        have s1: "workbench_ok auto ?s" using ok workbench_ok_tables [of ?s s auto] by simp
        have k1: "kept_locked i s ?s" by (rule kept_locked_tables [OF refl]) simp_all
        note r = kept_record [OF _ locked _ _ locked_has_selection [OF ok locked], of auto _ unit t segment wb]
        from r [OF s1 k1] r [OF ok refl] a [OF \<open>ju_segment_id unit = Some segment\<close>] t
        show ?case by (simp add: svc_then_def svc_bind_def svc_call_def tx_modify_def commit_def)
      qed
    qed
  qed
qed

lemma step_keeps_locked:
  assumes "workbench_step admitted auto s s'" and ok: "workbench_ok auto s" and locked: "locked_in i s"
  shows "kept_locked i s s'"
  using assms(1)
proof cases
  case (exported ufold decode_id j units snapshot out)
  have base: "tx_keeps (kept_locked i s) (on_db m)" "tx_keeps (kept_locked i s) (upsert_job_unit u)"
    "tx_keeps (kept_locked i s) (proof_insert_job k)" "tx_keeps (kept_locked i s) (insert_export_snapshot x)"
    for m :: "unit db_tx" and u k x
    by (rule tx_keepsI, erule kept_locked_tables;
        auto simp: upsert_job_unit_def on_db_Inr proof_insert_job_def insert_export_snapshot_def)+
  have "tx_keeps (kept_locked i s) (insert_export_job_graph_with_output_reservation ufold decode_id j units snapshot out)"
    unfolding insert_export_job_graph_with_output_reservation_def insert_job_graph_inner_def
    by (intro tx_keeps_then tx_keeps_lift tx_keeps_ensure tx_keeps_foreach tx_keeps_case_option tx_keeps_return base)
  from tx_keeps_commit [OF this kept_locked_refl [OF locked]] exported show ?thesis by simp
next
  case (elsewhere d)
  with kept_locked_tables [OF kept_locked_refl [OF locked], of s'] show ?thesis by simp
next
  case (recorded wb unit intact materialised j g now)
  then show ?thesis using kept_persist [OF ok locked, of unit wb] by blast
qed (use assms(2,3) in \<open>simp_all add: kept_edit kept_review kept_choose kept_plan kept_ready\<close>)


end
