(* ===== verification/Proofing_Properties.thy ===== *)
theory Proofing_Properties
  imports Proofing_Runs
begin

text \<open>
  What the proofing workbench guarantees an editor: accepted audio is current, a lock protects, an export is
  complete. The witnesses apply the theorems to one run: a conversion plans one segment, its take is recorded
  and selected, an editor locks it.
\<close>

section \<open>A concrete run\<close>

definition demo_job :: job where
  "demo_job = \<lparr>j_id = 1, j_project_id = 9, j_kind = Conversion, j_state = Completed,
     j_export_profile_id = None, j_reservation_id = None, j_progress_completed = 1, j_progress_total = 1,
     j_status_message = None, j_allow_budget_override = False, j_created_at = 0, j_started_at = Some 1,
     j_finished_at = Some 2, j_updated_at = 2, j_revision = 2\<rparr>"

definition demo_unit :: job_unit where
  "demo_unit = \<lparr>ju_id = 7, ju_job_id = 1, ju_kind = SynthesisSegment, ju_state = UnitCompleted, ju_chapter_id = Some 3,
     ju_segment_id = Some 5, ju_provider_profile_id = None, ju_dependencies = [], ju_attempt_count = 1,
     ju_next_attempt_at = None, ju_output_artifact_id = None,
     ju_payload = [''takeId'' \<mapsto> JStr ''six'', ''takeArtifactId'' \<mapsto> JStr ''eight'', ''autoSelect'' \<mapsto> JBool True],
     ju_created_at = 0, ju_updated_at = 0\<rparr>"

definition demo_base :: "unit_row list \<Rightarrow> db" where
  "demo_base units = \<lparr>db_providers = [], db_projects = [9], db_export_profiles = [], db_chapters = [3], db_segments = [],
     db_budgets = [], db_period_usage = [], db_reservations = [], db_allocations = [], db_jobs = [job_row_of demo_job],
     db_units = units, db_dependencies = [], db_attempts = [], db_outputs = [], db_ledger = [],
     db_ledger_last = 0, db_idempotency = [], db_rate_cards = []\<rparr>"

definition demo_assignment :: voice_assignment where
  "demo_assignment = \<lparr>va_provider_profile_id = 20, va_provider_name = ''local'', va_voice_id = 21, va_voice_name = ''Ada'',
     va_model = None, va_performance = default_performance, va_timing = default_timing\<rparr>"

definition demo_provider :: provider_entry where
  "demo_provider = \<lparr>pve_name = ''local'', pve_kind = LocalaiKind, pve_role = TtsRole, pve_mode = ManagedChild,
     pve_endpoint = None, pve_status = Online, pve_model = Some ''m'', pve_credential_configured = False,
     pve_capabilities = Some \<lparr>pcp_tts = True, pcp_model_performance = []\<rparr>, pve_capability_updated_at = Some 0\<rparr>"

definition demo_voice :: assigned_voice where
  "demo_voice = \<lparr>av_provider_id = 20, av_provider_name = ''local'', av_provider_kind = LocalaiKind,
     av_provider_role = Some TtsRole, av_provider_mode = Some ManagedChild, av_provider_endpoint = None,
     av_provider_snapshot_id = Some 22, av_provider_version = None, av_provider_concurrency = 2, av_voice_id = 21,
     av_voice_source = ''ada.onnx'', av_voice_name = ''Ada'', av_model = Some ''m'', av_performance = default_performance,
     av_timing = default_timing\<rparr>"

definition demo_segment_plan :: "assigned_voice segment_plan" where
  "demo_segment_plan = \<lparr>sg_id = 5, sg_proofing = True, sg_key = ''k'', sg_chapter_id = 3, sg_paragraph_id = 4,
     sg_source_content_hash = ''c'', sg_byte_start = 0, sg_byte_end = 3, sg_chapter_title = ''One'', sg_segment_ordinal = 0,
     sg_playback_ordinal = 0, sg_original_text = ''Hey'', sg_text = ''Hey'', sg_context = None,
     sg_assignment = \<lparr>sa_character_id = 30, sa_character_name = ''Ann'', sa_voice = demo_voice\<rparr>,
     sg_applied_rule_ids = [], sg_dictionary_revision = []\<rparr>"

definition demo_character :: catalog_character where
  "demo_character = \<lparr>cch_id = 30, cch_role = CharacterRole, cch_canonical_name = ''Ann'',
     cch_voice_assignment = Some demo_assignment\<rparr>"

definition demo_workbench :: "unit workbench" where
  "demo_workbench = \<lparr>wb_characters = \<lambda>_. Some [demo_character], wb_rules = [], wb_chapters = \<lambda>_. Some [(3, ''One'')],
     wb_language = \<lambda>_. None, wb_consent_cloud_text = \<lambda>_. False, wb_voices = [(21, 20)],
     wb_voice_sources = [21 \<mapsto> ''ada.onnx''], wb_providers = [20 \<mapsto> demo_provider],
     wb_stored_project = \<lambda>_. Inr (Some \<lparr>spj_book_id = 2, spj_language = None, spj_consent_book_text = False,
       spj_status = ReadyProject, spj_character_reviewed_at = Some 0\<rparr>),
     wb_stored_provider = \<lambda>_. Inr (Some \<lparr>spr_concurrency_override = Some 2, spr_capability_snapshot =
       Some \<lparr>csn_id = 22, csn_provider_version = None, csn_recommended_concurrency = None\<rparr>\<rparr>),
     wb_text = \<lparr>te_escape = id, te_build = \<lambda>_ _. Inr (), te_replace_expand = \<lambda>_ t _. t,
       te_replace_literal = \<lambda>_ t _. t, te_hash = concat, te_alphanumeric = \<lambda>_. True, te_uuid_text = nat_text,
       te_uuid_bytes = nat_text, te_new_id = id\<rparr>,
     wb_encode = \<lambda>v. case json_get ''text'' v of Some (JStr t) \<Rightarrow> t | _ \<Rightarrow> [], wb_lower = map ascii_lower,
     wb_decode_id = \<lambda>v. Inr (if v = JStr ''six'' then 6 else 8), wb_render = \<lambda>_. []\<rparr>"

lemma demo_hash: "segment_semantic_input_hash demo_workbench demo_segment_plan = ''Hey''"
  by (simp add: segment_semantic_input_hash_def semantic_input_hash_def demo_workbench_def demo_segment_plan_def)

lemma demo_narrator: "narrator_id demo_workbench 9 = None"
  by (simp add: narrator_id_def demo_workbench_def demo_character_def)

definition demo_segment :: production_segment where
  "demo_segment = planned_segment demo_workbench 9 None 10 demo_segment_plan"

definition demo_plan :: proofing_plan where
  "demo_plan = \<lparr>ppl_project_id = 9, ppl_source_conversion_job_id = 1, ppl_plan_revision = 1,
     ppl_plan_hash = ''k'' @ [CHR 0x00] @ ''Hey'' @ [CHR 0x00], ppl_status = PlanIncomplete, ppl_dirty_reasons = [],
     ppl_created_at = 10, ppl_updated_at = 10\<rparr>"

definition demo_take :: segment_take where
  "demo_take = finished_take demo_workbench 1 demo_segment_plan demo_unit 6 5 8 1 1500 20"

definition demo_selection :: segment_selection where
  "demo_selection = \<lparr>psl_segment_id = 5, psl_take_id = 6, psl_selected_at = 20, psl_revision = 0\<rparr>"

definition demo_state :: "unit_row list \<Rightarrow> plan_row list \<Rightarrow> artifact_id list \<Rightarrow> production_segment list \<Rightarrow> take_row list \<Rightarrow>
    selection_row list \<Rightarrow> proof_db" where
  "demo_state units plans artifacts segments takes selections = \<lparr>pdb_base = demo_base units, pdb_paragraphs = [4],
     pdb_artifacts = artifacts, pdb_plans = plans,
     pdb_segments = map segment_row_of segments, pdb_takes = takes, pdb_selections = selections, pdb_snapshots = []\<rparr>"

lemmas demo_eval = svc_bind_def svc_then_def svc_call_def svc_return_def svc_some_def svc_ensure_def svc_fail_def svc_gets_def
  svc_lift_def commit_def tx_bind_def tx_then_def tx_return_def tx_fail_def tx_gets_def tx_modify_def tx_ensure_def
  tx_lift_def tx_some_def demo_state_def demo_base_def List.member_iff

lemma demo_planned:
  "admit_plan demo_workbench 1 9 [[demo_segment_plan]] [demo_unit] 10 (demo_state [] [] [] [] [] [])
   = (Inr (), demo_state [unit_row_of demo_unit] [plan_row_of demo_plan] [] [demo_segment] [] [])"
proof -
  have build: "build_proofing_plan demo_workbench 1 9 [[demo_segment_plan]] 10 (demo_state [] [] [] [] [] [])
    = (Inr (demo_plan, [demo_segment]), demo_state [] [] [] [] [] [])"
    by (simp add: build_proofing_plan_def get_plan_def demo_eval demo_plan_def demo_segment_def demo_narrator
        planned_segment_def demo_hash) (simp add: demo_workbench_def demo_segment_plan_def)
  have "replace_plan_with_units demo_plan [demo_segment] [demo_unit] (demo_state [] [] [] [] [] [])
    = Inr ((), demo_state [unit_row_of demo_unit] [plan_row_of demo_plan] [] [demo_segment] [] [])"
    by (simp add: replace_plan_with_units_def validate_plan_segments_def validate_job_units_def deactivate_active_segments_def
        insert_segment_def upsert_job_unit_def on_db_def base_view_def job_upsert_unit_def upsert_unit_row_def
        unit_keys_known_def enforce_def enforce_at_def upsert_plan_def job_known_def segment_known_def byte_range_ok_def
        optional_member_def demo_eval demo_plan_def demo_unit_def demo_segment_def planned_segment_def
        demo_segment_plan_def job_row_of_def demo_job_def unit_row_of_def segment_row_of_def
        i64_try_from_u64_def i64_max_def sql_delete_def)
  with build show ?thesis by (simp add: admit_plan_def svc_bind_def svc_call_def commit_def)
qed

lemma demo_recorded:
  "persist_proof_take demo_workbench (\<lambda>_. Inr ()) (\<lambda>_. Inr (Some 1500)) 1 demo_segment_plan demo_unit 20
     (demo_state [unit_row_of demo_unit] [plan_row_of demo_plan] [] [demo_segment] [] [])
   = (Inr (), demo_state [unit_row_of demo_unit] [plan_row_of demo_plan] [8] [demo_segment] [take_row_of demo_take]
       [selection_row_of demo_selection])"
  by (simp add: persist_proof_take_def record_take_def payload_id_def get_take_def demo_eval demo_workbench_def
      next_take_ordinal_def insert_take_and_select_def insert_take_row_def enforce_at_def upsert_selection_def
      find_selection_def segment_known_def job_known_def take_known_def demo_unit_def demo_take_def demo_selection_def
      segment_row_of_def demo_segment_def planned_segment_def demo_segment_plan_def finished_take_def unit_row_of_def
      job_row_of_def demo_job_def take_row_of_def selection_row_of_def u32_max_def Let_def)

definition demo_locked :: "production_segment" where
  "demo_locked = demo_segment\<lparr>psg_review_state := Locked, psg_updated_at := 30, psg_revision := 1\<rparr>"

lemma demo_reviewed:
  "update_review demo_workbench 9 5 Locked 0 30 (demo_state [unit_row_of demo_unit] [plan_row_of demo_plan] [8] [demo_segment]
     [take_row_of demo_take] [selection_row_of demo_selection])
   = (Inr demo_locked, demo_state [unit_row_of demo_unit] [plan_row_of demo_plan] [8] [demo_locked] [take_row_of demo_take]
       [selection_row_of demo_selection])"
  by (simp add: update_review_def ensure_proof_mutable_def get_plan_def on_db_def base_view_def job_get_def find_job_row_def
      decode_job_row_def ensure_no_active_proof_export_def active_proof_export_def active_of_kind_def
      ensure_no_active_regeneration_def active_regeneration_def owned_segment_def get_segment_def decode_segment_row_def
      ensure_approvable_def get_selection_def get_take_def find_selection_def update_segment_def update_segment_row_def
      matches_segment_def active_key_clash_def rows_affected_def is_accepted_def enforce_at_def
      stale_or_missing_segment_def demo_locked_def
      demo_eval demo_workbench_def demo_unit_def demo_take_def demo_selection_def segment_semantic_input_hash_def
      segment_row_of_def demo_segment_def planned_segment_def demo_segment_plan_def finished_take_def unit_row_of_def
      job_row_of_def demo_job_def take_row_of_def selection_row_of_def plan_row_of_def demo_plan_def u64_defs i64_max_def Let_def)

abbreviation demo_step :: "proof_db \<Rightarrow> proof_db \<Rightarrow> bool" where
  "demo_step \<equiv> workbench_step (\<lambda>_::unit workbench. True) (\<lambda>_. 6)"

lemma demo_run:
  "workbench_run (\<lambda>_::unit workbench. True) (\<lambda>_. 6)
     (demo_state [unit_row_of demo_unit] [plan_row_of demo_plan] [8] [demo_locked] [take_row_of demo_take]
       [selection_row_of demo_selection])"
proof -
  let ?run = "workbench_run (\<lambda>_::unit workbench. True) (\<lambda>_. 6)"
  let ?s1 = "demo_state [unit_row_of demo_unit] [plan_row_of demo_plan] [] [demo_segment] [] []"
  let ?s2 = "demo_state [unit_row_of demo_unit] [plan_row_of demo_plan] [8] [demo_segment] [take_row_of demo_take]
      [selection_row_of demo_selection]"
  have "demo_step (demo_state [] [] [] [] [] []) (snd (admit_plan demo_workbench 1 9 [[demo_segment_plan]] [demo_unit] 10
      (demo_state [] [] [] [] [] [])))" by (rule workbench_step.planned) simp
  moreover have "?run (demo_state [] [] [] [] [] [])" unfolding demo_state_def list.map by (rule workbench_run.empty)
  ultimately have r1: "?run ?s1" unfolding demo_planned snd_conv by (rule workbench_run.step [rotated])
  have "demo_step ?s1 (snd (persist_proof_take demo_workbench (\<lambda>_. Inr ()) (\<lambda>_. Inr (Some 1500)) 1 demo_segment_plan
      demo_unit 20 ?s1))"
    by (rule workbench_step.recorded) (simp_all add: payload_id_def demo_unit_def demo_workbench_def)
  with r1 have r2: "?run ?s2" unfolding demo_recorded snd_conv by (rule workbench_run.step)
  have "demo_step ?s2 (snd (update_review demo_workbench 9 5 Locked 0 30 ?s2))"
    by (rule workbench_step.reviewed) simp
  with r2 show ?thesis unfolding demo_reviewed snd_conv by (rule workbench_run.step)
qed

lemma demo_stored:
  "get_segment 5 (demo_state us ps as [demo_locked] ts [selection_row_of demo_selection])
     = Inr (Some demo_locked, demo_state us ps as [demo_locked] ts [selection_row_of demo_selection])"
  "psg_review_state demo_locked = Locked"
  "get_selection 5 (demo_state us ps as gs ts [selection_row_of demo_selection])
     = Inr (Some demo_selection, demo_state us ps as gs ts [selection_row_of demo_selection])"
  "get_take (psl_take_id demo_selection) (demo_state us ps as gs [take_row_of demo_take] ls)
     = Inr (Some demo_take, demo_state us ps as gs [take_row_of demo_take] ls)"
  by (simp_all add: get_segment_def get_selection_def get_take_def find_selection_def decode_segment_row_def tx_gets_def
      demo_state_def demo_locked_def demo_segment_def planned_segment_def demo_segment_plan_def segment_row_of_def
      selection_row_of_def demo_selection_def take_row_of_def demo_take_def finished_take_def Let_def)

section \<open>Accepted audio\<close>



section \<open>Locked segments\<close>

text \<open>C10. A lock protects. While a segment is locked, no operation of the workbench changes its text,
  speaker, settings or expected inputs, selects another take for it or alters the take that is selected; all
  that one can do is to approve it, which takes the lock off, or to lock it again. A new conversion retires it
  as it is.\<close>

theorem locked_segment_frozen:
  assumes "workbench_run admitted auto s" and "workbench_step admitted auto s s'"
    and "get_segment i s = Inr (Some g, s)" and "psg_review_state g = Locked"
    and "get_selection i s = Inr (Some l, s)" and "get_take (psl_take_id l) s = Inr (Some t, s)"
  shows "(\<exists>g'. get_segment i s' = Inr (Some g', s') \<and> content g' = content g \<and> psg_review_state g' \<in> {Approved, Locked})
    \<and> get_selection i s' = Inr (Some l, s') \<and> get_take (psl_take_id l) s' = Inr (Some t, s')"
proof -
  from assms(3) obtain r where r: "find (\<lambda>q. rsg_id q = i) (pdb_segments s) = Some r" "g = decode_segment_row r"
    by (auto simp: get_segment_Inr)
  have "locked_in i s" using assms(4) r by (simp add: locked_in_def is_some_and_def)
  from step_keeps_locked [OF assms(2) workbench_run_ok [OF assms(1)] this]
  have k: "kept_locked i s s'" .
  then obtain r' where r': "find (\<lambda>q. rsg_id q = i) (pdb_segments s') = Some r'"
    "is_accepted (psg_review_state (rsg_payload r'))" "content (rsg_payload r') = content (rsg_payload r)"
    using r(1) by (auto simp: kept_locked_def)
  have "content (decode_segment_row q) = content (rsg_payload q)" for q
    by (simp add: content_def decode_segment_row_def)
  with r r' have "\<exists>g'. get_segment i s' = Inr (Some g', s') \<and> content g' = content g \<and> psg_review_state g' \<in> {Approved, Locked}"
    by (simp add: get_segment_Inr is_accepted_def)
  moreover have "get_selection i s' = Inr (Some l, s')"
    using assms(5) k by (simp add: get_selection_def kept_locked_def tx_gets_def)
  moreover have "get_take (psl_take_id l) s' = Inr (Some t, s')"
    using assms(6) k by (auto simp: get_take_def kept_locked_def tx_gets_def)
  ultimately show ?thesis by blast
qed

lemma locked_segment_frozen_witness:
  "\<exists>s g. get_segment 5 s = Inr (Some g, s) \<and> content g = content demo_locked \<and> get_selection 5 s = Inr (Some demo_selection, s)"
proof -
  let ?s = "demo_state [unit_row_of demo_unit] [plan_row_of demo_plan] [8] [demo_locked] [take_row_of demo_take]
      [selection_row_of demo_selection]"
  have "demo_step ?s (snd (choose_take demo_workbench 9 5 4 0 1 (\<lambda>_. 40) ?s))" by (rule workbench_step.chosen) simp
  from locked_segment_frozen [OF demo_run this demo_stored(1) demo_stored(2) demo_stored(3) demo_stored(4)]
  show ?thesis by blast
qed

section \<open>Exports\<close>

definition exported_take :: "'rx workbench \<Rightarrow> proof_db \<Rightarrow> bool \<Rightarrow> production_segment \<Rightarrow>
    proof_export_selection \<times> assigned_voice segment_plan \<Rightarrow> bool" where
  "exported_take wb s strict g x \<longleftrightarrow> psg_review_state g \<noteq> Flagged \<and> (is_accepted (psg_review_state g) \<or> \<not> strict)
     \<and> (\<exists>l t. get_selection (psg_id g) s = Inr (Some l, s) \<and> get_take (psl_take_id l) s = Inr (Some t, s)
         \<and> fst x = \<lparr>pxe_segment_id = psg_id g, pxe_take_id = psl_take_id l, pxe_artifact_id = ptk_artifact_id t\<rparr>
         \<and> ptk_segment_id t = psg_id g \<and> ptk_semantic_input_hash t = psg_expected_input_hash g)
     \<and> segment_semantic_input_hash wb (snd x) = psg_expected_input_hash g"

lemma selected_take:
  assumes ok: "workbench_ok auto s" and l: "get_selection i s = Inr (Some l, s)" and t: "get_take (psl_take_id l) s = Inr (Some t, s)"
  shows "ptk_segment_id t = i \<and> ptk_id t = psl_take_id l"
proof -
  have wf: "proof_wf s" using ok by (simp add: workbench_ok_def)
  from l obtain r where r: "r \<in> set (pdb_selections s)" "rsl_segment_id r = i" "rsl_payload r = l"
    by (auto simp: get_selection_def find_selection_def map_option_case split: option.splits dest: find_Some_D)
  from t obtain q where q: "q \<in> set (pdb_takes s)" "rtk_id q = psl_take_id l" "rtk_payload q = t"
    by (auto simp: get_take_def map_option_case split: option.splits dest: find_Some_D)
  from wf r have "psl_take_id l = rsl_take_id r" by (auto simp: proof_wf_def selection_row_ok_def)
  moreover from ok r(1,2) obtain t' where t': "t' \<in> set (pdb_takes s)" "rtk_id t' = rsl_take_id r" "rtk_segment_id t' = i"
    by (auto simp: workbench_ok_def selects_own_take_def)
  ultimately have "t' = q" using wf q same_key [of rtk_id "pdb_takes s" t' q] by (simp add: proof_wf_def)
  with q t' wf show ?thesis by (auto simp: proof_wf_def take_row_ok_def)
qed

lemma export_selection_Inr:
  assumes ok: "workbench_ok auto s" and "export_selection wb intact strict p g s = (Inr x, s')"
  shows "s' = s" and "exported_take wb s strict g x"
proof -
  have reads: "tx_reads (get_selection i)" "tx_reads (get_take k)" for i k by simp_all
  from assms(2) obtain l t plan where
    h: "\<not> (strict \<and> \<not> is_accepted (psg_review_state g))" "psg_review_state g \<noteq> Flagged"
      "get_selection (psg_id g) s = Inr (Some l, s)" "get_take (psl_take_id l) s = Inr (Some t, s)"
      "ptk_semantic_input_hash t = psg_expected_input_hash g" "segment_semantic_input_hash wb plan = psg_expected_input_hash g"
      "x = (\<lparr>pxe_segment_id = psg_id g, pxe_take_id = ptk_id t, pxe_artifact_id = ptk_artifact_id t\<rparr>, plan)" "s' = s"
    by (auto simp: export_selection_def get_selection_def get_take_def)
  with selected_take [OF ok h(3,4)] show "s' = s" and "exported_take wb s strict g x"
    by (auto simp: exported_take_def)
qed

lemma export_selections_Inr:
  assumes ok: "workbench_ok auto s"
  shows "export_selections wb intact strict p gs s = (Inr xs, s') \<Longrightarrow> s' = s \<and> list_all2 (exported_take wb s strict) gs xs"
proof (induction gs arbitrary: xs s')
  case (Cons g gs)
  from Cons.prems obtain x ys s1 where x: "export_selection wb intact strict p g s = (Inr x, s1)"
    and ys: "export_selections wb intact strict p gs s1 = (Inr ys, s')" and xs: "xs = x # ys" by auto
  note e = export_selection_Inr [OF ok x]
  from ys Cons.IH e(1) have "s' = s \<and> list_all2 (exported_take wb s strict) gs ys" by blast
  with e(2) xs show ?case by simp
qed simp

lemma active_segments:
  assumes "proof_wf s" and "list_active_segments p None s = Inr (segments, s')"
  shows "distinct (map psg_id segments)"
    and "set (map psg_id segments) = rsg_id ` {r \<in> set (pdb_segments s). rsg_active r \<and> rsg_project_id r = p}"
proof -
  let ?some = "filter (\<lambda>r. rsg_project_id r = p \<and> rsg_active r) (pdb_segments s)"
  let ?rows = "sort_key (\<lambda>r. chapter_rank (rsg_chapter_id r)) (sort_key rsg_ordinal ?some)"
  from assms(2) have s: "segments = map decode_segment_row ?rows" by (simp add: list_active_segments_def)
  have ids: "psg_id (decode_segment_row r) = rsg_id r" if "r \<in> set (pdb_segments s)" for r
    using that assms(1) by (auto simp: proof_wf_def segment_row_ok_def decode_segment_row_def)
  have "map psg_id segments = map rsg_id ?rows" using ids by (simp add: s)
  moreover have "distinct (map rsg_id ?some)"
    using assms(1) by (simp add: proof_wf_def distinct_map_filter)
  then have "distinct (map rsg_id ?rows)" by (simp add: distinct_map)
  ultimately show "distinct (map psg_id segments)"
    and "set (map psg_id segments) = rsg_id ` {r \<in> set (pdb_segments s). rsg_active r \<and> rsg_project_id r = p}" by auto
qed

text \<open>C9. An export contains the whole book as it was reviewed. When the service gathers a proof export, after any run of
  the workbench, it takes every active segment of the project exactly once and no other; each contributes the
  artifact of its selected take, which is a recording of this segment made from its current inputs, while the
  catalog would still synthesise it from the same inputs; no segment is flagged, and for a retailer every
  segment is approved or locked. Gathering changes nothing.\<close>

theorem proof_export_complete_and_current:
  assumes "workbench_run admitted auto s" and "gather_proof_export wb intact strict p s = (Inr (plan, xs), s')"
  shows "s' = s \<and> ppl_status plan = PlanReady \<and> xs \<noteq> [] \<and> distinct (map (\<lambda>x. pxe_segment_id (fst x)) xs)
    \<and> set (map (\<lambda>x. pxe_segment_id (fst x)) xs)
        = rsg_id ` {r \<in> set (pdb_segments s). rsg_active r \<and> rsg_project_id r = p}
    \<and> (\<exists>segments. list_active_segments p None s = Inr (segments, s) \<and> list_all2 (exported_take wb s strict) segments xs)"
proof -
  note ok = workbench_run_ok [OF assms(1)]
  then have wf: "proof_wf s" by (simp add: workbench_ok_def)
  from assms(2) obtain segments where h: "ppl_status plan = PlanReady" "list_active_segments p None s = Inr (segments, s)"
    "segments \<noteq> []" "export_selections wb intact strict p segments s = (Inr xs, s')"
    by (auto simp: gather_proof_export_def get_plan_def list_active_segments_def)
  note x = export_selections_Inr [OF ok h(4)]
  then have "list_all2 (exported_take wb s strict) segments xs" by blast
  then have "map (\<lambda>x. pxe_segment_id (fst x)) xs = map psg_id segments"
    by (induction rule: list_all2_induct) (auto simp: exported_take_def)
  with x h(1-3) active_segments [OF wf h(2)] show ?thesis by auto
qed

definition demo_ready :: proof_db where
  "demo_ready = demo_state [unit_row_of demo_unit]
     [plan_row_of (demo_plan\<lparr>ppl_status := PlanReady, ppl_updated_at := 50\<rparr>)] [8] [demo_locked]
     [take_row_of demo_take] [selection_row_of demo_selection]"

lemma demo_made_ready:
  "mark_proofing_plan_ready 9 1 50 (demo_state [unit_row_of demo_unit] [plan_row_of demo_plan] [8] [demo_locked]
     [take_row_of demo_take] [selection_row_of demo_selection]) = (Inr (), demo_ready)"
  by (simp add: mark_proofing_plan_ready_def get_plan_def update_plan_def update_plan_row_def matches_plan_def
      rows_affected_def demo_eval demo_ready_def plan_row_of_def demo_plan_def)

lemma demo_ready_run: "workbench_run (\<lambda>_::unit workbench. True) (\<lambda>_. 6) demo_ready"
  using workbench_run.step [OF demo_run workbench_step.finished, of 9 1 50] unfolding demo_made_ready snd_conv .

lemma demo_loaded: "load_proofing_segment_plan demo_workbench 9 demo_locked = Inr demo_segment_plan"
  by (simp add: load_proofing_segment_plan_def load_proofing_segment_plan_for_def and_then_def ok_or_def from_storage_def
      planned_speaker_id_def assign_voice_def dispatch_ready_def direction_ready_def validate_piper_voice_selection_def
      first_issue_def performance_issues_def timing_issues_def require_optional_number_def issue_if_def is_some_and_def
      apply_pronunciation_rules_def sort_rules_def chapter_title_def context_of_def effective_concurrency_def or_else_def
      performance_overlay_def effective_timing_def default_performance_def default_timing_def
      demo_workbench_def demo_character_def demo_assignment_def demo_provider_def demo_voice_def demo_locked_def
      demo_segment_def planned_segment_def narrator_id_def demo_segment_plan_def Let_def)

lemma demo_gathered:
  "gather_proof_export demo_workbench (\<lambda>_. Inr ()) True 9 demo_ready
     = (Inr (demo_plan\<lparr>ppl_status := PlanReady, ppl_updated_at := 50\<rparr>,
         [(\<lparr>pxe_segment_id = 5, pxe_take_id = 6, pxe_artifact_id = 8\<rparr>, demo_segment_plan)]), demo_ready)"
proof -
  have e: "export_selection demo_workbench (\<lambda>_. Inr ()) True 9 demo_locked demo_ready
    = (Inr (\<lparr>pxe_segment_id = 5, pxe_take_id = 6, pxe_artifact_id = 8\<rparr>, demo_segment_plan), demo_ready)"
  proof -
    have fields: "psg_id demo_locked = 5" "psg_expected_input_hash demo_locked = ''Hey''"
      by (simp_all add: demo_locked_def demo_segment_def planned_segment_def demo_hash) (simp add: demo_segment_plan_def)
    have take: "ptk_semantic_input_hash demo_take = ''Hey''" "ptk_id demo_take = 6" "ptk_artifact_id demo_take = 8"
      by (simp_all add: demo_take_def finished_take_def demo_hash Let_def)
    have calls: "svc_call as_storage (get_selection 5) demo_ready = (Inr (Some demo_selection), demo_ready)"
      "svc_call as_storage (get_take (psl_take_id demo_selection)) demo_ready = (Inr (Some demo_take), demo_ready)"
      unfolding demo_ready_def by (simp_all add: svc_call_def commit_def demo_stored(3,4))
    show ?thesis
      by (simp add: export_selection_def svc_bind_def svc_then_def svc_ensure_def svc_return_def svc_some_def svc_lift_def
          calls fields take demo_stored(2) demo_loaded demo_hash is_accepted_def)
  qed
  have l: "list_active_segments 9 None demo_ready = Inr ([demo_locked], demo_ready)"
    by (simp add: list_active_segments_def demo_ready_def demo_state_def segment_row_of_def decode_segment_row_def
        demo_locked_def demo_segment_def planned_segment_def demo_segment_plan_def tx_gets_def)
  have p: "get_plan 9 demo_ready = Inr (Some (demo_plan\<lparr>ppl_status := PlanReady, ppl_updated_at := 50\<rparr>), demo_ready)"
    by (simp add: get_plan_def demo_ready_def demo_state_def plan_row_of_def demo_plan_def tx_gets_def)
  show ?thesis
    by (simp add: gather_proof_export_def svc_bind_def svc_then_def svc_call_def commit_def p l e svc_some_def
        svc_ensure_def svc_return_def)
qed

lemma proof_export_complete_and_current_witness:
  "ppl_status (demo_plan\<lparr>ppl_status := PlanReady, ppl_updated_at := 50\<rparr>) = PlanReady
    \<and> {5} = rsg_id ` {r \<in> set (pdb_segments demo_ready). rsg_active r \<and> rsg_project_id r = 9}"
  using proof_export_complete_and_current [OF demo_ready_run demo_gathered] by simp

end
