(* ===== verification/Conversion_Plan.thy ===== *)
theory Conversion_Plan
  imports Synthesis_Inputs "HOL-Library.AList"
begin

text \<open>
  The plan of a conversion and its graph of units (crates/service/src/conversion/planning.rs, units.rs,
  worker.rs), and the cache keys of segments (conversion/provider\_io.rs, crates/media/src/cache.rs). The record
  \<open>book\_source\<close> holds the answers of the repositories a plan is loaded from. The hash maps of the code are
  association lists, updated with \<open>AList.update\<close>; nothing but the order of the assembly units among the
  dependencies of the mix rests on their order. New identifiers are the values of \<open>new\_id\<close> at the places
  where the code draws one.
\<close>

section \<open>The plan\<close>

record source_chapter =
  soc_id :: chapter_id
  soc_title :: str
  soc_selected :: bool

record book_source =
  bks_book_exists :: "uuid \<Rightarrow> storage_error + bool"
  bks_chapters :: "uuid \<Rightarrow> storage_error + source_chapter list"
  bks_paragraphs :: "chapter_id \<Rightarrow> storage_error + book_paragraph list"
  bks_detection_spans :: "project_id \<Rightarrow> service_error + (uuid \<Rightarrow> dialogue_span list)"
  bks_overrides :: "project_id \<Rightarrow> service_error + (uuid \<Rightarrow> speaker_override list)"

text \<open>Of the export profile the plan uses the identifier and whether there is background music.\<close>

record export_plan =
  xpl_id :: export_profile_id
  xpl_background_music :: bool

record conversion_chapter =
  cnc_chapter :: source_chapter
  cnc_segments :: "assigned_voice segment_plan list"

record conversion_plan =
  cnp_project :: project_id
  cnp_chapters :: "conversion_chapter list"
  cnp_rules :: "pronunciation_rule list"
  cnp_export :: export_plan

fun number_playback :: "usize \<Rightarrow> assigned_voice segment_plan list \<Rightarrow> assigned_voice segment_plan list" where
  "number_playback n [] = []"
| "number_playback n (g # gs) = g\<lparr>sg_playback_ordinal := n\<rparr> # number_playback (u64_saturating_add n 1) gs"

definition next_playback :: "usize \<Rightarrow> 'a list \<Rightarrow> usize" where
  "next_playback n gs = fold (\<lambda>_ n. u64_saturating_add n 1) gs n"

text \<open>The loop over the selected chapters; \<open>k\<close> counts them for the identifiers of their segments.\<close>

fun plan_chapters ::
  "'rx workbench \<Rightarrow> book_source \<Rightarrow> (nat \<Rightarrow> nat \<Rightarrow> uuid) \<Rightarrow> project_id \<Rightarrow> str option \<Rightarrow> uuid \<Rightarrow>
     assigned_voice assignments \<Rightarrow> (uuid \<Rightarrow> dialogue_span list) \<Rightarrow> (uuid \<Rightarrow> speaker_override list) \<Rightarrow> nat \<Rightarrow> usize \<Rightarrow>
     source_chapter list \<Rightarrow> service_error + conversion_chapter list" where
  "plan_chapters wb src new_id project language narrator assignments spans overrides k ordinal [] = Inr []"
| "plan_chapters wb src new_id project language narrator assignments spans overrides k ordinal (c # cs) =
     and_then (from_storage (bks_paragraphs src (soc_id c))) (\<lambda>paragraphs.
     and_then (segment_chapter ((wb_text wb)\<lparr>te_new_id := new_id k\<rparr>) project language (soc_id c) (soc_title c) paragraphs
        narrator assignments spans overrides (wb_rules wb)) (\<lambda>segments.
       if segments = [] then Inl (ResourceConflict
         (Formatted ''chapter {} contains no speakable text'' [quoted (soc_title c)]))
       else and_then (plan_chapters wb src new_id project language narrator assignments spans overrides (Suc k)
           (next_playback ordinal segments) cs) (\<lambda>rest.
         Inr (\<lparr>cnc_chapter = c, cnc_segments = number_playback ordinal segments\<rparr> # rest))))"

definition load_conversion_plan ::
  "'rx workbench \<Rightarrow> book_source \<Rightarrow> (nat \<Rightarrow> nat \<Rightarrow> uuid) \<Rightarrow> time \<Rightarrow> project_id \<Rightarrow> export_plan \<Rightarrow>
     service_error + conversion_plan" where
  "load_conversion_plan wb src new_id now project_id export =
     and_then (from_storage (wb_stored_project wb project_id)) (\<lambda>found.
     and_then (ok_or found ResourceNotFound) (\<lambda>project.
     and_then (from_storage (bks_book_exists src (spj_book_id project))) (\<lambda>book.
     and_then (if book then Inr () else Inl ResourceNotFound) (\<lambda>_.
     and_then (from_storage (bks_chapters src (spj_book_id project))) (\<lambda>chapters.
     let selected = filter soc_selected chapters;
         characters = (case wb_characters wb project_id of None \<Rightarrow> [] | Some cs \<Rightarrow> cs)
     in if selected = []
        then Inl (ResourceConflict (Plain ''select at least one chapter before conversion''))
        else if spj_status project \<noteq> ReadyProject \<or> spj_character_reviewed_at project = None
        then Inl (ResourceConflict (Plain ''approve the character review before paid synthesis''))
        else
          and_then (build_assignments_for wb (Dispatch now) project characters []) (\<lambda>assignments.
          and_then (ok_or (map_option cch_id (find (\<lambda>c. cch_role c = NarratorRole) characters))
            (ResourceConflict (Plain ''the reviewed character set has no narrator''))) (\<lambda>narrator.
          and_then (bks_detection_spans src project_id) (\<lambda>spans.
          and_then (bks_overrides src project_id) (\<lambda>overrides.
          and_then (plan_chapters wb src new_id project_id (spj_language project) narrator assignments spans
              overrides 0 0 selected) (\<lambda>plans.
            Inr \<lparr>cnp_project = project_id, cnp_chapters = plans, cnp_rules = wb_rules wb, cnp_export = export\<rparr>))))))))))"

definition plan_segments :: "conversion_plan \<Rightarrow> assigned_voice segment_plan list" where
  "plan_segments plan = concat (map cnc_segments (cnp_chapters plan))"

section \<open>Cache keys\<close>

definition provider_endpoint_family :: "assigned_voice \<Rightarrow> str" where
  "provider_endpoint_family a = (case av_provider_kind a of
      ElevenlabsKind \<Rightarrow> ''elevenlabs-v1''
    | MlxAudioKind \<Rightarrow> ''openai-audio-mlx''
    | LocalaiKind \<Rightarrow> ''openai-audio-localai''
    | AlltalkV2Kind \<Rightarrow> ''alltalk-v2''
    | PiperKind \<Rightarrow> ''piper-cli-v1''
    | NativeOsKind \<Rightarrow> ''native-os''
    | OpenaiTtsKind \<Rightarrow> ''openai-speech-v1''
    | OpenaiKind \<Rightarrow> if av_provider_role a = Some TtsRole then ''openai-speech-v1'' else ''openai''
    | GeminiKind \<Rightarrow> if av_provider_role a = Some TtsRole then ''gemini-interactions-tts-v1'' else ''gemini''
    | OpenaiCompatibleKind \<Rightarrow> ''openai-compatible''
    | AnthropicKind \<Rightarrow> ''anthropic''
    | QwenKind \<Rightarrow> ''qwen''
    | KimiKind \<Rightarrow> ''kimi''
    | MoonshotKind \<Rightarrow> ''moonshot''
    | LmStudioKind \<Rightarrow> ''lm-studio''
    | OllamaKind \<Rightarrow> ''ollama'')"

text \<open>The fingerprint is the JSON of its fields; without settings \<open>performance\<close> is skipped.\<close>

definition segment_cache_fingerprint :: "'rx workbench \<Rightarrow> assigned_voice segment_plan \<Rightarrow> str \<Rightarrow> json" where
  "segment_cache_fingerprint wb g operation =
     (let a = sa_voice (sg_assignment g);
          id_text = te_uuid_text (wb_text wb)
      in JObj ([(''schema_version'', JNum (Finite 1)), (''text'', JStr (sg_text g)), (''context'', json_opt (sg_context g)),
           (''provider_id'', JStr (id_text (av_provider_id a))),
           (''provider_endpoint_family'', JStr (provider_endpoint_family a)),
           (''provider_version'', json_opt (av_provider_version a)), (''model'', json_opt (av_model a)),
           (''voice'', JStr (av_voice_source a)), (''reference_audio_hashes'', JArr [])]
         @ (if performance_is_empty (av_performance a) then []
            else [(''performance'', performance_json (av_performance a))])
         @ [(''settings'', JObj [(''appliedRuleIds'', JArr (map (\<lambda>i. JStr (id_text i)) (sg_applied_rule_ids g))),
             (''operation'', JStr operation)]),
           (''dictionary_revision'', JStr (sg_dictionary_revision g)),
           (''normalization_version'', JStr normalization_version)]))"

definition cache_key :: "'rx workbench \<Rightarrow> json \<Rightarrow> str" where
  "cache_key wb fingerprint = te_hash (wb_text wb) [wb_encode wb fingerprint]"

section \<open>The graph of units\<close>

record unit_graph =
  ugr_synthesis :: "(str \<times> job_unit) list"
  ugr_assembly :: "(chapter_id \<times> job_unit) list"
  ugr_mix :: "job_unit option"
  ugr_normalize :: job_unit
  ugr_export :: job_unit

datatype unit_slot =
  SegmentTake nat | SegmentArtifact nat | SegmentUnit nat | AssemblyUnit nat | MixUnit | NormalizeUnit | ExportUnit

definition stage_payload :: "str \<Rightarrow> str \<rightharpoonup> json" where
  "stage_payload title = [''title'' \<mapsto> JStr title, ''progress'' \<mapsto> JNum (Finite 0)]"

definition spaced_dash :: str where
  "spaced_dash = [CHR 0x20, CHR 0xE2, CHR 0x80, CHR 0x94, CHR 0x20]"

text \<open>\<open>encode\_plan\<close> is the JSON of a segment plan.\<close>

definition synthesis_unit ::
  "'rx workbench \<Rightarrow> (assigned_voice segment_plan \<Rightarrow> json) \<Rightarrow> (unit_slot \<Rightarrow> uuid) \<Rightarrow> job_id \<Rightarrow> time \<Rightarrow> nat \<Rightarrow>
     assigned_voice segment_plan \<Rightarrow> job_unit" where
  "synthesis_unit wb encode_plan new_id j now k g =
     \<lparr>ju_id = new_id (SegmentUnit k), ju_job_id = j, ju_kind = SynthesisSegment, ju_state = UnitReady,
      ju_chapter_id = Some (sg_chapter_id g), ju_segment_id = (if sg_proofing g then Some (sg_id g) else None),
      ju_provider_profile_id = Some (av_provider_id (sa_voice (sg_assignment g))), ju_dependencies = [],
      ju_attempt_count = 0, ju_next_attempt_at = None, ju_output_artifact_id = None,
      ju_payload = [''segmentKey'' \<mapsto> JStr (sg_key g),
        ''takeId'' \<mapsto> JStr (te_uuid_text (wb_text wb) (new_id (SegmentTake k))),
        ''takeArtifactId'' \<mapsto> JStr (te_uuid_text (wb_text wb) (new_id (SegmentArtifact k))),
        ''cacheOperation'' \<mapsto> JStr ''conversion'', ''autoSelect'' \<mapsto> JBool True, ''segmentPlan'' \<mapsto> encode_plan g,
        ''title'' \<mapsto> JStr (sg_chapter_title g @ spaced_dash @ sa_character_name (sg_assignment g)),
        ''progress'' \<mapsto> JNum (Finite 0)],
      ju_created_at = now, ju_updated_at = now\<rparr>"

definition stage_unit ::
  "job_unit_kind \<Rightarrow> job_unit_id \<Rightarrow> job_id \<Rightarrow> chapter_id option \<Rightarrow> job_unit_id list \<Rightarrow> str \<Rightarrow> time \<Rightarrow> job_unit" where
  "stage_unit kind i j chapter dependencies title now =
     \<lparr>ju_id = i, ju_job_id = j, ju_kind = kind, ju_state = UnitBlocked, ju_chapter_id = chapter, ju_segment_id = None,
      ju_provider_profile_id = None, ju_dependencies = dependencies, ju_attempt_count = 0, ju_next_attempt_at = None,
      ju_output_artifact_id = None, ju_payload = stage_payload title, ju_created_at = now, ju_updated_at = now\<rparr>"

text \<open>The loop over the segments: the map of units and the units of each chapter.\<close>

fun synthesis_units ::
  "'rx workbench \<Rightarrow> (assigned_voice segment_plan \<Rightarrow> json) \<Rightarrow> (unit_slot \<Rightarrow> uuid) \<Rightarrow> job_id \<Rightarrow> time \<Rightarrow> nat \<Rightarrow>
     assigned_voice segment_plan list \<Rightarrow> (str \<times> job_unit) list \<times> (chapter_id \<Rightarrow> job_unit_id list) \<Rightarrow>
     (str \<times> job_unit) list \<times> (chapter_id \<Rightarrow> job_unit_id list)" where
  "synthesis_units wb encode_plan new_id j now k [] acc = acc"
| "synthesis_units wb encode_plan new_id j now k (g # gs) (synthesis, by_chapter) =
     (let u = synthesis_unit wb encode_plan new_id j now k g
      in synthesis_units wb encode_plan new_id j now (Suc k) gs
           (AList.update (sg_key g) u synthesis,
            by_chapter(sg_chapter_id g := by_chapter (sg_chapter_id g) @ [ju_id u])))"

text \<open>The loop over the chapters; \<open>by\_chapter\<close> loses what it has given out.\<close>

fun assembly_units ::
  "(unit_slot \<Rightarrow> uuid) \<Rightarrow> job_id \<Rightarrow> time \<Rightarrow> nat \<Rightarrow> source_chapter list \<Rightarrow> (chapter_id \<Rightarrow> job_unit_id list) \<Rightarrow>
     (chapter_id \<times> job_unit) list \<Rightarrow> (chapter_id \<times> job_unit) list" where
  "assembly_units new_id j now k [] by_chapter assembly = assembly"
| "assembly_units new_id j now k (c # cs) by_chapter assembly =
     assembly_units new_id j now (Suc k) cs (by_chapter(soc_id c := []))
       (AList.update (soc_id c) (stage_unit ChapterAssembly (new_id (AssemblyUnit k)) j (Some (soc_id c))
          (by_chapter (soc_id c)) (''Assemble '' @ soc_title c) now) assembly)"

definition build_job_units ::
  "'rx workbench \<Rightarrow> (assigned_voice segment_plan \<Rightarrow> json) \<Rightarrow> (unit_slot \<Rightarrow> uuid) \<Rightarrow> job_id \<Rightarrow> time \<Rightarrow>
     conversion_plan \<Rightarrow> unit_graph" where
  "build_job_units wb encode_plan new_id j now plan =
     (let (synthesis, by_chapter) = synthesis_units wb encode_plan new_id j now 0 (plan_segments plan) ([], \<lambda>_. []);
          assembly = assembly_units new_id j now 0 (map cnc_chapter (cnp_chapters plan)) by_chapter [];
          assembly_ids = map (\<lambda>e. ju_id (snd e)) assembly;
          mix = (if xpl_background_music (cnp_export plan)
            then Some (stage_unit MusicMix (new_id MixUnit) j None assembly_ids ''Mix background music'' now) else None);
          loudness = stage_unit Normalization (new_id NormalizeUnit) j None
            (case mix of None \<Rightarrow> assembly_ids | Some u \<Rightarrow> [ju_id u]) ''Measure final loudness'' now;
          export = stage_unit FinalExport (new_id ExportUnit) j None [ju_id loudness] ''Export audiobook'' now
      in \<lparr>ugr_synthesis = synthesis, ugr_assembly = assembly, ugr_mix = mix, ugr_normalize = loudness,
          ugr_export = export\<rparr>)"

definition unit_count :: "unit_graph \<Rightarrow> nat" where
  "unit_count us = length (ugr_synthesis us) + length (ugr_assembly us) + 2 + (if ugr_mix us = None then 0 else 1)"

definition ordered_units :: "unit_graph \<Rightarrow> job_unit list" where
  "ordered_units us = sort_key ju_id (map snd (ugr_synthesis us)) @ sort_key ju_id (map snd (ugr_assembly us))
     @ (case ugr_mix us of None \<Rightarrow> [] | Some u \<Rightarrow> [u]) @ [ugr_normalize us, ugr_export us]"

section \<open>Loading the graph again\<close>

record found_units =
  fnd_synthesis :: "(str \<times> job_unit) list"
  fnd_assembly :: "(chapter_id \<times> job_unit) list"
  fnd_mix :: "job_unit option"
  fnd_normalize :: "job_unit option"
  fnd_export :: "job_unit option"

definition payload_text :: "job_unit \<Rightarrow> str \<Rightarrow> str option" where
  "payload_text u k = Option.bind (ju_payload u k) json_as_str"

definition place_unit :: "job_unit \<Rightarrow> found_units \<Rightarrow> found_units" where
  "place_unit u f = (case ju_kind u of
      SynthesisSegment \<Rightarrow> (case payload_text u ''segmentKey'' of None \<Rightarrow> f
        | Some key \<Rightarrow> f\<lparr>fnd_synthesis := AList.update key u (fnd_synthesis f)\<rparr>)
    | ChapterAssembly \<Rightarrow> (case ju_chapter_id u of None \<Rightarrow> f
        | Some c \<Rightarrow> f\<lparr>fnd_assembly := AList.update c u (fnd_assembly f)\<rparr>)
    | MusicMix \<Rightarrow> f\<lparr>fnd_mix := Some u\<rparr>
    | Normalization \<Rightarrow> f\<lparr>fnd_normalize := Some u\<rparr>
    | FinalExport \<Rightarrow> f\<lparr>fnd_export := Some u\<rparr>
    | _ \<Rightarrow> f)"

definition no_units :: found_units where
  "no_units = \<lparr>fnd_synthesis = [], fnd_assembly = [], fnd_mix = None, fnd_normalize = None, fnd_export = None\<rparr>"

text \<open>Units of segments without anything to speak, which older versions planned, are ignored.\<close>

definition stored_original_text :: "job_unit \<Rightarrow> str option" where
  "stored_original_text u = Option.bind (ju_payload u ''segmentPlan'') (\<lambda>v.
     Option.bind (or_else (json_get ''original_text'' v) (json_get ''originalText'' v)) json_as_str)"

definition unit_expected :: "'rx workbench \<Rightarrow> str list \<Rightarrow> str \<times> job_unit \<Rightarrow> bool" where
  "unit_expected wb expected_keys e \<longleftrightarrow> fst e \<in> set expected_keys
     \<or> is_none_or (stored_original_text (snd e)) (is_speakable (wb_text wb))"

definition predates_snapshots :: service_error where
  "predates_snapshots = ResourceConflict
     (Plain ''the conversion predates durable narration snapshots; start a new conversion'')"

text \<open>\<open>decode\_plan\<close> reads the JSON of a segment plan.\<close>

definition validate_durable_segment_snapshot ::
  "'rx workbench \<Rightarrow> (json \<Rightarrow> str + assigned_voice segment_plan) \<Rightarrow> job_unit \<Rightarrow> assigned_voice segment_plan \<Rightarrow>
     service_error + unit" where
  "validate_durable_segment_snapshot wb decode_plan u current =
     and_then (ok_or (ju_payload u ''segmentPlan'') predates_snapshots) (\<lambda>v.
     and_then (map_sum InternalFailure id (decode_plan v)) (\<lambda>snapshot.
       let operation = (case payload_text u ''cacheOperation'' of None \<Rightarrow> ''conversion'' | Some t \<Rightarrow> t);
           a = sa_voice (sg_assignment snapshot);
           b = sa_voice (sg_assignment current)
       in if segment_semantic_input_hash wb snapshot \<noteq> segment_semantic_input_hash wb current
           \<or> \<not> (av_provider_kind a = av_provider_kind b \<and> av_provider_role a = av_provider_role b
               \<and> av_provider_mode a = av_provider_mode b \<and> av_provider_endpoint a = av_provider_endpoint b
               \<and> av_provider_snapshot_id a = av_provider_snapshot_id b)
           \<or> cache_key wb (segment_cache_fingerprint wb snapshot operation)
             \<noteq> cache_key wb (segment_cache_fingerprint wb current operation)
         then Inl (ResourceConflict
           (Plain ''the narration inputs changed after this job was admitted; start a new conversion''))
         else Inr ()))"

fun validate_snapshots ::
  "'rx workbench \<Rightarrow> (json \<Rightarrow> str + assigned_voice segment_plan) \<Rightarrow> (str \<times> job_unit) list \<Rightarrow>
     assigned_voice segment_plan list \<Rightarrow> service_error + unit" where
  "validate_snapshots wb decode_plan synthesis [] = Inr ()"
| "validate_snapshots wb decode_plan synthesis (g # gs) = (case map_of synthesis (sg_key g) of
      None \<Rightarrow> Inl (InternalFailure ''the durable synthesis key set was checked above'')
    | Some u \<Rightarrow> and_then (validate_durable_segment_snapshot wb decode_plan u g)
        (\<lambda>_. validate_snapshots wb decode_plan synthesis gs))"

text \<open>\<open>existing\<close> are the stored units of the job. The \<open>expect\<close> of the last loop cannot fail, because the
  keys were compared before.\<close>

definition load_unit_plan ::
  "'rx workbench \<Rightarrow> (json \<Rightarrow> str + assigned_voice segment_plan) \<Rightarrow> conversion_plan \<Rightarrow> job_unit list \<Rightarrow>
     service_error + unit_graph" where
  "load_unit_plan wb decode_plan plan existing =
     (if existing = []
      then Inl (ResourceConflict
        (Plain ''the durable job graph is missing; the job was not admitted and cannot be resumed''))
      else
        let found = fold place_unit existing no_units;
            expected_keys = map sg_key (plan_segments plan);
            synthesis = filter (unit_expected wb expected_keys) (fnd_synthesis found)
        in case (fnd_normalize found, fnd_export found) of
            (Some loudness, Some export) \<Rightarrow>
              if set (map fst synthesis) \<noteq> set expected_keys
                \<or> length (fnd_assembly found) \<noteq> length (cnp_chapters plan)
                \<or> (fnd_mix found \<noteq> None) \<noteq> xpl_background_music (cnp_export plan)
              then Inl (ResourceConflict (Plain
                ''the durable job graph no longer matches the reviewed project; start a new conversion''))
              else and_then (validate_snapshots wb decode_plan synthesis (plan_segments plan)) (\<lambda>_.
                Inr \<lparr>ugr_synthesis = synthesis, ugr_assembly = fnd_assembly found, ugr_mix = fnd_mix found,
                  ugr_normalize = loudness, ugr_export = export\<rparr>)
          | _ \<Rightarrow> Inl (ResourceConflict (Plain
              ''the durable job graph no longer matches the reviewed project; start a new conversion'')))"

definition bind_persisted_segment_ids :: "unit_graph \<Rightarrow> conversion_plan \<Rightarrow> conversion_plan" where
  "bind_persisted_segment_ids us plan = plan\<lparr>cnp_chapters := map (\<lambda>c. c\<lparr>cnc_segments := map (\<lambda>g.
     case Option.bind (map_of (ugr_synthesis us) (sg_key g)) ju_segment_id of
       None \<Rightarrow> g | Some i \<Rightarrow> g\<lparr>sg_id := i\<rparr>) (cnc_segments c)\<rparr>) (cnp_chapters plan)\<rparr>"

text \<open>The segments a worker still has to synthesise, with the units that say so.\<close>

definition unit_is_reusable :: "job_unit \<Rightarrow> bool" where
  "unit_is_reusable u \<longleftrightarrow> ju_state u = UnitCompleted \<and> ju_output_artifact_id u \<noteq> None"

definition pending_segments :: "conversion_plan \<Rightarrow> unit_graph \<Rightarrow> (assigned_voice segment_plan \<times> job_unit) list" where
  "pending_segments plan us = List.map_filter (\<lambda>g. Option.bind (map_of (ugr_synthesis us) (sg_key g))
     (\<lambda>u. if unit_is_reusable u then None else Some (g, u))) (plan_segments plan)"

text \<open>\<open>update\_unit\_state\<close> up to its write.\<close>

definition update_unit_state :: "job_unit_state \<Rightarrow> str option \<Rightarrow> time \<Rightarrow> job_unit \<Rightarrow> job_unit" where
  "update_unit_state next error now u =
     (let payload = (ju_payload u)(''progress'' \<mapsto> JNum (Finite (if next = UnitCompleted then 1 else 0)))
      in u\<lparr>ju_state := next, ju_updated_at := now, ju_payload := (case error of
          Some e \<Rightarrow> payload(''lastError'' \<mapsto> JStr e)
        | None \<Rightarrow> if next \<noteq> UnitFailed then payload(''lastError'' := None) else payload)\<rparr>)"

end
