(* ===== verification/Conversion_Correctness.thy ===== *)
theory Conversion_Correctness
  imports Conversion_Plan Proofing_Correctness
begin

text \<open>
  Lemmas about conversion plans: what the planner guarantees of every segment, how plans depend on the
  identifiers drawn, and the shape of the graph of units.
\<close>

section \<open>Results\<close>

lemma and_then_Inr [simp]: "and_then r f = Inr b \<longleftrightarrow> (\<exists>a. r = Inr a \<and> f a = Inr b)"
  by (cases r) (simp_all add: and_then_def)

lemma ok_or_Inr [simp]: "ok_or x e = Inr a \<longleftrightarrow> x = Some a"
  by (cases x) (simp_all add: ok_or_def)

lemma from_storage_Inr [simp]: "from_storage r = Inr a \<longleftrightarrow> r = Inr a"
  by (cases r) (simp_all add: from_storage_def)

section \<open>Voices\<close>

lemma direction_first_issue: "validate_voice_direction p t m c = Inr u \<Longrightarrow> first_issue p t = Inr u"
  by (cases "first_issue p t") (simp_all add: validate_voice_direction_def)

text \<open>What may be dispatched may be planned.\<close>

lemma dispatch_is_semantic:
  "assign_voice wb (Dispatch now) project c = Inr a \<Longrightarrow> assign_voice wb Semantic project c = Inr a"
  by (auto simp: assign_voice_def dispatch_ready_def direction_ready_def Let_def dest: direction_first_issue)

lemma assign_voice_id: "assign_voice wb purpose project c = Inr a \<Longrightarrow> sa_character_id a = cch_id c"
  by (auto simp: assign_voice_def Let_def)

lemma built_assignments:
  assumes "build_assignments_for wb purpose project cs result = Inr assignments" and "map_of assignments i = Some a"
  shows "map_of result i = Some a \<or> (\<exists>c \<in> set cs. cch_id c = i \<and> assign_voice wb purpose project c = Inr a)"
  using assms
proof (induction cs arbitrary: result)
  case (Cons c cs)
  from Cons.prems(1) obtain b where b: "assign_voice wb purpose project c = Inr b"
    and r: "build_assignments_for wb purpose project cs (btree_insert (cch_id c) b result) = Inr assignments" by auto
  from Cons.IH [OF r Cons.prems(2)] b show ?case by (auto simp: btree_insert_map_of split: if_splits)
qed simp

lemma find_by_id: "distinct (map cch_id cs) \<Longrightarrow> c \<in> set cs \<Longrightarrow> find (\<lambda>d. cch_id d = cch_id c) cs = Some c"
  by (rule find_id_unique)

section \<open>Planned segments\<close>

lemma apply_rules_env:
  "apply_rules (env\<lparr>te_new_id := f\<rparr>) rs v applied = apply_rules env rs v applied"
  by (induction rs arbitrary: v applied)
    (simp_all add: rule_pattern_def replace_with_def Let_def split: sum.split rule_kind.split)

lemma pronunciation_env:
  "apply_pronunciation_rules (env\<lparr>te_new_id := f\<rparr>) text rules project character language
     = apply_pronunciation_rules env text rules project character language"
  by (simp add: apply_pronunciation_rules_def apply_rules_env)

text \<open>What the planner establishes for each segment.\<close>

definition planned_as :: "'rx text_env \<Rightarrow> pronunciation_rule list \<Rightarrow> uuid \<Rightarrow> str option \<Rightarrow> 'v assignments \<Rightarrow> uuid \<Rightarrow>
    'v segment_plan \<Rightarrow> bool" where
  "planned_as env rules project language assignments chapter g \<longleftrightarrow> sg_chapter_id g = chapter \<and> sg_proofing g
     \<and> (\<exists>character. map_of assignments character = Some (sg_assignment g)
         \<and> apply_pronunciation_rules env (sg_original_text g) rules project character language
           = Inr (sg_text g, sg_applied_rule_ids g, sg_dictionary_revision g))"

lemma segment_range_planned:
  "segment_range env project language chapter title rules assignments p count r = Inr (Some g) \<Longrightarrow>
     planned_as env rules project language assignments chapter g"
  by (cases "apply_pronunciation_rules env (str_trim (str_slice (pg_text p) (fst r) (fst (snd r)))) rules project
      (snd (snd r)) language")
    (auto simp: segment_range_def planned_as_def Let_def split: prod.splits if_splits option.splits)

lemma segment_all_planned:
  assumes "segment_all (\<lambda>count (p, r). segment_range env project language chapter title rules assignments p count r) rs out
      = Inr gs" and "\<forall>g \<in> set out. planned_as env rules project language assignments chapter g"
  shows "\<forall>g \<in> set gs. planned_as env rules project language assignments chapter g"
  using assms
proof (induction rs arbitrary: out)
  case (Cons r rs)
  obtain p q where r: "r = (p, q)" by (cases r)
  show ?case
  proof (cases "segment_range env project language chapter title rules assignments p (length out) q")
    case (Inl e)
    with Cons.prems(1) r show ?thesis by simp
  next
    case (Inr v)
    note res = Inr
    show ?thesis
    proof (cases v)
      case None
      with res Cons.prems r show ?thesis by (intro Cons.IH [OF _ Cons.prems(2)]) simp
    next
      case (Some g)
      with res have "planned_as env rules project language assignments chapter g" by (simp add: segment_range_planned)
      with res Some Cons.prems r show ?thesis by (intro Cons.IH [of "out @ [g]"]) auto
    qed
  qed
qed simp

lemma segment_chapter_planned:
  assumes "segment_chapter env project language chapter title paragraphs narrator assignments spans overrides rules = Inr gs"
  shows "\<forall>g \<in> set gs. planned_as env rules project language assignments chapter g"
proof -
  let ?rs = "concat (map (\<lambda>p. map (Pair p) (paragraph_ranges narrator assignments spans overrides p)) paragraphs)"
  from assms obtain raw where o: "segment_all (\<lambda>count (p, r).
      segment_range env project language chapter title rules assignments p count r) ?rs [] = Inr raw"
    and gs: "gs = filter (\<lambda>s. is_speakable env (sg_original_text s)) (with_contexts raw)"
    by (cases "segment_all (\<lambda>count (p, r).
      segment_range env project language chapter title rules assignments p count r) ?rs []") (auto simp: segment_chapter_def)
  from segment_all_planned [OF o] have all: "\<forall>g \<in> set raw. planned_as env rules project language assignments chapter g"
    by simp
  show ?thesis
  proof
    fix g assume "g \<in> set gs"
    then obtain i x where "i < length raw" "g = (raw ! i)\<lparr>sg_context := x\<rparr>"
      by (auto simp: gs with_contexts_def)
    with all show "planned_as env rules project language assignments chapter g" by (simp add: planned_as_def)
  qed
qed

lemma numbered: "g \<in> set (number_playback n gs) \<Longrightarrow> \<exists>h \<in> set gs. \<exists>m. g = h\<lparr>sg_playback_ordinal := m\<rparr>"
  by (induction n gs rule: number_playback.induct) auto

lemma planned_env:
  "planned_as (env\<lparr>te_new_id := f\<rparr>) rules project language assignments chapter g
     = planned_as env rules project language assignments chapter g"
  by (simp add: planned_as_def pronunciation_env)

lemma plan_chapters_planned:
  assumes "plan_chapters wb src new_id project language narrator assignments spans overrides k n cs = Inr plans"
  shows "map cnc_chapter plans = cs \<and> (\<forall>c \<in> set plans. \<forall>g \<in> set (cnc_segments c).
    planned_as (wb_text wb) (wb_rules wb) project language assignments (soc_id (cnc_chapter c)) g)"
  using assms
proof (induction cs arbitrary: k n plans)
  case (Cons c cs)
  from Cons.prems obtain paragraphs gs rest where
    g: "segment_chapter ((wb_text wb)\<lparr>te_new_id := new_id k\<rparr>) project language (soc_id c) (soc_title c) paragraphs
        narrator assignments spans overrides (wb_rules wb) = Inr gs"
    and r: "plan_chapters wb src new_id project language narrator assignments spans overrides (Suc k)
        (next_playback n gs) cs = Inr rest"
    and p: "plans = \<lparr>cnc_chapter = c, cnc_segments = number_playback n gs\<rparr> # rest"
    by (auto split: if_splits)
  have "planned_as (wb_text wb) (wb_rules wb) project language assignments (soc_id c) g" if "g \<in> set (number_playback n gs)" for g
    using numbered [OF that] segment_chapter_planned [OF g] by (auto simp: planned_env) (simp add: planned_as_def)
  with Cons.IH [OF r] p show ?case by simp
qed simp

definition catalog_of :: "'rx workbench \<Rightarrow> project_id \<Rightarrow> catalog_character list" where
  "catalog_of wb p = (case wb_characters wb p of None \<Rightarrow> [] | Some cs \<Rightarrow> cs)"

lemma load_conversion_plan_Inr:
  assumes "load_conversion_plan wb src new_id now p e = Inr plan"
  shows "\<exists>sp assignments narrator spans overrides chapters. wb_stored_project wb p = Inr (Some sp)
    \<and> build_assignments_for wb (Dispatch now) sp (catalog_of wb p) [] = Inr assignments
    \<and> map_option cch_id (find (\<lambda>c. cch_role c = NarratorRole) (catalog_of wb p)) = Some narrator
    \<and> bks_detection_spans src p = Inr spans \<and> bks_overrides src p = Inr overrides
    \<and> bks_chapters src (spj_book_id sp) = Inr chapters
    \<and> plan_chapters wb src new_id p (spj_language sp) narrator assignments spans overrides 0 0
        (filter soc_selected chapters) = Inr (cnp_chapters plan)
    \<and> plan = \<lparr>cnp_project = p, cnp_chapters = cnp_chapters plan, cnp_rules = wb_rules wb, cnp_export = e\<rparr>"
  using assms unfolding load_conversion_plan_def catalog_of_def [symmetric] Let_def
  by (auto split: if_splits)

section \<open>Plans of stored segments\<close>

lemma overlay_default [simp]: "performance_overlay p default_performance = p"
  by (simp add: performance_overlay_def default_performance_def or_else_def)

lemma timing_default [simp]: "effective_timing default_timing t = t"
  by (simp add: effective_timing_def default_timing_def or_else_def)

lemma context_of_before [simp]: "context_of b None = b"
  by (simp add: context_of_def split: option.split)

text \<open>The plan of a stored segment whose speaker has a voice.\<close>

lemma load_plan_of_speaker:
  assumes "wb_stored_project wb p = Inr (Some sp)" and "wb_characters wb p = Some cs" and "distinct (map cch_id cs)"
    and "c \<in> set cs" and "planned_speaker_id (psg_speaker g) cs = Inr (cch_id c)"
  shows "load_proofing_segment_plan wb p g = Inr plan \<longleftrightarrow>
    (\<exists>a chapter paragraph_id text applied revision. assign_voice wb Semantic sp c = Inr a
       \<and> psg_chapter_id g = Some chapter \<and> psg_paragraph_id g = Some paragraph_id
       \<and> apply_pronunciation_rules (wb_text wb) (case psg_narration_text_override g of Some t \<Rightarrow> t | None \<Rightarrow> psg_original_text g)
           (wb_rules wb) p (cch_id c) (spj_language sp) = Inr (text, applied, revision)
       \<and> plan = \<lparr>sg_id = psg_id g, sg_proofing = True, sg_key = psg_stable_key g, sg_chapter_id = chapter,
         sg_paragraph_id = paragraph_id, sg_source_content_hash = psg_source_content_hash g,
         sg_byte_start = (case psg_byte_start g of None \<Rightarrow> 0 | Some n \<Rightarrow> n),
         sg_byte_end = (case psg_byte_end g of None \<Rightarrow> 0 | Some n \<Rightarrow> n),
         sg_chapter_title = chapter_title wb p (psg_chapter_id g), sg_segment_ordinal = psg_ordinal g,
         sg_playback_ordinal = psg_ordinal g, sg_original_text = psg_original_text g, sg_text = text,
         sg_context = context_of (psg_context_before g) (psg_context_after g),
         sg_assignment = a\<lparr>sa_voice := (sa_voice a)\<lparr>
           av_performance := performance_overlay (av_performance (sa_voice a)) (psg_performance_override g),
           av_timing := effective_timing (psg_timing_override g) (av_timing (sa_voice a))\<rparr>\<rparr>,
         sg_applied_rule_ids = applied, sg_dictionary_revision = revision\<rparr>)"
  using assms find_by_id [OF assms(3,4)]
  by (auto simp: load_proofing_segment_plan_def load_proofing_segment_plan_for_def Let_def)

lemma speaker_of_planned:
  assumes "distinct (map cch_id cs)" and "speaker_of speaker cs = Some c"
  shows "c \<in> set cs \<and> planned_speaker_id speaker cs = Inr (cch_id c)"
  using assms by (auto simp: speaker_of_def planned_speaker_id_def split: speaker.splits dest: find_Some_D)


lemma redirect_segment_Inr:
  assumes "redirect_segment wb p g = Inr g'"
  shows "\<exists>cs c a provider applied revision. wb_characters wb p = Some cs \<and> speaker_of (psg_speaker g) cs = Some c
    \<and> cch_voice_assignment c = Some a \<and> wb_providers wb (va_provider_profile_id a) = Some provider
    \<and> apply_pronunciation_rules (wb_text wb) (case psg_narration_text_override g of Some t \<Rightarrow> t | None \<Rightarrow> psg_original_text g)
        (wb_rules wb) p (cch_id c) (wb_language wb p) = Inr (psg_effective_text g', applied, revision)
    \<and> psg_expected_input_hash g' = semantic_input_hash wb (psg_effective_text g') (psg_context_before g)
        (va_provider_profile_id a) (or_else (va_model a) (pve_model provider)) (va_voice_id a) revision
        (performance_overlay (va_performance a) (psg_performance_override g))
    \<and> g' = g\<lparr>psg_effective_text := psg_effective_text g', psg_expected_input_hash := psg_expected_input_hash g'\<rparr>"
  using assms by (auto simp: redirect_segment_def synthesis_context_def Let_def split: option.splits sum.splits prod.splits)

lemma edit_segment_Inr:
  assumes "edit_segment wb p i input clk s = (Inr g, s')"
  shows "\<exists>g1 g2. redirect_segment wb p g1 = Inr g2 \<and> g = g2\<lparr>psg_review_state := Unreviewed, psg_updated_at := clk 0,
    psg_revision := u64_saturating_add (su_expected_revision input) 1\<rparr>"
proof -
  from assms obtain g1 g2 e plan f s1 where "redirect_segment wb p g1 = Inr g2"
    and "update_segment_and_plan (g2\<lparr>psg_review_state := Unreviewed, psg_updated_at := clk 0\<rparr>)
      (su_expected_revision input) plan f s1 = Inr (g, s')"
    unfolding edit_segment_def Let_def by auto
  with update_segment_and_plan_Inr(1) [of "g2\<lparr>psg_review_state := Unreviewed, psg_updated_at := clk 0\<rparr>"] show ?thesis
    by fastforce
qed

end
