(* ===== verification/Conversion_Graph.thy ===== *)
theory Conversion_Graph
  imports Conversion_Correctness "HOL-Library.Multiset"
begin

text \<open>
  The graph of units of a conversion: its shape, the order of its units, and what is found of it when a worker
  loads the stored units again.
\<close>

section \<open>The graph of units\<close>

lemma update_new: "k \<notin> fst ` set m \<Longrightarrow> AList.update k v m = m @ [(k, v)]"
  by (induction m) auto

lemma enumerate_member: "(i, x) \<in> set (enumerate k xs) \<Longrightarrow> x \<in> set xs"
  unfolding enumerate_eq_zip by (rule set_zip_rightD)

definition well_planned :: "conversion_plan \<Rightarrow> bool" where
  "well_planned plan \<longleftrightarrow> distinct (map sg_key (plan_segments plan))
     \<and> distinct (map (\<lambda>c. soc_id (cnc_chapter c)) (cnp_chapters plan))
     \<and> (\<forall>c \<in> set (cnp_chapters plan). \<forall>g \<in> set (cnc_segments c). sg_chapter_id g = soc_id (cnc_chapter c))"

lemma synthesis_units_eq:
  assumes "distinct (map sg_key gs)" and "sg_key ` set gs \<inter> fst ` set m = {}"
  shows "synthesis_units wb enc new_id j now k gs (m, b)
    = (m @ map (\<lambda>(i, g). (sg_key g, synthesis_unit wb enc new_id j now i g)) (enumerate k gs),
       \<lambda>c. b c @ map (\<lambda>e. new_id (SegmentUnit (fst e))) (filter (\<lambda>e. sg_chapter_id (snd e) = c) (enumerate k gs)))"
  using assms
proof (induction gs arbitrary: k m b)
  case (Cons g gs)
  have "AList.update (sg_key g) (synthesis_unit wb enc new_id j now k g) m
    = m @ [(sg_key g, synthesis_unit wb enc new_id j now k g)]" using Cons.prems by (intro update_new) auto
  then show ?case using Cons.prems by (auto simp: Let_def Cons.IH fun_eq_iff synthesis_unit_def)
qed simp

lemma assembly_units_eq:
  assumes "distinct (map soc_id cs)" and "soc_id ` set cs \<inter> fst ` set m = {}"
  shows "assembly_units new_id j now k cs b m = m @ map (\<lambda>(i, c). (soc_id c, stage_unit ChapterAssembly
    (new_id (AssemblyUnit i)) j (Some (soc_id c)) (b (soc_id c)) (''Assemble '' @ soc_title c) now)) (enumerate k cs)"
  using assms
proof (induction cs arbitrary: k m b)
  case (Cons c cs)
  have "assembly_units new_id j now k (c # cs) b m = assembly_units new_id j now (Suc k) cs (b(soc_id c := []))
    (m @ [(soc_id c, stage_unit ChapterAssembly (new_id (AssemblyUnit k)) j (Some (soc_id c)) (b (soc_id c))
       (''Assemble '' @ soc_title c) now)])"
    using Cons.prems by (simp add: update_new)
  also have "\<dots> = (m @ [(soc_id c, stage_unit ChapterAssembly (new_id (AssemblyUnit k)) j (Some (soc_id c)) (b (soc_id c))
       (''Assemble '' @ soc_title c) now)]) @ map (\<lambda>(i, d). (soc_id d, stage_unit ChapterAssembly
    (new_id (AssemblyUnit i)) j (Some (soc_id d)) ((b(soc_id c := [])) (soc_id d)) (''Assemble '' @ soc_title d) now))
    (enumerate (Suc k) cs)"
    using Cons.prems by (intro Cons.IH) auto
  also have "map (\<lambda>(i, d). (soc_id d, stage_unit ChapterAssembly
    (new_id (AssemblyUnit i)) j (Some (soc_id d)) ((b(soc_id c := [])) (soc_id d)) (''Assemble '' @ soc_title d) now))
    (enumerate (Suc k) cs) = map (\<lambda>(i, d). (soc_id d, stage_unit ChapterAssembly
    (new_id (AssemblyUnit i)) j (Some (soc_id d)) (b (soc_id d)) (''Assemble '' @ soc_title d) now))
    (enumerate (Suc k) cs)"
  proof (rule map_cong [OF refl])
    fix e assume e: "e \<in> set (enumerate (Suc k) cs)"
    obtain i d where "e = (i, d)" by (cases e)
    moreover have "soc_id d \<noteq> soc_id c"
    proof
      assume "soc_id d = soc_id c"
      moreover from e \<open>e = (i, d)\<close> have "d \<in> set cs" using enumerate_member by fast
      ultimately have "soc_id c \<in> soc_id ` set cs" by (metis imageI)
      with Cons.prems(1) show False by simp
    qed
    ultimately show "(case e of (i, d) \<Rightarrow> (soc_id d, stage_unit ChapterAssembly
      (new_id (AssemblyUnit i)) j (Some (soc_id d)) ((b(soc_id c := [])) (soc_id d)) (''Assemble '' @ soc_title d) now))
      = (case e of (i, d) \<Rightarrow> (soc_id d, stage_unit ChapterAssembly
      (new_id (AssemblyUnit i)) j (Some (soc_id d)) (b (soc_id d)) (''Assemble '' @ soc_title d) now))" by simp
  qed
  finally show ?case by simp
qed simp

text \<open>The two groups of units of a plan, in the order of the book.\<close>

definition segment_units ::
  "'rx workbench \<Rightarrow> (assigned_voice segment_plan \<Rightarrow> json) \<Rightarrow> (unit_slot \<Rightarrow> uuid) \<Rightarrow> job_id \<Rightarrow> time \<Rightarrow>
     conversion_plan \<Rightarrow> (str \<times> job_unit) list" where
  "segment_units wb enc new_id j now plan = map (\<lambda>(i, g). (sg_key g, synthesis_unit wb enc new_id j now i g))
     (enumerate 0 (plan_segments plan))"

definition chapter_units :: "(unit_slot \<Rightarrow> uuid) \<Rightarrow> job_id \<Rightarrow> time \<Rightarrow> conversion_plan \<Rightarrow> (chapter_id \<times> job_unit) list" where
  "chapter_units new_id j now plan = map (\<lambda>(i, c). (soc_id c, stage_unit ChapterAssembly
     (new_id (AssemblyUnit i)) j (Some (soc_id c))
     (map (\<lambda>e. new_id (SegmentUnit (fst e)))
       (filter (\<lambda>e. sg_chapter_id (snd e) = soc_id c) (enumerate 0 (plan_segments plan))))
     (''Assemble '' @ soc_title c) now)) (enumerate 0 (map cnc_chapter (cnp_chapters plan)))"

lemma build_job_units_fields:
  assumes "well_planned plan" and "us = build_job_units wb enc new_id j now plan"
  shows "ugr_synthesis us = segment_units wb enc new_id j now plan"
    and "ugr_assembly us = chapter_units new_id j now plan"
    and "ugr_mix us = (if xpl_background_music (cnp_export plan)
       then Some (stage_unit MusicMix (new_id MixUnit) j None (map (\<lambda>e. ju_id (snd e)) (chapter_units new_id j now plan))
         ''Mix background music'' now) else None)"
    and "ugr_normalize us = stage_unit Normalization (new_id NormalizeUnit) j None
       (if xpl_background_music (cnp_export plan) then [new_id MixUnit]
        else map (\<lambda>e. ju_id (snd e)) (chapter_units new_id j now plan)) ''Measure final loudness'' now"
    and "ugr_export us = stage_unit FinalExport (new_id ExportUnit) j None [new_id NormalizeUnit] ''Export audiobook'' now"
proof -
  have "distinct (map soc_id (map cnc_chapter (cnp_chapters plan)))" using assms(1) by (simp add: well_planned_def comp_def)
  from assembly_units_eq [OF this, of "[]" new_id j now 0]
    synthesis_units_eq [of "plan_segments plan" "[]" wb enc new_id j now 0 "\<lambda>_. []"] assms
  show "ugr_synthesis us = segment_units wb enc new_id j now plan"
    and "ugr_assembly us = chapter_units new_id j now plan"
    and "ugr_mix us = (if xpl_background_music (cnp_export plan)
       then Some (stage_unit MusicMix (new_id MixUnit) j None (map (\<lambda>e. ju_id (snd e)) (chapter_units new_id j now plan))
         ''Mix background music'' now) else None)"
    and "ugr_normalize us = stage_unit Normalization (new_id NormalizeUnit) j None
       (if xpl_background_music (cnp_export plan) then [new_id MixUnit]
        else map (\<lambda>e. ju_id (snd e)) (chapter_units new_id j now plan)) ''Measure final loudness'' now"
    and "ugr_export us = stage_unit FinalExport (new_id ExportUnit) j None [new_id NormalizeUnit] ''Export audiobook'' now"
    by (simp_all add: build_job_units_def Let_def well_planned_def segment_units_def chapter_units_def stage_unit_def)
qed

text \<open>Every unit comes after what it waits for.\<close>

fun deps_before :: "job_unit_id set \<Rightarrow> job_unit list \<Rightarrow> bool" where
  "deps_before seen [] \<longleftrightarrow> True"
| "deps_before seen (u # us) \<longleftrightarrow> set (ju_dependencies u) \<subseteq> seen \<and> deps_before (insert (ju_id u) seen) us"

lemma deps_before_append:
  "deps_before seen (us @ vs) \<longleftrightarrow> deps_before seen us \<and> deps_before (seen \<union> ju_id ` set us) vs"
  by (induction us arbitrary: seen) auto

lemma deps_before_all: "\<forall>u \<in> set us. set (ju_dependencies u) \<subseteq> seen \<Longrightarrow> deps_before seen us"
  by (induction us arbitrary: seen) (simp_all add: subset_insertI2)

lemma deps_before_inside:
  assumes "deps_before seen us" and "distinct (map ju_id us)" and "seen \<inter> ju_id ` set us = {}"
    and "u \<in> set us" and "d \<in> set (ju_dependencies u)"
  shows "d \<noteq> ju_id u \<and> d \<in> seen \<union> ju_id ` set us"
  using assms
proof (induction us arbitrary: seen)
  case (Cons v us)
  show ?case
  proof (cases "u = v")
    case True
    with Cons.prems show ?thesis by auto
  next
    case False
    with Cons.prems have "d \<noteq> ju_id u \<and> d \<in> insert (ju_id v) seen \<union> ju_id ` set us" by (intro Cons.IH) auto
    then show ?thesis by auto
  qed
qed simp

text \<open>The pairs of a unit and one that waits for it.\<close>

definition waits :: "job_unit list \<Rightarrow> (job_unit_id \<times> job_unit_id) set" where
  "waits us = {(d, ju_id u) | d u. u \<in> set us \<and> d \<in> set (ju_dependencies u)}"

lemma waitsI: "u \<in> set us \<Longrightarrow> d \<in> set (ju_dependencies u) \<Longrightarrow> (d, ju_id u) \<in> waits us"
  by (auto simp: waits_def)

lemma segment_unit_ids: "map (\<lambda>e. ju_id (snd e)) (segment_units wb enc new_id j now plan)
    = map (\<lambda>i. new_id (SegmentUnit i)) [0 ..< length (plan_segments plan)]"
proof -
  have "map (\<lambda>e. ju_id (snd e)) (segment_units wb enc new_id j now plan)
    = map (\<lambda>i. new_id (SegmentUnit i)) (map fst (enumerate 0 (plan_segments plan)))"
    unfolding segment_units_def map_map by (rule map_cong) (auto simp: synthesis_unit_def)
  then show ?thesis unfolding map_fst_enumerate by simp
qed

lemma chapter_unit_ids: "map (\<lambda>e. ju_id (snd e)) (chapter_units new_id j now plan)
    = map (\<lambda>i. new_id (AssemblyUnit i)) [0 ..< length (cnp_chapters plan)]"
proof -
  have "map (\<lambda>e. ju_id (snd e)) (chapter_units new_id j now plan)
    = map (\<lambda>i. new_id (AssemblyUnit i)) (map fst (enumerate 0 (map cnc_chapter (cnp_chapters plan))))"
    unfolding chapter_units_def map_map by (rule map_cong) (auto simp: stage_unit_def)
  then show ?thesis unfolding map_fst_enumerate by simp
qed

lemma stage_unit_fields [simp]:
  "ju_id (stage_unit kind i j c ds title now) = i" "ju_dependencies (stage_unit kind i j c ds title now) = ds"
  "ju_job_id (stage_unit kind i j c ds title now) = j" "ju_kind (stage_unit kind i j c ds title now) = kind"
  "ju_chapter_id (stage_unit kind i j c ds title now) = c"
  by (simp_all add: stage_unit_def)

lemma distinct_ids_sorted: "distinct (map ju_id us) \<Longrightarrow> distinct (map ju_id (sort_key ju_id us))"
  by (simp add: distinct_map)

lemma segment_units_members:
  "u \<in> snd ` set (segment_units wb enc new_id j now plan) \<longleftrightarrow>
     (\<exists>i g. (i, g) \<in> set (enumerate 0 (plan_segments plan)) \<and> u = synthesis_unit wb enc new_id j now i g)"
  by (force simp: segment_units_def)

lemma job_graph_lemma:
  assumes inj: "inj new_id" and plan: "well_planned plan"
    and us: "us = build_job_units wb enc new_id j now plan"
  shows "distinct (map ju_id (ordered_units us))" and "deps_before {} (ordered_units us)"
    and "\<forall>u \<in> set (ordered_units us). ju_job_id u = j"
proof -
  note f = build_job_units_fields [OF plan us]
  let ?S = "map snd (segment_units wb enc new_id j now plan)" and ?A = "map snd (chapter_units new_id j now plan)"
  have S: "map ju_id ?S = map (\<lambda>i. new_id (SegmentUnit i)) [0 ..< length (plan_segments plan)]"
    using segment_unit_ids by (simp add: comp_def)
  have A: "map ju_id ?A = map (\<lambda>i. new_id (AssemblyUnit i)) [0 ..< length (cnp_chapters plan)]"
    using chapter_unit_ids by (simp add: comp_def)
  have SA: "ju_id ` set ?S = (\<lambda>i. new_id (SegmentUnit i)) ` {0 ..< length (plan_segments plan)}"
    "ju_id ` set ?A = (\<lambda>i. new_id (AssemblyUnit i)) ` {0 ..< length (cnp_chapters plan)}"
    using arg_cong [OF S, of set] arg_cong [OF A, of set] by (simp_all add: image_image)
  have new: "new_id a = new_id b \<longleftrightarrow> a = b" for a b using inj by (auto dest: injD)
  have "distinct (map ju_id (sort_key ju_id ?S))" "distinct (map ju_id (sort_key ju_id ?A))"
    by (intro distinct_ids_sorted; simp only: S A; simp add: distinct_map inj_on_def new)+
  then show "distinct (map ju_id (ordered_units us))"
    using SA by (auto simp: ordered_units_def f new)
  have deps: "\<forall>u \<in> set ?A. set (ju_dependencies u) \<subseteq> ju_id ` set ?S" "\<forall>u \<in> set ?S. ju_dependencies u = []"
    unfolding SA by (auto simp: chapter_units_def segment_units_def synthesis_unit_def in_set_enumerate_eq)
  have assembled: "map (\<lambda>e. ju_id (snd e)) (chapter_units new_id j now plan) = map ju_id ?A" by simp
  have "deps_before {} (sort_key ju_id ?S)" "deps_before (ju_id ` set ?S) (sort_key ju_id ?A)"
    using deps by (simp_all add: deps_before_all)
  then show "deps_before {} (ordered_units us)"
    by (auto simp: ordered_units_def f deps_before_append assembled)
  show "\<forall>u \<in> set (ordered_units us). ju_job_id u = j"
    by (auto simp: ordered_units_def f segment_units_def chapter_units_def synthesis_unit_def)
qed

section \<open>Plans up to the identifiers of segments\<close>

definition forget_id :: "'v segment_plan \<Rightarrow> 'v segment_plan" where
  "forget_id g = g\<lparr>sg_id := 0\<rparr>"

definition forget_ids :: "conversion_plan \<Rightarrow> conversion_plan" where
  "forget_ids plan = plan\<lparr>cnp_chapters := map (\<lambda>c. c\<lparr>cnc_segments := map forget_id (cnc_segments c)\<rparr>) (cnp_chapters plan)\<rparr>"

lemma forget_fields [simp]:
  "sg_text (forget_id g) = sg_text g" "sg_original_text (forget_id g) = sg_original_text g"
  "sg_key (forget_id g) = sg_key g" "sg_chapter_id (forget_id g) = sg_chapter_id g" "sg_id (forget_id g) = 0"
  "forget_id (g\<lparr>sg_context := x\<rparr>) = (forget_id g)\<lparr>sg_context := x\<rparr>"
  "forget_id (g\<lparr>sg_playback_ordinal := n\<rparr>) = (forget_id g)\<lparr>sg_playback_ordinal := n\<rparr>"
  by (simp_all add: forget_id_def)

lemma segment_range_forget:
  "map_sum id (map_option forget_id) (segment_range (env\<lparr>te_new_id := f\<rparr>) project language chapter title rules assignments p n r)
    = map_sum id (map_option forget_id) (segment_range (env\<lparr>te_new_id := h\<rparr>) project language chapter title rules assignments p n r)"
proof -
  have "segment_key (env\<lparr>te_new_id := f\<rparr>) = segment_key (env\<lparr>te_new_id := h\<rparr>)"
    by (simp add: segment_key_def fun_eq_iff)
  then show ?thesis
    by (cases r, cases "apply_pronunciation_rules env (str_trim (str_slice (pg_text p) (fst r) (fst (snd r)))) rules project
        (snd (snd r)) language")
      (simp_all add: segment_range_def pronunciation_env Let_def forget_id_def split: prod.split option.split)
qed

lemma segment_all_forget:
  assumes "\<And>n r. map_sum id (map_option forget_id) (seg n r) = map_sum id (map_option forget_id) (seg' n r)"
    and "map forget_id out = map forget_id out'"
  shows "map_sum id (map forget_id) (segment_all seg rs out) = map_sum id (map forget_id) (segment_all seg' rs out')"
  using assms(2)
proof (induction rs arbitrary: out out')
  case (Cons r rs)
  have len: "length out = length out'" using arg_cong [OF Cons.prems, of length] by simp
  from assms(1) [of "length out'" r] Cons.IH Cons.prems show ?case
    by (cases "seg (length out') r"; cases "seg' (length out') r") (auto simp: len split: option.splits)
qed simp

lemma with_contexts_forget: "map forget_id (with_contexts gs) = with_contexts (map forget_id gs)"
proof -
  have "forget_id (gs ! i) = map forget_id gs ! i" if "i < length gs" for i using that by simp
  then show ?thesis
    by (simp add: with_contexts_def cong: map_cong if_cong)
qed

lemma filter_forget:
  "map forget_id (filter (\<lambda>s. P (sg_original_text s)) gs) = filter (\<lambda>s. P (sg_original_text s)) (map forget_id gs)"
  by (induction gs) simp_all

lemma number_forget: "map forget_id (number_playback n gs) = number_playback n (map forget_id gs)"
  by (induction n gs rule: number_playback.induct) simp_all

lemma segment_chapter_forget:
  assumes "segment_chapter (env\<lparr>te_new_id := f\<rparr>) project language chapter title paragraphs narrator assignments spans
      overrides rules = Inr gs"
    and "segment_chapter (env\<lparr>te_new_id := h\<rparr>) project language chapter title paragraphs narrator assignments spans
      overrides rules = Inr gs'"
  shows "map forget_id gs = map forget_id gs'"
proof -
  let ?seg = "\<lambda>f count (p, r). segment_range (env\<lparr>te_new_id := f\<rparr>) project language chapter title rules assignments p count r"
  let ?rs = "concat (map (\<lambda>p. map (Pair p) (paragraph_ranges narrator assignments spans overrides p)) paragraphs)"
  have speak: "is_speakable (env\<lparr>te_new_id := f\<rparr>) = is_speakable (env\<lparr>te_new_id := h\<rparr>)"
    by (simp add: is_speakable_def fun_eq_iff)
  from assms obtain raw raw' where r: "segment_all (?seg f) ?rs [] = Inr raw" "segment_all (?seg h) ?rs [] = Inr raw'"
    and gs: "gs = filter (\<lambda>s. is_speakable (env\<lparr>te_new_id := f\<rparr>) (sg_original_text s)) (with_contexts raw)"
      "gs' = filter (\<lambda>s. is_speakable (env\<lparr>te_new_id := f\<rparr>) (sg_original_text s)) (with_contexts raw')"
    unfolding segment_chapter_def speak
    by (cases "segment_all (?seg f) ?rs []"; cases "segment_all (?seg h) ?rs []") auto
  have "map_sum id (map forget_id) (segment_all (?seg f) ?rs []) = map_sum id (map forget_id) (segment_all (?seg h) ?rs [])"
    by (rule segment_all_forget) (auto simp: segment_range_forget split: prod.split)
  with r have "map forget_id raw = map forget_id raw'" by simp
  then show ?thesis by (simp add: gs filter_forget with_contexts_forget)
qed

lemma plan_chapters_forget:
  assumes "plan_chapters wb src new_id project language narrator assignments spans overrides k n cs = Inr plans"
    and "plan_chapters wb src new_id' project language narrator assignments spans overrides k n cs = Inr plans'"
  shows "map (\<lambda>c. c\<lparr>cnc_segments := map forget_id (cnc_segments c)\<rparr>) plans
    = map (\<lambda>c. c\<lparr>cnc_segments := map forget_id (cnc_segments c)\<rparr>) plans'"
  using assms
proof (induction cs arbitrary: k n plans plans')
  case (Cons c cs)
  from Cons.prems(1) obtain paragraphs gs rest where
    g: "bks_paragraphs src (soc_id c) = Inr paragraphs"
       "segment_chapter ((wb_text wb)\<lparr>te_new_id := new_id k\<rparr>) project language (soc_id c) (soc_title c) paragraphs
        narrator assignments spans overrides (wb_rules wb) = Inr gs"
       "plan_chapters wb src new_id project language narrator assignments spans overrides (Suc k)
        (next_playback n gs) cs = Inr rest"
       "plans = \<lparr>cnc_chapter = c, cnc_segments = number_playback n gs\<rparr> # rest"
    by (auto split: if_splits)
  from Cons.prems(2) g(1) obtain gs' rest' where
    g': "segment_chapter ((wb_text wb)\<lparr>te_new_id := new_id' k\<rparr>) project language (soc_id c) (soc_title c) paragraphs
        narrator assignments spans overrides (wb_rules wb) = Inr gs'"
       "plan_chapters wb src new_id' project language narrator assignments spans overrides (Suc k)
        (next_playback n gs') cs = Inr rest'"
       "plans' = \<lparr>cnc_chapter = c, cnc_segments = number_playback n gs'\<rparr> # rest'"
    by (auto split: if_splits)
  have eq: "map forget_id gs = map forget_id gs'" by (rule segment_chapter_forget [OF g(2) g'(1)])
  have "next_playback n (map forget_id gs) = next_playback n gs" "next_playback n (map forget_id gs') = next_playback n gs'"
    by (simp_all add: next_playback_def fold_map comp_def)
  with eq have "next_playback n gs' = next_playback n gs" by simp
  with Cons.IH [OF g(3)] g'(2) have "map (\<lambda>c. c\<lparr>cnc_segments := map forget_id (cnc_segments c)\<rparr>) rest
    = map (\<lambda>c. c\<lparr>cnc_segments := map forget_id (cnc_segments c)\<rparr>) rest'" by simp
  then show ?case by (simp add: g(4) g'(3) number_forget eq)
qed simp

lemma build_semantic:
  "build_assignments_for wb (Dispatch now) sp cs r = Inr x \<Longrightarrow> build_assignments_for wb Semantic sp cs r = Inr x"
  by (induction cs arbitrary: r) (auto dest: dispatch_is_semantic)

lemma replanned:
  assumes "load_conversion_plan wb src new_id now p e = Inr plan" and "load_conversion_plan wb src new_id' now' p e = Inr plan'"
  shows "forget_ids plan' = forget_ids plan"
proof -
  from load_conversion_plan_Inr [OF assms(1)] obtain sp assignments narrator spans overrides chs where
    a: "wb_stored_project wb p = Inr (Some sp)" "build_assignments_for wb (Dispatch now) sp (catalog_of wb p) [] = Inr assignments"
      "map_option cch_id (find (\<lambda>c. cch_role c = NarratorRole) (catalog_of wb p)) = Some narrator"
      "bks_detection_spans src p = Inr spans" "bks_overrides src p = Inr overrides" "bks_chapters src (spj_book_id sp) = Inr chs"
      "plan_chapters wb src new_id p (spj_language sp) narrator assignments spans overrides 0 0
        (filter soc_selected chs) = Inr (cnp_chapters plan)"
      "plan = \<lparr>cnp_project = p, cnp_chapters = cnp_chapters plan, cnp_rules = wb_rules wb, cnp_export = e\<rparr>" by blast
  from load_conversion_plan_Inr [OF assms(2)] a(1,3-6) obtain assignments' where
    b: "build_assignments_for wb (Dispatch now') sp (catalog_of wb p) [] = Inr assignments'"
      "plan_chapters wb src new_id' p (spj_language sp) narrator assignments' spans overrides 0 0
        (filter soc_selected chs) = Inr (cnp_chapters plan')"
      "plan' = \<lparr>cnp_project = p, cnp_chapters = cnp_chapters plan', cnp_rules = wb_rules wb, cnp_export = e\<rparr>" by auto
  from build_semantic [OF a(2)] build_semantic [OF b(1)] have "assignments' = assignments" by simp
  with plan_chapters_forget [OF a(7)] b(2) have "map (\<lambda>c. c\<lparr>cnc_segments := map forget_id (cnc_segments c)\<rparr>) (cnp_chapters plan)
    = map (\<lambda>c. c\<lparr>cnc_segments := map forget_id (cnc_segments c)\<rparr>) (cnp_chapters plan')" by simp
  then show ?thesis by (subst a(8), subst b(3)) (simp add: forget_ids_def)
qed

section \<open>Loading the stored units\<close>

lemma map_of_fold_update:
  assumes "distinct (map h xs)"
  shows "map_of (fold (\<lambda>u. AList.update (h u) u) xs m) k = (case find (\<lambda>u. h u = k) xs of None \<Rightarrow> map_of m k | Some u \<Rightarrow> Some u)"
  using assms
proof (induction xs arbitrary: m)
  case (Cons x xs)
  have "find (\<lambda>u. h u = h x) xs = None" using Cons.prems by (auto simp: find_None_iff) (metis imageI)
  with Cons show ?case by (auto simp: update_conv' split: option.split)
qed simp

lemma fold_update_distinct:
  "distinct (map fst m) \<Longrightarrow> distinct (map fst (fold (\<lambda>u. AList.update (h u) u) xs m))"
  by (induction xs arbitrary: m) (simp_all add: distinct_update)

lemma found_by_key:
  assumes "distinct (map h xs)"
  shows "map_of (fold (\<lambda>u. AList.update (h u) u) xs []) k = Some u \<longleftrightarrow> u \<in> set xs \<and> h u = k"
  using assms by (auto simp: map_of_fold_update find_id_unique split: option.splits dest: find_Some_D find_None_D)

text \<open>The stored units of each kind.\<close>

definition of_kind :: "job_unit_kind \<Rightarrow> job_unit list \<Rightarrow> job_unit list" where
  "of_kind kind us = filter (\<lambda>u. ju_kind u = kind) us"

definition unit_key :: "job_unit \<Rightarrow> str" where
  "unit_key u = the (payload_text u ''segmentKey'')"

definition unit_chapter :: "job_unit \<Rightarrow> chapter_id" where
  "unit_chapter u = the (ju_chapter_id u)"

lemma place_units:
  assumes "\<forall>u \<in> set us. (ju_kind u = SynthesisSegment \<longrightarrow> payload_text u ''segmentKey'' \<noteq> None)
    \<and> (ju_kind u = ChapterAssembly \<longrightarrow> ju_chapter_id u \<noteq> None)"
  shows "fold place_unit us f = f\<lparr>
    fnd_synthesis := fold (\<lambda>u. AList.update (unit_key u) u) (of_kind SynthesisSegment us) (fnd_synthesis f),
    fnd_assembly := fold (\<lambda>u. AList.update (unit_chapter u) u) (of_kind ChapterAssembly us) (fnd_assembly f),
    fnd_mix := fold (\<lambda>u _. Some u) (of_kind MusicMix us) (fnd_mix f),
    fnd_normalize := fold (\<lambda>u _. Some u) (of_kind Normalization us) (fnd_normalize f),
    fnd_export := fold (\<lambda>u _. Some u) (of_kind FinalExport us) (fnd_export f)\<rparr>"
  using assms
proof (induction us arbitrary: f)
  case (Cons u us)
  have "fold place_unit (u # us) f = fold place_unit us (place_unit u f)" by simp
  also have "\<dots> = (place_unit u f)\<lparr>
    fnd_synthesis := fold (\<lambda>u. AList.update (unit_key u) u) (of_kind SynthesisSegment us) (fnd_synthesis (place_unit u f)),
    fnd_assembly := fold (\<lambda>u. AList.update (unit_chapter u) u) (of_kind ChapterAssembly us) (fnd_assembly (place_unit u f)),
    fnd_mix := fold (\<lambda>u _. Some u) (of_kind MusicMix us) (fnd_mix (place_unit u f)),
    fnd_normalize := fold (\<lambda>u _. Some u) (of_kind Normalization us) (fnd_normalize (place_unit u f)),
    fnd_export := fold (\<lambda>u _. Some u) (of_kind FinalExport us) (fnd_export (place_unit u f))\<rparr>"
    using Cons.prems by (intro Cons.IH) simp
  finally show ?case using Cons.prems
    by (cases "ju_kind u") (auto simp: place_unit_def [of u f] of_kind_def unit_key_def unit_chapter_def)
qed (simp add: of_kind_def)

lemma of_kind_mset:
  assumes "mset stored = mset (map f us)" and "\<forall>u. ju_kind (f u) = ju_kind u"
  shows "mset (of_kind kind stored) = mset (map f (of_kind kind us))"
proof -
  have "mset (of_kind kind stored) = mset (of_kind kind (map f us))" by (simp add: of_kind_def assms(1))
  also have "of_kind kind (map f us) = map f (of_kind kind us)" using assms(2) by (simp add: of_kind_def filter_map comp_def)
  finally show ?thesis .
qed

lemma of_kind_ordered:
  assumes "well_planned plan" and "us = build_job_units wb enc new_id j now plan"
  shows "of_kind SynthesisSegment (ordered_units us) = sort_key ju_id (map snd (segment_units wb enc new_id j now plan))"
    and "of_kind ChapterAssembly (ordered_units us) = sort_key ju_id (map snd (chapter_units new_id j now plan))"
    and "of_kind MusicMix (ordered_units us) = (case ugr_mix us of None \<Rightarrow> [] | Some u \<Rightarrow> [u])"
    and "of_kind Normalization (ordered_units us) = [ugr_normalize us]"
    and "of_kind FinalExport (ordered_units us) = [ugr_export us]"
proof -
  note f = build_job_units_fields [OF assms]
  have S: "\<forall>u \<in> set (sort_key ju_id (map snd (segment_units wb enc new_id j now plan))). ju_kind u = SynthesisSegment"
    by (auto simp: segment_units_def synthesis_unit_def)
  have A: "\<forall>u \<in> set (sort_key ju_id (map snd (chapter_units new_id j now plan))). ju_kind u = ChapterAssembly"
    by (auto simp: chapter_units_def)
  have none: "filter (\<lambda>u. ju_kind u = kind) xs = []" if "\<forall>u \<in> set xs. ju_kind u = kind'" "kind \<noteq> kind'" for kind kind' xs
    using that by (auto simp: filter_empty_conv)
  have all: "filter (\<lambda>u. ju_kind u = kind) xs = xs" if "\<forall>u \<in> set xs. ju_kind u = kind" for kind xs
    using that by simp
  note parts = all [OF S] none [OF S] all [OF A] none [OF A]
  show "of_kind SynthesisSegment (ordered_units us) = sort_key ju_id (map snd (segment_units wb enc new_id j now plan))"
    and "of_kind ChapterAssembly (ordered_units us) = sort_key ju_id (map snd (chapter_units new_id j now plan))"
    and "of_kind MusicMix (ordered_units us) = (case ugr_mix us of None \<Rightarrow> [] | Some u \<Rightarrow> [u])"
    and "of_kind Normalization (ordered_units us) = [ugr_normalize us]"
    and "of_kind FinalExport (ordered_units us) = [ugr_export us]"
    by (simp_all add: of_kind_def ordered_units_def f parts)
qed

text \<open>What a worker changes of a unit - its state, output, attempts, progress - keeps what it stands for.\<close>

definition keeps_identity :: "(job_unit \<Rightarrow> job_unit) \<Rightarrow> bool" where
  "keeps_identity f \<longleftrightarrow> (\<forall>u. ju_kind (f u) = ju_kind u \<and> ju_chapter_id (f u) = ju_chapter_id u
     \<and> ju_segment_id (f u) = ju_segment_id u \<and> list_all (\<lambda>k. ju_payload (f u) k = ju_payload u k)
         [''segmentKey'', ''segmentPlan'', ''cacheOperation''])"

lemma update_unit_state_keeps: "keeps_identity (update_unit_state next e now)"
  by (simp add: keeps_identity_def update_unit_state_def Let_def split: option.split)

lemma keeps_identityD:
  assumes "keeps_identity f"
  shows "ju_kind (f u) = ju_kind u" "ju_chapter_id (f u) = ju_chapter_id u" "ju_segment_id (f u) = ju_segment_id u"
    "payload_text (f u) ''segmentKey'' = payload_text u ''segmentKey''"
    "payload_text (f u) ''cacheOperation'' = payload_text u ''cacheOperation''"
    "ju_payload (f u) ''segmentPlan'' = ju_payload u ''segmentPlan''" "unit_key (f u) = unit_key u"
    "unit_chapter (f u) = unit_chapter u"
  using assms by (simp_all add: keeps_identity_def payload_text_def unit_key_def unit_chapter_def)

lemma synthesis_unit_fields [simp]:
  "payload_text (synthesis_unit wb enc new_id j now i g) ''segmentKey'' = Some (sg_key g)"
  "payload_text (synthesis_unit wb enc new_id j now i g) ''cacheOperation'' = Some ''conversion''"
  "ju_payload (synthesis_unit wb enc new_id j now i g) ''segmentPlan'' = Some (enc g)"
  "unit_key (synthesis_unit wb enc new_id j now i g) = sg_key g"
  "ju_segment_id (synthesis_unit wb enc new_id j now i g) = (if sg_proofing g then Some (sg_id g) else None)"
  "ju_kind (synthesis_unit wb enc new_id j now i g) = SynthesisSegment"
  by (simp_all add: synthesis_unit_def payload_text_def unit_key_def)

lemma segment_unit_member:
  "(k, u) \<in> set (segment_units wb enc new_id j now plan) \<Longrightarrow>
     \<exists>i g. g \<in> set (plan_segments plan) \<and> u = synthesis_unit wb enc new_id j now i g \<and> k = sg_key g"
  by (auto simp: segment_units_def dest: enumerate_member)

lemma segment_units_keys: "map fst (segment_units wb enc new_id j now plan) = map sg_key (plan_segments plan)"
proof -
  have "map fst (segment_units wb enc new_id j now plan) = map sg_key (map snd (enumerate 0 (plan_segments plan)))"
    unfolding segment_units_def map_map by (rule map_cong) auto
  then show ?thesis by simp
qed

lemma segment_unit_keys: "map (\<lambda>e. unit_key (snd e)) (segment_units wb enc new_id j now plan) = map sg_key (plan_segments plan)"
  unfolding segment_units_keys [symmetric, where wb = wb and enc = enc and new_id = new_id and j = j and now = now]
  by (rule map_cong) (auto dest: segment_unit_member)

lemma chapter_units_keys:
  "map fst (chapter_units new_id j now plan) = map (\<lambda>c. soc_id (cnc_chapter c)) (cnp_chapters plan)"
proof -
  have "map fst (chapter_units new_id j now plan) = map soc_id (map snd (enumerate 0 (map cnc_chapter (cnp_chapters plan))))"
    unfolding chapter_units_def map_map by (rule map_cong) auto
  then show ?thesis by (simp add: comp_def)
qed

lemma chapter_unit_keys:
  "map (\<lambda>e. unit_chapter (snd e)) (chapter_units new_id j now plan) = map (\<lambda>c. soc_id (cnc_chapter c)) (cnp_chapters plan)"
  unfolding chapter_units_keys [symmetric, where new_id = new_id and j = j and now = now]
  by (rule map_cong) (auto simp: chapter_units_def unit_chapter_def)

lemma option_eqI: "(\<And>v. x = Some v \<longleftrightarrow> y = Some v) \<Longrightarrow> x = y"
  by (cases x; cases y) auto

text \<open>One of the two maps, found again among the stored units.\<close>

lemma map_found_again:
  assumes stored: "mset xs = mset (map f (sort_key ju_id (map snd m)))" and key: "\<And>u. h (f u) = h u"
    and m: "map (\<lambda>e. h (snd e)) m = map fst m" "distinct (map fst m)"
  shows "map_of (fold (\<lambda>u. AList.update (h u) u) xs []) = (\<lambda>k. map_option f (map_of m k))"
    and "distinct (map fst (fold (\<lambda>u. AList.update (h u) u) xs []))"
    and "fst ` set (fold (\<lambda>u. AList.update (h u) u) xs []) = fst ` set m"
proof -
  have "map h (map f (map snd m)) = map fst m" by (simp add: m(1) [symmetric] key comp_def)
  have "mset (map h xs) = image_mset h (mset (map f (map snd m)))" by (simp only: mset_map stored mset_sort)
  also have "\<dots> = mset (map h (map f (map snd m)))" by (simp only: mset_map)
  also have "\<dots> = mset (map fst m)" by (simp only: \<open>map h (map f (map snd m)) = map fst m\<close>)
  finally have d: "distinct (map h xs)" using m(2) mset_eq_imp_distinct_iff by blast
  have set: "set xs = f ` snd ` set m" using arg_cong [OF stored, of set_mset] by simp
  have hk: "h u = k" if "(k, u) \<in> set m" for k u using m(1) that by (metis (no_types, lifting) fst_conv map_eq_conv snd_conv)
  show eq: "map_of (fold (\<lambda>u. AList.update (h u) u) xs []) = (\<lambda>k. map_option f (map_of m k))"
  proof (rule ext, rule option_eqI)
    fix k v
    have "map_of (fold (\<lambda>u. AList.update (h u) u) xs []) k = Some v \<longleftrightarrow> (\<exists>u. (k, u) \<in> set m \<and> v = f u)"
      unfolding found_by_key [OF d] set using key hk by (auto simp: image_iff) (metis snd_conv)+
    also have "\<dots> \<longleftrightarrow> map_option f (map_of m k) = Some v"
      using m(2) by (auto simp: map_of_eq_Some_iff)
    finally show "map_of (fold (\<lambda>u. AList.update (h u) u) xs []) k = Some v \<longleftrightarrow> map_option f (map_of m k) = Some v" .
  qed
  show "distinct (map fst (fold (\<lambda>u. AList.update (h u) u) xs []))" by (rule fold_update_distinct) simp
  have "dom (map_of (fold (\<lambda>u. AList.update (h u) u) xs [])) = dom (map_of m)" unfolding eq by (auto simp: dom_def)
  then show "fst ` set (fold (\<lambda>u. AList.update (h u) u) xs []) = fst ` set m" by (simp add: dom_map_of_conv_image_fst)
qed

lemma validate_all_snapshots:
  "\<forall>g \<in> set gs. \<exists>u. map_of syn (sg_key g) = Some u \<and> validate_durable_segment_snapshot wb dec u g = Inr () \<Longrightarrow>
     validate_snapshots wb dec syn gs = Inr ()"
  by (induction gs) auto

lemma forget_eq_fields:
  assumes "forget_id a = forget_id b"
  shows "sg_text a = sg_text b" "sg_context a = sg_context b" "sg_assignment a = sg_assignment b"
    "sg_dictionary_revision a = sg_dictionary_revision b" "sg_applied_rule_ids a = sg_applied_rule_ids b" "sg_key a = sg_key b"
  using arg_cong [OF assms, of sg_text] arg_cong [OF assms, of sg_context] arg_cong [OF assms, of sg_assignment]
    arg_cong [OF assms, of sg_dictionary_revision] arg_cong [OF assms, of sg_applied_rule_ids] arg_cong [OF assms, of sg_key]
  by (simp_all add: forget_id_def)

lemma snapshot_valid:
  assumes "ju_payload u ''segmentPlan'' = Some v" and "dec v = Inr a" and "forget_id a = forget_id b"
  shows "validate_durable_segment_snapshot wb dec u b = Inr ()"
  using assms(1,2) by (simp add: validate_durable_segment_snapshot_def segment_semantic_input_hash_def
      segment_cache_fingerprint_def Let_def forget_eq_fields [OF assms(3)])

lemma plan_segments_forget: "plan_segments (forget_ids plan) = map forget_id (plan_segments plan)"
  by (simp add: plan_segments_def forget_ids_def map_concat comp_def)

lemma bound_ids:
  assumes "forget_ids plan' = forget_ids plan"
    and "\<forall>g \<in> set (plan_segments plan). Option.bind (map_of (ugr_synthesis us) (sg_key g)) ju_segment_id = Some (sg_id g)"
  shows "bind_persisted_segment_ids us plan' = plan"
proof -
  let ?id = "\<lambda>k. Option.bind (map_of (ugr_synthesis us) k) ju_segment_id"
  let ?bind = "\<lambda>g :: assigned_voice segment_plan. case ?id (sg_key g) of None \<Rightarrow> g | Some i \<Rightarrow> g\<lparr>sg_id := i\<rparr>"
  have forget: "g\<lparr>sg_id := i\<rparr> = (forget_id g)\<lparr>sg_id := i\<rparr>" for g :: "assigned_voice segment_plan" and i
    by (simp add: forget_id_def)
  have known: "?id (sg_key g) \<noteq> None" if "g \<in> set (plan_segments plan')" for g
  proof -
    from assms(1) have "map forget_id (plan_segments plan') = map forget_id (plan_segments plan)"
      by (metis plan_segments_forget)
    then have "forget_id g \<in> forget_id ` set (plan_segments plan)" using that by (metis image_eqI image_set)
    then obtain h where "h \<in> set (plan_segments plan)" "forget_id g = forget_id h" by auto
    with assms(2) forget_eq_fields(6) show ?thesis by (metis option.distinct(1))
  qed
  have bind: "bind_persisted_segment_ids us pl = (forget_ids pl)\<lparr>cnp_chapters := map (\<lambda>c. c\<lparr>cnc_segments :=
      map (\<lambda>g. g\<lparr>sg_id := the (?id (sg_key g))\<rparr>) (cnc_segments c)\<rparr>) (cnp_chapters (forget_ids pl))\<rparr>"
    if "\<And>g. g \<in> set (plan_segments pl) \<Longrightarrow> ?id (sg_key g) \<noteq> None" for pl
  proof -
    have "?bind g = (forget_id g)\<lparr>sg_id := the (?id (sg_key (forget_id g)))\<rparr>" if "g \<in> set (plan_segments pl)" for g
      using \<open>\<And>g. g \<in> set (plan_segments pl) \<Longrightarrow> ?id (sg_key g) \<noteq> None\<close> [OF that] forget by auto
    then have "map ?bind (cnc_segments c) = map (\<lambda>g. g\<lparr>sg_id := the (?id (sg_key g))\<rparr>) (map forget_id (cnc_segments c))"
      if "c \<in> set (cnp_chapters pl)" for c
      using that by (auto simp: plan_segments_def)
    then show ?thesis by (simp add: bind_persisted_segment_ids_def forget_ids_def cong: map_cong)
  qed
  have "bind_persisted_segment_ids us plan' = bind_persisted_segment_ids us plan"
    using bind [of plan'] bind [of plan] known assms by auto
  also have "\<dots> = plan"
  proof -
    have "?bind g = g" if "g \<in> set (plan_segments plan)" for g using assms(2) that by simp
    then have "map ?bind (cnc_segments c) = cnc_segments c" if "c \<in> set (cnp_chapters plan)" for c
      using that by (intro map_idI) (auto simp: plan_segments_def)
    then show ?thesis by (simp add: bind_persisted_segment_ids_def cong: map_cong)
  qed
  finally show ?thesis .
qed

lemma single_fold: "mset xs = {#x#} \<Longrightarrow> fold (\<lambda>u _. Some u) xs a = Some x"
  by (simp add: mset_single_iff)

lemma loaded_again:
  assumes plans: "well_planned plan" "forget_ids plan' = forget_ids plan" "\<forall>g \<in> set (plan_segments plan). sg_proofing g"
    and codec: "\<forall>g \<in> set (plan_segments plan). dec (enc g) = Inr g"
    and us: "us = build_job_units wb enc new_id j now plan"
    and stored: "mset stored = mset (map f (ordered_units us))" and f: "keeps_identity f"
  shows "\<exists>us'. load_unit_plan wb dec plan' stored = Inr us' \<and> bind_persisted_segment_ids us' plan' = plan
    \<and> map_of (ugr_synthesis us') = (\<lambda>k. map_option f (map_of (ugr_synthesis us) k))
    \<and> map_of (ugr_assembly us') = (\<lambda>c. map_option f (map_of (ugr_assembly us) c))
    \<and> ugr_mix us' = map_option f (ugr_mix us) \<and> ugr_normalize us' = f (ugr_normalize us)
    \<and> ugr_export us' = f (ugr_export us)"
proof -
  note fields = build_job_units_fields [OF plans(1) us] and kinds = of_kind_ordered [OF plans(1) us]
    and keep = keeps_identityD [OF f]
  let ?S = "segment_units wb enc new_id j now plan" and ?A = "chapter_units new_id j now plan"
  let ?syn = "fold (\<lambda>u. AList.update (unit_key u) u) (of_kind SynthesisSegment stored) []"
  let ?asm = "fold (\<lambda>u. AList.update (unit_chapter u) u) (of_kind ChapterAssembly stored) []"
  have kindm: "mset (of_kind k stored) = mset (map f (of_kind k (ordered_units us)))" for k
    by (rule of_kind_mset [OF stored]) (simp add: keep)
  have S: "map_of ?syn = (\<lambda>k. map_option f (map_of ?S k))" "distinct (map fst ?syn)" "fst ` set ?syn = fst ` set ?S"
    using map_found_again [of "of_kind SynthesisSegment stored" f ?S unit_key] kindm [of SynthesisSegment] plans(1)
    by (simp_all add: kinds keep segment_unit_keys segment_units_keys well_planned_def)
  have A: "map_of ?asm = (\<lambda>k. map_option f (map_of ?A k))" "distinct (map fst ?asm)" "fst ` set ?asm = fst ` set ?A"
    using map_found_again [of "of_kind ChapterAssembly stored" f ?A unit_chapter] kindm [of ChapterAssembly] plans(1)
    by (simp_all add: kinds keep chapter_unit_keys chapter_units_keys well_planned_def)
  have keys: "map sg_key (plan_segments plan') = map sg_key (plan_segments plan)"
  proof -
    have "map sg_key (map forget_id (plan_segments plan')) = map sg_key (map forget_id (plan_segments plan))"
      using plans(2) by (metis plan_segments_forget)
    then show ?thesis by (simp add: comp_def)
  qed
  have chapters: "length (cnp_chapters plan') = length (cnp_chapters plan)" "cnp_export plan' = cnp_export plan"
    using arg_cong [OF plans(2), of "\<lambda>p. length (cnp_chapters p)"] arg_cong [OF plans(2), of cnp_export]
    by (simp_all add: forget_ids_def)
  have members: "set stored = f ` set (ordered_units us)" using arg_cong [OF stored, of set_mset] by simp
  have "\<forall>u \<in> set stored. (ju_kind u = SynthesisSegment \<longrightarrow> payload_text u ''segmentKey'' \<noteq> None)
    \<and> (ju_kind u = ChapterAssembly \<longrightarrow> ju_chapter_id u \<noteq> None)"
    unfolding members by (auto simp: keep ordered_units_def fields chapter_units_def dest: segment_unit_member)
  from place_units [OF this, of no_units] have found: "fold place_unit stored no_units
    = \<lparr>fnd_synthesis = ?syn, fnd_assembly = ?asm, fnd_mix = map_option f (ugr_mix us),
       fnd_normalize = Some (f (ugr_normalize us)), fnd_export = Some (f (ugr_export us))\<rparr>"
    using kindm [of MusicMix] kindm [of Normalization] kindm [of FinalExport]
    by (cases "ugr_mix us") (simp_all add: no_units_def kinds single_fold)
  have exists: "stored \<noteq> []" using stored by (auto simp: ordered_units_def)
  have synkeys: "fst ` set ?syn = set (map sg_key (plan_segments plan))"
    unfolding S(3) by (simp only: set_map [symmetric] segment_units_keys)
  then have "filter (unit_expected wb (map sg_key (plan_segments plan'))) ?syn = ?syn"
    by (intro filter_True) (auto simp: unit_expected_def keys)
  moreover have "length ?asm = length (cnp_chapters plan)"
  proof -
    have "length ?asm = card (fst ` set ?asm)" using distinct_card [OF A(2)] by simp
    also have "\<dots> = card (set (map (\<lambda>c. soc_id (cnc_chapter c)) (cnp_chapters plan)))"
      unfolding A(3) by (simp only: set_map [symmetric] chapter_units_keys)
    also have "\<dots> = length (cnp_chapters plan)" using plans(1) distinct_card by (fastforce simp: well_planned_def)
    finally show ?thesis .
  qed
  moreover have unit: "\<exists>i. map_of ?syn (sg_key g) = Some (f (synthesis_unit wb enc new_id j now i g))"
    if g: "g \<in> set (plan_segments plan)" for g
  proof -
    from g obtain i where "i < length (plan_segments plan)" "plan_segments plan ! i = g" by (metis in_set_conv_nth)
    then have "(i, g) \<in> set (enumerate 0 (plan_segments plan))" by (simp add: in_set_enumerate_eq)
    then have "(sg_key g, synthesis_unit wb enc new_id j now i g) \<in> set ?S" by (force simp: segment_units_def)
    moreover have "distinct (map fst ?S)" using plans(1) by (simp add: segment_units_keys well_planned_def)
    ultimately show ?thesis by (auto simp: S(1) map_of_eq_Some_iff)
  qed
  moreover have "validate_snapshots wb dec ?syn (plan_segments plan') = Inr ()"
  proof (rule validate_all_snapshots, rule ballI)
    fix g' assume "g' \<in> set (plan_segments plan')"
    then have "forget_id g' \<in> forget_id ` set (plan_segments plan)"
      using plans(2) by (metis image_eqI image_set plan_segments_forget)
    then obtain g where g: "g \<in> set (plan_segments plan)" "forget_id g' = forget_id g" by auto
    from unit [OF g(1)] obtain i where i: "map_of ?syn (sg_key g) = Some (f (synthesis_unit wb enc new_id j now i g))" by blast
    have "validate_durable_segment_snapshot wb dec (f (synthesis_unit wb enc new_id j now i g)) g' = Inr ()"
      by (rule snapshot_valid [where v = "enc g" and a = g]) (use codec g in \<open>simp_all add: keep\<close>)
    with i show "\<exists>u. map_of ?syn (sg_key g') = Some u \<and> validate_durable_segment_snapshot wb dec u g' = Inr ()"
      by (simp add: forget_eq_fields(6) [OF g(2)])
  qed
  ultimately have "load_unit_plan wb dec plan' stored = Inr \<lparr>ugr_synthesis = ?syn, ugr_assembly = ?asm,
    ugr_mix = map_option f (ugr_mix us), ugr_normalize = f (ugr_normalize us), ugr_export = f (ugr_export us)\<rparr>"
    using exists synkeys by (simp add: load_unit_plan_def Let_def found keys chapters fields)
  moreover have "bind_persisted_segment_ids \<lparr>ugr_synthesis = ?syn, ugr_assembly = ?asm,
    ugr_mix = map_option f (ugr_mix us), ugr_normalize = f (ugr_normalize us), ugr_export = f (ugr_export us)\<rparr> plan' = plan"
  proof (rule bound_ids [OF plans(2)], rule ballI)
    fix g assume "g \<in> set (plan_segments plan)"
    with unit [OF this] plans(3) show "Option.bind (map_of (ugr_synthesis \<lparr>ugr_synthesis = ?syn, ugr_assembly = ?asm,
      ugr_mix = map_option f (ugr_mix us), ugr_normalize = f (ugr_normalize us), ugr_export = f (ugr_export us)\<rparr>) (sg_key g))
      ju_segment_id = Some (sg_id g)" by (auto simp: keep)
  qed
  ultimately show ?thesis using S(1) A(1) by (simp add: fields)
qed

end
