(* ===== verification/Conversion_Properties.thy ===== *)
theory Conversion_Properties
  imports Conversion_Graph Proofing_Properties
begin

text \<open>
  What the plan of a conversion guarantees the rest of the program: its units can be scheduled, a worker finds
  the plan again after a restart, and the inputs it records for each segment are those that the proofing
  workbench computes later. The witnesses use the catalog of Proofing\_Properties with its one character as
  the narrator of a book of one paragraph.
\<close>

section \<open>A small book\<close>

definition narrated :: "unit workbench" where
  "narrated = demo_workbench\<lparr>wb_characters := \<lambda>_. Some [demo_character\<lparr>cch_role := NarratorRole\<rparr>]\<rparr>"

definition small_book :: book_source where
  "small_book = \<lparr>bks_book_exists = \<lambda>_. Inr True,
     bks_chapters = \<lambda>_. Inr [\<lparr>soc_id = 3, soc_title = ''One'', soc_selected = True\<rparr>],
     bks_paragraphs = \<lambda>_. Inr [\<lparr>pg_id = 4, pg_chapter_id = 3, pg_ordinal = 0, pg_kind = KindProse, pg_text = ''Hey'',
       pg_source_start = 0, pg_source_end = 3, pg_content_hash = ''c''\<rparr>],
     bks_detection_spans = \<lambda>_. Inr (\<lambda>_. []), bks_overrides = \<lambda>_. Inr (\<lambda>_. [])\<rparr>"

definition small_segment :: "uuid \<Rightarrow> assigned_voice segment_plan" where
  "small_segment i = demo_segment_plan\<lparr>sg_id := i, sg_key := segment_key (wb_text demo_workbench) 3 4 0 3 30\<rparr>"

definition small_plan :: "uuid \<Rightarrow> conversion_plan" where
  "small_plan i = \<lparr>cnp_project = 9, cnp_chapters =
     [\<lparr>cnc_chapter = \<lparr>soc_id = 3, soc_title = ''One'', soc_selected = True\<rparr>, cnc_segments = [small_segment i]\<rparr>],
     cnp_rules = [], cnp_export = \<lparr>xpl_id = 6, xpl_background_music = True\<rparr>\<rparr>"

lemma hey: "chars_of ''Hey'' = [''H'', ''e'', ''y'']" "str_trim ''Hey'' = ''Hey''" "\<not> str_is_blank ''Hey''"
proof -
  show c: "chars_of ''Hey'' = [''H'', ''e'', ''y'']"
    by (simp add: chars_of.simps [of "''Hey''"] chars_of.simps [of "''ey''"] chars_of.simps [of "''y''"] utf8_width_def Let_def)
  show "str_trim ''Hey'' = ''Hey''" by (simp add: str_trim_def c is_ws_char_def ws_len_ascii is_ascii_ws_def)
  show "\<not> str_is_blank ''Hey''" by (simp add: str_is_blank_ascii is_ascii_ws_def)
qed

lemma small_assignments_built:
  "assign_voice narrated (Dispatch 10) \<lparr>spj_book_id = 2, spj_language = None, spj_consent_book_text = False,
       spj_status = ReadyProject, spj_character_reviewed_at = Some 0\<rparr> (demo_character\<lparr>cch_role := NarratorRole\<rparr>)
     = Inr \<lparr>sa_character_id = 30, sa_character_name = ''Ann'', sa_voice = demo_voice\<rparr>"
  by (simp add: and_then_def ok_or_def from_storage_def assign_voice_def dispatch_ready_def direction_ready_def
      validate_voice_direction_def validate_billable_tts_provider_readiness_def provider_capabilities_are_fresh_def
      day_of_nanos_def validate_piper_voice_selection_def first_issue_def performance_issues_def timing_issues_def
      require_optional_number_def issue_if_def is_some_and_def performance_is_empty_def effective_concurrency_def or_else_def
      default_performance_def default_timing_def narrated_def
      demo_workbench_def demo_character_def demo_assignment_def demo_provider_def demo_voice_def Let_def)

lemma small_ranges_of:
  "speaker_ranges ''Hey'' 30 [] [] assignments = [(0, 3, 30)]"
  by (simp add: speaker_ranges_def range_spans_def detected_spans_def override_spans_def List.map_filter_simps
      boundaries_of_def push_range_def speaker_of_interval_def best_span_def Let_def)

lemma small_chapter:
  "segment_chapter ((wb_text narrated)\<lparr>te_new_id := f\<rparr>) 9 None 3 ''One''
     [\<lparr>pg_id = 4, pg_chapter_id = 3, pg_ordinal = 0, pg_kind = KindProse, pg_text = ''Hey'', pg_source_start = 0,
       pg_source_end = 3, pg_content_hash = ''c''\<rparr>] 30
     [(30, \<lparr>sa_character_id = 30, sa_character_name = ''Ann'', sa_voice = demo_voice\<rparr>)] (\<lambda>_. []) (\<lambda>_. []) []
   = Inr [small_segment (f 0)]"
  by (simp add: segment_chapter_def paragraph_ranges_def hey small_ranges_of segment_range_def str_slice_def
      apply_pronunciation_rules_def sort_rules_def is_char_boundary_def with_contexts_def context_of_def
      is_speakable_def small_segment_def demo_segment_plan_def segment_key_def u64_or_max_def u64_defs
      narrated_def demo_workbench_def Let_def)

lemma small_planned:
  "load_conversion_plan narrated small_book new_id 10 9 \<lparr>xpl_id = 6, xpl_background_music = True\<rparr> = Inr (small_plan (new_id 0 0))"
proof -
  have n: "wb_characters narrated 9 = Some [demo_character\<lparr>cch_role := NarratorRole\<rparr>]" "cch_id demo_character = 30"
    "wb_stored_project narrated 9 = Inr (Some \<lparr>spj_book_id = 2, spj_language = None, spj_consent_book_text = False,
       spj_status = ReadyProject, spj_character_reviewed_at = Some 0\<rparr>)" "wb_rules narrated = []"
    by (simp_all add: narrated_def demo_workbench_def demo_character_def)
  show ?thesis
    by (simp add: load_conversion_plan_def n small_assignments_built and_then_def ok_or_def from_storage_def small_book_def
        small_chapter [unfolded] small_plan_def Let_def) (simp add: small_segment_def demo_segment_plan_def)
qed

section \<open>Scheduling\<close>

lemma loaded_plan_shape:
  assumes "load_conversion_plan wb src new_id now p e = Inr plan"
  shows "\<forall>c \<in> set (cnp_chapters plan). \<forall>g \<in> set (cnc_segments c). sg_chapter_id g = soc_id (cnc_chapter c) \<and> sg_proofing g"
proof -
  from load_conversion_plan_Inr [OF assms] obtain sp narrator assignments spans overrides chs where
    "wb_stored_project wb p = Inr (Some sp)" and plans: "plan_chapters wb src new_id p (spj_language sp) narrator assignments spans overrides 0 0
        (filter soc_selected chs) = Inr (cnp_chapters plan)" by blast
  from plan_chapters_planned [OF plans] show ?thesis by (auto simp: planned_as_def)
qed

lemma all_units_lead_to_export:
  assumes plan: "well_planned plan" and us: "us = build_job_units wb enc new_id j now plan"
    and u: "u \<in> set (ordered_units us)"
  shows "(ju_id u, ju_id (ugr_export us)) \<in> (waits (ordered_units us))\<^sup>*"
proof -
  note f = build_job_units_fields [OF plan us]
  let ?W = "waits (ordered_units us)" and ?A = "chapter_units new_id j now plan"
  have members: "ugr_normalize us \<in> set (ordered_units us)" "ugr_export us \<in> set (ordered_units us)"
    "\<And>e. e \<in> set ?A \<Longrightarrow> snd e \<in> set (ordered_units us)"
    "\<And>m. ugr_mix us = Some m \<Longrightarrow> m \<in> set (ordered_units us)"
    by (auto simp: ordered_units_def f(2))
  have loudness: "(ju_id (ugr_normalize us), ju_id (ugr_export us)) \<in> ?W\<^sup>*"
    using waitsI [OF members(2), of "ju_id (ugr_normalize us)"] by (simp add: f)
  have mix: "(ju_id m, ju_id (ugr_export us)) \<in> ?W\<^sup>*" if "ugr_mix us = Some m" for m
    using that waitsI [OF members(1), of "ju_id m"] loudness by (auto simp: f split: if_splits intro: converse_rtrancl_into_rtrancl)
  have assembled: "(ju_id (snd e), ju_id (ugr_export us)) \<in> ?W\<^sup>*" if e: "e \<in> set ?A" for e
  proof (cases "ugr_mix us")
    case None
    then have "ju_id (snd e) \<in> set (ju_dependencies (ugr_normalize us))" using e by (auto simp: f split: if_splits)
    with waitsI [OF members(1)] loudness show ?thesis by (meson converse_rtrancl_into_rtrancl)
  next
    case (Some m)
    then have "ju_id (snd e) \<in> set (ju_dependencies m)" using e by (auto simp: f split: if_splits)
    with waitsI [OF members(4) [OF Some]] mix [OF Some] show ?thesis by (meson converse_rtrancl_into_rtrancl)
  qed
  from u consider "u \<in> snd ` set (segment_units wb enc new_id j now plan)" | "u \<in> snd ` set ?A"
    | "ugr_mix us = Some u" | "u = ugr_normalize us" | "u = ugr_export us"
    by (auto simp: ordered_units_def f(1,2) split: option.splits)
  then show ?thesis
  proof cases
    case 1
    then obtain i g where g: "(i, g) \<in> set (enumerate 0 (plan_segments plan))" "u = synthesis_unit wb enc new_id j now i g"
      by (auto simp: segment_units_members)
    then have id: "ju_id u = new_id (SegmentUnit i)" by (simp add: synthesis_unit_def)
    from g(1) have "g \<in> set (plan_segments plan)" by (rule enumerate_member)
    with plan obtain c where c: "c \<in> set (cnp_chapters plan)" "sg_chapter_id g = soc_id (cnc_chapter c)"
      by (auto simp: well_planned_def plan_segments_def)
    then have "soc_id (cnc_chapter c) \<in> fst ` set ?A"
      using arg_cong [OF chapter_units_keys [of new_id j now plan], of set] by auto
    then obtain a where a: "(soc_id (cnc_chapter c), a) \<in> set ?A" by auto
    then have "ju_id u \<in> set (ju_dependencies a)" using g(1) id c(2) by (force simp: chapter_units_def)
    with waitsI [of a "ordered_units us"] members(3) [OF a] have "(ju_id u, ju_id a) \<in> ?W" by simp
    with assembled [OF a] show ?thesis by (simp add: converse_rtrancl_into_rtrancl)
  qed (use assembled mix loudness in auto)
qed

text \<open>C6. The units of a conversion form a schedule that ends in the export. For a plan whose segment keys and
  chapters are distinct the stored order lists every unit after all units it waits for, no two share an
  identifier, the repository admits the graph, and every unit - each segment, each chapter, the music mix and
  the loudness measurement - is waited for, directly or not, by the final export.\<close>

theorem conversion_units_form_a_schedule:
  assumes "inj new_id" and "well_planned plan" and "us = build_job_units wb enc new_id j now plan"
  shows "deps_before {} (ordered_units us) \<and> distinct (map ju_id (ordered_units us))
    \<and> length (ordered_units us) = unit_count us \<and> validate_job_units j (ordered_units us) = Inr ()
    \<and> list_all (\<lambda>u. (ju_id u, ju_id (ugr_export us)) \<in> (waits (ordered_units us))\<^sup>*) (ordered_units us)"
proof -
  note g = job_graph_lemma [OF assms]
  obtain vs where vs: "vs = ordered_units us" by simp
  have "d \<noteq> ju_id u \<and> d \<in> set (map ju_id vs)" if "u \<in> set vs" "d \<in> set (ju_dependencies u)" for u d
    using deps_before_inside [OF g(2,1), folded vs, OF _ that] by simp
  then have "\<not> list_ex (\<lambda>u. ju_job_id u \<noteq> j
      \<or> list_ex (\<lambda>d. d = ju_id u \<or> d \<notin> set (map ju_id vs)) (ju_dependencies u)) vs"
    using g(3) [folded vs] unfolding list_ex_iff by blast
  moreover have "vs \<noteq> []" by (simp add: vs ordered_units_def)
  ultimately have "validate_job_units j vs = Inr ()" using g(1) [folded vs] by (simp add: validate_job_units_def)
  moreover have "length (ordered_units us) = unit_count us"
    by (cases "ugr_mix us") (simp_all add: ordered_units_def unit_count_def)
  ultimately show ?thesis using g(1,2) all_units_lead_to_export [OF assms(2,3)] by (simp add: list_all_iff vs)
qed

definition slot_number :: "unit_slot \<Rightarrow> uuid" where
  "slot_number s = (case s of SegmentTake n \<Rightarrow> 7 * n | SegmentArtifact n \<Rightarrow> 7 * n + 1 | SegmentUnit n \<Rightarrow> 7 * n + 2
     | AssemblyUnit n \<Rightarrow> 7 * n + 3 | MixUnit \<Rightarrow> 4 | NormalizeUnit \<Rightarrow> 5 | ExportUnit \<Rightarrow> 6)"

lemma slot_number_inj: "inj slot_number"
  by (rule injI, rename_tac a b, case_tac a; case_tac b) (simp_all add: slot_number_def, presburger+)

lemma small_well_planned: "well_planned (small_plan i)"
  by (simp add: well_planned_def small_plan_def plan_segments_def small_segment_def demo_segment_plan_def)

lemma conversion_units_form_a_schedule_witness:
  "validate_job_units 1 (ordered_units (build_job_units narrated (\<lambda>_. JNull) slot_number 1 10 (small_plan 5))) = Inr ()"
  using conversion_units_form_a_schedule [OF slot_number_inj small_well_planned refl, where wb = narrated and j = 1
    and enc = "\<lambda>_. JNull" and now = 10] by blast

section \<open>Restarts\<close>

text \<open>C7. A restart finds the conversion as it was admitted. The plan is computed again from the book, the
  cast and the catalog with new identifiers for its segments; the units stored for the job, whatever workers
  have changed of their state and in whatever order they are read, are accepted for it; every unit is found in
  its place with what workers had done, and binding the stored identifiers gives the admitted plan exactly.\<close>

theorem restart_restores_conversion:
  assumes "load_conversion_plan wb src new_id now p e = Inr plan" and "load_conversion_plan wb src new_id' now' p e = Inr plan'"
    and "distinct (map sg_key (plan_segments plan))" and "distinct (map (\<lambda>c. soc_id (cnc_chapter c)) (cnp_chapters plan))"
    and "list_all (\<lambda>g. dec (enc g) = Inr g) (plan_segments plan)"
    and "us = build_job_units wb enc slot j t plan"
    and "mset stored = mset (map f (ordered_units us))" and "keeps_identity f"
  shows "\<exists>us'. load_unit_plan wb dec plan' stored = Inr us' \<and> bind_persisted_segment_ids us' plan' = plan
    \<and> map_of (ugr_synthesis us') = (\<lambda>k. map_option f (map_of (ugr_synthesis us) k))
    \<and> map_of (ugr_assembly us') = (\<lambda>c. map_option f (map_of (ugr_assembly us) c))
    \<and> ugr_mix us' = map_option f (ugr_mix us) \<and> ugr_normalize us' = f (ugr_normalize us)
    \<and> ugr_export us' = f (ugr_export us)"
proof -
  note shape = loaded_plan_shape [OF assms(1)]
  then have "well_planned plan" using assms(3,4) by (simp add: well_planned_def)
  moreover have "\<forall>g \<in> set (plan_segments plan). sg_proofing g" using shape by (auto simp: plan_segments_def)
  moreover have "\<forall>g \<in> set (plan_segments plan). dec (enc g) = Inr g" using assms(5) by (simp add: list_all_iff)
  ultimately show ?thesis using loaded_again [OF _ replanned [OF assms(1,2)] _ _ assms(6-8)] by blast
qed

lemma restart_restores_conversion_witness:
  "\<exists>us'. load_unit_plan narrated (\<lambda>_. Inr (small_segment 5)) (small_plan 77)
      (map (update_unit_state UnitCompleted None 20)
        (ordered_units (build_job_units narrated (\<lambda>_. JNull) slot_number 1 10 (small_plan 5)))) = Inr us'
    \<and> bind_persisted_segment_ids us' (small_plan 77) = small_plan 5"
proof -
  have c: "plan_segments (small_plan 5) = [small_segment 5]" by (simp add: small_plan_def plan_segments_def)
  have h: "distinct (map sg_key (plan_segments (small_plan 5)))"
    "distinct (map (\<lambda>c. soc_id (cnc_chapter c)) (cnp_chapters (small_plan 5)))"
    "list_all (\<lambda>g. (\<lambda>_. Inr (small_segment 5)) ((\<lambda>_. JNull) g) = (Inr g :: str + assigned_voice segment_plan))
      (plan_segments (small_plan 5))"
    by (simp_all add: c) (simp add: small_plan_def)
  from restart_restores_conversion [OF small_planned [of "\<lambda>_ _. 5"] small_planned [of "\<lambda>_ _. 77"] h refl refl
    update_unit_state_keeps [of UnitCompleted None 20], where slot = slot_number and j = 1 and t = 10] show ?thesis by blast
qed

section \<open>Recorded inputs\<close>

text \<open>C11. Nothing is stale right after a conversion is admitted. For every segment that a conversion plans, the
  hash recorded with it is the one the proofing workbench computes from the stored segment and the same
  catalog, although the planner and the workbench find its speaker, voice, settings, text and context along
  different paths; so its recording counts as current.\<close>

theorem planned_inputs_are_current:
  assumes "load_conversion_plan wb src new_id now p e = Inr plan"
    and "wb_characters wb p = Some cs" and "distinct (map cch_id cs)" and "g \<in> set (plan_segments plan)"
  shows "inputs_current wb (planned_segment wb p (narrator_id wb p) t g)"
proof -
  let ?g = "planned_segment wb p (narrator_id wb p) t g"
  have "catalog_of wb p = cs" using assms(2) by (simp add: catalog_of_def)
  with load_conversion_plan_Inr [OF assms(1)] obtain sp assignments narrator spans overrides selected where
    h: "wb_stored_project wb p = Inr (Some sp)" "build_assignments_for wb (Dispatch now) sp cs [] = Inr assignments"
      "plan_chapters wb src new_id p (spj_language sp) narrator assignments spans overrides 0 0 selected = Inr (cnp_chapters plan)"
    by blast
  from assms(4) plan_chapters_planned [OF h(3)] obtain ch where
    g: "planned_as (wb_text wb) (wb_rules wb) p (spj_language sp) assignments ch g"
    by (auto simp: plan_segments_def)
  then obtain i where i: "map_of assignments i = Some (sg_assignment g)"
    "apply_pronunciation_rules (wb_text wb) (sg_original_text g) (wb_rules wb) p i (spj_language sp)
       = Inr (sg_text g, sg_applied_rule_ids g, sg_dictionary_revision g)" by (auto simp: planned_as_def)
  from built_assignments [OF h(2) i(1)] obtain c where c: "c \<in> set cs" "cch_id c = i"
    "assign_voice wb (Dispatch now) sp c = Inr (sg_assignment g)" by auto
  have voice: "assign_voice wb Semantic sp c = Inr (sg_assignment g)" by (rule dispatch_is_semantic [OF c(3)])
  have "sa_character_id (sg_assignment g) = cch_id c" by (rule assign_voice_id [OF c(3)])
  then have speaker: "planned_speaker_id (psg_speaker ?g) cs = Inr (cch_id c)"
    using assms(2) by (auto simp: planned_segment_def planned_speaker_id_def narrator_id_def)
  have fields: "psg_chapter_id ?g = Some (sg_chapter_id g)" "psg_paragraph_id ?g = Some (sg_paragraph_id g)"
    "psg_narration_text_override ?g = None" "psg_original_text ?g = sg_original_text g"
    "psg_context_before ?g = sg_context g" "psg_context_after ?g = None" "psg_project_id ?g = p"
    "psg_performance_override ?g = default_performance" "psg_timing_override ?g = default_timing"
    "psg_expected_input_hash ?g = segment_semantic_input_hash wb g" by (simp_all add: planned_segment_def)
  obtain plan' where load: "load_proofing_segment_plan wb p ?g = Inr plan'"
    and "sg_text plan' = sg_text g" "sg_context plan' = sg_context g" "sg_dictionary_revision plan' = sg_dictionary_revision g"
      "sa_voice (sg_assignment plan') = sa_voice (sg_assignment g)"
    using load_plan_of_speaker [OF h(1) assms(2,3) c(1) speaker] voice i(2) c(2) by (simp add: fields)
  then have "segment_semantic_input_hash wb plan' = psg_expected_input_hash ?g"
    by (simp add: fields segment_semantic_input_hash_def)
  with load show ?thesis by (simp add: inputs_current_def fields)
qed

lemma planned_inputs_are_current_witness:
  "inputs_current narrated (planned_segment narrated 9 (narrator_id narrated 9) 10 (small_segment 5))"
  by (rule planned_inputs_are_current [OF small_planned [of "\<lambda>_ _. 5"], of "[demo_character\<lparr>cch_role := NarratorRole\<rparr>]"])
    (simp_all add: narrated_def demo_workbench_def small_plan_def plan_segments_def)

text \<open>C12. An edit expects what synthesis will use. The hash that an edit stores with a segment is the hash of
  the plan from which the segment would be synthesised under the same catalog, and the stored text is the
  text of that plan; so a take made after the edit can be approved.\<close>

theorem edit_expects_synthesis_inputs:
  assumes "edit_segment wb p i input clk s = (Inr g, s')" and "load_proofing_segment_plan wb p g = Inr plan"
    and "wb_stored_project wb p = Inr (Some sp)" and "spj_language sp = wb_language wb p"
    and "wb_characters wb p = Some cs" and "distinct (map cch_id cs)" and "psg_context_after g = None"
  shows "segment_semantic_input_hash wb plan = psg_expected_input_hash g \<and> sg_text plan = psg_effective_text g"
proof -
  from edit_segment_Inr [OF assms(1)] obtain g1 g2 where r: "redirect_segment wb p g1 = Inr g2"
    and g: "g = g2\<lparr>psg_review_state := Unreviewed, psg_updated_at := clk 0,
      psg_revision := u64_saturating_add (su_expected_revision input) 1\<rparr>" by blast
  from redirect_segment_Inr [OF r] assms(5) obtain c a provider applied revision where
    c: "speaker_of (psg_speaker g1) cs = Some c" "cch_voice_assignment c = Some a"
      "wb_providers wb (va_provider_profile_id a) = Some provider"
    and applied_rules: "apply_pronunciation_rules (wb_text wb)
        (case psg_narration_text_override g1 of Some t \<Rightarrow> t | None \<Rightarrow> psg_original_text g1)
        (wb_rules wb) p (cch_id c) (wb_language wb p) = Inr (psg_effective_text g2, applied, revision)"
    and hash: "psg_expected_input_hash g2 = semantic_input_hash wb (psg_effective_text g2) (psg_context_before g1)
        (va_provider_profile_id a) (or_else (va_model a) (pve_model provider)) (va_voice_id a) revision
        (performance_overlay (va_performance a) (psg_performance_override g1))"
    and g2: "g2 = g1\<lparr>psg_effective_text := psg_effective_text g2, psg_expected_input_hash := psg_expected_input_hash g2\<rparr>"
    by auto
  have same: "psg_speaker g = psg_speaker g1" "psg_narration_text_override g = psg_narration_text_override g1"
    "psg_original_text g = psg_original_text g1" "psg_context_before g = psg_context_before g1"
    "psg_performance_override g = psg_performance_override g1" "psg_effective_text g = psg_effective_text g2"
    "psg_expected_input_hash g = psg_expected_input_hash g2"
    by (subst g, subst g2, simp)+
  from speaker_of_planned [OF assms(6) c(1)] have cs: "c \<in> set cs"
    and speaker: "planned_speaker_id (psg_speaker g) cs = Inr (cch_id c)" by (simp_all add: same)
  from assms(2) load_plan_of_speaker [OF assms(3,5,6) cs speaker, of plan, unfolded same] obtain v where
    v: "assign_voice wb Semantic sp c = Inr v" and p: "sg_text plan = psg_effective_text g2"
      "sg_dictionary_revision plan = revision" "sg_context plan = psg_context_before g1"
      "av_provider_id (sa_voice (sg_assignment plan)) = av_provider_id (sa_voice v)"
      "av_model (sa_voice (sg_assignment plan)) = av_model (sa_voice v)"
      "av_voice_id (sa_voice (sg_assignment plan)) = av_voice_id (sa_voice v)"
      "av_performance (sa_voice (sg_assignment plan))
         = performance_overlay (av_performance (sa_voice v)) (psg_performance_override g1)"
    using assms(4,7) applied_rules by (auto simp: same)
  from v c(2,3) have "av_provider_id (sa_voice v) = va_provider_profile_id a" "av_voice_id (sa_voice v) = va_voice_id a"
    "av_model (sa_voice v) = or_else (va_model a) (pve_model provider)" "av_performance (sa_voice v) = va_performance a"
    by (auto simp: assign_voice_def Let_def)
  with p hash show ?thesis by (simp add: segment_semantic_input_hash_def same)
qed


text \<open>The witness clears an override of the segment of Proofing\_Properties that has none.\<close>

definition clear_input :: segment_update_input where
  "clear_input = \<lparr>su_expected_revision = 0, su_text_override = None, su_clear_text_override = True,
     su_performance_override = None, su_timing_override = None\<rparr>"

definition demo_recorded_state :: proof_db where
  "demo_recorded_state = demo_state [unit_row_of demo_unit] [plan_row_of demo_plan] [8] [demo_segment]
     [take_row_of demo_take] [selection_row_of demo_selection]"

definition demo_edited :: production_segment where
  "demo_edited = demo_segment\<lparr>psg_updated_at := 60, psg_revision := 1\<rparr>"

lemma demo_redirected: "redirect_segment demo_workbench 9 demo_segment = Inr demo_segment"
proof -
  have c: "synthesis_context demo_workbench 9 demo_segment = Inr (30, demo_assignment, [], None)"
    by (simp add: synthesis_context_def speaker_of_def demo_workbench_def demo_segment_def planned_segment_def narrator_id_def
        demo_segment_plan_def demo_character_def)
  have d: "validate_voice_direction default_performance default_timing m cs = Inr ()" for m cs
    by (simp add: validate_voice_direction_def first_issue_def performance_issues_def timing_issues_def
        require_optional_number_def issue_if_def is_some_and_def default_performance_def default_timing_def performance_is_empty_def)
  have f: "psg_narration_text_override demo_segment = None" "psg_original_text demo_segment = ''Hey''"
    "psg_performance_override demo_segment = default_performance" "psg_timing_override demo_segment = default_timing"
    "psg_context_before demo_segment = None" "psg_effective_text demo_segment = ''Hey''"
    "psg_expected_input_hash demo_segment = ''Hey''"
    by (simp_all add: demo_segment_def planned_segment_def demo_hash) (simp_all add: demo_segment_plan_def)
  have a: "va_performance demo_assignment = default_performance" "va_timing demo_assignment = default_timing"
    "va_provider_profile_id demo_assignment = 20"
    by (simp_all add: demo_assignment_def)
  have w: "wb_providers demo_workbench 20 = Some demo_provider"
    "apply_pronunciation_rules (wb_text demo_workbench) ''Hey'' [] 9 30 None = Inr (''Hey'', [], [])"
    "semantic_input_hash demo_workbench ''Hey'' x p m v r pf = ''Hey''" for x p m v r pf
    by (simp_all add: demo_workbench_def apply_pronunciation_rules_def sort_rules_def semantic_input_hash_def)
  have "redirect_segment demo_workbench 9 demo_segment
    = Inr (demo_segment\<lparr>psg_effective_text := ''Hey'', psg_expected_input_hash := ''Hey''\<rparr>)"
    by (simp add: redirect_segment_def c d f a w Let_def)
  also have "demo_segment\<lparr>psg_effective_text := ''Hey'', psg_expected_input_hash := ''Hey''\<rparr> = demo_segment"
    by (rule production_segment.equality) (simp_all add: f)
  finally show ?thesis .
qed

lemma demo_edit: "\<exists>s'. edit_segment demo_workbench 9 5 clear_input (\<lambda>_. 60) demo_recorded_state = (Inr demo_edited, s')"
proof -
  have a: "apply_segment_input clear_input demo_segment = Inr demo_segment"
    by (simp add: apply_segment_input_def clear_input_def demo_segment_def planned_segment_def Let_def)
  let ?s = demo_recorded_state
  have guards: "ensure_proof_mutable 9 ?s = (Inr demo_plan, ?s)"
    "ensure_no_active_proof_export demo_workbench 9 ?s = (Inr (), ?s)"
    "ensure_no_active_regeneration demo_workbench 5 ?s = (Inr (), ?s)"
    "owned_segment 9 5 ?s = (Inr demo_segment, ?s)"
    by (simp_all add: ensure_proof_mutable_def get_plan_def on_db_def base_view_def job_get_def find_job_row_def
      decode_job_row_def ensure_no_active_proof_export_def active_proof_export_def active_of_kind_def
      ensure_no_active_regeneration_def active_regeneration_def owned_segment_def get_segment_def decode_segment_row_def
      demo_eval demo_unit_def demo_segment_def planned_segment_def demo_segment_plan_def segment_row_of_def unit_row_of_def
      job_row_of_def demo_job_def plan_row_of_def demo_plan_def u64_defs i64_max_def demo_recorded_state_def Let_def)
  have l: "svc_call as_storage (list_active_segments 9 None) ?s = (Inr [demo_segment], ?s)"
    by (simp add: list_active_segments_def demo_recorded_state_def demo_state_def segment_row_of_def decode_segment_row_def
        demo_segment_def planned_segment_def demo_segment_plan_def tx_gets_def svc_call_def commit_def)
  have f: "psg_revision demo_segment = 0" "psg_review_state demo_segment = Unreviewed" "psg_id demo_segment = 5"
    "ppl_plan_revision demo_plan = 1" "su_expected_revision clear_input = 0"
    by (simp_all add: demo_segment_def planned_segment_def demo_segment_plan_def demo_plan_def clear_input_def)
  have w: "\<exists>s'. svc_call w (update_segment_and_plan (demo_segment\<lparr>psg_review_state := Unreviewed, psg_updated_at := 60\<rparr>) 0
      (demo_plan\<lparr>ppl_plan_revision := n, ppl_plan_hash := h, ppl_updated_at := 60\<rparr>) 1) ?s = (Inr demo_edited, s')" for w n h
    by (simp add: update_segment_and_plan_def update_segment_or_stale_def update_segment_row_def update_plan_def
        update_plan_row_def matches_segment_def matches_plan_def active_key_clash_def rows_affected_def enforce_at_def
        demo_eval demo_recorded_state_def demo_edited_def segment_row_of_def demo_segment_def planned_segment_def
        demo_segment_plan_def plan_row_of_def demo_plan_def u64_defs i64_max_def Let_def)
  show ?thesis
    using w by (simp add: edit_segment_def svc_bind_def svc_then_def svc_lift_def svc_ensure_def svc_return_def guards l f a
        demo_redirected Let_def)
qed

lemma load_ignores_review:
  "load_proofing_segment_plan wb p (g\<lparr>psg_review_state := a, psg_updated_at := b, psg_revision := c\<rparr>)
     = load_proofing_segment_plan wb p g"
  by (simp add: load_proofing_segment_plan_def load_proofing_segment_plan_for_def cong: option.case_cong)

lemma edit_expects_synthesis_inputs_witness:
  "psg_expected_input_hash demo_edited = segment_semantic_input_hash demo_workbench demo_segment_plan"
proof -
  have f: "psg_speaker demo_edited = psg_speaker demo_locked" "psg_chapter_id demo_edited = psg_chapter_id demo_locked"
    "psg_context_after demo_edited = None"
    by (simp_all add: demo_edited_def demo_locked_def demo_segment_def planned_segment_def)
  have "load_proofing_segment_plan demo_workbench 9 demo_edited = load_proofing_segment_plan demo_workbench 9 demo_locked"
    using load_ignores_review [where wb = demo_workbench and p = 9 and g = demo_locked and a = Unreviewed and b = 60 and c = 1]
    by (simp add: demo_edited_def demo_locked_def demo_segment_def planned_segment_def)
  then have load: "load_proofing_segment_plan demo_workbench 9 demo_edited = Inr demo_segment_plan"
    by (simp add: demo_loaded)
  from demo_edit obtain s' where "edit_segment demo_workbench 9 5 clear_input (\<lambda>_. 60) demo_recorded_state = (Inr demo_edited, s')" ..
  from edit_expects_synthesis_inputs [OF this load, of _ "[demo_character]"] f(3) show ?thesis
    by (simp add: demo_workbench_def)
qed

end
