(* ===== verification/Spec2Isabelle.thy ===== *)
theory Spec2Isabelle
  imports Budget_Properties Job_Properties Idempotency_Properties Budget_Service_Properties
    Usage_Properties Retry_Properties Mp3_Properties Detection_Batching_Properties
    Detection_Execution_Properties Detection_Recovery_Properties Cast_Properties Speaker_Properties
    Playback_Properties Dialogue_Properties Auth_Properties Proofing_Properties Conversion_Properties
begin

text \<open>
  A verification library for the core of AudiobookAI, a Rust service that turns EPUB books into
  audiobooks with paid speech and language models. The paths below are those of the repository.

  THE PROGRAM. A conversion is a job (crates/core/src/jobs.rs) that moves through a state machine
  and is stored with a revision (crates/storage/src/repositories/jobs.rs). Before a job may call a
  provider it reserves the estimated amounts of every budget that applies
  (crates/service/src/accounting.rs, crates/storage/src/repositories/budgets.rs); before each
  dispatch the service checks the reservation against the usage ledger
  (crates/storage/src/repositories/usage.rs); the dispatch runs in a retry loop that must not charge
  twice (crates/service/src/runtime/retry.rs, crates/providers/src/error.rs); a finished job settles
  its reservation against its usage. State-changing HTTP requests go through an idempotency
  middleware (crates/service/src/idempotency.rs) over a table of keys
  (crates/storage/src/repositories/idempotency.rs); before that every request passes the authority
  check and authentication by session or API token (crates/service/src/auth.rs). Rendered files pass a quality gate
  (crates/media/src/qc).

  The speakers of a book are found by a language model: the paragraphs are cut into batches that fit
  its context window (crates/service/src/workflows/batching.rs), every batch is sent, its answer is
  resolved to byte ranges of the text (crates/providers/src/adapters/dialogue.rs), repaired, split
  and merged until it is answered (execution.rs), a journal of attempts decides what a restart may
  send again (recovery.rs), and the characters of all batches become one cast (cast.rs). The
  conversion then cuts each chapter into segments of one speaker
  (crates/service/src/conversion/planning.rs), makes a durable unit of work of every segment, every
  chapter and the final steps, each waiting for others (units.rs), and plays the segments to
  listeners in order while they are still being synthesised (playback.rs). After a restart the plan
  is computed again and compared with the stored units (units.rs, worker.rs).

  Every finished segment becomes a take of a proofing plan (crates/core/src/proofing.rs,
  conversion/proofing_plan.rs, synthesis.rs). In the workbench (crates/service/src/proofing.rs over
  crates/storage/src/repositories/proofing.rs) an editor changes texts and settings, selects takes,
  approves and locks segments; a proof export (conversion/admission.rs) takes exactly the selected
  recordings, if each was made from the inputs its segment has now. These inputs are hashed
  (conversion/provider_io.rs), and planner, editor and export must agree on the hash.

  THE MODEL. Structs are records, enums datatypes, Option is option, Result e a is the sum e + a.
  Integers are int or nat under the names i64, u64, u32, u16; where the code saturates, checks or
  wraps, the model does so with the operations of Prelude (sat_i64, u64_saturating_add,
  i64_try_from_u64 and so on); header bits of an MP3 frame are words. Strings are byte strings (char
  lists), times nanoseconds since the epoch. The SQLite tables are lists of row records in the
  record db; a storage method is a transaction db => storage_error + ('a * db) built with the
  combinators of Transactions, so an error leaves no trace, and commit gives the state after it.
  Service functions are sequences of such transactions with a clock that is read at numbered points
  (Service_Transactions): what earlier transactions wrote stays when a later one fails.

  THE THEORIES.
  Prelude: integer operations, ASCII text, the collections of simplification rules.
  Transactions, Database: the transaction combinators; the tables and storage errors.
  Domain_Base, Job_Lifecycle, Accounting_Domain: the domain model of crates/core/src (error,
  common, jobs, accounting) with its validators, the job state machine and the actions of
  crates/service/src/conversion.
  Calendar: the UTC windows of budget periods; the calendar itself (chrono) is a locale, with an
  interpretation on the proleptic Gregorian calendar.
  Budget_Repository, Budget_Correctness, Budget_Properties: every method of
  repositories/budgets.rs; the invariant of its tables and the lemmas about charging, reserving and
  settling.
  Job_Repository, Versioned_Store, Job_Correctness, Job_Properties: every method of
  repositories/jobs.rs; optimistic updates as the contract of a versioned store; export claims.
  Service_Base: errors of the service and their HTTP problem responses.
  Idempotency_Contract, Idempotency_Repository, Idempotency_Middleware, Idempotency_Properties: the
  state machine of one key as a locale, its implementation by the key table, and the middleware,
  split into the step before (enforce_admit) and after (enforce_finish) the handler, so that other
  requests may run in between.
  Rate_Cards: pricing and the amounts of estimates and events in the metric of a budget.
  Usage_Repository: append, get, list and totals of the ledger.
  Service_Transactions, Budget_Service, Budget_Service_Correctness, Budget_Service_Properties,
  Usage_Properties: rate-card choice, reservation, dispatch check and settlement of
  crates/service/src/accounting.rs over the repositories, and what they guarantee together.
  Provider_Errors, Retry, Retry_Properties: classification of provider errors, backoff and the retry
  loop, with the trace of dispatches, journal records and sleeps as its output.
  Qc_Base, Mp3_Scan, Mp3_Properties: findings and ranges; the MP3 frame scanner on the bytes of a
  file and the quality gate.
  Utf8_Text: character boundaries, slices and white space of byte strings.
  Detection_Types: the detection part of the provider interface (crates/providers/src/types.rs,
  crates/core/src/providers.rs).
  Detection_Batching, Detection_Batching_Correctness, Detection_Batching_Properties: configurations,
  fragments, batches and splits; that they cover the book exactly and fit the context window.
  Detection_Execution, Detection_Execution_Properties: the loop over the waiting parts of one batch
  with its repair and fallback counters, as a step function on a record of the loop's variables with
  a log of the requests sent.
  Dialogue_Resolution, Dialogue_Properties: the wire form of requests and answers, folding of texts,
  the search for a quoted passage, quotation marks, and the resolution of an answer to byte ranges.
  Detection_Recovery, Detection_Recovery_Properties: the writes of the attempt journal, the decision
  of a restart, and the step relation of the writes around a request, cut off by a crash anywhere.
  Cast_Merge, Cast_Properties: the groups of characters and the invariant that no canonical name of a
  group is a name of another.
  Speaker_Segments, Speaker_Properties: speaker ranges of a paragraph, pronunciation rules, segments.
  Playback, Playback_Properties: the order state of live playback and its refinement of in-order
  delivery.
  Proofing_Domain, Proofing_Repository: plans, segments, takes, selections and snapshots; every
  method of the proofing repository, over tables that embed those of the job repository.
  Synthesis_Inputs: the catalog, the voices and settings of speakers with their checks, the hash of
  the inputs, the plan of a stored segment and the check before a dispatch.
  Proofing_Service, Proofing_Correctness, Proofing_Runs, Proofing_Properties: the handlers of the
  workbench and the parts of a conversion that write its tables; the invariant workbench_ok; runs of
  all these operations.
  Conversion_Plan, Conversion_Correctness, Conversion_Graph, Conversion_Properties: the plan of a
  conversion, cache keys, the graph of units and its loading after a restart; that planner and
  workbench find the same inputs; that the graph is a schedule and survives a restart.
  Auth_Sessions, Auth_Properties: desktop bootstrap, LAN password and login throttle, sessions with
  CSRF tokens, API tokens, and the checks of a request; runs of these operations with the trace of
  what was issued and revoked.

  WHAT THE LEMMAS SHOW. Each operation comes with lemmas on its outcome on every branch, the
  invariant of the tables it keeps (budgets_wf, jobs_wf, outputs_wf, keys_wf, ledger_wf,
  proof_wf, workbench_ok), and step
  relations whose reachable states satisfy the invariant. The properties, numbered C1 and on, stand
  in the theories named *_Properties (the witnesses apply them to concrete states).

  LOOPS. Every loop is total: recursion over lists, or a function with a measure (the MP3 scan
  advances by at least 24 bytes per frame; the retry loop counts up to the maximal number of
  attempts; the detection loop has at most sixteen splits left to make, each part is sent at most
  twice, which bounds the requests of a batch by fifty). The only fuel is that of root_from in
  Cast_Merge, which follows merged groups: it is the number of groups, and a group that is looked up
  is live, so that it is not used up (root_live).

  PARAMETERS. Code outside the repository is an argument of the definitions that use it: the
  calendar, Unicode case folding and normalisation of paths, the request hash, UUID and header
  parsing of the HTTP library, JSON decoding of provider errors, the dispatched operation and the
  retry journal, random jitter, fresh identifiers and the clock. JSON payloads of rows are modelled
  as the values they encode. In the detection theories id_text prints a paragraph id, decode reads a
  stored result, the record exec_env holds the provider call with its retries and the writes that can
  fail, and lower is Unicode lower case; that the provider validated its answers
  (CharacterDetectionResult::validate in types.rs) is the hypothesis answers_validated;
  Dialogue_Properties shows it of the answers that dialogue.rs resolves. The record auth_env of Auth_Sessions holds the hash, the password derivation, base64, the secret vault and the
  parsers of addresses, URLs and UUIDs; that the hash has no collisions is a hypothesis where it is
  needed, and random tokens are arguments. The record wire_env of Dialogue_Resolution holds the JSON
  parser and Unicode lower case. The record text_env of Speaker_Segments holds the regular
  expressions, the hash and the alphanumeric class. The record workbench of Synthesis_Inputs is the
  catalog together with the answers of the project and provider repositories and the printers and
  parsers of JSON and UUIDs; book_source of Conversion_Plan holds the answers of the repositories a
  plan is loaded from. That the JSON of a segment plan is read back (serde) is a hypothesis of the
  restart, and new identifiers are an injective function of the place where one is drawn.

  NOT MODELLED. HTTP handlers, catalog views and event publication (crates/service/src/state.rs,
  api): glue over the repositories. Task scheduling and the global mutexes: the model interleaves
  whole transactions. Of the proofing workbench the estimate and start of regenerations, and of a
  conversion the running of its units (rendering, mixing, export). Process supervision, downloads, ffmpeg and provider clients, EPUB parsing,
  signal processing on floats, the desktop shell and the web front end: input and output, or
  libraries this code only calls.
\<close>

end
